(* ===== verification/Prelude.thy ===== *)
theory Prelude
  imports Main "HOL-Library.Word" "HOL-Library.Char_ord" "HOL-Library.List_Lexorder"
    "HOL-Library.Sublist"
begin

text \<open>
  Shared vocabulary of the development: the text operations of the Rust standard library that
  the sources under \<^verbatim>\<open>src/crates\<close> call, the result type used for every fallible function, and
  generic lemmas about them.

  A Rust \<^verbatim>\<open>&str\<close> is a sequence of UTF-8 bytes; here it is a HOL \<open>string\<close>, whose characters
  are the 256 byte values. So \<open>length\<close> is \<^verbatim>\<open>str::len\<close>, and byte slices compared against
  byte literals are strings as well. Bytes that take part in arithmetic are \<open>8 word\<close>s.
\<close>

named_theorems rust_str \<open>defining equations of the Rust text operations\<close>
named_theorems res_simps \<open>rewrite rules for results\<close>

section \<open>Results\<close>

type_synonym ('e, 'a) result = "'e + 'a"

fun bind_res :: "('e, 'a) result \<Rightarrow> ('a \<Rightarrow> ('e, 'b) result) \<Rightarrow> ('e, 'b) result" where
  "bind_res (Inl e) f = Inl e"
| "bind_res (Inr a) f = f a"

fun is_ok :: "('e, 'a) result \<Rightarrow> bool" where
  "is_ok (Inl e) = False"
| "is_ok (Inr a) = True"

lemma bind_res_Inr_iff [res_simps]:
  "bind_res r f = Inr b \<longleftrightarrow> (\<exists>a. r = Inr a \<and> f a = Inr b)"
  by (cases r) auto

lemma bind_res_Inl_iff [res_simps]:
  "bind_res r f = Inl e \<longleftrightarrow> (r = Inl e \<or> (\<exists>a. r = Inr a \<and> f a = Inl e))"
  by (cases r) auto

lemma is_ok_iff: "is_ok r \<longleftrightarrow> (\<exists>a. r = Inr a)"
  by (cases r) auto

text \<open>\<^verbatim>\<open>Option::ok_or\<close>.\<close>

fun ok_or :: "'a option \<Rightarrow> 'e \<Rightarrow> ('e, 'a) result" where
  "ok_or None e = Inl e"
| "ok_or (Some a) e = Inr a"

lemma ok_or_Inr_iff [res_simps]: "ok_or x e = Inr a \<longleftrightarrow> x = Some a"
  by (cases x) auto

section \<open>Characters\<close>

abbreviation code :: "char \<Rightarrow> nat" where
  "code c \<equiv> of_char c"

lemma code_less_256 [simp]: "code c < 256"
  by (metis of_char_mod_256 mod_less_divisor zero_less_numeral)

definition is_upper :: "char \<Rightarrow> bool" where
  "is_upper c \<longleftrightarrow> 65 \<le> code c \<and> code c \<le> 90"

definition is_lower :: "char \<Rightarrow> bool" where
  "is_lower c \<longleftrightarrow> 97 \<le> code c \<and> code c \<le> 122"

definition is_digit :: "char \<Rightarrow> bool" where
  "is_digit c \<longleftrightarrow> 48 \<le> code c \<and> code c \<le> 57"

definition is_alpha :: "char \<Rightarrow> bool" where
  "is_alpha c \<longleftrightarrow> is_upper c \<or> is_lower c"

definition is_alnum :: "char \<Rightarrow> bool" where
  "is_alnum c \<longleftrightarrow> is_alpha c \<or> is_digit c"

definition is_ascii :: "char \<Rightarrow> bool" where
  "is_ascii c \<longleftrightarrow> code c < 128"

text \<open>\<^verbatim>\<open>u8::is_ascii_whitespace\<close>: space, tab, line feed, form feed, carriage return.\<close>

definition is_ascii_ws :: "char \<Rightarrow> bool" where
  "is_ascii_ws c \<longleftrightarrow> code c \<in> {32, 9, 10, 12, 13}"

definition lower_char :: "char \<Rightarrow> char" where
  "lower_char c = (if is_upper c then char_of (code c + 32) else c)"

definition upper_char :: "char \<Rightarrow> char" where
  "upper_char c = (if is_lower c then char_of (code c - 32) else c)"

definition to_lower :: "string \<Rightarrow> string" where
  "to_lower s = map lower_char s"

definition to_upper :: "string \<Rightarrow> string" where
  "to_upper s = map upper_char s"

text \<open>\<^verbatim>\<open>str::eq_ignore_ascii_case\<close>.\<close>

definition eq_ic :: "string \<Rightarrow> string \<Rightarrow> bool" where
  "eq_ic a b \<longleftrightarrow> to_lower a = to_lower b"

lemma code_lower_char:
  "code (lower_char c) = (if is_upper c then code c + 32 else code c)"
  by (simp add: lower_char_def is_upper_def)

lemma not_upper_lower_char [simp]: "\<not> is_upper (lower_char c)"
  by (auto simp: is_upper_def code_lower_char)

lemma lower_char_idem [simp]: "lower_char (lower_char c) = lower_char c"
  by (simp add: lower_char_def[of "lower_char c"])

lemma to_lower_idem [simp]: "to_lower (to_lower s) = to_lower s"
  by (simp add: to_lower_def comp_def)

lemma to_lower_Nil [simp]: "to_lower [] = []"
  by (simp add: to_lower_def)

lemma to_lower_Cons [simp]: "to_lower (c # s) = lower_char c # to_lower s"
  by (simp add: to_lower_def)

lemma to_lower_append [simp]: "to_lower (a @ b) = to_lower a @ to_lower b"
  by (simp add: to_lower_def)

lemma length_to_lower [simp]: "length (to_lower s) = length s"
  by (simp add: to_lower_def)

lemma to_lower_eq_Nil [simp]: "to_lower s = [] \<longleftrightarrow> s = []"
  by (simp add: to_lower_def)

lemma to_lower_fixed_iff: "to_lower s = s \<longleftrightarrow> (\<forall>c \<in> set s. \<not> is_upper c)"
proof (induction s)
  case (Cons c s)
  have "lower_char c = c \<longleftrightarrow> \<not> is_upper c"
    using not_upper_lower_char[of c] by (auto simp: lower_char_def)
  with Cons show ?case by simp
qed simp

lemma eq_ic_refl [simp, intro]: "eq_ic a a"
  by (simp add: eq_ic_def)

lemma eq_ic_sym: "eq_ic a b \<longleftrightarrow> eq_ic b a"
  by (auto simp: eq_ic_def)

lemma eq_ic_trans: "eq_ic a b \<Longrightarrow> eq_ic b c \<Longrightarrow> eq_ic a c"
  by (simp add: eq_ic_def)

lemma eq_ic_lower [simp]: "eq_ic (to_lower a) b \<longleftrightarrow> eq_ic a b" "eq_ic a (to_lower b) \<longleftrightarrow> eq_ic a b"
  by (simp_all add: eq_ic_def)

section \<open>Whitespace\<close>

text \<open>
  \<open>ws_len s\<close> is the number of bytes of the \<^verbatim>\<open>char::is_whitespace\<close> character that \<open>s\<close> starts
  with, 0 if it starts with none: the ASCII ones, U+0085 and U+00A0 (two bytes), and U+1680,
  U+2000 to U+200A, U+2028, U+2029, U+202F, U+205F and U+3000 (three bytes).
\<close>

definition ws1 :: "char \<Rightarrow> bool" where
  "ws1 c \<longleftrightarrow> (9 \<le> code c \<and> code c \<le> 13) \<or> code c = 32"

definition ws2 :: "char \<Rightarrow> char \<Rightarrow> bool" where
  "ws2 a b \<longleftrightarrow> code a = 194 \<and> code b \<in> {133, 160}"

definition ws3 :: "char \<Rightarrow> char \<Rightarrow> char \<Rightarrow> bool" where
  "ws3 a b c \<longleftrightarrow>
     (code a = 225 \<and> code b = 154 \<and> code c = 128)
   \<or> (code a = 226 \<and> code b = 128 \<and> (128 \<le> code c \<and> code c \<le> 138 \<or> code c \<in> {168, 169, 175}))
   \<or> (code a = 226 \<and> code b = 129 \<and> code c = 159)
   \<or> (code a = 227 \<and> code b = 128 \<and> code c = 128)"

fun ws_len :: "string \<Rightarrow> nat" where
  "ws_len (a # b # c # s) =
     (if ws1 a then 1 else if ws2 a b then 2 else if ws3 a b c then 3 else 0)"
| "ws_len [a, b] = (if ws1 a then 1 else if ws2 a b then 2 else 0)"
| "ws_len [a] = (if ws1 a then 1 else 0)"
| "ws_len [] = 0"

lemma ws_len_le: "ws_len s \<le> length s"
  by (cases s rule: ws_len.cases) auto

function trim_start :: "string \<Rightarrow> string" where
  "trim_start s = (if ws_len s = 0 then s else trim_start (drop (ws_len s) s))"
  by pat_completeness auto
termination
proof (relation "measure length", simp)
  fix s :: string
  assume "ws_len s \<noteq> 0"
  with ws_len_le[of s] show "(drop (ws_len s) s, s) \<in> measure length" by simp
qed

declare trim_start.simps [simp del]

text \<open>
  The end of the text is trimmed on the reversed bytes, with the bytes of each whitespace
  character reversed. UTF-8 is self-synchronising, so a valid text ends with the bytes of one of
  these characters exactly when its last character is that one.
\<close>

fun rws_len :: "string \<Rightarrow> nat" where
  "rws_len (c # b # a # s) =
     (if ws1 c then 1 else if ws2 b c then 2 else if ws3 a b c then 3 else 0)"
| "rws_len [c, b] = (if ws1 c then 1 else if ws2 b c then 2 else 0)"
| "rws_len [c] = (if ws1 c then 1 else 0)"
| "rws_len [] = 0"

lemma rws_len_le: "rws_len s \<le> length s"
  by (cases s rule: rws_len.cases) auto

function rtrim :: "string \<Rightarrow> string" where
  "rtrim s = (if rws_len s = 0 then s else rtrim (drop (rws_len s) s))"
  by pat_completeness auto
termination
proof (relation "measure length", simp)
  fix s :: string
  assume "rws_len s \<noteq> 0"
  with rws_len_le[of s] show "(drop (rws_len s) s, s) \<in> measure length" by simp
qed

declare rtrim.simps [simp del]

definition trim_end :: "string \<Rightarrow> string" where
  "trim_end s = rev (rtrim (rev s))"

definition trim :: "string \<Rightarrow> string" where
  "trim s = trim_end (trim_start s)"

lemma trim_start_suffix: "suffix (trim_start s) s"
proof (induction s rule: trim_start.induct)
  case (1 s)
  show ?case
  proof (cases "ws_len s = 0")
    case False
    with "1" have "suffix (trim_start (drop (ws_len s) s)) (drop (ws_len s) s)" by blast
    with False show ?thesis
      by (subst trim_start.simps) (auto intro: suffix_order.trans suffix_drop)
  qed (simp add: trim_start.simps)
qed

lemma rtrim_suffix: "suffix (rtrim s) s"
proof (induction s rule: rtrim.induct)
  case (1 s)
  show ?case
  proof (cases "rws_len s = 0")
    case False
    with "1" have "suffix (rtrim (drop (rws_len s) s)) (drop (rws_len s) s)" by blast
    with False show ?thesis
      by (subst rtrim.simps) (auto intro: suffix_order.trans suffix_drop)
  qed (simp add: rtrim.simps)
qed

lemma trim_end_prefix: "prefix (trim_end s) s"
  using rtrim_suffix[of "rev s"] by (simp add: trim_end_def suffix_to_prefix)

lemma trim_sublist: "sublist (trim s) s"
proof -
  have "sublist (trim s) (trim_start s)"
    unfolding trim_def by (rule prefix_imp_sublist[OF trim_end_prefix])
  also have "sublist (trim_start s) s"
    by (rule suffix_imp_sublist[OF trim_start_suffix])
  finally show ?thesis .
qed

lemma set_trim: "set (trim s) \<subseteq> set s"
  using trim_sublist by (rule set_mono_sublist)

lemma length_trim: "length (trim s) \<le> length s"
  using trim_sublist by (rule sublist_length_le)

end
