(* ===== verification/Rust_Str.thy ===== *)
theory Rust_Str
  imports Prelude
begin

text \<open>
  Searching and splitting, as the Rust standard library defines them on \<^verbatim>\<open>str\<close> and on byte
  slices: \<^verbatim>\<open>starts_with\<close>, \<^verbatim>\<open>strip_prefix\<close>, \<^verbatim>\<open>contains\<close>, \<^verbatim>\<open>find\<close>, \<^verbatim>\<open>replace\<close>, \<^verbatim>\<open>split\<close>,
  \<^verbatim>\<open>split_once\<close>, \<^verbatim>\<open>lines\<close>, \<^verbatim>\<open>split_whitespace\<close> and the decimal and hexadecimal parsers.
\<close>

section \<open>Prefixes\<close>

fun strip_prefix :: "'a list \<Rightarrow> 'a list \<Rightarrow> 'a list option" where
  "strip_prefix [] s = Some s"
| "strip_prefix (p # ps) [] = None"
| "strip_prefix (p # ps) (c # cs) = (if p = c then strip_prefix ps cs else None)"

definition starts_with :: "'a list \<Rightarrow> 'a list \<Rightarrow> bool" where
  "starts_with s p \<longleftrightarrow> strip_prefix p s \<noteq> None"

definition strip_suffix :: "'a list \<Rightarrow> 'a list \<Rightarrow> 'a list option" where
  "strip_suffix p s = map_option rev (strip_prefix (rev p) (rev s))"

definition ends_with :: "'a list \<Rightarrow> 'a list \<Rightarrow> bool" where
  "ends_with s p \<longleftrightarrow> starts_with (rev s) (rev p)"

lemma strip_prefix_Some_iff: "strip_prefix p s = Some r \<longleftrightarrow> s = p @ r"
  by (induction p s rule: strip_prefix.induct) auto

lemma strip_prefix_append [simp]: "strip_prefix p (p @ r) = Some r"
  by (simp add: strip_prefix_Some_iff)

lemma strip_prefix_None_iff: "strip_prefix p s = None \<longleftrightarrow> (\<forall>r. s \<noteq> p @ r)"
  by (metis strip_prefix_Some_iff not_Some_eq)

lemma starts_with_iff: "starts_with s p \<longleftrightarrow> (\<exists>r. s = p @ r)"
  by (auto simp: starts_with_def strip_prefix_Some_iff)

lemma starts_with_Nil [simp]: "starts_with s []"
  by (simp add: starts_with_def)

lemma starts_with_append [simp]: "starts_with (p @ r) p"
  by (auto simp: starts_with_iff)

lemma strip_suffix_Some_iff: "strip_suffix p s = Some r \<longleftrightarrow> s = r @ p"
  by (auto simp: strip_suffix_def strip_prefix_Some_iff rev_swap)

section \<open>Searching\<close>

text \<open>\<open>find_sub p s\<close> is \<^verbatim>\<open>s.find(p)\<close>: the byte offset of the first occurrence.\<close>

fun find_sub :: "'a list \<Rightarrow> 'a list \<Rightarrow> nat option" where
  "find_sub p [] = (if p = [] then Some 0 else None)"
| "find_sub p (c # cs) =
     (if starts_with (c # cs) p then Some 0 else map_option Suc (find_sub p cs))"

definition contains :: "'a list \<Rightarrow> 'a list \<Rightarrow> bool" where
  "contains s p \<longleftrightarrow> find_sub p s \<noteq> None"

lemma find_sub_SomeD:
  "find_sub p s = Some i \<Longrightarrow> i + length p \<le> length s \<and> take (length p) (drop i s) = p"
proof (induction p s arbitrary: i rule: find_sub.induct)
  case (2 p c cs)
  show ?case
  proof (cases "starts_with (c # cs) p")
    case True
    then obtain r where r: "c # cs = p @ r" by (auto simp: starts_with_iff)
    then have "length p \<le> length (c # cs)" by (metis length_append le_add1)
    moreover have "i = 0" using "2.prems" True by simp
    moreover have "take (length p) (c # cs) = p" by (simp add: r)
    ultimately show ?thesis by simp
  next
    case False
    with 2 show ?thesis by auto
  qed
qed (auto split: if_splits)

lemma find_sub_decomp:
  "find_sub p s = Some i \<Longrightarrow> s = take i s @ p @ drop (i + length p) s"
  by (metis find_sub_SomeD append_take_drop_id drop_drop add.commute)

lemma find_sub_append: "find_sub p (a @ p @ b) \<noteq> None"
proof (induction a)
  case Nil
  have "starts_with (p @ b) p" by simp
  then show ?case by (cases "p @ b") (simp_all del: starts_with_append)
next
  case (Cons x a)
  then show ?case by simp
qed

lemma contains_iff: "contains s p \<longleftrightarrow> (\<exists>a b. s = a @ p @ b)"
  unfolding contains_def by (metis find_sub_append find_sub_decomp option.exhaust)

lemma find_sub_first:
  "find_sub p s = Some i \<Longrightarrow> j < i \<Longrightarrow> \<not> starts_with (drop j s) p"
proof (induction p s arbitrary: i j rule: find_sub.induct)
  case (2 p c cs)
  then show ?case by (cases j) (auto split: if_splits)
qed (auto split: if_splits)

lemma find_sub_fresh_head:
  "p \<notin> set a \<Longrightarrow> find_sub (p # ps) (a @ (p # ps) @ b) = Some (length a)"
proof (induction a)
  case Nil
  show ?case by (simp add: starts_with_iff)
next
  case (Cons x a)
  then have "\<not> starts_with (x # a @ (p # ps) @ b) (p # ps)" by (auto simp: starts_with_iff)
  with Cons show ?case by simp
qed

lemma find_sub_None_head: "p \<notin> set s \<Longrightarrow> find_sub (p # ps) s = None"
  by (induction s) (auto simp: starts_with_iff)

text \<open>\<^verbatim>\<open>Iterator::position\<close>.\<close>

fun position :: "('a \<Rightarrow> bool) \<Rightarrow> 'a list \<Rightarrow> nat option" where
  "position P [] = None"
| "position P (x # xs) = (if P x then Some 0 else map_option Suc (position P xs))"

lemma position_SomeD:
  "position P xs = Some i \<Longrightarrow> i < length xs \<and> P (xs ! i) \<and> (\<forall>j < i. \<not> P (xs ! j))"
proof (induction xs arbitrary: i)
  case (Cons x xs)
  then show ?case by (fastforce split: if_splits simp: less_Suc_eq_0_disj)
qed simp

lemma position_None_iff: "position P xs = None \<longleftrightarrow> (\<forall>x \<in> set xs. \<not> P x)"
  by (induction xs) auto

lemma position_append:
  "(\<forall>x \<in> set a. \<not> P x) \<Longrightarrow> P x \<Longrightarrow> position P (a @ x # b) = Some (length a)"
  by (induction a) auto

lemma drop_position:
  "(case position P xs of Some i \<Rightarrow> drop i xs | None \<Rightarrow> []) = dropWhile (\<lambda>x. \<not> P x) xs"
  by (induction xs) (auto split: option.splits)

lemma take_position:
  "take (case position P xs of Some i \<Rightarrow> i | None \<Rightarrow> length xs) xs = takeWhile (\<lambda>x. \<not> P x) xs"
  by (induction xs) (auto split: option.splits)

section \<open>Replacing\<close>

text \<open>
  \<^verbatim>\<open>str::replace\<close>: occurrences from left to right, without overlap. The sources never call it
  with an empty pattern; the model returns the text unchanged there.
\<close>

function replace_all :: "'a list \<Rightarrow> 'a list \<Rightarrow> 'a list \<Rightarrow> 'a list" where
  "replace_all p q s =
     (if p = [] then s
      else case s of [] \<Rightarrow> []
      | c # cs \<Rightarrow> (case strip_prefix p s of
            Some r \<Rightarrow> q @ replace_all p q r
          | None \<Rightarrow> c # replace_all p q cs))"
  by pat_completeness auto
termination
  by (relation "measure (\<lambda>(p, q, s). length s)") (auto simp: strip_prefix_Some_iff)

declare replace_all.simps [simp del]

lemma replace_all_Nil [simp]: "replace_all p q [] = []"
  by (simp add: replace_all.simps)

lemma replace_all_Nil_pattern [simp]: "replace_all [] q s = s"
  by (simp add: replace_all.simps)

lemma replace_all_id: "\<not> contains s p \<Longrightarrow> replace_all p q s = s"
proof (induction s)
  case (Cons c s)
  have "strip_prefix p (c # s) = None"
    using Cons.prems by (auto simp: strip_prefix_None_iff contains_iff dest: spec[of _ "[]"])
  moreover have "\<not> contains s p"
    using Cons.prems by (metis contains_iff append_Cons)
  ultimately show ?case using Cons.IH by (simp add: replace_all.simps[of p q "c # s"])
qed simp

section \<open>Splitting\<close>

text \<open>\<^verbatim>\<open>str::split\<close> on one character: always at least one piece.\<close>

fun split_on :: "'a \<Rightarrow> 'a list \<Rightarrow> 'a list list" where
  "split_on d [] = [[]]"
| "split_on d (c # cs) =
     (if c = d then [] # split_on d cs
      else case split_on d cs of [] \<Rightarrow> [[c]] | w # ws \<Rightarrow> (c # w) # ws)"

fun join :: "'a list \<Rightarrow> 'a list list \<Rightarrow> 'a list" where
  "join sep [] = []"
| "join sep [w] = w"
| "join sep (w # v # ws) = w @ sep @ join sep (v # ws)"

lemma split_on_not_Nil [simp]: "split_on d s \<noteq> []"
  by (induction s) (auto split: list.splits)

lemma join_split_on: "join [d] (split_on d s) = s"
proof (induction s)
  case (Cons c s)
  obtain w ws where w: "split_on d s = w # ws" by (cases "split_on d s") auto
  with Cons show ?case by (cases ws) auto
qed simp

lemma split_on_no_sep: "w \<in> set (split_on d s) \<Longrightarrow> d \<notin> set w"
  by (induction s arbitrary: w) (fastforce split: list.splits if_splits)+

lemma split_on_single: "d \<notin> set s \<Longrightarrow> split_on d s = [s]"
  by (induction s) auto

lemma hd_split_on: "hd (split_on d s) = takeWhile (\<lambda>c. c \<noteq> d) s"
  by (induction s) (auto split: list.splits)

lemma split_on_append: "d \<notin> set a \<Longrightarrow> split_on d (a @ d # b) = a # split_on d b"
  by (induction a) auto

text \<open>\<^verbatim>\<open>str::split_once\<close> on one character.\<close>

fun split_once :: "'a \<Rightarrow> 'a list \<Rightarrow> ('a list \<times> 'a list) option" where
  "split_once d [] = None"
| "split_once d (c # cs) =
     (if c = d then Some ([], cs) else map_option (\<lambda>(a, b). (c # a, b)) (split_once d cs))"

lemma split_once_Some_iff:
  "split_once d s = Some (a, b) \<longleftrightarrow> s = a @ d # b \<and> d \<notin> set a"
proof (induction s arbitrary: a)
  case (Cons c s)
  then show ?case by (cases a) auto
qed simp

lemma split_once_None_iff: "split_once d s = None \<longleftrightarrow> d \<notin> set s"
  by (induction s) auto

text \<open>\<^verbatim>\<open>str::rsplit_once\<close> on one character.\<close>

definition rsplit_once :: "'a \<Rightarrow> 'a list \<Rightarrow> ('a list \<times> 'a list) option" where
  "rsplit_once d s = map_option (\<lambda>(b, a). (rev a, rev b)) (split_once d (rev s))"

lemma rsplit_once_Some_iff: "rsplit_once d s = Some (a, b) \<longleftrightarrow> s = a @ d # b \<and> d \<notin> set b"
proof -
  have "rsplit_once d s = Some (a, b) \<longleftrightarrow> split_once d (rev s) = Some (rev b, rev a)"
    by (auto simp: rsplit_once_def rev_swap)
  also have "\<dots> \<longleftrightarrow> s = a @ d # b \<and> d \<notin> set b"
    by (auto simp: split_once_Some_iff rev_swap)
  finally show ?thesis .
qed

lemma rsplit_once_None_iff: "rsplit_once d s = None \<longleftrightarrow> d \<notin> set s"
  by (simp add: rsplit_once_def split_once_None_iff)

text \<open>\<^verbatim>\<open>str::split_once\<close> on a text pattern.\<close>

definition split_once_str :: "'a list \<Rightarrow> 'a list \<Rightarrow> ('a list \<times> 'a list) option" where
  "split_once_str p s =
     map_option (\<lambda>i. (take i s, drop (i + length p) s)) (find_sub p s)"

lemma split_once_str_SomeD: "split_once_str p s = Some (a, b) \<Longrightarrow> s = a @ p @ b"
  by (auto simp: split_once_str_def dest: find_sub_decomp)

text \<open>
  \<^verbatim>\<open>str::lines\<close>: split at line feeds, without the empty piece after a final line feed; a line
  that ends in a line feed loses one carriage return before it.
\<close>

definition strip_cr :: "string \<Rightarrow> string" where
  "strip_cr l = (case strip_suffix [CHR 0x0D] l of Some r \<Rightarrow> r | None \<Rightarrow> l)"

definition lines :: "string \<Rightarrow> string list" where
  "lines s = (let ps = split_on (CHR 0x0A) s
              in map strip_cr (butlast ps) @ (if last ps = [] then [] else [last ps]))"

text \<open>\<^verbatim>\<open>str::split_whitespace\<close>.\<close>

function words_from :: "string \<Rightarrow> string \<Rightarrow> string list" where
  "words_from acc [] = (if acc = [] then [] else [rev acc])"
| "words_from acc (c # cs) =
     (let n = ws_len (c # cs)
      in if n = 0 then words_from (c # acc) cs
         else (if acc = [] then [] else [rev acc]) @ words_from [] (drop n (c # cs)))"
  by pat_completeness auto
termination
  by (relation "measure (\<lambda>(acc, s). length s)") auto

definition split_whitespace :: "string \<Rightarrow> string list" where
  "split_whitespace s = words_from [] s"

lemma words_from_nonempty: "w \<in> set (words_from acc s) \<Longrightarrow> w \<noteq> []"
  by (induction acc s rule: words_from.induct) (auto simp: Let_def split: if_splits)

section \<open>Numbers\<close>

text \<open>
  \<^verbatim>\<open>from_str_radix\<close> for an unsigned type: an optional plus sign, at least one digit, and
  \<open>None\<close> when a byte is no digit of the radix or the value exceeds \<open>maxv\<close>.
\<close>

definition digit_val :: "char \<Rightarrow> nat" where
  "digit_val c = (if is_digit c then code c - 48
                  else if is_lower c then code c - 87
                  else if is_upper c then code c - 55 else 36)"

fun digits_val :: "nat \<Rightarrow> nat \<Rightarrow> nat \<Rightarrow> string \<Rightarrow> nat option" where
  "digits_val radix maxv acc [] = Some acc"
| "digits_val radix maxv acc (c # cs) =
     (let d = digit_val c; v = acc * radix + d
      in if d < radix \<and> v \<le> maxv then digits_val radix maxv v cs else None)"

definition parse_unsigned :: "nat \<Rightarrow> nat \<Rightarrow> string \<Rightarrow> nat option" where
  "parse_unsigned radix maxv s =
     (let t = (case s of [] \<Rightarrow> [] | c # cs \<Rightarrow> if c = CHR ''+'' then cs else s)
      in if t = [] then None else digits_val radix maxv 0 t)"

lemma digits_val_le: "acc \<le> maxv \<Longrightarrow> digits_val radix maxv acc s = Some v \<Longrightarrow> v \<le> maxv"
  by (induction s arbitrary: acc) (auto simp: Let_def split: if_splits)

lemma parse_unsigned_le: "parse_unsigned radix maxv s = Some v \<Longrightarrow> v \<le> maxv"
  using digits_val_le[of 0 maxv radix _ v]
  by (auto simp: parse_unsigned_def Let_def split: if_splits)

text \<open>Decimal text of a natural number, as \<^verbatim>\<open>format!\<close> prints it.\<close>

fun show_nat :: "nat \<Rightarrow> string" where
  "show_nat n = (if n < 10 then [char_of (n + 48)]
                 else show_nat (n div 10) @ [char_of (n mod 10 + 48)])"

declare show_nat.simps [simp del]

lemma show_nat_not_Nil [simp]: "show_nat n \<noteq> []"
  by (subst show_nat.simps) simp

lemma show_nat_digits: "list_all is_digit (show_nat n)"
proof (induction n rule: show_nat.induct)
  case (1 n)
  have "is_digit (char_of (k + 48))" if "k < 10" for k :: nat
    using that by (simp add: is_digit_def)
  with 1 show ?case
    by (subst show_nat.simps) simp
qed

section \<open>UTF-8\<close>

text \<open>
  \<^verbatim>\<open>str::from_utf8\<close> accepts exactly the well-formed byte sequences of the Unicode standard.
  \<open>utf8_len s\<close> is the length of the character \<open>s\<close> starts with, 0 where it starts with none.
\<close>

definition in_range :: "nat \<Rightarrow> nat \<Rightarrow> char \<Rightarrow> bool" where
  "in_range lo hi c \<longleftrightarrow> lo \<le> code c \<and> code c \<le> hi"

definition utf8_second :: "char \<Rightarrow> char \<Rightarrow> bool" where
  "utf8_second a b \<longleftrightarrow>
     (if code a = 224 then in_range 160 191 b
      else if code a = 237 then in_range 128 159 b
      else if code a = 240 then in_range 144 191 b
      else if code a = 244 then in_range 128 143 b
      else in_range 128 191 b)"

definition utf8_width :: "char \<Rightarrow> nat" where
  "utf8_width a = (if code a < 128 then 1 else if in_range 194 223 a then 2
     else if in_range 224 239 a then 3 else if in_range 240 244 a then 4 else 0)"

fun utf8_len :: "string \<Rightarrow> nat" where
  "utf8_len [] = 0"
| "utf8_len (a # s) =
     (let w = utf8_width a
      in if w \<le> 1 then w
         else if length s < w - 1 \<or> \<not> utf8_second a (s ! 0)
           \<or> \<not> list_all (in_range 128 191) (take (w - 2) (drop 1 s)) then 0
         else w)"

function utf8_ok :: "string \<Rightarrow> bool" where
  "utf8_ok s = (if s = [] then True else if utf8_len s = 0 then False
     else utf8_ok (drop (utf8_len s) s))"
  by pat_completeness auto
termination
  by (relation "measure length") auto

declare utf8_ok.simps [simp del]

lemma utf8_ok_Nil [simp]: "utf8_ok []"
  by (simp add: utf8_ok.simps)

lemma utf8_ok_ascii_Cons:
  assumes "code a < 128"
  shows "utf8_ok (a # s) \<longleftrightarrow> utf8_ok s"
  using assms by (subst utf8_ok.simps) (simp add: utf8_width_def)

lemma utf8_ok_ascii: "list_all is_ascii s \<Longrightarrow> utf8_ok s"
  by (induction s) (auto simp: utf8_ok_ascii_Cons is_ascii_def)

end
