(* ===== verification/Seal_Base.thy ===== *)
theory Seal_Base
  imports Rust_Str
begin

text \<open>
  Crate \<^verbatim>\<open>basecrawl-seal\<close>: its error type (\<^verbatim>\<open>error.rs\<close>), the lowercase hexadecimal codec and
  the enclave identity (\<^verbatim>\<open>identity.rs\<close>), and the small byte routines that the task and the
  result envelopes share (\<^verbatim>\<open>task.rs\<close>). Hashing, X25519, the sealed box and base64 come from
  third-party crates: they are the fields of \<open>crypto_ops\<close>, an argument of every definition that
  uses them.
\<close>

unbundle bit_operations_syntax

section \<open>Third-party cryptography\<close>

record crypto_ops =
  sha256 :: "string \<Rightarrow> string"
  sha512 :: "string \<Rightarrow> string"
  x25519_public :: "string \<Rightarrow> string"
  box_seal :: "string \<Rightarrow> string \<Rightarrow> string option"
  box_unseal :: "string \<Rightarrow> string \<Rightarrow> string option"
  b64std_encode :: "string \<Rightarrow> string"
  b64std_decode :: "string \<Rightarrow> string option"
  b64url_encode_nopad :: "string \<Rightarrow> string"
  b64url_decode_padded :: "string \<Rightarrow> string option"

text \<open>A concrete instance, on which the witnesses evaluate.\<close>

definition demo_ops :: crypto_ops where
  "demo_ops = \<lparr> sha256 = (\<lambda>s. take 32 (s @ replicate 32 (CHR ''.''))),
     sha512 = (\<lambda>s. take 64 (s @ replicate 64 (CHR ''.''))), x25519_public = rev,
     box_seal = (\<lambda>pk m. Some (replicate 48 (CHR ''*'') @ m)),
     box_unseal = (\<lambda>sk c. Some (drop 48 c)),
     b64std_encode = id, b64std_decode = Some,
     b64url_encode_nopad = id, b64url_decode_padded = (\<lambda>s. Some (takeWhile (\<lambda>c. c \<noteq> CHR ''='') s)) \<rparr>"

section \<open>Errors\<close>

datatype seal_error =
    KeyReleaseDenied string
  | KeyReleaseUnreachable
  | KeyReleaseMidExchange
  | KeyReleaseProtocol string
  | KeyNotReleased
  | AuthenticationFailed
  | InvalidEnvelope string
  | MalformedPlaintext
  | InvalidIdentity string
  | QuoteFailed string
  | SealTransport string
  | SealDns string

fun seal_error_kind :: "seal_error \<Rightarrow> string" where
  "seal_error_kind (KeyReleaseDenied _) = ''key_release_denied''"
| "seal_error_kind KeyReleaseUnreachable = ''key_release_unreachable''"
| "seal_error_kind KeyReleaseMidExchange = ''key_release_mid_exchange''"
| "seal_error_kind (KeyReleaseProtocol _) = ''key_release_protocol''"
| "seal_error_kind KeyNotReleased = ''key_not_released''"
| "seal_error_kind AuthenticationFailed = ''authentication_failed''"
| "seal_error_kind (InvalidEnvelope _) = ''invalid_envelope''"
| "seal_error_kind MalformedPlaintext = ''malformed_plaintext''"
| "seal_error_kind (InvalidIdentity _) = ''invalid_identity''"
| "seal_error_kind (QuoteFailed _) = ''quote_failed''"
| "seal_error_kind (SealTransport _) = ''transport''"
| "seal_error_kind (SealDns _) = ''dns''"

definition is_auth_failure :: "seal_error \<Rightarrow> bool" where
  "is_auth_failure e \<longleftrightarrow> e \<in> {AuthenticationFailed, KeyNotReleased, MalformedPlaintext}"

section \<open>Hexadecimal\<close>

definition hex_digits :: string where
  "hex_digits = ''0123456789abcdef''"

definition hex_char :: "nat \<Rightarrow> char" where
  "hex_char n = hex_digits ! n"

definition hex_encode :: "string \<Rightarrow> string" where
  "hex_encode bs = concat (map (\<lambda>b. [hex_char (code b div 16), hex_char (code b mod 16)]) bs)"

definition is_hex_digit :: "char \<Rightarrow> bool" where
  "is_hex_digit c \<longleftrightarrow> is_digit c \<or> (97 \<le> code c \<and> code c \<le> 102) \<or> (65 \<le> code c \<and> code c \<le> 70)"

definition is_lower_hex :: "char \<Rightarrow> bool" where
  "is_lower_hex c \<longleftrightarrow> is_digit c \<or> (97 \<le> code c \<and> code c \<le> 102)"

fun decode_pairs :: "string \<Rightarrow> string option" where
  "decode_pairs [] = Some []"
| "decode_pairs [c] = None"
| "decode_pairs (a # b # cs) =
     (case parse_unsigned 16 255 [a, b] of
        None \<Rightarrow> None
      | Some v \<Rightarrow> map_option ((#) (char_of v)) (decode_pairs cs))"

definition hex_decode_32 :: "string \<Rightarrow> (seal_error, string) result" where
  "hex_decode_32 h =
     (if length h \<noteq> 64 \<or> \<not> list_all is_hex_digit h
      then Inl (InvalidIdentity ''key must be 32 lowercase hex bytes'')
      else if h \<noteq> to_lower h
      then Inl (InvalidIdentity ''key hex must be lowercase'')
      else ok_or (decode_pairs h) (InvalidIdentity ''key is not hexadecimal''))"

lemma length_hex_encode: "length (hex_encode bs) = 2 * length bs"
  by (induction bs) (auto simp: hex_encode_def)

lemma hex_encode_Nil [simp]: "hex_encode [] = []"
  by (simp add: hex_encode_def)

lemma hex_encode_Cons:
  "hex_encode (b # bs) = hex_char (code b div 16) # hex_char (code b mod 16) # hex_encode bs"
  by (simp add: hex_encode_def)

lemma code_hex_char:
  assumes "n < 16"
  shows "code (hex_char n) = (if n < 10 then 48 + n else 87 + n)"
proof -
  have "list_all (\<lambda>n. code (hex_char n) = (if n < 10 then 48 + n else 87 + n)) [0..<16]"
    by code_simp
  with assms show ?thesis by (simp add: list_all_iff)
qed

lemma hex_char_props:
  assumes "n < 16"
  shows "digit_val (hex_char n) = n" and "is_lower_hex (hex_char n)"
    and "hex_char n \<noteq> CHR ''+''"
proof -
  have "code (CHR ''+'') = 43" by simp
  then have "hex_char n \<noteq> CHR ''+''"
    using code_hex_char[OF assms] by (auto split: if_splits)
  then have "digit_val (hex_char n) = n \<and> is_lower_hex (hex_char n) \<and> hex_char n \<noteq> CHR ''+''"
    using assms code_hex_char[OF assms]
    by (simp add: digit_val_def is_lower_hex_def is_digit_def is_lower_def is_upper_def)
  then show "digit_val (hex_char n) = n" and "is_lower_hex (hex_char n)"
    and "hex_char n \<noteq> CHR ''+''" by auto
qed

lemma lower_hex_digit: "is_lower_hex c \<Longrightarrow> is_hex_digit c"
  by (auto simp: is_lower_hex_def is_hex_digit_def)

lemma lower_hex_not_upper: "is_lower_hex c \<Longrightarrow> \<not> is_upper c"
  by (auto simp: is_lower_hex_def is_upper_def is_digit_def)

lemma hex_digit_lower: "is_hex_digit c \<Longrightarrow> \<not> is_upper c \<Longrightarrow> is_lower_hex c"
  by (auto simp: is_lower_hex_def is_hex_digit_def is_upper_def)

lemma code_div_16: "code (b :: char) div 16 < 16"
  using code_less_256[of b] by (intro less_mult_imp_div_less) simp

lemma hex_encode_lower_hex: "list_all is_lower_hex (hex_encode bs)"
proof (induction bs)
  case (Cons b bs)
  then show ?case by (simp add: hex_encode_Cons hex_char_props code_div_16)
qed simp

lemma parse_two_hex:
  assumes "m < 16" and "n < 16"
  shows "parse_unsigned 16 255 [hex_char m, hex_char n] = Some (16 * m + n)"
  using assms hex_char_props[of m] hex_char_props[of n]
  by (auto simp: parse_unsigned_def Let_def)

lemma decode_pairs_encode: "decode_pairs (hex_encode bs) = Some bs"
proof (induction bs)
  case (Cons b bs)
  have "16 * (code b div 16) + code b mod 16 = code b" by simp
  with Cons show ?case
    by (simp add: hex_encode_Cons parse_two_hex code_div_16 del: mult_div_mod_eq)
qed simp

lemma hex_encode_inject: "hex_encode a = hex_encode b \<longleftrightarrow> a = b"
  by (metis decode_pairs_encode option.inject)

text \<open>Every pair of lowercase digits is the encoding of the byte it denotes.\<close>

lemma lower_hex_obtain:
  assumes "is_lower_hex c"
  obtains n where "n < 16" and "c = hex_char n"
proof -
  have "\<exists>n < 16. c = hex_char n"
  proof -
    have k: "code c = 48 + n \<Longrightarrow> n < 10 \<Longrightarrow> c = hex_char n" for n
    proof -
      assume c: "code c = 48 + n" and n: "n < 10"
      from n have n16: "n < 16" by simp
      have "code (hex_char n) = 48 + n" using n
        by (simp add: code_hex_char[OF n16])
      with c show "c = hex_char n" by (metis of_char_eq_iff)
    qed
    have l: "code c = 87 + n \<Longrightarrow> 10 \<le> n \<Longrightarrow> n < 16 \<Longrightarrow> c = hex_char n" for n
    proof -
      assume c: "code c = 87 + n" and n: "10 \<le> n" "n < 16"
      have "code (hex_char n) = 87 + n" using n
        by (simp add: code_hex_char[OF n(2)])
      with c show "c = hex_char n" by (metis of_char_eq_iff)
    qed
    from assms consider "48 \<le> code c" "code c \<le> 57" | "97 \<le> code c" "code c \<le> 102"
      by (auto simp: is_lower_hex_def is_digit_def)
    then show ?thesis
    proof cases
      case 1
      then show ?thesis using k[of "code c - 48"] by (intro exI[of _ "code c - 48"]) simp
    next
      case 2
      then show ?thesis using l[of "code c - 87"] by (intro exI[of _ "code c - 87"]) simp
    qed
  qed
  then show ?thesis using that by blast
qed

lemma encode_decode_pairs:
  "list_all is_lower_hex h \<Longrightarrow> decode_pairs h = Some bs \<Longrightarrow> h = hex_encode bs"
proof (induction h arbitrary: bs rule: decode_pairs.induct)
  case (3 a b cs)
  from "3.prems"(1) have "is_lower_hex a" "is_lower_hex b" and cs: "list_all is_lower_hex cs"
    by simp_all
  then obtain m n where m: "m < 16" "a = hex_char m" and n: "n < 16" "b = hex_char n"
    by (metis lower_hex_obtain)
  have p: "parse_unsigned 16 255 [a, b] = Some (16 * m + n)"
    using m n by (simp add: parse_two_hex)
  with "3.prems"(2) obtain ds where ds: "decode_pairs cs = Some ds"
    and bs: "bs = char_of (16 * m + n) # ds" by auto
  have "cs = hex_encode ds" using "3.IH"[OF p cs ds] .
  moreover have "(16 * m + n) mod 256 = 16 * m + n" using m n by simp
  ultimately show ?case using m n bs by (simp add: hex_encode_Cons)
qed simp_all

lemma hex_decode_32_iff:
  "hex_decode_32 h = Inr bs \<longleftrightarrow> h = hex_encode bs \<and> length bs = 32"
proof
  assume h: "hex_decode_32 h = Inr bs"
  then have len: "length h = 64" and hex: "list_all is_hex_digit h" and low: "h = to_lower h"
    and dec: "decode_pairs h = Some bs"
    by (auto simp: hex_decode_32_def res_simps split: if_splits)
  have "list_all is_lower_hex h"
    using hex low to_lower_fixed_iff[of h] by (auto simp: list_all_iff intro: hex_digit_lower)
  then have "h = hex_encode bs" using dec by (rule encode_decode_pairs)
  then show "h = hex_encode bs \<and> length bs = 32" using len by (auto simp: length_hex_encode)
next
  assume h: "h = hex_encode bs \<and> length bs = 32"
  then have lh: "list_all is_lower_hex h" by (simp add: hex_encode_lower_hex)
  then have "to_lower h = h"
    by (auto simp: to_lower_fixed_iff list_all_iff dest: lower_hex_not_upper)
  moreover have "list_all is_hex_digit h" using lh by (auto simp: list_all_iff intro: lower_hex_digit)
  ultimately show "hex_decode_32 h = Inr bs"
    using h by (simp add: hex_decode_32_def length_hex_encode decode_pairs_encode)
qed

text \<open>
  The lowercase hexadecimal codec of keys is a round trip: a 32-byte key survives
  \<open>hex_encode\<close> followed by \<open>hex_decode_32\<close>, and \<open>hex_decode_32\<close> accepts exactly the texts that
  \<open>hex_encode\<close> prints for a 32-byte key, so a key has one accepted spelling.
\<close>

theorem hex_codec_exact:
  "hex_decode_32 h = Inr bs \<longleftrightarrow> h = hex_encode bs \<and> length bs = 32"
  by (rule hex_decode_32_iff)

section \<open>Enclave identity\<close>

definition TASK_SEAL_DOMAIN :: string where
  "TASK_SEAL_DOMAIN = ''relay/task-seal/v1''"

record enclave_identity =
  id_secret :: string
  id_public :: string
  id_key_id :: string
  id_report_data :: string

definition key_id_for :: "crypto_ops \<Rightarrow> string \<Rightarrow> string" where
  "key_id_for ops pk = ''sha256:'' @ hex_encode (sha256 ops pk)"

definition task_seal_report_data_for :: "crypto_ops \<Rightarrow> string \<Rightarrow> string" where
  "task_seal_report_data_for ops pk = hex_encode (sha256 ops (TASK_SEAL_DOMAIN @ pk))"

definition from_secret_bytes :: "crypto_ops \<Rightarrow> string \<Rightarrow> (seal_error, enclave_identity) result" where
  "from_secret_bytes ops secret =
     (let pk = x25519_public ops secret
      in Inr \<lparr> id_secret = secret, id_public = pk, id_key_id = key_id_for ops pk,
               id_report_data = task_seal_report_data_for ops pk \<rparr>)"

definition public_key_hex :: "enclave_identity \<Rightarrow> string" where
  "public_key_hex i = hex_encode (id_public i)"

text \<open>The invariant of an identity: its derived fields belong to its public key.\<close>

definition identity_wf :: "crypto_ops \<Rightarrow> enclave_identity \<Rightarrow> bool" where
  "identity_wf ops i \<longleftrightarrow> id_public i = x25519_public ops (id_secret i)
     \<and> id_key_id i = key_id_for ops (id_public i)
     \<and> id_report_data i = task_seal_report_data_for ops (id_public i)"

lemma from_secret_bytes_wf: "from_secret_bytes ops secret = Inr i \<Longrightarrow> identity_wf ops i"
  by (auto simp: from_secret_bytes_def identity_wf_def Let_def)

section \<open>Byte routines of the envelopes\<close>

definition is_key_id :: "string \<Rightarrow> bool" where
  "is_key_id v = (case strip_prefix ''sha256:'' v of
       None \<Rightarrow> False
     | Some hex \<Rightarrow> length hex = 64 \<and> list_all is_lower_hex hex \<and> hex = to_lower hex)"

lemma key_id_for_is_key_id: "length (sha256 ops pk) = 32 \<Longrightarrow> is_key_id (key_id_for ops pk)"
  using hex_encode_lower_hex[of "sha256 ops pk"] lower_hex_not_upper
  by (auto simp: is_key_id_def key_id_for_def length_hex_encode list_all_iff
      to_lower_fixed_iff[THEN iffD2])

lemma lower_hex_no_pipe: "is_lower_hex c \<Longrightarrow> c \<noteq> CHR ''|'' \<and> c \<noteq> CHR 0x00"
  by (auto simp: is_lower_hex_def is_digit_def)

lemma key_id_chars:
  assumes "is_key_id v"
  shows "CHR ''|'' \<notin> set v" and "CHR 0x00 \<notin> set v"
proof -
  obtain hex where v: "v = ''sha256:'' @ hex" and h: "list_all is_lower_hex hex"
    using assms by (auto simp: is_key_id_def strip_prefix_Some_iff split: option.splits)
  have "CHR ''|'' \<notin> set hex" "CHR 0x00 \<notin> set hex"
    using h lower_hex_no_pipe by (auto simp: list_all_iff)
  then show "CHR ''|'' \<notin> set v" and "CHR 0x00 \<notin> set v" by (simp_all add: v)
qed

definition is_b64url_char :: "char \<Rightarrow> bool" where
  "is_b64url_char c \<longleftrightarrow> is_upper c \<or> is_lower c \<or> is_digit c \<or> c = CHR ''-'' \<or> c = CHR ''_''"

definition pad4 :: "string \<Rightarrow> string" where
  "pad4 s = s @ replicate ((4 - length s mod 4) mod 4) (CHR ''='')"

definition decode_b64url :: "crypto_ops \<Rightarrow> string \<Rightarrow> (seal_error, string) result" where
  "decode_b64url ops v =
     (if v = [] then Inl (InvalidEnvelope ''ciphertext is empty'')
      else if \<not> list_all is_b64url_char v \<or> length v mod 4 = 1
      then Inl (InvalidEnvelope ''ciphertext is not valid base64url'')
      else ok_or (b64url_decode_padded ops (pad4 v))
             (InvalidEnvelope ''ciphertext is not valid base64url''))"

definition byte_of :: "char \<Rightarrow> 8 word" where
  "byte_of c = word_of_nat (code c)"

definition constant_time_eq :: "string \<Rightarrow> string \<Rightarrow> bool" where
  "constant_time_eq a b =
     (if length a \<noteq> length b then False
      else foldl (\<lambda>diff (x, y). diff OR (byte_of x XOR byte_of y)) 0 (zip a b) = 0)"

lemma byte_of_inject: "byte_of x = byte_of y \<longleftrightarrow> x = y"
proof
  assume "byte_of x = byte_of y"
  then have "unat (byte_of x) = unat (byte_of y)" by simp
  then show "x = y" by (simp add: byte_of_def unat_of_nat)
qed simp

lemma word_or_zero: "(a :: 8 word) OR b = 0 \<longleftrightarrow> a = 0 \<and> b = 0"
  by (auto simp: bit_eq_iff bit_simps)

lemma word_xor_zero: "(a :: 8 word) XOR b = 0 \<longleftrightarrow> a = b"
  by (auto simp: bit_eq_iff bit_simps)

lemma diff_fold_zero:
  "length a = length b \<Longrightarrow>
   foldl (\<lambda>diff (x, y). diff OR (byte_of x XOR byte_of y)) d (zip a b) = 0 \<longleftrightarrow> d = 0 \<and> a = b"
  by (induction a b arbitrary: d rule: list_induct2)
    (auto simp: word_or_zero word_xor_zero byte_of_inject)

text \<open>The accumulator of differences is zero exactly when the two byte strings are equal.\<close>

lemma constant_time_eq_iff: "constant_time_eq a b \<longleftrightarrow> a = b"
  by (auto simp: constant_time_eq_def diff_fold_zero)

definition split_aad_plaintext :: "string \<Rightarrow> (seal_error, string \<times> string) result" where
  "split_aad_plaintext bs =
     (case position (\<lambda>b. b = CHR 0x00) bs of
        None \<Rightarrow> Inl MalformedPlaintext
      | Some pos \<Rightarrow> Inr (take pos bs, drop 1 (drop pos bs)))"

lemma split_aad_plaintext_append:
  assumes "CHR 0x00 \<notin> set aad"
  shows "split_aad_plaintext (aad @ CHR 0x00 # body) = Inr (aad, body)"
proof -
  have "position (\<lambda>b. b = CHR 0x00) (aad @ CHR 0x00 # body) = Some (length aad)"
    using assms by (intro position_append) auto
  then show ?thesis by (simp add: split_aad_plaintext_def)
qed

lemma split_aad_plaintext_Inr:
  assumes "split_aad_plaintext bs = Inr (aad, body)"
  shows "bs = aad @ CHR 0x00 # body" and "CHR 0x00 \<notin> set aad"
proof -
  obtain pos where pos: "position (\<lambda>b. b = CHR 0x00) bs = Some pos"
    and aad: "aad = take pos bs" and body: "body = drop (Suc pos) bs"
    using assms by (auto simp: split_aad_plaintext_def split: option.splits)
  note p = position_SomeD[OF pos]
  show "bs = aad @ CHR 0x00 # body"
    unfolding aad body using p by (metis id_take_nth_drop)
  show "CHR 0x00 \<notin> set aad"
    unfolding aad using p by (auto simp: in_set_conv_nth)
qed

end
