(* ===== verification/Ordered_Map.thy ===== *)
theory Ordered_Map
  imports Prelude
begin

text \<open>
  \<^verbatim>\<open>std::collections::BTreeMap\<close>, which backs every JSON object and every keyed table of a proof:
  an association list in strictly increasing key order. The locale is the contract the
  components rely on; it is interpreted on the list operations below.
\<close>

locale ordered_map =
  fixes empty :: "'m"
    and get :: "'m \<Rightarrow> 'k \<Rightarrow> 'v option"
    and put :: "'k \<Rightarrow> 'v \<Rightarrow> 'm \<Rightarrow> 'm"
    and inv :: "'m \<Rightarrow> bool"
  assumes inv_empty: "inv empty"
    and inv_put: "inv m \<Longrightarrow> inv (put k v m)"
    and get_empty: "get empty k = None"
    and get_put: "inv m \<Longrightarrow> get (put k v m) j = (if j = k then Some v else get m j)"
    and extensional: "inv m \<Longrightarrow> inv n \<Longrightarrow> (\<And>k. get m k = get n k) \<Longrightarrow> m = n"
begin

primrec puts :: "('k \<times> 'v) list \<Rightarrow> 'm \<Rightarrow> 'm" where
  "puts [] m = m"
| "puts (e # es) m = puts es (put (fst e) (snd e) m)"

lemma inv_puts: "inv m \<Longrightarrow> inv (puts es m)"
  by (induction es arbitrary: m) (auto intro: inv_put)

lemma get_puts:
  "inv m \<Longrightarrow> get (puts es m) k = (case map_of (rev es) k of Some v \<Rightarrow> Some v | None \<Rightarrow> get m k)"
  by (induction es arbitrary: m)
    (auto simp: get_put inv_put map_add_def split: option.splits)

text \<open>Two insertions under different keys commute, as lists and not only as lookups.\<close>

lemma put_commute:
  assumes "inv m" and "j \<noteq> k"
  shows "put j u (put k v m) = put k v (put j u m)"
  using assms by (intro extensional) (auto simp: get_put inv_put)

lemma put_overwrite:
  assumes "inv m"
  shows "put k u (put k v m) = put k u m"
  using assms by (intro extensional) (auto simp: get_put inv_put)

text \<open>Insertion order never shows: the same entries give the same map.\<close>

lemma puts_order_irrelevant:
  assumes "inv m" and "distinct (map fst es)" and "distinct (map fst fs)" and "set es = set fs"
  shows "puts es m = puts fs m"
proof (rule extensional)
  fix k
  have "map_of (rev es) = map_of (rev fs)"
    using assms(2-4) by (subst map_of_inject_set) (simp_all add: rev_map[symmetric])
  then show "get (puts es m) k = get (puts fs m) k"
    using assms(1) by (simp add: get_puts)
qed (use assms(1) in \<open>auto intro: inv_puts\<close>)

end

text \<open>The list operations.\<close>

type_synonym ('k, 'v) btree = "('k \<times> 'v) list"

fun bt_insert :: "'k::linorder \<Rightarrow> 'v \<Rightarrow> ('k, 'v) btree \<Rightarrow> ('k, 'v) btree" where
  "bt_insert k v [] = [(k, v)]"
| "bt_insert k v ((j, u) # m) =
     (if k < j then (k, v) # (j, u) # m
      else if k = j then (k, v) # m
      else (j, u) # bt_insert k v m)"

definition bt_get :: "('k, 'v) btree \<Rightarrow> 'k \<Rightarrow> 'v option" where
  "bt_get m k = map_of m k"

definition bt_inv :: "('k::linorder, 'v) btree \<Rightarrow> bool" where
  "bt_inv m \<longleftrightarrow> sorted_wrt (<) (map fst m)"

lemma bt_insert_keys: "set (map fst (bt_insert k v m)) = insert k (set (map fst m))"
  by (induction k v m rule: bt_insert.induct) auto

lemma bt_inv_insert: "bt_inv m \<Longrightarrow> bt_inv (bt_insert k v m)"
proof (induction k v m rule: bt_insert.induct)
  case (2 k v j u m)
  have "x \<in> fst ` set (bt_insert k v m) \<Longrightarrow> x = k \<or> x \<in> fst ` set m" for x
    using bt_insert_keys[of k v m] by auto
  with 2 show ?case by (force simp: bt_inv_def)
qed (simp add: bt_inv_def)

lemma bt_get_insert: "bt_get (bt_insert k v m) j = (if j = k then Some v else bt_get m j)"
  by (induction k v m rule: bt_insert.induct) (auto simp: bt_get_def)

lemma bt_rebuild:
  assumes "distinct (map fst m)"
  shows "map (\<lambda>k. (k, the (map_of m k))) (map fst m) = m"
proof -
  have "map (\<lambda>e. (fst e, the (map_of m (fst e)))) m = m"
    using assms by (intro map_idI) (auto simp: map_of_is_SomeI)
  then show ?thesis by (simp add: comp_def)
qed

lemma bt_extensional:
  fixes m n :: "('k::linorder, 'v) btree"
  assumes "bt_inv m" and "bt_inv n" and "\<And>k. bt_get m k = bt_get n k"
  shows "m = n"
proof -
  have eq: "map_of m = map_of n" using assms(3) by (auto simp: bt_get_def)
  have d: "distinct (map fst m)" "distinct (map fst n)"
    using assms(1,2) by (simp_all add: bt_inv_def strict_sorted_iff)
  then have "set m = set n" using eq by (simp add: map_of_inject_set)
  then have "set (map fst m) = set (map fst n)" by simp
  then have "map fst m = map fst n"
    using assms(1,2) unfolding bt_inv_def by (intro strict_sorted_equal) simp_all
  then show ?thesis using bt_rebuild[OF d(1)] bt_rebuild[OF d(2)] eq by metis
qed

interpretation bt: ordered_map "[] :: ('k::linorder, 'v) btree" bt_get bt_insert bt_inv
proof unfold_locales
  show "bt_inv ([] :: ('k, 'v) btree)" by (simp add: bt_inv_def)
  show "bt_get ([] :: ('k, 'v) btree) k = None" for k by (simp add: bt_get_def)
qed (auto intro: bt_inv_insert bt_extensional simp: bt_get_insert)

lemma bt_get_iff_mem: "bt_inv m \<Longrightarrow> bt_get m k = Some v \<longleftrightarrow> (k, v) \<in> set m"
  by (simp add: bt_get_def bt_inv_def strict_sorted_iff)

section \<open>JSON values\<close>

text \<open>
  \<^verbatim>\<open>serde_json::Value\<close> as the sources build and inspect it. Objects are key-ordered
  (\<^verbatim>\<open>preserve_order\<close> is off in this workspace). The numbers the sources build are integers.
\<close>

datatype json =
    JNull
  | JBool bool
  | JNum int
  | JStr string
  | JArr "json list"
  | JObj "(string, json) btree"

fun jget :: "json \<Rightarrow> string \<Rightarrow> json option" where
  "jget (JObj m) k = bt_get m k"
| "jget _ k = None"

fun jstr :: "json \<Rightarrow> string option" where
  "jstr (JStr s) = Some s"
| "jstr _ = None"

fun jbool :: "json \<Rightarrow> bool option" where
  "jbool (JBool b) = Some b"
| "jbool _ = None"

fun jarray :: "json \<Rightarrow> json list option" where
  "jarray (JArr xs) = Some xs"
| "jarray _ = None"

definition jget_str :: "json \<Rightarrow> string \<Rightarrow> string option" where
  "jget_str j k = Option.bind (jget j k) jstr"

definition jobj :: "(string \<times> json) list \<Rightarrow> json" where
  "jobj es = JObj (fold (\<lambda>e m. bt_insert (fst e) (snd e) m) es [])"

definition jopt :: "('a \<Rightarrow> json) \<Rightarrow> 'a option \<Rightarrow> json" where
  "jopt f x = (case x of None \<Rightarrow> JNull | Some a \<Rightarrow> f a)"

lemma jobj_puts: "jobj es = JObj (bt.puts es [])"
proof -
  have "fold (\<lambda>e m. bt_insert (fst e) (snd e) m) es m = bt.puts es m" for m
    by (induction es arbitrary: m) auto
  then show ?thesis by (simp add: jobj_def)
qed

lemma jget_jobj: "jget (jobj es) k = map_of (rev es) k"
  unfolding jobj_puts jget.simps bt.get_puts[OF bt.inv_empty] bt.get_empty
  by (cases "map_of (rev es) k") simp_all

text \<open>Building an object from the same fields in any order gives the same value.\<close>

lemma jobj_order_irrelevant:
  "distinct (map fst es) \<Longrightarrow> distinct (map fst fs) \<Longrightarrow> set es = set fs \<Longrightarrow> jobj es = jobj fs"
  unfolding jobj_puts
  by (rule arg_cong[of _ _ JObj], rule bt.puts_order_irrelevant[OF bt.inv_empty])

text \<open>The string leaves of a value.\<close>

primrec json_strings :: "json \<Rightarrow> string list" where
  "json_strings JNull = []"
| "json_strings (JBool b) = []"
| "json_strings (JNum n) = []"
| "json_strings (JStr s) = [s]"
| "json_strings (JArr xs) = concat (map json_strings xs)"
| "json_strings (JObj m) = concat (map snd (map (map_prod id json_strings) m))"

end
