(* ===== verification/Seal_Task.thy ===== *)
theory Seal_Task
  imports Seal_Base Ordered_Map
begin

text \<open>
  \<^verbatim>\<open>basecrawl-seal/src/task.rs\<close>: the sealed-task envelope, the authenticated header that the
  relay puts in front of the task (\<open>build_aad\<close>, \<open>parse_aad\<close>) and \<open>decrypt_sealed_task\<close>. The
  parameter \<open>parse\<close> is \<^verbatim>\<open>serde_json::from_slice\<close>.
\<close>

definition TASK_SEAL_SUITE :: string where
  "TASK_SEAL_SUITE = ''libsodium-sealed-box-x25519-xsalsa20-poly1305''"

definition MIN_SEALED_CIPHERTEXT_LEN :: nat where
  "MIN_SEALED_CIPHERTEXT_LEN = 48"

record sealed_task_envelope =
  te_version :: nat
  te_suite :: string
  te_recipient_key_id :: string
  te_enc :: "json option"
  te_ciphertext :: string

record decrypted_task =
  dt_task :: json
  dt_task_id :: string
  dt_nonce :: string

definition validate_task_envelope ::
    "sealed_task_envelope \<Rightarrow> string option \<Rightarrow> (seal_error, unit) result" where
  "validate_task_envelope env expected =
     (if te_version env \<noteq> 1 then Inl (InvalidEnvelope ''unsupported version'')
      else if te_suite env \<noteq> TASK_SEAL_SUITE then Inl (InvalidEnvelope ''unsupported suite'')
      else if \<not> is_key_id (te_recipient_key_id env)
      then Inl (InvalidEnvelope ''recipient_key_id is malformed'')
      else if expected \<noteq> None \<and> te_recipient_key_id env \<noteq> the expected
      then Inl (InvalidEnvelope ''recipient_key_id does not match enclave identity'')
      else if te_enc env \<noteq> None \<and> te_enc env \<noteq> Some JNull
      then Inl (InvalidEnvelope ''envelope contains unsupported ephemeral key material'')
      else if te_ciphertext env = [] then Inl (InvalidEnvelope ''ciphertext is empty'')
      else Inr ())"

definition open_sealed_box :: "crypto_ops \<Rightarrow> string \<Rightarrow> string \<Rightarrow> (seal_error, string) result" where
  "open_sealed_box ops secret ct = ok_or (box_unseal ops secret ct) AuthenticationFailed"

text \<open>The loop of \<^verbatim>\<open>parse_aad\<close> over the parts after the domain; a later part overrides.\<close>

fun aad_fields :: "string list \<Rightarrow> string option \<times> string option \<times> string option
    \<Rightarrow> string option \<times> string option \<times> string option" where
  "aad_fields [] st = st"
| "aad_fields (part # parts) (t, n, k) =
     aad_fields parts
       (case strip_prefix ''task_id='' part of Some v \<Rightarrow> (Some v, n, k)
        | None \<Rightarrow> (case strip_prefix ''nonce='' part of Some v \<Rightarrow> (t, Some v, k)
        | None \<Rightarrow> (case strip_prefix ''recipient_key_id='' part of Some v \<Rightarrow> (t, n, Some v)
        | None \<Rightarrow> (t, n, k))))"

definition parse_aad :: "string \<Rightarrow> (seal_error, string \<times> string \<times> string) result" where
  "parse_aad aad =
     (if \<not> utf8_ok aad then Inl MalformedPlaintext
      else if hd (split_on (CHR ''|'') aad) \<noteq> TASK_SEAL_DOMAIN then Inl AuthenticationFailed
      else case aad_fields (tl (split_on (CHR ''|'') aad)) (None, None, None) of
        (Some t, Some n, Some k) \<Rightarrow>
          if t \<noteq> [] \<and> n \<noteq> [] \<and> is_key_id k then Inr (t, n, k) else Inl MalformedPlaintext
      | _ \<Rightarrow> Inl MalformedPlaintext)"

definition aad_text :: "string \<Rightarrow> string \<Rightarrow> string \<Rightarrow> string" where
  "aad_text t n k = TASK_SEAL_DOMAIN @ ''|task_id='' @ t @ ''|nonce='' @ n @ ''|recipient_key_id='' @ k"

definition build_aad :: "string \<Rightarrow> string \<Rightarrow> string \<Rightarrow> (seal_error, string) result" where
  "build_aad t n k =
     (if t = [] \<or> n = [] \<or> \<not> is_key_id k
      then Inl (InvalidEnvelope ''task sealing metadata is malformed'')
      else Inr (aad_text t n k))"

definition check_task_header ::
    "string \<Rightarrow> string \<Rightarrow> string \<Rightarrow> (seal_error, string \<times> string) result" where
  "check_task_header aad own_key_id recipient =
     bind_res (parse_aad aad) (\<lambda>(t, n, bound).
     bind_res (build_aad t n own_key_id) (\<lambda>expected.
       if \<not> constant_time_eq aad expected \<or> bound \<noteq> own_key_id then Inl AuthenticationFailed
       else if bound \<noteq> recipient then Inl AuthenticationFailed
       else Inr (t, n)))"

definition check_task_body ::
    "(string \<Rightarrow> json option) \<Rightarrow> string \<Rightarrow> string \<Rightarrow> string \<Rightarrow> (seal_error, decrypted_task) result" where
  "check_task_body parse body t n =
     (case parse body of
        None \<Rightarrow> Inl MalformedPlaintext
      | Some task \<Rightarrow>
          bind_res (ok_or (jget_str task ''task_id'') MalformedPlaintext) (\<lambda>t'.
          bind_res (ok_or (jget_str task ''nonce'') MalformedPlaintext) (\<lambda>n'.
            if t' \<noteq> t \<or> n' \<noteq> n then Inl MalformedPlaintext
            else Inr \<lparr> dt_task = task, dt_task_id = t, dt_nonce = n \<rparr>)))"

definition decrypt_sealed_task ::
    "crypto_ops \<Rightarrow> (string \<Rightarrow> json option) \<Rightarrow> sealed_task_envelope \<Rightarrow> enclave_identity
     \<Rightarrow> (seal_error, decrypted_task) result" where
  "decrypt_sealed_task ops parse env i =
     bind_res (validate_task_envelope env (Some (id_key_id i))) (\<lambda>_.
     bind_res (decode_b64url ops (te_ciphertext env)) (\<lambda>ct.
       if length ct \<le> MIN_SEALED_CIPHERTEXT_LEN then Inl AuthenticationFailed
       else
         bind_res (open_sealed_box ops (id_secret i) ct) (\<lambda>authenticated.
         bind_res (split_aad_plaintext authenticated) (\<lambda>(aad, body).
         bind_res (check_task_header aad (id_key_id i) (te_recipient_key_id env)) (\<lambda>(t, n).
           check_task_body parse body t n)))))"

definition decrypt_without_released_key ::
    "sealed_task_envelope \<Rightarrow> (seal_error, decrypted_task) result" where
  "decrypt_without_released_key env =
     bind_res (validate_task_envelope env None) (\<lambda>_. Inl KeyNotReleased)"

definition decrypt_with_foreign_key ::
    "crypto_ops \<Rightarrow> (string \<Rightarrow> json option) \<Rightarrow> sealed_task_envelope \<Rightarrow> enclave_identity
     \<Rightarrow> (seal_error, decrypted_task) result" where
  "decrypt_with_foreign_key ops parse env foreign = decrypt_sealed_task ops parse env foreign"

definition recipient_key_id :: "crypto_ops \<Rightarrow> string \<Rightarrow> string" where
  "recipient_key_id ops pk = ''sha256:'' @ hex_encode (sha256 ops pk)"

section \<open>The authenticated header\<close>

text \<open>A value that the loop collects is the rest of one of the parts, so it has no separator.\<close>

lemma aad_fields_from_parts:
  assumes "aad_fields parts st = (Some t, Some n, k)"
    and "\<forall>p \<in> set parts. d \<notin> set p"
    and "\<And>v. fst st = Some v \<Longrightarrow> d \<notin> set v" and "\<And>v. fst (snd st) = Some v \<Longrightarrow> d \<notin> set v"
  shows "d \<notin> set t \<and> d \<notin> set n"
  using assms
proof (induction parts st rule: aad_fields.induct)
  case (2 part parts t0 n0 k0)
  have part: "\<And>q v. strip_prefix q part = Some v \<Longrightarrow> d \<notin> set v"
    using "2.prems"(2) by (auto simp: strip_prefix_Some_iff)
  show ?case
    by (rule "2.IH") (use "2.prems" part in \<open>auto split: option.splits\<close>)
qed auto

lemma domain_no_pipe: "CHR ''|'' \<notin> set TASK_SEAL_DOMAIN" "CHR 0x00 \<notin> set TASK_SEAL_DOMAIN"
  by (simp_all add: TASK_SEAL_DOMAIN_def)

lemma parse_aad_no_pipe:
  assumes "parse_aad aad = Inr (t, n, k)"
  shows "CHR ''|'' \<notin> set t \<and> CHR ''|'' \<notin> set n"
proof -
  have f: "aad_fields (tl (split_on (CHR ''|'') aad)) (None, None, None) = (Some t, Some n, Some k)"
    using assms by (auto simp: parse_aad_def split: if_splits option.splits prod.splits)
  have "\<forall>p \<in> set (tl (split_on (CHR ''|'') aad)). CHR ''|'' \<notin> set p"
    by (meson list.set_sel(2) split_on_no_sep split_on_not_Nil)
  from aad_fields_from_parts[OF f this] show ?thesis by simp
qed

lemma split_aad_text:
  assumes "CHR ''|'' \<notin> set t" and "CHR ''|'' \<notin> set n" and "CHR ''|'' \<notin> set k"
  shows "split_on (CHR ''|'') (aad_text t n k) =
    [TASK_SEAL_DOMAIN, ''task_id='' @ t, ''nonce='' @ n, ''recipient_key_id='' @ k]"
proof -
  have e: "aad_text t n k = TASK_SEAL_DOMAIN @ CHR ''|'' # ((''task_id='' @ t) @ CHR ''|'' #
      ((''nonce='' @ n) @ CHR ''|'' # (''recipient_key_id='' @ k)))"
    by (simp add: aad_text_def)
  show ?thesis unfolding e using assms domain_no_pipe
    by (subst split_on_append | subst split_on_single | simp)+
qed

lemma parse_aad_text:
  assumes "utf8_ok (aad_text t n k)" and "t \<noteq> []" and "n \<noteq> []" and "is_key_id k"
    and "CHR ''|'' \<notin> set t" and "CHR ''|'' \<notin> set n"
  shows "parse_aad (aad_text t n k) = Inr (t, n, k)"
  using assms key_id_chars(1)[of k] by (simp add: parse_aad_def split_aad_text)

lemma parse_aad_Inr_props:
  "parse_aad aad = Inr (t, n, k) \<Longrightarrow> utf8_ok aad \<and> t \<noteq> [] \<and> n \<noteq> [] \<and> is_key_id k"
  by (auto simp: parse_aad_def split: if_splits option.splits prod.splits)

lemma check_task_header_iff:
  "check_task_header aad own rec = Inr (t, n) \<longleftrightarrow>
     aad = aad_text t n own \<and> own = rec \<and> is_key_id own \<and> utf8_ok aad
     \<and> t \<noteq> [] \<and> n \<noteq> [] \<and> CHR ''|'' \<notin> set t \<and> CHR ''|'' \<notin> set n" (is "?l \<longleftrightarrow> ?r")
proof
  assume ?l
  then obtain k where p: "parse_aad aad = Inr (t, n, k)" and "aad = aad_text t n own"
    and "k = own" and "own = rec"
    by (auto simp: check_task_header_def build_aad_def constant_time_eq_iff res_simps
        split: if_splits)
  then show ?r using parse_aad_no_pipe[OF p] parse_aad_Inr_props[OF p] by simp
next
  assume r: ?r
  then have "parse_aad aad = Inr (t, n, own)" by (metis parse_aad_text)
  with r show ?l
    by (auto simp: check_task_header_def build_aad_def constant_time_eq_iff)
qed

lemma check_task_body_iff:
  "check_task_body parse body t n = Inr d \<longleftrightarrow>
     parse body = Some (dt_task d) \<and> dt_task_id d = t \<and> dt_nonce d = n
     \<and> jget_str (dt_task d) ''task_id'' = Some t \<and> jget_str (dt_task d) ''nonce'' = Some n"
  by (cases d) (auto simp: check_task_body_def res_simps split: option.splits)

lemma validate_task_envelope_iff:
  "validate_task_envelope env (Some k) = Inr u \<longleftrightarrow>
     te_version env = 1 \<and> te_suite env = TASK_SEAL_SUITE \<and> te_recipient_key_id env = k
     \<and> is_key_id k \<and> te_enc env \<in> {None, Some JNull} \<and> te_ciphertext env \<noteq> []"
  by (auto simp: validate_task_envelope_def)

text \<open>
  C1: \<open>decrypt_sealed_task\<close> accepts exactly the genuine tasks. It returns a task if and only if
  the envelope has the fixed version and suite, names the enclave's own key and no ephemeral
  key, its ciphertext is valid base64url of more than 48 bytes that opens under the enclave's
  secret, and the opened bytes are the canonical header for this task id, nonce and key, a
  zero byte, and a JSON object that repeats the same task id and nonce. In particular an
  accepted id or nonce has no separator, so the header cannot be read in a second way.
\<close>

theorem decrypt_sealed_task_iff:
  "decrypt_sealed_task ops parse env i = Inr d \<longleftrightarrow>
     te_version env = 1 \<and> te_suite env = TASK_SEAL_SUITE
     \<and> te_recipient_key_id env = id_key_id i \<and> is_key_id (id_key_id i)
     \<and> te_enc env \<in> {None, Some JNull}
     \<and> (\<exists>ct body. decode_b64url ops (te_ciphertext env) = Inr ct \<and> 48 < length ct
          \<and> box_unseal ops (id_secret i) ct
            = Some (aad_text (dt_task_id d) (dt_nonce d) (id_key_id i) @ CHR 0x00 # body)
          \<and> utf8_ok (aad_text (dt_task_id d) (dt_nonce d) (id_key_id i))
          \<and> parse body = Some (dt_task d))
     \<and> jget_str (dt_task d) ''task_id'' = Some (dt_task_id d)
     \<and> jget_str (dt_task d) ''nonce'' = Some (dt_nonce d)
     \<and> dt_task_id d \<noteq> [] \<and> dt_nonce d \<noteq> []
     \<and> set (dt_task_id d) \<inter> {CHR ''|'', CHR 0x00} = {}
     \<and> set (dt_nonce d) \<inter> {CHR ''|'', CHR 0x00} = {}" (is "?l \<longleftrightarrow> ?r")
proof
  assume ?l
  then obtain ct auth aad body where
    v: "validate_task_envelope env (Some (id_key_id i)) = Inr ()"
    and ct: "decode_b64url ops (te_ciphertext env) = Inr ct" "48 < length ct"
    and auth: "box_unseal ops (id_secret i) ct = Some auth"
    and split: "split_aad_plaintext auth = Inr (aad, body)"
    and head: "check_task_header aad (id_key_id i) (te_recipient_key_id env)
                 = Inr (dt_task_id d, dt_nonce d)"
    and body: "check_task_body parse body (dt_task_id d) (dt_nonce d) = Inr d"
    by (auto simp: decrypt_sealed_task_def open_sealed_box_def MIN_SEALED_CIPHERTEXT_LEN_def
        res_simps check_task_body_iff split: if_splits)
  have nul: "CHR 0x00 \<notin> set aad" and a: "auth = aad @ CHR 0x00 # body"
    using split_aad_plaintext_Inr[OF split] by simp_all
  have h: "aad = aad_text (dt_task_id d) (dt_nonce d) (id_key_id i)"
    using head by (simp add: check_task_header_iff)
  then have "CHR 0x00 \<notin> set (dt_task_id d)" "CHR 0x00 \<notin> set (dt_nonce d)"
    using nul by (auto simp: aad_text_def)
  then show ?r
    using v ct auth head body a h
    by (auto simp: validate_task_envelope_iff check_task_header_iff check_task_body_iff)
next
  assume r: ?r
  then obtain ct body where ct: "decode_b64url ops (te_ciphertext env) = Inr ct" "48 < length ct"
    and auth: "box_unseal ops (id_secret i) ct
        = Some (aad_text (dt_task_id d) (dt_nonce d) (id_key_id i) @ CHR 0x00 # body)"
    and u: "utf8_ok (aad_text (dt_task_id d) (dt_nonce d) (id_key_id i))"
    and parse: "parse body = Some (dt_task d)" by - (elim conjE exE, rule that, assumption+)
  have "te_ciphertext env \<noteq> []" using ct by (auto simp: decode_b64url_def)
  then have v: "validate_task_envelope env (Some (id_key_id i)) = Inr ()"
    using r by (auto simp: validate_task_envelope_def)
  have "CHR 0x00 \<notin> set (aad_text (dt_task_id d) (dt_nonce d) (id_key_id i))"
    using r key_id_chars(2)[of "id_key_id i"] domain_no_pipe by (auto simp: aad_text_def)
  note split = split_aad_plaintext_append[OF this, of body]
  have "check_task_header (aad_text (dt_task_id d) (dt_nonce d) (id_key_id i)) (id_key_id i)
      (te_recipient_key_id env) = Inr (dt_task_id d, dt_nonce d)"
    using r u by (simp add: check_task_header_iff)
  moreover have "check_task_body parse body (dt_task_id d) (dt_nonce d) = Inr d"
    using r parse by (simp add: check_task_body_iff)
  ultimately show ?l using ct(2)
    by (simp add: decrypt_sealed_task_def v ct(1) auth open_sealed_box_def split
        MIN_SEALED_CIPHERTEXT_LEN_def)
qed

text \<open>
  Without a released key no envelope of any shape yields a task: the host path ends in an
  envelope error or in \<open>KeyNotReleased\<close>.
\<close>

theorem no_task_without_released_key:
  "decrypt_without_released_key env = Inl KeyNotReleased
   \<or> (\<exists>detail. decrypt_without_released_key env = Inl (InvalidEnvelope detail))"
  by (auto simp: decrypt_without_released_key_def validate_task_envelope_def)

end
