(* ===== verification/Redact.thy ===== *)
theory Redact
  imports Seal_Base Ordered_Map
begin

text \<open>
  \<^verbatim>\<open>basecrawl-seal/src/redact.rs\<close>: what may leave the enclave in a log line, a metric label, an
  error payload or a panic. URLs keep scheme, host and port and have their path and query
  replaced by a digest; secrecy markers are replaced by a fixed token.
\<close>

section \<open>Digests\<close>

definition HOST_SAFE_DIGEST_PREFIX :: string where
  "HOST_SAFE_DIGEST_PREFIX = ''sha256:''"

definition TASK_ID_DOMAIN :: string where
  "TASK_ID_DOMAIN = ''basecrawl/host-safe/task-id/v1''"

definition URL_PQ_DOMAIN :: string where
  "URL_PQ_DOMAIN = ''basecrawl/host-safe/url-path-query/v1''"

definition REDACTED_TOKEN :: string where
  "REDACTED_TOKEN = ''<redacted>''"

definition host_safe_digest :: "crypto_ops \<Rightarrow> string \<Rightarrow> string \<Rightarrow> string" where
  "host_safe_digest ops domain material =
     HOST_SAFE_DIGEST_PREFIX @ hex_encode (sha256 ops (domain @ material))"

definition task_id_ref :: "crypto_ops \<Rightarrow> string option \<Rightarrow> string" where
  "task_id_ref ops t =
     (case t of None \<Rightarrow> ''task:none''
      | Some i \<Rightarrow> if i \<noteq> [] then ''task:'' @ host_safe_digest ops TASK_ID_DOMAIN i else ''task:none'')"

section \<open>URL references\<close>

definition split_path_query :: "string \<Rightarrow> string \<times> string option" where
  "split_path_query url =
     (let after_scheme = (case find_sub ''://'' url of Some idx \<Rightarrow> drop (idx + 3) url | None \<Rightarrow> url);
          path_start = (case position (\<lambda>c. c = CHR ''/'') after_scheme of
                          Some idx \<Rightarrow> drop idx after_scheme | None \<Rightarrow> []);
          path_q = hd (split_on (CHR ''#'') path_start)
      in case split_once (CHR ''?'') path_q of
           Some (path, query) \<Rightarrow> (path, Some query)
         | None \<Rightarrow> (path_q, None))"

definition url_path_query_ref :: "crypto_ops \<Rightarrow> string \<Rightarrow> string" where
  "url_path_query_ref ops url =
     (let (path, query) = split_path_query url;
          material = path @ (case query of Some q \<Rightarrow> CHR ''?'' # q | None \<Rightarrow> [])
      in ''url:'' @ host_safe_digest ops URL_PQ_DOMAIN material)"

record url_parts =
  up_scheme :: "string option"
  up_host :: "string option"
  up_port :: "string option"

definition split_host_port :: "string \<Rightarrow> string option \<times> string option" where
  "split_host_port authority =
     (if starts_with authority ''['' then
        (case position (\<lambda>c. c = CHR '']'') authority of
           Some e \<Rightarrow>
             (Some (take (e + 1) authority),
              Option.bind (strip_prefix '':'' (drop (e + 1) authority))
                (\<lambda>p. if p \<noteq> [] then Some p else None))
         | None \<Rightarrow> (Some authority, None))
      else case rsplit_once (CHR '':'') authority of
        Some (h, p) \<Rightarrow>
          if p \<noteq> [] \<and> list_all is_digit p then (Some h, Some p) else (Some authority, None)
      | None \<Rightarrow> if authority = [] then (None, None) else (Some authority, None))"

definition parse_url_parts :: "string \<Rightarrow> url_parts option" where
  "parse_url_parts url =
     (let (scheme, rest) = (case find_sub ''://'' url of
              Some idx \<Rightarrow> (Some (take idx url), drop (idx + 3) url)
            | None \<Rightarrow> (None, url));
          authority_end = (case position (\<lambda>c. c \<in> {CHR ''/'', CHR ''?'', CHR ''#''}) rest of
              Some i \<Rightarrow> i | None \<Rightarrow> length rest);
          authority = take authority_end rest
      in if authority = [] \<and> scheme = None then None
         else
           let authority = (case rsplit_once (CHR ''@'') authority of
                  Some (_, hostport) \<Rightarrow> hostport | None \<Rightarrow> authority);
               (host, port) = split_host_port authority
           in Some \<lparr> up_scheme = scheme, up_host = host, up_port = port \<rparr>)"

definition opt_text :: "('a \<Rightarrow> string) \<Rightarrow> 'a option \<Rightarrow> string" where
  "opt_text f x = (case x of None \<Rightarrow> [] | Some a \<Rightarrow> f a)"

definition url_ref :: "crypto_ops \<Rightarrow> string \<Rightarrow> string" where
  "url_ref ops url =
     (case parse_url_parts url of
        Some parts \<Rightarrow>
          opt_text (\<lambda>s. s @ ''://'') (up_scheme parts)
          @ opt_text id (up_host parts)
          @ opt_text (\<lambda>p. '':'' @ p) (up_port parts)
          @ ''/'' @ url_path_query_ref ops url
      | None \<Rightarrow> ''url:'' @ host_safe_digest ops URL_PQ_DOMAIN url)"

definition looks_like_url_with_path :: "string \<Rightarrow> bool" where
  "looks_like_url_with_path s =
     (case split_once_str ''://'' s of
        None \<Rightarrow> False
      | Some (_, rest) \<Rightarrow>
          let piece = (case split_once_str ''://'' rest of Some (a, _) \<Rightarrow> a | None \<Rightarrow> rest)
          in CHR ''/'' \<in> set piece \<or> CHR ''?'' \<in> set piece)"

section \<open>Markers\<close>

definition contains_sensitive_url_fragment :: "string \<Rightarrow> string \<Rightarrow> bool" where
  "contains_sensitive_url_fragment haystack sensitive \<longleftrightarrow>
     sensitive \<noteq> [] \<and> contains haystack sensitive"

definition ordered_markers :: "string list \<Rightarrow> string list" where
  "ordered_markers markers =
     sort_key (\<lambda>m. - int (length m)) (filter (\<lambda>m. trim m \<noteq> []) markers)"

definition redact_markers :: "string \<Rightarrow> string list \<Rightarrow> string" where
  "redact_markers text markers =
     foldl (\<lambda>source marker.
              if contains source marker then replace_all marker REDACTED_TOKEN source else source)
       text (ordered_markers markers)"

section \<open>JSON payloads\<close>

definition redact_string :: "crypto_ops \<Rightarrow> string list \<Rightarrow> string \<Rightarrow> string" where
  "redact_string ops markers s =
     (let r = redact_markers s markers
      in if looks_like_url_with_path r then url_ref ops r else r)"

definition redact_path_string :: "crypto_ops \<Rightarrow> string \<Rightarrow> string \<Rightarrow> string" where
  "redact_path_string ops key s =
     (if contains (to_lower key) ''url'' then url_ref ops s
      else ''url:'' @ host_safe_digest ops URL_PQ_DOMAIN s)"

function redact_json_value :: "crypto_ops \<Rightarrow> string list \<Rightarrow> string list \<Rightarrow> json \<Rightarrow> json" where
  "redact_json_value ops markers path_keys (JObj m) =
     JObj (map (\<lambda>(key, entry).
       (key,
        if list_ex (eq_ic key) path_keys then
          (case entry of
             JStr s \<Rightarrow> JStr (redact_path_string ops key s)
           | _ \<Rightarrow> redact_json_value ops markers path_keys entry)
        else
          (case entry of
             JStr s \<Rightarrow> JStr (redact_string ops markers s)
           | _ \<Rightarrow> redact_json_value ops markers path_keys entry))) m)"
| "redact_json_value ops markers path_keys (JArr items) =
     JArr (map (redact_json_value ops markers path_keys) items)"
| "redact_json_value ops markers path_keys (JStr s) = JStr (redact_string ops markers s)"
| "redact_json_value ops markers path_keys JNull = JNull"
| "redact_json_value ops markers path_keys (JBool b) = JBool b"
| "redact_json_value ops markers path_keys (JNum n) = JNum n"
  by pat_completeness auto

lemma json_entry_size: "(k, v) \<in> set m \<Longrightarrow> size v < size (JObj m)"
  by (induction m) auto

lemma json_item_size: "v \<in> set xs \<Longrightarrow> size v < size (JArr xs)"
  by (induction xs) auto

termination redact_json_value
  by (relation "measure (\<lambda>(ops, markers, path_keys, j). size j)")
    (use json_entry_size json_item_size in fastforce)+

section \<open>Labels and panics\<close>

record host_safe_labels =
  hl_task_id :: string
  hl_event :: string
  hl_kind :: "string option"
  hl_status_code :: "nat option"
  hl_headers_hash :: "string option"
  hl_body_hash :: "string option"

definition scrape_completed ::
    "crypto_ops \<Rightarrow> string option \<Rightarrow> nat option \<Rightarrow> string option \<Rightarrow> string option \<Rightarrow> host_safe_labels" where
  "scrape_completed ops task_id status_code headers_hash body_hash =
     \<lparr> hl_task_id = task_id_ref ops task_id, hl_event = ''scrape_completed'', hl_kind = None,
       hl_status_code = status_code, hl_headers_hash = headers_hash, hl_body_hash = body_hash \<rparr>"

definition scrape_failed :: "crypto_ops \<Rightarrow> string option \<Rightarrow> string \<Rightarrow> host_safe_labels" where
  "scrape_failed ops task_id kind =
     \<lparr> hl_task_id = task_id_ref ops task_id, hl_event = ''scrape_failed'', hl_kind = Some kind,
       hl_status_code = None, hl_headers_hash = None, hl_body_hash = None \<rparr>"

text \<open>The parameter \<open>render\<close> is \<^verbatim>\<open>serde_json::to_string\<close> on the derived serialisation.\<close>

definition is_free_of :: "(host_safe_labels \<Rightarrow> string) \<Rightarrow> host_safe_labels \<Rightarrow> string list \<Rightarrow> bool" where
  "is_free_of render l markers = list_all (\<lambda>m. m = [] \<or> \<not> contains (render l) m) markers"

definition payload_looks_sensitive :: "string \<Rightarrow> bool" where
  "payload_looks_sensitive payload =
     (if payload = [] then False
      else if looks_like_url_with_path payload then True
      else let lower = to_lower payload in
        contains lower ''cookie:'' \<or> contains lower ''authorization:'' \<or> contains lower ''bearer ''
        \<or> contains lower ''set-cookie''
        \<or> (CHR ''?'' \<in> set lower \<and> CHR ''='' \<in> set lower)
        \<or> contains lower ''/secret'' \<or> contains lower ''canary'')"

text \<open>The line the hook prints; \<open>None\<close> when it hands the panic to the previous hook.\<close>

definition panic_hook_line :: "crypto_ops \<Rightarrow> string \<Rightarrow> string option" where
  "panic_hook_line ops payload =
     (if payload_looks_sensitive payload
      then Some (''basecrawl panic (host-safe): kind=internal_error digest=''
                 @ host_safe_digest ops ''basecrawl/host-safe/panic/v1'' payload)
      else None)"

section \<open>No marker survives\<close>

text \<open>A pattern without characters of the replacement cannot arise from a replacement.\<close>

lemma replace_all_prefixD:
  assumes "replace_all p q s = x @ r" and "x \<noteq> []" and "set x \<inter> set q = {}" and "q \<noteq> []"
  shows "\<exists>r'. s = x @ r'"
  using assms
proof (induction p q s arbitrary: x rule: replace_all.induct)
  case (1 p q s)
  show ?case
  proof (cases "p = [] \<or> s = []")
    case True
    with "1.prems" show ?thesis by auto
  next
    case False
    then obtain c cs where s: "s = c # cs" and p: "p \<noteq> []" by (cases s) auto
    obtain y ys where x: "x = y # ys" using "1.prems"(2) by (cases x) auto
    obtain z zs where q: "q = z # zs" using "1.prems"(4) by (cases q) auto
    show ?thesis
    proof (cases "strip_prefix p s")
      case None
      have "replace_all p q s = c # replace_all p q cs"
        using None p s by (simp add: replace_all.simps[of p q "c # cs"])
      with "1.prems"(1) x have y: "y = c" and rest: "replace_all p q cs = ys @ r" by auto
      show ?thesis
      proof (cases "ys = []")
        case True
        with x y s show ?thesis by simp
      next
        case ne: False
        have "set ys \<inter> set q = {}" using "1.prems"(3) x by auto
        from "1.IH"(1)[OF p s None rest ne this "1.prems"(4)] obtain r' where "cs = ys @ r'" by blast
        then show ?thesis using x y s by simp
      qed
    next
      case (Some t)
      then have "replace_all p q s = q @ replace_all p q t"
        using p s by (simp add: replace_all.simps[of p q "c # cs"])
      with "1.prems"(1,3) x q show ?thesis by auto
    qed
  qed
qed

lemma contains_Nil: "contains [] x \<longleftrightarrow> x = []"
  by (auto simp: contains_iff)

lemma contains_Cons: "contains (c # s) x \<longleftrightarrow> (\<exists>r. c # s = x @ r) \<or> contains s x"
proof
  assume "contains (c # s) x"
  then obtain a b where ab: "c # s = a @ x @ b" by (auto simp: contains_iff)
  show "(\<exists>r. c # s = x @ r) \<or> contains s x"
  proof (cases a)
    case (Cons d a')
    with ab have "s = a' @ x @ b" by simp
    then show ?thesis unfolding contains_iff by blast
  qed (use ab in auto)
qed (metis contains_iff append_Cons append_Nil)

lemma contains_suffixI: "contains s x \<Longrightarrow> contains (a @ s) x"
  unfolding contains_iff by (metis append_assoc)

lemma contains_disjoint_prefix:
  assumes "contains (q @ s) x" and "x \<noteq> []" and "set x \<inter> set q = {}"
  shows "contains s x"
  using assms
proof (induction q)
  case (Cons z q)
  have "\<not> (\<exists>r. z # q @ s = x @ r)" using Cons.prems(2,3) by (cases x) auto
  with Cons show ?case by (simp add: contains_Cons)
qed simp

lemma replace_all_containsD:
  assumes "contains (replace_all p q s) x" and "x \<noteq> []" and "set x \<inter> set q = {}" and "q \<noteq> []"
  shows "contains s x \<and> x \<noteq> p"
  using assms
proof (induction p q s rule: replace_all.induct)
  case (1 p q s)
  show ?case
  proof (cases "p = [] \<or> s = []")
    case True
    with "1.prems" show ?thesis by (auto simp: contains_Nil)
  next
    case False
    then obtain c cs where s: "s = c # cs" and p: "p \<noteq> []" by (cases s) auto
    show ?thesis
    proof (cases "strip_prefix p s")
      case None
      have eq: "replace_all p q s = c # replace_all p q cs"
        using None p s by (simp add: replace_all.simps[of p q "c # cs"])
      from "1.prems"(1) consider r where "replace_all p q s = x @ r" | "contains (replace_all p q cs) x"
        unfolding eq contains_Cons by blast
      then show ?thesis
      proof cases
        case 1
        from replace_all_prefixD[OF this "1.prems"(2-4)] obtain r' where "s = x @ r'" by blast
        moreover from this None have "x \<noteq> p" by (auto simp: strip_prefix_None_iff)
        ultimately show ?thesis by (metis contains_iff append_Nil)
      next
        case 2
        from "1.IH"(1)[OF p s None this "1.prems"(2-4)] s show ?thesis by (simp add: contains_Cons)
      qed
    next
      case (Some t)
      then have "replace_all p q s = q @ replace_all p q t"
        using p s by (simp add: replace_all.simps[of p q "c # cs"])
      with "1.prems"(1) have "contains (replace_all p q t) x"
        using contains_disjoint_prefix[OF _ "1.prems"(2,3)] by simp
      from "1.IH"(2)[OF p s Some this "1.prems"(2-4)] have "contains t x" "x \<noteq> p" by simp_all
      moreover have "s = p @ t" using Some by (simp add: strip_prefix_Some_iff)
      ultimately show ?thesis by (simp add: contains_suffixI)
    qed
  qed
qed

lemma REDACTED_TOKEN_not_Nil: "REDACTED_TOKEN \<noteq> []"
  by (simp add: REDACTED_TOKEN_def)

lemma trim_Nil [simp]: "trim [] = []"
  by (simp add: trim_def trim_end_def trim_start.simps rtrim.simps)

definition redactable :: "string \<Rightarrow> bool" where
  "redactable m \<longleftrightarrow> trim m \<noteq> [] \<and> set m \<inter> set REDACTED_TOKEN = {}"

lemma redactable_not_Nil: "redactable m \<Longrightarrow> m \<noteq> []"
  by (auto simp: redactable_def)

lemma redact_step_contains:
  assumes "redactable m"
  shows "contains (foldl (\<lambda>source marker.
              if contains source marker then replace_all marker REDACTED_TOKEN source else source)
            t ms) m \<Longrightarrow> contains t m \<and> m \<notin> set ms"
proof (induction ms arbitrary: t)
  case (Cons p ms)
  note D = replace_all_containsD[OF _ redactable_not_Nil[OF assms] _ REDACTED_TOKEN_not_Nil,
      of p t]
  show ?case
  proof (cases "contains t p")
    case True
    with Cons have "contains (replace_all p REDACTED_TOKEN t) m" "m \<notin> set ms" by auto
    with D assms show ?thesis by (auto simp: redactable_def)
  next
    case False
    with Cons have "contains t m" "m \<notin> set ms" by auto
    with False show ?thesis by auto
  qed
qed simp

lemma redact_markers_clean:
  "redactable m \<Longrightarrow> m \<in> set markers \<Longrightarrow> \<not> contains (redact_markers t markers) m"
  using redact_step_contains[of m t "ordered_markers markers"]
  by (auto simp: redact_markers_def ordered_markers_def redactable_def)

definition host_safe_leaf :: "crypto_ops \<Rightarrow> string list \<Rightarrow> string \<Rightarrow> bool" where
  "host_safe_leaf ops markers t \<longleftrightarrow> (\<exists>u. t = url_ref ops u)
     \<or> (\<exists>s. t = ''url:'' @ host_safe_digest ops URL_PQ_DOMAIN s)
     \<or> (\<not> looks_like_url_with_path t
        \<and> (\<forall>m \<in> set markers. redactable m \<longrightarrow> \<not> contains t m))"

lemma host_safe_redact_string: "host_safe_leaf ops markers (redact_string ops markers s)"
  by (auto simp: host_safe_leaf_def redact_string_def Let_def dest: redact_markers_clean)

lemma host_safe_redact_path: "host_safe_leaf ops markers (redact_path_string ops k s)"
  by (auto simp: host_safe_leaf_def redact_path_string_def)

lemma redact_json_value_host_safe:
  "t \<in> set (json_strings (redact_json_value ops markers path_keys j)) \<Longrightarrow> host_safe_leaf ops markers t"
proof (induction ops markers path_keys j rule: redact_json_value.induct)
  case (1 ops markers path_keys m)
  then obtain k v where kv: "(k, v) \<in> set m"
    and t: "t \<in> set (json_strings (if list_ex (eq_ic k) path_keys then
          (case v of
             JStr s \<Rightarrow> JStr (redact_path_string ops k s)
           | _ \<Rightarrow> redact_json_value ops markers path_keys v)
        else
          (case v of
             JStr s \<Rightarrow> JStr (redact_string ops markers s)
           | _ \<Rightarrow> redact_json_value ops markers path_keys v)))"
    by auto
  show ?case
    using t "1.IH"[OF kv refl]
    by (cases v) (auto split: if_splits simp: host_safe_redact_path host_safe_redact_string)
qed (auto simp: host_safe_redact_string)

text \<open>
  No secrecy marker survives in a scrubbed JSON payload. Every string leaf that
  \<open>redact_json_value\<close> leaves behind is the host-safe stand-in of a URL, the digest of a path
  value, or a text that is no URL with a path and holds none of the markers (for the markers
  that are not blank and share no character with the replacement token).
\<close>

theorem redact_json_value_leaves:
  assumes "t \<in> set (json_strings (redact_json_value ops markers path_keys j))"
  shows "(\<exists>u. t = url_ref ops u) \<or> (\<exists>s. t = ''url:'' @ host_safe_digest ops URL_PQ_DOMAIN s)
     \<or> (\<not> looks_like_url_with_path t
        \<and> (\<forall>m \<in> set markers. trim m \<noteq> [] \<and> set m \<inter> set REDACTED_TOKEN = {} \<longrightarrow> \<not> contains t m))"
  using redact_json_value_host_safe[OF assms] by (simp add: host_safe_leaf_def redactable_def)

definition demo_payload :: json where
  "demo_payload = JObj [(''detail'', JStr ''see KEY42 KEY42''), (''n'', JNum 1)]"

lemma demo_payload_leaf:
  "json_strings (redact_json_value demo_ops [''KEY42''] [''url''] demo_payload)
   = [''see <redacted> <redacted>'']"
  by (simp add: demo_payload_def) code_simp

theorem redact_json_value_leaves_witness:
  "''see <redacted> <redacted>''
     \<in> set (json_strings (redact_json_value demo_ops [''KEY42''] [''url''] demo_payload))
   \<and> ((\<exists>u. ''see <redacted> <redacted>'' = url_ref demo_ops u)
     \<or> (\<exists>s. ''see <redacted> <redacted>'' = ''url:'' @ host_safe_digest demo_ops URL_PQ_DOMAIN s)
     \<or> (\<not> looks_like_url_with_path ''see <redacted> <redacted>''
        \<and> (\<forall>m \<in> set [''KEY42'']. trim m \<noteq> [] \<and> set m \<inter> set REDACTED_TOKEN = {}
             \<longrightarrow> \<not> contains ''see <redacted> <redacted>'' m)))"
proof -
  have t: "''see <redacted> <redacted>''
     \<in> set (json_strings (redact_json_value demo_ops [''KEY42''] [''url''] demo_payload))"
    by (simp add: demo_payload_leaf)
  from t redact_json_value_leaves[OF t] show ?thesis by (rule conjI)
qed

section \<open>What a URL reference discloses\<close>

definition plain_host :: "string \<Rightarrow> bool" where
  "plain_host h \<longleftrightarrow> h \<noteq> [] \<and> set h \<inter> set ''/?#@:['' = {}"

definition user_info :: "string \<Rightarrow> bool" where
  "user_info ui \<longleftrightarrow> ui = [] \<or> (\<exists>u. ui = u @ ''@'' \<and> set u \<inter> set ''/?#'' = {})"

lemma user_info_no_sep: "user_info ui \<Longrightarrow> set ui \<inter> {CHR ''/'', CHR ''?'', CHR ''#''} = {}"
  by (auto simp: user_info_def)

lemma strip_user_info:
  assumes "user_info ui" and "plain_host h"
  shows "(case rsplit_once (CHR ''@'') (ui @ h) of Some (_, hp) \<Rightarrow> hp | None \<Rightarrow> ui @ h) = h"
proof -
  have at: "CHR ''@'' \<notin> set h" using assms(2) by (auto simp: plain_host_def)
  show ?thesis
  proof (cases "ui = []")
    case True
    with at show ?thesis by (simp add: rsplit_once_None_iff[THEN iffD2])
  next
    case False
    then obtain u where "ui = u @ ''@''" using assms(1) by (auto simp: user_info_def)
    then have "rsplit_once (CHR ''@'') (ui @ h) = Some (u, h)"
      using at by (simp add: rsplit_once_Some_iff)
    then show ?thesis by simp
  qed
qed

lemma split_plain_host:
  assumes "plain_host h"
  shows "split_host_port h = (Some h, None)"
proof -
  have "rsplit_once (CHR '':'') h = None" "\<not> starts_with h ''[''" "h \<noteq> []"
    using assms by (auto simp: plain_host_def rsplit_once_None_iff starts_with_iff)
  then show ?thesis by (simp add: split_host_port_def)
qed

lemma takeWhile_authority:
  assumes "user_info ui" and "plain_host h" and "tail = [] \<or> hd tail \<in> set ''/?#''"
  shows "takeWhile (\<lambda>c. c \<notin> {CHR ''/'', CHR ''?'', CHR ''#''}) (ui @ h @ tail) = ui @ h"
proof -
  have "\<forall>c \<in> set (ui @ h). c \<notin> {CHR ''/'', CHR ''?'', CHR ''#''}"
    using user_info_no_sep[OF assms(1)] assms(2) by (auto simp: plain_host_def)
  then have "takeWhile (\<lambda>c. c \<notin> {CHR ''/'', CHR ''?'', CHR ''#''}) ((ui @ h) @ tail)
      = (ui @ h) @ takeWhile (\<lambda>c. c \<notin> {CHR ''/'', CHR ''?'', CHR ''#''}) tail"
    by (intro takeWhile_append2) blast
  moreover have "takeWhile (\<lambda>c. c \<notin> {CHR ''/'', CHR ''?'', CHR ''#''}) tail = []"
    using assms(3) by (cases tail) auto
  ultimately show ?thesis by simp
qed

lemma parse_plain_url:
  assumes "CHR '':'' \<notin> set scheme" and "user_info ui" and "plain_host h"
    and "tail = [] \<or> hd tail \<in> set ''/?#''"
  shows "parse_url_parts (scheme @ ''://'' @ ui @ h @ tail)
    = Some \<lparr> up_scheme = Some scheme, up_host = Some h, up_port = None \<rparr>"
proof -
  have f: "find_sub ''://'' (scheme @ ''://'' @ ui @ h @ tail) = Some (length scheme)"
    using find_sub_fresh_head[OF assms(1), of "''//''" "ui @ h @ tail"] by simp
  have a: "take (case position (\<lambda>c. c \<in> {CHR ''/'', CHR ''?'', CHR ''#''}) (ui @ h @ tail) of
              Some i \<Rightarrow> i | None \<Rightarrow> length (ui @ h @ tail)) (ui @ h @ tail) = ui @ h"
    unfolding take_position by (rule takeWhile_authority[OF assms(2-4)])
  have d: "drop (length scheme + 3) (scheme @ ''://'' @ ui @ h @ tail) = ui @ h @ tail" by simp
  have t: "take (length scheme) (scheme @ ''://'' @ ui @ h @ tail) = scheme" by simp
  have ne: "\<not> (ui @ h = [] \<and> Some scheme = None)" by simp
  show ?thesis
    unfolding parse_url_parts_def f option.case d t prod.case Let_def a
    by (simp only: ne if_False strip_user_info[OF assms(2,3)] split_plain_host[OF assms(3)] prod.case)
qed

lemma split_plain_url:
  assumes "CHR '':'' \<notin> set scheme" and "user_info ui" and "plain_host h"
  shows "(case split_path_query (scheme @ ''://'' @ ui @ h @ tail) of
            (path, query) \<Rightarrow> path @ (case query of Some q \<Rightarrow> CHR ''?'' # q | None \<Rightarrow> []))
    = takeWhile (\<lambda>c. c \<noteq> CHR ''#'') (dropWhile (\<lambda>c. c \<noteq> CHR ''/'') tail)"
proof -
  have f: "find_sub ''://'' (scheme @ ''://'' @ ui @ h @ tail) = Some (length scheme)"
    using find_sub_fresh_head[OF assms(1), of "''//''" "ui @ h @ tail"] by simp
  have d: "drop (length scheme + 3) (scheme @ ''://'' @ ui @ h @ tail) = ui @ h @ tail" by simp
  have "\<forall>c \<in> set (ui @ h). c \<noteq> CHR ''/''"
    using user_info_no_sep[OF assms(2)] assms(3) by (auto simp: plain_host_def)
  then have "dropWhile (\<lambda>c. c \<noteq> CHR ''/'') ((ui @ h) @ tail) = dropWhile (\<lambda>c. c \<noteq> CHR ''/'') tail"
    by (intro dropWhile_append2) blast
  then have w: "dropWhile (\<lambda>c. c \<noteq> CHR ''/'') (ui @ h @ tail) = dropWhile (\<lambda>c. c \<noteq> CHR ''/'') tail"
    by simp
  define pq where "pq = takeWhile (\<lambda>c. c \<noteq> CHR ''#'') (dropWhile (\<lambda>c. c \<noteq> CHR ''/'') tail)"
  have q: "split_path_query (scheme @ ''://'' @ ui @ h @ tail) =
      (case split_once (CHR ''?'') pq of Some (path, query) \<Rightarrow> (path, Some query) | None \<Rightarrow> (pq, None))"
    unfolding split_path_query_def f option.case d Let_def drop_position hd_split_on w pq_def ..
  have "(case (case split_once (CHR ''?'') pq of Some (path, query) \<Rightarrow> (path, Some query)
          | None \<Rightarrow> (pq, None)) of
      (path, query) \<Rightarrow> path @ (case query of Some q \<Rightarrow> CHR ''?'' # q | None \<Rightarrow> [])) = pq"
    using split_once_Some_iff[of "CHR ''?''" pq] by (auto split: option.splits)
  then show ?thesis unfolding q pq_def .
qed

lemma url_ref_plain:
  assumes "CHR '':'' \<notin> set scheme" and "user_info ui" and "plain_host h"
    and "tail = [] \<or> hd tail \<in> set ''/?#''"
  shows "url_ref ops (scheme @ ''://'' @ ui @ h @ tail) =
     scheme @ ''://'' @ h @ ''/url:sha256:'' @ hex_encode (sha256 ops (URL_PQ_DOMAIN
       @ takeWhile (\<lambda>c. c \<noteq> CHR ''#'') (dropWhile (\<lambda>c. c \<noteq> CHR ''/'') tail)))"
proof -
  have "url_path_query_ref ops (scheme @ ''://'' @ ui @ h @ tail) = ''url:'' @ host_safe_digest ops
      URL_PQ_DOMAIN (takeWhile (\<lambda>c. c \<noteq> CHR ''#'') (dropWhile (\<lambda>c. c \<noteq> CHR ''/'') tail))"
    unfolding url_path_query_ref_def Let_def split_plain_url[OF assms(1-3), symmetric]
    by (simp add: split_beta)
  then show ?thesis
    unfolding url_ref_def parse_plain_url[OF assms] option.case
    by (simp add: opt_text_def host_safe_digest_def HOST_SAFE_DIGEST_PREFIX_def)
qed

text \<open>
  The host-safe reference of a URL shows scheme and host only. User information is dropped,
  and path and query enter through their SHA-256 digest alone, so two URLs on one origin whose
  digests agree cannot be told apart.
\<close>

theorem url_ref_discloses_only_origin:
  assumes "CHR '':'' \<notin> set scheme" and "user_info ui" and "plain_host h"
    and "tail = [] \<or> hd tail \<in> set ''/?#''"
  shows "url_ref ops (scheme @ ''://'' @ ui @ h @ tail) =
     scheme @ ''://'' @ h @ ''/url:sha256:'' @ hex_encode (sha256 ops (URL_PQ_DOMAIN
       @ takeWhile (\<lambda>c. c \<noteq> CHR ''#'') (dropWhile (\<lambda>c. c \<noteq> CHR ''/'') tail)))"
  using assms by (rule url_ref_plain)

theorem url_ref_discloses_only_origin_witness:
  "url_ref demo_ops ''https://me:pw@shop.example/cart?id=7#top'' =
     ''https://shop.example/url:sha256:'' @ hex_encode (sha256 demo_ops (URL_PQ_DOMAIN @ ''/cart?id=7''))"
  using url_ref_discloses_only_origin[of "''https''" "''me:pw@''" "''shop.example''" "''/cart?id=7#top''"
      demo_ops]
  by (simp add: user_info_def plain_host_def)

text \<open>
  The scheme test is the first \<^verbatim>\<open>://\<close> anywhere in the text, so a relative reference that
  carries a URL in its query keeps its path and the start of its query in clear.
\<close>

lemma url_ref_relative_leak:
  "starts_with (url_ref ops ''/secret?next=https://e'') ''/secret?next=https://''"
proof -
  have "parse_url_parts ''/secret?next=https://e''
      = Some \<lparr> up_scheme = Some ''/secret?next=https'', up_host = Some ''e'', up_port = None \<rparr>"
    by code_simp
  then show ?thesis by (simp add: url_ref_def opt_text_def starts_with_def)
qed

end
