(* ===== verification/Core_Error.thy ===== *)
theory Core_Error
  imports Redact
begin

text \<open>
  \<^verbatim>\<open>basecrawl-core/src/error.rs\<close>: every failure of the crawler, its machine-readable kind and the
  host-visible JSON it is reported as. A free-form detail is scrubbed of URL-shaped text on the
  way out; \<open>None\<close> in the scrubber is the slice panic of \<^verbatim>\<open>strip_url_shaped\<close>.
\<close>

section \<open>Errors and kinds\<close>

datatype extract_refuse_reason = ProviderNotConfigured | ExtractorNotAvailable | ProviderCallFailed

fun refuse_reason_str :: "extract_refuse_reason \<Rightarrow> string" where
  "refuse_reason_str ProviderNotConfigured = ''provider_not_configured''"
| "refuse_reason_str ExtractorNotAvailable = ''extractor_not_available''"
| "refuse_reason_str ProviderCallFailed = ''provider_call_failed''"

definition URL_SHAPED_JSON_KEYS :: "string list" where
  "URL_SHAPED_JSON_KEYS =
     [''targetUrl'', ''robotsUrl'', ''url'', ''final_url'', ''finalUrl'', ''path'', ''location'']"

datatype core_error =
    MissingUrl
  | InvalidUrl string
  | UnsupportedScheme string
  | UnknownFormat string string
  | UnsupportedOutput string
  | StructuredExtractionUnsupported extract_refuse_reason
  | InvalidJsonSchema string
  | InvalidHeader string
  | UnsupportedMethod string
  | PostNotSupportedOnHardPath
  | InvalidProductOption string
  | InvalidViewport string
  | InvalidActions string
  | InvalidProxy string
  | ProxyClassUnavailable string string
  | ProxyConnect "nat option" string string
  | ResidentialConcurrency string
  | HardPath string
  | TlsImpersonate string
  | ChallengeBlocked nat string
  | Solver string string "nat option"
  | RobotsDenied json
  | Timeout string
  | Transport string
  | CertificateValidation string
  | TlsCapture string
  | TlsVersionUnsupported string
  | TooManyRedirects nat string
  | Redirect string
  | Fetch string
  | Render string
  | DnsIsolation string
  | ResourceBudgetExceeded
  | DocumentExtraction string
  | EgressMetadata string
  | Attestation string
  | EnclaveSignature string
  | Io string

definition solver_kind :: "string \<Rightarrow> string" where
  "solver_kind k =
     (if k \<in> {''solver_auth_error'', ''solver_timeout'', ''solver_unsupported'',
              ''solver_transport_error'', ''solver_apply_pending'', ''solver_apply_failed''}
      then k else ''solver_error'')"

fun kind :: "core_error \<Rightarrow> string" where
  "kind MissingUrl = ''missing_url''"
| "kind (InvalidUrl _) = ''invalid_url''"
| "kind (UnsupportedScheme _) = ''unsupported_scheme''"
| "kind (UnknownFormat _ _) = ''invalid_format''"
| "kind (UnsupportedOutput _) = ''unsupported_output''"
| "kind (StructuredExtractionUnsupported _) = ''structured_extraction_unsupported''"
| "kind (InvalidJsonSchema _) = ''invalid_json_schema''"
| "kind (InvalidHeader _) = ''invalid_header''"
| "kind (UnsupportedMethod _) = ''unsupported_method''"
| "kind PostNotSupportedOnHardPath = ''post_not_supported_on_hard_path''"
| "kind (InvalidProductOption _) = ''invalid_product_option''"
| "kind (InvalidViewport _) = ''invalid_viewport''"
| "kind (InvalidActions _) = ''invalid_actions''"
| "kind (InvalidProxy _) = ''invalid_proxy''"
| "kind (ProxyClassUnavailable _ _) = ''proxy_class_unavailable''"
| "kind (ProxyConnect _ class_name _) =
     (if class_name \<in> {''proxy_auth_error'', ''credential_error''} then ''proxy_auth_error''
      else ''transport_error'')"
| "kind (ResidentialConcurrency _) = ''residential_concurrency''"
| "kind (HardPath _) = ''hard_path_policy''"
| "kind (TlsImpersonate _) = ''tls_impersonate_unsupported''"
| "kind (ChallengeBlocked _ _) = ''challenge_blocked''"
| "kind (Solver k _ _) = solver_kind k"
| "kind (RobotsDenied _) = ''robots_denied''"
| "kind (Timeout _) = ''timeout''"
| "kind (Transport _) = ''transport_error''"
| "kind (CertificateValidation _) = ''certificate_validation''"
| "kind (TlsCapture _) = ''tls_capture_error''"
| "kind (TlsVersionUnsupported _) = ''tls_version_unsupported''"
| "kind (TooManyRedirects _ _) = ''too_many_redirects''"
| "kind (Redirect _) = ''redirect_error''"
| "kind (Fetch _) = ''fetch_error''"
| "kind (Render _) = ''render_error''"
| "kind (DnsIsolation _) = ''dns_isolation''"
| "kind ResourceBudgetExceeded = ''resource_budget_exceeded''"
| "kind (DocumentExtraction _) = ''document_extraction''"
| "kind (EgressMetadata _) = ''egress_metadata_error''"
| "kind (Attestation _) = ''attestation_error''"
| "kind (EnclaveSignature _) = ''enclave_signature_error''"
| "kind (Io _) = ''io_error''"

definition exit_code :: "core_error \<Rightarrow> int" where
  "exit_code e = 1"

section \<open>Display\<close>

definition quoted :: "string \<Rightarrow> string" where
  "quoted s = [CHR 0x27] @ s @ [CHR 0x27]"

fun display :: "core_error \<Rightarrow> string" where
  "display MissingUrl = ''no URL provided''"
| "display (InvalidUrl _) = ''invalid URL''"
| "display (UnsupportedScheme s) =
     ''unsupported URL scheme '' @ quoted s @ '' (only http and https are allowed)''"
| "display (UnknownFormat invalid supported) =
     ''unknown format '' @ quoted invalid @ '' (supported: '' @ supported @ '')''"
| "display (UnsupportedOutput s) =
     ''unsupported output format '' @ quoted s @ '' (only '' @ quoted ''json'' @ '' is supported)''"
| "display (StructuredExtractionUnsupported r) =
     ''structured extraction for the '' @ quoted ''json'' @ '' format is unavailable (''
     @ refuse_reason_str r @ '')''"
| "display (InvalidJsonSchema d) = ''invalid json schema: '' @ d"
| "display (InvalidHeader h) =
     ''invalid request header '' @ quoted h @ '' (expected '' @ quoted ''Name: Value'' @ '')''"
| "display (UnsupportedMethod m) = ''unsupported HTTP method '' @ quoted m"
| "display PostNotSupportedOnHardPath =
     ''POST is not supported on the hard Chromium path in this build''"
| "display (InvalidProductOption d) = ''invalid crawl/map/batch option: '' @ d"
| "display (InvalidViewport v) =
     ''invalid viewport '' @ quoted v @ '' (expected WIDTHxHEIGHT, e.g. 1280x800)''"
| "display (InvalidActions d) = ''invalid actions specification: '' @ d"
| "display (InvalidProxy d) = ''invalid proxy configuration: '' @ d"
| "display (ProxyClassUnavailable r d) =
     ''required proxy class '' @ quoted r @ '' unavailable: '' @ d"
| "display (ProxyConnect st cl d) = ''proxy CONNECT rejected ('' @ cl @ ''): '' @ d"
| "display (ResidentialConcurrency d) = ''residential dial concurrency limit exceeded: '' @ d"
| "display (HardPath d) = ''hard path policy error: '' @ d"
| "display (TlsImpersonate d) = ''tls impersonate error: '' @ d"
| "display (ChallengeBlocked st d) =
     ''blocked by bot challenge (HTTP '' @ show_nat st @ ''): '' @ d"
| "display (Solver k d st) = ''captcha solver error ('' @ k @ ''): '' @ d"
| "display (RobotsDenied _) = ''robots policy denied the requested path''"
| "display (Timeout d) = ''request timed out: '' @ d"
| "display (Transport d) = ''transport error: '' @ d"
| "display (CertificateValidation d) = ''certificate validation failed: '' @ d"
| "display (TlsCapture d) = ''TLS capture failed: '' @ d"
| "display (TlsVersionUnsupported v) =
     ''negotiated TLS version '' @ v
     @ '' cannot produce an authenticity-capable proof; TLS 1.3 is required''"
| "display (TooManyRedirects m _) =
     ''too many redirects: exceeded the maximum of '' @ show_nat m @ '' hop(s)''"
| "display (Redirect d) = ''invalid redirect: '' @ d"
| "display (Fetch d) = ''fetch failed: '' @ d"
| "display (Render d) = ''html render failed: '' @ d"
| "display (DnsIsolation d) = ''sealed browser DNS isolation failed: '' @ d"
| "display ResourceBudgetExceeded =
     ''the scrape-owned browser request or byte budget was exhausted''"
| "display (DocumentExtraction d) = ''document extraction failed: '' @ d"
| "display (EgressMetadata d) = ''could not produce egress metadata: '' @ d"
| "display (Attestation d) = ''TDX attestation failed: '' @ d"
| "display (EnclaveSignature d) = ''enclave signature failed: '' @ d"
| "display (Io d) = ''failed to write output file: '' @ d"

section \<open>Scrubbing\<close>

definition is_quote :: "char \<Rightarrow> bool" where
  "is_quote c \<longleftrightarrow> c = CHR 0x27 \<or> c = CHR 0x22"

function scrub_quoted_paths :: "crypto_ops \<Rightarrow> string \<Rightarrow> string" where
  "scrub_quoted_paths ops [] = []"
| "scrub_quoted_paths ops (c # cs) =
     (if is_quote c then
        (let token = takeWhile (\<lambda>n. n \<noteq> c) cs;
             rest = drop (length token + 1) cs
         in (if starts_with token ''/'' \<or> CHR ''?'' \<in> set token
             then [c] @ url_path_query_ref ops (''https://placeholder.invalid'' @ token) @ [c]
             else [c] @ token @ [c])
            @ scrub_quoted_paths ops rest)
      else c # scrub_quoted_paths ops cs)"
  by pat_completeness auto
termination
  by (relation "measure (\<lambda>(ops, s). length s)") auto

definition is_scheme_char :: "char \<Rightarrow> bool" where
  "is_scheme_char c \<longleftrightarrow> is_alnum c \<or> c \<in> {CHR ''+'', CHR ''.'', CHR ''-''}"

text \<open>
  \<^verbatim>\<open>prefix.rfind(..).map(|i| i + 1)\<close>: one byte after the start of the last character that
  cannot belong to a scheme. Where that character has several bytes, the index is not on a
  character boundary and the slice that follows panics (\<open>None\<close>).
\<close>

definition scheme_start :: "string \<Rightarrow> nat option" where
  "scheme_start pre =
     (let suffix = takeWhile is_scheme_char (rev pre)
      in if length suffix = length pre then Some 0
         else if is_ascii (pre ! (length pre - length suffix - 1))
         then Some (length pre - length suffix)
         else None)"

fun url_token_end :: "string \<Rightarrow> nat" where
  "url_token_end [] = 0"
| "url_token_end (c # cs) =
     (if ws_len (c # cs) > 0 \<or> is_quote c \<or> c = CHR ''>'' then 0 else Suc (url_token_end cs))"

lemma url_token_end_le: "url_token_end s \<le> length s"
  by (induction s) auto

lemma ws_len_plain: "code c < 128 \<Longrightarrow> \<not> ws1 c \<Longrightarrow> ws_len (c # cs) = 0"
  by (cases "c # cs" rule: ws_len.cases) (auto simp: ws2_def ws3_def)

lemma scheme_char_plain:
  "is_scheme_char c \<or> c = CHR '':'' \<Longrightarrow> code c < 128 \<and> \<not> ws1 c \<and> \<not> is_quote c \<and> c \<noteq> CHR ''>''"
  by (auto simp: is_scheme_char_def is_alnum_def is_alpha_def is_upper_def is_lower_def is_digit_def
      ws1_def is_quote_def)

lemma url_token_end_plain:
  "is_scheme_char c \<or> c = CHR '':'' \<Longrightarrow> url_token_end (c # cs) = Suc (url_token_end cs)"
  using scheme_char_plain[of c] by (simp add: ws_len_plain)

lemma scheme_start_SomeD:
  assumes "scheme_start pre = Some start"
  shows "start \<le> length pre \<and> list_all is_scheme_char (drop start pre)"
proof -
  define sf where "sf = takeWhile is_scheme_char (rev pre)"
  have start: "start = length pre - length sf"
    using assms by (auto simp: scheme_start_def sf_def Let_def split: if_splits)
  have "take (length sf) (rev pre) = sf"
    unfolding sf_def by (metis takeWhile_eq_take)
  then have "drop start pre = rev sf"
    using start by (metis rev_rev_ident rev_take length_rev)
  moreover have "list_all is_scheme_char sf"
    unfolding sf_def by (auto simp: list_all_iff dest: set_takeWhileD)
  ultimately show ?thesis using start by (simp add: list_all_iff)
qed

text \<open>Every round of the scrubbing loop consumes at least one byte.\<close>

lemma strip_round_progress:
  assumes "find_sub ''://'' rest = Some idx" and "scheme_start (take idx rest) = Some start"
  shows "start + url_token_end (drop start rest) > 0 \<and> start < length rest"
proof -
  have idx: "idx + 3 \<le> length rest" and at: "take 3 (drop idx rest) = ''://''"
    using find_sub_SomeD[OF assms(1)] by (simp_all add: numeral_3_eq_3)
  have s: "start \<le> idx" "list_all is_scheme_char (drop start (take idx rest))"
    using scheme_start_SomeD[OF assms(2)] idx by auto
  have less: "start < length rest" using s idx by simp
  have c: "is_scheme_char (rest ! start) \<or> rest ! start = CHR '':''"
  proof (cases "start = idx")
    case True
    have "hd (take 3 (drop idx rest)) = rest ! idx" using idx by (simp add: hd_drop_conv_nth)
    with at True show ?thesis by simp
  next
    case False
    then have "rest ! start \<in> set (drop start (take idx rest))"
      using s idx by (auto simp: in_set_conv_nth intro!: exI[of _ 0])
    with s show ?thesis by (auto simp: list_all_iff)
  qed
  have "drop start rest = rest ! start # drop (Suc start) rest"
    using less by (simp add: Cons_nth_drop_Suc)
  then have "url_token_end (drop start rest) > 0"
    using url_token_end_plain[OF c] by simp
  with less show ?thesis by simp
qed

function strip_urls :: "crypto_ops \<Rightarrow> string \<Rightarrow> string option" where
  "strip_urls ops rest =
     (case find_sub ''://'' rest of
        None \<Rightarrow> Some (scrub_quoted_paths ops rest)
      | Some idx \<Rightarrow>
          (case scheme_start (take idx rest) of
             None \<Rightarrow> None
           | Some start \<Rightarrow>
               map_option (\<lambda>out. take start rest
                   @ url_ref ops (take (url_token_end (drop start rest)) (drop start rest)) @ out)
                 (strip_urls ops (drop (url_token_end (drop start rest)) (drop start rest)))))"
  by pat_completeness auto
termination
proof (relation "measure (\<lambda>(ops, s). length s)", simp, goal_cases)
  case (1 ops rest idx start)
  then show ?case using strip_round_progress[of rest idx start] by simp linarith
qed

declare strip_urls.simps [simp del]

definition strip_url_shaped :: "crypto_ops \<Rightarrow> string \<Rightarrow> string option" where
  "strip_url_shaped ops detail =
     (if \<not> (contains detail ''://'' \<or> (CHR ''?'' \<in> set detail \<and> CHR ''='' \<in> set detail))
        \<and> \<not> contains detail ''/secret'' \<and> CHR 0x27 \<notin> set detail
      then Some detail
      else strip_urls ops detail)"

definition scrubs_display :: "core_error \<Rightarrow> bool" where
  "scrubs_display e =
     (case e of
        Transport _ \<Rightarrow> True | ProxyConnect _ _ _ \<Rightarrow> True | ResidentialConcurrency _ \<Rightarrow> True
      | Fetch _ \<Rightarrow> True | Render _ \<Rightarrow> True | DnsIsolation _ \<Rightarrow> True | Timeout _ \<Rightarrow> True
      | CertificateValidation _ \<Rightarrow> True | TlsCapture _ \<Rightarrow> True | DocumentExtraction _ \<Rightarrow> True
      | EgressMetadata _ \<Rightarrow> True | Attestation _ \<Rightarrow> True | EnclaveSignature _ \<Rightarrow> True
      | Io _ \<Rightarrow> True | InvalidActions _ \<Rightarrow> True | InvalidViewport _ \<Rightarrow> True | Solver _ _ _ \<Rightarrow> True
      | _ \<Rightarrow> False)"

definition host_safe_message :: "crypto_ops \<Rightarrow> core_error \<Rightarrow> string option" where
  "host_safe_message ops e =
     (case e of
        InvalidUrl _ \<Rightarrow> Some ''invalid URL''
      | TooManyRedirects m _ \<Rightarrow>
          Some (''too many redirects: exceeded the maximum of '' @ show_nat m @ '' hop(s)'')
      | InvalidHeader name \<Rightarrow>
          (let safe_name = (if CHR '':'' \<in> set name \<or> CHR ''='' \<in> set name
                            then REDACTED_TOKEN else name)
           in Some (''invalid request header '' @ quoted safe_name
                    @ '' (expected '' @ quoted ''Name: Value'' @ '')''))
      | Redirect detail \<Rightarrow> strip_url_shaped ops detail
      | _ \<Rightarrow> if scrubs_display e then strip_url_shaped ops (display e) else Some (display e))"

section \<open>The reported object\<close>

definition opt_field :: "string \<Rightarrow> nat option \<Rightarrow> (string \<times> json) list" where
  "opt_field k x = (case x of None \<Rightarrow> [] | Some n \<Rightarrow> [(k, JNum (int n))])"

fun error_fields :: "crypto_ops \<Rightarrow> core_error \<Rightarrow> (string \<times> json) list" where
  "error_fields ops (UnknownFormat invalid _) = [(''invalid_format'', JStr invalid)]"
| "error_fields ops (UnsupportedScheme s) = [(''scheme'', JStr s)]"
| "error_fields ops (TlsVersionUnsupported v) = [(''negotiated_version'', JStr v)]"
| "error_fields ops (StructuredExtractionUnsupported r) =
     [(''format'', JStr ''json''), (''capability'', JStr ''structured_extraction''),
      (''reason'', JStr (refuse_reason_str r))]"
| "error_fields ops (InvalidJsonSchema d) =
     [(''format'', JStr ''json''), (''capability'', JStr ''structured_extraction''),
      (''schema_error'', JStr d)]"
| "error_fields ops (UnsupportedMethod m) = [(''method'', JStr m)]"
| "error_fields ops PostNotSupportedOnHardPath =
     [(''capability'', JStr ''post_on_hard_path''), (''reason'', JStr ''not_supported'')]"
| "error_fields ops (TooManyRedirects m u) =
     [(''max_redirects'', JNum (int m)), (''url_ref'', JStr (url_path_query_ref ops u))]"
| "error_fields ops (InvalidUrl raw) = [(''url_ref'', JStr (url_path_query_ref ops raw))]"
| "error_fields ops (RobotsDenied robots) =
     [(''robots'', redact_json_value ops [] URL_SHAPED_JSON_KEYS robots)]"
| "error_fields ops (ProxyClassUnavailable r _) = [(''required_proxy_class'', JStr r)]"
| "error_fields ops (ProxyConnect st cl _) =
     opt_field ''status_code'' st
     @ [(''failure_class'', JStr cl), (''proxy_stage'', JStr ''connect_handshake'')]"
| "error_fields ops (ResidentialConcurrency _) =
     [(''failure_class'', JStr ''max1''), (''max_concurrent'', JNum 1)]"
| "error_fields ops (TlsImpersonate d) =
     [(''capability'', JStr ''tls_impersonate''), (''reason'', JStr d)]"
| "error_fields ops (ChallengeBlocked st _) =
     [(''status_code'', JNum (int st)), (''failure_class'', JStr ''challenge_block'')]"
| "error_fields ops (Solver k _ st) =
     opt_field ''status_code'' st
     @ [(''failure_class'', JStr k), (''capability'', JStr ''optional_captcha_solver''),
        (''residual'', JStr ''optional_solver_fail_closed_not_unlocker_parity'')]"
| "error_fields ops _ = []"

definition to_host_safe_json :: "crypto_ops \<Rightarrow> core_error \<Rightarrow> string option \<Rightarrow> json option" where
  "to_host_safe_json ops e task_id =
     map_option (\<lambda>message.
       jobj [(''error'', jobj ([(''kind'', JStr (kind e)), (''message'', JStr message),
                               (''task_id'', JStr (task_id_ref ops task_id))] @ error_fields ops e))])
       (host_safe_message ops e)"

definition error_to_json :: "crypto_ops \<Rightarrow> core_error \<Rightarrow> json option" where
  "error_to_json ops e = to_host_safe_json ops e None"

definition error_labels :: "crypto_ops \<Rightarrow> core_error \<Rightarrow> string option \<Rightarrow> host_safe_labels" where
  "error_labels ops e task_id = scrape_failed ops task_id (kind e)"

text \<open>The parameter \<open>parse\<close> is \<^verbatim>\<open>serde_json::from_str\<close>.\<close>

definition from_document_policy_denial :: "(string \<Rightarrow> json option) \<Rightarrow> string \<Rightarrow> core_error" where
  "from_document_policy_denial parse detail =
     (case parse detail of Some v \<Rightarrow> RobotsDenied v | None \<Rightarrow> Render detail)"

section \<open>What the scrubber hides\<close>

definition token_char :: "char \<Rightarrow> bool" where
  "token_char c \<longleftrightarrow> is_ascii c \<and> \<not> ws1 c \<and> \<not> is_quote c \<and> c \<noteq> CHR ''>''"

definition token_stop :: "char \<Rightarrow> bool" where
  "token_stop c \<longleftrightarrow> ws1 c \<or> is_quote c \<or> c = CHR ''>''"

lemma ws1_ws_len: "ws1 c \<Longrightarrow> ws_len (c # cs) = 1"
  by (cases "c # cs" rule: ws_len.cases) auto

lemma url_token_end_append:
  "list_all token_char u \<Longrightarrow> p = [] \<or> token_stop (hd p) \<Longrightarrow> url_token_end (u @ p) = length u"
proof (induction u)
  case Nil
  then show ?case by (cases p) (auto simp: token_stop_def ws1_ws_len)
next
  case (Cons c u)
  then show ?case by (auto simp: token_char_def is_ascii_def ws_len_plain)
qed

lemma scheme_start_append:
  assumes "list_all is_scheme_char scheme"
    and "pre = [] \<or> (is_ascii (last pre) \<and> \<not> is_scheme_char (last pre))"
  shows "scheme_start (pre @ scheme) = Some (length pre)"
proof -
  have a: "\<And>x. x \<in> set (rev scheme) \<Longrightarrow> is_scheme_char x" using assms(1) by (auto simp: list_all_iff)
  have "takeWhile is_scheme_char (rev pre) = []"
    using assms(2) by (cases pre rule: rev_cases) auto
  then have t: "takeWhile is_scheme_char (rev (pre @ scheme)) = rev scheme"
    using takeWhile_append2[of "rev scheme" is_scheme_char "rev pre"] a by simp
  show ?thesis
  proof (cases "pre = []")
    case True
    with t have "length (takeWhile is_scheme_char (rev (pre @ scheme))) = length (pre @ scheme)"
      by (metis append_Nil length_rev)
    with True show ?thesis by (simp only: scheme_start_def Let_def if_True refl list.size)
  next
    case False
    then have "(pre @ scheme) ! (length (pre @ scheme) - length (rev scheme) - 1) = last pre"
      by (simp add: nth_append last_conv_nth)
    then show ?thesis
      using t False assms(2) by (simp add: scheme_start_def Let_def)
  qed
qed

lemma strip_urls_no_url: "CHR '':'' \<notin> set s \<Longrightarrow> strip_urls ops s = Some (scrub_quoted_paths ops s)"
  using find_sub_None_head[of "CHR '':''" s "''//''"] by (simp add: strip_urls.simps)

lemma strip_urls_step:
  assumes "find_sub ''://'' d = Some idx" and "scheme_start (take idx d) = Some start"
    and "drop start d = u @ p" and "url_token_end (u @ p) = length u" and "take start d = pre"
  shows "strip_urls ops d = map_option (\<lambda>out. pre @ url_ref ops u @ out) (strip_urls ops p)"
  using assms by (subst strip_urls.simps) simp

text \<open>
  A URL inside a free-form error detail leaves the enclave as its host-safe reference. The
  text before it is kept, the URL shrinks to scheme, host and the digest of path and query, and
  the text after it is only scrubbed of quoted paths.
\<close>

theorem strip_url_shaped_hides_path:
  assumes "CHR '':'' \<notin> set pre" and "pre = [] \<or> (is_ascii (last pre) \<and> \<not> is_scheme_char (last pre))"
    and "list_all is_scheme_char scheme" and "user_info ui" and "plain_host h"
    and "tail = [] \<or> hd tail \<in> set ''/?#''" and "list_all token_char (ui @ h @ tail)"
    and "CHR '':'' \<notin> set post" and "post = [] \<or> token_stop (hd post)"
  shows "strip_url_shaped ops (pre @ scheme @ ''://'' @ ui @ h @ tail @ post) =
     Some (pre @ scheme @ ''://'' @ h @ ''/url:sha256:'' @ hex_encode (sha256 ops (URL_PQ_DOMAIN
       @ takeWhile (\<lambda>c. c \<noteq> CHR ''#'') (dropWhile (\<lambda>c. c \<noteq> CHR ''/'') tail)))
       @ scrub_quoted_paths ops post)"
proof -
  let ?url = "scheme @ ''://'' @ ui @ h @ tail"
  let ?d = "pre @ scheme @ ''://'' @ ui @ h @ tail @ post"
  have colon: "CHR '':'' \<notin> set scheme"
    using assms(3) by (auto simp: list_all_iff is_scheme_char_def is_alnum_def is_alpha_def
        is_upper_def is_lower_def is_digit_def)
  then have f: "find_sub ''://'' ?d = Some (length (pre @ scheme))"
    using assms(1) find_sub_fresh_head[of "CHR '':''" "pre @ scheme" "''//''" "ui @ h @ tail @ post"]
    by simp
  have st: "scheme_start (take (length (pre @ scheme)) ?d) = Some (length pre)"
    using scheme_start_append[OF assms(3,2)] by simp
  have region: "drop (length pre) ?d = ?url @ post" by simp
  have "list_all token_char scheme"
    using assms(3) by (auto simp: list_all_iff token_char_def is_ascii_def dest!: bspec scheme_char_plain[OF disjI1])
  moreover have "list_all token_char ''://''"
    by (simp add: token_char_def is_ascii_def ws1_def is_quote_def)
  ultimately have "list_all token_char ?url" using assms(7) by simp
  then have e: "url_token_end (?url @ post) = length ?url"
    using assms(9) by (rule url_token_end_append)
  have ref: "url_ref ops ?url = scheme @ ''://'' @ h @ ''/url:sha256:'' @ hex_encode (sha256 ops (URL_PQ_DOMAIN
       @ takeWhile (\<lambda>c. c \<noteq> CHR ''#'') (dropWhile (\<lambda>c. c \<noteq> CHR ''/'') tail)))"
    by (rule url_ref_plain[OF colon assms(4-6)])
  have "strip_urls ops ?d =
      map_option (\<lambda>out. pre @ url_ref ops ?url @ out) (strip_urls ops post)"
    by (rule strip_urls_step[OF f st region e]) simp
  moreover have "contains ?d ''://''" by (metis contains_iff append_assoc)
  moreover have "strip_urls ops post = Some (scrub_quoted_paths ops post)"
    using assms(8) by (rule strip_urls_no_url)
  ultimately have "strip_url_shaped ops ?d = Some (pre @ url_ref ops ?url @ scrub_quoted_paths ops post)"
    unfolding strip_url_shaped_def by (simp only: simp_thms if_False option.map)
  then show ?thesis unfolding ref by (simp only: append_assoc)
qed

theorem strip_url_shaped_hides_path_witness:
  "strip_url_shaped demo_ops ''connect to https://shop.example/cart?id=7 refused'' =
     Some (''connect to https://shop.example/url:sha256:''
       @ hex_encode (sha256 demo_ops (URL_PQ_DOMAIN @ ''/cart?id=7''))
       @ scrub_quoted_paths demo_ops '' refused'')"
  using strip_url_shaped_hides_path[of "''connect to ''" "''https''" "[]" "''shop.example''"
      "''/cart?id=7''" "'' refused''" demo_ops]
  by (simp add: user_info_def plain_host_def is_scheme_char_def is_alnum_def is_alpha_def
      is_upper_def is_lower_def is_digit_def is_ascii_def token_char_def token_stop_def ws1_def
      is_quote_def)

text \<open>
  The byte index after the last non-scheme character is a character boundary only when that
  character is ASCII: a detail that quotes a URL typographically makes the scrubber panic.
\<close>

lemma strip_url_shaped_panics:
  "strip_url_shaped ops ([CHR 0xE2, CHR 0x80, CHR 0x9C] @ ''https://e/x'') = None"
proof -
  have f: "find_sub ''://'' ([CHR 0xE2, CHR 0x80, CHR 0x9C] @ ''https://e/x'') = Some 8" by code_simp
  have "scheme_start (take 8 ([CHR 0xE2, CHR 0x80, CHR 0x9C] @ ''https://e/x'')) = None" by code_simp
  with f show ?thesis
    by (simp add: strip_url_shaped_def contains_def strip_urls.simps)
qed

end
