(* ===== verification/Url_Ops.thy ===== *)
theory Url_Ops
  imports Core_Error
begin

text \<open>
  URLs. Parsing and serialisation belong to the third-party \<^verbatim>\<open>url\<close> crate, whose operations are
  the fields of \<open>url_ops\<close>, an argument of the definitions that use them; the crawler's own
  decisions on URLs are modelled: \<^verbatim>\<open>url_validation.rs\<close>, the credential origin of \<^verbatim>\<open>fetch.rs\<close>,
  the policy URLs of \<^verbatim>\<open>robots.rs\<close> and the request origins of the renderer's pacer.
\<close>

datatype parse_failure = RelativeUrlWithoutBase | OtherParseError

record 'u url_ops =
  url_parse :: "string \<Rightarrow> parse_failure + 'u"
  url_join :: "'u \<Rightarrow> string \<Rightarrow> 'u option"
  url_scheme :: "'u \<Rightarrow> string"
  url_host_str :: "'u \<Rightarrow> string option"
  url_port :: "'u \<Rightarrow> nat option"
  url_known_port :: "'u \<Rightarrow> nat option"
  url_path :: "'u \<Rightarrow> string"
  url_query :: "'u \<Rightarrow> string option"
  url_string :: "'u \<Rightarrow> string"
  url_set_path :: "string \<Rightarrow> 'u \<Rightarrow> 'u"
  url_set_query :: "string option \<Rightarrow> 'u \<Rightarrow> 'u"
  url_set_fragment :: "string option \<Rightarrow> 'u \<Rightarrow> 'u"

section \<open>Validation\<close>

definition validate_parsed :: "'u url_ops \<Rightarrow> string \<Rightarrow> 'u \<Rightarrow> (core_error, 'u) result" where
  "validate_parsed U raw u =
     (if url_scheme U u = ''http'' \<or> url_scheme U u = ''https'' then
        (if url_host_str U u = None \<or> url_host_str U u = Some [] then Inl (InvalidUrl raw) else Inr u)
      else Inl (UnsupportedScheme (url_scheme U u)))"

definition validate_url :: "'u url_ops \<Rightarrow> string \<Rightarrow> (core_error, 'u) result" where
  "validate_url U raw =
     (case url_parse U raw of
        Inr u \<Rightarrow> validate_parsed U raw u
      | Inl RelativeUrlWithoutBase \<Rightarrow>
          (case url_parse U (''https://'' @ raw) of
             Inr u \<Rightarrow> validate_parsed U raw u
           | Inl _ \<Rightarrow> Inl (InvalidUrl raw))
      | Inl OtherParseError \<Rightarrow> Inl (InvalidUrl raw))"

definition is_http :: "'u url_ops \<Rightarrow> 'u \<Rightarrow> bool" where
  "is_http U u \<longleftrightarrow> url_scheme U u = ''http'' \<or> url_scheme U u = ''https''"

lemma validate_parsed_Inr:
  "validate_parsed U raw u = Inr v \<longleftrightarrow>
     v = u \<and> is_http U u \<and> (\<exists>h. url_host_str U u = Some h \<and> h \<noteq> [])"
  by (cases "url_host_str U u") (auto simp: validate_parsed_def is_http_def)

text \<open>
  A URL passes validation only with scheme http or https and a non-empty host, and it is the
  parse of the caller's text, or of that text after \<^verbatim>\<open>https://\<close> when the text alone is relative;
  so no other scheme ever reaches a fetch.
\<close>

theorem validate_url_Inr_iff:
  "validate_url U raw = Inr u \<longleftrightarrow>
     is_http U u \<and> (\<exists>h. url_host_str U u = Some h \<and> h \<noteq> [])
     \<and> (url_parse U raw = Inr u
        \<or> (url_parse U raw = Inl RelativeUrlWithoutBase \<and> url_parse U (''https://'' @ raw) = Inr u))"
  unfolding validate_url_def
  by (auto simp: validate_parsed_Inr split: sum.splits parse_failure.splits)

lemma validate_url_is_http: "validate_url U raw = Inr u \<Longrightarrow> is_http U u"
  unfolding validate_url_def
  by (auto simp: validate_parsed_Inr split: sum.splits parse_failure.splits)

section \<open>Origins\<close>

text \<open>\<^verbatim>\<open>fetch.rs::same_origin\<close>: the origin to which caller headers may be sent.\<close>

definition same_origin :: "'u url_ops \<Rightarrow> 'u \<Rightarrow> 'u \<Rightarrow> bool" where
  "same_origin U l r \<longleftrightarrow>
     eq_ic (url_scheme U l) (url_scheme U r)
     \<and> (case (url_host_str U l, url_host_str U r) of
          (Some lh, Some rh) \<Rightarrow> eq_ic lh rh
        | _ \<Rightarrow> False)
     \<and> url_known_port U l = url_known_port U r"

lemma same_origin_sym: "same_origin U l r \<longleftrightarrow> same_origin U r l"
  by (auto simp: same_origin_def eq_ic_sym split: option.splits)

lemma same_origin_trans: "same_origin U l r \<Longrightarrow> same_origin U r t \<Longrightarrow> same_origin U l t"
  by (auto simp: same_origin_def intro: eq_ic_trans split: option.splits)

lemma same_origin_refl: "same_origin U u u \<longleftrightarrow> url_host_str U u \<noteq> None"
  by (auto simp: same_origin_def split: option.splits)

section \<open>Policy URLs\<close>

definition robots_url :: "'u url_ops \<Rightarrow> 'u \<Rightarrow> 'u" where
  "robots_url U target =
     url_set_fragment U None (url_set_query U None (url_set_path U ''/robots.txt'' target))"

definition default_sitemap_url :: "'u url_ops \<Rightarrow> 'u \<Rightarrow> 'u" where
  "default_sitemap_url U target =
     url_set_fragment U None (url_set_query U None (url_set_path U ''/sitemap.xml'' target))"

section \<open>A concrete instance\<close>

record demo_url =
  du_scheme :: string
  du_host :: "string option"
  du_port :: "nat option"
  du_path :: string
  du_query :: "string option"
  du_fragment :: "string option"

definition demo_known_port :: "demo_url \<Rightarrow> nat option" where
  "demo_known_port u =
     (case du_port u of Some p \<Rightarrow> Some p
      | None \<Rightarrow> if du_scheme u = ''https'' then Some 443
               else if du_scheme u = ''http'' then Some 80 else None)"

definition demo_parse :: "string \<Rightarrow> parse_failure + demo_url" where
  "demo_parse s =
     (case split_once_str ''://'' s of
        None \<Rightarrow> Inl RelativeUrlWithoutBase
      | Some (sch, rest) \<Rightarrow>
          (let h = takeWhile (\<lambda>c. c \<noteq> CHR ''/'') rest; p = dropWhile (\<lambda>c. c \<noteq> CHR ''/'') rest
           in Inr \<lparr> du_scheme = sch, du_host = (if h = [] then None else Some h), du_port = None,
                    du_path = (if p = [] then ''/'' else p), du_query = None, du_fragment = None \<rparr>))"

definition demo_string :: "demo_url \<Rightarrow> string" where
  "demo_string u = du_scheme u @ ''://'' @ opt_text id (du_host u) @ du_path u
     @ opt_text ((@) ''?'') (du_query u) @ opt_text ((@) ''#'') (du_fragment u)"

definition demo_join :: "demo_url \<Rightarrow> string \<Rightarrow> demo_url option" where
  "demo_join b s =
     (if starts_with s ''/'' then Some (b \<lparr> du_path := s, du_query := None, du_fragment := None \<rparr>)
      else case demo_parse s of Inr u \<Rightarrow> Some u | Inl _ \<Rightarrow> None)"

definition demo_url_ops :: "demo_url url_ops" where
  "demo_url_ops =
     \<lparr> url_parse = demo_parse, url_join = demo_join, url_scheme = du_scheme, url_host_str = du_host,
       url_port = du_port, url_known_port = demo_known_port, url_path = du_path,
       url_query = du_query, url_string = demo_string, url_set_path = (\<lambda>p u. u \<lparr> du_path := p \<rparr>),
       url_set_query = (\<lambda>q u. u \<lparr> du_query := q \<rparr>),
       url_set_fragment = (\<lambda>f u. u \<lparr> du_fragment := f \<rparr>) \<rparr>"

definition site :: "string \<Rightarrow> demo_url" where
  "site p = \<lparr> du_scheme = ''https'', du_host = Some ''a.example'', du_port = None,
              du_path = p, du_query = None, du_fragment = None \<rparr>"

end
