(* ===== verification/Http_Request.thy ===== *)
theory Http_Request
  imports Url_Ops
begin

text \<open>
  The request half of \<^verbatim>\<open>basecrawl-core/src/fetch.rs\<close>: the fetch configuration, the validation of
  caller headers, and the serialiser that both the plain and the TLS transport use. The type
  \<open>'u\<close> is the URL, \<open>'p\<close> the proxy configuration; the pacer of \<^verbatim>\<open>FetchConfig\<close> is not part of the
  record, its effect is in the transport parameter of the redirect loop.
\<close>

definition DEFAULT_USER_AGENT :: string where
  "DEFAULT_USER_AGENT = ''Mozilla/5.0 (X11; Linux x86_64) AppleWebKit/537.36 (KHTML, like Gecko) ''
     @ ''Chrome/145.0.0.0 Safari/537.36''"

definition DEFAULT_TIMEOUT_SECS :: nat where
  "DEFAULT_TIMEOUT_SECS = 30"

definition DEFAULT_MAX_BODY_BYTES :: nat where
  "DEFAULT_MAX_BODY_BYTES = 10 * 1024 * 1024"

type_synonym headers = "(string \<times> string) list"

record ('u, 'p) fetch_config =
  fc_timeout :: nat
  fc_headers :: headers
  fc_credential_origin :: "'u option"
  fc_user_agent :: string
  fc_insecure :: bool
  fc_max_body_bytes :: nat
  fc_crawl_delay :: nat
  fc_tls13_cipher_names :: "string list"
  fc_tls_group_order :: "string list"
  fc_proxy :: "'p option"
  fc_method :: string
  fc_body :: string

definition default_config :: "('u, 'p) fetch_config" where
  "default_config =
     \<lparr> fc_timeout = DEFAULT_TIMEOUT_SECS, fc_headers = [(''user-agent'', DEFAULT_USER_AGENT)],
       fc_credential_origin = None, fc_user_agent = DEFAULT_USER_AGENT, fc_insecure = False,
       fc_max_body_bytes = DEFAULT_MAX_BODY_BYTES, fc_crawl_delay = 0,
       fc_tls13_cipher_names = [], fc_tls_group_order = [], fc_proxy = None,
       fc_method = ''GET'', fc_body = [] \<rparr>"

definition caller_headers_for :: "'u url_ops \<Rightarrow> ('u, 'p) fetch_config \<Rightarrow> 'u \<Rightarrow> 'u \<Rightarrow> headers" where
  "caller_headers_for U cfg target cred = (if same_origin U target cred then fc_headers cfg else [])"

section \<open>Header validation\<close>

definition is_tchar :: "char \<Rightarrow> bool" where
  "is_tchar c \<longleftrightarrow> is_alnum c \<or> c \<in> set ''!#$%&*+-.^_`|~'' \<or> c = CHR 0x27"

definition is_value_byte :: "char \<Rightarrow> bool" where
  "is_value_byte c \<longleftrightarrow> code c = 9 \<or> (32 \<le> code c \<and> code c \<noteq> 127)"

definition validate_header_pair :: "string \<Rightarrow> string \<Rightarrow> (core_error, unit) result" where
  "validate_header_pair name val =
     (if name \<noteq> [] \<and> list_all is_tchar name \<and> list_all is_value_byte val
      then Inr () else Inl (InvalidHeader name))"

definition parse_header :: "string \<Rightarrow> (core_error, string \<times> string) result" where
  "parse_header spec =
     (case split_once (CHR '':'') spec of
        None \<Rightarrow> Inl (InvalidHeader ''<redacted>'')
      | Some (name, val) \<Rightarrow>
          (let name = trim name
           in if name = [] then Inl (InvalidHeader ''<redacted>'')
              else
                (let val = trim_end (case strip_prefix '' '' val of Some r \<Rightarrow> r | None \<Rightarrow> val)
                 in bind_res (validate_header_pair name val) (\<lambda>_. Inr (name, val)))))"

definition is_transport_managed_header :: "string \<Rightarrow> bool" where
  "is_transport_managed_header name \<longleftrightarrow>
     name \<in> {''host'', ''user-agent'', ''connection'', ''accept-encoding'', ''content-length'',
             ''transfer-encoding'', ''trailer'', ''te'', ''upgrade''}"

fun check_caller_headers :: "string list \<Rightarrow> headers \<Rightarrow> (core_error, unit) result" where
  "check_caller_headers seen [] = Inr ()"
| "check_caller_headers seen ((name, val) # hs) =
     bind_res (validate_header_pair name val) (\<lambda>_.
       let normalized = to_lower name
       in if is_transport_managed_header normalized then Inl (InvalidHeader name)
          else if normalized \<in> set seen then Inl (InvalidHeader name)
          else check_caller_headers (normalized # seen) hs)"

definition validate_caller_headers :: "headers \<Rightarrow> (core_error, unit) result" where
  "validate_caller_headers hs = check_caller_headers [] hs"

definition effective_headers :: "headers \<Rightarrow> string \<Rightarrow> (core_error, headers) result" where
  "effective_headers hs user_agent =
     bind_res (validate_header_pair ''User-Agent'' user_agent) (\<lambda>_.
     bind_res (validate_caller_headers hs) (\<lambda>_.
       Inr ((''user-agent'', user_agent) # map (\<lambda>(name, val). (to_lower name, val)) hs)))"

section \<open>The serialiser\<close>

definition CRLF :: string where
  "CRLF = [CHR 0x0D, CHR 0x0A]"

definition is_valid_http_method :: "string \<Rightarrow> bool" where
  "is_valid_http_method m \<longleftrightarrow> m \<noteq> [] \<and> list_all is_tchar m"

text \<open>
  The header loop: the request text so far, whether a user agent and whether a content type was
  emitted.
\<close>

fun push_headers :: "headers \<Rightarrow> string \<times> bool \<times> bool \<Rightarrow> (core_error, string \<times> bool \<times> bool) result" where
  "push_headers [] st = Inr st"
| "push_headers ((name, val) # hs) (request, ua, ct) =
     bind_res (validate_header_pair name val) (\<lambda>_.
       push_headers hs (request @ name @ '': '' @ val @ CRLF,
         ua \<or> eq_ic name ''user-agent'', ct \<or> eq_ic name ''content-type''))"

definition request_method :: "('u, 'p) fetch_config \<Rightarrow> string" where
  "request_method cfg = (if trim (fc_method cfg) = [] then ''GET'' else trim (fc_method cfg))"

definition request_target :: "'u url_ops \<Rightarrow> 'u \<Rightarrow> string" where
  "request_target U url =
     (let path = (if url_path U url = [] then ''/'' else url_path U url)
      in case url_query U url of Some query \<Rightarrow> path @ ''?'' @ query | None \<Rightarrow> path)"

definition host_header :: "'u url_ops \<Rightarrow> 'u \<Rightarrow> string \<Rightarrow> nat \<Rightarrow> string" where
  "host_header U url host port =
     (if url_port U url = None then host else host @ '':'' @ show_nat port)"

definition sends_body :: "('u, 'p) fetch_config \<Rightarrow> bool" where
  "sends_body cfg \<longleftrightarrow> fc_body cfg \<noteq> [] \<or> eq_ic (request_method cfg) ''POST''"

definition finish_request ::
    "('u, 'p) fetch_config \<Rightarrow> string \<times> bool \<times> bool \<Rightarrow> (core_error, string) result" where
  "finish_request cfg st =
     (let (request, ua, ct) = st
      in bind_res (if ua then Inr request
           else bind_res (validate_header_pair ''user-agent'' (fc_user_agent cfg))
                  (\<lambda>_. Inr (request @ ''user-agent: '' @ fc_user_agent cfg @ CRLF)))
         (\<lambda>request.
           let framed =
             (if sends_body cfg then
                request
                @ (if \<not> ct \<and> fc_body cfg \<noteq> []
                   then ''content-type: application/octet-stream'' @ CRLF else [])
                @ ''content-length: '' @ show_nat (length (fc_body cfg)) @ CRLF
              else request)
           in Inr (framed @ CRLF @ (if sends_body cfg then fc_body cfg else []))))"

definition build_http_request ::
    "'u url_ops \<Rightarrow> 'u \<Rightarrow> string \<Rightarrow> nat \<Rightarrow> ('u, 'p) fetch_config \<Rightarrow> 'u \<Rightarrow> (core_error, string) result" where
  "build_http_request U url host port cfg cred =
     (if \<not> is_valid_http_method (request_method cfg)
      then Inl (UnsupportedMethod (request_method cfg))
      else
        (let request = request_method cfg @ '' '' @ request_target U url @ '' HTTP/1.1'' @ CRLF
               @ ''Host: '' @ host_header U url host port @ CRLF
               @ ''Accept-Encoding: gzip, deflate, br'' @ CRLF @ ''Connection: close'' @ CRLF
         in bind_res (push_headers (caller_headers_for U cfg url cred) (request, False, False))
              (finish_request cfg)))"

lemma lower_tchar: "is_tchar c \<Longrightarrow> is_tchar (lower_char c)"
proof (cases "is_upper c")
  case True
  then have "is_lower (lower_char c)"
    by (auto simp: is_lower_def is_upper_def code_lower_char)
  then show ?thesis by (simp add: is_tchar_def is_alnum_def is_alpha_def)
qed (simp add: lower_char_def)

lemma validate_lower_pair:
  "validate_header_pair n v = Inr () \<Longrightarrow> validate_header_pair (to_lower n) v = Inr ()"
  by (auto simp: validate_header_pair_def list_all_iff to_lower_def lower_tchar split: if_splits)

lemma check_caller_headers_Inr:
  "check_caller_headers seen hs = Inr () \<Longrightarrow>
     distinct (map (\<lambda>h. to_lower (fst h)) hs)
     \<and> (\<forall>h \<in> set hs. to_lower (fst h) \<notin> set seen
          \<and> \<not> is_transport_managed_header (to_lower (fst h))
          \<and> validate_header_pair (fst h) (snd h) = Inr ())"
proof (induction seen hs rule: check_caller_headers.induct)
  case (2 seen name val hs)
  then have v: "validate_header_pair name val = Inr ()"
    and m: "\<not> is_transport_managed_header (to_lower name)" and n: "to_lower name \<notin> set seen"
    and r: "check_caller_headers (to_lower name # seen) hs = Inr ()"
    by (auto simp: res_simps Let_def split: if_splits)
  from "2.IH"[OF refl m n r] v m n show ?case by auto
qed simp

lemma effective_headers_Inr:
  assumes "effective_headers hs ua = Inr eff"
  shows "eff = (''user-agent'', ua) # map (\<lambda>(n, v). (to_lower n, v)) hs
     \<and> distinct (map fst eff)
     \<and> (\<forall>n \<in> set (map fst (tl eff)). to_lower n = n \<and> \<not> is_transport_managed_header n)
     \<and> (\<forall>(n, v) \<in> set eff. validate_header_pair n v = Inr ())"
proof -
  have u: "validate_header_pair ''User-Agent'' ua = Inr ()"
    and c: "check_caller_headers [] hs = Inr ()"
    and eff: "eff = (''user-agent'', ua) # map (\<lambda>(n, v). (to_lower n, v)) hs"
    using assms by (auto simp: effective_headers_def validate_caller_headers_def res_simps)
  note C = check_caller_headers_Inr[OF c]
  have names: "map fst (map (\<lambda>(n, v). (to_lower n, v)) hs) = map (\<lambda>h. to_lower (fst h)) hs"
    by auto
  have "is_transport_managed_header ''user-agent''" by (simp add: is_transport_managed_header_def)
  then have fresh: "''user-agent'' \<notin> set (map (\<lambda>h. to_lower (fst h)) hs)" using C by auto
  have "to_lower ''User-Agent'' = ''user-agent''" by code_simp
  then have ua: "validate_header_pair ''user-agent'' ua = Inr ()"
    using validate_lower_pair[OF u] by simp
  have "distinct (map fst eff)"
    using C fresh unfolding eff list.map(2) fst_conv names distinct.simps by blast
  then show ?thesis
    using C ua by (auto simp: eff split_beta intro: validate_lower_pair)
qed

section \<open>No line can be smuggled\<close>

definition one_line :: "string \<Rightarrow> bool" where
  "one_line s \<longleftrightarrow> CHR 0x0D \<notin> set s \<and> CHR 0x0A \<notin> set s"

definition header_line :: "string \<times> string \<Rightarrow> string" where
  "header_line h = fst h @ '': '' @ snd h"

definition with_crlf :: "string list \<Rightarrow> string" where
  "with_crlf ls = concat (map (\<lambda>l. l @ CRLF) ls)"

lemma with_crlf_simps [simp]:
  "with_crlf [] = []" "with_crlf (l # ls) = l @ CRLF @ with_crlf ls"
  "with_crlf (a @ b) = with_crlf a @ with_crlf b"
  by (simp_all add: with_crlf_def)

lemma one_line_append [simp]: "one_line (a @ b) \<longleftrightarrow> one_line a \<and> one_line b"
  by (auto simp: one_line_def)

lemma one_line_Nil [simp]: "one_line []"
  by (simp add: one_line_def)

lemma one_line_Cons [simp]: "one_line (c # s) \<longleftrightarrow> c \<noteq> CHR 0x0D \<and> c \<noteq> CHR 0x0A \<and> one_line s"
  by (auto simp: one_line_def)

lemma tchars_one_line: "list_all is_tchar s \<Longrightarrow> one_line s"
  by (induction s) (auto simp: is_tchar_def is_alnum_def is_alpha_def is_upper_def is_lower_def
      is_digit_def)

lemma values_one_line: "list_all is_value_byte s \<Longrightarrow> one_line s"
  by (induction s) (auto simp: is_value_byte_def)

lemma show_nat_one_line: "one_line (show_nat n)"
  using show_nat_digits[of n] by (auto simp: one_line_def list_all_iff is_digit_def)

lemma valid_pair_line:
  "validate_header_pair n v = Inr u \<Longrightarrow> one_line (header_line (n, v)) \<and> header_line (n, v) \<noteq> []"
  by (auto simp: validate_header_pair_def header_line_def tchars_one_line values_one_line
      split: if_splits)

lemma push_headers_Inr:
  "push_headers hs (r, ua, ct) = Inr (r', ua', ct') \<Longrightarrow>
     r' = r @ with_crlf (map header_line hs)
     \<and> ua' = (ua \<or> list_ex (\<lambda>h. eq_ic (fst h) ''user-agent'') hs)
     \<and> ct' = (ct \<or> list_ex (\<lambda>h. eq_ic (fst h) ''content-type'') hs)
     \<and> (\<forall>h \<in> set hs. one_line (header_line h) \<and> header_line h \<noteq> [])"
proof (induction hs "(r, ua, ct)" arbitrary: r ua ct rule: push_headers.induct)
  case (2 name val hs request ua ct)
  from "2.prems" have v: "validate_header_pair name val = Inr ()"
    and p: "push_headers hs (request @ name @ '': '' @ val @ CRLF,
         ua \<or> eq_ic name ''user-agent'', ct \<or> eq_ic name ''content-type'') = Inr (r', ua', ct')"
    by (auto simp: res_simps)
  from "2.hyps"[OF p] valid_pair_line[OF v] show ?case
    by (auto simp: header_line_def)
qed auto

definition request_lines ::
    "'u url_ops \<Rightarrow> 'u \<Rightarrow> string \<Rightarrow> nat \<Rightarrow> ('u, 'p) fetch_config \<Rightarrow> headers \<Rightarrow> string list" where
  "request_lines U url host port cfg hs =
     [request_method cfg @ '' '' @ request_target U url @ '' HTTP/1.1'',
      ''Host: '' @ host_header U url host port, ''Accept-Encoding: gzip, deflate, br'',
      ''Connection: close'']
     @ map header_line hs
     @ (if list_ex (\<lambda>h. eq_ic (fst h) ''user-agent'') hs then []
        else [''user-agent: '' @ fc_user_agent cfg])
     @ (if sends_body cfg
        then (if \<not> list_ex (\<lambda>h. eq_ic (fst h) ''content-type'') hs \<and> fc_body cfg \<noteq> []
              then [''content-type: application/octet-stream''] else [])
             @ [''content-length: '' @ show_nat (length (fc_body cfg))]
        else [])"

lemma finish_request_Inr:
  assumes "finish_request cfg (r, ua, ct) = Inr bytes"
  shows "bytes = r
     @ with_crlf ((if ua then [] else [''user-agent: '' @ fc_user_agent cfg])
         @ (if sends_body cfg
            then (if \<not> ct \<and> fc_body cfg \<noteq> []
                  then [''content-type: application/octet-stream''] else [])
                 @ [''content-length: '' @ show_nat (length (fc_body cfg))]
            else []))
     @ CRLF @ (if sends_body cfg then fc_body cfg else [])
   \<and> (ua \<or> one_line (fc_user_agent cfg))"
  using assms
  by (auto simp: finish_request_def Let_def res_simps validate_header_pair_def values_one_line
      split: if_splits)

lemma bind_res_tripleE:
  assumes "bind_res x f = Inr b"
  obtains r u c where "x = Inr (r, u, c)" and "f (r, u, c) = Inr b"
  using assms by (cases x) (auto simp: split_paired_all)

lemma build_http_request_Inr:
  assumes "build_http_request U url host port cfg cred = Inr bytes"
  shows "bytes = with_crlf (request_lines U url host port cfg (caller_headers_for U cfg url cred))
           @ CRLF @ (if sends_body cfg then fc_body cfg else [])"
    and "list_all is_tchar (request_method cfg)" and "request_method cfg \<noteq> []"
    and "\<forall>h \<in> set (caller_headers_for U cfg url cred). one_line (header_line h) \<and> header_line h \<noteq> []"
    and "list_ex (\<lambda>h. eq_ic (fst h) ''user-agent'') (caller_headers_for U cfg url cred)
         \<or> one_line (fc_user_agent cfg)"
proof -
  let ?hs = "caller_headers_for U cfg url cred"
  let ?r0 = "request_method cfg @ '' '' @ request_target U url @ '' HTTP/1.1'' @ CRLF
               @ ''Host: '' @ host_header U url host port @ CRLF
               @ ''Accept-Encoding: gzip, deflate, br'' @ CRLF @ ''Connection: close'' @ CRLF"
  have m: "is_valid_http_method (request_method cfg)"
    using assms by (auto simp: build_http_request_def split: if_splits)
  have "bind_res (push_headers ?hs (?r0, False, False)) (finish_request cfg) = Inr bytes"
    using assms m by (simp only: build_http_request_def Let_def not_True_eq_False if_False)
  then obtain r ua ct where p: "push_headers ?hs (?r0, False, False) = Inr (r, ua, ct)"
    and f: "finish_request cfg (r, ua, ct) = Inr bytes"
    by (rule bind_res_tripleE)
  note F = finish_request_Inr[OF f]
  from push_headers_Inr[OF p] have P: "r = ?r0 @ with_crlf (map header_line ?hs)"
    "ua = list_ex (\<lambda>h. eq_ic (fst h) ''user-agent'') ?hs"
    "ct = list_ex (\<lambda>h. eq_ic (fst h) ''content-type'') ?hs"
    "\<forall>h \<in> set ?hs. one_line (header_line h) \<and> header_line h \<noteq> []" by simp_all
  show "bytes = with_crlf (request_lines U url host port cfg ?hs) @ CRLF
      @ (if sends_body cfg then fc_body cfg else [])"
    unfolding F[THEN conjunct1] P(1,2,3)
    by (simp only: request_lines_def with_crlf_simps append_assoc append_Cons append_Nil)
  show "list_all is_tchar (request_method cfg)" "request_method cfg \<noteq> []"
    using m by (simp_all add: is_valid_http_method_def)
  show "\<forall>h \<in> set ?hs. one_line (header_line h) \<and> header_line h \<noteq> []" using P(4) .
  show "list_ex (\<lambda>h. eq_ic (fst h) ''user-agent'') ?hs \<or> one_line (fc_user_agent cfg)"
    using F P(2) by blast
qed

lemma request_lines_single:
  assumes "build_http_request U url host port cfg cred = Inr bytes"
    and "one_line host" and "one_line (url_path U url)" and "\<forall>q. url_query U url = Some q \<longrightarrow> one_line q"
  shows "\<forall>l \<in> set (request_lines U url host port cfg (caller_headers_for U cfg url cred)). l \<noteq> [] \<and> one_line l"
proof -
  note B = build_http_request_Inr[OF assms(1)]
  have t: "one_line (request_target U url)"
    using assms(3,4) by (auto simp: request_target_def Let_def split: option.splits)
  have h: "one_line (host_header U url host port)"
    using assms(2) by (auto simp: host_header_def show_nat_one_line)
  show ?thesis
    using B(2-5) t h tchars_one_line[OF B(2)] by (auto simp: request_lines_def show_nat_one_line)
qed

text \<open>
  C2: A serialised request is exactly its lines. Whenever \<open>build_http_request\<close> succeeds on a URL
  whose host, path and query are single lines, the bytes are the request line, the fixed fields
  and the permitted caller fields, each non-empty and free of carriage returns and line feeds,
  each followed by one CRLF, then an empty line, then the body; so no method, header or
  user-agent text can add a field or a second request.
\<close>

theorem build_http_request_lines:
  assumes "build_http_request U url host port cfg cred = Inr bytes"
    and "one_line host" and "one_line (url_path U url)" and "\<forall>q. url_query U url = Some q \<longrightarrow> one_line q"
  shows "bytes = with_crlf (request_lines U url host port cfg (caller_headers_for U cfg url cred))
           @ CRLF @ (if sends_body cfg then fc_body cfg else [])
     \<and> (\<forall>l \<in> set (request_lines U url host port cfg (caller_headers_for U cfg url cred)).
          l \<noteq> [] \<and> one_line l)"
  using build_http_request_Inr(1)[OF assms(1)] request_lines_single[OF assms] by blast

text \<open>
  C3: Caller headers stay on their origin. For a target that is not on the credential origin
  the request does not depend on the caller's headers at all.
\<close>

theorem cross_origin_request_without_caller_headers:
  assumes "\<not> same_origin U url cred"
  shows "build_http_request U url host port (cfg \<lparr> fc_headers := hs \<rparr>) cred
       = build_http_request U url host port cfg cred"
proof -
  have c: "caller_headers_for U (cfg \<lparr> fc_headers := hs \<rparr>) url cred = caller_headers_for U cfg url cred"
    using assms by (simp add: caller_headers_for_def)
  have m: "request_method (cfg \<lparr> fc_headers := hs \<rparr>) = request_method cfg"
    by (simp add: request_method_def)
  then have b: "sends_body (cfg \<lparr> fc_headers := hs \<rparr>) = sends_body cfg"
    by (simp add: sends_body_def)
  have f: "fc_user_agent (cfg \<lparr> fc_headers := hs \<rparr>) = fc_user_agent cfg"
    "fc_body (cfg \<lparr> fc_headers := hs \<rparr>) = fc_body cfg" by simp_all
  have "finish_request (cfg \<lparr> fc_headers := hs \<rparr>) = finish_request cfg"
    by (rule ext) (simp only: finish_request_def b f)
  then show ?thesis unfolding build_http_request_def by (simp only: c m)
qed

text \<open>
  Effective headers are canonical: the controlled user agent first, then the caller's fields
  in their order with lowercase names that are pairwise distinct and never managed by the
  transport; every pair is a valid field line.
\<close>

theorem effective_headers_canonical:
  assumes "effective_headers hs ua = Inr eff"
  shows "eff = (''user-agent'', ua) # map (\<lambda>(n, v). (to_lower n, v)) hs
     \<and> distinct (map fst eff)
     \<and> (\<forall>n \<in> set (map fst (tl eff)). to_lower n = n \<and> \<not> is_transport_managed_header n)
     \<and> (\<forall>(n, v) \<in> set eff. validate_header_pair n v = Inr ())"
  using effective_headers_Inr[OF assms] by blast

section \<open>Concrete instances\<close>

definition demo_config :: "(demo_url, unit) fetch_config" where
  "demo_config =
     \<lparr> fc_timeout = 30, fc_headers = [(''user-agent'', ''demo''), (''cookie'', ''k=v'')],
       fc_credential_origin = None, fc_user_agent = ''demo'', fc_insecure = False,
       fc_max_body_bytes = 64, fc_crawl_delay = 0, fc_tls13_cipher_names = [],
       fc_tls_group_order = [], fc_proxy = None, fc_method = ''POST'', fc_body = ''a=1'' \<rparr>"

definition other_site :: demo_url where
  "other_site = (site ''/x'') \<lparr> du_host := Some ''b.example'' \<rparr>"

theorem build_http_request_lines_witness:
  "\<exists>bytes. build_http_request demo_url_ops (site ''/x'') ''a.example'' 443 demo_config (site ''/'') = Inr bytes
   \<and> bytes = with_crlf (request_lines demo_url_ops (site ''/x'') ''a.example'' 443 demo_config
         (caller_headers_for demo_url_ops demo_config (site ''/x'') (site ''/''))) @ CRLF @ ''a=1''"
proof -
  have "is_ok (build_http_request demo_url_ops (site ''/x'') ''a.example'' 443 demo_config (site ''/''))"
    by code_simp
  then obtain bytes where
    b: "build_http_request demo_url_ops (site ''/x'') ''a.example'' 443 demo_config (site ''/'') = Inr bytes"
    by (auto simp: is_ok_iff)
  have body: "(if sends_body demo_config then fc_body demo_config else []) = ''a=1''" by code_simp
  have "one_line ''a.example''" "one_line (url_path demo_url_ops (site ''/x''))"
    "\<forall>q. url_query demo_url_ops (site ''/x'') = Some q \<longrightarrow> one_line q"
    by (simp_all add: demo_url_ops_def site_def)
  from build_http_request_lines[OF b this] b show ?thesis unfolding body by blast
qed

theorem cross_origin_request_without_caller_headers_witness:
  "\<not> same_origin demo_url_ops other_site (site ''/'')
   \<and> build_http_request demo_url_ops other_site ''b.example'' 443
       (demo_config \<lparr> fc_headers := [(''cookie'', ''z'')] \<rparr>) (site ''/'')
     = build_http_request demo_url_ops other_site ''b.example'' 443 demo_config (site ''/'')"
proof -
  have n: "\<not> same_origin demo_url_ops other_site (site ''/'')" by code_simp
  from n cross_origin_request_without_caller_headers[OF n] show ?thesis by (rule conjI)
qed

theorem effective_headers_canonical_witness:
  "effective_headers [(''Cookie'', ''k=v''), (''X-A'', ''1'')] ''demo''
     = Inr [(''user-agent'', ''demo''), (''cookie'', ''k=v''), (''x-a'', ''1'')]
   \<and> distinct (map fst [(''user-agent'', ''demo''), (''cookie'', ''k=v''), (''x-a'', ''1'')])"
proof -
  have e: "effective_headers [(''Cookie'', ''k=v''), (''X-A'', ''1'')] ''demo''
     = Inr [(''user-agent'', ''demo''), (''cookie'', ''k=v''), (''x-a'', ''1'')]" by code_simp
  from e effective_headers_canonical[OF e] show ?thesis by blast
qed

end
