(* ===== verification/Http_Response.thy ===== *)
theory Http_Response
  imports Http_Request "HOL-Library.Multiset"
begin

text \<open>
  The response half of \<^verbatim>\<open>basecrawl-core/src/fetch.rs\<close>: parsing the head, undoing transfer and
  content encodings under one memory cap, and the hash of the header lines. \<^verbatim>\<open>httparse\<close> and
  the decompressors are parameters. Every reading of the clock is an argument: \<open>live k\<close> says that
  the deadline had not passed at the \<open>k\<close>-th check of a loop. The outer option is \<open>None\<close> where the
  Rust code panics.
\<close>

definition MAX_HTTP_RESPONSE_HEADER_BYTES :: nat where
  "MAX_HTTP_RESPONSE_HEADER_BYTES = 64 * 1024"

definition deadline_elapsed :: core_error where
  "deadline_elapsed = Timeout ''scrape deadline exceeded''"

definition hex_lower :: "string \<Rightarrow> string" where
  "hex_lower bs = hex_encode bs"

definition sha256_hex :: "crypto_ops \<Rightarrow> string \<Rightarrow> string" where
  "sha256_hex ops bs = hex_lower (sha256 ops bs)"

section \<open>I/O failures\<close>

datatype io_kind = IoTimedOut | IoWouldBlock | IoOther

definition classify_io :: "io_kind \<Rightarrow> string \<Rightarrow> core_error" where
  "classify_io k message =
     (let lower = to_lower message
      in if contains lower ''certificate'' \<or> contains lower ''cert '' then CertificateValidation message
         else if k = IoTimedOut \<or> k = IoWouldBlock then Timeout message
         else Transport message)"

section \<open>Headers\<close>

definition header_value :: "headers \<Rightarrow> string \<Rightarrow> string option" where
  "header_value hs name =
     (case List.find (\<lambda>h. eq_ic (fst h) name) hs of
        None \<Rightarrow> None
      | Some (_, val) \<Rightarrow> if utf8_ok val then Some val else None)"

definition header_contains_token :: "headers \<Rightarrow> string \<Rightarrow> string \<Rightarrow> bool" where
  "header_contains_token hs name token =
     (case header_value hs name of
        None \<Rightarrow> False
      | Some val \<Rightarrow> list_ex (\<lambda>candidate. eq_ic (trim candidate) token) (split_on (CHR '','') val))"

text \<open>The parameter \<open>lossy\<close> is \<^verbatim>\<open>String::from_utf8_lossy\<close>, the identity on valid UTF-8.\<close>

definition hash_header_lines :: "crypto_ops \<Rightarrow> (string \<Rightarrow> string) \<Rightarrow> headers \<Rightarrow> string" where
  "hash_header_lines ops lossy hs =
     sha256_hex ops (join [CHR 0x0A] (sort (map (\<lambda>(name, val). name @ '': '' @ lossy val) hs)))"

lemma sort_eq_of_mset: "mset xs = mset ys \<Longrightarrow> sort xs = sort ys"
  by (rule properties_for_sort) simp_all

lemma hash_header_lines_order:
  assumes "mset hs = mset hs'"
  shows "hash_header_lines ops lossy hs = hash_header_lines ops lossy hs'"
proof -
  have "mset (map (\<lambda>(name, val). name @ '': '' @ lossy val) hs)
      = mset (map (\<lambda>(name, val). name @ '': '' @ lossy val) hs')"
    using assms by (simp add: mset_map)
  from sort_eq_of_mset[OF this] show ?thesis by (simp add: hash_header_lines_def)
qed

section \<open>The response head\<close>

datatype head_outcome =
    HeadInvalid string
  | HeadPartial
  | HeadComplete nat "nat option" headers

definition parse_http_response ::
    "(string \<Rightarrow> head_outcome) \<Rightarrow> string \<Rightarrow> (core_error, nat \<times> headers \<times> string) result" where
  "parse_http_response httparse raw =
     (case httparse raw of
        HeadInvalid err \<Rightarrow> Inl (Fetch (''invalid HTTP response: '' @ err))
      | HeadPartial \<Rightarrow> Inl (Fetch ''incomplete HTTP response headers from TLS connection'')
      | HeadComplete header_length status hs \<Rightarrow>
          if header_length > MAX_HTTP_RESPONSE_HEADER_BYTES
          then Inl (Fetch (''HTTP response headers exceeded the maximum of ''
                           @ show_nat MAX_HTTP_RESPONSE_HEADER_BYTES @ '' bytes''))
          else
            (case status of
               None \<Rightarrow> Inl (Fetch ''HTTP response did not include a status code'')
             | Some c \<Rightarrow> Inr (c, map (\<lambda>(n, v). (to_lower n, v)) hs, drop header_length raw)))"

section \<open>Chunked transfer encoding\<close>

definition USIZE_MAX :: nat where
  "USIZE_MAX = 2 ^ 64 - 1"

definition chunk_size :: "string \<Rightarrow> nat option" where
  "chunk_size line =
     (if utf8_ok line then parse_unsigned 16 USIZE_MAX (trim (hd (split_on (CHR '';'') line))) else None)"

text \<open>
  \<open>checks\<close> says whether the build checks arithmetic overflow: then \<^verbatim>\<open>size + 2\<close> panics, else it
  wraps and the slice that follows has its end before its start, which panics as well.
\<close>

datatype chunk_step = ChunkPanic | ChunkTruncated | ChunkBody string string

definition take_chunk :: "bool \<Rightarrow> nat \<Rightarrow> string \<Rightarrow> chunk_step" where
  "take_chunk checks sz encoded =
     (let end_index = (sz + 2) mod 2 ^ 64
      in if checks \<and> sz + 2 \<ge> 2 ^ 64 then ChunkPanic
         else if length encoded < end_index then ChunkTruncated
         else if end_index < sz then ChunkPanic
         else if take 2 (drop sz encoded) \<noteq> CRLF then ChunkTruncated
         else ChunkBody (take sz encoded) (drop (sz + 2) encoded))"

lemma take_chunk_body:
  "take_chunk checks sz encoded = ChunkBody b r \<Longrightarrow>
     b = take sz encoded \<and> r = drop (sz + 2) encoded \<and> sz + 2 \<le> length encoded"
  by (auto simp: take_chunk_def Let_def mod_if split: if_splits)
    (simp_all add: le_mod_geq)?

function decode_chunked ::
    "bool \<Rightarrow> nat \<Rightarrow> (nat \<Rightarrow> bool) \<Rightarrow> nat \<Rightarrow> string \<Rightarrow> string \<Rightarrow> (core_error, string \<times> bool) result option" where
  "decode_chunked checks max_body live k decoded encoded =
     (if \<not> live k then Some (Inl deadline_elapsed)
      else case find_sub CRLF encoded of
        None \<Rightarrow> Some (Inl (Fetch ''malformed chunked response: missing chunk length terminator''))
      | Some line_end \<Rightarrow>
          (case chunk_size (take line_end encoded) of
             None \<Rightarrow> Some (Inl (Fetch ''malformed chunked response length''))
           | Some sz \<Rightarrow>
               if sz = 0 then Some (Inr (decoded, False))
               else
                 (case take_chunk checks sz (drop (line_end + 2) encoded) of
                    ChunkPanic \<Rightarrow> None
                  | ChunkTruncated \<Rightarrow> Some (Inl (Fetch ''malformed chunked response: truncated chunk''))
                  | ChunkBody chunk rest \<Rightarrow>
                      (let remaining = max_body - length decoded
                       in if sz > remaining then Some (Inr (decoded @ take remaining chunk, True))
                          else decode_chunked checks max_body live (k + 1) (decoded @ chunk) rest))))"
  by pat_completeness auto
termination
  by (relation "measure (\<lambda>(checks, max_body, live, k, decoded, encoded). length encoded)")
    (auto dest!: take_chunk_body)

declare decode_chunked.simps [simp del]

section \<open>Capped reading\<close>

text \<open>A reader: one call asks for at most \<open>n\<close> bytes; no bytes means the end of the stream.\<close>

type_synonym 'r reader = "'r \<Rightarrow> nat \<Rightarrow> (core_error, string) result \<times> 'r"

function read_loop ::
    "'r reader \<Rightarrow> nat \<Rightarrow> (nat \<Rightarrow> bool) \<Rightarrow> nat \<Rightarrow> string \<Rightarrow> 'r \<Rightarrow> (core_error, string \<times> bool) result" where
  "read_loop rd max_body live k body r =
     (if length body < max_body then
        (if \<not> live k then Inl deadline_elapsed
         else case rd r (min (max_body - length body) 8192) of
           (Inl e, r') \<Rightarrow> Inl e
         | (Inr d, r') \<Rightarrow>
             if d = [] then Inr (body, False)
             else read_loop rd max_body live (k + 1) (body @ d) r')
      else if \<not> live k then Inl deadline_elapsed
      else case rd r 1 of
        (Inl e, r') \<Rightarrow> Inl e
      | (Inr d, r') \<Rightarrow> Inr (body, d \<noteq> []))"
  by pat_completeness auto
termination
  by (relation "measure (\<lambda>(rd, max_body, live, k, body, r). max_body - length body)")
    (auto simp: neq_Nil_conv)

declare read_loop.simps [simp del]

definition read_capped ::
    "'r reader \<Rightarrow> nat \<Rightarrow> (nat \<Rightarrow> bool) \<Rightarrow> 'r \<Rightarrow> (core_error, string \<times> bool) result" where
  "read_capped rd max_body live r = read_loop rd max_body live 0 [] r"

definition cap_bytes :: "string \<Rightarrow> nat \<Rightarrow> string \<times> bool" where
  "cap_bytes body max_body =
     (if length body > max_body then (take max_body body, True) else (body, False))"

section \<open>Content encodings\<close>

record 'r codecs =
  cd_gzip :: "string \<Rightarrow> 'r"
  cd_deflate :: "string \<Rightarrow> 'r"
  cd_zlib :: "string \<Rightarrow> 'r"
  cd_brotli :: "string \<Rightarrow> 'r"
  cd_read :: "'r reader"

definition decode_one ::
    "'r codecs \<Rightarrow> nat \<Rightarrow> (nat \<Rightarrow> bool) \<Rightarrow> string \<Rightarrow> string \<Rightarrow> (core_error, string \<times> bool) result" where
  "decode_one C max_body live encoding body =
     (if encoding = ''gzip'' then read_capped (cd_read C) max_body live (cd_gzip C body)
      else if encoding = ''deflate'' then
        (case read_capped (cd_read C) max_body live (cd_deflate C body) of
           Inr d \<Rightarrow> Inr d
         | Inl _ \<Rightarrow>
             (case read_capped (cd_read C) max_body live (cd_zlib C body) of
                Inr d \<Rightarrow> Inr d
              | Inl e \<Rightarrow> Inl (Fetch (''could not decode deflate body: '' @ display e))))
      else if encoding = ''br'' then read_capped (cd_read C) max_body live (cd_brotli C body)
      else Inl (Fetch (''unsupported Content-Encoding '' @ quoted encoding)))"

fun decode_encodings ::
    "'r codecs \<Rightarrow> nat \<Rightarrow> (nat \<Rightarrow> nat \<Rightarrow> bool) \<Rightarrow> nat \<Rightarrow> string list \<Rightarrow> string \<Rightarrow> bool
     \<Rightarrow> (core_error, string \<times> bool) result" where
  "decode_encodings C max_body live j [] body truncated = Inr (body, truncated)"
| "decode_encodings C max_body live j (e # es) body truncated =
     bind_res (decode_one C max_body (live j) e body) (\<lambda>(decoded, t).
       decode_encodings C max_body live (j + 1) es decoded (truncated \<or> t))"

definition content_encodings :: "headers \<Rightarrow> string list" where
  "content_encodings hs =
     filter (\<lambda>e. e \<noteq> [] \<and> e \<noteq> ''identity'')
       (map (\<lambda>e. to_lower (trim e))
         (split_on (CHR '','') (case header_value hs ''content-encoding'' of Some v \<Rightarrow> v | None \<Rightarrow> [])))"

definition decode_http_body ::
    "'r codecs \<Rightarrow> bool \<Rightarrow> headers \<Rightarrow> string \<Rightarrow> nat \<Rightarrow> (nat \<Rightarrow> nat \<Rightarrow> bool)
     \<Rightarrow> (core_error, string \<times> bool) result option" where
  "decode_http_body C checks hs body max_body live =
     (case (if header_contains_token hs ''transfer-encoding'' ''chunked''
            then decode_chunked checks max_body (live 0) 0 [] body
            else Some (Inr (body, False))) of
        None \<Rightarrow> None
      | Some r \<Rightarrow> Some (
          bind_res r (\<lambda>(body, truncated).
          bind_res (decode_encodings C max_body live 1 (rev (content_encodings hs)) body truncated)
            (\<lambda>(body, truncated).
              let (capped, t) = cap_bytes body max_body in Inr (capped, truncated \<or> t)))))"

section \<open>Everything stays under the cap\<close>

text \<open>One round of the chunk loop, without the clock and the panics.\<close>

lemma decode_chunked_cases:
  assumes "decode_chunked checks max_body live k decoded encoded = Some (Inr (b, t))"
  obtains "b = decoded" and "\<not> t"
  | chunk m where "length chunk \<ge> m" and "b = decoded @ take m chunk" and "t"
      and "m = max_body - length decoded"
  | line_end sz chunk rest where "find_sub CRLF encoded = Some line_end" and "live k"
      and "chunk_size (take line_end encoded) = Some sz" and "sz \<noteq> 0"
      and "take_chunk checks sz (drop (line_end + 2) encoded) = ChunkBody chunk rest"
      and "\<not> sz > max_body - length decoded"
      and "decode_chunked checks max_body live (k + 1) (decoded @ chunk) rest = Some (Inr (b, t))"
proof -
  obtain line_end sz where c: "live k" "find_sub CRLF encoded = Some line_end"
    "chunk_size (take line_end encoded) = Some sz"
    using assms by (subst (asm) decode_chunked.simps) (auto split: if_splits option.splits)
  show ?thesis
  proof (cases "sz = 0")
    case True
    with assms c show ?thesis
      by (subst (asm) decode_chunked.simps) (auto intro: that(1))
  next
    case False
    with assms c obtain chunk rest where
      tc: "take_chunk checks sz (drop (line_end + 2) encoded) = ChunkBody chunk rest"
      by (subst (asm) decode_chunked.simps) (auto split: chunk_step.splits)
    show ?thesis
    proof (cases "sz > max_body - length decoded")
      case True
      have "length chunk = sz" using take_chunk_body[OF tc] by simp
      moreover have "b = decoded @ take (max_body - length decoded) chunk" "t"
        using assms c False True tc by (subst (asm) decode_chunked.simps, simp)+
      ultimately show ?thesis using True by (intro that(2)) simp_all
    next
      case le: False
      have "decode_chunked checks max_body live (k + 1) (decoded @ chunk) rest = Some (Inr (b, t))"
        using assms c False le tc by (subst (asm) decode_chunked.simps) simp
      with c False tc le show ?thesis by (intro that(3))
    qed
  qed
qed

lemma decode_chunked_bound:
  "decode_chunked checks max_body live k decoded encoded = Some (Inr (b, t)) \<Longrightarrow>
   length decoded \<le> max_body \<Longrightarrow> length b \<le> max_body"
proof (induction "length encoded" arbitrary: k decoded encoded rule: less_induct)
  case less
  from less.prems(1) show ?case
  proof (cases rule: decode_chunked_cases)
    case (3 line_end sz chunk rest)
    have t: "chunk = take sz (drop (line_end + 2) encoded)" "length rest < length encoded"
      "length chunk \<le> sz"
      using take_chunk_body[OF 3(5)] by auto
    show ?thesis
      by (rule less.hyps[OF t(2) 3(7)]) (use 3(6) t(3) less.prems(2) in simp)
  qed (use less.prems(2) in auto)
qed

definition reader_ok :: "'r reader \<Rightarrow> bool" where
  "reader_ok rd \<longleftrightarrow> (\<forall>r n d. fst (rd r n) = Inr d \<longrightarrow> length d \<le> n)"

lemma read_loop_bound:
  "read_loop rd max_body live k body r = Inr (b, t) \<Longrightarrow> reader_ok rd \<Longrightarrow>
   length body \<le> max_body \<Longrightarrow> length b \<le> max_body \<and> (t \<longrightarrow> length b = max_body)"
proof (induction rd max_body live k body r rule: read_loop.induct)
  case (1 rd max_body live k body r)
  show ?case
  proof (cases "length body < max_body")
    case True
    then obtain d r' where l: "live k" and d: "rd r (min (max_body - length body) 8192) = (Inr d, r')"
      using "1.prems"(1) by (subst (asm) read_loop.simps) (auto split: if_splits sum.splits prod.splits)
    have len: "length d \<le> max_body - length body"
      using "1.prems"(2) d unfolding reader_ok_def by (metis fst_conv min.boundedE)
    show ?thesis
    proof (cases "d = []")
      case True
      with "1.prems" l d \<open>length body < max_body\<close> show ?thesis
        by (subst (asm) read_loop.simps) auto
    next
      case False
      with "1.prems"(1) True l d have "read_loop rd max_body live (k + 1) (body @ d) r' = Inr (b, t)"
        by (subst (asm) read_loop.simps) auto
      from "1.IH"[OF True _ d[symmetric] refl False this "1.prems"(2)] l len True
      show ?thesis by simp
    qed
  next
    case False
    with "1.prems" show ?thesis
      by (subst (asm) read_loop.simps) (auto split: if_splits sum.splits prod.splits)
  qed
qed

lemma decode_http_body_Inr:
  assumes "decode_http_body C checks hs body max_body live = Some (Inr (b, t))"
  shows "length b \<le> max_body"
proof -
  obtain x where "b = fst (cap_bytes x max_body)"
    using assms
    by (auto simp: decode_http_body_def res_simps split_beta split: option.splits)
  then show ?thesis by (simp add: cap_bytes_def)
qed

section \<open>Chunks round trip\<close>

fun show_hex :: "nat \<Rightarrow> string" where
  "show_hex n = (if n < 16 then [hex_char n] else show_hex (n div 16) @ [hex_char (n mod 16)])"

declare show_hex.simps [simp del]

lemma show_hex_not_Nil [simp]: "show_hex n \<noteq> []"
  by (subst show_hex.simps) simp

lemma show_hex_lower: "list_all is_lower_hex (show_hex n)"
proof (induction n rule: show_hex.induct)
  case (1 n)
  then show ?case by (subst show_hex.simps) (auto simp: hex_char_props)
qed

lemma digits_val_snoc:
  "digits_val radix maxv acc (s @ [c]) = Option.bind (digits_val radix maxv acc s)
     (\<lambda>v. if digit_val c < radix \<and> v * radix + digit_val c \<le> maxv
          then Some (v * radix + digit_val c) else None)"
  by (induction s arbitrary: acc) (auto simp: Let_def)

lemma digits_val_show_hex: "n \<le> maxv \<Longrightarrow> digits_val 16 maxv 0 (show_hex n) = Some n"
proof (induction n rule: show_hex.induct)
  case (1 n)
  show ?case
  proof (cases "n < 16")
    case True
    with "1.prems" show ?thesis
      by (subst show_hex.simps) (simp add: hex_char_props)
  next
    case False
    have "digits_val 16 maxv 0 (show_hex (n div 16)) = Some (n div 16)"
      using "1.IH"[OF False] "1.prems" by (meson div_le_dividend le_trans)
    with False "1.prems" show ?thesis
      by (subst show_hex.simps) (simp add: digits_val_snoc hex_char_props)
  qed
qed

lemma lower_hex_plain: "is_lower_hex c \<Longrightarrow> code c < 128 \<and> \<not> ws1 c \<and> c \<noteq> CHR '';'' \<and> c \<noteq> CHR 0x0D"
  by (auto simp: is_lower_hex_def is_digit_def ws1_def)

lemma rws_len_plain: "code c < 128 \<Longrightarrow> \<not> ws1 c \<Longrightarrow> rws_len (c # cs) = 0"
  by (cases "c # cs" rule: rws_len.cases) (auto simp: ws2_def ws3_def)

lemma trim_lower_hex:
  assumes "list_all is_lower_hex s"
  shows "trim s = s"
proof (cases s)
  case (Cons c r)
  have "trim_start s = s"
    using assms lower_hex_plain[of c] by (simp add: Cons trim_start.simps ws_len_plain)
  moreover have "rtrim (rev s) = rev s"
  proof -
    obtain d t where d: "rev s = d # t" by (cases "rev s") (auto simp: Cons)
    have "d \<in> set s" using d by (metis list.set_intros(1) set_rev)
    then have "is_lower_hex d" using assms by (auto simp: list_all_iff)
    then show ?thesis
      using lower_hex_plain[of d] by (simp add: d rtrim.simps rws_len_plain)
  qed
  ultimately show ?thesis by (simp add: trim_def trim_end_def)
qed simp

lemma chunk_size_show_hex: "n \<le> USIZE_MAX \<Longrightarrow> chunk_size (show_hex n) = Some n"
proof -
  assume n: "n \<le> USIZE_MAX"
  note low = show_hex_lower[of n]
  have "utf8_ok (show_hex n)"
    using low lower_hex_plain by (intro utf8_ok_ascii) (auto simp: list_all_iff is_ascii_def)
  moreover have "split_on (CHR '';'') (show_hex n) = [show_hex n]"
    using low lower_hex_plain by (intro split_on_single) (auto simp: list_all_iff)
  moreover obtain c r where c: "show_hex n = c # r" by (cases "show_hex n") auto
  moreover have "c \<noteq> CHR ''+''" using low by (auto simp: c is_lower_hex_def is_digit_def)
  ultimately show ?thesis
    using digits_val_show_hex[OF n] trim_lower_hex[OF low]
    by (simp add: chunk_size_def parse_unsigned_def)
qed

definition encode_chunk :: "string \<Rightarrow> string" where
  "encode_chunk c = show_hex (length c) @ CRLF @ c @ CRLF"

lemma find_CRLF_hex: "find_sub CRLF (show_hex n @ CRLF @ r) = Some (length (show_hex n))"
  unfolding CRLF_def using show_hex_lower[of n] lower_hex_plain
  by (intro find_sub_fresh_head) (auto simp: list_all_iff)

lemma take_chunk_encoded:
  "length c + 2 < 2 ^ 64 \<Longrightarrow> take_chunk checks (length c) (c @ CRLF @ r) = ChunkBody c r"
  by (simp add: take_chunk_def CRLF_def)

text \<open>
  C4: Chunked transfer decoding inverts chunked encoding. For every sequence of non-empty chunks
  whose total stays under the cap, the encoded chunks, the terminating zero chunk and any trailer
  decode to exactly the concatenation, not marked as truncated.
\<close>

theorem decode_chunked_roundtrip:
  assumes "\<forall>j. live j" and "\<forall>c \<in> set cs. c \<noteq> []"
    and "length decoded + length (concat cs) \<le> max_body"
    and "length (concat cs) + 2 < 2 ^ 64"
  shows "decode_chunked checks max_body live k decoded
           (concat (map encode_chunk cs) @ ''0'' @ CRLF @ trailer)
       = Some (Inr (decoded @ concat cs, False))"
  using assms
proof (induction cs arbitrary: k decoded)
  case Nil
  have z: "show_hex 0 = ''0''" by code_simp
  have "find_sub CRLF (''0'' @ CRLF @ trailer) = Some 1"
    using find_CRLF_hex[of 0 trailer] by (simp add: z)
  moreover have "chunk_size ''0'' = Some 0" using chunk_size_show_hex[of 0] by (simp add: z)
  ultimately show ?case using Nil by (subst decode_chunked.simps) simp
next
  case (Cons c cs)
  let ?rest = "concat (map encode_chunk cs) @ ''0'' @ CRLF @ trailer"
  have e: "concat (map encode_chunk (c # cs)) @ ''0'' @ CRLF @ trailer
      = show_hex (length c) @ CRLF @ c @ CRLF @ ?rest" by (simp add: encode_chunk_def)
  have lc: "length c + 2 < 2 ^ 64" using Cons.prems(4) by simp
  then have "length c \<le> USIZE_MAX" by (simp add: USIZE_MAX_def)
  then have sz: "chunk_size (take (length (show_hex (length c)))
      (show_hex (length c) @ CRLF @ c @ CRLF @ ?rest)) = Some (length c)"
    by (simp add: chunk_size_show_hex)
  have dr: "drop (length (show_hex (length c)) + 2) (show_hex (length c) @ CRLF @ c @ CRLF @ ?rest)
      = c @ CRLF @ ?rest" by (simp add: CRLF_def)
  have live: "live k" and ne: "(length c = 0) = False"
    and nr: "(length c > max_body - length decoded) = False"
    using Cons.prems(1-3) by auto
  have "decode_chunked checks max_body live k decoded (show_hex (length c) @ CRLF @ c @ CRLF @ ?rest)
      = decode_chunked checks max_body live (k + 1) (decoded @ c) ?rest"
    using live ne nr
    by (subst decode_chunked.simps)
      (simp only: find_CRLF_hex option.case sz dr take_chunk_encoded[OF lc] chunk_step.case Let_def
        if_False not_True_eq_False)
  also have "\<dots> = Some (Inr ((decoded @ c) @ concat cs, False))"
    using Cons.prems by (intro Cons.IH) auto
  finally show ?case by (simp only: e) simp
qed

text \<open>
  A chunk length of all ones passes the hexadecimal parser, and adding the two bytes of the line
  end leaves the range of \<^verbatim>\<open>usize\<close>: the decoder panics on a response of twenty bytes.
\<close>

lemma decode_chunked_panics:
  "decode_chunked checks max_body (\<lambda>_. True) 0 [] (''ffffffffffffffff'' @ CRLF @ ''x'' @ CRLF) = None"
proof -
  let ?e = "''ffffffffffffffff'' @ CRLF @ ''x'' @ CRLF"
  have f: "find_sub CRLF ?e = Some 16" by code_simp
  have s: "chunk_size (take 16 ?e) = Some USIZE_MAX"
    by (simp add: chunk_size_def USIZE_MAX_def CRLF_def parse_unsigned_def digit_val_def is_digit_def
        is_lower_def utf8_ok_ascii is_ascii_def split_on_single trim_lower_hex is_lower_hex_def)
  have t: "take_chunk checks USIZE_MAX (drop (16 + 2) ?e) = ChunkPanic"
    by (simp add: take_chunk_def USIZE_MAX_def CRLF_def)
  show ?thesis
    by (subst decode_chunked.simps) (simp only: f option.case s t chunk_step.case; simp add: USIZE_MAX_def)
qed

theorem decode_chunked_roundtrip_witness:
  "decode_chunked True 64 (\<lambda>_. True) 0 []
     (concat (map encode_chunk [''abc'', ''de'']) @ ''0'' @ CRLF @ CRLF) = Some (Inr (''abcde'', False))"
  using decode_chunked_roundtrip[of "\<lambda>_. True" "[''abc'', ''de'']" "[]" 64 True 0 CRLF] by simp

text \<open>
  Memory is capped before it is used. On a reader that never delivers more than it is asked
  for, \<open>read_capped\<close> returns at most the cap, reports truncation only with a full buffer, and the
  chunk decoder and the whole body decoder return at most the cap as well.
\<close>

theorem transport_memory_cap:
  assumes "reader_ok rd"
  shows "(read_capped rd max_body live r = Inr (b, t)
            \<longrightarrow> length b \<le> max_body \<and> (t \<longrightarrow> length b = max_body))
     \<and> (decode_chunked checks max_body live 0 [] encoded = Some (Inr (b, t)) \<longrightarrow> length b \<le> max_body)
     \<and> (decode_http_body C checks hs body max_body lives = Some (Inr (b, t)) \<longrightarrow> length b \<le> max_body)"
  using read_loop_bound[OF _ assms, of max_body live 0 "[]" r b t]
    decode_chunked_bound[of checks max_body live 0 "[]" encoded b t]
    decode_http_body_Inr[of C checks hs body max_body lives b t]
  by (simp add: read_capped_def)

definition demo_read :: "string reader" where
  "demo_read r n = (Inr (take n r), drop n r)"

definition demo_codecs :: "string codecs" where
  "demo_codecs = \<lparr> cd_gzip = id, cd_deflate = id, cd_zlib = id, cd_brotli = rev, cd_read = demo_read \<rparr>"

theorem transport_memory_cap_witness:
  "reader_ok demo_read \<and> read_capped demo_read 3 (\<lambda>_. True) ''abcdef'' = Inr (''abc'', True)
   \<and> length ''abc'' \<le> (3::nat)"
proof -
  have ok: "reader_ok demo_read" by (auto simp: reader_ok_def demo_read_def)
  have r: "read_capped demo_read 3 (\<lambda>_. True) ''abcdef'' = Inr (''abc'', True)" by code_simp
  show ?thesis
    using ok r transport_memory_cap[OF ok, of 3 "\<lambda>_. True" "''abcdef''" "''abc''" True]
    by blast
qed

end
