(* ===== verification/Fetch.thy ===== *)
theory Fetch
  imports Http_Response
begin

text \<open>
  One HTTP exchange and the redirect loop of \<^verbatim>\<open>basecrawl-core/src/fetch.rs\<close>. The network is the
  record \<open>net\<close>: connecting directly or through the proxy, the TLS handshake, sending a request on
  an open connection and reading from it, pacing, and the wall clock. Each of these acts on a
  world \<open>'w\<close>; \<open>'t\<close> is the captured TLS evidence, \<open>'r\<close> the stream of a response.
\<close>

record ('u, 'p, 't, 'w, 'r) net =
  n_direct_connect :: "string \<Rightarrow> nat \<Rightarrow> 'w \<Rightarrow> (core_error, string) result \<times> 'w"
  n_proxy_connect :: "'p \<Rightarrow> string \<Rightarrow> nat \<Rightarrow> 'w \<Rightarrow> (core_error, string) result \<times> 'w"
  n_server_name_ok :: "string \<Rightarrow> bool"
  n_handshake :: "string \<Rightarrow> bool \<Rightarrow> 'w \<Rightarrow> (core_error, 't) result \<times> 'w"
  n_send :: "string \<Rightarrow> 'w \<Rightarrow> (core_error, 'r) result \<times> 'w"
  n_codecs :: "'r codecs"
  n_live :: "'w \<Rightarrow> nat \<Rightarrow> nat \<Rightarrow> bool"
  n_httparse :: "string \<Rightarrow> head_outcome"
  n_lossy :: "string \<Rightarrow> string"
  n_pace :: "string \<Rightarrow> nat \<Rightarrow> 'w \<Rightarrow> (core_error, unit) result \<times> 'w"
  n_now :: "'w \<Rightarrow> string"
  n_no_tls :: 't
  n_overflow_checks :: bool

text \<open>Sequencing on a result and a world; the outer option is a panic.\<close>

type_synonym ('a, 'w) step = "((core_error, 'a) result \<times> 'w) option"

definition and_then :: "('a, 'w) step \<Rightarrow> ('a \<Rightarrow> 'w \<Rightarrow> ('b, 'w) step) \<Rightarrow> ('b, 'w) step" where
  "and_then m f =
     (case m of
        None \<Rightarrow> None
      | Some (Inl e, w) \<Rightarrow> Some (Inl e, w)
      | Some (Inr a, w) \<Rightarrow> f a w)"

section \<open>One exchange\<close>

record 't single_response =
  sr_status_code :: nat
  sr_headers_hash :: string
  sr_content_type :: "string option"
  sr_location :: "string option"
  sr_body :: string
  sr_body_truncated :: bool
  sr_tls :: "'t option"
  sr_egress_ip :: "string option"

definition open_origin_stream ::
    "('u, 'p, 't, 'w, 'r) net \<Rightarrow> string \<Rightarrow> nat \<Rightarrow> ('u, 'p) fetch_config \<Rightarrow> 'w
     \<Rightarrow> (core_error, string) result \<times> 'w" where
  "open_origin_stream N host port cfg w =
     (case fc_proxy cfg of
        Some proxy \<Rightarrow> n_proxy_connect N proxy host port w
      | None \<Rightarrow> n_direct_connect N host port w)"

text \<open>The common second half of \<^verbatim>\<open>fetch_http\<close> and \<^verbatim>\<open>fetch_https\<close>.\<close>

definition exchange ::
    "crypto_ops \<Rightarrow> 'u url_ops \<Rightarrow> ('u, 'p, 't, 'w, 'r) net \<Rightarrow> 'u \<Rightarrow> string \<Rightarrow> nat \<Rightarrow> ('u, 'p) fetch_config
     \<Rightarrow> 'u \<Rightarrow> 't option \<Rightarrow> string \<Rightarrow> 'w \<Rightarrow> ('t single_response, 'w) step" where
  "exchange ops U N url host port cfg cred tls egress w =
     and_then (Some (build_http_request U url host port cfg cred, w)) (\<lambda>request w.
     and_then (Some (n_send N request w)) (\<lambda>stream w.
     and_then (Some (read_capped (cd_read (n_codecs N))
                 (fc_max_body_bytes cfg + MAX_HTTP_RESPONSE_HEADER_BYTES) (n_live N w 0) stream, w))
       (\<lambda>(raw, raw_truncated) w.
     and_then (Some (parse_http_response (n_httparse N) raw, w)) (\<lambda>(status, hs, body) w.
     and_then (map_option (\<lambda>r. (r, w))
         (decode_http_body (n_codecs N) (n_overflow_checks N) hs body (fc_max_body_bytes cfg)
           (\<lambda>j. n_live N w (j + 1))))
       (\<lambda>(body, decoded_truncated) w.
         Some (Inr \<lparr> sr_status_code = status,
                     sr_headers_hash = hash_header_lines ops (n_lossy N) hs,
                     sr_content_type = header_value hs ''content-type'',
                     sr_location = header_value hs ''location'', sr_body = body,
                     sr_body_truncated = (raw_truncated \<or> decoded_truncated),
                     sr_tls = tls, sr_egress_ip = Some egress \<rparr>, w))))))"

definition fetch_http ::
    "crypto_ops \<Rightarrow> 'u url_ops \<Rightarrow> ('u, 'p, 't, 'w, 'r) net \<Rightarrow> 'u \<Rightarrow> ('u, 'p) fetch_config \<Rightarrow> 'u \<Rightarrow> 'w
     \<Rightarrow> ('t single_response, 'w) step" where
  "fetch_http ops U N url cfg cred w =
     and_then (Some (ok_or (url_host_str U url) (InvalidUrl (url_string U url)), w)) (\<lambda>host w.
       let port = (case url_known_port U url of Some p \<Rightarrow> p | None \<Rightarrow> 80)
       in and_then (Some (open_origin_stream N host port cfg w)) (\<lambda>egress w.
            exchange ops U N url host port cfg cred None egress w))"

definition fetch_https ::
    "crypto_ops \<Rightarrow> 'u url_ops \<Rightarrow> ('u, 'p, 't, 'w, 'r) net \<Rightarrow> 'u \<Rightarrow> ('u, 'p) fetch_config \<Rightarrow> 'u \<Rightarrow> 'w
     \<Rightarrow> ('t single_response, 'w) step" where
  "fetch_https ops U N url cfg cred w =
     and_then (Some (ok_or (url_host_str U url) (InvalidUrl (url_string U url)), w)) (\<lambda>host w.
       let port = (case url_known_port U url of Some p \<Rightarrow> p | None \<Rightarrow> 443)
       in and_then (Some (if n_server_name_ok N host then Inr () else Inl (InvalidUrl (url_string U url)), w))
            (\<lambda>_ w.
          and_then (Some (open_origin_stream N host port cfg w)) (\<lambda>egress w.
          and_then (Some (n_handshake N host (fc_insecure cfg) w)) (\<lambda>tls w.
            exchange ops U N url host port cfg cred (Some tls) egress w))))"

section \<open>Redirects\<close>

definition MAX_REDIRECTS :: nat where
  "MAX_REDIRECTS = 20"

record redirect_hop =
  rh_status_code :: nat
  rh_url :: string
  rh_location :: string

record 't fetched =
  f_status_code :: nat
  f_headers_hash :: string
  f_body_hash :: string
  f_content_length :: nat
  f_body :: string
  f_content_type :: "string option"
  f_body_truncated :: bool
  f_final_url :: string
  f_redirects :: "redirect_hop list"
  f_tls :: 't
  f_egress_ip :: string
  f_fetched_at :: string

definition transmit_hop ::
    "crypto_ops \<Rightarrow> 'u url_ops \<Rightarrow> ('u, 'p, 't, 'w, 'r) net \<Rightarrow> 'u \<Rightarrow> ('u, 'p) fetch_config \<Rightarrow> 'u \<Rightarrow> 'w
     \<Rightarrow> ('t single_response, 'w) step" where
  "transmit_hop ops U N current cfg cred w =
     (if url_scheme U current = ''http'' then
        and_then (Some (n_pace N (url_string U current) (fc_crawl_delay cfg) w)) (\<lambda>_ w.
          fetch_http ops U N current cfg cred w)
      else if url_scheme U current = ''https'' then
        and_then (Some (n_pace N (url_string U current) (fc_crawl_delay cfg) w)) (\<lambda>_ w.
          fetch_https ops U N current cfg cred w)
      else Some (Inl (UnsupportedScheme (url_scheme U current)), w))"

text \<open>The configuration of the next hop: 301 to 303 switch to GET, and no body is sent again.\<close>

definition next_hop_config :: "nat \<Rightarrow> ('u, 'p) fetch_config \<Rightarrow> ('u, 'p) fetch_config" where
  "next_hop_config status cfg =
     (if 301 \<le> status \<and> status \<le> 303 then cfg \<lparr> fc_method := ''GET'', fc_body := [] \<rparr>
      else cfg \<lparr> fc_body := [] \<rparr>)"

definition finish_fetch ::
    "crypto_ops \<Rightarrow> 'u url_ops \<Rightarrow> ('u, 'p, 't, 'w, 'r) net \<Rightarrow> 't single_response \<Rightarrow> 'u \<Rightarrow> redirect_hop list
     \<Rightarrow> 't \<Rightarrow> string option \<Rightarrow> 'w \<Rightarrow> 't fetched" where
  "finish_fetch ops U N response current redirects tls egress w =
     \<lparr> f_status_code = sr_status_code response, f_headers_hash = sr_headers_hash response,
       f_body_hash = sha256_hex ops (sr_body response), f_content_length = length (sr_body response),
       f_body = sr_body response, f_content_type = sr_content_type response,
       f_body_truncated = sr_body_truncated response, f_final_url = url_string U current,
       f_redirects = redirects, f_tls = tls,
       f_egress_ip = (case egress of Some ip \<Rightarrow> ip | None \<Rightarrow> ''0.0.0.0''), f_fetched_at = n_now N w \<rparr>"

text \<open>
  The loop takes the transmission of one hop as an argument, so that it can be read without the
  protocol; \<open>fetch_with_document_policy_until\<close> passes \<open>transmit_hop\<close>.
\<close>

function redirect_loop ::
    "('u \<Rightarrow> ('u, 'p) fetch_config \<Rightarrow> 'w \<Rightarrow> ('t single_response, 'w) step)
     \<Rightarrow> ('t single_response \<Rightarrow> 'u \<Rightarrow> redirect_hop list \<Rightarrow> 't \<Rightarrow> string option \<Rightarrow> 'w \<Rightarrow> 't fetched)
     \<Rightarrow> 'u url_ops \<Rightarrow> ('u \<Rightarrow> 'w \<Rightarrow> (unit, 'w) step) \<Rightarrow> 'u
     \<Rightarrow> 'u \<Rightarrow> ('u, 'p) fetch_config \<Rightarrow> redirect_hop list \<Rightarrow> 't \<Rightarrow> string option \<Rightarrow> 'w
     \<Rightarrow> ('t fetched, 'w) step" where
  "redirect_loop transmit finish U check url current cfg redirects tls egress w =
     (case check current w of
        None \<Rightarrow> None
      | Some (Inl e, w1) \<Rightarrow> Some (Inl e, w1)
      | Some (Inr _, w1) \<Rightarrow>
          (case transmit current cfg w1 of
             None \<Rightarrow> None
           | Some (Inl e, w2) \<Rightarrow> Some (Inl e, w2)
           | Some (Inr response, w2) \<Rightarrow>
               (let tls' = (case sr_tls response of Some t \<Rightarrow> t | None \<Rightarrow> tls);
                    egress' = (case sr_egress_ip response of Some ip \<Rightarrow> Some ip | None \<Rightarrow> egress)
                in if 300 \<le> sr_status_code response \<and> sr_status_code response < 400
                      \<and> sr_location response \<noteq> None
                   then
                     (if length redirects \<ge> MAX_REDIRECTS
                      then Some (Inl (TooManyRedirects MAX_REDIRECTS (url_string U url)), w2)
                      else case url_join U current (the (sr_location response)) of
                        None \<Rightarrow> Some (Inl (Redirect
                          ''could not resolve redirect Location against the current URL''), w2)
                      | Some target \<Rightarrow>
                          redirect_loop transmit finish U check url target
                            (next_hop_config (sr_status_code response) cfg)
                            (redirects @ [\<lparr> rh_status_code = sr_status_code response,
                                            rh_url = url_string U current,
                                            rh_location = url_string U target \<rparr>])
                            tls' egress' w2)
                   else Some (Inr (finish response current redirects tls' egress' w2), w2))))"
  by pat_completeness auto
termination
  by (relation "measure (\<lambda>(transmit, finish, U, check, url, current, cfg, redirects, tls, egress, w).
        Suc MAX_REDIRECTS - length redirects)") auto

declare redirect_loop.simps [simp del]

definition fetch_with_document_policy_until ::
    "crypto_ops \<Rightarrow> 'u url_ops \<Rightarrow> ('u, 'p, 't, 'w, 'r) net \<Rightarrow> ('u \<Rightarrow> 'w \<Rightarrow> (unit, 'w) step)
     \<Rightarrow> 'u \<Rightarrow> ('u, 'p) fetch_config \<Rightarrow> 'w \<Rightarrow> ('t fetched, 'w) step" where
  "fetch_with_document_policy_until ops U N check url cfg w =
     (let cred = (case fc_credential_origin cfg of Some o' \<Rightarrow> o' | None \<Rightarrow> url)
      in redirect_loop (\<lambda>current hop_cfg w. transmit_hop ops U N current hop_cfg cred w)
           (finish_fetch ops U N) U check url url cfg [] (n_no_tls N) None w)"

definition fetch_document_until ::
    "crypto_ops \<Rightarrow> 'u url_ops \<Rightarrow> ('u, 'p, 't, 'w, 'r) net \<Rightarrow> ('u \<Rightarrow> 'w \<Rightarrow> (unit, 'w) step)
     \<Rightarrow> 'u \<Rightarrow> ('u, 'p) fetch_config \<Rightarrow> 'w \<Rightarrow> ('t fetched, 'w) step" where
  "fetch_document_until ops U N check url cfg w =
     fetch_with_document_policy_until ops U N check url cfg w"

definition fetch_until ::
    "crypto_ops \<Rightarrow> 'u url_ops \<Rightarrow> ('u, 'p, 't, 'w, 'r) net \<Rightarrow> 'u \<Rightarrow> ('u, 'p) fetch_config \<Rightarrow> 'w
     \<Rightarrow> ('t fetched, 'w) step" where
  "fetch_until ops U N url cfg w =
     fetch_with_document_policy_until ops U N (\<lambda>_ w. Some (Inr (), w)) url cfg w"

section \<open>The redirect chain\<close>

fun linked :: "string \<Rightarrow> redirect_hop list \<Rightarrow> string \<Rightarrow> bool" where
  "linked a [] b \<longleftrightarrow> a = b"
| "linked a (h # hs) b \<longleftrightarrow> rh_url h = a \<and> linked (rh_location h) hs b"

lemma linked_snoc:
  "linked a hs (rh_url h) \<Longrightarrow> linked a (hs @ [h]) (rh_location h)"
  by (induction a hs "rh_url h" rule: linked.induct) auto

lemma redirect_loop_chain:
  assumes "redirect_loop transmit finish U check url current cfg redirects tls egress w = Some (Inr f, w')"
    and "\<And>r c rs t e w. f_redirects (finish r c rs t e w) = rs \<and> f_final_url (finish r c rs t e w) = url_string U c"
    and "length redirects \<le> MAX_REDIRECTS" and "linked s redirects (url_string U current)"
    and "\<forall>h \<in> set redirects. 300 \<le> rh_status_code h \<and> rh_status_code h < 400"
  shows "length (f_redirects f) \<le> MAX_REDIRECTS \<and> linked s (f_redirects f) (f_final_url f)
     \<and> (\<forall>h \<in> set (f_redirects f). 300 \<le> rh_status_code h \<and> rh_status_code h < 400)"
  using assms
proof (induction "Suc MAX_REDIRECTS - length redirects"
    arbitrary: current cfg redirects tls egress w rule: less_induct)
  case less
  from less.prems(1) obtain w1 response w2 where c: "check current w = Some (Inr (), w1)"
    and t: "transmit current cfg w1 = Some (Inr response, w2)"
    by (subst (asm) redirect_loop.simps) (auto split: sum.splits prod.splits option.splits)
  let ?tls = "case sr_tls response of Some t \<Rightarrow> t | None \<Rightarrow> tls"
  let ?eg = "case sr_egress_ip response of Some ip \<Rightarrow> Some ip | None \<Rightarrow> egress"
  show ?case
  proof (cases "300 \<le> sr_status_code response \<and> sr_status_code response < 400
      \<and> sr_location response \<noteq> None")
    case False
    then have "f = finish response current redirects ?tls ?eg w2"
      using less.prems(1) c t by (subst (asm) redirect_loop.simps) (auto simp: Let_def)
    with less.prems(2-5) show ?thesis by simp
  next
    case True
    from True less.prems(1) c t obtain target where
      len: "length redirects < MAX_REDIRECTS"
      and j: "url_join U current (the (sr_location response)) = Some target"
      by (subst (asm) redirect_loop.simps) (auto simp: Let_def split: if_splits option.splits)
    let ?hop = "\<lparr> rh_status_code = sr_status_code response, rh_url = url_string U current,
                  rh_location = url_string U target \<rparr>"
    have next_loop: "redirect_loop transmit finish U check url target
        (next_hop_config (sr_status_code response) cfg) (redirects @ [?hop]) ?tls ?eg w2 = Some (Inr f, w')"
      using True less.prems(1) c t len j by (subst (asm) redirect_loop.simps) (simp add: Let_def)
    have "linked s (redirects @ [?hop]) (url_string U target)"
      using linked_snoc[of s redirects ?hop] less.prems(4) by simp
    then show ?thesis
      by (intro less.hyps[OF _ next_loop less.prems(2)]) (use len True less.prems(5) in auto)
  qed
qed

text \<open>
  C5: A fetch follows at most twenty redirects, and the recorded chain is the path it took: the
  first hop was served from the requested URL, every hop's location is the URL of the next one,
  the last location is the final URL, and every hop answered with a 3xx status.
\<close>

theorem fetch_redirect_chain:
  assumes "fetch_with_document_policy_until ops U N check url cfg w = Some (Inr f, w')"
  shows "length (f_redirects f) \<le> 20
     \<and> linked (url_string U url) (f_redirects f) (f_final_url f)
     \<and> (\<forall>h \<in> set (f_redirects f). 300 \<le> rh_status_code h \<and> rh_status_code h < 400)"
  using redirect_loop_chain[where s = "url_string U url" and redirects = "[]",
      OF assms[unfolded fetch_with_document_policy_until_def Let_def]]
  by (simp add: finish_fetch_def MAX_REDIRECTS_def)

text \<open>
  No request is transmitted before its document policy has allowed it. Two transports that
  agree on every URL right after its policy check succeeded give the same fetch, so what a
  transport would do with an unchecked URL cannot matter; and a refused first URL ends the fetch
  with the refusal, before any transmission.
\<close>

theorem redirect_loop_checks_first:
  assumes "\<And>u c v v'. check u v = Some (Inr (), v') \<Longrightarrow> transmit u c v' = transmit' u c v'"
  shows "redirect_loop transmit finish U check url current cfg redirects tls egress w
       = redirect_loop transmit' finish U check url current cfg redirects tls egress w
     \<and> (check current w = Some (Inl e, w1) \<longrightarrow>
          redirect_loop transmit finish U check url current cfg redirects tls egress w = Some (Inl e, w1))"
proof
  show "redirect_loop transmit finish U check url current cfg redirects tls egress w
       = redirect_loop transmit' finish U check url current cfg redirects tls egress w"
    using assms
  proof (induction "Suc MAX_REDIRECTS - length redirects"
      arbitrary: current cfg redirects tls egress w rule: less_induct)
    case less
    show ?case
    proof (cases "check current w")
      case None
      then show ?thesis by (simp add: redirect_loop.simps)
    next
      case (Some cw)
      then obtain r w1 where Pair: "check current w = Some (r, w1)" by (cases cw) simp
      show ?thesis
      proof (cases r)
        case (Inl e)
        with Pair show ?thesis by (simp add: redirect_loop.simps)
      next
        case (Inr u)
        have t: "transmit current cfg w1 = transmit' current cfg w1"
          using less.prems Pair Inr by simp
        have step: "length redirects < MAX_REDIRECTS \<Longrightarrow>
            redirect_loop transmit finish U check url tg c (redirects @ [h]) tl eg v
            = redirect_loop transmit' finish U check url tg c (redirects @ [h]) tl eg v"
          for tg c h tl eg v by (rule less.hyps) (use less.prems in auto)
        show ?thesis
        proof (cases "transmit' current cfg w1")
          case None
          with Pair Inr t show ?thesis by (subst (1 2) redirect_loop.simps) simp
        next
          case (Some p)
          obtain res w2 where p: "p = (res, w2)" by (cases p)
          show ?thesis
          proof (cases res)
            case (Inl e')
            with Pair Inr t Some p show ?thesis by (subst (1 2) redirect_loop.simps) simp
          next
            case (Inr response)
            note facts = Pair \<open>r = Inr u\<close> t Some p Inr
            show ?thesis
            proof (cases "length redirects < MAX_REDIRECTS")
              case True
              with facts step show ?thesis
                by (subst (1 2) redirect_loop.simps)
                  (cases "url_join U current (the (sr_location response))"; auto simp: Let_def)
            next
              case False
              with facts show ?thesis by (subst (1 2) redirect_loop.simps) (simp add: Let_def)
            qed
          qed
        qed
      qed
    qed
  qed
  show "check current w = Some (Inl e, w1) \<longrightarrow>
     redirect_loop transmit finish U check url current cfg redirects tls egress w = Some (Inl e, w1)"
    by (simp add: redirect_loop.simps)
qed

text \<open>
  A 307 or 308 keeps the method: a POST is sent again to the target, with an empty body and a
  content length of zero.
\<close>

lemma next_hop_keeps_post:
  assumes "status \<in> {307, 308}" and "request_method cfg = ''POST''"
  shows "request_method (next_hop_config status cfg) = ''POST''"
    and "fc_body (next_hop_config status cfg) = []" and "sends_body (next_hop_config status cfg)"
  using assms by (auto simp: next_hop_config_def request_method_def sends_body_def)

section \<open>A concrete network\<close>

text \<open>The world is the list of raw responses still to come.\<close>

definition demo_net :: "(demo_url, unit, unit, string list, string) net" where
  "demo_net =
     \<lparr> n_direct_connect = (\<lambda>h p w. (Inr ''10.0.0.1'', w)),
       n_proxy_connect = (\<lambda>q h p w. (Inr ''10.0.0.2'', w)),
       n_server_name_ok = (\<lambda>h. True), n_handshake = (\<lambda>h i w. (Inr (), w)),
       n_send = (\<lambda>req w. case w of [] \<Rightarrow> (Inl (Transport ''closed''), []) | x # xs \<Rightarrow> (Inr x, xs)),
       n_codecs = demo_codecs, n_live = (\<lambda>w j k. True),
       n_httparse = (\<lambda>raw. if raw = ''R'' then HeadComplete 1 (Some 302) [(''location'', ''/b'')]
                          else HeadComplete 1 (Some 200) []),
       n_lossy = id, n_pace = (\<lambda>u d w. (Inr (), w)), n_now = (\<lambda>w. ''now''), n_no_tls = (),
       n_overflow_checks = True \<rparr>"

definition demo_fetch :: "string list \<Rightarrow> (unit fetched, string list) step" where
  "demo_fetch w = fetch_until demo_ops demo_url_ops demo_net (site ''/a'') demo_config w"

lemma demo_read_capped:
  assumes "length s + 1 < n" and "length s < 8192"
  shows "read_capped demo_read n (\<lambda>_. True) s = Inr (s, False)"
proof (cases "s = []")
  case True
  with assms show ?thesis
    by (simp add: read_capped_def demo_read_def read_loop.simps)
next
  case False
  with assms have "read_loop demo_read n (\<lambda>_. True) 0 [] s
      = read_loop demo_read n (\<lambda>_. True) 1 s []"
    by (subst read_loop.simps) (simp add: demo_read_def)
  also have "\<dots> = Inr (s, False)"
    using assms by (subst read_loop.simps) (simp add: demo_read_def)
  finally show ?thesis by (simp add: read_capped_def)
qed

definition demo_response :: "string \<Rightarrow> unit single_response" where
  "demo_response raw =
     \<lparr> sr_status_code = (if raw = ''R'' then 302 else 200),
       sr_headers_hash = hash_header_lines demo_ops id (if raw = ''R'' then [(''location'', ''/b'')] else []),
       sr_content_type = None, sr_location = (if raw = ''R'' then Some ''/b'' else None), sr_body = [],
       sr_body_truncated = False, sr_tls = Some (), sr_egress_ip = Some ''10.0.0.1'' \<rparr>"

lemma demo_decode:
  "decode_http_body demo_codecs True [] [] 64 (\<lambda>j k. True) = Some (Inr ([], False))"
  "decode_http_body demo_codecs True [(''location'', ''/b'')] [] 64 (\<lambda>j k. True) = Some (Inr ([], False))"
  "header_value [(''location'', ''/b'')] ''location'' = Some ''/b''"
  "header_value [(''location'', ''/b'')] ''content-type'' = None"
  "header_value [] n = None" "map (\<lambda>(n, v). (to_lower n, v)) [(''location'', ''/b'')] = [(''location'', ''/b'')]"
  by (code_simp | simp add: header_value_def)+

lemma demo_transmit_hop:
  assumes "raw = ''R'' \<or> raw = ''X''" and "fc_proxy cfg = None" and "fc_max_body_bytes cfg = 64"
    and "is_ok (build_http_request demo_url_ops (site p) ''a.example'' 443 cfg cred)"
  shows "transmit_hop demo_ops demo_url_ops demo_net (site p) cfg cred (raw # ws)
       = Some (Inr (demo_response raw), ws)"
proof -
  obtain req where req: "build_http_request demo_url_ops (site p) ''a.example'' 443 cfg cred = Inr req"
    using assms(4) by (auto simp: is_ok_iff)
  have r: "read_capped demo_read (64 + MAX_HTTP_RESPONSE_HEADER_BYTES) (\<lambda>_. True) raw = Inr (raw, False)"
    using assms(1) by (intro demo_read_capped) (auto simp: MAX_HTTP_RESPONSE_HEADER_BYTES_def)
  have u: "url_scheme demo_url_ops (site p) = ''https''" "url_host_str demo_url_ops (site p) = Some ''a.example''"
    "url_known_port demo_url_ops (site p) = Some 443"
    by (simp_all add: demo_url_ops_def site_def demo_known_port_def)
  have c: "cd_read demo_codecs = demo_read" by (simp add: demo_codecs_def)
  have e: "exchange demo_ops demo_url_ops demo_net (site p) ''a.example'' 443 cfg cred (Some ()) ''10.0.0.1''
      (raw # ws) = Some (Inr (demo_response raw), ws)"
    using assms(1,3) r req
    by (auto simp: exchange_def and_then_def demo_net_def c parse_http_response_def demo_decode
        demo_response_def MAX_HTTP_RESPONSE_HEADER_BYTES_def lower_char_def is_upper_def)
  have n: "n_pace demo_net x d w = (Inr (), w)" "n_server_name_ok demo_net h"
    "n_direct_connect demo_net h q w = (Inr ''10.0.0.1'', w)" "n_handshake demo_net h i w = (Inr (), w)"
    for x d w h q i by (simp_all add: demo_net_def)
  show ?thesis
    using assms(2) by (simp add: transmit_hop_def fetch_https_def and_then_def open_origin_stream_def e u n)
qed

theorem fetch_redirect_chain_witness:
  "\<exists>f. demo_fetch [''R'', ''X''] = Some (Inr f, [])
     \<and> f_redirects f = [\<lparr> rh_status_code = 302, rh_url = ''https://a.example/a'',
                           rh_location = ''https://a.example/b'' \<rparr>]
     \<and> linked ''https://a.example/a'' (f_redirects f) (f_final_url f)"
proof -
  have ok: "is_ok (build_http_request demo_url_ops (site ''/a'') ''a.example'' 443 demo_config (site ''/a''))"
    "is_ok (build_http_request demo_url_ops (site ''/b'') ''a.example'' 443 (next_hop_config 302 demo_config) (site ''/a''))"
    by code_simp+
  have c: "fc_proxy demo_config = None" "fc_max_body_bytes demo_config = 64" "fc_credential_origin demo_config = None"
    "fc_proxy (next_hop_config 302 demo_config) = None" "fc_max_body_bytes (next_hop_config 302 demo_config) = 64"
    by (simp_all add: demo_config_def next_hop_config_def)
  have u: "url_string demo_url_ops (site ''/a'') = ''https://a.example/a''"
    "url_string demo_url_ops (site ''/b'') = ''https://a.example/b''"
    "url_join demo_url_ops (site ''/a'') ''/b'' = Some (site ''/b'')" by code_simp+
  note hops = demo_transmit_hop[OF _ c(1,2) ok(1)] demo_transmit_hop[OF _ c(4,5) ok(2)]
  obtain f where f: "demo_fetch [''R'', ''X''] = Some (Inr f, [])"
    and r: "f_redirects f = [\<lparr> rh_status_code = 302, rh_url = ''https://a.example/a'',
                  rh_location = ''https://a.example/b'' \<rparr>]"
    by (simp add: demo_fetch_def fetch_until_def fetch_with_document_policy_until_def c(3)
        redirect_loop.simps[of _ _ _ _ _ "site ''/a''"] redirect_loop.simps[of _ _ _ _ _ "site ''/b''"]
        hops demo_response_def u finish_fetch_def MAX_REDIRECTS_def)
  from fetch_redirect_chain[OF f[unfolded demo_fetch_def fetch_until_def]] f r u
  show ?thesis by auto
qed

theorem redirect_loop_checks_first_witness:
  "redirect_loop (\<lambda>u c w. None) (finish_fetch demo_ops demo_url_ops demo_net) demo_url_ops
       (\<lambda>u w. Some (Inl (RobotsDenied JNull), w)) (site ''/a'') (site ''/a'') demo_config [] () None [''X'']
   = redirect_loop (\<lambda>u c w. transmit_hop demo_ops demo_url_ops demo_net u c (site ''/a'') w)
       (finish_fetch demo_ops demo_url_ops demo_net) demo_url_ops
       (\<lambda>u w. Some (Inl (RobotsDenied JNull), w)) (site ''/a'') (site ''/a'') demo_config [] () None [''X'']"
  by (rule redirect_loop_checks_first[THEN conjunct1]) simp

end
