(* ===== verification/Charset.thy ===== *)
theory Charset
  imports Rust_Str
begin

text \<open>
  \<^verbatim>\<open>basecrawl-core/src/charset.rs\<close>: which encoding a response body declares. The byte offsets of
  the source are suffixes of the body here: \<open>s\<close> stands for \<^verbatim>\<open>input[offset..]\<close>. The decoders of
  \<^verbatim>\<open>encoding_rs\<close> are the fields of \<open>charset_ops\<close>.
\<close>

record 'e charset_ops =
  enc_for_label :: "string \<Rightarrow> 'e option"
  enc_utf8 :: 'e
  enc_decode :: "'e \<Rightarrow> string \<Rightarrow> string"

definition META_SCAN_LIMIT :: nat where
  "META_SCAN_LIMIT = 8 * 1024"

section \<open>The charset parameter of a content type\<close>

definition trim_quotes :: "string \<Rightarrow> string" where
  "trim_quotes s = rev (dropWhile (\<lambda>c. c = CHR 0x22) (rev (dropWhile (\<lambda>c. c = CHR 0x22) s)))"

fun charset_param :: "string list \<Rightarrow> string option" where
  "charset_param [] = None"
| "charset_param (param # params) =
     (case split_once (CHR ''='') param of
        None \<Rightarrow> charset_param params
      | Some (name, value) \<Rightarrow>
          if eq_ic (trim name) ''charset'' then
            (let v = trim (trim_quotes (trim value))
             in if v \<noteq> [] then Some (to_lower v) else charset_param params)
          else charset_param params)"

definition charset_from_content_type :: "string \<Rightarrow> string option" where
  "charset_from_content_type ct = charset_param (tl (split_on (CHR '';'') ct))"

section \<open>The tokenizer\<close>

datatype markup =
    MStart string string string
  | MEnd string string
  | MOther string
  | MIncomplete

fun markup_next :: "markup \<Rightarrow> string option" where
  "markup_next (MStart _ _ next_s) = Some next_s"
| "markup_next (MEnd _ next_s) = Some next_s"
| "markup_next (MOther next_s) = Some next_s"
| "markup_next MIncomplete = None"

definition is_tag_name_byte :: "char \<Rightarrow> bool" where
  "is_tag_name_byte c \<longleftrightarrow> is_alnum c \<or> c = CHR ''-'' \<or> c = CHR '':''"

definition is_quote_byte :: "char \<Rightarrow> bool" where
  "is_quote_byte c \<longleftrightarrow> c = CHR 0x27 \<or> c = CHR 0x22"

fun tag_end :: "char option \<Rightarrow> string \<Rightarrow> nat option" where
  "tag_end quote [] = None"
| "tag_end (Some q) (c # cs) =
     map_option Suc (tag_end (if c = q then None else Some q) cs)"
| "tag_end None (c # cs) =
     (if is_quote_byte c then map_option Suc (tag_end (Some c) cs)
      else if c = CHR ''>'' then Some 0
      else if c = CHR ''<'' then None
      else map_option Suc (tag_end None cs))"

definition other_at :: "string \<Rightarrow> markup" where
  "other_at s = (case tag_end None s of Some e \<Rightarrow> MOther (drop (e + 1) s) | None \<Rightarrow> MIncomplete)"

definition tag_at :: "bool \<Rightarrow> string \<Rightarrow> string \<Rightarrow> markup" where
  "tag_at is_end name after =
     (if after = [] then MIncomplete
      else if \<not> (hd after = CHR ''>'' \<or> hd after = CHR ''/'' \<or> is_ascii_ws (hd after))
      then other_at after
      else case tag_end None after of
        None \<Rightarrow> MIncomplete
      | Some e \<Rightarrow>
          if is_end then
            (if list_all is_ascii_ws (take e after)
             then MEnd name (drop (e + 1) after) else MOther (drop (e + 1) after))
          else MStart name (take e after) (drop (e + 1) after))"

definition named_tag :: "bool \<Rightarrow> string \<Rightarrow> markup" where
  "named_tag is_end ns =
     (if ns = [] then MIncomplete
      else if \<not> is_alpha (hd ns) then other_at ns
      else tag_at is_end (takeWhile is_tag_name_byte ns) (dropWhile is_tag_name_byte ns))"

definition parse_markup :: "string \<Rightarrow> markup" where
  "parse_markup s =
     (if starts_with s ''<!--'' then
        (case find_sub ''-->'' (drop 4 s) of
           Some p \<Rightarrow> MOther (drop (4 + p + 3) s)
         | None \<Rightarrow> MIncomplete)
      else case drop 1 s of
        [] \<Rightarrow> MIncomplete
      | first # rest \<Rightarrow>
          if first = CHR ''!'' \<or> first = CHR ''?'' then other_at rest
          else if first = CHR ''/'' then named_tag True rest
          else named_tag False (first # rest))"

definition raw_text_element :: "string \<Rightarrow> bool" where
  "raw_text_element name = list_ex (eq_ic name)
     [''script'', ''style'', ''textarea'', ''title'', ''xmp'', ''iframe'', ''noembed'', ''noframes'',
      ''noscript'', ''plaintext'']"

definition head_context_element :: "string \<Rightarrow> bool" where
  "head_context_element name = list_ex (eq_ic name)
     [''html'', ''head'', ''base'', ''basefont'', ''bgsound'', ''link'', ''meta'', ''title'',
      ''noframes'', ''style'', ''template'', ''script'', ''noscript'']"

text \<open>Every complete token consumes at least the opening bracket.\<close>

lemma other_at_next: "markup_next (other_at s) = Some t \<Longrightarrow> length t \<le> length s"
  by (auto simp: other_at_def split: option.splits)

lemma tag_at_next: "markup_next (tag_at is_end name s) = Some t \<Longrightarrow> length t \<le> length s"
  by (auto simp: tag_at_def split: if_splits option.splits dest: other_at_next)

lemma named_tag_next: "markup_next (named_tag is_end s) = Some t \<Longrightarrow> length t \<le> length s"
  by (auto simp: named_tag_def split: if_splits dest!: other_at_next tag_at_next
      intro: le_trans[OF _ length_dropWhile_le])

lemma parse_markup_next:
  assumes "markup_next (parse_markup s) = Some t" and "s \<noteq> []"
  shows "length t < length s"
proof (cases "starts_with s ''<!--''")
  case True
  with assms show ?thesis by (auto simp: parse_markup_def split: option.splits)
next
  case False
  obtain c r where s: "s = c # r" using assms(2) by (cases s) auto
  show ?thesis using False assms(1) unfolding s
    by (cases r) (auto simp: parse_markup_def split: if_splits dest!: other_at_next named_tag_next)
qed

section \<open>Attributes of a meta element\<close>

definition ascii_string :: "string \<Rightarrow> string option" where
  "ascii_string s = (if list_all is_ascii s then Some (to_lower s) else None)"

definition attr_name_byte :: "char \<Rightarrow> bool" where
  "attr_name_byte c \<longleftrightarrow>
     \<not> is_ascii_ws c \<and> c \<noteq> CHR ''='' \<and> c \<noteq> CHR ''/'' \<and> c \<noteq> CHR ''>'' \<and> \<not> is_quote_byte c"

definition attr_value :: "string \<Rightarrow> string \<times> string" where
  "attr_value s =
     (case s of
        c # r \<Rightarrow>
          if c = CHR ''='' then
            (let v = dropWhile is_ascii_ws r
             in case v of
                  q # w \<Rightarrow>
                    if is_quote_byte q
                    then (takeWhile (\<lambda>b. b \<noteq> q) w, drop 1 (dropWhile (\<lambda>b. b \<noteq> q) w))
                    else (takeWhile (\<lambda>b. \<not> is_ascii_ws b \<and> b \<noteq> CHR ''/'') v,
                          dropWhile (\<lambda>b. \<not> is_ascii_ws b \<and> b \<noteq> CHR ''/'') v)
                | [] \<Rightarrow> ([], []))
          else ([], s)
      | [] \<Rightarrow> ([], []))"

record meta_state =
  ms_charset :: "string option"
  ms_content :: "string option"
  ms_content_type :: bool

definition meta_attribute :: "string \<Rightarrow> string \<Rightarrow> meta_state \<Rightarrow> meta_state" where
  "meta_attribute name value st =
     (if ms_charset st = None \<and> eq_ic name ''charset'' \<and> value \<noteq> []
      then st \<lparr> ms_charset := ascii_string value \<rparr>
      else if eq_ic name ''http-equiv'' \<and> eq_ic value ''content-type''
      then st \<lparr> ms_content_type := True \<rparr>
      else if ms_content st = None \<and> eq_ic name ''content''
      then st \<lparr> ms_content := ascii_string value \<rparr>
      else st)"

lemma attr_value_length: "length (snd (attr_value s)) \<le> length s"
proof (cases s)
  case (Cons c r)
  have d: "length (dropWhile P x) \<le> length x" for P :: "char \<Rightarrow> bool" and x
    by (rule length_dropWhile_le)
  have "length (drop 1 (dropWhile P w)) \<le> length w" for P :: "char \<Rightarrow> bool" and w
    using d[of P w] by simp
  with Cons d[of is_ascii_ws r] show ?thesis
    by (auto simp: attr_value_def Let_def le_SucI split: list.splits intro: le_trans[OF d] le_trans)
      (metis le_SucI le_trans length_Cons d)+
qed (simp add: attr_value_def)

lemma dropWhile_shorter: "takeWhile P xs \<noteq> [] \<Longrightarrow> length (dropWhile P xs) < length xs"
  by (cases xs) (auto simp: le_imp_less_Suc length_dropWhile_le split: if_splits)

function meta_attributes :: "meta_state \<Rightarrow> string \<Rightarrow> meta_state" where
  "meta_attributes st s =
     (if s = [] then st
      else
        (let s1 = dropWhile (\<lambda>c. is_ascii_ws c \<or> c = CHR ''/'') s;
             name = takeWhile attr_name_byte s1
         in if name = [] then meta_attributes st (drop 1 s1)
            else
              (let (value, rest) = attr_value (dropWhile is_ascii_ws (dropWhile attr_name_byte s1))
               in meta_attributes (meta_attribute name value st) rest)))"
  by pat_completeness auto
termination
proof (relation "measure (\<lambda>(st, s). length s)", simp, goal_cases)
  case (1 st s s1 name)
  have "length s1 \<le> length s" using "1" by (simp add: length_dropWhile_le)
  moreover have "s \<noteq> []" using "1" by simp
  ultimately show ?case by (cases s1) auto
next
  case (2 st s s1 name p val rest)
  have "length rest \<le> length (dropWhile is_ascii_ws (dropWhile attr_name_byte s1))"
    using "2" attr_value_length by (metis snd_conv)
  also have "\<dots> \<le> length (dropWhile attr_name_byte s1)" by (rule length_dropWhile_le)
  also have "\<dots> < length s1"
    using "2" by (intro dropWhile_shorter) simp
  also have "\<dots> \<le> length s" using "2" by (simp add: length_dropWhile_le)
  finally show ?case by simp
qed

declare meta_attributes.simps [simp del]

definition charset_from_meta_attributes :: "string \<Rightarrow> string option" where
  "charset_from_meta_attributes s =
     (let st = meta_attributes \<lparr> ms_charset = None, ms_content = None, ms_content_type = False \<rparr> s
      in case ms_charset st of
           Some c \<Rightarrow> Some c
         | None \<Rightarrow> if ms_content_type st
                  then Option.bind (ms_content st) charset_from_content_type else None)"

section \<open>The prescan\<close>

text \<open>
  \<open>accepts\<close>, \<open>depth\<close> and \<open>raw\<close> are the state variables of the source's loop: whether a
  declaration still counts, the number of open templates, and the raw-text element the scan is in.
\<close>

function prescan :: "bool \<Rightarrow> nat \<Rightarrow> string option \<Rightarrow> string \<Rightarrow> string option" where
  "prescan accepts depth raw s =
     (if s = [] then None
      else case raw of
        Some raw_name \<Rightarrow>
          if eq_ic raw_name ''plaintext'' then None
          else if hd s \<noteq> CHR ''<'' then prescan accepts depth raw (tl s)
          else (case parse_markup s of
                  MEnd name next_s \<Rightarrow>
                    if eq_ic name raw_name then prescan accepts depth None next_s
                    else prescan accepts depth raw next_s
                | MIncomplete \<Rightarrow> None
                | MStart _ _ next_s \<Rightarrow> prescan accepts depth raw next_s
                | MOther next_s \<Rightarrow> prescan accepts depth raw next_s)
      | None \<Rightarrow>
          if hd s \<noteq> CHR ''<'' then
            prescan (if depth = 0 \<and> is_ascii (hd s) \<and> \<not> is_ascii_ws (hd s) then False else accepts)
              depth None (tl s)
          else (case parse_markup s of
                  MStart name attributes next_s \<Rightarrow>
                    (let depth' = (if eq_ic name ''template'' then depth + 1 else depth);
                         found = (if accepts \<and> depth' = 0 \<and> eq_ic name ''meta''
                                  then charset_from_meta_attributes attributes else None)
                     in if found \<noteq> None then found
                        else prescan
                          (if depth' = 0 \<and> \<not> head_context_element name then False else accepts)
                          depth' (if raw_text_element name then Some name else None) next_s)
                | MEnd name next_s \<Rightarrow>
                    (let depth' = (if eq_ic name ''template'' then depth - 1 else depth)
                     in prescan
                          (if depth' = 0 \<and> (eq_ic name ''head'' \<or> eq_ic name ''body'') then False
                           else accepts)
                          depth' None next_s)
                | MOther next_s \<Rightarrow> prescan accepts depth None next_s
                | MIncomplete \<Rightarrow> None))"
  by pat_completeness auto
termination
  by (relation "measure (\<lambda>(accepts, depth, raw, s). length s)")
    (auto simp: parse_markup_next)

declare prescan.simps [simp del]

definition charset_from_meta_bytes :: "string \<Rightarrow> string option" where
  "charset_from_meta_bytes body = prescan True 0 None (take META_SCAN_LIMIT body)"

definition decode_body :: "'e charset_ops \<Rightarrow> string \<Rightarrow> string option \<Rightarrow> bool \<Rightarrow> string" where
  "decode_body E body content_type is_html =
     (let declared = (case Option.bind content_type charset_from_content_type of
             Some c \<Rightarrow> Some c
           | None \<Rightarrow> if is_html then charset_from_meta_bytes body else None);
          encoding = (case Option.bind declared (enc_for_label E) of
             Some e \<Rightarrow> e | None \<Rightarrow> enc_utf8 E)
      in enc_decode E encoding body)"

section \<open>Where a declaration cannot count\<close>

lemma prescan_rejects: "prescan False depth raw s = None"
proof (induction "length s" arbitrary: depth raw s rule: less_induct)
  case less
  show ?case
  proof (cases "s = []")
    case False
    have tl: "prescan False d r (tl s) = None" for d r
      using less[of "tl s"] False by simp
    have nxt: "markup_next (parse_markup s) = Some t \<Longrightarrow> prescan False d r t = None" for d r t
      using less[of t] parse_markup_next[OF _ False] by simp
    show ?thesis
    proof (cases raw)
      case None
      then show ?thesis
        using False tl nxt
        by (cases "parse_markup s") (simp_all add: prescan.simps[of False depth None s] Let_def)
    next
      case (Some n)
      then show ?thesis
        using False tl nxt
        by (cases "parse_markup s") (simp_all add: prescan.simps[of False depth "Some n" s])
    qed
  qed (simp add: prescan.simps)
qed

lemma prescan_skip:
  "list_all (\<lambda>c. c \<noteq> CHR ''<'' \<and> (is_ascii_ws c \<or> \<not> is_ascii c)) w \<Longrightarrow>
   prescan accepts 0 None (w @ s) = prescan accepts 0 None s"
proof (induction w)
  case (Cons c w)
  then have "prescan accepts 0 None (c # w @ s) = prescan accepts 0 None (w @ s)"
    by (subst prescan.simps) auto
  with Cons show ?case by simp
qed simp

lemma prescan_text:
  assumes "c \<noteq> CHR ''<''" and "is_ascii c" and "\<not> is_ascii_ws c"
  shows "prescan accepts 0 None (c # s) = None"
  using assms by (subst prescan.simps) (simp add: prescan_rejects)

lemma prescan_Nil [simp]: "prescan accepts depth raw [] = None"
  by (simp add: prescan.simps)

lemma charset_after_text:
  assumes "list_all (\<lambda>b. b \<noteq> CHR ''<'' \<and> (is_ascii_ws b \<or> \<not> is_ascii b)) w"
    and "c \<noteq> CHR ''<''" and "is_ascii c" and "\<not> is_ascii_ws c"
  shows "charset_from_meta_bytes (w @ c # s) = None"
proof (cases "length w < META_SCAN_LIMIT")
  case True
  then have "take META_SCAN_LIMIT (w @ c # s) = w @ c # take (META_SCAN_LIMIT - length w - 1) s"
    by (simp add: take_Cons')
  then show ?thesis
    using prescan_skip[OF assms(1)] prescan_text[OF assms(2-4)]
    by (simp add: charset_from_meta_bytes_def)
next
  case False
  then have t: "take META_SCAN_LIMIT (w @ c # s) = take META_SCAN_LIMIT w" by simp
  have "list_all (\<lambda>b. b \<noteq> CHR ''<'' \<and> (is_ascii_ws b \<or> \<not> is_ascii b)) (take META_SCAN_LIMIT w)"
    using assms(1) by (auto simp: list_all_iff dest: in_set_takeD)
  from prescan_skip[OF this, of True "[]"] t show ?thesis
    by (simp add: charset_from_meta_bytes_def)
qed

text \<open>
  Without a charset in the content type, a meta element cannot choose the decoder once
  visible text has been seen: a body whose first byte other than whitespace and non-ASCII bytes
  is ASCII text is decoded as UTF-8, whatever markup follows.
\<close>

theorem decode_body_ignores_late_meta:
  assumes "list_all (\<lambda>b. b \<noteq> CHR ''<'' \<and> (is_ascii_ws b \<or> \<not> is_ascii b)) w"
    and "c \<noteq> CHR ''<''" and "is_ascii c" and "\<not> is_ascii_ws c"
    and "Option.bind content_type charset_from_content_type = None"
  shows "decode_body E (w @ c # s) content_type is_html = enc_decode E (enc_utf8 E) (w @ c # s)"
  using charset_after_text[OF assms(1-4)] assms(5) by (simp add: decode_body_def)

definition demo_charsets :: "string charset_ops" where
  "demo_charsets = \<lparr> enc_for_label = Some, enc_utf8 = ''utf-8'', enc_decode = (\<lambda>e b. e @ '':'' @ b) \<rparr>"

theorem decode_body_ignores_late_meta_witness:
  "decode_body demo_charsets ''  x<meta charset=koi8-r>'' (Some ''text/html'') True
     = ''utf-8:  x<meta charset=koi8-r>''"
proof -
  have "Option.bind (Some ''text/html'') charset_from_content_type = None" by code_simp
  then show "decode_body demo_charsets ''  x<meta charset=koi8-r>'' (Some ''text/html'') True
     = ''utf-8:  x<meta charset=koi8-r>''"
    using decode_body_ignores_late_meta[of "''  ''" "CHR ''x''" "Some ''text/html''" demo_charsets
        "''<meta charset=koi8-r>''" True]
    by (simp add: is_ascii_ws_def is_ascii_def demo_charsets_def)
qed

end
