(* ===== verification/Robots_Rules.thy ===== *)
theory Robots_Rules
  imports Rust_Str
begin

text \<open>
  The text side of \<^verbatim>\<open>basecrawl-core/src/robots.rs\<close>: parsing \<^verbatim>\<open>robots.txt\<close>, matching a path
  against a rule, and the choice of the rule that decides.
\<close>

definition USER_AGENT :: string where
  "USER_AGENT = ''basecrawl''"

record rule =
  r_allow :: bool
  r_path :: string

record group =
  g_agents :: "string list"
  g_rules :: "rule list"

record parsed_robots =
  pr_groups :: "group list"
  pr_sitemap_urls :: "string list"

section \<open>Parsing\<close>

type_synonym parse_state = "parsed_robots \<times> group option"

definition add_agent :: "string \<Rightarrow> parse_state \<Rightarrow> parse_state" where
  "add_agent agent st =
     (let (parsed, current) = st;
          (parsed, current) =
            (case current of
               Some g \<Rightarrow> if g_rules g \<noteq> [] then (parsed \<lparr> pr_groups := pr_groups parsed @ [g] \<rparr>, None)
                         else (parsed, current)
             | None \<Rightarrow> (parsed, current));
          g = (case current of Some g \<Rightarrow> g | None \<Rightarrow> \<lparr> g_agents = [], g_rules = [] \<rparr>)
      in (parsed, Some (g \<lparr> g_agents := g_agents g @ [to_lower agent] \<rparr>)))"

definition add_rule :: "bool \<Rightarrow> string \<Rightarrow> parse_state \<Rightarrow> parse_state" where
  "add_rule allow path st =
     (let (parsed, current) = st
      in if path = [] then st
         else case current of
           Some g \<Rightarrow> if g_agents g \<noteq> []
                     then (parsed, Some (g \<lparr> g_rules := g_rules g @ [\<lparr> r_allow = allow, r_path = path \<rparr>] \<rparr>))
                     else st
         | None \<Rightarrow> st)"

definition parse_line :: "parse_state \<Rightarrow> string \<Rightarrow> parse_state" where
  "parse_line st raw_line =
     (let line = trim (hd (split_on (CHR ''#'') raw_line))
      in if line = [] then st
         else case split_once (CHR '':'') line of
           None \<Rightarrow> st
         | Some (name, val) \<Rightarrow>
             (let name = to_lower (trim name); val = trim val
              in if name = ''sitemap'' \<and> val \<noteq> []
                 then ((fst st) \<lparr> pr_sitemap_urls := pr_sitemap_urls (fst st) @ [val] \<rparr>, snd st)
                 else if name = ''user-agent'' then add_agent val st
                 else if name = ''allow'' \<or> name = ''disallow'' then add_rule (name = ''allow'') val st
                 else st))"

definition parse :: "string \<Rightarrow> parsed_robots" where
  "parse source =
     (let (parsed, current) =
            foldl parse_line (\<lparr> pr_groups = [], pr_sitemap_urls = [] \<rparr>, None) (lines source)
      in case current of
           Some g \<Rightarrow> parsed \<lparr> pr_groups := pr_groups parsed @ [g] \<rparr>
         | None \<Rightarrow> parsed)"

section \<open>Matching a path\<close>

text \<open>
  \<^verbatim>\<open>wildcard_matches_prefix\<close> with suffixes for indices: \<open>p\<close> is \<^verbatim>\<open>pattern[pattern_index..]\<close>,
  \<open>v\<close> is \<^verbatim>\<open>value[value_index..]\<close>, and \<open>st\<close> holds the pattern after the last star and the value
  at \<^verbatim>\<open>wildcard_value_index\<close>.
\<close>

function wildcard_loop :: "string \<Rightarrow> string \<Rightarrow> (string \<times> string) option \<Rightarrow> bool \<Rightarrow> bool" where
  "wildcard_loop p v st anchored =
     (if v = [] then dropWhile (\<lambda>c. c = CHR ''*'') p = [] \<or> \<not> anchored
      else if p = [] then \<not> anchored
      else if hd p = CHR ''*'' then wildcard_loop (tl p) v (Some (tl p, v)) anchored
      else if hd p = hd v then wildcard_loop (tl p) (tl v) st anchored
      else case st of
        Some (after_star, v_star) \<Rightarrow>
          wildcard_loop after_star (tl v_star) (Some (after_star, tl v_star)) anchored
      | None \<Rightarrow> False)"
  by pat_completeness auto

definition star_rank :: "string \<times> string \<times> (string \<times> string) option \<times> bool \<Rightarrow> nat" where
  "star_rank s =
     (case s of (p, v, st, anchored) \<Rightarrow>
        (case st of None \<Rightarrow> 2
         | Some (ps, vs) \<Rightarrow> if length p \<le> length ps \<and> length v \<le> length vs then 0 else 1))"

definition star_pat :: "string \<times> string \<times> (string \<times> string) option \<times> bool \<Rightarrow> nat" where
  "star_pat s = (case s of (p, v, st, anchored) \<Rightarrow> (case st of None \<Rightarrow> 0 | Some (ps, vs) \<Rightarrow> length ps))"

definition star_val :: "string \<times> string \<times> (string \<times> string) option \<times> bool \<Rightarrow> nat" where
  "star_val s = (case s of (p, v, st, anchored) \<Rightarrow> (case st of None \<Rightarrow> 0 | Some (ps, vs) \<Rightarrow> length vs))"

termination wildcard_loop
proof (relation "measures [star_rank, star_pat, star_val, \<lambda>(p, v, st, anchored). length p + length v]",
    simp, goal_cases)
  case (1 p v st anchored)
  then show ?case
    by (cases p) (auto simp: star_rank_def star_pat_def split: option.splits)
next
  case (2 p v st anchored)
  then show ?case
    by (cases p; cases v) (auto simp: star_rank_def star_pat_def star_val_def split: option.splits)
next
  case (3 p v st anchored x after_star v_star)
  then show ?case
    by (cases v; cases v_star) (auto simp: star_rank_def star_pat_def star_val_def)
qed

declare wildcard_loop.simps [simp del]

definition wildcard_matches_prefix :: "string \<Rightarrow> string \<Rightarrow> bool \<Rightarrow> bool" where
  "wildcard_matches_prefix pattern val anchored = wildcard_loop pattern val None anchored"

definition rule_matches :: "string \<Rightarrow> string \<Rightarrow> bool" where
  "rule_matches path rule =
     (case strip_suffix ''$'' rule of
        Some pattern \<Rightarrow> wildcard_matches_prefix pattern path True
      | None \<Rightarrow> wildcard_matches_prefix rule path False)"

section \<open>The deciding rule\<close>

fun max_opt :: "nat list \<Rightarrow> nat option" where
  "max_opt [] = None"
| "max_opt (x # xs) = (case max_opt xs of None \<Rightarrow> Some x | Some m \<Rightarrow> Some (max x m))"

definition agent_match :: "string \<Rightarrow> nat option" where
  "agent_match agent =
     (if agent = ''*'' then Some 0
      else if contains USER_AGENT agent then Some (length agent) else None)"

definition group_agent_match :: "group \<Rightarrow> nat option" where
  "group_agent_match g = max_opt (List.map_filter agent_match (g_agents g))"

definition specificity :: "rule \<Rightarrow> nat" where
  "specificity r = length (filter (\<lambda>c. c \<noteq> CHR ''*'') (r_path r))"

definition better :: "rule \<Rightarrow> (nat \<times> rule) option \<Rightarrow> bool" where
  "better r selected =
     (case selected of None \<Rightarrow> True
      | Some (current, s) \<Rightarrow> specificity r > current \<or> (specificity r = current \<and> r_allow r \<and> \<not> r_allow s))"

definition select_rule :: "string \<Rightarrow> (nat \<times> rule) option \<Rightarrow> rule \<Rightarrow> (nat \<times> rule) option" where
  "select_rule path selected r =
     (if \<not> rule_matches path (r_path r) then selected
      else if better r selected then Some (specificity r, r) else selected)"

definition matching_rule :: "string \<Rightarrow> group list \<Rightarrow> rule option" where
  "matching_rule path groups =
     (case max_opt (List.map_filter group_agent_match groups) of
        None \<Rightarrow> None
      | Some best \<Rightarrow>
          map_option snd
            (foldl (\<lambda>selected g. foldl (select_rule path) selected (g_rules g)) None
              (filter (\<lambda>g. group_agent_match g = Some best) groups)))"

section \<open>Every parsed group is well formed\<close>

definition group_ok :: "group \<Rightarrow> bool" where
  "group_ok g \<longleftrightarrow> g_agents g \<noteq> [] \<and> (\<forall>a \<in> set (g_agents g). to_lower a = a)
     \<and> (\<forall>r \<in> set (g_rules g). r_path r \<noteq> [] \<and> CHR ''#'' \<notin> set (r_path r))"

definition state_ok :: "parse_state \<Rightarrow> bool" where
  "state_ok st \<longleftrightarrow> (\<forall>g \<in> set (pr_groups (fst st)). group_ok g)
     \<and> (case snd st of Some g \<Rightarrow> group_ok g | None \<Rightarrow> True)
     \<and> (\<forall>s \<in> set (pr_sitemap_urls (fst st)). s \<noteq> [] \<and> CHR ''#'' \<notin> set s)"

lemma add_agent_ok: "state_ok st \<Longrightarrow> state_ok (add_agent a st)"
  by (cases st; cases "snd st") (auto simp: add_agent_def state_ok_def group_ok_def)

lemma add_rule_ok: "state_ok st \<Longrightarrow> CHR ''#'' \<notin> set path \<Longrightarrow> state_ok (add_rule allow path st)"
  by (cases st; cases "snd st") (auto simp: add_rule_def state_ok_def group_ok_def)

lemma add_sitemap_ok:
  "state_ok st \<Longrightarrow> u \<noteq> [] \<Longrightarrow> CHR ''#'' \<notin> set u \<Longrightarrow>
   state_ok ((fst st) \<lparr> pr_sitemap_urls := pr_sitemap_urls (fst st) @ [u] \<rparr>, snd st)"
  by (cases "snd st") (auto simp: state_ok_def)

lemma line_no_hash: "CHR ''#'' \<notin> set (trim (hd (split_on (CHR ''#'') l)))"
  using set_trim[of "hd (split_on (CHR ''#'') l)"] split_on_no_sep[of "hd (split_on (CHR ''#'') l)" "CHR ''#''" l]
  by auto

lemma parse_line_ok: "state_ok st \<Longrightarrow> state_ok (parse_line st l)"
proof -
  assume st: "state_ok st"
  define line where "line = trim (hd (split_on (CHR ''#'') l))"
  have nh: "CHR ''#'' \<notin> set line" unfolding line_def by (rule line_no_hash)
  show ?thesis
  proof (cases "line = [] \<or> split_once (CHR '':'') line = None")
    case True
    then show ?thesis using st by (auto simp: parse_line_def Let_def line_def[symmetric])
  next
    case False
    then obtain n v where nv: "split_once (CHR '':'') line = Some (n, v)" by auto
    then have "CHR ''#'' \<notin> set v" using nh by (auto simp: split_once_Some_iff)
    then have v: "CHR ''#'' \<notin> set (trim v)" using set_trim by blast
    from False nv have e: "parse_line st l =
        (let name = to_lower (trim n); val = trim v
              in if name = ''sitemap'' \<and> val \<noteq> []
                 then ((fst st) \<lparr> pr_sitemap_urls := pr_sitemap_urls (fst st) @ [val] \<rparr>, snd st)
                 else if name = ''user-agent'' then add_agent val st
                 else if name = ''allow'' \<or> name = ''disallow'' then add_rule (name = ''allow'') val st
                 else st)"
      by (simp add: parse_line_def Let_def line_def[symmetric])
    show ?thesis unfolding e Let_def using st v
      by (simp add: add_agent_ok add_rule_ok add_sitemap_ok)
  qed
qed

lemma parse_fold_ok: "state_ok st \<Longrightarrow> state_ok (foldl parse_line st ls)"
  by (induction ls arbitrary: st) (auto simp: parse_line_ok)

text \<open>
  Every group that the parser produces can be applied: it names at least one user agent,
  in lowercase, and each of its rules has a non-empty path without a comment sign; rules that
  precede every user-agent line and rules with an empty value leave no trace.
\<close>

theorem parse_groups_wellformed:
  "\<forall>g \<in> set (pr_groups (parse source)). g_agents g \<noteq> [] \<and> (\<forall>a \<in> set (g_agents g). to_lower a = a)
     \<and> (\<forall>r \<in> set (g_rules g). r_path r \<noteq> [] \<and> CHR ''#'' \<notin> set (r_path r))"
proof -
  obtain parsed current where st:
    "foldl parse_line (\<lparr> pr_groups = [], pr_sitemap_urls = [] \<rparr>, None) (lines source) = (parsed, current)"
    by fastforce
  have "state_ok (\<lparr> pr_groups = [], pr_sitemap_urls = [] \<rparr>, None)" by (simp add: state_ok_def)
  from parse_fold_ok[OF this, of "lines source"]
  have "\<forall>g \<in> set (pr_groups (parse source)). group_ok g"
    unfolding st by (cases current) (auto simp: parse_def st state_ok_def)
  then show ?thesis by (simp add: group_ok_def)
qed

theorem parse_groups_wellformed_witness:
  "\<exists>g. pr_groups (parse (''Allow:/z'' @ [CHR 0x0A] @ ''User-Agent:BOT'' @ [CHR 0x0A] @ ''Disallow:/a #b'')) = [g]
     \<and> g_agents g = [''bot''] \<and> g_rules g = [\<lparr> r_allow = False, r_path = ''/a'' \<rparr>]
     \<and> to_lower ''bot'' = ''bot'' \<and> CHR ''#'' \<notin> set ''/a''"
proof -
  let ?src = "''Allow:/z'' @ [CHR 0x0A] @ ''User-Agent:BOT'' @ [CHR 0x0A] @ ''Disallow:/a #b''"
  have p: "pr_groups (parse ?src) = [\<lparr> g_agents = [''bot''], g_rules = [\<lparr> r_allow = False, r_path = ''/a'' \<rparr>] \<rparr>]"
    by code_simp
  from parse_groups_wellformed[of ?src] show ?thesis unfolding p by simp
qed

section \<open>Patterns\<close>

text \<open>The meaning of a pattern: a star stands for any text, everything else for itself.\<close>

fun glob :: "string \<Rightarrow> string \<Rightarrow> bool" where
  "glob [] v \<longleftrightarrow> v = []"
| "glob (q # p) [] \<longleftrightarrow> q = CHR ''*'' \<and> glob p []"
| "glob (q # p) (c # v) \<longleftrightarrow>
     (if q = CHR ''*'' then glob p (c # v) \<or> glob (q # p) v else q = c \<and> glob p v)"

definition glob_prefix :: "string \<Rightarrow> string \<Rightarrow> bool" where
  "glob_prefix p v \<longleftrightarrow> (\<exists>a b. v = a @ b \<and> glob p a)"

lemma glob_star: "glob (CHR ''*'' # p) v \<longleftrightarrow> (\<exists>x y. v = x @ y \<and> glob p y)"
proof (induction v)
  case (Cons c v)
  have "(\<exists>x y. c # v = x @ y \<and> glob p y) \<longleftrightarrow> glob p (c # v) \<or> (\<exists>x y. v = x @ y \<and> glob p y)"
    by (auto simp: Cons_eq_append_conv)
  with Cons show ?case by simp
qed auto

lemma glob_lit: "CHR ''*'' \<notin> set l \<Longrightarrow> glob (l @ p) v \<longleftrightarrow> (\<exists>y. v = l @ y \<and> glob p y)"
proof (induction l arbitrary: v)
  case (Cons q l)
  then show ?case by (cases v) auto
qed simp

lemma glob_stars: "glob p [] \<longleftrightarrow> dropWhile (\<lambda>c. c = CHR ''*'') p = []"
  by (induction p) auto

lemma glob_star_extend: "glob (CHR ''*'' # p) v \<Longrightarrow> glob (CHR ''*'' # p) (x @ v)"
  by (metis append_assoc glob_star)

lemma wildcard_sound:
  "wildcard_loop p v st True \<Longrightarrow>
     glob p v \<or> (case st of Some (ps, vs) \<Rightarrow> glob (CHR ''*'' # ps) vs | None \<Rightarrow> False)"
proof (induction p v st True rule: wildcard_loop.induct)
  case (1 p v st)
  show ?case
  proof (cases "v = [] \<or> p = []")
    case True
    with "1.prems" show ?thesis
      by (subst (asm) wildcard_loop.simps) (auto simp: glob_stars split: if_splits)
  next
    case False
    then obtain q ps c cs where pv: "p = q # ps" "v = c # cs" by (metis neq_Nil_conv)
    show ?thesis
    proof (cases "q = CHR ''*''")
      case True
      with "1.prems" pv have "wildcard_loop ps v (Some (ps, v)) True"
        by (subst (asm) wildcard_loop.simps) simp
      with "1.hyps"(1) pv True have "glob ps v \<or> glob (CHR ''*'' # ps) v" by auto
      then have "glob p v" using pv True by (metis append_Nil glob_star)
      then show ?thesis ..
    next
      case ns: False
      show ?thesis
      proof (cases "q = c")
        case True
        with "1.prems" pv ns have "wildcard_loop ps cs st True"
          by (subst (asm) wildcard_loop.simps) simp
        with "1.hyps"(2) pv True ns show ?thesis by auto
      next
        case False
        with "1.prems" pv ns obtain ps' vs where st: "st = Some (ps', vs)"
          and w: "wildcard_loop ps' (tl vs) (Some (ps', tl vs)) True"
          by (subst (asm) wildcard_loop.simps) (auto split: option.splits)
        with "1.hyps"(3) pv False ns have "glob ps' (tl vs) \<or> glob (CHR ''*'' # ps') (tl vs)" by auto
        then have "glob (CHR ''*'' # ps') (tl vs)" by (metis append_Nil glob_star)
        then have "glob (CHR ''*'' # ps') vs"
          by (cases vs) auto
        with st show ?thesis by simp
      qed
    qed
  qed
qed

lemma glob_prefix_star: "glob_prefix (CHR ''*'' # p) v \<longleftrightarrow> (\<exists>x y. v = x @ y \<and> glob_prefix p y)"
  unfolding glob_prefix_def glob_star by (metis append_assoc)

lemma glob_prefix_lit:
  "CHR ''*'' \<notin> set l \<Longrightarrow> glob_prefix (l @ p) v \<longleftrightarrow> (\<exists>y. v = l @ y \<and> glob_prefix p y)"
  unfolding glob_prefix_def glob_lit[of l p] by (metis append_assoc)

lemma suffix_of_same:
  assumes "seg @ v = x @ seg @ y"
  shows "\<exists>z. v = z @ y"
proof -
  have l: "length y \<le> length v" using assms by (metis (no_types) add_le_cancel_left le_add2 length_append)
  have "drop (length (seg @ v) - length y) (seg @ v) = y" by (simp add: assms)
  then have "drop (length v - length y) v = y" using l by (simp add: drop_append)
  then show ?thesis by (metis append_take_drop_id)
qed

definition star_inv :: "string \<Rightarrow> string \<Rightarrow> (string \<times> string) option \<Rightarrow> bool" where
  "star_inv p v st =
     (case st of None \<Rightarrow> True
      | Some (ps, vs) \<Rightarrow> \<exists>seg. ps = seg @ p \<and> vs = seg @ v \<and> CHR ''*'' \<notin> set seg)"

definition star_goal :: "string \<Rightarrow> string \<Rightarrow> (string \<times> string) option \<Rightarrow> bool" where
  "star_goal p v st =
     (case st of None \<Rightarrow> glob_prefix p v | Some (ps, vs) \<Rightarrow> glob_prefix (CHR ''*'' # ps) vs)"

lemma star_goal_star:
  assumes "star_inv (CHR ''*'' # p) v st" and "star_goal (CHR ''*'' # p) v st"
  shows "glob_prefix (CHR ''*'' # p) v"
proof (cases st)
  case None
  with assms(2) show ?thesis by (simp add: star_goal_def)
next
  case (Some q)
  obtain ps vs where q: "q = (ps, vs)" by (cases q)
  obtain seg where seg: "ps = seg @ CHR ''*'' # p" "vs = seg @ v" "CHR ''*'' \<notin> set seg"
    using assms(1) Some q by (auto simp: star_inv_def)
  have "glob_prefix (CHR ''*'' # ps) vs" using assms(2) Some q by (simp add: star_goal_def)
  then obtain x y where xy: "vs = x @ y" "glob_prefix (seg @ CHR ''*'' # p) y"
    unfolding glob_prefix_star seg(1) by blast
  then obtain y' where y': "y = seg @ y'" "glob_prefix (CHR ''*'' # p) y'"
    using glob_prefix_lit[OF seg(3)] by blast
  with seg(2) xy(1) have "seg @ v = x @ seg @ y'" by simp
  from suffix_of_same[OF this] obtain z where "v = z @ y'" by blast
  with y'(2) show ?thesis unfolding glob_prefix_star by (metis append_assoc)
qed

lemma star_goal_retry:
  assumes "star_inv (q # p) (c # v) (Some (ps, vs))" and "star_goal (q # p) (c # v) (Some (ps, vs))"
    and "q \<noteq> c" and "q \<noteq> CHR ''*''"
  shows "glob_prefix (CHR ''*'' # ps) (tl vs)"
proof -
  obtain seg where seg: "ps = seg @ q # p" "vs = seg @ c # v" "CHR ''*'' \<notin> set seg"
    using assms(1) by (auto simp: star_inv_def)
  obtain x y where xy: "vs = x @ y" "glob_prefix ps y"
    using assms(2) by (auto simp: star_goal_def glob_prefix_star)
  have lit: "CHR ''*'' \<notin> set (seg @ [q])" using seg(3) assms(4) by auto
  obtain y' where y': "y = seg @ q # y'"
    using glob_prefix_lit[OF lit, of p y] xy(2) by (auto simp: seg(1))
  have "x \<noteq> []" using seg(2) xy(1) y' assms(3) by auto
  then obtain a x' where "x = a # x'" by (cases x) auto
  with xy show ?thesis unfolding glob_prefix_star by (metis append_Cons list.sel(3))
qed

lemma wildcard_complete:
  "star_inv p v st \<Longrightarrow> star_goal p v st \<Longrightarrow> wildcard_loop p v st False"
proof (induction p v st False rule: wildcard_loop.induct)
  case (1 p v st)
  show ?case
  proof (cases "v = [] \<or> p = []")
    case True
    then show ?thesis by (subst wildcard_loop.simps) auto
  next
    case False
    then obtain q ps c cs where pv: "p = q # ps" "v = c # cs" by (metis neq_Nil_conv)
    show ?thesis
    proof (cases "q = CHR ''*''")
      case True
      have "glob_prefix (CHR ''*'' # ps) v" using "1.prems" pv True star_goal_star by simp
      then have "wildcard_loop ps v (Some (ps, v)) False"
        using "1.hyps"(1) pv True by (simp add: star_inv_def star_goal_def)
      with pv True show ?thesis by (subst wildcard_loop.simps) simp
    next
      case ns: False
      show ?thesis
      proof (cases "q = c")
        case True
        have "star_inv ps cs st"
          using "1.prems"(1) pv ns True
          by (auto simp: star_inv_def split: option.splits)
        moreover have "star_goal ps cs st"
          using "1.prems"(2) pv ns True glob_prefix_lit[of "[c]" ps v]
          by (auto simp: star_goal_def split: option.splits)
        ultimately have "wildcard_loop ps cs st False" using "1.hyps"(2) pv True ns by simp
        with pv True ns show ?thesis by (subst wildcard_loop.simps) simp
      next
        case False
        have "st \<noteq> None"
          using "1.prems"(2) pv ns False glob_prefix_lit[of "[q]" ps v]
          by (cases st) (auto simp: star_goal_def)
        then obtain ps' vs where st: "st = Some (ps', vs)" by auto
        have "glob_prefix (CHR ''*'' # ps') (tl vs)"
          using star_goal_retry "1.prems" pv ns False st by simp
        then have "wildcard_loop ps' (tl vs) (Some (ps', tl vs)) False"
          using "1.hyps"(3) pv False ns st by (simp add: star_inv_def star_goal_def)
        with pv False ns st show ?thesis by (subst wildcard_loop.simps) simp
      qed
    qed
  qed
qed

lemma wildcard_star_free:
  "CHR ''*'' \<notin> set p \<Longrightarrow> wildcard_loop p v None anchored \<longleftrightarrow>
     (if anchored then p = v else (\<exists>r. v = p @ r) \<or> (\<exists>r. p = v @ r))"
proof (induction p arbitrary: v)
  case Nil
  show ?case by (cases v) (auto simp: wildcard_loop.simps)
next
  case (Cons q p)
  show ?case
  proof (cases v)
    case Nil
    with Cons.prems show ?thesis by (auto simp: wildcard_loop.simps)
  next
    case v: (Cons c cs)
    with Cons show ?thesis by (subst wildcard_loop.simps) auto
  qed
qed

text \<open>
  The matcher against the meaning of patterns, where a star stands for any text. An
  unanchored rule whose pattern matches a prefix of the path is always found, with any number of
  stars; an anchored rule matches only paths that its pattern matches as a whole; an anchored
  rule without stars matches exactly its own path; and an unanchored rule without stars matches
  exactly the paths it is a prefix of, and the paths that are a prefix of it.
\<close>

theorem rule_matches_meaning:
  "(strip_suffix ''$'' rule = None \<and> glob_prefix rule path \<longrightarrow> rule_matches path rule)
   \<and> (strip_suffix ''$'' rule = Some pattern \<and> rule_matches path rule \<longrightarrow> glob pattern path)
   \<and> (strip_suffix ''$'' rule = Some pattern \<and> CHR ''*'' \<notin> set pattern
        \<longrightarrow> (rule_matches path rule \<longleftrightarrow> path = pattern))
   \<and> (strip_suffix ''$'' rule = None \<and> CHR ''*'' \<notin> set rule
        \<longrightarrow> (rule_matches path rule \<longleftrightarrow> (\<exists>r. path = rule @ r) \<or> (\<exists>r. rule = path @ r)))"
  using wildcard_complete[of rule path None] wildcard_sound[of pattern path None]
    wildcard_star_free[of pattern path True] wildcard_star_free[of rule path False]
  by (auto simp: rule_matches_def wildcard_matches_prefix_def star_inv_def star_goal_def)

theorem rule_matches_meaning_witness:
  "rule_matches ''/a/b.php'' ''/*.php'' \<and> \<not> rule_matches ''/ab'' ''/a$''"
  using rule_matches_meaning[of "''/*.php''" "''/a/b.php''" "[]"]
    rule_matches_meaning[of "''/a$''" "''/ab''" "''/a''"]
  by (auto simp: glob_prefix_def strip_suffix_def intro: exI[of _ "''/a/b.php''"])

text \<open>
  Two deviations from the standard: a rule longer than the path matches it, and an anchored
  pattern is not retried after its last star.
\<close>

lemma rule_matches_longer_rule: "rule_matches ''/'' ''/admin/secret''"
  by code_simp

lemma rule_matches_anchored_no_retry:
  "\<not> rule_matches ''/a.php.php'' ''/*.php$'' \<and> glob ''/*.php'' ''/a.php.php''"
  by code_simp

section \<open>The deciding rule is the most specific one\<close>

lemma max_opt_None: "max_opt xs = None \<longleftrightarrow> xs = []"
  by (cases xs) (auto split: option.splits)

lemma max_opt_Some: "max_opt xs = Some m \<Longrightarrow> m \<in> set xs \<and> (\<forall>x \<in> set xs. x \<le> m)"
  by (induction xs arbitrary: m) (auto split: option.splits simp: max_def max_opt_None)

text \<open>What the selection loop knows: \<open>S\<close> is the set of rules seen so far.\<close>

definition selected_ok :: "string \<Rightarrow> rule set \<Rightarrow> (nat \<times> rule) option \<Rightarrow> bool" where
  "selected_ok path S sel =
     (case sel of
        None \<Rightarrow> \<forall>r \<in> S. \<not> rule_matches path (r_path r)
      | Some (n, s) \<Rightarrow> n = specificity s \<and> s \<in> S \<and> rule_matches path (r_path s)
          \<and> (\<forall>r \<in> S. rule_matches path (r_path r) \<longrightarrow>
               specificity r \<le> specificity s
               \<and> (specificity r = specificity s \<longrightarrow> r_allow r \<longrightarrow> r_allow s)))"

lemma select_rule_ok: "selected_ok path S sel \<Longrightarrow> selected_ok path (insert r S) (select_rule path sel r)"
  by (cases sel) (auto simp: selected_ok_def select_rule_def better_def)

lemma select_rules_ok:
  "selected_ok path S sel \<Longrightarrow> selected_ok path (S \<union> set rs) (foldl (select_rule path) sel rs)"
proof (induction rs arbitrary: S sel)
  case (Cons r rs)
  from Cons.IH[OF select_rule_ok[OF Cons.prems, of r]] show ?case by simp
qed simp

lemma select_groups_ok:
  "selected_ok path S sel \<Longrightarrow>
   selected_ok path (S \<union> (\<Union>g \<in> set gs. set (g_rules g)))
     (foldl (\<lambda>selected g. foldl (select_rule path) selected (g_rules g)) sel gs)"
proof (induction gs arbitrary: S sel)
  case (Cons g gs)
  from Cons.IH[OF select_rules_ok[OF Cons.prems, of "g_rules g"]] show ?case by (simp add: Un_assoc)
qed simp

definition applicable_rules :: "group list \<Rightarrow> rule set" where
  "applicable_rules groups =
     (case max_opt (List.map_filter group_agent_match groups) of
        None \<Rightarrow> {}
      | Some best \<Rightarrow> \<Union>g \<in> {g \<in> set groups. group_agent_match g = Some best}. set (g_rules g))"

lemma matching_rule_ok:
  "case matching_rule path groups of
     None \<Rightarrow> \<forall>r \<in> applicable_rules groups. \<not> rule_matches path (r_path r)
   | Some s \<Rightarrow> s \<in> applicable_rules groups \<and> rule_matches path (r_path s)
       \<and> (\<forall>r \<in> applicable_rules groups. rule_matches path (r_path r) \<longrightarrow>
            specificity r \<le> specificity s
            \<and> (specificity r = specificity s \<longrightarrow> r_allow r \<longrightarrow> r_allow s))"
proof (cases "max_opt (List.map_filter group_agent_match groups)")
  case None
  then show ?thesis by (simp add: matching_rule_def applicable_rules_def)
next
  case (Some best)
  let ?gs = "filter (\<lambda>g. group_agent_match g = Some best) groups"
  have a: "applicable_rules groups = {} \<union> (\<Union>g \<in> set ?gs. set (g_rules g))"
    by (auto simp: applicable_rules_def Some)
  have "selected_ok path {} None" by (simp add: selected_ok_def)
  from select_groups_ok[OF this, of ?gs]
  have "selected_ok path (applicable_rules groups)
      (foldl (\<lambda>selected g. foldl (select_rule path) selected (g_rules g)) None ?gs)"
    unfolding a .
  then show ?thesis
    by (auto simp: matching_rule_def Some selected_ok_def split: option.splits)
qed

text \<open>
  The verdict on a path. Only the groups that match the crawler's name best apply. If none
  of their rules matches the path there is no verdict; otherwise the verdict is a matching rule
  of greatest specificity, and an allow rule wins over a disallow rule of the same specificity.
\<close>

theorem matching_rule_most_specific:
  "(matching_rule path groups = None \<longleftrightarrow> (\<forall>r \<in> applicable_rules groups. \<not> rule_matches path (r_path r)))
   \<and> (\<forall>s. matching_rule path groups = Some s \<longrightarrow>
        s \<in> applicable_rules groups \<and> rule_matches path (r_path s)
        \<and> (\<forall>r \<in> applicable_rules groups. rule_matches path (r_path r) \<longrightarrow>
             specificity r \<le> specificity s
             \<and> (specificity r = specificity s \<longrightarrow> r_allow r \<longrightarrow> r_allow s)))"
  using matching_rule_ok[of groups path] by (auto split: option.splits)

definition demo_groups :: "group list" where
  "demo_groups =
     [\<lparr> g_agents = [''*''], g_rules = [\<lparr> r_allow = False, r_path = ''/'' \<rparr>] \<rparr>,
      \<lparr> g_agents = [''basecrawl''], g_rules = [\<lparr> r_allow = False, r_path = ''/private'' \<rparr>,
          \<lparr> r_allow = True, r_path = ''/private/ok'' \<rparr>] \<rparr>]"

theorem matching_rule_most_specific_witness:
  "matching_rule ''/private/ok/x'' demo_groups = Some \<lparr> r_allow = True, r_path = ''/private/ok'' \<rparr>
   \<and> \<lparr> r_allow = True, r_path = ''/private/ok'' \<rparr> \<in> applicable_rules demo_groups"
proof -
  have m: "matching_rule ''/private/ok/x'' demo_groups = Some \<lparr> r_allow = True, r_path = ''/private/ok'' \<rparr>"
    by code_simp
  with matching_rule_most_specific[of "''/private/ok/x''" demo_groups] show ?thesis by blast
qed

end
