(* ===== verification/Robots.thy ===== *)
theory Robots
  imports Fetch Charset Robots_Rules
begin

text \<open>
  \<^verbatim>\<open>basecrawl-core/src/robots.rs\<close> on the network: the consultation of an origin's policy, the
  policy that guards every document hop of a scrape, and sitemap discovery. The XML reader is the
  parameter \<open>xml\<close>: the events it yields before it ends or fails.
\<close>

definition MAX_SITEMAPS :: nat where
  "MAX_SITEMAPS = 32"

definition MAX_SITEMAP_URLS :: nat where
  "MAX_SITEMAP_URLS = 10000"

section \<open>Policies and decisions\<close>

datatype robots_policy = Enforce | Observe | Ignore

fun policy_str :: "robots_policy \<Rightarrow> string" where
  "policy_str Enforce = ''enforce''"
| "policy_str Observe = ''observe''"
| "policy_str Ignore = ''ignore''"

definition policy_from_str :: "string \<Rightarrow> (string, robots_policy) result" where
  "policy_from_str s =
     (let v = to_lower s
      in if v = ''enforce'' then Inr Enforce
         else if v = ''observe'' then Inr Observe
         else if v = ''ignore'' then Inr Ignore
         else Inl ''must be one of: enforce, observe, ignore'')"

record matched_rule =
  mr_directive :: string
  mr_path :: string

record 'u robots_decision =
  rd_policy :: robots_policy
  rd_fetched :: bool
  rd_status_code :: "nat option"
  rd_robots_url :: string
  rd_disposition :: string
  rd_matched_rule :: "matched_rule option"
  rd_sitemap_urls :: "'u list"

definition denies_fetch :: "'u robots_decision \<Rightarrow> bool" where
  "denies_fetch d \<longleftrightarrow> rd_policy d = Enforce \<and> rd_disposition d = ''denied''"

definition decision_fields :: "'u robots_decision \<Rightarrow> (string \<times> json) list" where
  "decision_fields d =
     [(''policy'', JStr (policy_str (rd_policy d))), (''fetched'', JBool (rd_fetched d)),
      (''statusCode'', jopt (\<lambda>n. JNum (int n)) (rd_status_code d)),
      (''robotsUrl'', JStr (rd_robots_url d)), (''disposition'', JStr (rd_disposition d)),
      (''matched_rule'', jopt (\<lambda>r. jobj [(''directive'', JStr (mr_directive r)), (''path'', JStr (mr_path r))])
         (rd_matched_rule d))]"

definition decision_to_value :: "'u robots_decision \<Rightarrow> json" where
  "decision_to_value d = jobj (decision_fields d)"

definition unavailable_decision ::
    "'u url_ops \<Rightarrow> robots_policy \<Rightarrow> 'u \<Rightarrow> bool \<Rightarrow> nat option \<Rightarrow> 'u robots_decision" where
  "unavailable_decision U policy robots was_fetched status =
     \<lparr> rd_policy = policy, rd_fetched = was_fetched, rd_status_code = status,
       rd_robots_url = url_string U robots, rd_disposition = ''unavailable'',
       rd_matched_rule = None, rd_sitemap_urls = [] \<rparr>"

definition evaluate_robots ::
    "'u url_ops \<Rightarrow> 'u \<Rightarrow> 'u \<Rightarrow> robots_policy \<Rightarrow> nat \<Rightarrow> string \<Rightarrow> 'u robots_decision" where
  "evaluate_robots U url robots policy status source =
     (let parsed = parse source;
          matched = matching_rule (url_path U url) (pr_groups parsed)
      in \<lparr> rd_policy = policy, rd_fetched = True, rd_status_code = Some status,
           rd_robots_url = url_string U robots,
           rd_disposition = (case matched of None \<Rightarrow> ''unmatched''
              | Some r \<Rightarrow> if r_allow r then ''allowed'' else ''denied''),
           rd_matched_rule = map_option (\<lambda>r. \<lparr> mr_directive = (if r_allow r then ''allow'' else ''disallow''),
              mr_path = r_path r \<rparr>) matched,
           rd_sitemap_urls =
             filter (is_http U) (List.map_filter (url_join U robots) (pr_sitemap_urls parsed)) \<rparr>)"

definition success_status :: "nat \<Rightarrow> bool" where
  "success_status n \<longleftrightarrow> 200 \<le> n \<and> n < 300"

text \<open>The pattern \<^verbatim>\<open>Err(Error::Timeout(message))\<close>.\<close>

definition timeout_of :: "core_error \<Rightarrow> string option" where
  "timeout_of e = (case e of Timeout m \<Rightarrow> Some m | _ \<Rightarrow> None)"

definition consult ::
    "crypto_ops \<Rightarrow> 'u url_ops \<Rightarrow> ('u, 'p, 't, 'w, 'r) net \<Rightarrow> 'e charset_ops \<Rightarrow> 'u \<Rightarrow> ('u, 'p) fetch_config
     \<Rightarrow> robots_policy \<Rightarrow> 'w \<Rightarrow> ('u robots_decision, 'w) step" where
  "consult ops U N E url cfg policy w =
     (let robots = robots_url U url
      in if policy = Ignore then
           Some (Inr \<lparr> rd_policy = policy, rd_fetched = False, rd_status_code = None,
                       rd_robots_url = url_string U robots, rd_disposition = ''ignored'',
                       rd_matched_rule = None, rd_sitemap_urls = [] \<rparr>, w)
         else case fetch_until ops U N robots cfg w of
           None \<Rightarrow> None
         | Some (Inl e, w') \<Rightarrow>
             (case timeout_of e of
                Some m \<Rightarrow> Some (Inl (Timeout m), w')
              | None \<Rightarrow> Some (Inr (unavailable_decision U policy robots False None), w'))
         | Some (Inr f, w') \<Rightarrow>
             if \<not> success_status (f_status_code f)
             then Some (Inr (unavailable_decision U policy robots True (Some (f_status_code f))), w')
             else Some (Inr (evaluate_robots U url robots policy (f_status_code f)
                        (decode_body E (f_body f) (f_content_type f) False)), w'))"

section \<open>The policy of a scrape's document hops\<close>

record 'u document_hop =
  dh_target_url :: string
  dh_decision :: "'u robots_decision"

definition hop_to_value :: "'u document_hop \<Rightarrow> json" where
  "hop_to_value h = jobj (decision_fields (dh_decision h) @ [(''targetUrl'', JStr (dh_target_url h))])"

text \<open>\<^verbatim>\<open>DocumentPolicy::check\<close>; the second component of the state is the shared list of hops.\<close>

definition document_check ::
    "crypto_ops \<Rightarrow> 'u url_ops \<Rightarrow> ('u, 'p, 't, 'w, 'r) net \<Rightarrow> 'e charset_ops \<Rightarrow> ('u, 'p) fetch_config
     \<Rightarrow> robots_policy \<Rightarrow> 'u \<Rightarrow> 'w \<times> 'u document_hop list \<Rightarrow> (unit, 'w \<times> 'u document_hop list) step" where
  "document_check ops U N E cfg policy target s =
     (case consult ops U N E target cfg policy (fst s) of
        None \<Rightarrow> None
      | Some (Inl e, w') \<Rightarrow> Some (Inl e, (w', snd s))
      | Some (Inr d, w') \<Rightarrow>
          (let s' = (w', snd s @ [\<lparr> dh_target_url = url_string U target, dh_decision = d \<rparr>])
           in if denies_fetch d
              then Some (Inl (RobotsDenied (hop_to_value
                     \<lparr> dh_target_url = url_string U target, dh_decision = d \<rparr>)), s')
              else Some (Inr (), s')))"

definition initial_decision :: "'u document_hop list \<Rightarrow> 'u robots_decision option" where
  "initial_decision hops = (case hops of [] \<Rightarrow> None | h # _ \<Rightarrow> Some (dh_decision h))"

definition hops_value :: "'u document_hop list \<Rightarrow> json" where
  "hops_value hops = JArr (map hop_to_value hops)"

section \<open>Sitemaps\<close>

datatype xml_event =
    XStart string
  | XEnd string
  | XText "string option"
  | XCData "string option"
  | XOther

datatype sitemap_parent = InUrl | InSitemap

record 'u sitemap_document =
  sd_url_seeds :: "string list"
  sd_nested_sitemaps :: "'u list"

record 'u sitemap_state =
  ss_parent :: "sitemap_parent option"
  ss_in_loc :: bool
  ss_location :: string
  ss_result :: "'u sitemap_document"

definition local_name :: "string \<Rightarrow> string" where
  "local_name name = last (split_on (CHR '':'') name)"

definition finish_loc :: "'u url_ops \<Rightarrow> 'u \<Rightarrow> 'u sitemap_state \<Rightarrow> 'u sitemap_document" where
  "finish_loc U base st =
     (case url_join U base (trim (ss_location st)) of
        None \<Rightarrow> ss_result st
      | Some url \<Rightarrow>
          if is_http U url then
            (case ss_parent st of
               Some InUrl \<Rightarrow> (ss_result st) \<lparr> sd_url_seeds := sd_url_seeds (ss_result st) @ [url_string U url] \<rparr>
             | Some InSitemap \<Rightarrow>
                 (ss_result st) \<lparr> sd_nested_sitemaps := sd_nested_sitemaps (ss_result st) @ [url] \<rparr>
             | None \<Rightarrow> ss_result st)
          else ss_result st)"

fun sitemap_event :: "'u url_ops \<Rightarrow> 'u \<Rightarrow> 'u sitemap_state \<Rightarrow> xml_event \<Rightarrow> 'u sitemap_state" where
  "sitemap_event U base st (XStart name) =
     (if local_name name = ''url'' then st \<lparr> ss_parent := Some InUrl \<rparr>
      else if local_name name = ''sitemap'' then st \<lparr> ss_parent := Some InSitemap \<rparr>
      else if local_name name = ''loc'' \<and> ss_parent st \<noteq> None
      then st \<lparr> ss_in_loc := True, ss_location := [] \<rparr>
      else st)"
| "sitemap_event U base st (XText t) =
     (case t of Some s \<Rightarrow> if ss_in_loc st then st \<lparr> ss_location := ss_location st @ s \<rparr> else st
      | None \<Rightarrow> st)"
| "sitemap_event U base st (XCData t) =
     (case t of Some s \<Rightarrow> if ss_in_loc st then st \<lparr> ss_location := ss_location st @ s \<rparr> else st
      | None \<Rightarrow> st)"
| "sitemap_event U base st (XEnd name) =
     (if local_name name = ''loc'' \<and> ss_in_loc st
      then st \<lparr> ss_result := finish_loc U base st, ss_in_loc := False \<rparr>
      else if local_name name = ''url'' \<or> local_name name = ''sitemap''
      then st \<lparr> ss_parent := None \<rparr>
      else st)"
| "sitemap_event U base st XOther = st"

definition parse_sitemap :: "'u url_ops \<Rightarrow> (string \<Rightarrow> xml_event list) \<Rightarrow> string \<Rightarrow> 'u \<Rightarrow> 'u sitemap_document" where
  "parse_sitemap U xml source base =
     ss_result (foldl (sitemap_event U base)
       \<lparr> ss_parent = None, ss_in_loc = False, ss_location = [],
         ss_result = \<lparr> sd_url_seeds = [], sd_nested_sitemaps = [] \<rparr> \<rparr> (xml source))"

text \<open>One sitemap of the queue: \<open>Inr None\<close> where the source goes on with the next one.\<close>

definition fetch_sitemap ::
    "crypto_ops \<Rightarrow> 'u url_ops \<Rightarrow> ('u, 'p, 't, 'w, 'r) net \<Rightarrow> 'e charset_ops \<Rightarrow> (string \<Rightarrow> xml_event list)
     \<Rightarrow> ('u, 'p) fetch_config \<Rightarrow> 'u \<Rightarrow> 'w \<Rightarrow> ('u sitemap_document option, 'w) step" where
  "fetch_sitemap ops U N E xml cfg url w =
     (case fetch_until ops U N url cfg w of
        None \<Rightarrow> None
      | Some (Inl e, w') \<Rightarrow>
          (case timeout_of e of
             Some m \<Rightarrow> Some (Inl (Timeout m), w')
           | None \<Rightarrow> Some (Inr None, w'))
      | Some (Inr f, w') \<Rightarrow>
          if \<not> success_status (f_status_code f) then Some (Inr None, w')
          else Some (Inr (Some (parse_sitemap U xml
                 (decode_body E (f_body f) (f_content_type f) False) url)), w'))"

text \<open>
  The seeds of one document; the flag says that the limit was reached, where the source returns.
  The set \<^verbatim>\<open>seen_seeds\<close> always holds the members of \<open>seeds\<close>.
\<close>

fun push_seeds :: "string list \<Rightarrow> string list \<Rightarrow> string list \<times> bool" where
  "push_seeds seeds [] = (seeds, False)"
| "push_seeds seeds (u # us) =
     (if length seeds \<ge> MAX_SITEMAP_URLS then (seeds, True)
      else push_seeds (if u \<in> set seeds then seeds else seeds @ [u]) us)"

function discover_loop ::
    "('u \<Rightarrow> 'w \<Rightarrow> ('u sitemap_document option, 'w) step) \<Rightarrow> 'u url_ops \<Rightarrow> 'u list \<Rightarrow> string list
     \<Rightarrow> string list \<Rightarrow> 'w \<Rightarrow> (string list, 'w) step" where
  "discover_loop get U queue seen seeds w =
     (if queue = [] then Some (Inr seeds, w)
      else if length seen \<ge> MAX_SITEMAPS \<or> \<not> is_http U (last queue) then Some (Inr seeds, w)
      else if url_string U (last queue) \<in> set seen
      then discover_loop get U (butlast queue) seen seeds w
      else case get (last queue) w of
        None \<Rightarrow> None
      | Some (Inl e, w') \<Rightarrow> Some (Inl e, w')
      | Some (Inr None, w') \<Rightarrow>
          discover_loop get U (butlast queue) (url_string U (last queue) # seen) seeds w'
      | Some (Inr (Some doc), w') \<Rightarrow>
          (case push_seeds seeds (sd_url_seeds doc) of
             (seeds', full) \<Rightarrow>
               if full then Some (Inr seeds', w')
               else discover_loop get U (butlast queue @ sd_nested_sitemaps doc)
                      (url_string U (last queue) # seen) seeds' w'))"
  by pat_completeness auto
termination
  by (relation "measures [\<lambda>(get, U, queue, seen, seeds, w). MAX_SITEMAPS - length seen,
        \<lambda>(get, U, queue, seen, seeds, w). length queue]") auto

declare discover_loop.simps [simp del]

definition discover_sitemap_urls ::
    "crypto_ops \<Rightarrow> 'u url_ops \<Rightarrow> ('u, 'p, 't, 'w, 'r) net \<Rightarrow> 'e charset_ops \<Rightarrow> (string \<Rightarrow> xml_event list)
     \<Rightarrow> 'u \<Rightarrow> ('u, 'p) fetch_config \<Rightarrow> 'u list \<Rightarrow> 'w \<Rightarrow> (string list, 'w) step" where
  "discover_sitemap_urls ops U N E xml target cfg robots_sitemaps w =
     discover_loop (fetch_sitemap ops U N E xml cfg) U
       (default_sitemap_url U target # robots_sitemaps) [] [] w"

section \<open>A document fetch under its policy\<close>

text \<open>
  The network acts on the first component of the state, the policy records its hops in the
  second. The consultations themselves go through the unguarded \<open>fetch_until\<close>.
\<close>

definition on_fst :: "('w \<Rightarrow> 'a \<times> 'w) \<Rightarrow> 'w \<times> 'h \<Rightarrow> 'a \<times> ('w \<times> 'h)" where
  "on_fst f s = (let (a, w') = f (fst s) in (a, (w', snd s)))"

definition lift_net :: "('u, 'p, 't, 'w, 'r) net \<Rightarrow> ('u, 'p, 't, 'w \<times> 'h, 'r) net" where
  "lift_net N =
     \<lparr> n_direct_connect = (\<lambda>host port. on_fst (n_direct_connect N host port)),
       n_proxy_connect = (\<lambda>q host port. on_fst (n_proxy_connect N q host port)),
       n_server_name_ok = n_server_name_ok N,
       n_handshake = (\<lambda>host i. on_fst (n_handshake N host i)),
       n_send = (\<lambda>req. on_fst (n_send N req)), n_codecs = n_codecs N,
       n_live = (\<lambda>s. n_live N (fst s)), n_httparse = n_httparse N, n_lossy = n_lossy N,
       n_pace = (\<lambda>u d. on_fst (n_pace N u d)), n_now = (\<lambda>s. n_now N (fst s)),
       n_no_tls = n_no_tls N, n_overflow_checks = n_overflow_checks N \<rparr>"

definition fetch_document ::
    "crypto_ops \<Rightarrow> 'u url_ops \<Rightarrow> ('u, 'p, 't, 'w, 'r) net \<Rightarrow> 'e charset_ops \<Rightarrow> 'u \<Rightarrow> ('u, 'p) fetch_config
     \<Rightarrow> robots_policy \<Rightarrow> 'w \<Rightarrow> ('t fetched, 'w \<times> 'u document_hop list) step" where
  "fetch_document ops U N E url cfg policy w =
     fetch_document_until ops U (lift_net N) (document_check ops U N E cfg policy) url cfg (w, [])"

section \<open>Properties of a consultation\<close>

lemma disposition_distinct:
  "\<not> denies_fetch (unavailable_decision U policy robots b st)"
  by (simp add: denies_fetch_def unavailable_decision_def)

lemma evaluate_denies:
  "denies_fetch (evaluate_robots U url robots policy st source) \<longleftrightarrow>
     policy = Enforce \<and>
     (\<exists>r. matching_rule (url_path U url) (pr_groups (parse source)) = Some r \<and> \<not> r_allow r)"
  by (auto simp: denies_fetch_def evaluate_robots_def Let_def split: option.splits if_splits)

text \<open>
  C6: A consultation stops a page only for a reason: the policy is \<open>Enforce\<close>, the origin's
  \<^verbatim>\<open>/robots.txt\<close> was fetched with a 2xx status, and the deciding rule of its text for the path of
  the URL is a disallow rule. Under \<open>Ignore\<close> nothing is fetched and the state is unchanged.
\<close>

theorem consult_denies_iff:
  "(consult ops U N E url cfg policy w = Some (Inr d, w') \<longrightarrow>
      (denies_fetch d \<longleftrightarrow> policy = Enforce \<and>
        (\<exists>f. fetch_until ops U N (robots_url U url) cfg w = Some (Inr f, w')
           \<and> success_status (f_status_code f)
           \<and> (\<exists>r. matching_rule (url_path U url)
                 (pr_groups (parse (decode_body E (f_body f) (f_content_type f) False))) = Some r
                \<and> \<not> r_allow r))))
   \<and> (\<exists>d0. consult ops U N E url cfg Ignore w = Some (Inr d0, w) \<and> \<not> denies_fetch d0
        \<and> rd_fetched d0 = False)"
proof
  show "consult ops U N E url cfg policy w = Some (Inr d, w') \<longrightarrow>
      (denies_fetch d \<longleftrightarrow> policy = Enforce \<and>
        (\<exists>f. fetch_until ops U N (robots_url U url) cfg w = Some (Inr f, w')
           \<and> success_status (f_status_code f)
           \<and> (\<exists>r. matching_rule (url_path U url)
                 (pr_groups (parse (decode_body E (f_body f) (f_content_type f) False))) = Some r
                \<and> \<not> r_allow r)))"
  proof
    assume c: "consult ops U N E url cfg policy w = Some (Inr d, w')"
    show "denies_fetch d \<longleftrightarrow> policy = Enforce \<and>
        (\<exists>f. fetch_until ops U N (robots_url U url) cfg w = Some (Inr f, w')
           \<and> success_status (f_status_code f)
           \<and> (\<exists>r. matching_rule (url_path U url)
                 (pr_groups (parse (decode_body E (f_body f) (f_content_type f) False))) = Some r
                \<and> \<not> r_allow r))"
    proof (cases "policy = Ignore")
      case True
      with c show ?thesis by (auto simp: consult_def denies_fetch_def)
    next
      case False
      show ?thesis
      proof (cases "fetch_until ops U N (robots_url U url) cfg w")
        case None
        with c False show ?thesis by (simp add: consult_def)
      next
        case (Some p)
        obtain res v where p: "p = (res, v)" by (cases p)
        show ?thesis
        proof (cases res)
          case (Inl e)
          have "consult ops U N E url cfg policy w = (case timeout_of e of
              Some m \<Rightarrow> Some (Inl (Timeout m), v)
            | None \<Rightarrow> Some (Inr (unavailable_decision U policy (robots_url U url) False None), v))"
            using False Some unfolding p Inl by (simp add: consult_def Let_def)
          then have "\<not> denies_fetch d"
            using c by (cases "timeout_of e") (auto simp: disposition_distinct)
          with Some p Inl show ?thesis by simp
        next
          case (Inr f)
          show ?thesis
          proof (cases "success_status (f_status_code f)")
            case True
            with c False Some p Inr have "w' = v"
              and "d = evaluate_robots U url (robots_url U url) policy (f_status_code f)
                 (decode_body E (f_body f) (f_content_type f) False)"
              by (simp_all add: consult_def)
            with Some p Inr True show ?thesis by (simp add: evaluate_denies)
          next
            case nos: False
            with c False Some p Inr have "\<not> denies_fetch d"
              by (auto simp: consult_def disposition_distinct)
            with Some p Inr nos show ?thesis by auto
          qed
        qed
      qed
    qed
  qed
qed (simp add: consult_def denies_fetch_def)

text \<open>
  The document policy records every hop it decided. A check that ends in a decision appends
  exactly one hop, for the URL that was checked, and refuses exactly the denied ones; a check
  whose consultation fails appends nothing.
\<close>

theorem document_check_records:
  assumes "document_check ops U N E cfg policy target (w, hops) = Some (r, (w', hops'))"
  shows "(\<exists>d. consult ops U N E target cfg policy w = Some (Inr d, w')
            \<and> hops' = hops @ [\<lparr> dh_target_url = url_string U target, dh_decision = d \<rparr>]
            \<and> (if denies_fetch d
               then r = Inl (RobotsDenied (hop_to_value
                      \<lparr> dh_target_url = url_string U target, dh_decision = d \<rparr>))
               else r = Inr ()))
       \<or> (\<exists>e. consult ops U N E target cfg policy w = Some (Inl e, w') \<and> hops' = hops \<and> r = Inl e)"
  using assms
  by (auto simp: document_check_def Let_def split: option.splits prod.splits sum.splits if_splits)

section \<open>Bounds of sitemap discovery\<close>

lemma push_seeds_bound:
  "length seeds \<le> MAX_SITEMAP_URLS \<Longrightarrow> distinct seeds \<Longrightarrow>
   length (fst (push_seeds seeds us)) \<le> MAX_SITEMAP_URLS \<and> distinct (fst (push_seeds seeds us))"
  by (induction us arbitrary: seeds) auto

lemma discover_loop_bounds:
  assumes "discover_loop get U queue seen seeds w = Some (Inr res, w')"
    and "length seeds \<le> MAX_SITEMAP_URLS" and "distinct seeds"
    and "\<forall>u v r v'. get u v = Some (r, v') \<longrightarrow> cnt v' \<le> Suc (cnt v)"
  shows "length res \<le> MAX_SITEMAP_URLS \<and> distinct res
     \<and> cnt w' \<le> cnt w + (MAX_SITEMAPS - length seen)"
  using assms
proof (induction get U queue seen seeds w rule: discover_loop.induct)
  case (1 get U queue seen seeds w)
  note prems = "1.prems"
  show ?case
  proof (cases "queue = [] \<or> length seen \<ge> MAX_SITEMAPS \<or> \<not> is_http U (last queue)")
    case True
    with prems show ?thesis by (subst (asm) discover_loop.simps) (auto split: if_splits)
  next
    case False
    then have f: "queue \<noteq> []" "\<not> (length seen \<ge> MAX_SITEMAPS \<or> \<not> is_http U (last queue))" by auto
    show ?thesis
    proof (cases "url_string U (last queue) \<in> set seen")
      case True
      with prems(1) f have "discover_loop get U (butlast queue) seen seeds w = Some (Inr res, w')"
        by (subst (asm) discover_loop.simps) simp
      from "1.IH"(1)[OF f True this prems(2-4)] show ?thesis .
    next
      case new: False
      from prems(1) f new obtain r v where g: "get (last queue) w = Some (Inr r, v)"
        by (subst (asm) discover_loop.simps) (auto split: option.splits prod.splits sum.splits)
      have step: "cnt v \<le> Suc (cnt w)" using prems(4) g by blast
      show ?thesis
      proof (cases r)
        case None
        with prems(1) f new g
        have "discover_loop get U (butlast queue) (url_string U (last queue) # seen) seeds v = Some (Inr res, w')"
          by (subst (asm) discover_loop.simps) simp
        from "1.IH"(2)[OF f new g refl refl None this prems(2-4)] step f show ?thesis by simp linarith
      next
        case (Some doc)
        obtain seeds' full where ps: "push_seeds seeds (sd_url_seeds doc) = (seeds', full)" by fastforce
        have b: "length seeds' \<le> MAX_SITEMAP_URLS" "distinct seeds'"
          using push_seeds_bound[OF prems(2,3), of "sd_url_seeds doc"] ps by simp_all
        show ?thesis
        proof (cases full)
          case True
          with prems(1) f new g Some ps have "res = seeds'" "w' = v"
            by (subst (asm) discover_loop.simps, simp)+
          with b step f show ?thesis by simp linarith
        next
          case False
          with prems(1) f new g Some ps
          have "discover_loop get U (butlast queue @ sd_nested_sitemaps doc)
              (url_string U (last queue) # seen) seeds' v = Some (Inr res, w')"
            by (subst (asm) discover_loop.simps) simp
          from "1.IH"(3)[OF f new g refl refl Some ps[symmetric] False this b prems(4)] step f
          show ?thesis by simp linarith
        qed
      qed
    qed
  qed
qed

text \<open>
  Sitemap discovery is bounded. It returns at most 10000 pairwise distinct seeds, and it
  fetches at most 32 sitemaps: any count \<open>cnt\<close> of the state that one fetch raises by at most one
  is raised by at most 32.
\<close>

theorem discover_sitemap_urls_bounded:
  assumes "discover_sitemap_urls ops U N E xml target cfg robots_sitemaps w = Some (Inr seeds, w')"
    and "\<forall>u v r v'. fetch_sitemap ops U N E xml cfg u v = Some (r, v') \<longrightarrow> cnt v' \<le> Suc (cnt v)"
  shows "length seeds \<le> 10000 \<and> distinct seeds \<and> cnt w' \<le> cnt w + 32"
  using discover_loop_bounds[OF assms(1)[unfolded discover_sitemap_urls_def] _ _ assms(2)]
  by (simp add: MAX_SITEMAP_URLS_def MAX_SITEMAPS_def)

section \<open>A concrete origin\<close>

text \<open>The world is the list of bodies the origin still serves, each with status 200.\<close>

definition page_net :: "(demo_url, unit, unit, string list, string) net" where
  "page_net = demo_net \<lparr> n_httparse := \<lambda>raw. HeadComplete 0 (Some 200) [] \<rparr>"

definition plain_charsets :: "string charset_ops" where
  "plain_charsets = demo_charsets \<lparr> enc_decode := \<lambda>e b. b \<rparr>"

lemma page_net_fields:
  "n_pace page_net x d w = (Inr (), w)" "n_server_name_ok page_net h"
  "n_direct_connect page_net h q w = (Inr ''10.0.0.1'', w)" "n_handshake page_net h i w = (Inr (), w)"
  "n_codecs page_net = demo_codecs" "n_send page_net req (b # ws) = (Inr b, ws)"
  "n_live page_net w k = (\<lambda>_. True)" "n_httparse page_net raw = HeadComplete 0 (Some 200) []"
  by (simp_all add: page_net_def demo_net_def fun_eq_iff)

lemma page_net_body:
  "length b \<le> 64 \<Longrightarrow> decode_http_body demo_codecs c [] b 64 live = Some (Inr (b, False))"
  by (simp add: decode_http_body_def header_contains_token_def content_encodings_def header_value_def
      res_simps cap_bytes_def)

lemma page_net_fetch:
  assumes "length b \<le> 64" and "length p < 100"
    and "is_ok (build_http_request demo_url_ops (site p) ''a.example'' 443 demo_config (site p))"
  shows "\<exists>f. fetch_until demo_ops demo_url_ops page_net (site p) demo_config (b # ws) = Some (Inr f, ws)
     \<and> f_status_code f = 200 \<and> f_body f = b \<and> f_content_type f = None"
proof -
  obtain req where req: "build_http_request demo_url_ops (site p) ''a.example'' 443 demo_config (site p) = Inr req"
    using assms(3) by (auto simp: is_ok_iff)
  have r: "read_capped demo_read (64 + MAX_HTTP_RESPONSE_HEADER_BYTES) (\<lambda>_. True) b = Inr (b, False)"
    using assms(1) by (intro demo_read_capped) (auto simp: MAX_HTTP_RESPONSE_HEADER_BYTES_def)
  have u: "url_scheme demo_url_ops (site p) = ''https''" "url_host_str demo_url_ops (site p) = Some ''a.example''"
    "url_known_port demo_url_ops (site p) = Some 443"
    by (simp_all add: demo_url_ops_def site_def demo_known_port_def)
  have c: "cd_read demo_codecs = demo_read" by (simp add: demo_codecs_def)
  have cfg: "fc_proxy demo_config = None" "fc_max_body_bytes demo_config = 64"
    "fc_credential_origin demo_config = None" by (simp_all add: demo_config_def)
  obtain sr where e: "exchange demo_ops demo_url_ops page_net (site p) ''a.example'' 443 demo_config (site p)
      (Some ()) ''10.0.0.1'' (b # ws) = Some (Inr sr, ws)"
    and sr: "sr_status_code sr = 200" "sr_body sr = b" "sr_content_type sr = None" "sr_location sr = None"
    using r assms(1)
    by (simp add: exchange_def and_then_def page_net_fields c cfg req parse_http_response_def page_net_body
        MAX_HTTP_RESPONSE_HEADER_BYTES_def header_value_def)
  have t: "transmit_hop demo_ops demo_url_ops page_net (site p) demo_config (site p) (b # ws) = Some (Inr sr, ws)"
    by (simp add: transmit_hop_def fetch_https_def and_then_def open_origin_stream_def e u cfg page_net_fields)
  show ?thesis
    by (simp add: fetch_until_def fetch_with_document_policy_until_def cfg t sr finish_fetch_def
        redirect_loop.simps[of _ _ _ _ _ "site p"])
qed

theorem consult_denies_iff_witness:
  "\<exists>d. consult demo_ops demo_url_ops page_net plain_charsets (site ''/a/b'') demo_config Enforce
         [''user-agent:*'' @ [CHR 0x0A] @ ''disallow:/a''] = Some (Inr d, [])
     \<and> denies_fetch d"
proof -
  let ?b = "''user-agent:*'' @ [CHR 0x0A] @ ''disallow:/a''"
  have ru: "robots_url demo_url_ops (site ''/a/b'') = site ''/robots.txt''" by code_simp
  have ok: "is_ok (build_http_request demo_url_ops (site ''/robots.txt'') ''a.example'' 443 demo_config
      (site ''/robots.txt''))" by code_simp
  obtain f where f: "fetch_until demo_ops demo_url_ops page_net (site ''/robots.txt'') demo_config [?b] = Some (Inr f, [])"
    "f_status_code f = 200" "f_body f = ?b" "f_content_type f = None"
    using page_net_fetch[of ?b "''/robots.txt''" "[]", OF _ _ ok] by auto
  have m: "matching_rule (url_path demo_url_ops (site ''/a/b''))
      (pr_groups (parse (decode_body plain_charsets ?b None False)))
      = Some \<lparr> r_allow = False, r_path = ''/a'' \<rparr>" by code_simp
  obtain d where d: "consult demo_ops demo_url_ops page_net plain_charsets (site ''/a/b'') demo_config Enforce [?b]
      = Some (Inr d, [])"
    using f by (simp add: consult_def ru success_status_def)
  from consult_denies_iff[of demo_ops demo_url_ops page_net plain_charsets "site ''/a/b''" demo_config Enforce
      "[?b]" d "[]"] d f m
  have "denies_fetch d" by (simp add: ru success_status_def)
  with d show ?thesis by blast
qed

theorem document_check_records_witness:
  "\<exists>r w' hops'. document_check demo_ops demo_url_ops page_net plain_charsets demo_config Ignore (site ''/a'')
       ([], []) = Some (r, (w', hops')) \<and> length hops' = 1 \<and> r = Inr ()"
proof -
  obtain r w' hops' where c: "document_check demo_ops demo_url_ops page_net plain_charsets demo_config Ignore
      (site ''/a'') ([], []) = Some (r, (w', hops'))"
    by (simp add: document_check_def consult_def denies_fetch_def)
  from document_check_records[OF c] c show ?thesis
    by (auto simp: consult_def denies_fetch_def)
qed

theorem discover_sitemap_urls_bounded_witness:
  "\<exists>seeds w'. discover_sitemap_urls demo_ops demo_url_ops page_net plain_charsets
       (\<lambda>s. [XStart ''url'', XStart ''loc'', XText (Some s), XEnd ''loc'', XEnd ''url''])
       (site ''/'') demo_config [] [''/p''] = Some (Inr seeds, w')
     \<and> seeds = [''https://a.example/p''] \<and> length seeds \<le> 10000"
proof -
  let ?xml = "\<lambda>s. [XStart ''url'', XStart ''loc'', XText (Some s), XEnd ''loc'', XEnd ''url'']"
  have su: "default_sitemap_url demo_url_ops (site ''/'') = site ''/sitemap.xml''" by code_simp
  have h: "is_http demo_url_ops (site ''/sitemap.xml'')" by code_simp
  have ok: "is_ok (build_http_request demo_url_ops (site ''/sitemap.xml'') ''a.example'' 443 demo_config
      (site ''/sitemap.xml''))" by code_simp
  obtain f where f: "fetch_until demo_ops demo_url_ops page_net (site ''/sitemap.xml'') demo_config [''/p''] = Some (Inr f, [])"
    "f_status_code f = 200" "f_body f = ''/p''" "f_content_type f = None"
    using page_net_fetch[of "''/p''" "''/sitemap.xml''" "[]", OF _ _ ok] by auto
  have x: "parse_sitemap demo_url_ops ?xml (decode_body plain_charsets ''/p'' None False) (site ''/sitemap.xml'')
      = \<lparr> sd_url_seeds = [''https://a.example/p''], sd_nested_sitemaps = [] \<rparr>" by code_simp
  have g: "fetch_sitemap demo_ops demo_url_ops page_net plain_charsets ?xml demo_config (site ''/sitemap.xml'') [''/p'']
      = Some (Inr (Some \<lparr> sd_url_seeds = [''https://a.example/p''], sd_nested_sitemaps = [] \<rparr>), [])"
    using f x by (simp add: fetch_sitemap_def success_status_def)
  have d: "discover_sitemap_urls demo_ops demo_url_ops page_net plain_charsets ?xml (site ''/'') demo_config []
      [''/p''] = Some (Inr [''https://a.example/p''], [])"
    by (simp add: discover_sitemap_urls_def su discover_loop.simps h g MAX_SITEMAPS_def MAX_SITEMAP_URLS_def)
  from discover_sitemap_urls_bounded[OF d, of "\<lambda>_. 0"] d show ?thesis by simp
qed

end
