(* ===== verification/Page_Links.thy ===== *)
theory Page_Links
  imports Rust_Str Ordered_Map Url_Ops
begin

text \<open>
  Link extraction of \<^verbatim>\<open>basecrawl-core/src/links.rs\<close> and next-page discovery of
  \<^verbatim>\<open>pagination.rs\<close>. The HTML parser and its selectors belong to the third-party \<^verbatim>\<open>scraper\<close>
  crate: \<open>html_ops\<close> is what the sources use of it.
\<close>

section \<open>Collecting without repetition\<close>

text \<open>
  Several operations append to an ordered list only what is new. The contract: one step appends
  at most one element, and only an admissible one that is not there yet.
\<close>

locale dedup_push =
  fixes push :: "'a \<Rightarrow> 'b list \<Rightarrow> 'b list"
    and ok :: "'b \<Rightarrow> bool"
  assumes push_cases: "push x out = out \<or> (\<exists>y. ok y \<and> y \<notin> set out \<and> push x out = out @ [y])"
begin

lemma distinct_fold: "distinct out \<Longrightarrow> distinct (fold push xs out)"
proof (induction xs arbitrary: out)
  case (Cons x xs)
  with push_cases[of x out] show ?case by auto
qed simp

lemma ok_fold: "list_all ok out \<Longrightarrow> list_all ok (fold push xs out)"
proof (induction xs arbitrary: out)
  case (Cons x xs)
  with push_cases[of x out] show ?case by auto
qed simp

lemma prefix_fold: "prefix out (fold push xs out)"
proof (induction xs arbitrary: out)
  case (Cons x xs)
  have "prefix out (push x out)" using push_cases[of x out] by auto
  with Cons[of "push x out"] show ?case by (auto intro: prefix_order.trans)
qed simp

end

text \<open>A contract that is bounded as well.\<close>

locale capped_push = dedup_push push ok
  for push :: "'a \<Rightarrow> 'b list \<Rightarrow> 'b list" and ok +
  fixes cap :: nat
  assumes push_full: "cap \<le> length out \<Longrightarrow> push x out = out"
begin

lemma length_fold: "length out \<le> cap \<Longrightarrow> length (fold push xs out) \<le> cap"
proof (induction xs arbitrary: out)
  case (Cons x xs)
  have "length (push x out) \<le> cap"
    using push_cases[of x out] push_full[of out x] Cons.prems by (cases "cap \<le> length out") auto
  with Cons.IH show ?case by simp
qed simp

end

text \<open>The list with every element kept at its first occurrence.\<close>

definition first_occurrences :: "'a list \<Rightarrow> 'a list" where
  "first_occurrences xs = rev (remdups (rev xs))"

lemma first_occurrences_simps [simp]:
  "first_occurrences [] = []"
  "first_occurrences (xs @ [x]) =
     (if x \<in> set xs then first_occurrences xs else first_occurrences xs @ [x])"
  by (simp_all add: first_occurrences_def)

lemma set_first_occurrences [simp]: "set (first_occurrences xs) = set xs"
  by (simp add: first_occurrences_def)

lemma distinct_first_occurrences [simp]: "distinct (first_occurrences xs)"
  by (simp add: first_occurrences_def)

section \<open>Documents\<close>

record element =
  el_attr :: "string \<Rightarrow> string option"
  el_text :: string

record 'd html_ops =
  h_parse :: "string \<Rightarrow> 'd"
  h_select :: "string \<Rightarrow> 'd \<Rightarrow> element list"

definition attr_or_empty :: "element \<Rightarrow> string \<Rightarrow> string" where
  "attr_or_empty el name = (case el_attr el name of None \<Rightarrow> [] | Some v \<Rightarrow> v)"

text \<open>\<^verbatim>\<open>base_href\<close> of both files: the first declared base, joined to the page's URL.\<close>

definition base_href :: "'d html_ops \<Rightarrow> 'd \<Rightarrow> string option" where
  "base_href H doc =
     (case h_select H ''base[href]'' doc of [] \<Rightarrow> None | el # _ \<Rightarrow> el_attr el ''href'')"

definition document_base :: "'u url_ops \<Rightarrow> 'd html_ops \<Rightarrow> 'd \<Rightarrow> 'u \<Rightarrow> 'u" where
  "document_base U H doc page =
     (case base_href H doc of
        None \<Rightarrow> page
      | Some href \<Rightarrow> (case url_join U page href of None \<Rightarrow> page | Some u \<Rightarrow> u))"

section \<open>The links of a page\<close>

record alternate =
  al_hreflang :: string
  al_href :: string

record excluded_link =
  ex_scheme :: string
  ex_href :: string

record page_links =
  pl_links :: "string list"
  pl_canonical :: "string option"
  pl_alternates :: "alternate list"
  pl_excluded :: "excluded_link list"
  pl_sitemap :: "string list"

definition no_links :: page_links where
  "no_links = \<lparr> pl_links = [], pl_canonical = None, pl_alternates = [], pl_excluded = [], pl_sitemap = [] \<rparr>"

definition is_navigational :: "string \<Rightarrow> bool" where
  "is_navigational scheme \<longleftrightarrow> scheme = ''http'' \<or> scheme = ''https''"

definition rel_has :: "string \<Rightarrow> string \<Rightarrow> bool" where
  "rel_has rel token \<longleftrightarrow> list_ex (\<lambda>t. eq_ic t token) (split_whitespace rel)"

definition sniff_scheme :: "string \<Rightarrow> string option" where
  "sniff_scheme href =
     (case split_once (CHR '':'') href of
        None \<Rightarrow> None
      | Some (candidate, _) \<Rightarrow>
          (case candidate of
             [] \<Rightarrow> None
           | c # cs \<Rightarrow>
               if \<not> is_alpha c then None
               else if list_all (\<lambda>c. is_alnum c \<or> c \<in> {CHR ''+'', CHR ''-'', CHR ''.''}) cs
               then Some (to_lower candidate) else None))"

text \<open>
  The anchors' state: the links, the excluded links and the keys already excluded. The set of
  seen links always holds the members of the link list.
\<close>

type_synonym anchors = "string list \<times> excluded_link list \<times> string set"

definition push_link :: "string \<Rightarrow> string list \<Rightarrow> string list" where
  "push_link target links = (if target \<in> set links then links else links @ [target])"

definition push_excluded :: "string \<Rightarrow> string \<Rightarrow> anchors \<Rightarrow> anchors" where
  "push_excluded scheme href st =
     (case st of (links, excluded, seen) \<Rightarrow>
        let key = scheme @ [CHR 0x00] @ href
        in if key \<in> seen then st
           else (links, excluded @ [\<lparr> ex_scheme = to_lower scheme, ex_href = href \<rparr>], insert key seen))"

definition add_anchor :: "'u url_ops \<Rightarrow> 'u \<Rightarrow> element \<Rightarrow> anchors \<Rightarrow> anchors" where
  "add_anchor U base el st =
     (case el_attr el ''href'' of
        None \<Rightarrow> st
      | Some raw \<Rightarrow>
          let href = trim raw
          in if href = [] then st
             else case url_join U base href of
               Some url \<Rightarrow>
                 if is_navigational (url_scheme U url)
                 then (push_link (url_string U url) (fst st), snd st)
                 else push_excluded (url_scheme U url) href st
             | None \<Rightarrow>
                 (case sniff_scheme href of
                    Some scheme \<Rightarrow> push_excluded scheme href st
                  | None \<Rightarrow> st))"

fun extract_canonical :: "'u url_ops \<Rightarrow> 'u \<Rightarrow> element list \<Rightarrow> string option" where
  "extract_canonical U base [] = None"
| "extract_canonical U base (el # els) =
     (if \<not> rel_has (attr_or_empty el ''rel'') ''canonical'' then extract_canonical U base els
      else let href = trim (attr_or_empty el ''href'')
           in if href = [] then extract_canonical U base els
              else case url_join U base href of
                Some url \<Rightarrow> Some (url_string U url)
              | None \<Rightarrow> extract_canonical U base els)"

text \<open>The alternate an element declares, if any.\<close>

definition alternate_of :: "'u url_ops \<Rightarrow> 'u \<Rightarrow> element \<Rightarrow> alternate option" where
  "alternate_of U base el =
     (let hreflang = trim (attr_or_empty el ''hreflang''); href = trim (attr_or_empty el ''href'')
      in if \<not> rel_has (attr_or_empty el ''rel'') ''alternate'' \<or> hreflang = [] \<or> href = [] then None
         else Some \<lparr> al_hreflang = hreflang,
                     al_href = (case url_join U base href of Some u \<Rightarrow> url_string U u | None \<Rightarrow> href) \<rparr>)"

definition add_alternate ::
    "'u url_ops \<Rightarrow> 'u \<Rightarrow> element \<Rightarrow> alternate list \<times> string set \<Rightarrow> alternate list \<times> string set" where
  "add_alternate U base el st =
     (case alternate_of U base el of
        None \<Rightarrow> st
      | Some a \<Rightarrow>
          let key = al_hreflang a @ [CHR 0x00] @ al_href a
          in if key \<in> snd st then st else (fst st @ [a], insert key (snd st)))"

definition extract_links :: "'u url_ops \<Rightarrow> 'd html_ops \<Rightarrow> string \<Rightarrow> 'u \<Rightarrow> page_links" where
  "extract_links U H html page =
     (let doc = h_parse H html;
          base = document_base U H doc page;
          (links, excluded, _) = fold (add_anchor U base) (h_select H ''a[href]'' doc) ([], [], {})
      in \<lparr> pl_links = links,
           pl_canonical = extract_canonical U base (h_select H ''link[rel][href]'' doc),
           pl_alternates = fst (fold (add_alternate U base)
               (h_select H ''link[rel][hreflang][href]'' doc) ([], {})),
           pl_excluded = excluded, pl_sitemap = [] \<rparr>)"

definition links_to_value :: "page_links \<Rightarrow> json" where
  "links_to_value l =
     jobj [(''links'', JArr (map JStr (pl_links l))),
           (''canonical'', jopt JStr (pl_canonical l)),
           (''alternates'', JArr (map (\<lambda>a. jobj [(''hreflang'', JStr (al_hreflang a)), (''href'', JStr (al_href a))])
              (pl_alternates l))),
           (''excluded'', JArr (map (\<lambda>x. jobj [(''scheme'', JStr (ex_scheme x)), (''href'', JStr (ex_href x))])
              (pl_excluded l))),
           (''sitemap'', JArr (map JStr (pl_sitemap l)))]"

text \<open>Appending a link is an instance of the contract; so is appending an excluded link.\<close>

interpretation link_push: dedup_push push_link "\<lambda>_. True"
  by unfold_locales (simp add: push_link_def)

lemma fold_push_link: "fold push_link xs (first_occurrences ys) = first_occurrences (ys @ xs)"
proof (induction xs arbitrary: ys)
  case (Cons x xs)
  have "push_link x (first_occurrences ys) = first_occurrences (ys @ [x])"
    by (simp add: push_link_def)
  then show ?case using Cons[of "ys @ [x]"] by simp
qed simp

text \<open>The navigational target of an anchor.\<close>

definition nav_target :: "'u url_ops \<Rightarrow> 'u \<Rightarrow> element \<Rightarrow> string option" where
  "nav_target U base el =
     (case el_attr el ''href'' of
        None \<Rightarrow> None
      | Some raw \<Rightarrow>
          if trim raw = [] then None
          else case url_join U base (trim raw) of
            None \<Rightarrow> None
          | Some url \<Rightarrow> if is_navigational (url_scheme U url) then Some (url_string U url) else None)"

lemma fst_push_excluded [simp]: "fst (push_excluded s h st) = fst st"
  by (simp add: push_excluded_def Let_def split: prod.splits)

lemma add_anchor_links:
  "fst (add_anchor U base el st) =
     (case nav_target U base el of None \<Rightarrow> fst st | Some t \<Rightarrow> push_link t (fst st))"
  by (auto simp: add_anchor_def nav_target_def Let_def split: option.splits)

lemma fold_add_anchor_links:
  "fst (fold (add_anchor U base) els st) = fold push_link (List.map_filter (nav_target U base) els) (fst st)"
proof (induction els arbitrary: st)
  case (Cons el els)
  then show ?case
    by (cases "nav_target U base el") (simp_all add: add_anchor_links map_filter_simps)
qed (simp add: map_filter_simps)

lemma extract_links_fold:
  "pl_links (extract_links U H html page) = fold push_link
     (List.map_filter (nav_target U (document_base U H (h_parse H html) page))
       (h_select H ''a[href]'' (h_parse H html))) []"
  using fold_add_anchor_links[of U "document_base U H (h_parse H html) page"
      "h_select H ''a[href]'' (h_parse H html)" "([], [], {})"]
  by (auto simp: extract_links_def Let_def split: prod.splits)

text \<open>
  C7: The links of a page are exactly the absolute targets of its anchors that resolve, against
  the document base, to an http or https URL, each once and in document order. So no other scheme
  appears among them and no anchor with a usable target is lost.
\<close>

theorem extract_links_exact:
  "pl_links (extract_links U H html page) =
     first_occurrences (List.map_filter (nav_target U (document_base U H (h_parse H html) page))
       (h_select H ''a[href]'' (h_parse H html)))"
  using fold_push_link[of _ "[]"] by (simp add: extract_links_fold)

lemma nav_target_http:
  "nav_target U b el = Some s \<Longrightarrow> \<exists>u. s = url_string U u \<and> is_http U u"
  by (auto simp: nav_target_def is_navigational_def is_http_def split: option.splits if_splits)

lemma extract_links_distinct:
  "distinct (pl_links (extract_links U H html page))"
  unfolding extract_links_fold by (rule link_push.distinct_fold) simp

lemma extract_links_http:
  "\<forall>s \<in> set (pl_links (extract_links U H html page)). \<exists>u. s = url_string U u \<and> is_http U u"
  using fold_push_link[of _ "[]"] nav_target_http
  by (fastforce simp: extract_links_fold List.map_filter_def)

lemma add_alternate_keys:
  assumes "snd st = (\<lambda>a. al_hreflang a @ [CHR 0x00] @ al_href a) ` set (fst st)" and "distinct (fst st)"
  shows "snd (add_alternate U base el st)
      = (\<lambda>a. al_hreflang a @ [CHR 0x00] @ al_href a) ` set (fst (add_alternate U base el st))
    \<and> distinct (fst (add_alternate U base el st))"
  using assms by (auto simp: add_alternate_def Let_def split: option.splits)

lemma fold_add_alternate_distinct:
  assumes "snd st = (\<lambda>a. al_hreflang a @ [CHR 0x00] @ al_href a) ` set (fst st)" and "distinct (fst st)"
  shows "distinct (fst (fold (add_alternate U base) els st))"
  using assms
proof (induction els arbitrary: st)
  case (Cons el els)
  from Cons.IH[of "add_alternate U base el st"] add_alternate_keys[OF Cons.prems, of U base el]
  show ?case by simp
qed simp

lemma extract_links_alternates: "distinct (pl_alternates (extract_links U H html page))"
  by (auto simp: extract_links_def Let_def split: prod.splits intro: fold_add_alternate_distinct)

section \<open>The next page\<close>

text \<open>The bytes of the three arrows the source names.\<close>

definition raquo :: string where
  "raquo = [CHR 0xC2, CHR 0xBB]"

definition rsaquo :: string where
  "rsaquo = [CHR 0xE2, CHR 0x80, CHR 0xBA]"

definition rarr :: string where
  "rarr = [CHR 0xE2, CHR 0x86, CHR 0x92]"

definition is_next_text :: "string \<Rightarrow> bool" where
  "is_next_text norm \<longleftrightarrow>
     (let lower = to_lower norm
      in lower \<in> {''next'', ''next '' @ raquo, ''next >'', ''next '' @ rsaquo, ''next page'',
                  raquo, rsaquo, rarr, ''next '' @ rarr}
         \<or> starts_with lower ''next '')"

definition rel_is_next :: "element \<Rightarrow> bool" where
  "rel_is_next el = (case el_attr el ''rel'' of None \<Rightarrow> False | Some rel \<Rightarrow> rel_has rel ''next'')"

definition text_is_next :: "element \<Rightarrow> bool" where
  "text_is_next el = is_next_text (join '' '' (split_whitespace (el_text el)))"

fun next_scan :: "'u url_ops \<Rightarrow> 'u \<Rightarrow> 'u option \<Rightarrow> element list \<Rightarrow> 'u option" where
  "next_scan U base fallback [] = fallback"
| "next_scan U base fallback (el # els) =
     (let href = trim (attr_or_empty el ''href'')
      in if href = [] then next_scan U base fallback els
         else if \<not> rel_is_next el \<and> \<not> text_is_next el then next_scan U base fallback els
         else case url_join U base href of
           None \<Rightarrow> next_scan U base fallback els
         | Some resolved \<Rightarrow>
             if \<not> is_http U resolved then next_scan U base fallback els
             else if rel_is_next el then Some resolved
             else next_scan U base (if fallback = None then Some resolved else fallback) els)"

definition find_next :: "'u url_ops \<Rightarrow> 'd html_ops \<Rightarrow> string \<Rightarrow> 'u \<Rightarrow> 'u option" where
  "find_next U H html base =
     (let doc = h_parse H html
      in next_scan U (document_base U H doc base) None (h_select H ''a[href], link[href]'' doc))"

text \<open>The http target of an element, whatever its text.\<close>

definition http_target :: "'u url_ops \<Rightarrow> 'u \<Rightarrow> element \<Rightarrow> 'u option" where
  "http_target U base el =
     (let href = trim (attr_or_empty el ''href'')
      in if href = [] then None
         else case url_join U base href of
           None \<Rightarrow> None
         | Some u \<Rightarrow> if is_http U u then Some u else None)"

definition targets_where :: "(element \<Rightarrow> bool) \<Rightarrow> 'u url_ops \<Rightarrow> 'u \<Rightarrow> element list \<Rightarrow> 'u list" where
  "targets_where P U base els = List.map_filter (http_target U base) (filter P els)"

definition head_option :: "'a list \<Rightarrow> 'a option" where
  "head_option xs = (case xs of [] \<Rightarrow> None | x # _ \<Rightarrow> Some x)"

definition or_else :: "'a option \<Rightarrow> 'a option \<Rightarrow> 'a option" where
  "or_else a b = (case a of None \<Rightarrow> b | Some x \<Rightarrow> Some x)"

lemma next_scan_eq:
  "next_scan U base fb els =
     or_else (head_option (targets_where rel_is_next U base els))
       (or_else fb (head_option (targets_where (\<lambda>el. \<not> rel_is_next el \<and> text_is_next el) U base els)))"
proof (induction els arbitrary: fb)
  case Nil
  show ?case by (simp add: targets_where_def map_filter_simps head_option_def or_else_def split: option.splits)
next
  case (Cons el els)
  show ?case
  proof (cases "http_target U base el")
    case None
    then have "next_scan U base fb (el # els) = next_scan U base fb els"
      by (auto simp: http_target_def Let_def split: option.splits if_splits)
    with Cons None show ?thesis by (simp add: targets_where_def map_filter_simps)
  next
    case (Some u)
    then have "trim (attr_or_empty el ''href'') \<noteq> []" "is_http U u"
      "url_join U base (trim (attr_or_empty el ''href'')) = Some u"
      by (auto simp: http_target_def Let_def split: option.splits if_splits)
    with Cons Some show ?thesis
      by (auto simp: targets_where_def map_filter_simps head_option_def or_else_def Let_def split: option.splits)
  qed
qed

text \<open>
  The next page is the http target of the first element declared \<^verbatim>\<open>rel="next"\<close> that has
  one, wherever it stands; only when there is none, it is the first http target of an element
  whose text reads like a next control.
\<close>

theorem find_next_authoritative:
  "find_next U H html base =
     (let doc = h_parse H html; b = document_base U H doc base;
          els = h_select H ''a[href], link[href]'' doc
      in or_else (head_option (targets_where rel_is_next U b els))
           (head_option (targets_where (\<lambda>el. \<not> rel_is_next el \<and> text_is_next el) U b els)))"
  by (simp add: find_next_def next_scan_eq Let_def) (simp add: or_else_def)

lemma find_next_http:
  assumes "find_next U H html base = Some u"
  shows "is_http U u"
proof -
  have "u \<in> set (targets_where P U b els) \<Longrightarrow> is_http U u" for P b els
    by (auto simp: targets_where_def List.map_filter_def http_target_def Let_def split: option.splits if_splits)
  moreover have "head_option xs = Some u \<Longrightarrow> u \<in> set xs" for xs
    by (cases xs) (auto simp: head_option_def)
  ultimately show ?thesis
    using assms by (auto simp: find_next_def next_scan_eq Let_def or_else_def split: option.splits)
qed

end
