(* ===== verification/Product_Options.thy ===== *)
theory Product_Options
  imports Rust_Str Ordered_Map Core_Error
begin

text \<open>
  The vocabulary of a scrape request, checked before any network access: the output formats of
  \<^verbatim>\<open>basecrawl-core/src/format.rs\<close>, the method and body rules of \<^verbatim>\<open>product_request.rs\<close>, the
  structured-extraction gate of \<^verbatim>\<open>extract.rs\<close>, the content classes of \<^verbatim>\<open>content.rs\<close>, and the
  proxy classes and fetch paths of \<^verbatim>\<open>basecrawl-proof/src/lib.rs\<close>. The process environment and
  the JSON parser are parameters.
\<close>

section \<open>Output formats\<close>

datatype fmt = Markdown | Html | RawHtml | Links | Metadata | Screenshot | Json

definition ALL_FORMATS :: "fmt list" where
  "ALL_FORMATS = [Markdown, Html, RawHtml, Links, Metadata, Screenshot, Json]"

fun fmt_str :: "fmt \<Rightarrow> string" where
  "fmt_str Markdown = ''markdown''"
| "fmt_str Html = ''html''"
| "fmt_str RawHtml = ''rawHtml''"
| "fmt_str Links = ''links''"
| "fmt_str Metadata = ''metadata''"
| "fmt_str Screenshot = ''screenshot''"
| "fmt_str Json = ''json''"

definition from_token :: "string \<Rightarrow> fmt option" where
  "from_token token = List.find (\<lambda>f. fmt_str f = token) ALL_FORMATS"

text \<open>The derived order of the enum is the declaration order.\<close>

fun fmt_rank :: "fmt \<Rightarrow> nat" where
  "fmt_rank Markdown = 0"
| "fmt_rank Html = 1"
| "fmt_rank RawHtml = 2"
| "fmt_rank Links = 3"
| "fmt_rank Metadata = 4"
| "fmt_rank Screenshot = 5"
| "fmt_rank Json = 6"

lemma fmt_rank_inject: "fmt_rank a = fmt_rank b \<longleftrightarrow> a = b"
  by (cases a; cases b) simp_all

instantiation fmt :: linorder
begin

definition less_eq_fmt :: "fmt \<Rightarrow> fmt \<Rightarrow> bool" where
  "a \<le> b \<longleftrightarrow> fmt_rank a \<le> fmt_rank b"

definition less_fmt :: "fmt \<Rightarrow> fmt \<Rightarrow> bool" where
  "a < b \<longleftrightarrow> fmt_rank a < fmt_rank b"

instance
  by standard (auto simp: less_eq_fmt_def less_fmt_def fmt_rank_inject)

end

definition supported_list :: string where
  "supported_list = join '', '' (map fmt_str ALL_FORMATS)"

definition default_set :: "fmt list" where
  "default_set = [Markdown, Metadata]"

text \<open>\<^verbatim>\<open>sort\<close> followed by \<^verbatim>\<open>dedup\<close>.\<close>

definition normalize :: "fmt list \<Rightarrow> fmt list" where
  "normalize formats = remdups_adj (sort formats)"

fun parse_tokens :: "fmt list \<Rightarrow> string list \<Rightarrow> (core_error, fmt list) result" where
  "parse_tokens parsed [] = Inr parsed"
| "parse_tokens parsed (token # tokens) =
     (case from_token (trim token) of
        Some f \<Rightarrow> parse_tokens (parsed @ [f]) tokens
      | None \<Rightarrow> Inl (UnknownFormat (trim token) supported_list))"

definition parse_list :: "string list \<Rightarrow> (core_error, fmt list) result" where
  "parse_list tokens = bind_res (parse_tokens [] tokens) (\<lambda>parsed. Inr (normalize parsed))"

lemma from_token_Some_iff: "from_token t = Some f \<longleftrightarrow> t = fmt_str f"
  by (cases f) (auto simp: from_token_def ALL_FORMATS_def split: if_splits)

lemma strict_remdups_adj: "sorted xs \<Longrightarrow> sorted_wrt (<) (remdups_adj xs)"
  for xs :: "'a::linorder list"
  by (induction xs rule: remdups_adj.induct) (auto simp: less_le)

lemma normalize_strict: "sorted_wrt (<) (normalize fs)"
  by (simp add: normalize_def strict_remdups_adj)

lemma set_normalize [simp]: "set (normalize fs) = set fs"
  by (simp add: normalize_def)

lemma parse_tokens_Inr:
  "parse_tokens acc ts = Inr fs \<longleftrightarrow>
     (\<exists>gs. fs = acc @ gs \<and> list_all2 (\<lambda>t f. trim t = fmt_str f) ts gs)"
proof (induction ts arbitrary: acc)
  case (Cons t ts)
  show ?case
    by (cases "from_token (trim t)")
      (auto simp: Cons.IH list_all2_Cons1 from_token_Some_iff[symmetric])
qed auto

lemma parse_tokens_Inl:
  "parse_tokens acc ts = Inl e \<longleftrightarrow>
     (\<exists>good t rest. ts = good @ t # rest \<and> (\<forall>g \<in> set good. from_token (trim g) \<noteq> None)
        \<and> from_token (trim t) = None \<and> e = UnknownFormat (trim t) supported_list)"
proof (induction ts arbitrary: acc)
  case (Cons t ts)
  show ?case
  proof (cases "from_token (trim t)")
    case None
    show ?thesis
    proof
      assume "parse_tokens acc (t # ts) = Inl e"
      then show "\<exists>good u rest. t # ts = good @ u # rest \<and> (\<forall>g \<in> set good. from_token (trim g) \<noteq> None)
        \<and> from_token (trim u) = None \<and> e = UnknownFormat (trim u) supported_list"
        using None by (intro exI[of _ "[]"] exI[of _ t] exI[of _ ts]) simp
    next
      assume "\<exists>good u rest. t # ts = good @ u # rest \<and> (\<forall>g \<in> set good. from_token (trim g) \<noteq> None)
        \<and> from_token (trim u) = None \<and> e = UnknownFormat (trim u) supported_list"
      then obtain good u rest where g: "t # ts = good @ u # rest"
        "\<forall>g \<in> set good. from_token (trim g) \<noteq> None" "e = UnknownFormat (trim u) supported_list" by blast
      then have "u = t" using None by (cases good) auto
      with None g(3) show "parse_tokens acc (t # ts) = Inl e" by simp
    qed
  next
    case (Some f)
    have "(\<exists>good u rest. t # ts = good @ u # rest \<and> (\<forall>g \<in> set good. from_token (trim g) \<noteq> None)
        \<and> from_token (trim u) = None \<and> e = UnknownFormat (trim u) supported_list) \<longleftrightarrow>
      (\<exists>good u rest. ts = good @ u # rest \<and> (\<forall>g \<in> set good. from_token (trim g) \<noteq> None)
        \<and> from_token (trim u) = None \<and> e = UnknownFormat (trim u) supported_list)" (is "?L \<longleftrightarrow> ?R")
    proof
      assume ?L
      then obtain good u rest where g: "t # ts = good @ u # rest"
        "\<forall>g \<in> set good. from_token (trim g) \<noteq> None" "from_token (trim u) = None"
        "e = UnknownFormat (trim u) supported_list" by blast
      then obtain good' where "good = t # good'" using Some by (cases good) auto
      with g show ?R by (intro exI[of _ good'] exI[of _ u] exI[of _ rest]) simp
    next
      assume ?R
      then obtain good u rest where "ts = good @ u # rest"
        "\<forall>g \<in> set good. from_token (trim g) \<noteq> None" "from_token (trim u) = None"
        "e = UnknownFormat (trim u) supported_list" by blast
      with Some show ?L by (intro exI[of _ "t # good"] exI[of _ u] exI[of _ rest]) simp
    qed
    with Some show ?thesis by (simp only: parse_tokens.simps option.case Cons.IH)
  qed
qed simp

text \<open>
  A format list parses exactly when every token, trimmed, is the canonical spelling of a
  format. The result names exactly those formats, strictly in declaration order, so it depends
  only on the set requested; otherwise the error names the first token that is not a format.
\<close>

theorem parse_list_canonical:
  "(parse_list tokens = Inr fs \<longleftrightarrow>
      sorted_wrt (<) fs \<and> fmt_str ` set fs = trim ` set tokens)
   \<and> (parse_list tokens = Inl e \<longleftrightarrow>
      (\<exists>good t rest. tokens = good @ t # rest
         \<and> (\<forall>g \<in> set good. \<exists>f. trim g = fmt_str f) \<and> (\<forall>f. trim t \<noteq> fmt_str f)
         \<and> e = UnknownFormat (trim t) supported_list))"
proof
  have inj: "inj fmt_str" by (intro injI) (metis from_token_Some_iff option.inject)
  show "parse_list tokens = Inr fs \<longleftrightarrow>
      sorted_wrt (<) fs \<and> fmt_str ` set fs = trim ` set tokens"
  proof
    assume "parse_list tokens = Inr fs"
    then obtain gs where g: "list_all2 (\<lambda>t f. trim t = fmt_str f) tokens gs" "fs = normalize gs"
      by (auto simp: parse_list_def res_simps parse_tokens_Inr)
    have "map trim tokens = map fmt_str gs"
      using g(1) by (simp add: list_all2_conv_all_nth list_eq_iff_nth_eq)
    then have "trim ` set tokens = fmt_str ` set gs" by (metis set_map)
    then show "sorted_wrt (<) fs \<and> fmt_str ` set fs = trim ` set tokens"
      by (simp add: g(2) normalize_strict)
  next
    assume fs: "sorted_wrt (<) fs \<and> fmt_str ` set fs = trim ` set tokens"
    let ?gs = "map (\<lambda>t. the (from_token (trim t))) tokens"
    have tok: "\<exists>f. trim t = fmt_str f" if "t \<in> set tokens" for t using fs that by blast
    then have t: "trim t = fmt_str (the (from_token (trim t)))" if "t \<in> set tokens" for t
      using that from_token_Some_iff by (metis option.sel)
    then have all: "list_all2 (\<lambda>t f. trim t = fmt_str f) tokens ?gs"
      by (simp add: list_all2_conv_all_nth)
    have "fmt_str ` set ?gs = trim ` set tokens" using t by (auto simp: image_image)
    then have "set ?gs = set fs" using fs inj by (metis inj_image_eq_iff)
    then have "normalize ?gs = fs"
      using fs normalize_strict[of ?gs] by (intro strict_sorted_equal) simp_all
    with all show "parse_list tokens = Inr fs"
      by (auto simp: parse_list_def res_simps parse_tokens_Inr)
  qed
next
  have ne: "from_token s \<noteq> None \<longleftrightarrow> (\<exists>f. s = fmt_str f)" for s
    by (metis from_token_Some_iff not_Some_eq)
  have eq: "from_token s = None \<longleftrightarrow> (\<forall>f. s \<noteq> fmt_str f)" for s using ne[of s] by blast
  show "parse_list tokens = Inl e \<longleftrightarrow>
      (\<exists>good t rest. tokens = good @ t # rest
         \<and> (\<forall>g \<in> set good. \<exists>f. trim g = fmt_str f) \<and> (\<forall>f. trim t \<noteq> fmt_str f)
         \<and> e = UnknownFormat (trim t) supported_list)"
    by (simp only: parse_list_def res_simps parse_tokens_Inl ne eq) simp
qed

theorem parse_list_canonical_witness:
  "parse_list [''links'', '' html '', ''links''] = Inr [Html, Links]
   \<and> parse_list [''html'', ''pdf''] = Inl (UnknownFormat ''pdf'' supported_list)"
proof -
  have t: "trim ''links'' = ''links''" "trim '' html '' = ''html''" "trim ''html'' = ''html''"
    "trim ''pdf'' = ''pdf''" by code_simp+
  have "parse_list [''links'', '' html '', ''links''] = Inr [Html, Links]"
    by (rule iffD2[OF conjunct1[OF parse_list_canonical]]) (auto simp: t less_fmt_def)
  moreover have "\<exists>good r rest. [''html'', ''pdf''] = good @ r # rest
      \<and> (\<forall>g \<in> set good. \<exists>f. trim g = fmt_str f) \<and> (\<forall>f. trim r \<noteq> fmt_str f)
      \<and> UnknownFormat ''pdf'' supported_list = UnknownFormat (trim r) supported_list"
  proof (rule exI[of _ "[''html'']"], rule exI[of _ "''pdf''"], rule exI[of _ "[]"], intro conjI)
    show "\<forall>g \<in> set [''html'']. \<exists>f. trim g = fmt_str f" using t by (auto intro: exI[of _ Html])
    show "\<forall>f. trim ''pdf'' \<noteq> fmt_str f"
    proof
      fix f show "trim ''pdf'' \<noteq> fmt_str f" unfolding t by (cases f) simp_all
    qed
  qed (simp_all add: t)
  ultimately show ?thesis using parse_list_canonical by blast
qed

lemma normalize_idem: "normalize (normalize fs) = normalize fs"
  by (intro strict_sorted_equal) (simp_all add: normalize_strict)

section \<open>Method and body\<close>

definition DEFAULT_METHOD :: string where
  "DEFAULT_METHOD = ''GET''"

definition is_token_char :: "char \<Rightarrow> bool" where
  "is_token_char b \<longleftrightarrow> is_alnum b \<or> b \<in> set ''!#$%&*+-.^_`|~'' \<or> code b = 39"

definition is_token :: "string \<Rightarrow> bool" where
  "is_token m \<longleftrightarrow> m \<noteq> [] \<and> list_all is_token_char m"

definition normalize_method :: "string option \<Rightarrow> (core_error, string) result" where
  "normalize_method raw =
     (let t = (case raw of None \<Rightarrow> [] | Some r \<Rightarrow> trim r)
      in if t = [] then Inr DEFAULT_METHOD
         else let upper = to_upper t
              in if \<not> is_token upper then Inl (UnsupportedMethod t)
                 else if upper = ''GET'' \<or> upper = ''POST'' then Inr upper
                 else Inl (UnsupportedMethod upper))"

definition validate_method_body :: "string \<Rightarrow> string \<Rightarrow> (core_error, unit) result" where
  "validate_method_body m body =
     (if eq_ic m ''GET'' \<and> body \<noteq> []
      then Inl (InvalidProductOption ''request body requires --method POST'') else Inr ())"

text \<open>\<^verbatim>\<open>std::fs::read\<close> is the parameter \<open>read_file\<close>: the error text or the bytes.\<close>

definition parse_body_arg :: "(string \<Rightarrow> string + string) \<Rightarrow> string option \<Rightarrow> (core_error, string) result" where
  "parse_body_arg read_file raw =
     (case raw of
        None \<Rightarrow> Inr []
      | Some s \<Rightarrow>
          (case strip_prefix ''@'' s of
             Some path \<Rightarrow> (case read_file path of
                 Inl e \<Rightarrow> Inl (InvalidProductOption (''could not read body file: '' @ e))
               | Inr bytes \<Rightarrow> Inr bytes)
           | None \<Rightarrow> Inr s))"

text \<open>The two checks as \<^verbatim>\<open>scrape\<close> makes them.\<close>

definition checked_method :: "string option \<Rightarrow> string \<Rightarrow> (core_error, string) result" where
  "checked_method raw body =
     bind_res (normalize_method raw) (\<lambda>m. bind_res (validate_method_body m body) (\<lambda>_. Inr m))"

lemma normalize_method_Inr:
  "normalize_method raw = Inr m \<Longrightarrow> m = ''GET'' \<or> m = ''POST''"
  by (auto simp: normalize_method_def Let_def DEFAULT_METHOD_def split: if_splits)

lemma upper_char_eq_iff: "upper_char c = upper_char d \<longleftrightarrow> lower_char c = lower_char d"
proof -
  have u: "code (upper_char x) = (if is_lower x then code x - 32 else code x)" for x
    by (auto simp: upper_char_def is_lower_def)
  have "upper_char c = upper_char d \<longleftrightarrow> code (upper_char c) = code (upper_char d)" by simp
  also have "\<dots> \<longleftrightarrow> code (lower_char c) = code (lower_char d)"
    unfolding u code_lower_char
    by (simp add: is_upper_def is_lower_def del: of_char_eq_iff) linarith
  finally show ?thesis by simp
qed

lemma to_upper_eq_iff: "to_upper a = to_upper b \<longleftrightarrow> eq_ic a b"
  by (induction a b rule: list_induct2')
    (simp_all add: to_upper_def eq_ic_def upper_char_eq_iff)

lemma to_upper_GET: "to_upper s = ''GET'' \<longleftrightarrow> eq_ic s ''GET''"
proof -
  have "to_upper ''GET'' = ''GET''" by code_simp
  then show ?thesis using to_upper_eq_iff[of s "''GET''"] by (simp only:)
qed

lemma to_upper_POST: "to_upper s = ''POST'' \<longleftrightarrow> eq_ic s ''POST''"
proof -
  have "to_upper ''POST'' = ''POST''" by code_simp
  then show ?thesis using to_upper_eq_iff[of s "''POST''"] by (simp only:)
qed

text \<open>
  Only two requests pass the method check. A body is admitted with \<^verbatim>\<open>POST\<close> alone; an absent
  or blank method means \<^verbatim>\<open>GET\<close>; any spelling of the two words is normalised to upper case, and
  every other method is an error.
\<close>

theorem checked_method_iff:
  "checked_method raw body = Inr m \<longleftrightarrow>
     (m = ''GET'' \<and> body = [] \<and> (case raw of None \<Rightarrow> True | Some r \<Rightarrow> trim r = [] \<or> eq_ic (trim r) ''GET''))
   \<or> (m = ''POST'' \<and> (\<exists>r. raw = Some r \<and> eq_ic (trim r) ''POST''))"
proof -
  have tok: "is_token ''GET''" "is_token ''POST''" by code_simp+
  have ne: "\<not> eq_ic ''POST'' ''GET''" "\<not> eq_ic [] ''POST''" by code_simp+
  have n: "normalize_method raw = Inr m \<longleftrightarrow>
      (m = ''GET'' \<and> (case raw of None \<Rightarrow> True | Some r \<Rightarrow> trim r = [] \<or> eq_ic (trim r) ''GET''))
    \<or> (m = ''POST'' \<and> (\<exists>r. raw = Some r \<and> eq_ic (trim r) ''POST''))" for m
  proof (cases raw)
    case None
    then show ?thesis by (auto simp: normalize_method_def DEFAULT_METHOD_def)
  next
    case (Some r)
    have e: "trim r = [] \<Longrightarrow> \<not> eq_ic (trim r) ''POST''" using ne(2) by (simp only:) simp
    consider "trim r = []" | "trim r \<noteq> []" "to_upper (trim r) = ''GET''"
      | "trim r \<noteq> []" "to_upper (trim r) = ''POST''"
      | "trim r \<noteq> []" "to_upper (trim r) \<noteq> ''GET''" "to_upper (trim r) \<noteq> ''POST''" by blast
    then show ?thesis
    proof cases
      case 1
      with Some e show ?thesis by (auto simp: normalize_method_def DEFAULT_METHOD_def)
    next
      case 2
      then have "normalize_method raw = Inr ''GET''"
        using Some tok by (simp add: normalize_method_def)
      moreover have "\<not> eq_ic (trim r) ''POST''" using 2(2) to_upper_POST[of "trim r"] by simp
      ultimately show ?thesis using Some 2(2) to_upper_GET[of "trim r"] 2(1) by (auto simp del: to_lower_Cons)
    next
      case 3
      then have "normalize_method raw = Inr ''POST''"
        using Some tok by (simp add: normalize_method_def)
      moreover have "\<not> eq_ic (trim r) ''GET''" using 3(2) to_upper_GET[of "trim r"] by simp
      ultimately show ?thesis using Some 3 to_upper_POST[of "trim r"] by auto
    next
      case 4
      then have "\<not> is_ok (normalize_method raw)"
        using Some by (simp add: normalize_method_def Let_def)
      moreover have "\<not> eq_ic (trim r) ''GET''" "\<not> eq_ic (trim r) ''POST''"
        using 4 to_upper_GET[of "trim r"] to_upper_POST[of "trim r"] by simp_all
      ultimately show ?thesis using Some 4(1) by (auto simp: is_ok_iff)
    qed
  qed
  have v: "validate_method_body m body = Inr () \<longleftrightarrow> (eq_ic m ''GET'' \<longrightarrow> body = [])" for m
    by (simp add: validate_method_body_def)
  show ?thesis using ne by (auto simp: checked_method_def res_simps n v)
qed

section \<open>The extraction gate\<close>

definition EXTRACT_API_KEY_ENVS :: "string list" where
  "EXTRACT_API_KEY_ENVS = [''BASECRAWL_EXTRACT_API_KEY'', ''BASECRAWL_LLM_API_KEY'', ''OPENAI_API_KEY'']"

record extract_provider_config =
  ep_key_source :: string
  ep_base_url :: "string option"
  ep_model :: "string option"

type_synonym env = "string \<Rightarrow> string option"

text \<open>The value of a variable, trimmed, unless that is empty.\<close>

definition env_nonempty :: "env \<Rightarrow> string \<Rightarrow> string option" where
  "env_nonempty env name =
     (case env name of None \<Rightarrow> None | Some v \<Rightarrow> if trim v = [] then None else Some (trim v))"

definition resolve_provider_config :: "env \<Rightarrow> extract_provider_config option" where
  "resolve_provider_config env =
     map_option (\<lambda>key. \<lparr> ep_key_source = key,
         ep_base_url = env_nonempty env ''BASECRAWL_EXTRACT_BASE_URL'',
         ep_model = env_nonempty env ''BASECRAWL_EXTRACT_MODEL'' \<rparr>)
       (List.find (\<lambda>name. env_nonempty env name \<noteq> None) EXTRACT_API_KEY_ENVS)"

definition is_object :: "json \<Rightarrow> bool" where
  "is_object v = (case v of JObj _ \<Rightarrow> True | _ \<Rightarrow> False)"

definition validate_schema_text ::
    "(string \<Rightarrow> string + json) \<Rightarrow> string option \<Rightarrow> (core_error, json option) result" where
  "validate_schema_text parse_json schema =
     (let raw = (case schema of None \<Rightarrow> [] | Some s \<Rightarrow> trim s)
      in if raw = [] then Inr None
         else case parse_json raw of
           Inl e \<Rightarrow> Inl (InvalidJsonSchema (''schema is not valid JSON: '' @ e))
         | Inr value \<Rightarrow>
             if is_object value then Inr (Some value)
             else Inl (InvalidJsonSchema (''schema must be a JSON object (e.g. {\"type\":\"object\",...})'')))"

definition gate_structured_extraction ::
    "(string \<Rightarrow> string + json) \<Rightarrow> env \<Rightarrow> string option \<Rightarrow> string option \<Rightarrow> (core_error, unit) result" where
  "gate_structured_extraction parse_json env schema prompt =
     bind_res (validate_schema_text parse_json schema) (\<lambda>_.
       case resolve_provider_config env of
         None \<Rightarrow> Inl (StructuredExtractionUnsupported ProviderNotConfigured)
       | Some cfg \<Rightarrow>
           if ep_base_url cfg = None
           then Inl (StructuredExtractionUnsupported ExtractorNotAvailable)
           else Inl (StructuredExtractionUnsupported ExtractorNotAvailable))"

text \<open>
  The extraction gate never opens: for every environment, schema and prompt it is an error.
  A schema that is not a JSON object is reported first; otherwise the reason says whether any of
  the three key variables has a non-blank value.
\<close>

theorem gate_structured_extraction_closed:
  "gate_structured_extraction parse_json env schema prompt =
     (case validate_schema_text parse_json schema of
        Inl e \<Rightarrow> Inl e
      | Inr _ \<Rightarrow> Inl (StructuredExtractionUnsupported
          (if \<exists>name \<in> set EXTRACT_API_KEY_ENVS. \<exists>v. env name = Some v \<and> trim v \<noteq> []
           then ExtractorNotAvailable else ProviderNotConfigured)))
   \<and> \<not> is_ok (gate_structured_extraction parse_json env schema prompt)"
proof -
  have e: "env_nonempty env name \<noteq> None \<longleftrightarrow> (\<exists>v. env name = Some v \<and> trim v \<noteq> [])" for name
    by (simp add: env_nonempty_def split: option.splits)
  have r: "resolve_provider_config env = None \<longleftrightarrow>
      \<not> (\<exists>name \<in> set EXTRACT_API_KEY_ENVS. \<exists>v. env name = Some v \<and> trim v \<noteq> [])"
    unfolding resolve_provider_config_def e by (auto simp: find_None_iff)
  show ?thesis
  proof (cases "resolve_provider_config env")
    case None
    with r have "\<not> (\<exists>name \<in> set EXTRACT_API_KEY_ENVS. \<exists>v. env name = Some v \<and> trim v \<noteq> [])" by blast
    with None show ?thesis
      by (simp add: gate_structured_extraction_def split: sum.splits)
  next
    case (Some cfg)
    with r have "\<exists>name \<in> set EXTRACT_API_KEY_ENVS. \<exists>v. env name = Some v \<and> trim v \<noteq> []" by simp
    with Some show ?thesis
      by (simp add: gate_structured_extraction_def split: sum.splits)
  qed
qed

section \<open>Content classes\<close>

datatype document_kind = Pdf | Office

datatype content_kind = HtmlContent | TextContent | DocumentContent document_kind | BinaryContent

definition office_types :: "string list" where
  "office_types =
     [''application/vnd.openxmlformats-officedocument.wordprocessingml.document'',
      ''application/vnd.openxmlformats-officedocument.wordprocessingml.template'',
      ''application/vnd.openxmlformats-officedocument.presentationml.presentation'',
      ''application/vnd.openxmlformats-officedocument.presentationml.template'',
      ''application/vnd.openxmlformats-officedocument.spreadsheetml.sheet'',
      ''application/vnd.openxmlformats-officedocument.spreadsheetml.template'',
      ''application/vnd.oasis.opendocument.text'',
      ''application/vnd.oasis.opendocument.presentation'',
      ''application/vnd.oasis.opendocument.spreadsheet'']"

definition media_type :: "string \<Rightarrow> string" where
  "media_type content_type = to_lower (trim (hd (split_on (CHR '';'') content_type)))"

definition classify_media :: "string \<Rightarrow> content_kind" where
  "classify_media m =
     (if m = ''text/html'' \<or> m = ''application/xhtml+xml'' then HtmlContent
      else if m = ''application/pdf'' then DocumentContent Pdf
      else if m \<in> set office_types then DocumentContent Office
      else if starts_with m ''text/'' \<or> m = ''application/json'' \<or> ends_with m ''+json''
            \<or> m = ''application/xml'' \<or> ends_with m ''+xml''
            \<or> m \<in> {''application/javascript'', ''application/ecmascript'', ''application/sql'',
                    ''application/graphql''}
      then TextContent else BinaryContent)"

definition classify :: "string option \<Rightarrow> content_kind" where
  "classify content_type =
     (case content_type of None \<Rightarrow> HtmlContent | Some ct \<Rightarrow> classify_media (media_type ct))"

text \<open>Parameters and letter case never change the class.\<close>

lemma classify_parameters:
  "CHR '';'' \<notin> set m \<Longrightarrow> classify (Some (m @ '';'' @ ps)) = classify (Some m)"
  by (simp add: classify_def media_type_def split_on_append split_on_single)

section \<open>Proxy classes and fetch paths\<close>

datatype proxy_class = ClassDirect | Datacenter | Residential | Mobile

fun proxy_class_str :: "proxy_class \<Rightarrow> string" where
  "proxy_class_str ClassDirect = ''direct''"
| "proxy_class_str Datacenter = ''datacenter''"
| "proxy_class_str Residential = ''residential''"
| "proxy_class_str Mobile = ''mobile''"

definition parse_proxy_class :: "string \<Rightarrow> proxy_class option" where
  "parse_proxy_class raw =
     (let t = to_lower (trim raw)
      in if t = ''direct'' \<or> t = ''none'' then Some ClassDirect
         else if t = ''datacenter'' \<or> t = ''dc'' then Some Datacenter
         else if t = ''residential'' \<or> t = ''res'' then Some Residential
         else if t = ''mobile'' then Some Mobile
         else None)"

definition requires_upstream :: "proxy_class \<Rightarrow> bool" where
  "requires_upstream c \<longleftrightarrow> c \<noteq> ClassDirect"

datatype fetch_path = PathDirect | PathChromium

fun fetch_path_str :: "fetch_path \<Rightarrow> string" where
  "fetch_path_str PathDirect = ''direct''"
| "fetch_path_str PathChromium = ''chromium''"

definition parse_fetch_path :: "string \<Rightarrow> fetch_path option" where
  "parse_fetch_path raw =
     (let t = to_lower (trim raw)
      in if t \<in> {''direct'', ''soft'', ''rustls''} then Some PathDirect
         else if t \<in> {''chromium'', ''browser'', ''hard'', ''chrome''} then Some PathChromium
         else None)"

lemma proxy_class_roundtrip: "parse_proxy_class (proxy_class_str c) = Some c"
  by (cases c; hypsubst; code_simp)

lemma fetch_path_roundtrip: "parse_fetch_path (fetch_path_str p) = Some p"
  by (cases p; hypsubst; code_simp)

end
