(* ===== verification/Scrape_Proof.thy ===== *)
theory Scrape_Proof
  imports Fetch Product_Options
begin

text \<open>
  The wire types of \<^verbatim>\<open>basecrawl-proof/src/lib.rs\<close> and their serialisation. Serialisation by
  \<^verbatim>\<open>serde\<close> is the value that is written: an object lists the fields of a struct in declaration
  order, less the fields a \<^verbatim>\<open>skip_serializing_if\<close> drops; \<^verbatim>\<open>serde_json\<close>'s text of a value is the
  parameter \<open>write\<close>. A \<^verbatim>\<open>f64\<close> is its bit pattern, and \<open>f64_json\<close> is the JSON number it prints as.
\<close>

type_synonym f64 = "64 word"

definition SCRAPE_PROOF_VERSION :: nat where
  "SCRAPE_PROOF_VERSION = 1"

section \<open>The types\<close>

record request_block =
  rq_method :: string
  rq_url :: string
  rq_headers_hash :: "string option"
  rq_body_hash :: "string option"
  rq_request_hash :: "string option"
  rq_formats :: "string list"

datatype certificate_validation = NotApplicable | Validated | InsecureDiagnostic

record tls_block =
  tls_certificate_validation :: certificate_validation
  tls_negotiated_version :: "string option"
  tls_sni :: "string option"
  tls_server_cert_chain_der :: "string list"
  tls_cert_chain_hash :: "string option"
  tls_server_ephemeral_pubkey :: "string option"
  tls_ct_scts :: "string list"
  tls_ocsp :: "string option"
  tls_handshake_transcript_hash :: "string option"

definition default_tls :: tls_block where
  "default_tls =
     \<lparr> tls_certificate_validation = NotApplicable, tls_negotiated_version = None, tls_sni = None,
       tls_server_cert_chain_der = [], tls_cert_chain_hash = None, tls_server_ephemeral_pubkey = None,
       tls_ct_scts = [], tls_ocsp = None, tls_handshake_transcript_hash = None \<rparr>"

record response_block =
  rs_status_code :: "nat option"
  rs_headers_hash :: "string option"
  rs_body_hash :: "string option"
  rs_content_length :: "nat option"
  rs_content_type :: "string option"
  rs_body_truncated :: bool
  rs_body_max_bytes :: "nat option"
  rs_final_url :: "string option"
  rs_redirect_chain :: "redirect_hop list"
  rs_render_subresource_count :: nat
  rs_render_subresource_max_count :: nat
  rs_render_resource_bytes :: nat
  rs_render_max_bytes :: nat
  rs_render_resource_cap_exceeded :: bool

record format_completeness =
  cf_requested :: bool
  cf_present :: bool
  cf_byte_size :: nat
  cf_key_field_count :: nat

record completeness_manifest =
  cm_version :: nat
  cm_requested_format_count :: nat
  cm_present_format_count :: nat
  cm_formats :: "(string, format_completeness) btree"

record result_block =
  rb_formats_produced :: "(string, json) btree"
  rb_result_hash :: "string option"
  rb_completeness_manifest :: completeness_manifest
  rb_manifest_sha256 :: "string option"
  rb_crawled_urls :: "string list"

record soft_tls_audit =
  st_profile :: string
  st_ja_label :: string
  st_soft_ja3 :: string
  st_soft_ja4 :: string

record egress_block =
  eg_egress_ip :: "string option"
  eg_landmark_rtts :: "(string, f64) btree"
  eg_timestamp :: "string option"
  eg_fingerprint_seed :: "string option"
  eg_proxy_class :: "proxy_class option"
  eg_fetch_path :: "fetch_path option"
  eg_soft_tls_impersonate :: "soft_tls_audit option"

record tdx_measurement =
  tm_mrtd :: string
  tm_rtmr0 :: string
  tm_rtmr1 :: string
  tm_rtmr2 :: string
  tm_rtmr3 :: string

record attestation_block =
  at_tee_type :: "string option"
  at_quote :: "string option"
  at_measurement :: "tdx_measurement option"
  at_report_data :: "string option"

definition no_attestation :: attestation_block where
  "no_attestation = \<lparr> at_tee_type = None, at_quote = None, at_measurement = None, at_report_data = None \<rparr>"

record sdk_signature =
  ss_enclave_pubkey :: "string option"
  ss_sig :: "string option"

record scrape_proof =
  sp_version :: nat
  sp_task_id :: "string option"
  sp_nonce :: "string option"
  sp_request :: request_block
  sp_tls :: tls_block
  sp_response :: response_block
  sp_result :: result_block
  sp_egress :: egress_block
  sp_attestation :: attestation_block
  sp_sdk_signature :: sdk_signature

section \<open>Serialisation\<close>

abbreviation jnat :: "nat \<Rightarrow> json" where
  "jnat n \<equiv> JNum (int n)"

abbreviation jstrs :: "string list \<Rightarrow> json" where
  "jstrs ss \<equiv> JArr (map JStr ss)"

abbreviation jostr :: "string option \<Rightarrow> json" where
  "jostr \<equiv> jopt JStr"

text \<open>A field with \<^verbatim>\<open>skip_serializing_if = "Option::is_none"\<close>.\<close>

definition skip_none :: "string \<Rightarrow> ('a \<Rightarrow> json) \<Rightarrow> 'a option \<Rightarrow> (string \<times> json) list" where
  "skip_none k f x = (case x of None \<Rightarrow> [] | Some a \<Rightarrow> [(k, f a)])"

definition request_value :: "request_block \<Rightarrow> json" where
  "request_value r = JObj
     [(''method'', JStr (rq_method r)), (''url'', JStr (rq_url r)),
      (''headers_hash'', jostr (rq_headers_hash r)), (''body_hash'', jostr (rq_body_hash r)),
      (''request_hash'', jostr (rq_request_hash r)), (''formats'', jstrs (rq_formats r))]"

fun certificate_validation_str :: "certificate_validation \<Rightarrow> string" where
  "certificate_validation_str NotApplicable = ''not_applicable''"
| "certificate_validation_str Validated = ''validated''"
| "certificate_validation_str InsecureDiagnostic = ''insecure_diagnostic''"

definition tls_value :: "tls_block \<Rightarrow> json" where
  "tls_value t = JObj
     [(''certificate_validation'', JStr (certificate_validation_str (tls_certificate_validation t))),
      (''negotiated_version'', jostr (tls_negotiated_version t)), (''sni'', jostr (tls_sni t)),
      (''server_cert_chain_der'', jstrs (tls_server_cert_chain_der t)),
      (''cert_chain_hash'', jostr (tls_cert_chain_hash t)),
      (''server_ephemeral_pubkey'', jostr (tls_server_ephemeral_pubkey t)),
      (''ct_scts'', jstrs (tls_ct_scts t)), (''ocsp'', jostr (tls_ocsp t)),
      (''handshake_transcript_hash'', jostr (tls_handshake_transcript_hash t))]"

definition redirect_value :: "redirect_hop \<Rightarrow> json" where
  "redirect_value h = JObj
     [(''status_code'', jnat (rh_status_code h)), (''url'', JStr (rh_url h)),
      (''location'', JStr (rh_location h))]"

definition response_value :: "response_block \<Rightarrow> json" where
  "response_value r = JObj
     [(''status_code'', jopt jnat (rs_status_code r)), (''headers_hash'', jostr (rs_headers_hash r)),
      (''body_hash'', jostr (rs_body_hash r)), (''content_length'', jopt jnat (rs_content_length r)),
      (''content_type'', jostr (rs_content_type r)), (''body_truncated'', JBool (rs_body_truncated r)),
      (''body_max_bytes'', jopt jnat (rs_body_max_bytes r)), (''final_url'', jostr (rs_final_url r)),
      (''redirect_chain'', JArr (map redirect_value (rs_redirect_chain r))),
      (''render_subresource_count'', jnat (rs_render_subresource_count r)),
      (''render_subresource_max_count'', jnat (rs_render_subresource_max_count r)),
      (''render_resource_bytes'', jnat (rs_render_resource_bytes r)),
      (''render_max_bytes'', jnat (rs_render_max_bytes r)),
      (''render_resource_cap_exceeded'', JBool (rs_render_resource_cap_exceeded r))]"

definition format_completeness_value :: "format_completeness \<Rightarrow> json" where
  "format_completeness_value c = JObj
     [(''requested'', JBool (cf_requested c)), (''present'', JBool (cf_present c)),
      (''byte_size'', jnat (cf_byte_size c)), (''key_field_count'', jnat (cf_key_field_count c))]"

definition completeness_value :: "completeness_manifest \<Rightarrow> json" where
  "completeness_value c = JObj
     [(''version'', jnat (cm_version c)),
      (''requested_format_count'', jnat (cm_requested_format_count c)),
      (''present_format_count'', jnat (cm_present_format_count c)),
      (''formats'', JObj (map (\<lambda>(k, v). (k, format_completeness_value v)) (cm_formats c)))]"

definition result_value :: "result_block \<Rightarrow> json" where
  "result_value r = JObj
     ([(''formats_produced'', JObj (rb_formats_produced r)), (''result_hash'', jostr (rb_result_hash r)),
       (''completeness_manifest'', completeness_value (rb_completeness_manifest r)),
       (''manifest_sha256'', jostr (rb_manifest_sha256 r))]
      @ (if rb_crawled_urls r = [] then [] else [(''crawled_urls'', jstrs (rb_crawled_urls r))]))"

definition soft_tls_value :: "soft_tls_audit \<Rightarrow> json" where
  "soft_tls_value s = JObj
     [(''profile'', JStr (st_profile s)), (''ja_label'', JStr (st_ja_label s)),
      (''soft_ja3'', JStr (st_soft_ja3 s)), (''soft_ja4'', JStr (st_soft_ja4 s))]"

definition egress_value :: "(f64 \<Rightarrow> json) \<Rightarrow> egress_block \<Rightarrow> json" where
  "egress_value f64_json e = JObj
     ([(''egress_ip'', jostr (eg_egress_ip e)),
       (''landmark_rtts'', JObj (map (\<lambda>(k, v). (k, f64_json v)) (eg_landmark_rtts e))),
       (''timestamp'', jostr (eg_timestamp e)),
       (''fingerprint_seed'', jostr (eg_fingerprint_seed e))]
      @ skip_none ''proxy_class'' (\<lambda>c. JStr (proxy_class_str c)) (eg_proxy_class e)
      @ skip_none ''fetch_path'' (\<lambda>p. JStr (fetch_path_str p)) (eg_fetch_path e)
      @ skip_none ''soft_tls_impersonate'' soft_tls_value (eg_soft_tls_impersonate e))"

definition measurement_value :: "tdx_measurement \<Rightarrow> json" where
  "measurement_value m = JObj
     [(''mrtd'', JStr (tm_mrtd m)), (''rtmr0'', JStr (tm_rtmr0 m)), (''rtmr1'', JStr (tm_rtmr1 m)),
      (''rtmr2'', JStr (tm_rtmr2 m)), (''rtmr3'', JStr (tm_rtmr3 m))]"

definition attestation_value :: "attestation_block \<Rightarrow> json" where
  "attestation_value a = JObj
     [(''tee_type'', jostr (at_tee_type a)), (''quote'', jostr (at_quote a)),
      (''measurement'', jopt measurement_value (at_measurement a)),
      (''report_data'', jostr (at_report_data a))]"

definition signature_value :: "sdk_signature \<Rightarrow> json" where
  "signature_value s = JObj
     [(''enclave_pubkey'', jostr (ss_enclave_pubkey s)), (''sig'', jostr (ss_sig s))]"

definition proof_value :: "(f64 \<Rightarrow> json) \<Rightarrow> scrape_proof \<Rightarrow> json" where
  "proof_value f64_json p = JObj
     ([(''version'', jnat (sp_version p))]
      @ skip_none ''task_id'' JStr (sp_task_id p)
      @ skip_none ''nonce'' JStr (sp_nonce p)
      @ [(''request'', request_value (sp_request p)), (''tls'', tls_value (sp_tls p)),
         (''response'', response_value (sp_response p)), (''result'', result_value (sp_result p)),
         (''egress'', egress_value f64_json (sp_egress p)),
         (''attestation'', attestation_value (sp_attestation p)),
         (''sdk_signature'', signature_value (sp_sdk_signature p))])"

definition to_canonical_json :: "(json \<Rightarrow> string) \<Rightarrow> (f64 \<Rightarrow> json) \<Rightarrow> scrape_proof \<Rightarrow> string" where
  "to_canonical_json write f64_json p = write (proof_value f64_json p)"

definition unsigned_proof :: "scrape_proof \<Rightarrow> scrape_proof" where
  "unsigned_proof p = p \<lparr> sp_sdk_signature := (sp_sdk_signature p) \<lparr> ss_sig := None \<rparr> \<rparr>"

definition to_canonical_signing_json :: "(json \<Rightarrow> string) \<Rightarrow> (f64 \<Rightarrow> json) \<Rightarrow> scrape_proof \<Rightarrow> string" where
  "to_canonical_signing_json write f64_json p = to_canonical_json write f64_json (unsigned_proof p)"

section \<open>Serialisation loses nothing\<close>

named_theorems serde_inject \<open>a serialised block determines the block\<close>

lemma jopt_inject:
  assumes "\<And>a b. f a = f b \<longleftrightarrow> a = b" and "\<And>a. f a \<noteq> JNull"
  shows "jopt f x = jopt f y \<longleftrightarrow> x = y"
  using assms by (cases x; cases y) (auto simp: jopt_def, metis)

lemma jostr_inject [serde_inject]: "jostr x = jostr y \<longleftrightarrow> x = y"
  by (rule jopt_inject) simp_all

lemma jonat_inject [serde_inject]: "jopt jnat x = jopt jnat y \<longleftrightarrow> x = y"
  by (rule jopt_inject) simp_all

lemma jstrs_inject [serde_inject]: "map JStr xs = map JStr ys \<longleftrightarrow> xs = ys"
  by (simp add: inj_map_eq_map inj_on_def)

lemma map_values_inject:
  assumes "inj_on f (snd ` set m \<union> snd ` set n)"
  shows "map (\<lambda>(k, v). (k, f v)) m = map (\<lambda>(k, v). (k, f v)) n \<longleftrightarrow> m = n"
  using assms
proof (induction m n rule: list_induct2')
  case (4 x xs y ys)
  have s: "inj_on f (snd ` set xs \<union> snd ` set ys)" using 4(2) by (rule inj_on_subset) auto
  have v: "f (snd x) = f (snd y) \<longleftrightarrow> snd x = snd y"
    by (rule inj_on_eq_iff[OF 4(2)]) simp_all
  show ?case using 4(1)[OF s] v by (simp add: split_beta prod_eq_iff)
qed auto

lemma request_inject [serde_inject]: "request_value r = request_value s \<longleftrightarrow> r = s"
  by (cases r; cases s) (simp add: request_value_def serde_inject)

lemma certificate_validation_inject [serde_inject]:
  "certificate_validation_str a = certificate_validation_str b \<longleftrightarrow> a = b"
  by (cases a; cases b) simp_all

lemma tls_inject [serde_inject]: "tls_value s = tls_value t \<longleftrightarrow> s = t"
  by (cases s; cases t) (simp add: tls_value_def serde_inject)

lemma redirect_inject [serde_inject]: "redirect_value h = redirect_value g \<longleftrightarrow> h = g"
  by (cases h; cases g) (simp add: redirect_value_def)

lemma redirects_inject [serde_inject]: "map redirect_value hs = map redirect_value gs \<longleftrightarrow> hs = gs"
  by (simp add: inj_map_eq_map inj_on_def serde_inject)

lemma response_inject [serde_inject]: "response_value r = response_value s \<longleftrightarrow> r = s"
  by (cases r; cases s) (simp add: response_value_def serde_inject)

lemma format_completeness_inject [serde_inject]:
  "format_completeness_value c = format_completeness_value d \<longleftrightarrow> c = d"
  by (cases c; cases d) (simp add: format_completeness_value_def)

lemma completeness_inject [serde_inject]: "completeness_value c = completeness_value d \<longleftrightarrow> c = d"
proof -
  have "inj_on format_completeness_value A" for A by (simp add: inj_on_def serde_inject)
  then show ?thesis
    by (cases c; cases d) (simp add: completeness_value_def map_values_inject)
qed

lemma result_inject [serde_inject]: "result_value r = result_value s \<longleftrightarrow> r = s"
  by (cases r; cases s) (auto simp: result_value_def serde_inject)

lemma soft_tls_inject [serde_inject]: "soft_tls_value s = soft_tls_value t \<longleftrightarrow> s = t"
  by (cases s; cases t) (simp add: soft_tls_value_def)

lemma proxy_class_str_inject [serde_inject]: "proxy_class_str a = proxy_class_str b \<longleftrightarrow> a = b"
  by (cases a; cases b) simp_all

lemma fetch_path_str_inject [serde_inject]: "fetch_path_str a = fetch_path_str b \<longleftrightarrow> a = b"
  by (cases a; cases b) simp_all

lemma egress_inject:
  assumes "inj_on f64_json (snd ` set (eg_landmark_rtts e) \<union> snd ` set (eg_landmark_rtts d))"
  shows "egress_value f64_json e = egress_value f64_json d \<longleftrightarrow> e = d"
proof -
  have [simp]: "map (\<lambda>(k, v). (k, f64_json v)) (eg_landmark_rtts e)
      = map (\<lambda>(k, v). (k, f64_json v)) (eg_landmark_rtts d) \<longleftrightarrow> eg_landmark_rtts e = eg_landmark_rtts d"
    by (rule map_values_inject[OF assms])
  have "egress_value f64_json e = egress_value f64_json d \<longleftrightarrow>
      eg_egress_ip e = eg_egress_ip d \<and> eg_landmark_rtts e = eg_landmark_rtts d
      \<and> eg_timestamp e = eg_timestamp d \<and> eg_fingerprint_seed e = eg_fingerprint_seed d
      \<and> eg_proxy_class e = eg_proxy_class d \<and> eg_fetch_path e = eg_fetch_path d
      \<and> eg_soft_tls_impersonate e = eg_soft_tls_impersonate d"
    by (auto simp: egress_value_def serde_inject skip_none_def split: option.splits)
  then show ?thesis by (cases e; cases d) simp
qed

lemma measurement_inject [serde_inject]: "measurement_value m = measurement_value n \<longleftrightarrow> m = n"
  by (cases m; cases n) (simp add: measurement_value_def)

lemma omeasurement_inject [serde_inject]: "jopt measurement_value m = jopt measurement_value n \<longleftrightarrow> m = n"
  by (rule jopt_inject) (simp_all add: serde_inject, simp add: measurement_value_def)

lemma attestation_inject [serde_inject]: "attestation_value a = attestation_value b \<longleftrightarrow> a = b"
  by (cases a; cases b) (simp add: attestation_value_def serde_inject)

lemma signature_inject [serde_inject]: "signature_value s = signature_value t \<longleftrightarrow> s = t"
  by (cases s; cases t) (simp add: signature_value_def serde_inject)

lemma proof_inject:
  assumes "inj_on f64_json (snd ` set (eg_landmark_rtts (sp_egress p)) \<union> snd ` set (eg_landmark_rtts (sp_egress q)))"
  shows "proof_value f64_json p = proof_value f64_json q \<longleftrightarrow> p = q"
proof -
  have "proof_value f64_json p = proof_value f64_json q \<longleftrightarrow>
      sp_version p = sp_version q \<and> sp_task_id p = sp_task_id q \<and> sp_nonce p = sp_nonce q
      \<and> sp_request p = sp_request q \<and> sp_tls p = sp_tls q \<and> sp_response p = sp_response q
      \<and> sp_result p = sp_result q \<and> sp_egress p = sp_egress q
      \<and> sp_attestation p = sp_attestation q \<and> sp_sdk_signature p = sp_sdk_signature q"
    by (auto simp: proof_value_def serde_inject egress_inject[OF assms] skip_none_def split: option.splits)
  then show ?thesis by (cases p; cases q) simp
qed

lemma to_canonical_signing_json_sig:
  "to_canonical_signing_json write f64_json
      (p \<lparr> sp_sdk_signature := (sp_sdk_signature p) \<lparr> ss_sig := s \<rparr> \<rparr>)
   = to_canonical_signing_json write f64_json p"
  by (simp add: to_canonical_signing_json_def unsigned_proof_def)

text \<open>
  C8: The enclave signs every field of a proof. The signed text does not depend on the signature
  slot, and two proofs with the same signed text agree in everything else, the public key and all
  nested blocks included, when the JSON writer keeps the two values apart and the landmark numbers
  of the two proofs print differently where they differ.
\<close>

theorem signing_surface_commits:
  assumes "inj_on write {proof_value f64_json (unsigned_proof p), proof_value f64_json (unsigned_proof q)}"
    and "inj_on f64_json
       (snd ` set (eg_landmark_rtts (sp_egress p)) \<union> snd ` set (eg_landmark_rtts (sp_egress q)))"
  shows "(to_canonical_signing_json write f64_json p = to_canonical_signing_json write f64_json q
            \<longleftrightarrow> unsigned_proof p = unsigned_proof q)
       \<and> to_canonical_signing_json write f64_json
            (p \<lparr> sp_sdk_signature := (sp_sdk_signature p) \<lparr> ss_sig := s \<rparr> \<rparr>)
         = to_canonical_signing_json write f64_json p"
proof
  have "inj_on f64_json (snd ` set (eg_landmark_rtts (sp_egress (unsigned_proof p)))
      \<union> snd ` set (eg_landmark_rtts (sp_egress (unsigned_proof q))))"
    using assms(2) by (simp add: unsigned_proof_def)
  from proof_inject[OF this] show "to_canonical_signing_json write f64_json p
      = to_canonical_signing_json write f64_json q \<longleftrightarrow> unsigned_proof p = unsigned_proof q"
    using inj_on_eq_iff[OF assms(1)] by (simp add: to_canonical_signing_json_def to_canonical_json_def)
qed (rule to_canonical_signing_json_sig)

section \<open>A concrete proof\<close>

definition demo_proof :: "string \<Rightarrow> scrape_proof" where
  "demo_proof nonce =
     \<lparr> sp_version = SCRAPE_PROOF_VERSION, sp_task_id = Some ''task-1'', sp_nonce = Some nonce,
       sp_request = \<lparr> rq_method = ''GET'', rq_url = ''https://a.example/'', rq_headers_hash = Some ''11'',
         rq_body_hash = Some ''22'', rq_request_hash = Some ''33'', rq_formats = [''markdown''] \<rparr>,
       sp_tls = default_tls \<lparr> tls_certificate_validation := Validated, tls_cert_chain_hash := Some ''44'',
         tls_handshake_transcript_hash := Some ''55'' \<rparr>,
       sp_response = \<lparr> rs_status_code = Some 200, rs_headers_hash = Some ''66'', rs_body_hash = Some ''67'',
         rs_content_length = Some 4, rs_content_type = None, rs_body_truncated = False,
         rs_body_max_bytes = Some 64, rs_final_url = Some ''https://a.example/'', rs_redirect_chain = [],
         rs_render_subresource_count = 0, rs_render_subresource_max_count = 8,
         rs_render_resource_bytes = 0, rs_render_max_bytes = 64, rs_render_resource_cap_exceeded = False \<rparr>,
       sp_result = \<lparr> rb_formats_produced = [(''markdown'', JStr ''hi'')], rb_result_hash = Some ''77'',
         rb_completeness_manifest = \<lparr> cm_version = 1, cm_requested_format_count = 1,
           cm_present_format_count = 1, cm_formats = [] \<rparr>,
         rb_manifest_sha256 = Some ''78'', rb_crawled_urls = [] \<rparr>,
       sp_egress = \<lparr> eg_egress_ip = Some ''203.0.113.5'', eg_landmark_rtts = [(''fra'', 0)],
         eg_timestamp = Some ''now'', eg_fingerprint_seed = Some ''88'', eg_proxy_class = Some ClassDirect,
         eg_fetch_path = Some PathDirect, eg_soft_tls_impersonate = None \<rparr>,
       sp_attestation = no_attestation,
       sp_sdk_signature = \<lparr> ss_enclave_pubkey = Some ''99'', ss_sig = None \<rparr> \<rparr>"

theorem signing_surface_commits_witness:
  "to_canonical_signing_json (\<lambda>v. concat (json_strings v)) (\<lambda>w. JNum (uint w)) (demo_proof ''n1'')
     \<noteq> to_canonical_signing_json (\<lambda>v. concat (json_strings v)) (\<lambda>w. JNum (uint w)) (demo_proof ''n2'')"
proof -
  let ?v = "\<lambda>n. proof_value (\<lambda>w. JNum (uint w)) (unsigned_proof (demo_proof n))"
  have w: "concat (json_strings (?v ''n1'')) \<noteq> concat (json_strings (?v ''n2''))" by code_simp
  then have i: "inj_on (\<lambda>v. concat (json_strings v)) {?v ''n1'', ?v ''n2''}" by auto
  have f: "inj_on (\<lambda>w. JNum (uint w)) (A :: f64 set)" for A by (auto simp: inj_on_def intro: word_uint_eqI)
  have "unsigned_proof (demo_proof ''n1'') \<noteq> unsigned_proof (demo_proof ''n2'')"
    by (simp add: demo_proof_def unsigned_proof_def)
  then show ?thesis using signing_surface_commits[OF i f, of None] by simp
qed

end
