(* ===== verification/Canonical.thy ===== *)
theory Canonical
  imports Scrape_Proof
begin

text \<open>
  The digests of \<^verbatim>\<open>basecrawl-core/src/canonical.rs\<close>: request, header, response, result and
  reconciliation hashes, the completeness manifest, and the report data a hardware quote commits
  to. Feeding a hasher piece by piece hashes the concatenation. The text of a JSON value is the
  parameter \<open>write\<close>. That a hash function tells two inputs apart is an assumption on those inputs.
\<close>

definition DETERMINISTIC_FORMATS :: "string list" where
  "DETERMINISTIC_FORMATS = [''markdown'', ''html'', ''rawHtml'', ''links'', ''metadata'']"

definition COMPLETENESS_MANIFEST_VERSION :: nat where
  "COMPLETENESS_MANIFEST_VERSION = 1"

definition ATTESTATION_DOMAIN_TAG :: string where
  "ATTESTATION_DOMAIN_TAG = ''basecrawl/scrape-proof-report-data/v1'' @ [CHR 0x00]"

section \<open>Zero-terminated sequences\<close>

definition nul_terminated :: "string list \<Rightarrow> string" where
  "nul_terminated cs = concat (map (\<lambda>c. c @ [CHR 0x00]) cs)"

definition nul_free :: "string \<Rightarrow> bool" where
  "nul_free s \<longleftrightarrow> CHR 0x00 \<notin> set s"

lemma nul_terminated_simps [simp]:
  "nul_terminated [] = []"
  "nul_terminated (c # cs) = c @ CHR 0x00 # nul_terminated cs"
  "nul_terminated (cs @ ds) = nul_terminated cs @ nul_terminated ds"
  by (simp_all add: nul_terminated_def)

text \<open>Each component ends at the first zero byte, so the sequence can be read back.\<close>

lemma append_sep_inject:
  "x \<notin> set a \<Longrightarrow> x \<notin> set b \<Longrightarrow> a @ x # r = b @ x # s \<longleftrightarrow> a = b \<and> r = s"
  by (induction a b rule: list_induct2') auto

lemma nul_terminated_inject:
  "list_all nul_free cs \<Longrightarrow> list_all nul_free ds \<Longrightarrow>
   nul_terminated cs = nul_terminated ds \<longleftrightarrow> cs = ds"
  by (induction cs ds rule: list_induct2') (auto simp: nul_free_def append_sep_inject)

lemma sha256_hex_inject:
  "inj_on (sha256 ops) {a, b} \<Longrightarrow> sha256_hex ops a = sha256_hex ops b \<longleftrightarrow> a = b"
  by (auto simp: sha256_hex_def hex_lower_def hex_encode_inject inj_on_def)

section \<open>Request digests\<close>

definition headers_hash :: "crypto_ops \<Rightarrow> headers \<Rightarrow> string" where
  "headers_hash ops hs = sha256_hex ops (nul_terminated (concat (map (\<lambda>(n, v). [to_lower n, v]) hs)))"

definition body_hash :: "crypto_ops \<Rightarrow> string \<Rightarrow> string" where
  "body_hash ops body = sha256_hex ops body"

definition response_hash :: "crypto_ops \<Rightarrow> string \<Rightarrow> string \<Rightarrow> string" where
  "response_hash ops hh bh = sha256_hex ops (hh @ bh)"

definition request_hash :: "crypto_ops \<Rightarrow> string \<Rightarrow> string \<Rightarrow> string \<Rightarrow> string \<Rightarrow> string" where
  "request_hash ops m url hh bh = sha256_hex ops (nul_terminated [m, url, hh, bh])"

definition manifest_sha256 :: "crypto_ops \<Rightarrow> string \<Rightarrow> string option \<Rightarrow> string \<Rightarrow> string" where
  "manifest_sha256 ops url nonce rh =
     sha256_hex ops (nul_terminated [url, case nonce of None \<Rightarrow> [] | Some n \<Rightarrow> n, rh])"

text \<open>The four components as \<^verbatim>\<open>scrape\<close> computes them for one request.\<close>

definition request_digest :: "crypto_ops \<Rightarrow> string \<Rightarrow> string \<Rightarrow> headers \<Rightarrow> string \<Rightarrow> string" where
  "request_digest ops m url hs body =
     request_hash ops m url (headers_hash ops hs) (body_hash ops body)"

lemma nul_free_hex: "nul_free (hex_encode s)"
proof -
  have "\<not> is_lower_hex (CHR 0x00)" by code_simp
  then show ?thesis using hex_encode_lower_hex[of s] by (auto simp: nul_free_def list_all_iff)
qed

lemma nul_free_sha256_hex: "nul_free (sha256_hex ops s)"
  by (simp add: sha256_hex_def hex_lower_def nul_free_hex)

lemma header_pairs_inject:
  "concat (map (\<lambda>(n, v). [to_lower n, v]) hs) = concat (map (\<lambda>(n, v). [to_lower n, v]) gs)
     \<longleftrightarrow> map (map_prod to_lower id) hs = map (map_prod to_lower id) gs"
  by (induction hs gs rule: list_induct2') (auto split: prod.splits)

lemma nul_iff_code: "c = CHR 0x00 \<longleftrightarrow> code c = 0"
proof -
  have "code (CHR 0x00) = 0" by simp
  then show ?thesis by (metis of_char_eq_iff)
qed

lemma nul_free_to_lower: "nul_free s \<Longrightarrow> nul_free (to_lower s)"
proof -
  have "CHR 0x00 = lower_char c \<Longrightarrow> c = CHR 0x00" for c
    unfolding nul_iff_code eq_commute[of "CHR 0x00"] by (simp add: code_lower_char split: if_splits)
  then show "nul_free s \<Longrightarrow> nul_free (to_lower s)"
    unfolding nul_free_def to_lower_def set_map by blast
qed

lemma headers_hash_commits:
  assumes "\<forall>(n, v) \<in> set hs \<union> set gs. nul_free n \<and> nul_free v"
    and "inj_on (sha256 ops) {nul_terminated (concat (map (\<lambda>(n, v). [to_lower n, v]) hs)),
           nul_terminated (concat (map (\<lambda>(n, v). [to_lower n, v]) gs))}"
  shows "headers_hash ops hs = headers_hash ops gs
     \<longleftrightarrow> map (map_prod to_lower id) hs = map (map_prod to_lower id) gs"
proof -
  have "list_all nul_free (concat (map (\<lambda>(n, v). [to_lower n, v]) xs))"
    if "\<forall>(n, v) \<in> set xs. nul_free n \<and> nul_free v" for xs
    using that by (auto simp: list_all_iff nul_free_to_lower)
  then show ?thesis
    using assms by (simp add: headers_hash_def sha256_hex_inject nul_terminated_inject header_pairs_inject ball_Un)
qed

text \<open>
  The request digest commits to the whole request. Two requests whose parts have no zero
  byte get the same digest exactly when method, URL and body are equal and the header lists are
  equal up to the letter case of the names, in the same order, as long as the hash function tells
  the inputs apart that are fed to it.
\<close>

theorem request_digest_commits:
  assumes "nul_free m" "nul_free url" "nul_free m'" "nul_free url'"
    and "\<forall>(n, v) \<in> set hs \<union> set gs. nul_free n \<and> nul_free v"
    and "inj_on (sha256 ops) {nul_terminated (concat (map (\<lambda>(n, v). [to_lower n, v]) hs)),
           nul_terminated (concat (map (\<lambda>(n, v). [to_lower n, v]) gs))}"
    and "inj_on (sha256 ops) {body, body'}"
    and "inj_on (sha256 ops) {nul_terminated [m, url, headers_hash ops hs, body_hash ops body],
           nul_terminated [m', url', headers_hash ops gs, body_hash ops body']}"
  shows "request_digest ops m url hs body = request_digest ops m' url' gs body'
     \<longleftrightarrow> m = m' \<and> url = url' \<and> map (map_prod to_lower id) hs = map (map_prod to_lower id) gs
       \<and> body = body'"
proof -
  have "list_all nul_free [m, url, headers_hash ops hs, body_hash ops body]"
    "list_all nul_free [m', url', headers_hash ops gs, body_hash ops body']"
    using assms(1-4) by (simp_all add: headers_hash_def body_hash_def nul_free_sha256_hex)
  note inject = nul_terminated_inject[OF this]
  have "request_digest ops m url hs body = request_digest ops m' url' gs body' \<longleftrightarrow>
      [m, url, headers_hash ops hs, body_hash ops body] = [m', url', headers_hash ops gs, body_hash ops body']"
    unfolding request_digest_def request_hash_def sha256_hex_inject[OF assms(8)] by (rule inject)
  then show ?thesis
    using headers_hash_commits[OF assms(5,6)] sha256_hex_inject[OF assms(7)] by (simp add: body_hash_def)
qed

section \<open>The result hash\<close>

text \<open>The pieces one format contributes.\<close>

definition format_pieces :: "(json \<Rightarrow> string) \<Rightarrow> (string, json) btree \<Rightarrow> string \<Rightarrow> string list" where
  "format_pieces write produced name =
     (case bt_get produced name of None \<Rightarrow> [] | Some v \<Rightarrow> [name, write v])"

definition result_hash :: "crypto_ops \<Rightarrow> (json \<Rightarrow> string) \<Rightarrow> (string, json) btree \<Rightarrow> string" where
  "result_hash ops write produced =
     sha256_hex ops (nul_terminated (concat (map (format_pieces write produced) DETERMINISTIC_FORMATS)))"

lemma format_pieces_head:
  assumes "concat (map (format_pieces write m) names) = t # ts"
  shows "t \<in> set names"
  using assms by (induction names) (auto simp: format_pieces_def split: option.splits)

lemma format_pieces_inject:
  assumes "distinct names"
    and "\<forall>name v w. bt_get m name = Some v \<longrightarrow> bt_get n name = Some w \<longrightarrow> write v = write w \<longrightarrow> v = w"
    and "concat (map (format_pieces write m) names) = concat (map (format_pieces write n) names)"
  shows "\<forall>name \<in> set names. bt_get m name = bt_get n name"
  using assms(1,3)
proof (induction names)
  case (Cons a names)
  have fresh: "concat (map (format_pieces write k) names) \<noteq> a # ts" for k ts
    using format_pieces_head[of "write" k names a ts] Cons.prems(1) by auto
  have p: "format_pieces write k a = (case bt_get k a of None \<Rightarrow> [] | Some v \<Rightarrow> [a, write v])" for k
    by (simp add: format_pieces_def)
  have e: "format_pieces write m a @ concat (map (format_pieces write m) names)
      = format_pieces write n a @ concat (map (format_pieces write n) names)"
    using Cons.prems(2) by simp
  have same: "bt_get m a = bt_get n a
      \<and> concat (map (format_pieces write m) names) = concat (map (format_pieces write n) names)"
  proof (cases "bt_get m a")
    case None
    with e fresh[of m] show ?thesis by (cases "bt_get n a") (simp_all add: p)
  next
    case (Some v)
    with e fresh[of n, symmetric] assms(2) show ?thesis by (cases "bt_get n a") (auto simp: p)
  qed
  with Cons show ?case by auto
qed simp

text \<open>
  C9: The result hash is the hash of the deterministic surface. It is the same for results that
  agree on the five deterministic formats, whatever their screenshots and JSON extracts; and
  results with the same hash agree on those formats, when JSON texts have no zero byte and
  distinguish the values at hand, and the hash function tells its two inputs apart.
\<close>

theorem result_hash_surface:
  assumes "\<forall>name v. (bt_get m name = Some v \<or> bt_get n name = Some v) \<longrightarrow> nul_free (write v)"
    and "\<forall>name v w. bt_get m name = Some v \<longrightarrow> bt_get n name = Some w \<longrightarrow> write v = write w \<longrightarrow> v = w"
    and "inj_on (sha256 ops)
       {nul_terminated (concat (map (format_pieces write m) DETERMINISTIC_FORMATS)),
        nul_terminated (concat (map (format_pieces write n) DETERMINISTIC_FORMATS))}"
  shows "result_hash ops write m = result_hash ops write n
     \<longleftrightarrow> (\<forall>name \<in> set DETERMINISTIC_FORMATS. bt_get m name = bt_get n name)"
proof -
  have names: "\<forall>name \<in> set DETERMINISTIC_FORMATS. nul_free name" and d: "distinct DETERMINISTIC_FORMATS"
    by (simp_all add: DETERMINISTIC_FORMATS_def nul_free_def)
  have free: "list_all nul_free (concat (map (format_pieces write k) DETERMINISTIC_FORMATS))"
    if "k = m \<or> k = n" for k
    using that names assms(1) by (fastforce simp: list_all_iff format_pieces_def split: option.splits)
  have "result_hash ops write m = result_hash ops write n \<longleftrightarrow>
      concat (map (format_pieces write m) DETERMINISTIC_FORMATS)
      = concat (map (format_pieces write n) DETERMINISTIC_FORMATS)"
    using free by (simp add: result_hash_def sha256_hex_inject[OF assms(3)] nul_terminated_inject)
  also have "\<dots> \<longleftrightarrow> (\<forall>name \<in> set DETERMINISTIC_FORMATS. bt_get m name = bt_get n name)"
  proof
    assume "\<forall>name \<in> set DETERMINISTIC_FORMATS. bt_get m name = bt_get n name"
    then have "map (format_pieces write m) DETERMINISTIC_FORMATS
        = map (format_pieces write n) DETERMINISTIC_FORMATS"
      by (intro map_cong) (simp_all add: format_pieces_def)
    then show "concat (map (format_pieces write m) DETERMINISTIC_FORMATS)
        = concat (map (format_pieces write n) DETERMINISTIC_FORMATS)" by (rule arg_cong[of _ _ concat])
  qed (rule format_pieces_inject[OF d assms(2)])
  finally show ?thesis .
qed

section \<open>The completeness manifest\<close>

definition structural_field_count :: "json \<Rightarrow> nat" where
  "structural_field_count v =
     (case v of JObj m \<Rightarrow> length m | JArr xs \<Rightarrow> length xs | _ \<Rightarrow> 0)"

definition format_evidence :: "(json \<Rightarrow> string) \<Rightarrow> json option \<Rightarrow> format_completeness" where
  "format_evidence write v =
     \<lparr> cf_requested = True, cf_present = (v \<noteq> None \<and> v \<noteq> Some JNull),
       cf_byte_size = (case v of None \<Rightarrow> 0 | Some JNull \<Rightarrow> 0 | Some j \<Rightarrow> length (write j)),
       cf_key_field_count = (case v of None \<Rightarrow> 0 | Some JNull \<Rightarrow> 0 | Some j \<Rightarrow> structural_field_count j) \<rparr>"

definition add_format ::
    "(json \<Rightarrow> string) \<Rightarrow> (string, json) btree \<Rightarrow> string
     \<Rightarrow> nat \<times> (string, format_completeness) btree \<Rightarrow> nat \<times> (string, format_completeness) btree" where
  "add_format write produced fm st =
     (let ev = format_evidence write (bt_get produced fm)
      in (if cf_present ev then fst st + 1 else fst st, bt_insert fm ev (snd st)))"

definition completeness_manifest_of ::
    "(json \<Rightarrow> string) \<Rightarrow> string list \<Rightarrow> (string, json) btree \<Rightarrow> completeness_manifest" where
  "completeness_manifest_of write requested produced =
     (let (present, formats) = fold (add_format write produced) requested (0, [])
      in \<lparr> cm_version = COMPLETENESS_MANIFEST_VERSION, cm_requested_format_count = length requested,
           cm_present_format_count = present, cm_formats = formats \<rparr>)"

lemma fold_add_format:
  "bt_inv (snd st) \<Longrightarrow>
   fst (fold (add_format write produced) requested st)
     = fst st + length (filter (\<lambda>f. cf_present (format_evidence write (bt_get produced f))) requested)
   \<and> bt_inv (snd (fold (add_format write produced) requested st))
   \<and> (\<forall>f. bt_get (snd (fold (add_format write produced) requested st)) f
        = (if f \<in> set requested then Some (format_evidence write (bt_get produced f)) else bt_get (snd st) f))"
proof (induction requested arbitrary: st)
  case (Cons r requested)
  have "bt_inv (snd (add_format write produced r st))"
    using Cons.prems by (simp add: add_format_def Let_def bt_inv_insert)
  from Cons.IH[OF this] show ?case
    by (auto simp: add_format_def Let_def bt_get_insert)
qed simp

text \<open>
  The completeness manifest is truthful. It has an entry for exactly the requested formats;
  an entry is present exactly when a non-null value was produced, and then its size is the length
  of the value's text and its field count the number of top-level members, otherwise both are
  zero; the present count is the number of requested formats that are present.
\<close>

theorem completeness_manifest_truthful:
  "let cm = completeness_manifest_of write requested produced;
       present = (\<lambda>f. \<exists>j. bt_get produced f = Some j \<and> j \<noteq> JNull)
   in cm_requested_format_count cm = length requested
    \<and> cm_present_format_count cm = length (filter present requested)
    \<and> bt_inv (cm_formats cm)
    \<and> bt_get (cm_formats cm) f =
        (if f \<notin> set requested then None
         else case bt_get produced f of
           None \<Rightarrow> Some \<lparr> cf_requested = True, cf_present = False, cf_byte_size = 0, cf_key_field_count = 0 \<rparr>
         | Some j \<Rightarrow> Some \<lparr> cf_requested = True, cf_present = (j \<noteq> JNull),
             cf_byte_size = (if j = JNull then 0 else length (write j)),
             cf_key_field_count = (if j = JNull then 0 else structural_field_count j) \<rparr>)"
proof -
  let ?present = "\<lambda>f. \<exists>j. bt_get produced f = Some j \<and> j \<noteq> JNull"
  let ?st = "fold (add_format write produced) requested (0, [])"
  have p: "(\<lambda>f. cf_present (format_evidence write (bt_get produced f))) = ?present"
    by (auto simp: format_evidence_def)
  have e: "Some (format_evidence write (bt_get produced f)) = (case bt_get produced f of
      None \<Rightarrow> Some \<lparr> cf_requested = True, cf_present = False, cf_byte_size = 0, cf_key_field_count = 0 \<rparr>
    | Some j \<Rightarrow> Some \<lparr> cf_requested = True, cf_present = (j \<noteq> JNull),
         cf_byte_size = (if j = JNull then 0 else length (write j)),
         cf_key_field_count = (if j = JNull then 0 else structural_field_count j) \<rparr>)"
    by (auto simp: format_evidence_def split: option.splits json.splits)
  have "bt_inv (snd (0 :: nat, [] :: (string, format_completeness) btree))" by (simp add: bt.inv_empty)
  from fold_add_format[OF this, of "write" produced requested]
  have "fst ?st = length (filter ?present requested)" "bt_inv (snd ?st)"
    "bt_get (snd ?st) f = (if f \<notin> set requested then None
       else Some (format_evidence write (bt_get produced f)))"
    unfolding p by (simp_all add: bt.get_empty)
  then show ?thesis
    by (simp only: completeness_manifest_of_def Let_def split_beta e completeness_manifest.simps)
qed

section \<open>Report data\<close>

definition required :: "string option \<Rightarrow> string \<Rightarrow> (string, string) result" where
  "required val field =
     (case val of None \<Rightarrow> Inl field | Some v \<Rightarrow> if v = [] then Inl field else Inr v)"

text \<open>An array literal whose elements end in \<^verbatim>\<open>?\<close>.\<close>

fun collect_results :: "('e, 'a) result list \<Rightarrow> ('e, 'a list) result" where
  "collect_results [] = Inr []"
| "collect_results (r # rs) = bind_res r (\<lambda>a. bind_res (collect_results rs) (\<lambda>as. Inr (a # as)))"

definition attestation_report_data :: "crypto_ops \<Rightarrow> scrape_proof \<Rightarrow> (string, string) result" where
  "attestation_report_data ops p =
     bind_res (required (rs_headers_hash (sp_response p)) ''response.headers_hash'') (\<lambda>hh.
     bind_res (required (rs_body_hash (sp_response p)) ''response.body_hash'') (\<lambda>bh.
     bind_res (collect_results
       [required (sp_task_id p) ''task_id'',
        required (sp_nonce p) ''nonce'',
        required (rq_request_hash (sp_request p)) ''request.request_hash'',
        required (tls_cert_chain_hash (sp_tls p)) ''tls.cert_chain_hash'',
        required (tls_handshake_transcript_hash (sp_tls p)) ''tls.handshake_transcript_hash'',
        Inr (response_hash ops hh bh),
        required (rb_result_hash (sp_result p)) ''result.result_hash'',
        required (eg_egress_ip (sp_egress p)) ''egress.egress_ip'',
        required (eg_timestamp (sp_egress p)) ''egress.timestamp'',
        required (eg_fingerprint_seed (sp_egress p)) ''egress.fingerprint_seed'',
        required (ss_enclave_pubkey (sp_sdk_signature p)) ''sdk_signature.enclave_pubkey'']) (\<lambda>components.
     Inr (hex_encode (sha512 ops (ATTESTATION_DOMAIN_TAG @ concat components))))))"

text \<open>The fields an attested proof must carry, in the order they are checked.\<close>

definition attested_fields :: "scrape_proof \<Rightarrow> (string option \<times> string) list" where
  "attested_fields p =
     [(rs_headers_hash (sp_response p), ''response.headers_hash''),
      (rs_body_hash (sp_response p), ''response.body_hash''),
      (sp_task_id p, ''task_id''), (sp_nonce p, ''nonce''),
      (rq_request_hash (sp_request p), ''request.request_hash''),
      (tls_cert_chain_hash (sp_tls p), ''tls.cert_chain_hash''),
      (tls_handshake_transcript_hash (sp_tls p), ''tls.handshake_transcript_hash''),
      (rb_result_hash (sp_result p), ''result.result_hash''),
      (eg_egress_ip (sp_egress p), ''egress.egress_ip''),
      (eg_timestamp (sp_egress p), ''egress.timestamp''),
      (eg_fingerprint_seed (sp_egress p), ''egress.fingerprint_seed''),
      (ss_enclave_pubkey (sp_sdk_signature p), ''sdk_signature.enclave_pubkey'')]"

definition report_components :: "crypto_ops \<Rightarrow> scrape_proof \<Rightarrow> string list" where
  "report_components ops p =
     (let field = (\<lambda>i. case fst (attested_fields p ! i) of Some v \<Rightarrow> v | None \<Rightarrow> [])
      in [field 2, field 3, field 4, field 5, field 6, response_hash ops (field 0) (field 1),
          field 7, field 8, field 9, field 10, field 11])"

definition is_missing :: "string option \<times> string \<Rightarrow> bool" where
  "is_missing f \<longleftrightarrow> fst f = None \<or> fst f = Some []"

lemma required_eq:
  "required v f = (if is_missing (v, f) then Inl f else Inr (case v of Some x \<Rightarrow> x | None \<Rightarrow> []))"
  by (auto simp: required_def is_missing_def split: option.splits)

text \<open>
  A proof can be attested exactly when all twelve fields are there and not empty; otherwise
  the error names the first missing one. The report data is the hash of the domain tag and the
  eleven components in order.
\<close>

theorem attestation_report_data_eq:
  "attestation_report_data ops p =
     (case List.find is_missing (attested_fields p) of
        Some (_, field) \<Rightarrow> Inl field
      | None \<Rightarrow> Inr (hex_encode (sha512 ops (ATTESTATION_DOMAIN_TAG @ concat (report_components ops p)))))"
  unfolding attestation_report_data_def attested_fields_def report_components_def required_eq
  by (simp add: Let_def)

text \<open>
  C10: Among proofs whose components have the same lengths, the report data commits to every
  component: equal report data means equal task, nonce, request, certificate chain, transcript,
  response, result, egress address, time, seed and enclave key, if the hash tells the two
  preimages apart.
\<close>

theorem report_data_commits:
  assumes "attestation_report_data ops p = Inr d" and "attestation_report_data ops q = Inr d'"
    and "map length (report_components ops p) = map length (report_components ops q)"
    and "inj_on (sha512 ops) {ATTESTATION_DOMAIN_TAG @ concat (report_components ops p),
           ATTESTATION_DOMAIN_TAG @ concat (report_components ops q)}"
  shows "d = d' \<longleftrightarrow> report_components ops p = report_components ops q"
proof -
  have d: "d = hex_encode (sha512 ops (ATTESTATION_DOMAIN_TAG @ concat (report_components ops p)))"
    and d': "d' = hex_encode (sha512 ops (ATTESTATION_DOMAIN_TAG @ concat (report_components ops q)))"
    using assms(1,2) by (auto simp: attestation_report_data_eq split: option.splits)
  have l: "length (report_components ops p) = length (report_components ops q)"
    using assms(3) by (rule map_eq_imp_length_eq)
  have "\<forall>(x, y) \<in> set (zip (report_components ops p) (report_components ops q)). length x = length y"
    using assms(3) l by (auto simp: set_zip list_eq_iff_nth_eq)
  from concat_eq_concat_iff[OF this l] show ?thesis
    unfolding d d' hex_encode_inject using inj_on_eq_iff[OF assms(4)] by simp
qed

text \<open>
  The components carry no separators, so nothing marks where one of variable length ends: a task
  id that lends its last character to the nonce gives the same report data.
\<close>

definition with_ids :: "string \<Rightarrow> string \<Rightarrow> scrape_proof \<Rightarrow> scrape_proof" where
  "with_ids task nonce p = p \<lparr> sp_task_id := Some task, sp_nonce := Some nonce \<rparr>"

lemma report_data_ambiguous:
  assumes "a \<noteq> []" and "c \<noteq> []"
  shows "attestation_report_data ops (with_ids (a @ b) c p) = attestation_report_data ops (with_ids a (b @ c) p)"
proof -
  have "report_components ops (with_ids (a @ b) c p)
      = (a @ b) # c # drop 2 (report_components ops p)"
    and "report_components ops (with_ids a (b @ c) p) = a # (b @ c) # drop 2 (report_components ops p)"
    by (simp_all add: report_components_def attested_fields_def with_ids_def Let_def)
  moreover have "List.find is_missing (attested_fields (with_ids (a @ b) c p))
      = List.find is_missing (attested_fields (with_ids a (b @ c) p))"
    using assms by (simp add: attested_fields_def with_ids_def is_missing_def)
  ultimately show ?thesis by (simp only: attestation_report_data_eq concat.simps append_assoc)
qed

section \<open>Witnesses\<close>

text \<open>Hash functions that keep everything apart, for concrete inputs.\<close>

definition plain_hashes :: crypto_ops where
  "plain_hashes = demo_ops \<lparr> sha256 := id, sha512 := id \<rparr>"

lemma plain_hashes_inj [simp]: "inj_on (sha256 plain_hashes) A" "inj_on (sha512 plain_hashes) A"
  by (simp_all add: plain_hashes_def)

theorem request_digest_commits_witness:
  "request_digest plain_hashes ''GET'' ''u'' [(''Accept'', ''x'')] []
     = request_digest plain_hashes ''GET'' ''u'' [(''accept'', ''x'')] []
   \<and> request_digest plain_hashes ''GET'' ''u'' [(''accept'', ''x'')] []
     \<noteq> request_digest plain_hashes ''GET'' ''u'' [(''accept'', ''y'')] []"
proof -
  have free: "nul_free ''GET''" "nul_free ''u''" by (simp_all add: nul_free_def)
  have hs: "\<forall>(n, v) \<in> set [(''Accept'', ''x'')] \<union> set [(''accept'', ''x'')]. nul_free n \<and> nul_free v"
    "\<forall>(n, v) \<in> set [(''accept'', ''x'')] \<union> set [(''accept'', ''y'')]. nul_free n \<and> nul_free v"
    by (simp_all add: nul_free_def)
  have m: "map (map_prod to_lower id) [(''Accept'', ''x'')] = map (map_prod to_lower id) [(''accept'', ''x'')]"
    by code_simp
  show ?thesis
    using request_digest_commits[OF free free hs(1) plain_hashes_inj(1) plain_hashes_inj(1)[of "{[], []}"] plain_hashes_inj(1)]
      request_digest_commits[OF free free hs(2) plain_hashes_inj(1) plain_hashes_inj(1)[of "{[], []}"] plain_hashes_inj(1)] m
    by simp
qed

theorem result_hash_surface_witness:
  "result_hash plain_hashes (\<lambda>v. concat (json_strings v)) [(''markdown'', JStr ''a''), (''screenshot'', JStr ''p'')]
     = result_hash plain_hashes (\<lambda>v. concat (json_strings v)) [(''markdown'', JStr ''a''), (''screenshot'', JStr ''q'')]"
proof -
  let ?m = "[(''markdown'', JStr ''a''), (''screenshot'', JStr ''p'')]"
  let ?n = "[(''markdown'', JStr ''a''), (''screenshot'', JStr ''q'')]"
  let ?w = "\<lambda>v. concat (json_strings v)"
  have g: "bt_get ?m k = Some v \<Longrightarrow> (k = ''markdown'' \<and> v = JStr ''a'') \<or> (k = ''screenshot'' \<and> v = JStr ''p'')"
    "bt_get ?n k = Some v \<Longrightarrow> (k = ''markdown'' \<and> v = JStr ''a'') \<or> (k = ''screenshot'' \<and> v = JStr ''q'')" for k v
    by (auto simp: bt_get_def split: if_splits)
  have 1: "\<forall>k v. (bt_get ?m k = Some v \<or> bt_get ?n k = Some v) \<longrightarrow> nul_free (?w v)"
  proof (intro allI impI)
    fix k v assume "bt_get ?m k = Some v \<or> bt_get ?n k = Some v"
    then have "v = JStr ''a'' \<or> v = JStr ''p'' \<or> v = JStr ''q''" using g by blast
    then show "nul_free (?w v)" by (auto simp: nul_free_def)
  qed
  have 2: "\<forall>k v u. bt_get ?m k = Some v \<longrightarrow> bt_get ?n k = Some u \<longrightarrow> ?w v = ?w u \<longrightarrow> v = u"
  proof (intro allI impI)
    fix k v u assume *: "bt_get ?m k = Some v" "bt_get ?n k = Some u" "?w v = ?w u"
    then show "v = u" using g(1)[OF *(1)] g(2)[OF *(2)] by auto
  qed
  show ?thesis
    unfolding result_hash_surface[OF 1 2 plain_hashes_inj(1)]
    by (simp add: DETERMINISTIC_FORMATS_def bt_get_def)
qed

theorem report_data_commits_witness:
  "attestation_report_data plain_hashes (demo_proof ''n1'') \<noteq> attestation_report_data plain_hashes (demo_proof ''n2'')"
proof -
  have f: "List.find is_missing (attested_fields (demo_proof n)) = None" if "n \<noteq> []" for n
    using that by (simp add: attested_fields_def demo_proof_def is_missing_def default_tls_def)
  obtain d d' where d: "attestation_report_data plain_hashes (demo_proof ''n1'') = Inr d"
    "attestation_report_data plain_hashes (demo_proof ''n2'') = Inr d'"
    using f by (simp add: attestation_report_data_eq)
  have "map length (report_components plain_hashes (demo_proof ''n1''))
      = map length (report_components plain_hashes (demo_proof ''n2''))"
    "report_components plain_hashes (demo_proof ''n1'') \<noteq> report_components plain_hashes (demo_proof ''n2'')"
    by (simp_all add: report_components_def attested_fields_def demo_proof_def default_tls_def Let_def)
  with report_data_commits[OF d _ plain_hashes_inj(2)] d show ?thesis by simp
qed

end
