(* ===== verification/Scrape_Surface.thy ===== *)
theory Scrape_Surface
  imports Robots Page_Links Canonical
begin

text \<open>
  What \<^verbatim>\<open>basecrawl-core/src/lib.rs\<close> does to a fetched body before it becomes part of a proof: the
  redaction of echoed request headers, the surface of each content class, and the recorded policy
  hops in the metadata.
\<close>

section \<open>Echoed request headers\<close>

definition REDACTED :: string where
  "REDACTED = ''<redacted>''"

definition is_sensitive_request_header :: "string \<Rightarrow> bool" where
  "is_sensitive_request_header name \<longleftrightarrow>
     eq_ic name ''authorization'' \<or> eq_ic name ''proxy-authorization''
     \<or> eq_ic name ''cookie'' \<or> eq_ic name ''set-cookie''"

definition cookie_secret :: "string \<Rightarrow> string option" where
  "cookie_secret cookie = map_option (\<lambda>(_, secret). trim secret) (split_once (CHR ''='') (trim cookie))"

definition sensitive_header_components :: "string \<Rightarrow> string \<Rightarrow> string list" where
  "sensitive_header_components name val =
     (if eq_ic name ''authorization'' \<or> eq_ic name ''proxy-authorization''
      then drop 1 (split_whitespace val)
      else filter (\<lambda>s. s \<noteq> []) (List.map_filter cookie_secret (split_on (CHR '';'') val)))"

definition redact_header :: "string \<Rightarrow> string \<times> string \<Rightarrow> string" where
  "redact_header body h =
     (let body = (if snd h \<noteq> [] then replace_all (snd h) REDACTED body else body)
      in if is_sensitive_request_header (fst h)
         then foldl (\<lambda>b secret. replace_all secret REDACTED b) body
                (sensitive_header_components (fst h) (snd h))
         else body)"

definition redact_sensitive_request_echoes :: "string \<Rightarrow> headers \<Rightarrow> string" where
  "redact_sensitive_request_echoes body hs = foldl redact_header body hs"

text \<open>The texts that are replaced, in the order in which they are.\<close>

definition header_secrets :: "string \<times> string \<Rightarrow> string list" where
  "header_secrets h =
     (if snd h \<noteq> [] then [snd h] else [])
     @ (if is_sensitive_request_header (fst h) then sensitive_header_components (fst h) (snd h) else [])"

lemma redact_header_eq:
  "redact_header body h = foldl (\<lambda>b secret. replace_all secret REDACTED b) body (header_secrets h)"
  by (simp add: redact_header_def header_secrets_def Let_def)

lemma redact_echoes_eq:
  "redact_sensitive_request_echoes body hs =
     foldl (\<lambda>b secret. replace_all secret REDACTED b) body (concat (map header_secrets hs))"
  unfolding redact_sensitive_request_echoes_def
  by (induction hs arbitrary: body) (simp_all add: redact_header_eq)

text \<open>A text the replacement cannot assemble from its own marker.\<close>

definition marker_free :: "string \<Rightarrow> bool" where
  "marker_free v \<longleftrightarrow> v \<noteq> [] \<and> CHR ''<'' \<notin> set v \<and> CHR ''>'' \<notin> set v \<and> \<not> contains ''redacted'' v"

lemma contains_sep:
  assumes "x \<notin> set v"
  shows "contains (a @ x # b) v \<longleftrightarrow> contains a v \<or> contains b v"
proof
  assume "contains (a @ x # b) v"
  then obtain l r where e: "a @ x # b = l @ v @ r" by (auto simp: contains_iff)
  show "contains a v \<or> contains b v"
  proof (cases "length l + length v \<le> length a")
    case True
    then have "a = l @ v @ take (length a - length l - length v) r"
      using arg_cong[OF e, of "take (length a)"] by simp
    then show ?thesis by (metis contains_iff)
  next
    case False
    have "length a < length l"
    proof (rule ccontr)
      assume "\<not> length a < length l"
      then have "(l @ v @ r) ! length a = v ! (length a - length l)" "length a - length l < length v"
        using False by (auto simp: nth_append)
      moreover have "(a @ x # b) ! length a = x" by simp
      ultimately show False using e assms by (metis nth_mem)
    qed
    then have "b = drop (Suc (length a)) l @ v @ r"
      using arg_cong[OF e, of "drop (Suc (length a))"] by simp
    then show ?thesis by (metis contains_iff)
  qed
next
  assume "contains a v \<or> contains b v"
  then show "contains (a @ x # b) v"
    unfolding contains_iff by (metis append.assoc append_Cons)
qed

lemma contains_Cons_prefix: "contains (c # s) v \<longleftrightarrow> prefix v (c # s) \<or> contains s v"
  unfolding contains_iff prefix_def by (auto simp: Cons_eq_append_conv)

lemma contains_suffix: "contains r v \<Longrightarrow> contains (p @ r) v"
  unfolding contains_iff by (metis append.assoc)

lemma replace_all_Cons:
  assumes "p \<noteq> []"
  shows "replace_all p q (c # cs) =
     (case strip_prefix p (c # cs) of Some r \<Rightarrow> q @ replace_all p q r | None \<Rightarrow> c # replace_all p q cs)"
  using assms by (simp add: replace_all.simps[of p q "c # cs"])

lemma prefix_replace_all:
  "prefix u (replace_all p REDACTED s) \<Longrightarrow> CHR ''<'' \<notin> set u \<Longrightarrow> prefix u s"
proof (induction s arbitrary: u)
  case (Cons c cs)
  show ?case
  proof (cases "p = [] \<or> u = []")
    case False
    then obtain y u' where u: "u = y # u'" by (cases u) auto
    show ?thesis
    proof (cases "strip_prefix p (c # cs)")
      case None
      with Cons.prems False u have "y = c" "prefix u' (replace_all p REDACTED cs)"
        by (simp_all add: replace_all_Cons)
      with Cons u show ?thesis by simp
    next
      case (Some r)
      with Cons.prems False u show ?thesis by (simp add: replace_all_Cons REDACTED_def)
    qed
  qed (use Cons.prems in auto)
qed simp

lemma contains_REDACTED:
  assumes "marker_free v"
  shows "contains (REDACTED @ s) v \<longleftrightarrow> contains s v"
proof -
  have "CHR ''<'' \<notin> set v" "CHR ''>'' \<notin> set v" and no: "\<not> contains ''redacted'' v" "\<not> contains [] v"
    using assms by (auto simp: marker_free_def contains_iff)
  then show ?thesis
    using contains_sep[of "CHR ''<''" v "[]" "''redacted'' @ CHR ''>'' # s"]
      contains_sep[of "CHR ''>''" v "''redacted''" s]
    by (simp add: REDACTED_def)
qed

lemma replace_all_adds_nothing:
  assumes "marker_free v"
  shows "contains (replace_all p REDACTED s) v \<Longrightarrow> contains s v"
proof (induction s rule: measure_induct_rule[of length])
  case (less s)
  show ?case
  proof (cases "p = [] \<or> s = []")
    case False
    then obtain c cs where s: "s = c # cs" by (cases s) auto
    show ?thesis
    proof (cases "strip_prefix p s")
      case None
      with less.prems False s consider "prefix v (c # replace_all p REDACTED cs)" | "contains (replace_all p REDACTED cs) v"
        by (auto simp: replace_all_Cons contains_Cons_prefix)
      then show ?thesis
      proof cases
        case 1
        then have "prefix v (replace_all p REDACTED s)" using None False s by (simp add: replace_all_Cons)
        then have "prefix v s" by (rule prefix_replace_all) (use assms in \<open>simp add: marker_free_def\<close>)
        then show ?thesis by (simp add: s contains_Cons_prefix)
      next
        case 2
        from less.IH[OF _ this] have "contains cs v" by (simp add: s)
        then show ?thesis by (simp add: s contains_Cons_prefix)
      qed
    next
      case (Some r)
      then have r: "s = p @ r" by (simp add: strip_prefix_Some_iff)
      with less.prems Some False s have "contains (replace_all p REDACTED r) v"
        by (simp add: replace_all_Cons contains_REDACTED[OF assms])
      from less.IH[OF _ this] have "contains r v" using r False by simp
      then show ?thesis unfolding r by (rule contains_suffix)
    qed
  qed (use less.prems in auto)
qed

lemma replace_all_removes:
  assumes "marker_free v"
  shows "\<not> contains (replace_all v REDACTED s) v"
proof (induction s rule: measure_induct_rule[of length])
  case (less s)
  have v: "v \<noteq> []" using assms by (simp add: marker_free_def)
  show ?case
  proof (cases s)
    case Nil
    with v show ?thesis by (simp add: contains_iff)
  next
    case (Cons c cs)
    show ?thesis
    proof (cases "strip_prefix v s")
      case None
      have "\<not> prefix v (replace_all v REDACTED s)"
      proof
        assume "prefix v (replace_all v REDACTED s)"
        then have "prefix v s" by (rule prefix_replace_all) (use assms in \<open>simp add: marker_free_def\<close>)
        with None show False by (auto simp: prefix_def)
      qed
      moreover have "\<not> contains (replace_all v REDACTED cs) v" by (rule less.IH) (simp add: Cons)
      ultimately show ?thesis using None Cons v by (simp add: replace_all_Cons contains_Cons_prefix)
    next
      case (Some r)
      then have "length r < length s" using v by (auto simp: strip_prefix_Some_iff)
      then have "\<not> contains (replace_all v REDACTED r) v" by (rule less.IH)
      with Some Cons v show ?thesis by (simp add: replace_all_Cons contains_REDACTED[OF assms])
    qed
  qed
qed

lemma foldl_replace_adds_nothing:
  "marker_free v \<Longrightarrow> \<not> contains b v \<Longrightarrow>
   \<not> contains (foldl (\<lambda>b secret. replace_all secret REDACTED b) b ss) v"
  by (induction ss arbitrary: b) (auto dest: replace_all_adds_nothing)

lemma foldl_replace_removes:
  "marker_free v \<Longrightarrow> v \<in> set ss \<Longrightarrow>
   \<not> contains (foldl (\<lambda>b secret. replace_all secret REDACTED b) b ss) v"
proof (induction ss arbitrary: b)
  case (Cons s ss)
  then show ?case
    by (cases "v = s") (auto simp: replace_all_removes foldl_replace_adds_nothing)
qed simp

lemma foldl_replace_id:
  "\<forall>s \<in> set ss. \<not> contains b s \<Longrightarrow> foldl (\<lambda>b secret. replace_all secret REDACTED b) b ss = b"
  by (induction ss) (simp_all add: replace_all_id)

text \<open>
  C20: After redaction the body contains none of the caller's header values, nor any credential
  of an authorization or cookie header, whatever the other headers are; only a value that the
  marker itself can spell, or that has an angle bracket, is outside this guarantee. A body that
  echoes nothing is unchanged.
\<close>

theorem redact_echoes_removes_secrets:
  assumes "h \<in> set hs" and "v \<in> set (header_secrets h)" and "marker_free v"
  shows "\<not> contains (redact_sensitive_request_echoes body hs) v
     \<and> ((\<forall>g \<in> set hs. \<forall>s \<in> set (header_secrets g). \<not> contains clean s)
          \<longrightarrow> redact_sensitive_request_echoes clean hs = clean)"
proof
  show "\<not> contains (redact_sensitive_request_echoes body hs) v"
    unfolding redact_echoes_eq using assms by (intro foldl_replace_removes) auto
  show "(\<forall>g \<in> set hs. \<forall>s \<in> set (header_secrets g). \<not> contains clean s)
          \<longrightarrow> redact_sensitive_request_echoes clean hs = clean"
    unfolding redact_echoes_eq by (intro impI foldl_replace_id) auto
qed

theorem redact_echoes_removes_secrets_witness:
  "\<not> contains (redact_sensitive_request_echoes ''<b>key abc123</b>'' [(''Authorization'', ''Bearer abc123'')]) ''abc123''"
proof -
  have s: "''abc123'' \<in> set (header_secrets (''Authorization'', ''Bearer abc123''))" by code_simp
  have f: "marker_free ''abc123''" by code_simp
  show ?thesis
    by (rule redact_echoes_removes_secrets[THEN conjunct1, OF _ s f]) simp
qed

text \<open>
  The replacements follow each other, so a short header value that occurs inside a credential
  breaks the credential up, and the rest of it stays in the body.
\<close>

lemma redact_echoes_leaves_fragments:
  "redact_sensitive_request_echoes ''token: abc123def''
     [(''x-tag'', ''1''), (''authorization'', ''Bearer abc123def'')] = ''token: abc<redacted>23def''"
  by code_simp

section \<open>Surfaces\<close>

fun text_surface :: "string \<Rightarrow> content_kind \<Rightarrow> json" where
  "text_surface body BinaryContent = JStr []"
| "text_surface body (DocumentContent _) = JStr []"
| "text_surface body HtmlContent = JStr body"
| "text_surface body TextContent = JStr body"

definition links_surface ::
    "'u url_ops \<Rightarrow> 'd html_ops \<Rightarrow> string \<Rightarrow> 'u \<Rightarrow> content_kind \<Rightarrow> string list \<Rightarrow> json" where
  "links_surface U H body page_base content sitemap_urls =
     (if content = HtmlContent
      then links_to_value ((extract_links U H body page_base) \<lparr> pl_sitemap := sitemap_urls \<rparr>)
      else links_to_value (no_links \<lparr> pl_sitemap := sitemap_urls \<rparr>))"

definition materialize_robots_policy_hops ::
    "(string, json) btree \<Rightarrow> 'u document_hop list \<Rightarrow> (string, json) btree" where
  "materialize_robots_policy_hops produced hops =
     (case bt_get produced (fmt_str Metadata) of
        Some (JObj metadata) \<Rightarrow>
          bt_insert (fmt_str Metadata) (JObj (bt_insert ''robotsPolicyHops'' (hops_value hops) metadata)) produced
      | _ \<Rightarrow> produced)"

lemma materialize_get:
  "bt_get (materialize_robots_policy_hops produced hops) k =
     (if k = ''metadata'' then
        (case bt_get produced k of
           Some (JObj m) \<Rightarrow> Some (JObj (bt_insert ''robotsPolicyHops'' (hops_value hops) m))
         | v \<Rightarrow> v)
      else bt_get produced k)"
  by (auto simp: materialize_robots_policy_hops_def bt_get_insert split: option.splits json.splits)

end
