(* ===== verification/Stealth.thy ===== *)
theory Stealth
  imports Product_Options Http_Response
begin

text \<open>
  The hard-path policy and the sticky browser profiles of \<^verbatim>\<open>basecrawl-core/src/stealth.rs\<close>,
  with the guard of \<^verbatim>\<open>lib.rs\<close> that wipes a profile. The file system is the map of existing
  directories to their contents; \<open>io\<close> gives the error that creating a directory reports, if any.
  No operation panics while it holds one of the two locks, so they are never poisoned.
\<close>

section \<open>The hard path\<close>

datatype site_difficulty = SoftSite | HardSite

definition parse_difficulty :: "string \<Rightarrow> site_difficulty option" where
  "parse_difficulty raw =
     (let t = to_lower (trim raw)
      in if t \<in> {''soft'', ''easy'', ''direct''} then Some SoftSite
         else if t \<in> {''hard'', ''challenge'', ''residential''} then Some HardSite
         else None)"

record hard_path_decision =
  hp_proxy_class :: "proxy_class option"
  hp_difficulty :: "site_difficulty option"
  hp_force_browser :: bool
  hp_render_enabled :: bool
  hp_needs_browser_formats :: bool

definition requires_chromium_hard_path :: "hard_path_decision \<Rightarrow> bool" where
  "requires_chromium_hard_path d =
     (if hp_force_browser d then True
      else if hp_proxy_class d = Some Residential \<or> hp_proxy_class d = Some Mobile then True
      else hp_difficulty d = Some HardSite)"

datatype stealth_policy_error = HardPathDisabled string | Profile string

fun stealth_policy_text :: "stealth_policy_error \<Rightarrow> string" where
  "stealth_policy_text (HardPathDisabled reason) = ''hard path policy refused dual-stack identity: '' @ reason"
| "stealth_policy_text (Profile detail) = ''sticky browser profile failed: '' @ detail"

definition will_launch_chromium :: "hard_path_decision \<Rightarrow> bool \<Rightarrow> (stealth_policy_error, bool) result" where
  "will_launch_chromium d hard_required =
     (if hard_required then
        (if \<not> hp_render_enabled d
         then Inl (HardPathDisabled (''hard/residential path requires Chromium rendering; refuse --no-js ''
                   @ ''dual-stack fallback (VAL-STEALTH-001/017)''))
         else Inr True)
      else Inr (hp_render_enabled d \<and> hp_needs_browser_formats d))"

definition truthful_fetch_path :: "bool \<Rightarrow> fetch_path" where
  "truthful_fetch_path chromium_used = (if chromium_used then PathChromium else PathDirect)"

text \<open>
  A residential or mobile class, a hard difficulty or a forced browser never ends on the soft
  path: the scrape launches Chromium, or it is refused because rendering is off. Every other
  scrape launches Chromium exactly when rendering is on and a format needs it.
\<close>

theorem hard_path_never_soft:
  "will_launch_chromium d (requires_chromium_hard_path d) =
     (if hp_force_browser d \<or> hp_proxy_class d \<in> {Some Residential, Some Mobile}
         \<or> hp_difficulty d = Some HardSite
      then if hp_render_enabled d then Inr True
           else Inl (HardPathDisabled ''hard/residential path requires Chromium rendering; refuse --no-js dual-stack fallback (VAL-STEALTH-001/017)'')
      else Inr (hp_render_enabled d \<and> hp_needs_browser_formats d))"
  by (auto simp: will_launch_chromium_def requires_chromium_hard_path_def)

section \<open>Challenge pages\<close>

definition wrap_markers :: "string list" where
  "wrap_markers =
     [''captcha'', ''cf-mitigated'', ''just a moment'', ''attention required'', ''access denied'',
      ''bot detection'', ''challenge-platform'', ''cf-browser-verification'', ''cf-challenge'', ''turnstile'']"

definition cf_challenge :: "string \<Rightarrow> bool" where
  "cf_challenge l \<longleftrightarrow>
     (contains l ''just a moment'' \<and> contains l ''cloudflare'')
     \<or> contains l ''cf-browser-verification'' \<or> contains l ''cf-challenge''
     \<or> contains l ''challenge-platform''
     \<or> (contains l ''checking your browser'' \<and> contains l ''cloudflare'')"

definition captcha_widget :: "string \<Rightarrow> bool" where
  "captcha_widget l \<longleftrightarrow>
     (contains l ''turnstile''
        \<and> (contains l ''challenge'' \<or> contains l ''cf-turnstile'' \<or> contains l ''data-sitekey''))
     \<or> contains l ''g-recaptcha'' \<or> contains l ''h-captcha'' \<or> contains l ''hcaptcha''
     \<or> (contains l ''captcha''
        \<and> (contains l ''data-sitekey'' \<or> contains l ''verify you are human''
           \<or> contains l ''complete the captcha'' \<or> contains l ''captcha-form'' \<or> contains l ''recaptcha''))"

definition looks_like_challenge_interstitial :: "string \<Rightarrow> nat \<Rightarrow> bool" where
  "looks_like_challenge_interstitial html status =
     (let l = to_lower html
      in if status \<in> {401, 403, 429, 503} then list_ex (contains l) wrap_markers
         else cf_challenge l \<or> captcha_widget l \<or> contains l ''hdn-captcha''
              \<or> contains l ''permanent redirect to a captcha'')"

definition stealth_argv_is_clean :: "string list \<Rightarrow> bool" where
  "stealth_argv_is_clean args \<longleftrightarrow>
     ''--enable-automation'' \<notin> set args
     \<and> list_ex (\<lambda>a. contains a ''disable-blink-features=AutomationControlled'') args"

text \<open>
  A page that says it is checking the browser is recognised when it comes with status 200, and
  not when it comes with 503.
\<close>

lemma checking_page_missed_under_503:
  "looks_like_challenge_interstitial ''Checking your browser - Cloudflare'' 200"
  "\<not> looks_like_challenge_interstitial ''Checking your browser - Cloudflare'' 503"
  by code_simp+

section \<open>Sticky profiles\<close>

record 'c sticky_state =
  st_profiles :: "string \<Rightarrow> string option"
  st_last :: "string option"
  st_fs :: "string \<Rightarrow> 'c option"

definition key_char :: "char \<Rightarrow> char" where
  "key_char c = (if is_alnum c \<or> c \<in> {CHR ''-'', CHR ''_'', CHR ''.''} then c else CHR ''_'')"

text \<open>One character each: continuation bytes belong to the character they continue.\<close>

definition safe_key :: "string \<Rightarrow> string" where
  "safe_key s = map key_char (filter (\<lambda>c. code c < 128 \<or> 192 \<le> code c) s)"

definition be_value :: "string \<Rightarrow> nat" where
  "be_value bs = foldl (\<lambda>n b. n * 256 + code b) 0 bs"

definition normalize_task_key :: "crypto_ops \<Rightarrow> string \<Rightarrow> string" where
  "normalize_task_key ops task_key =
     (let trimmed = trim task_key; safe = safe_key trimmed
      in if trimmed = [] then ''anonymous''
         else if length safe > 96 then ''t-'' @ show_hex (be_value (take 16 (sha256 ops trimmed)))
         else safe)"

definition join_path :: "string \<Rightarrow> string \<Rightarrow> string" where
  "join_path root k = (if ends_with root ''/'' then root @ k else root @ ''/'' @ k)"

definition sticky_profile_root :: "env \<Rightarrow> string \<Rightarrow> string" where
  "sticky_profile_root env temp_dir =
     (case env ''BASECRAWL_BROWSER_PROFILE_ROOT'' of
        Some r \<Rightarrow> r | None \<Rightarrow> join_path temp_dir ''basecrawl-sticky-profiles'')"

text \<open>\<^verbatim>\<open>create_dir_all\<close> and \<^verbatim>\<open>remove_dir_all\<close>.\<close>

definition make_dir :: "'c \<Rightarrow> string \<Rightarrow> 'c sticky_state \<Rightarrow> 'c sticky_state" where
  "make_dir empty_dir p s =
     (if st_fs s p = None then s \<lparr> st_fs := (st_fs s)(p \<mapsto> empty_dir) \<rparr> else s)"

definition remove_dir :: "string \<Rightarrow> (string \<Rightarrow> 'c option) \<Rightarrow> string \<Rightarrow> 'c option" where
  "remove_dir dir fs = (\<lambda>p. if p = dir \<or> starts_with p (dir @ ''/'') then None else fs p)"

definition attach :: "string \<Rightarrow> string \<Rightarrow> 'c sticky_state \<Rightarrow> 'c sticky_state" where
  "attach k dir s = s \<lparr> st_profiles := (st_profiles s)(k \<mapsto> dir), st_last := Some k \<rparr>"

definition create_profile ::
    "(string \<Rightarrow> string option) \<Rightarrow> 'c \<Rightarrow> string \<Rightarrow> string \<Rightarrow> 'c sticky_state
     \<Rightarrow> (stealth_policy_error, string) result \<times> 'c sticky_state" where
  "create_profile io empty_dir root k s =
     (case io root of
        Some e \<Rightarrow> (Inl (Profile (''create sticky profile root failed: '' @ e)), s)
      | None \<Rightarrow>
          (let s = make_dir empty_dir root s; dir = join_path root k
           in if st_fs s dir \<noteq> None then (Inr dir, attach k dir s)
              else case io dir of
                Some e \<Rightarrow> (Inl (Profile (''create sticky profile dir failed: '' @ e)), s)
              | None \<Rightarrow> (Inr dir, attach k dir (make_dir empty_dir dir s))))"

definition acquire_sticky_profile ::
    "crypto_ops \<Rightarrow> (string \<Rightarrow> string option) \<Rightarrow> 'c \<Rightarrow> string \<Rightarrow> string \<Rightarrow> 'c sticky_state
     \<Rightarrow> (stealth_policy_error, string) result \<times> 'c sticky_state" where
  "acquire_sticky_profile ops io empty_dir root task_key s =
     (let k = normalize_task_key ops task_key
      in case st_profiles s k of
           Some existing \<Rightarrow>
             if st_fs s existing \<noteq> None then (Inr existing, s \<lparr> st_last := Some k \<rparr>)
             else create_profile io empty_dir root k (s \<lparr> st_profiles := (st_profiles s)(k := None) \<rparr>)
         | None \<Rightarrow> create_profile io empty_dir root k s)"

definition wipe_sticky_profile :: "crypto_ops \<Rightarrow> string \<Rightarrow> 'c sticky_state \<Rightarrow> 'c sticky_state" where
  "wipe_sticky_profile ops task_key s =
     (let k = normalize_task_key ops task_key
      in if k = ''__all__'' then
           \<lparr> st_profiles = Map.empty, st_last = None,
             st_fs = (\<lambda>p. if \<exists>d \<in> ran (st_profiles s). p = d \<or> starts_with p (d @ ''/'')
                          then None else st_fs s p) \<rparr>
         else
           \<lparr> st_profiles = (st_profiles s)(k := None),
             st_last = (if st_last s = Some k then None else st_last s),
             st_fs = (case st_profiles s k of Some dir \<Rightarrow> remove_dir dir (st_fs s) | None \<Rightarrow> st_fs s) \<rparr>)"

definition wipe_current_sticky_profile :: "crypto_ops \<Rightarrow> 'c sticky_state \<Rightarrow> 'c sticky_state" where
  "wipe_current_sticky_profile ops s =
     (case st_last s of Some k \<Rightarrow> wipe_sticky_profile ops k s | None \<Rightarrow> s)"

text \<open>The guard of a scrape; dropping it is \<open>wipe_now\<close> as well.\<close>

record wipe_guard =
  wg_key :: "string option"
  wg_enabled :: bool

definition wipe_now :: "crypto_ops \<Rightarrow> wipe_guard \<Rightarrow> 'c sticky_state \<Rightarrow> wipe_guard \<times> 'c sticky_state" where
  "wipe_now ops g s =
     (if \<not> wg_enabled g then (g, s)
      else (\<lparr> wg_key = None, wg_enabled = False \<rparr>,
            case wg_key g of
              Some k \<Rightarrow> wipe_sticky_profile ops k s
            | None \<Rightarrow> wipe_current_sticky_profile ops s))"

subsection \<open>Isolation\<close>

text \<open>Every registered profile lies in the directory of its key.\<close>

definition registry_ok :: "string \<Rightarrow> 'c sticky_state \<Rightarrow> bool" where
  "registry_ok root s \<longleftrightarrow> (\<forall>k d. st_profiles s k = Some d \<longrightarrow> d = join_path root k \<and> CHR ''/'' \<notin> set k)"

lemma key_char_no_slash: "key_char c \<noteq> CHR ''/''"
  by (auto simp: key_char_def is_alnum_def is_alpha_def is_upper_def is_lower_def is_digit_def)

lemma normalize_no_slash: "CHR ''/'' \<notin> set (normalize_task_key ops t)"
proof -
  have "CHR ''/'' \<notin> set (show_hex n)" for n
    using show_hex_lower[of n] by (auto simp: list_all_iff is_lower_hex_def is_digit_def)
  moreover have "CHR ''/'' \<notin> set (safe_key s)" for s
    using key_char_no_slash by (metis (no_types, lifting) imageE list.set_map safe_key_def)
  ultimately show ?thesis by (simp add: normalize_task_key_def Let_def)
qed

lemma join_path_inject: "join_path root a = join_path root b \<longleftrightarrow> a = b"
  by (simp add: join_path_def)

lemma join_path_not_below:
  assumes "CHR ''/'' \<notin> set a"
  shows "\<not> starts_with (join_path root a) (join_path root b @ ''/'')"
  using assms by (auto simp: join_path_def starts_with_iff)

lemma acquire_registry_ok:
  assumes "registry_ok root s"
  shows "registry_ok root (snd (acquire_sticky_profile ops io empty_dir root t s))"
  using assms normalize_no_slash[of ops t]
  by (auto simp: registry_ok_def acquire_sticky_profile_def create_profile_def make_dir_def attach_def Let_def
      split: option.splits if_splits)

lemma wipe_registry_ok:
  "registry_ok root s \<Longrightarrow> registry_ok root (wipe_sticky_profile ops t s)"
  by (auto simp: registry_ok_def wipe_sticky_profile_def Let_def split: if_splits)

lemma acquire_keeps:
  assumes "st_profiles s k = Some d" and "st_fs s d = Some c" and "k \<noteq> normalize_task_key ops t"
  shows "st_profiles (snd (acquire_sticky_profile ops io empty_dir root t s)) k = Some d
     \<and> st_fs (snd (acquire_sticky_profile ops io empty_dir root t s)) d = Some c"
  using assms
  by (auto simp: acquire_sticky_profile_def create_profile_def make_dir_def attach_def Let_def
      split: option.splits)

lemma wipe_keeps:
  assumes "registry_ok root s" and "st_profiles s k = Some d" and "st_fs s d = Some c"
    and "k \<noteq> normalize_task_key ops t" and "normalize_task_key ops t \<noteq> ''__all__''"
  shows "st_profiles (wipe_sticky_profile ops t s) k = Some d \<and> st_fs (wipe_sticky_profile ops t s) d = Some c"
proof -
  have d: "d = join_path root k" "CHR ''/'' \<notin> set k" using assms(1,2) by (auto simp: registry_ok_def)
  have "remove_dir dir (st_fs s) d = Some c" if "st_profiles s (normalize_task_key ops t) = Some dir" for dir
  proof -
    have "dir = join_path root (normalize_task_key ops t)" using assms(1) that by (auto simp: registry_ok_def)
    then show ?thesis
      using d assms(3,4) join_path_not_below[OF d(2)] by (simp add: remove_dir_def join_path_inject)
  qed
  with assms show ?thesis
    by (auto simp: wipe_sticky_profile_def Let_def split: option.splits)
qed

text \<open>
  Concurrent tasks do not share a profile. While one task holds a profile directory, the
  whole life of a task with another key, from acquiring its profile to wiping it, leaves that
  directory, its contents and its registration as they were. The keys that name the current or
  the parent directory, and the key that means every profile, are excluded.
\<close>

theorem sticky_profiles_isolated:
  assumes "registry_ok root s" and "st_profiles s (normalize_task_key ops a) = Some d" and "st_fs s d = Some c"
    and "normalize_task_key ops a \<noteq> normalize_task_key ops b"
    and "normalize_task_key ops a \<notin> {''.'', ''..''}"
    and "normalize_task_key ops b \<notin> {''.'', ''..'', ''__all__''}"
    and "acquire_sticky_profile ops io empty_dir root b s = (r, s1)"
  shows "st_profiles (wipe_sticky_profile ops b s1) (normalize_task_key ops a) = Some d
     \<and> st_fs (wipe_sticky_profile ops b s1) d = Some c"
proof -
  have k: "st_profiles s1 (normalize_task_key ops a) = Some d \<and> st_fs s1 d = Some c"
    using acquire_keeps[OF assms(2-4), of io empty_dir root] assms(7) by simp
  have "registry_ok root s1"
    using acquire_registry_ok[OF assms(1), of ops io empty_dir b] assms(7) by simp
  from wipe_keeps[OF this conjunct1[OF k] conjunct2[OF k] assms(4)] assms(6) show ?thesis by simp
qed

text \<open>
  A profile is sticky for its task and gone after it. An acquired directory exists and is
  the directory of the task's key; acquiring again, before a wipe, returns the same directory
  and touches no file; after the wipe neither the directory nor the registration is left.
\<close>

theorem sticky_profile_lifecycle:
  assumes "registry_ok root s" and "acquire_sticky_profile ops io empty_dir root t s = (Inr d, s1)"
    and "normalize_task_key ops t \<noteq> ''__all__''"
  shows "d = join_path root (normalize_task_key ops t) \<and> st_fs s1 d \<noteq> None
     \<and> acquire_sticky_profile ops io empty_dir root t s1 = (Inr d, s1)
     \<and> st_fs (wipe_sticky_profile ops t s1) d = None
     \<and> st_profiles (wipe_sticky_profile ops t s1) (normalize_task_key ops t) = None"
proof -
  have s1: "st_profiles s1 (normalize_task_key ops t) = Some d" "st_fs s1 d \<noteq> None"
    "st_last s1 = Some (normalize_task_key ops t)"
    using assms(2)
    by (auto simp: acquire_sticky_profile_def create_profile_def make_dir_def attach_def Let_def
        split: option.splits if_splits)
  have "registry_ok root s1"
    using acquire_registry_ok[OF assms(1), of ops io empty_dir t] assms(2) by simp
  with s1 have "d = join_path root (normalize_task_key ops t)" by (auto simp: registry_ok_def)
  with s1 assms(3) show ?thesis
    by (simp add: acquire_sticky_profile_def wipe_sticky_profile_def remove_dir_def Let_def)
qed

text \<open>What the two theorems leave out.\<close>

lemma normalize_task_key_collides:
  "normalize_task_key ops ''a/b'' = normalize_task_key ops ''a_b''"
  by code_simp

lemma normalize_task_key_parent: "normalize_task_key ops ''..'' = ''..''"
  by code_simp

lemma wipe_all_wipes_everybody:
  "st_profiles (wipe_sticky_profile ops ''__all__'' s) k = None"
proof -
  have "normalize_task_key ops ''__all__'' = ''__all__''" by code_simp
  then show ?thesis by (simp add: wipe_sticky_profile_def)
qed

text \<open>A directory that a previous process left behind is attached as it is.\<close>

lemma acquire_reattaches:
  assumes "st_profiles s (normalize_task_key ops t) = None" and "io root = None" and "st_fs s root \<noteq> None"
    and "st_fs s (join_path root (normalize_task_key ops t)) = Some c"
  shows "\<exists>s1. acquire_sticky_profile ops io empty_dir root t s = (Inr (join_path root (normalize_task_key ops t)), s1)
     \<and> st_fs s1 (join_path root (normalize_task_key ops t)) = Some c"
  using assms
  by (auto simp: acquire_sticky_profile_def create_profile_def make_dir_def attach_def Let_def)

lemma wipe_now_once: "wipe_now ops (fst (wipe_now ops g s)) s' = (fst (wipe_now ops g s), s')"
  by (simp add: wipe_now_def)

section \<open>Witnesses\<close>

definition no_profiles :: "nat sticky_state" where
  "no_profiles = \<lparr> st_profiles = Map.empty, st_last = None, st_fs = Map.empty \<rparr>"

lemma demo_keys: "normalize_task_key ops ''t1'' = ''t1''" "normalize_task_key ops ''t2'' = ''t2''"
  by code_simp+

lemma demo_acquire:
  "acquire_sticky_profile ops (\<lambda>_. None) 0 ''/p'' ''t1'' no_profiles
     = (Inr ''/p/t1'', \<lparr> st_profiles = [''t1'' \<mapsto> ''/p/t1''], st_last = Some ''t1'', st_fs = [''/p'' \<mapsto> 0, ''/p/t1'' \<mapsto> 0] \<rparr>)"
  by (simp add: acquire_sticky_profile_def demo_keys no_profiles_def create_profile_def make_dir_def attach_def
      join_path_def ends_with_def starts_with_iff Let_def)

theorem sticky_profiles_isolated_witness:
  "\<exists>s s1. acquire_sticky_profile demo_ops (\<lambda>_. None) 0 ''/p'' ''t1'' no_profiles = (Inr ''/p/t1'', s)
     \<and> acquire_sticky_profile demo_ops (\<lambda>_. None) 0 ''/p'' ''t2'' s = (Inr ''/p/t2'', s1)
     \<and> st_fs (wipe_sticky_profile demo_ops ''t2'' s1) ''/p/t1'' = Some 0"
proof -
  let ?s = "\<lparr> st_profiles = [''t1'' \<mapsto> ''/p/t1''], st_last = Some ''t1'', st_fs = [''/p'' \<mapsto> 0, ''/p/t1'' \<mapsto> 0] \<rparr> :: nat sticky_state"
  obtain s1 where s1: "acquire_sticky_profile demo_ops (\<lambda>_. None) 0 ''/p'' ''t2'' ?s = (Inr ''/p/t2'', s1)"
    by (simp add: acquire_sticky_profile_def demo_keys create_profile_def make_dir_def attach_def
        join_path_def ends_with_def starts_with_iff Let_def)
  have ok: "registry_ok ''/p'' ?s"
    by (simp add: registry_ok_def join_path_def ends_with_def starts_with_iff)
  have "st_fs (wipe_sticky_profile demo_ops ''t2'' s1) ''/p/t1'' = Some 0"
    using sticky_profiles_isolated[OF ok, of demo_ops "''t1''" "''/p/t1''" 0 "''t2''" "\<lambda>_. None" 0 "Inr ''/p/t2''" s1] s1
    by (simp add: demo_keys)
  with s1 demo_acquire show ?thesis by blast
qed

theorem sticky_profile_lifecycle_witness:
  "\<exists>s1. acquire_sticky_profile demo_ops (\<lambda>_. None) 0 ''/p'' ''t1'' no_profiles = (Inr ''/p/t1'', s1)
     \<and> st_fs s1 ''/p/t1'' \<noteq> None \<and> st_fs (wipe_sticky_profile demo_ops ''t1'' s1) ''/p/t1'' = None"
proof -
  have ok: "registry_ok ''/p'' no_profiles" by (simp add: registry_ok_def no_profiles_def)
  show ?thesis
    using sticky_profile_lifecycle[OF ok demo_acquire[of demo_ops]] demo_acquire[of demo_ops]
    by (intro exI conjI) (auto simp only: demo_keys)
qed

end
