(* ===== verification/Scrape_Options.thy ===== *)
theory Scrape_Options
  imports Stealth Robots Scrape_Proof
begin

text \<open>
  The options of one scrape, \<^verbatim>\<open>ScrapeOptions\<close> of \<^verbatim>\<open>basecrawl-core/src/lib.rs\<close>, with the
  scripted actions of \<^verbatim>\<open>basecrawl-render/src/lib.rs\<close> they carry.
\<close>

datatype scroll_direction = ScrollDown | ScrollUp

datatype action =
    Click string
  | Scroll scroll_direction
  | Wait nat
  | WaitForSelector string
  | Evaluate string

definition DEFAULT_MAX_PAGES :: nat where
  "DEFAULT_MAX_PAGES = 5"

definition DEFAULT_MAX_RENDER_SUBRESOURCES :: nat where
  "DEFAULT_MAX_RENDER_SUBRESOURCES = 128"

definition DEFAULT_MAX_RENDER_BYTES :: nat where
  "DEFAULT_MAX_RENDER_BYTES = 20 * 1024 * 1024"

definition DEFAULT_RENDER_TIMEOUT_SECS :: nat where
  "DEFAULT_RENDER_TIMEOUT_SECS = 30"

definition DEFAULT_VIEWPORT :: "nat \<times> nat" where
  "DEFAULT_VIEWPORT = (1280, 800)"

record scrape_options =
  so_formats :: "fmt list"
  so_task_id :: "string option"
  so_nonce :: "string option"
  so_timeout_secs :: nat
  so_headers :: headers
  so_method :: string
  so_body :: string
  so_insecure :: bool
  so_max_body_bytes :: nat
  so_crawl_delay_ms :: nat
  so_max_render_subresources :: nat
  so_max_render_bytes :: nat
  so_viewport :: "nat \<times> nat"
  so_screenshot_full_page :: bool
  so_render_enabled :: bool
  so_wait_for :: "string option"
  so_render_timeout_secs :: nat
  so_actions :: "action list"
  so_follow_pagination :: bool
  so_max_pages :: nat
  so_robots_policy :: robots_policy
  so_attest :: bool
  so_sign_proof :: bool
  so_fingerprint_seed :: "string option"
  so_landmark_rtts :: "(string, f64) btree option"
  so_proxy :: "string option"
  so_proxy_session :: "string option"
  so_proxy_country :: "string option"
  so_proxy_username_template :: "string option"
  so_proxy_class :: "proxy_class option"
  so_difficulty :: "site_difficulty option"
  so_force_browser :: bool
  so_stealth_inject :: bool
  so_wipe_profile_on_complete :: bool
  so_json_schema :: "string option"
  so_json_prompt :: "string option"
  so_tls_impersonate :: "string option"
  so_captcha_solver :: "string option"
  so_captcha_api_key :: "string option"
  so_captcha_solve_timeout_secs :: "nat option"

definition default_scrape_options :: scrape_options where
  "default_scrape_options =
     \<lparr> so_formats = default_set, so_task_id = None, so_nonce = None,
       so_timeout_secs = DEFAULT_TIMEOUT_SECS, so_headers = [], so_method = DEFAULT_METHOD,
       so_body = [], so_insecure = False, so_max_body_bytes = DEFAULT_MAX_BODY_BYTES,
       so_crawl_delay_ms = 0, so_max_render_subresources = DEFAULT_MAX_RENDER_SUBRESOURCES,
       so_max_render_bytes = DEFAULT_MAX_RENDER_BYTES, so_viewport = DEFAULT_VIEWPORT,
       so_screenshot_full_page = False, so_render_enabled = True, so_wait_for = None,
       so_render_timeout_secs = DEFAULT_RENDER_TIMEOUT_SECS, so_actions = [],
       so_follow_pagination = False, so_max_pages = DEFAULT_MAX_PAGES, so_robots_policy = Enforce,
       so_attest = False, so_sign_proof = False, so_fingerprint_seed = None,
       so_landmark_rtts = None, so_proxy = None, so_proxy_session = None, so_proxy_country = None,
       so_proxy_username_template = None, so_proxy_class = None, so_difficulty = None,
       so_force_browser = False, so_stealth_inject = True, so_wipe_profile_on_complete = True,
       so_json_schema = None, so_json_prompt = None, so_tls_impersonate = None,
       so_captcha_solver = None, so_captcha_api_key = None, so_captcha_solve_timeout_secs = None \<rparr>"

text \<open>A scrape, as its callers use it.\<close>

type_synonym 'w scraper = "string \<Rightarrow> scrape_options \<Rightarrow> 'w \<Rightarrow> (scrape_proof, 'w) step"

text \<open>A scraper that also keeps a log of the URLs it was called with.\<close>

definition logged :: "'w scraper \<Rightarrow> ('w \<times> string list) scraper" where
  "logged scrape url opts s =
     map_option (\<lambda>(r, w'). (r, (w', snd s @ [url]))) (scrape url opts (fst s))"

lemma logged_Some_iff:
  "logged scrape url opts (w, log) = Some (r, (w', log')) \<longleftrightarrow>
     scrape url opts w = Some (r, w') \<and> log' = log @ [url]"
  by (auto simp: logged_def split: prod.splits)

end
