(* ===== verification/Crawl.thy ===== *)
theory Crawl
  imports Scrape_Options Page_Links
begin

text \<open>
  The bounded crawl of \<^verbatim>\<open>basecrawl-core/src/crawl.rs\<close>, for an arbitrary scraper.
\<close>

record crawl_options =
  co_scrape :: scrape_options
  co_max_pages :: nat
  co_max_depth :: nat
  co_allow_domain :: "string option"

definition default_crawl_options :: crawl_options where
  "default_crawl_options =
     \<lparr> co_scrape = default_scrape_options \<lparr> so_formats := [Markdown, Links],
         so_render_enabled := False, so_follow_pagination := False \<rparr>,
       co_max_pages = 5, co_max_depth = 1, co_allow_domain = None \<rparr>"

record crawl_page =
  cp_url :: string
  cp_depth :: nat
  cp_result_hash :: "string option"
  cp_status_code :: "nat option"
  cp_proof :: scrape_proof

record crawl_skipped =
  ck_url :: string
  ck_reason :: string

record crawl_result =
  cr_mode :: string
  cr_seed :: string
  cr_pages :: "crawl_page list"
  cr_skipped :: "crawl_skipped list"
  cr_residual :: string
  cr_max_pages :: nat
  cr_max_depth :: nat

definition CRAWL_MVP_DESCRIPTION :: string where
  "CRAWL_MVP_DESCRIPTION = ''Bounded crawl MVP: seed URL + max pages/depth + domain ''
     @ ''filter. Not a hosted crawl SaaS (no search index, scheduled monitor, or cloud agent research).''"

definition validate_bounds :: "nat \<Rightarrow> nat \<Rightarrow> (core_error, unit) result" where
  "validate_bounds max_pages max_depth =
     (if max_pages = 0 then Inl (InvalidProductOption ''crawl --max-pages must be >= 1'')
      else if max_pages > 10000
      then Inl (InvalidProductOption ''crawl --max-pages exceeds hard safety cap (10000)'')
      else if max_depth > 32
      then Inl (InvalidProductOption ''crawl --max-depth exceeds hard safety cap (32)'')
      else Inr ())"

definition normalize_visit_key :: "'u url_ops \<Rightarrow> 'u \<Rightarrow> string" where
  "normalize_visit_key U url = url_string U (url_set_fragment U None url)"

definition is_allowed :: "'u url_ops \<Rightarrow> 'u \<Rightarrow> 'u \<Rightarrow> string option \<Rightarrow> bool" where
  "is_allowed U url seed allow_host =
     (case allow_host of
        Some host \<Rightarrow> (case url_host_str U url of Some h \<Rightarrow> eq_ic h host | None \<Rightarrow> False)
      | None \<Rightarrow> same_origin U url seed)"

definition parse_all :: "'u url_ops \<Rightarrow> string list \<Rightarrow> 'u list" where
  "parse_all U ss = List.map_filter (\<lambda>s. case url_parse U s of Inr u \<Rightarrow> Some u | Inl _ \<Rightarrow> None) ss"

definition format_str :: "(string, json) btree \<Rightarrow> string \<Rightarrow> string option" where
  "format_str produced name = Option.bind (bt_get produced name) jstr"

definition links_array :: "(string, json) btree \<Rightarrow> json list option" where
  "links_array produced =
     Option.bind (bt_get produced ''links'') (\<lambda>v. Option.bind (jget v ''links'') jarray)"

definition discover_links_from_page :: "'u url_ops \<Rightarrow> 'd html_ops \<Rightarrow> crawl_page \<Rightarrow> 'u list" where
  "discover_links_from_page U H page =
     (let produced = rb_formats_produced (sp_result (cp_proof page));
          out = (case links_array produced of
                   None \<Rightarrow> [] | Some arr \<Rightarrow> parse_all U (List.map_filter jstr arr))
      in if out \<noteq> [] then out
         else case or_else (format_str produced ''html'') (format_str produced ''rawHtml'') of
           None \<Rightarrow> []
         | Some html \<Rightarrow>
             (case url_parse U (cp_url page) of
                Inl _ \<Rightarrow> []
              | Inr base \<Rightarrow>
                  (case find_next U H html base of None \<Rightarrow> [] | Some next \<Rightarrow> [next])
                  @ parse_all U (pl_links (extract_links U H html base))))"

text \<open>The options of a page: always a plain GET without pagination.\<close>

definition page_options :: "scrape_options \<Rightarrow> scrape_options" where
  "page_options o' = o' \<lparr> so_method := ''GET'', so_body := [], so_follow_pagination := False \<rparr>"

definition crawl_page_of :: "scrape_proof \<Rightarrow> nat \<Rightarrow> crawl_page" where
  "crawl_page_of p depth =
     \<lparr> cp_url = rq_url (sp_request p), cp_depth = depth,
       cp_result_hash = rb_result_hash (sp_result p), cp_status_code = rs_status_code (sp_response p),
       cp_proof = p \<rparr>"

text \<open>What happens to the links of a page: skipped, known, or queued.\<close>

fun enqueue_discovered ::
    "'u url_ops \<Rightarrow> 'u \<Rightarrow> string option \<Rightarrow> string set \<Rightarrow> nat
     \<Rightarrow> crawl_skipped list \<times> ('u \<times> nat) list \<Rightarrow> 'u list \<Rightarrow> crawl_skipped list \<times> ('u \<times> nat) list" where
  "enqueue_discovered U seed allow visited depth st [] = st"
| "enqueue_discovered U seed allow visited depth (skipped, frontier) (next # us) =
     (if \<not> is_allowed U next seed allow
      then enqueue_discovered U seed allow visited depth
             (skipped @ [\<lparr> ck_url = url_string U next, ck_reason = ''outside_allow_domain'' \<rparr>], frontier) us
      else if normalize_visit_key U next \<in> visited
      then enqueue_discovered U seed allow visited depth (skipped, frontier) us
      else enqueue_discovered U seed allow visited depth (skipped, frontier @ [(next, depth + 1)]) us)"

function crawl_loop ::
    "'w scraper \<Rightarrow> 'u url_ops \<Rightarrow> 'd html_ops \<Rightarrow> crawl_options \<Rightarrow> 'u \<Rightarrow> string option
     \<Rightarrow> crawl_page list \<Rightarrow> crawl_skipped list \<Rightarrow> string set \<Rightarrow> ('u \<times> nat) list \<Rightarrow> 'w
     \<Rightarrow> (crawl_page list \<times> crawl_skipped list, 'w) step" where
  "crawl_loop scrape U H opts seed allow pages skipped visited [] w = Some (Inr (pages, skipped), w)"
| "crawl_loop scrape U H opts seed allow pages skipped visited ((url, depth) # rest) w =
     (if length pages \<ge> co_max_pages opts then Some (Inr (pages, skipped), w)
      else if normalize_visit_key U url \<in> visited
      then crawl_loop scrape U H opts seed allow pages skipped visited rest w
      else
       (let visited = insert (normalize_visit_key U url) visited
        in if \<not> is_allowed U url seed allow
           then crawl_loop scrape U H opts seed allow pages
                  (skipped @ [\<lparr> ck_url = url_string U url, ck_reason = ''outside_allow_domain'' \<rparr>]) visited rest w
           else if depth > co_max_depth opts
           then crawl_loop scrape U H opts seed allow pages
                  (skipped @ [\<lparr> ck_url = url_string U url, ck_reason = ''depth_exceeded'' \<rparr>]) visited rest w
           else case scrape (url_string U url) (page_options (co_scrape opts)) w of
             None \<Rightarrow> None
           | Some (Inl e, w') \<Rightarrow> Some (Inl e, w')
           | Some (Inr proof, w') \<Rightarrow>
               (let page = crawl_page_of proof depth; pages' = pages @ [page]
                in if depth \<ge> co_max_depth opts \<or> length pages' \<ge> co_max_pages opts
                   then crawl_loop scrape U H opts seed allow pages' skipped visited rest w'
                   else case enqueue_discovered U seed allow visited depth (skipped, rest)
                               (discover_links_from_page U H page) of
                     (skipped', frontier) \<Rightarrow>
                       crawl_loop scrape U H opts seed allow pages' skipped' visited frontier w')))"
  by pat_completeness auto
termination
  by (relation "measures [\<lambda>(scrape, U, H, opts, seed, allow, pages, skipped, visited, frontier, w).
        co_max_pages opts - length pages,
      \<lambda>(scrape, U, H, opts, seed, allow, pages, skipped, visited, frontier, w). length frontier]") auto

definition allow_host_of :: "crawl_options \<Rightarrow> string option" where
  "allow_host_of opts =
     (case co_allow_domain opts of
        None \<Rightarrow> None
      | Some h \<Rightarrow> if to_lower (trim h) = [] then None else Some (to_lower (trim h)))"

definition crawl ::
    "'w scraper \<Rightarrow> 'u url_ops \<Rightarrow> 'd html_ops \<Rightarrow> string \<Rightarrow> crawl_options \<Rightarrow> 'w \<Rightarrow> (crawl_result, 'w) step" where
  "crawl scrape U H seed opts w =
     and_then (Some (validate_bounds (co_max_pages opts) (co_max_depth opts), w)) (\<lambda>_ w.
     and_then (Some (validate_url U seed, w)) (\<lambda>seed_url w.
     and_then (crawl_loop scrape U H opts seed_url (allow_host_of opts) [] [] {} [(seed_url, 0)] w)
       (\<lambda>(pages, skipped) w.
         Some (Inr \<lparr> cr_mode = ''crawl_mvp'', cr_seed = url_string U seed_url, cr_pages = pages,
                     cr_skipped = skipped, cr_residual = CRAWL_MVP_DESCRIPTION,
                     cr_max_pages = co_max_pages opts, cr_max_depth = co_max_depth opts \<rparr>, w))))"

section \<open>Discipline of a crawl\<close>

text \<open>
  The invariant between the pages, the visited keys, the log of requests and the queue: the
  requests were of allowed URLs with pairwise different keys, one per page, and the depths of
  pages and queue are in order, the queue spanning two levels at most.
\<close>

definition fetched_ok ::
    "'u url_ops \<Rightarrow> 'u \<Rightarrow> string option \<Rightarrow> crawl_options \<Rightarrow> crawl_page list \<Rightarrow> string set \<Rightarrow> string list \<Rightarrow> bool" where
  "fetched_ok U seed allow opts pages visited log \<longleftrightarrow>
     length pages \<le> co_max_pages opts
     \<and> (\<forall>p \<in> set pages. cp_depth p \<le> co_max_depth opts)
     \<and> (\<exists>us. log = map (url_string U) us \<and> length us = length pages
          \<and> distinct (map (normalize_visit_key U) us)
          \<and> (\<forall>u \<in> set us. is_allowed U u seed allow \<and> normalize_visit_key U u \<in> visited))"

definition queue_ok :: "crawl_page list \<Rightarrow> ('u \<times> nat) list \<Rightarrow> bool" where
  "queue_ok pages frontier \<longleftrightarrow>
     sorted (map cp_depth pages @ map snd frontier)
     \<and> (\<forall>x \<in> set frontier. \<forall>y \<in> set frontier. snd x \<le> snd y + 1)"

lemma enqueue_frontier:
  "\<exists>us. snd (enqueue_discovered U seed allow visited depth (skipped, frontier) found)
        = frontier @ map (\<lambda>u. (u, depth + 1)) us"
proof (induction found arbitrary: skipped frontier)
  case (Cons u us)
  show ?case
  proof (cases "is_allowed U u seed allow \<and> normalize_visit_key U u \<notin> visited")
    case True
    from Cons[of skipped "frontier @ [(u, depth + 1)]"] obtain vs where
      "snd (enqueue_discovered U seed allow visited depth (skipped, frontier @ [(u, depth + 1)]) us)
        = frontier @ map (\<lambda>u. (u, depth + 1)) (u # vs)" by auto
    with True show ?thesis by (metis enqueue_discovered.simps(2))
  next
    case False
    with Cons show ?thesis by auto
  qed
qed (auto intro: exI[of _ "[]"])

lemma fetched_ok_visit: "fetched_ok U seed allow opts pages visited log \<Longrightarrow>
   fetched_ok U seed allow opts pages (insert k visited) log"
  by (auto simp: fetched_ok_def)

lemma fetched_ok_page:
  assumes "fetched_ok U seed allow opts pages visited log"
    and "length pages < co_max_pages opts" and "depth \<le> co_max_depth opts"
    and "is_allowed U u seed allow" and "normalize_visit_key U u \<notin> visited"
  shows "fetched_ok U seed allow opts (pages @ [crawl_page_of p depth])
           (insert (normalize_visit_key U u) visited) (log @ [url_string U u])"
proof -
  from assms(1) obtain us where us: "log = map (url_string U) us" "length us = length pages"
    "distinct (map (normalize_visit_key U) us)"
    "\<forall>v \<in> set us. is_allowed U v seed allow \<and> normalize_visit_key U v \<in> visited"
    by (auto simp: fetched_ok_def)
  from assms(5) us(4) have "normalize_visit_key U u \<notin> normalize_visit_key U ` set us" by auto
  then have "log @ [url_string U u] = map (url_string U) (us @ [u])
      \<and> length (us @ [u]) = length (pages @ [crawl_page_of p depth])
      \<and> distinct (map (normalize_visit_key U) (us @ [u]))
      \<and> (\<forall>v \<in> set (us @ [u]). is_allowed U v seed allow
           \<and> normalize_visit_key U v \<in> insert (normalize_visit_key U u) visited)"
    using us assms(4) by simp
  moreover have "length (pages @ [crawl_page_of p depth]) \<le> co_max_pages opts"
    "\<forall>q \<in> set (pages @ [crawl_page_of p depth]). cp_depth q \<le> co_max_depth opts"
    using assms(1-3) by (auto simp: fetched_ok_def crawl_page_of_def)
  ultimately show ?thesis unfolding fetched_ok_def by blast
qed

lemma queue_ok_pop: "queue_ok pages (x # rest) \<Longrightarrow> queue_ok pages rest"
  by (auto simp: queue_ok_def sorted_append)

lemma queue_ok_page:
  "queue_ok pages ((u, depth) # rest) \<Longrightarrow> queue_ok (pages @ [crawl_page_of p depth]) rest"
  by (auto simp: queue_ok_def sorted_append crawl_page_of_def)

lemma queue_ok_extend:
  assumes "queue_ok pages ((u, depth) # rest)"
  shows "queue_ok (pages @ [crawl_page_of p depth]) (rest @ map (\<lambda>v. (v, depth + 1)) us)"
proof -
  have "\<forall>x \<in> set rest. depth \<le> snd x \<and> snd x \<le> depth + 1"
    using assms by (fastforce simp: queue_ok_def sorted_append)
  moreover have "map (snd \<circ> (\<lambda>v. (v, Suc depth))) us = replicate (length us) (Suc depth)"
    by (simp add: comp_def map_replicate_const)
  ultimately show ?thesis
    using assms by (auto simp: queue_ok_def sorted_append crawl_page_of_def le_Suc_eq)
qed

text \<open>One round of the loop, when it goes on.\<close>

lemma crawl_loop_ok:
  assumes "crawl_loop (logged scrape) U H opts seed allow pages skipped visited frontier (w, log)
       = Some (Inr (pages', skipped'), (w', log'))"
    and "fetched_ok U seed allow opts pages visited log" and "queue_ok pages frontier"
  shows "\<exists>visited'. fetched_ok U seed allow opts pages' visited' log' \<and> sorted (map cp_depth pages')"
  using assms
proof (induction "logged scrape" U H opts seed allow pages skipped visited frontier "(w, log)"
    arbitrary: w log rule: crawl_loop.induct)
  case (1 U H opts seed allow pages skipped visited)
  then show ?case by (auto simp: queue_ok_def)
next
  case (2 U H opts seed allow pages skipped visited url depth rest)
  note run = "2.prems"(1) and ok = "2.prems"(2) and queue = "2.prems"(3)
  have pages_sorted: "sorted (map cp_depth pages)" using queue by (simp add: queue_ok_def sorted_append)
  show ?case
  proof (cases "length pages \<ge> co_max_pages opts")
    case True
    with run ok pages_sorted show ?thesis by auto
  next
    case room: False
    show ?thesis
    proof (cases "normalize_visit_key U url \<in> visited")
      case True
      with room run have "crawl_loop (logged scrape) U H opts seed allow pages skipped visited rest (w, log)
          = Some (Inr (pages', skipped'), (w', log'))" by simp
      from "2.hyps"(1)[OF room True this ok queue_ok_pop[OF queue]] show ?thesis .
    next
      case new: False
      let ?visited = "insert (normalize_visit_key U url) visited"
      note ok' = fetched_ok_visit[OF ok, of "normalize_visit_key U url"]
      show ?thesis
      proof (cases "is_allowed U url seed allow")
        case False
        with room new run show ?thesis
          using "2.hyps"(2)[OF room new refl False _ ok' queue_ok_pop[OF queue]] by simp
      next
        case allowed: True
        show ?thesis
        proof (cases "depth > co_max_depth opts")
          case True
          with room new allowed run show ?thesis
            using "2.hyps"(3)[OF room new refl _ True _ ok' queue_ok_pop[OF queue]] by simp
        next
          case shallow: False
          with room new allowed run obtain p v lg where sc:
            "logged scrape (url_string U url) (page_options (co_scrape opts)) (w, log) = Some (Inr p, (v, lg))"
            by (auto simp: Let_def split: option.splits prod.splits sum.splits)
          then have lg: "lg = log @ [url_string U url]" by (simp add: logged_Some_iff)
          have ok2: "fetched_ok U seed allow opts (pages @ [crawl_page_of p depth]) ?visited lg"
            unfolding lg using ok room shallow allowed new by (intro fetched_ok_page) simp_all
          show ?thesis
          proof (cases "depth \<ge> co_max_depth opts \<or> length (pages @ [crawl_page_of p depth]) \<ge> co_max_pages opts")
            case True
            with room new allowed shallow run sc show ?thesis
              using "2.hyps"(4)[OF room new refl _ _ sc refl refl refl refl True _ ok2 queue_ok_page[OF queue]] by simp
          next
            case False
            obtain sk fr where en: "enqueue_discovered U seed allow ?visited depth (skipped, rest)
                (discover_links_from_page U H (crawl_page_of p depth)) = (sk, fr)" by fastforce
            with enqueue_frontier[of U seed allow ?visited depth skipped rest] obtain us where
              "fr = rest @ map (\<lambda>u. (u, depth + 1)) us" by (metis snd_conv)
            then have q: "queue_ok (pages @ [crawl_page_of p depth]) fr"
              using queue_ok_extend[OF queue] by simp
            from room new allowed shallow run sc False en show ?thesis
              using "2.hyps"(5)[OF room new refl _ _ sc refl refl refl refl False en[symmetric] _ ok2 q] by simp
          qed
        qed
      qed
    qed
  qed
qed

text \<open>The log does not influence the crawl.\<close>

lemma crawl_loop_logged:
  "map_option (\<lambda>(r, v). (r, fst v))
     (crawl_loop (logged scrape) U H opts seed allow pages skipped visited frontier (w, log))
   = crawl_loop scrape U H opts seed allow pages skipped visited frontier w"
proof (induction scrape U H opts seed allow pages skipped visited frontier w arbitrary: log rule: crawl_loop.induct)
  case (2 scrape U H opts seed allow pages skipped visited url depth rest w)
  show ?case
    using "2.IH"(1,2,3) "2.IH"(4,5)[OF _ _ refl _ _ _ refl]
    by (auto simp: Let_def logged_def split: option.splits prod.splits sum.splits)
qed simp

text \<open>
  C21: A crawl keeps to its bounds and its site. Its requests, as the log of the scraper shows
  them, are one per page, of allowed URLs whose keys are pairwise different, at most
  \<^verbatim>\<open>max_pages\<close> of them; the pages come in the order of their depths, none deeper than
  \<^verbatim>\<open>max_depth\<close>, and the bounds themselves are within the hard caps.
\<close>

theorem crawl_disciplined:
  assumes "crawl (logged scrape) U H seed opts (w, []) = Some (Inr r, (w', log))"
  shows "\<exists>seed_url us. validate_url U seed = Inr seed_url
     \<and> log = map (url_string U) us \<and> length us = length (cr_pages r)
     \<and> distinct (map (normalize_visit_key U) us)
     \<and> (\<forall>u \<in> set us. is_allowed U u seed_url (allow_host_of opts))
     \<and> length (cr_pages r) \<le> co_max_pages opts \<and> co_max_pages opts \<le> 10000
     \<and> (\<forall>p \<in> set (cr_pages r). cp_depth p \<le> co_max_depth opts \<and> cp_depth p \<le> 32)
     \<and> sorted (map cp_depth (cr_pages r))"
proof -
  from assms obtain seed_url pages skipped where
    b: "validate_bounds (co_max_pages opts) (co_max_depth opts) = Inr ()" and
    v: "validate_url U seed = Inr seed_url" and
    l: "crawl_loop (logged scrape) U H opts seed_url (allow_host_of opts) [] [] {} [(seed_url, 0)] (w, [])
       = Some (Inr (pages, skipped), (w', log))" and
    r: "cr_pages r = pages"
    by (auto simp: crawl_def and_then_def split: option.splits prod.splits sum.splits)
  have "fetched_ok U seed_url (allow_host_of opts) opts [] {} []" "queue_ok [] [(seed_url, 0 :: nat)]"
    by (simp_all add: fetched_ok_def queue_ok_def)
  from crawl_loop_ok[OF l this] obtain visited where
    f: "fetched_ok U seed_url (allow_host_of opts) opts pages visited log" and s: "sorted (map cp_depth pages)"
    by blast
  have "co_max_pages opts \<le> 10000" "co_max_depth opts \<le> 32"
    using b by (auto simp: validate_bounds_def split: if_splits)
  with f s v r show ?thesis unfolding fetched_ok_def by fastforce
qed

lemma crawl_fails_closed:
  assumes "validate_bounds (co_max_pages opts) (co_max_depth opts) = Inl e"
  shows "crawl scrape U H seed opts w = Some (Inl e, w)"
  using assms by (simp add: crawl_def and_then_def)

section \<open>A concrete site\<close>

definition demo_html :: "unit html_ops" where
  "demo_html = \<lparr> h_parse = (\<lambda>_. ()), h_select = (\<lambda>_ _. []) \<rparr>"

definition demo_page :: "string \<Rightarrow> string list \<Rightarrow> scrape_proof" where
  "demo_page url links =
     (demo_proof ''n'') \<lparr> sp_request := (sp_request (demo_proof ''n'')) \<lparr> rq_url := url \<rparr>,
       sp_result := (sp_result (demo_proof ''n''))
         \<lparr> rb_formats_produced := [(''links'', JObj [(''links'', JArr (map JStr links))])] \<rparr> \<rparr>"

definition demo_scrape :: "unit scraper" where
  "demo_scrape url opts w =
     Some (Inr (demo_page url [''https://a.example/b'', ''https://b.example/'', url]), w)"

definition demo_crawl_options :: crawl_options where
  "demo_crawl_options = default_crawl_options \<lparr> co_max_pages := 3 \<rparr>"

theorem crawl_disciplined_witness:
  "\<exists>r. crawl (logged demo_scrape) demo_url_ops demo_html ''https://a.example/a'' demo_crawl_options ((), [])
        = Some (Inr r, ((), [''https://a.example/a'', ''https://a.example/b'']))
     \<and> length (cr_pages r) = 2"
proof -
  let ?a = "site ''/a''" and ?b = "site ''/b''"
  have v: "validate_url demo_url_ops ''https://a.example/a'' = Inr ?a" by code_simp
  have u: "url_string demo_url_ops ?a = ''https://a.example/a''" "url_string demo_url_ops ?b = ''https://a.example/b''"
    "normalize_visit_key demo_url_ops ?a = ''https://a.example/a''"
    "normalize_visit_key demo_url_ops ?b = ''https://a.example/b''" by code_simp+
  have al: "is_allowed demo_url_ops ?a ?a None" "is_allowed demo_url_ops ?b ?a None" by code_simp+
  have ds: "snd (enqueue_discovered demo_url_ops ?a None {''https://a.example/a''} 0 ([], [])
      (discover_links_from_page demo_url_ops demo_html
        (crawl_page_of (demo_page ''https://a.example/a'' [''https://a.example/b'', ''https://b.example/'', ''https://a.example/a'']) 0)))
      = [(?b, 1)]" by code_simp
  obtain sk where en: "enqueue_discovered demo_url_ops ?a None {''https://a.example/a''} 0 ([], [])
      (discover_links_from_page demo_url_ops demo_html
        (crawl_page_of (demo_page ''https://a.example/a'' [''https://a.example/b'', ''https://b.example/'', ''https://a.example/a'']) 0))
      = (sk, [(?b, 1)])"
    using ds by (metis prod.collapse)
  have o: "co_max_pages demo_crawl_options = 3" "co_max_depth demo_crawl_options = 1"
    "allow_host_of demo_crawl_options = None" "validate_bounds 3 (Suc 0) = Inr ()"
    by (simp_all add: demo_crawl_options_def default_crawl_options_def allow_host_of_def validate_bounds_def)
  obtain r where r: "crawl (logged demo_scrape) demo_url_ops demo_html ''https://a.example/a''
      demo_crawl_options ((), []) = Some (Inr r, ((), [''https://a.example/a'', ''https://a.example/b'']))"
    by (simp add: crawl_def and_then_def o v u al en logged_def demo_scrape_def Let_def)
  from crawl_disciplined[OF r] r show ?thesis by (auto simp: map_eq_Cons_conv Cons_eq_map_conv)
qed

end
