(* ===== verification/Map_Lite.thy ===== *)
theory Map_Lite
  imports Scrape_Options Page_Links
begin

text \<open>
  The URL inventory of \<^verbatim>\<open>basecrawl-core/src/map_lite.rs\<close>, for an arbitrary scraper. \<open>live\<close>
  tells whether the deadline has not passed in a world, \<open>sitemaps\<close> is the sitemap discovery.
\<close>

record map_options =
  mo_max_urls :: nat
  mo_use_sitemap :: bool
  mo_same_origin_only :: bool
  mo_timeout_secs :: nat
  mo_scrape :: scrape_options

definition default_map_options :: map_options where
  "default_map_options =
     \<lparr> mo_max_urls = 100, mo_use_sitemap = True, mo_same_origin_only = True, mo_timeout_secs = 30,
       mo_scrape = default_scrape_options \<lparr> so_formats := [Links, RawHtml],
         so_render_enabled := False, so_follow_pagination := False \<rparr> \<rparr>"

record map_result =
  mr_mode :: string
  mr_seed :: string
  mr_urls :: "string list"
  mr_from_seed_links :: nat
  mr_from_sitemap :: nat
  mr_residual :: string
  mr_max_urls :: nat
  mr_sitemap_discovery :: "string option"

definition MAP_LITE_DESCRIPTION :: string where
  "MAP_LITE_DESCRIPTION = ''Map-lite inventory helper: same-origin link harvest and ''
     @ ''optional sitemap-first discovery. Not a guaranteed complete site graph or full search index.''"

definition validate_max_urls :: "nat \<Rightarrow> (core_error, unit) result" where
  "validate_max_urls n =
     (if n = 0 then Inl (InvalidProductOption ''map --max-urls must be >= 1'')
      else if n > 50000 then Inl (InvalidProductOption ''map --max-urls exceeds hard safety cap (50000)'')
      else Inr ())"

text \<open>The set \<^verbatim>\<open>seen\<close> holds the members of the list; the flag says that the URL was added.\<close>

definition push_url :: "nat \<Rightarrow> string \<Rightarrow> string list \<Rightarrow> string list \<times> bool" where
  "push_url cap raw out =
     (if length out \<ge> cap then (out, False)
      else if raw \<in> set out then (out, False)
      else (out @ [raw], True))"

definition admit :: "'u url_ops \<Rightarrow> 'u \<Rightarrow> bool \<Rightarrow> string \<Rightarrow> bool" where
  "admit U seed same_origin_only raw =
     (case url_parse U raw of
        Inl _ \<Rightarrow> False
      | Inr u \<Rightarrow> if \<not> is_http U u then False
               else if same_origin_only then same_origin U u seed else True)"

text \<open>One admitted candidate after the other; the count is the number of pushes that succeeded.\<close>

fun push_all :: "nat \<Rightarrow> (string \<Rightarrow> bool) \<Rightarrow> string list \<Rightarrow> string list \<times> nat \<Rightarrow> string list \<times> nat" where
  "push_all cap ok [] st = st"
| "push_all cap ok (s # ss) (out, n) =
     (if ok s then
        (case push_url cap s out of (out', added) \<Rightarrow> push_all cap ok ss (out', if added then n + 1 else n))
      else push_all cap ok ss (out, n))"

definition map_scrape_options :: "map_options \<Rightarrow> scrape_options" where
  "map_scrape_options opts =
     (let o' = mo_scrape opts;
          fs = so_formats o';
          fs' = (if fs = [] then [Links, RawHtml]
                 else if Links \<notin> set fs \<and> RawHtml \<notin> set fs then fs @ [Links] else fs)
      in o' \<lparr> so_timeout_secs := mo_timeout_secs opts, so_method := ''GET'', so_body := [],
             so_formats := fs', so_render_enabled := False, so_follow_pagination := False \<rparr>)"

definition seed_candidates :: "'u url_ops \<Rightarrow> 'd html_ops \<Rightarrow> 'u \<Rightarrow> (string, json) btree \<Rightarrow> string list" where
  "seed_candidates U H page_base produced =
     (case bt_get produced ''links'' of
        Some v \<Rightarrow> (case Option.bind (jget v ''links'') jarray of
             None \<Rightarrow> [] | Some arr \<Rightarrow> List.map_filter jstr arr)
      | None \<Rightarrow>
          (case or_else (Option.bind (bt_get produced ''rawHtml'') jstr)
                  (Option.bind (bt_get produced ''html'') jstr) of
             None \<Rightarrow> []
           | Some html \<Rightarrow> pl_links (extract_links U H html page_base)))"

definition map_fetch_config :: "scrape_options \<Rightarrow> map_options \<Rightarrow> 'u \<Rightarrow> ('u, 'p) fetch_config" where
  "map_fetch_config o' opts seed =
     default_config \<lparr> fc_timeout := mo_timeout_secs opts, fc_crawl_delay := so_crawl_delay_ms o',
       fc_user_agent := DEFAULT_USER_AGENT, fc_credential_origin := Some seed,
       fc_headers := so_headers o', fc_max_body_bytes := so_max_body_bytes o' \<rparr>"

definition sitemap_note :: "nat \<Rightarrow> string" where
  "sitemap_note n =
     (if n = 0 then ''sitemap discovery ran; no same-origin seeds found''
      else ''sitemap discovery ran; '' @ show_nat n @ '' candidate URL(s)'')"

text \<open>The sitemap stage: the outer option is a panic, errors are absorbed.\<close>

definition sitemap_stage ::
    "('u \<Rightarrow> ('u, 'p) fetch_config \<Rightarrow> 'w \<Rightarrow> (string list, 'w) step) \<Rightarrow> 'u url_ops \<Rightarrow> map_options \<Rightarrow> 'u
     \<Rightarrow> string list \<Rightarrow> 'w \<Rightarrow> ((string list \<times> nat \<times> string option) \<times> 'w) option" where
  "sitemap_stage sitemaps U opts seed ordered w =
     (case sitemaps seed (map_fetch_config (map_scrape_options opts) opts seed) w of
        None \<Rightarrow> None
      | Some (Inl _, w') \<Rightarrow>
          Some ((ordered, 0, Some ''sitemap discovery unavailable; seed links only''), w')
      | Some (Inr found, w') \<Rightarrow>
          (case push_all (mo_max_urls opts) (admit U seed (mo_same_origin_only opts)) found (ordered, 0) of
             (ordered', n) \<Rightarrow> Some ((ordered', n, Some (sitemap_note (length found))), w')))"

definition map_lite ::
    "'w scraper \<Rightarrow> ('u \<Rightarrow> ('u, 'p) fetch_config \<Rightarrow> 'w \<Rightarrow> (string list, 'w) step) \<Rightarrow> ('w \<Rightarrow> bool)
     \<Rightarrow> 'u url_ops \<Rightarrow> 'd html_ops \<Rightarrow> string \<Rightarrow> map_options \<Rightarrow> 'w \<Rightarrow> (map_result, 'w) step" where
  "map_lite scrape sitemaps live U H seed opts w =
     and_then (Some (validate_max_urls (mo_max_urls opts), w)) (\<lambda>_ w.
     and_then (Some (validate_url U seed, w)) (\<lambda>seed_url w.
     and_then (scrape (url_string U seed_url) (map_scrape_options opts) w) (\<lambda>proof w.
       let page_base = (case url_parse U (case rs_final_url (sp_response proof) of
                              Some f \<Rightarrow> f | None \<Rightarrow> url_string U seed_url) of
                          Inr u \<Rightarrow> u | Inl _ \<Rightarrow> seed_url);
           ordered = fst (push_url (mo_max_urls opts) (url_string U seed_url) []);
           (ordered, from_links) = push_all (mo_max_urls opts) (admit U seed_url (mo_same_origin_only opts))
               (seed_candidates U H page_base (rb_formats_produced (sp_result proof))) (ordered, 0)
       in case (if mo_use_sitemap opts \<and> length ordered < mo_max_urls opts \<and> live w
                then sitemap_stage sitemaps U opts seed_url ordered w
                else Some ((ordered, 0, None), w)) of
            None \<Rightarrow> None
          | Some ((ordered, from_sitemap, note), w) \<Rightarrow>
              Some (Inr \<lparr> mr_mode = ''map_lite'', mr_seed = url_string U seed_url,
                          mr_urls = take (mo_max_urls opts) ordered, mr_from_seed_links = from_links,
                          mr_from_sitemap = from_sitemap, mr_residual = MAP_LITE_DESCRIPTION,
                          mr_max_urls = mo_max_urls opts, mr_sitemap_discovery = note \<rparr>, w))))"

section \<open>The inventory\<close>

interpretation url_push: capped_push "\<lambda>raw out. fst (push_url cap raw out)" "\<lambda>_. True" cap
  by unfold_locales (auto simp: push_url_def)

lemma push_all_fold:
  "fst (push_all cap ok ss (out, n)) = fold (\<lambda>raw out. fst (push_url cap raw out)) (filter ok ss) out"
  by (induction ss arbitrary: out n) (auto split: prod.splits)

lemma push_url_take:
  "fst (push_url cap raw (take cap (first_occurrences xs))) = take cap (first_occurrences (xs @ [raw]))"
  by (auto simp: push_url_def dest: in_set_takeD)

lemma fold_push_url:
  "fold (\<lambda>raw out. fst (push_url cap raw out)) ss (take cap (first_occurrences xs))
     = take cap (first_occurrences (xs @ ss))"
proof (induction ss arbitrary: xs)
  case (Cons s ss)
  from Cons[of "xs @ [s]"] show ?case by (simp add: push_url_take)
qed simp

lemma push_all_take:
  "fst (push_all cap ok ss (take cap (first_occurrences xs), n))
     = take cap (first_occurrences (xs @ filter ok ss))"
  by (simp add: push_all_fold fold_push_url)

lemma push_all_count:
  "length (fst (push_all cap ok ss (out, n))) + n = length out + snd (push_all cap ok ss (out, n))"
proof (induction ss arbitrary: out n)
  case (Cons a ss)
  from Cons[of out n] Cons[of "out @ [a]" "Suc n"] show ?case by (simp add: push_url_def)
qed simp

text \<open>The URL of the page the scrape ended on.\<close>

definition inventory_base :: "'u url_ops \<Rightarrow> 'u \<Rightarrow> scrape_proof \<Rightarrow> 'u" where
  "inventory_base U seed_url proof =
     (case url_parse U (case rs_final_url (sp_response proof) of
         Some f \<Rightarrow> f | None \<Rightarrow> url_string U seed_url) of
        Inr u \<Rightarrow> u | Inl _ \<Rightarrow> seed_url)"

lemma sitemap_stage_cases:
  assumes "sitemap_stage sitemaps U opts seed (take (mo_max_urls opts) (first_occurrences xs)) w
       = Some ((ordered', n, note), w')"
  shows "\<exists>found. ordered' = take (mo_max_urls opts)
             (first_occurrences (xs @ filter (admit U seed (mo_same_origin_only opts)) found))
     \<and> length ordered' = length (take (mo_max_urls opts) (first_occurrences xs)) + n"
proof -
  from assms consider "ordered' = take (mo_max_urls opts) (first_occurrences xs)" "n = 0"
    | found where "push_all (mo_max_urls opts) (admit U seed (mo_same_origin_only opts)) found
        (take (mo_max_urls opts) (first_occurrences xs), 0) = (ordered', n)"
    by (auto simp: sitemap_stage_def split: option.splits prod.splits sum.splits)
  then show ?thesis
  proof cases
    case 1
    then show ?thesis by (intro exI[of _ "[]"]) simp
  next
    case (2 found)
    with push_all_take[of "mo_max_urls opts" "admit U seed (mo_same_origin_only opts)" found xs 0]
      push_all_count[of "mo_max_urls opts" "admit U seed (mo_same_origin_only opts)" found
        "take (mo_max_urls opts) (first_occurrences xs)" 0]
    show ?thesis by (intro exI[of _ found]) simp
  qed
qed

text \<open>
  The inventory is the seed, the admitted links of its page and the admitted sitemap seeds,
  each once, in this order, cut at the limit; the counts add up to its length, and the limit is
  at most 50000. Admitted is an http URL, of the seed's origin when \<^verbatim>\<open>same_origin_only\<close> is set
  (\<open>admit_same_origin\<close>).
\<close>

theorem map_lite_inventory:
  assumes "map_lite scrape sitemaps live U H seed opts w = Some (Inr r, w')"
  shows "\<exists>seed_url pf w1 found. validate_url U seed = Inr seed_url
     \<and> scrape (url_string U seed_url) (map_scrape_options opts) w = Some (Inr pf, w1)
     \<and> mr_urls r = take (mo_max_urls opts) (first_occurrences (url_string U seed_url
          # filter (admit U seed_url (mo_same_origin_only opts))
              (seed_candidates U H (inventory_base U seed_url pf) (rb_formats_produced (sp_result pf))
               @ found)))
     \<and> length (mr_urls r) = 1 + mr_from_seed_links r + mr_from_sitemap r
     \<and> length (mr_urls r) \<le> mo_max_urls opts \<and> mo_max_urls opts \<le> 50000"
proof -
  let ?m = "mo_max_urls opts"
  from assms obtain seed_url pf w1 where v: "validate_max_urls ?m = Inr ()" "validate_url U seed = Inr seed_url"
    and sc: "scrape (url_string U seed_url) (map_scrape_options opts) w = Some (Inr pf, w1)"
    by (auto simp: map_lite_def and_then_def split: option.splits prod.splits sum.splits)
  let ?ok = "admit U seed_url (mo_same_origin_only opts)"
  let ?c = "seed_candidates U H (inventory_base U seed_url pf) (rb_formats_produced (sp_result pf))"
  let ?xs = "[url_string U seed_url] @ filter ?ok ?c"
  have m: "0 < ?m" "?m \<le> 50000" using v(1) by (auto simp: validate_max_urls_def split: if_splits)
  have seed: "fst (push_url ?m (url_string U seed_url) []) = take ?m (first_occurrences [url_string U seed_url])"
    using m by (simp add: push_url_def first_occurrences_def)
  obtain ordered links where p: "push_all ?m ?ok ?c (take ?m (first_occurrences [url_string U seed_url]), 0) = (ordered, links)"
    by fastforce
  have o': "ordered = take ?m (first_occurrences ?xs)"
    using push_all_take[of ?m ?ok ?c "[url_string U seed_url]" 0] p by simp
  have l: "length ordered = 1 + links"
    using push_all_count[of ?m ?ok ?c "take ?m (first_occurrences [url_string U seed_url])" 0] p m
    by (simp add: first_occurrences_def)
  obtain final n hint where st: "(if mo_use_sitemap opts \<and> length ordered < ?m \<and> live w1
        then sitemap_stage sitemaps U opts seed_url ordered w1 else Some ((ordered, 0, None), w1))
      = Some ((final, n, hint), w')"
    and r: "mr_urls r = take ?m final" "mr_from_seed_links r = links" "mr_from_sitemap r = n"
    using assms v sc p by (auto simp: map_lite_def and_then_def seed inventory_base_def Let_def
        split: option.splits prod.splits)
  obtain found where f: "final = take ?m (first_occurrences (?xs @ filter ?ok found))"
    and n: "length final = length ordered + n"
  proof (cases "mo_use_sitemap opts \<and> length ordered < ?m \<and> live w1")
    case True
    with st have "sitemap_stage sitemaps U opts seed_url (take ?m (first_occurrences ?xs)) w1
        = Some ((final, n, hint), w')" by (simp add: o')
    from sitemap_stage_cases[OF this] that o' show ?thesis by auto
  next
    case False
    with st have "final = ordered" "n = 0" by auto
    with o' show ?thesis by (intro that[of "[]"]) simp_all
  qed
  have "mr_urls r = take ?m (first_occurrences (url_string U seed_url # filter ?ok (?c @ found)))"
    using r(1) f by simp
  moreover have "length (mr_urls r) = 1 + links + n" using r(1) f n l by simp
  ultimately show ?thesis using v sc m r by auto
qed

lemma admit_same_origin:
  "admit U seed True s \<longleftrightarrow> (\<exists>u. url_parse U s = Inr u \<and> is_http U u \<and> same_origin U u seed)"
  by (auto simp: admit_def split: sum.splits)

section \<open>A concrete inventory\<close>

definition demo_map_scrape :: "unit scraper" where
  "demo_map_scrape url o' w =
     Some (Inr ((demo_proof ''n'') \<lparr> sp_result := (sp_result (demo_proof ''n''))
         \<lparr> rb_formats_produced := [(''links'', JObj [(''links'',
             JArr (map JStr [''https://a.example/b'', ''https://b.example/'', ''https://a.example/b'']))])] \<rparr> \<rparr>), w)"

theorem map_lite_inventory_witness:
  "\<exists>r. map_lite demo_map_scrape (\<lambda>u (c :: (_, unit) fetch_config) w. Some (Inr [''https://a.example/c''], w)) (\<lambda>_. True) demo_url_ops
         (\<lparr> h_parse = (\<lambda>_. ()), h_select = (\<lambda>_ _. []) \<rparr>) ''https://a.example/a'' default_map_options ()
       = Some (Inr r, ())
     \<and> mr_urls r = [''https://a.example/a'', ''https://a.example/b'', ''https://a.example/c'']
     \<and> length (mr_urls r) = 1 + mr_from_seed_links r + mr_from_sitemap r"
proof -
  let ?a = "site ''/a''"
  let ?links = "[(''links'', JObj [(''links'',
      JArr [JStr ''https://a.example/b'', JStr ''https://b.example/'', JStr ''https://a.example/b''])])]"
  have v: "validate_url demo_url_ops ''https://a.example/a'' = Inr ?a" by code_simp
  have u: "url_string demo_url_ops ?a = ''https://a.example/a''" by code_simp
  have ad: "admit demo_url_ops ?a True ''https://a.example/b''" "\<not> admit demo_url_ops ?a True ''https://b.example/''"
    "admit demo_url_ops ?a True ''https://a.example/c''" by code_simp+
  have sc: "seed_candidates demo_url_ops \<lparr> h_parse = (\<lambda>_. ()), h_select = (\<lambda>_ _. []) \<rparr> b ?links
      = [''https://a.example/b'', ''https://b.example/'', ''https://a.example/b'']" for b
    by (simp add: seed_candidates_def bt_get_def)
  have o: "mo_max_urls default_map_options = 100" "mo_use_sitemap default_map_options"
    "mo_same_origin_only default_map_options" "validate_max_urls 100 = Inr ()"
    by (simp_all add: default_map_options_def validate_max_urls_def)
  obtain r where r: "map_lite demo_map_scrape (\<lambda>u (c :: (_, unit) fetch_config) w. Some (Inr [''https://a.example/c''], w)) (\<lambda>_. True) demo_url_ops
         \<lparr> h_parse = (\<lambda>_. ()), h_select = (\<lambda>_ _. []) \<rparr> ''https://a.example/a'' default_map_options ()
       = Some (Inr r, ())"
    and m: "mr_urls r = [''https://a.example/a'', ''https://a.example/b'', ''https://a.example/c'']"
    by (simp add: map_lite_def and_then_def o v u sc ad demo_map_scrape_def Let_def sitemap_stage_def push_url_def)
  have "length (mr_urls r) = 1 + mr_from_seed_links r + mr_from_sitemap r"
    using map_lite_inventory[OF r] by clarsimp
  with r m show ?thesis by (intro exI[of _ r] conjI)
qed

end
