(* ===== verification/Batch.thy ===== *)
theory Batch
  imports Scrape_Options "HOL-Library.Multiset"
begin

text \<open>
  The multi-URL batch of \<^verbatim>\<open>basecrawl-core/src/batch.rs\<close>: a pool of worker threads that take
  the URLs of a shared queue and write one item per URL into a shared vector. The schedule is the
  choice of the worker that moves next, so the pool is a step relation. A lock region of the source
  is one step; a scrape is one step of the world.
\<close>

section \<open>Items and options\<close>

definition DEFAULT_BATCH_CONCURRENCY :: nat where
  "DEFAULT_BATCH_CONCURRENCY = 2"

record batch_options =
  bo_scrape :: scrape_options
  bo_concurrency :: nat
  bo_pace_ms :: nat

definition default_batch_options :: batch_options where
  "default_batch_options =
     \<lparr> bo_scrape = default_scrape_options \<lparr> so_render_enabled := False \<rparr>,
       bo_concurrency = DEFAULT_BATCH_CONCURRENCY, bo_pace_ms = 0 \<rparr>"

record batch_item =
  bi_index :: nat
  bi_url :: string
  bi_ok :: bool
  bi_proof :: "scrape_proof option"
  bi_error :: "json option"
  bi_result_hash :: "string option"

record batch_result =
  br_mode :: string
  br_items :: "batch_item list"
  br_concurrency :: nat

definition all_ok :: "batch_result \<Rightarrow> bool" where
  "all_ok r = list_all bi_ok (br_items r)"

definition validate_batch :: "string list \<Rightarrow> nat \<Rightarrow> (core_error, unit) result" where
  "validate_batch urls concurrency =
     (if urls = [] then Inl (InvalidProductOption ''batch requires at least one URL'')
      else if concurrency = 0 then Inl (InvalidProductOption ''batch --concurrency must be >= 1'')
      else if concurrency > 64
        then Inl (InvalidProductOption ''batch --concurrency exceeds hard safety cap (64)'')
      else if length urls > 1000
        then Inl (InvalidProductOption ''batch URL count exceeds hard safety cap (1000)'')
      else Inr ())"

text \<open>The item of one scrape; \<open>None\<close> is the panic of the error's host-safe printer.\<close>

fun scraped_item :: "crypto_ops \<Rightarrow> nat \<Rightarrow> string \<Rightarrow> (core_error, scrape_proof) result \<Rightarrow> batch_item option" where
  "scraped_item ops idx url (Inr pf) =
     Some \<lparr> bi_index = idx, bi_url = url, bi_ok = True, bi_proof = Some pf, bi_error = None,
            bi_result_hash = rb_result_hash (sp_result pf) \<rparr>"
| "scraped_item ops idx url (Inl err) =
     map_option (\<lambda>j. \<lparr> bi_index = idx, bi_url = url, bi_ok = False, bi_proof = None,
                       bi_error = Some j, bi_result_hash = None \<rparr>) (error_to_json ops err)"

definition missing_item :: "nat \<Rightarrow> string \<Rightarrow> batch_item" where
  "missing_item idx url =
     \<lparr> bi_index = idx, bi_url = url, bi_ok = False, bi_proof = None,
       bi_error = Some (jobj [(''error'', jobj [(''kind'', JStr ''batch_worker_failed''),
         (''message'', JStr ''batch worker did not produce a per-item result'')])]),
       bi_result_hash = None \<rparr>"

section \<open>The worker pool\<close>

text \<open>
  A worker is at the head of its loop, holds a job, holds a finished item, or has left its loop
  (at the end of the queue, or by a panic; the pool joins both alike).
\<close>

datatype worker = Idle | Busy nat string | Storing nat batch_item | Finished

record 'w pool =
  pl_next :: nat
  pl_results :: "batch_item option list"
  pl_workers :: "worker list"
  pl_world :: 'w

definition pool_init :: "string list \<Rightarrow> nat \<Rightarrow> 'w \<Rightarrow> 'w pool" where
  "pool_init urls concurrency w =
     \<lparr> pl_next = 0, pl_results = replicate (length urls) None,
       pl_workers = replicate (max (min concurrency (length urls)) 1) Idle, pl_world = w \<rparr>"

inductive pool_step ::
    "'w scraper \<Rightarrow> crypto_ops \<Rightarrow> scrape_options \<Rightarrow> string list \<Rightarrow> 'w pool \<Rightarrow> 'w pool \<Rightarrow> bool"
  for scrape :: "'w scraper" and ops opts urls where
  take_job: "i < length (pl_workers s) \<Longrightarrow> pl_workers s ! i = Idle \<Longrightarrow> pl_next s < length urls \<Longrightarrow>
    pool_step scrape ops opts urls s
      (s \<lparr> pl_next := Suc (pl_next s),
           pl_workers := (pl_workers s)[i := Busy (pl_next s) (urls ! pl_next s)] \<rparr>)"
| drained: "i < length (pl_workers s) \<Longrightarrow> pl_workers s ! i = Idle \<Longrightarrow> length urls \<le> pl_next s \<Longrightarrow>
    pool_step scrape ops opts urls s (s \<lparr> pl_workers := (pl_workers s)[i := Finished] \<rparr>)"
| scraped: "i < length (pl_workers s) \<Longrightarrow> pl_workers s ! i = Busy idx url \<Longrightarrow>
    scrape url opts (pl_world s) = Some (r, w') \<Longrightarrow> scraped_item ops idx url r = Some item \<Longrightarrow>
    pool_step scrape ops opts urls s
      (s \<lparr> pl_workers := (pl_workers s)[i := Storing idx item], pl_world := w' \<rparr>)"
| panicked: "i < length (pl_workers s) \<Longrightarrow> pl_workers s ! i = Busy idx url \<Longrightarrow>
    scrape url opts (pl_world s) = None \<Longrightarrow>
    pool_step scrape ops opts urls s
      (s \<lparr> pl_workers := (pl_workers s)[i := Finished], pl_world := w' \<rparr>)"
| print_panicked: "i < length (pl_workers s) \<Longrightarrow> pl_workers s ! i = Busy idx url \<Longrightarrow>
    scrape url opts (pl_world s) = Some (r, w') \<Longrightarrow> scraped_item ops idx url r = None \<Longrightarrow>
    pool_step scrape ops opts urls s
      (s \<lparr> pl_workers := (pl_workers s)[i := Finished], pl_world := w' \<rparr>)"
| stored: "i < length (pl_workers s) \<Longrightarrow> pl_workers s ! i = Storing idx item \<Longrightarrow>
    pool_step scrape ops opts urls s
      (s \<lparr> pl_results := (pl_results s)[idx := Some item],
           pl_workers := (pl_workers s)[i := Idle] \<rparr>)"

definition pool_done :: "'w pool \<Rightarrow> bool" where
  "pool_done s = list_all (\<lambda>wk. wk = Finished) (pl_workers s)"

definition collect_items :: "string list \<Rightarrow> batch_item option list \<Rightarrow> batch_item list" where
  "collect_items urls slots =
     map (\<lambda>(idx, slot). case slot of Some item \<Rightarrow> item | None \<Rightarrow> missing_item idx (urls ! idx))
       (enumerate 0 slots)"

inductive batch ::
    "'w scraper \<Rightarrow> crypto_ops \<Rightarrow> string list \<Rightarrow> batch_options \<Rightarrow> 'w
     \<Rightarrow> (core_error, batch_result) result \<Rightarrow> 'w \<Rightarrow> bool"
  for scrape :: "'w scraper" and ops urls opts w where
  refused: "validate_batch urls (bo_concurrency opts) = Inl e \<Longrightarrow> batch scrape ops urls opts w (Inl e) w"
| joined: "validate_batch urls (bo_concurrency opts) = Inr () \<Longrightarrow>
    (pool_step scrape ops (bo_scrape opts) urls)\<^sup>*\<^sup>* (pool_init urls (bo_concurrency opts) w) s \<Longrightarrow>
    pool_done s \<Longrightarrow>
    batch scrape ops urls opts w
      (Inr \<lparr> br_mode = ''batch'', br_items = collect_items urls (pl_results s),
             br_concurrency = max (min (bo_concurrency opts) (length urls)) 1 \<rparr>) (pl_world s)"

inductive_cases batch_Inr: "batch scrape ops urls opts w (Inr r) w'"
inductive_cases batch_Inl: "batch scrape ops urls opts w (Inl e) w'"

section \<open>One step of a chosen worker\<close>

text \<open>The step of the worker \<open>i\<close>, where a panic leaves the world as it is.\<close>

definition worker_step ::
    "'w scraper \<Rightarrow> crypto_ops \<Rightarrow> scrape_options \<Rightarrow> string list \<Rightarrow> nat \<Rightarrow> 'w pool \<Rightarrow> 'w pool option" where
  "worker_step scrape ops opts urls i s =
     (if i < length (pl_workers s) then
        (case pl_workers s ! i of
           Idle \<Rightarrow>
             if pl_next s < length urls
             then Some (s \<lparr> pl_next := Suc (pl_next s),
                            pl_workers := (pl_workers s)[i := Busy (pl_next s) (urls ! pl_next s)] \<rparr>)
             else Some (s \<lparr> pl_workers := (pl_workers s)[i := Finished] \<rparr>)
         | Busy idx url \<Rightarrow>
             (case scrape url opts (pl_world s) of
                None \<Rightarrow> Some (s \<lparr> pl_workers := (pl_workers s)[i := Finished], pl_world := pl_world s \<rparr>)
              | Some (r, w') \<Rightarrow>
                  (case scraped_item ops idx url r of
                     None \<Rightarrow> Some (s \<lparr> pl_workers := (pl_workers s)[i := Finished], pl_world := w' \<rparr>)
                   | Some item \<Rightarrow>
                       Some (s \<lparr> pl_workers := (pl_workers s)[i := Storing idx item], pl_world := w' \<rparr>)))
         | Storing idx item \<Rightarrow>
             Some (s \<lparr> pl_results := (pl_results s)[idx := Some item],
                       pl_workers := (pl_workers s)[i := Idle] \<rparr>)
         | Finished \<Rightarrow> None)
      else None)"

lemma panicked_here:
  assumes "i < length (pl_workers s)" "pl_workers s ! i = Busy idx url" "scrape url opts (pl_world s) = None"
  shows "pool_step scrape ops opts urls s (s \<lparr> pl_workers := (pl_workers s)[i := Finished] \<rparr>)"
  using panicked[of i s idx url scrape opts ops urls "pl_world s"] assms by simp

lemma worker_step_pool_step:
  assumes "worker_step scrape ops opts urls i s = Some s'"
  shows "pool_step scrape ops opts urls s s'"
  using assms
  by (auto simp: worker_step_def not_less split: if_splits worker.splits option.splits prod.splits
      intro: pool_step.intros panicked_here)

lemma worker_step_ready:
  "worker_step scrape ops opts urls i s \<noteq> None
     \<longleftrightarrow> i < length (pl_workers s) \<and> pl_workers s ! i \<noteq> Finished"
  by (auto simp: worker_step_def split: worker.splits option.splits prod.splits)

fun run_schedule ::
    "'w scraper \<Rightarrow> crypto_ops \<Rightarrow> scrape_options \<Rightarrow> string list \<Rightarrow> nat list \<Rightarrow> 'w pool \<Rightarrow> 'w pool option" where
  "run_schedule scrape ops opts urls [] s = Some s"
| "run_schedule scrape ops opts urls (i # is) s =
     Option.bind (worker_step scrape ops opts urls i s) (run_schedule scrape ops opts urls is)"

lemma run_schedule_reachable:
  assumes "run_schedule scrape ops opts urls is s = Some s'"
  shows "(pool_step scrape ops opts urls)\<^sup>*\<^sup>* s s'"
  using assms
proof (induction "is" arbitrary: s)
  case (Cons i "is")
  then obtain s1 where "worker_step scrape ops opts urls i s = Some s1"
    and "run_schedule scrape ops opts urls is s1 = Some s'" by (auto simp: bind_eq_Some_conv)
  with Cons.IH show ?case by (metis worker_step_pool_step converse_rtranclp_into_rtranclp)
qed simp

section \<open>What every schedule keeps\<close>

definition item_of_scrape ::
    "'w scraper \<Rightarrow> crypto_ops \<Rightarrow> scrape_options \<Rightarrow> string list \<Rightarrow> nat \<Rightarrow> batch_item \<Rightarrow> bool" where
  "item_of_scrape scrape ops opts urls idx item \<longleftrightarrow>
     idx < length urls \<and>
     (\<exists>w r w'. scrape (urls ! idx) opts w = Some (r, w') \<and> scraped_item ops idx (urls ! idx) r = Some item)"

fun worker_ok :: "(nat \<Rightarrow> batch_item \<Rightarrow> bool) \<Rightarrow> string list \<Rightarrow> worker \<Rightarrow> bool" where
  "worker_ok good urls (Busy idx url) = (idx < length urls \<and> url = urls ! idx)"
| "worker_ok good urls (Storing idx item) = good idx item"
| "worker_ok good urls _ = True"

definition pool_ok :: "(nat \<Rightarrow> batch_item \<Rightarrow> bool) \<Rightarrow> string list \<Rightarrow> nat \<Rightarrow> 'w pool \<Rightarrow> bool" where
  "pool_ok good urls c s \<longleftrightarrow>
     pl_next s \<le> length urls \<and> length (pl_results s) = length urls \<and> length (pl_workers s) = c
     \<and> (\<forall>wk \<in> set (pl_workers s). worker_ok good urls wk)
     \<and> (\<forall>idx < length urls. \<forall>item. pl_results s ! idx = Some item \<longrightarrow> good idx item)"

lemma ball_set_update: "\<forall>x \<in> set xs. P x \<Longrightarrow> P y \<Longrightarrow> \<forall>x \<in> set (xs[i := y]). P x"
  using set_update_subset_insert by fastforce

lemma pool_ok_init:
  "pool_ok good urls (max (min concurrency (length urls)) 1) (pool_init urls concurrency w)"
  by (simp add: pool_ok_def pool_init_def)

lemma pool_ok_worker:
  assumes "pool_ok good urls c s" "worker_ok good urls wk"
  shows "pool_ok good urls c (s \<lparr> pl_workers := (pl_workers s)[i := wk] \<rparr>)"
    "pool_ok good urls c (s \<lparr> pl_workers := (pl_workers s)[i := wk], pl_world := w' \<rparr>)"
  using assms ball_set_update[of "pl_workers s" "worker_ok good urls" wk i] by (simp_all add: pool_ok_def)

lemma pool_ok_next:
  "pool_ok good urls c s \<Longrightarrow> pl_next s < length urls \<Longrightarrow> pool_ok good urls c (s \<lparr> pl_next := Suc (pl_next s) \<rparr>)"
  by (simp add: pool_ok_def)

lemma pool_ok_result:
  "pool_ok good urls c s \<Longrightarrow> good idx item
     \<Longrightarrow> pool_ok good urls c (s \<lparr> pl_results := (pl_results s)[idx := Some item] \<rparr>)"
  unfolding pool_ok_def by (auto, metis nth_list_update_eq nth_list_update_neq option.inject)

lemma pool_ok_worker_at:
  "pool_ok good urls c s \<Longrightarrow> i < length (pl_workers s) \<Longrightarrow> worker_ok good urls (pl_workers s ! i)"
  by (simp add: pool_ok_def)

lemma pool_ok_step:
  assumes "pool_step scrape ops opts urls s s'" "pool_ok (item_of_scrape scrape ops opts urls) urls c s"
  shows "pool_ok (item_of_scrape scrape ops opts urls) urls c s'"
  using assms
proof (induction rule: pool_step.induct)
  case (take_job i s)
  then show ?case using pool_ok_worker(1)[OF pool_ok_next[of _ urls c s]] by simp
next
  case (scraped i s idx url r w' item)
  then have "item_of_scrape scrape ops opts urls idx item"
    using pool_ok_worker_at[of _ urls c s i] by (auto simp: item_of_scrape_def)
  with scraped show ?case by (intro pool_ok_worker) simp_all
next
  case (stored i s idx item)
  then have "item_of_scrape scrape ops opts urls idx item"
    using pool_ok_worker_at[of _ urls c s i] by auto
  with stored show ?case using pool_ok_worker(1)[OF pool_ok_result[of _ urls c s]] by simp
qed (auto intro: pool_ok_worker)

lemma pool_ok_reachable:
  assumes "(pool_step scrape ops opts urls)\<^sup>*\<^sup>* s s'" "pool_ok (item_of_scrape scrape ops opts urls) urls c s"
  shows "pool_ok (item_of_scrape scrape ops opts urls) urls c s'"
  using assms by (induction rule: rtranclp_induct) (auto intro: pool_ok_step)

lemma length_collect_items [simp]: "length (collect_items urls slots) = length slots"
  by (simp add: collect_items_def)

lemma nth_collect_items:
  "idx < length slots \<Longrightarrow> collect_items urls slots ! idx
     = (case slots ! idx of Some item \<Rightarrow> item | None \<Rightarrow> missing_item idx (urls ! idx))"
  by (simp add: collect_items_def nth_enumerate_eq)

lemma scraped_item_shape:
  assumes "scraped_item ops idx url r = Some item"
  shows "bi_index item = idx" "bi_url item = url" "bi_ok item \<longleftrightarrow> is_ok r"
    "bi_proof item = (case r of Inr pf \<Rightarrow> Some pf | Inl _ \<Rightarrow> None)" "bi_error item = None \<longleftrightarrow> is_ok r"
  using assms by (cases r; auto)+

text \<open>
  Whatever the schedule of the workers, a batch returns one item per URL, in input order, under
  its own index and URL; an item that says ok carries the proof of a scrape of exactly that URL, an
  item that does not carries an error, and the two never mix.
\<close>

theorem batch_items_faithful:
  assumes "batch scrape ops urls opts w (Inr r) w'"
  shows "length (br_items r) = length urls \<and> 1 \<le> length urls \<and> length urls \<le> 1000
     \<and> br_concurrency r \<le> min 64 (length urls)
     \<and> (\<forall>idx < length urls. let item = br_items r ! idx in
          bi_index item = idx \<and> bi_url item = urls ! idx
          \<and> (bi_ok item \<longleftrightarrow> bi_error item = None) \<and> (bi_ok item \<longleftrightarrow> bi_proof item \<noteq> None)
          \<and> (\<forall>pf. bi_proof item = Some pf \<longrightarrow>
                (\<exists>w1 w2. scrape (urls ! idx) (bo_scrape opts) w1 = Some (Inr pf, w2))))"
proof -
  let ?good = "item_of_scrape scrape ops (bo_scrape opts) urls"
  from assms obtain s where v: "validate_batch urls (bo_concurrency opts) = Inr ()"
    and reach: "(pool_step scrape ops (bo_scrape opts) urls)\<^sup>*\<^sup>* (pool_init urls (bo_concurrency opts) w) s"
    and r: "r = \<lparr> br_mode = ''batch'', br_items = collect_items urls (pl_results s),
               br_concurrency = max (min (bo_concurrency opts) (length urls)) 1 \<rparr>"
    by (auto elim: batch_Inr)
  have ok: "pool_ok ?good urls (max (min (bo_concurrency opts) (length urls)) 1) s"
    using reach pool_ok_init by (rule pool_ok_reachable)
  have b: "1 \<le> length urls" "length urls \<le> 1000" "1 \<le> bo_concurrency opts" "bo_concurrency opts \<le> 64"
    using v by (auto simp: validate_batch_def Suc_le_eq split: if_splits)
  have "let item = collect_items urls (pl_results s) ! idx in
          bi_index item = idx \<and> bi_url item = urls ! idx
          \<and> (bi_ok item \<longleftrightarrow> bi_error item = None) \<and> (bi_ok item \<longleftrightarrow> bi_proof item \<noteq> None)
          \<and> (\<forall>pf. bi_proof item = Some pf \<longrightarrow>
                (\<exists>w1 w2. scrape (urls ! idx) (bo_scrape opts) w1 = Some (Inr pf, w2)))"
    if "idx < length urls" for idx
  proof (cases "pl_results s ! idx")
    case None
    with that ok show ?thesis by (simp add: pool_ok_def nth_collect_items missing_item_def)
  next
    case (Some item)
    with that ok have "?good idx item" by (simp add: pool_ok_def)
    then obtain w1 r' w2 where "scrape (urls ! idx) (bo_scrape opts) w1 = Some (r', w2)"
      and i: "scraped_item ops idx (urls ! idx) r' = Some item" by (auto simp: item_of_scrape_def)
    with that ok Some scraped_item_shape[OF i] show ?thesis
      by (cases r') (auto simp: pool_ok_def nth_collect_items)
  qed
  with ok b r show ?thesis by (auto simp: pool_ok_def)
qed

section \<open>Every schedule ends\<close>

fun worker_fuel :: "worker \<Rightarrow> nat" where
  "worker_fuel Idle = 1"
| "worker_fuel (Busy _ _) = 3"
| "worker_fuel (Storing _ _) = 2"
| "worker_fuel Finished = 0"

definition pool_fuel :: "string list \<Rightarrow> 'w pool \<Rightarrow> nat" where
  "pool_fuel urls s = 3 * (length urls - pl_next s) + sum_list (map worker_fuel (pl_workers s))"

lemma worker_fuel_update:
  assumes "i < length ws"
  shows "sum_list (map worker_fuel (ws[i := wk])) + worker_fuel (ws ! i)
     = sum_list (map worker_fuel ws) + worker_fuel wk"
  using assms elem_le_sum_list[of i "map worker_fuel ws"] by (simp add: map_update sum_list_update)

lemma pool_step_fuel:
  assumes "pool_step scrape ops opts urls s s'"
  shows "pool_fuel urls s' < pool_fuel urls s"
  using assms
proof (induction rule: pool_step.induct)
  case (take_job i s)
  with worker_fuel_update[of i "pl_workers s" "Busy (pl_next s) (urls ! pl_next s)"]
  show ?case by (simp add: pool_fuel_def)
next
  case (drained i s)
  with worker_fuel_update[of i "pl_workers s" Finished] show ?case by (simp add: pool_fuel_def)
next
  case (scraped i s idx url r w' item)
  with worker_fuel_update[of i "pl_workers s" "Storing idx item"] show ?case by (simp add: pool_fuel_def)
next
  case (panicked i s)
  with worker_fuel_update[of i "pl_workers s" Finished] show ?case by (simp add: pool_fuel_def)
next
  case (print_panicked i s)
  with worker_fuel_update[of i "pl_workers s" Finished] show ?case by (simp add: pool_fuel_def)
next
  case (stored i s idx item)
  with worker_fuel_update[of i "pl_workers s" Idle] show ?case by (simp add: pool_fuel_def)
qed

lemma pool_run_fuel:
  assumes "((pool_step scrape ops opts urls) ^^ k) s s'"
  shows "k + pool_fuel urls s' \<le> pool_fuel urls s"
  using assms
proof (induction k arbitrary: s')
  case (Suc k)
  then obtain s1 where "((pool_step scrape ops opts urls) ^^ k) s s1" "pool_step scrape ops opts urls s1 s'"
    by auto
  with Suc.IH[of s1] pool_step_fuel show ?case by fastforce
qed simp

lemma pool_progress:
  assumes "\<not> pool_done s"
  shows "\<exists>s'. pool_step scrape ops opts urls s s'"
proof -
  from assms obtain i where "i < length (pl_workers s)" "pl_workers s ! i \<noteq> Finished"
    by (auto simp: pool_done_def list_all_iff in_set_conv_nth)
  with worker_step_ready[of scrape ops opts urls i s] show ?thesis by (auto intro: worker_step_pool_step)
qed

lemma pool_finishes:
  "\<exists>s'. (pool_step scrape ops opts urls)\<^sup>*\<^sup>* s s' \<and> pool_done s'"
proof (induction "pool_fuel urls s" arbitrary: s rule: less_induct)
  case less
  show ?case
  proof (cases "pool_done s")
    case False
    then obtain s1 where "pool_step scrape ops opts urls s s1" using pool_progress by blast
    with less.hyps[OF pool_step_fuel, of scrape ops opts s1] show ?thesis
      by (meson converse_rtranclp_into_rtranclp)
  qed auto
qed

lemma pool_fuel_init:
  "pool_fuel urls (pool_init urls concurrency w) = 3 * length urls + max (min concurrency (length urls)) 1"
  by (simp add: pool_fuel_def pool_init_def sum_list_replicate)

text \<open>
  Every batch returns. No schedule runs for more than three steps per URL and one per worker,
  no reachable state is stuck before every worker has left its loop, and so every batch has an
  outcome, whatever scrapes fail or panic.
\<close>

theorem batch_returns:
  "(\<forall>k s. ((pool_step scrape ops (bo_scrape opts) urls) ^^ k) (pool_init urls (bo_concurrency opts) w) s
      \<longrightarrow> k \<le> 3 * length urls + max (min (bo_concurrency opts) (length urls)) 1
        \<and> (pool_done s \<or> (\<exists>s'. pool_step scrape ops (bo_scrape opts) urls s s')))
   \<and> (\<exists>r w'. batch scrape ops urls opts w r w')"
proof (intro conjI allI impI)
  fix k s
  assume "((pool_step scrape ops (bo_scrape opts) urls) ^^ k) (pool_init urls (bo_concurrency opts) w) s"
  from pool_run_fuel[OF this]
  show "k \<le> 3 * length urls + max (min (bo_concurrency opts) (length urls)) 1" by (simp add: pool_fuel_init)
  show "pool_done s \<or> (\<exists>s'. pool_step scrape ops (bo_scrape opts) urls s s')" using pool_progress by blast
next
  show "\<exists>r w'. batch scrape ops urls opts w r w'"
  proof (cases "validate_batch urls (bo_concurrency opts)")
    case (Inl e)
    then show ?thesis by (blast intro: batch.refused)
  next
    case (Inr u)
    with pool_finishes[of scrape ops "bo_scrape opts" urls "pool_init urls (bo_concurrency opts) w"]
    show ?thesis by (cases u) (blast intro: batch.joined)
  qed
qed

section \<open>The schedule does not matter\<close>

fun holds_job :: "nat \<Rightarrow> worker \<Rightarrow> bool" where
  "holds_job k (Busy idx url) = (idx = k)"
| "holds_job k (Storing idx item) = (idx = k)"
| "holds_job k _ = False"

definition covered_at :: "batch_item option list \<Rightarrow> worker list \<Rightarrow> nat \<Rightarrow> bool" where
  "covered_at slots ws k \<longleftrightarrow> slots ! k \<noteq> None \<or> (\<exists>wk \<in> set ws. holds_job k wk)"

definition covered :: "string list \<Rightarrow> 'w pool \<Rightarrow> bool" where
  "covered urls s \<longleftrightarrow>
     (\<forall>k < pl_next s. covered_at (pl_results s) (pl_workers s) k)
     \<and> (Finished \<in> set (pl_workers s) \<longrightarrow> length urls \<le> pl_next s)"

lemma bex_update:
  assumes "\<exists>x \<in> set xs. P x" "P (xs ! i) \<Longrightarrow> P y"
  shows "\<exists>x \<in> set (xs[i := y]). P x"
proof -
  from assms(1) obtain j where j: "j < length xs" "P (xs ! j)" by (auto simp: in_set_conv_nth)
  with assms(2) have "P (xs[i := y] ! j)" by (cases "i = j") auto
  with j show ?thesis by (metis length_list_update nth_mem)
qed

lemma covered_at_update:
  "covered_at slots ws k \<Longrightarrow> (holds_job k (ws ! i) \<Longrightarrow> holds_job k wk) \<Longrightarrow> covered_at slots (ws[i := wk]) k"
  unfolding covered_at_def by (metis bex_update)

lemma covered_at_store:
  assumes "covered_at slots ws k" "ws ! i = Storing idx item" "idx < length slots"
  shows "covered_at (slots[idx := Some item]) (ws[i := Idle]) k"
proof (cases "k = idx")
  case False
  have "covered_at slots (ws[i := Idle]) k" by (rule covered_at_update) (use assms False in auto)
  with False show ?thesis by (simp add: covered_at_def)
qed (use assms in \<open>simp add: covered_at_def\<close>)

lemma Finished_update: "Finished \<in> set (ws[i := wk]) \<Longrightarrow> wk \<noteq> Finished \<Longrightarrow> Finished \<in> set ws"
  using set_update_subset_insert by fastforce

lemma covered_step:
  assumes "pool_step scrape ops opts urls s s'" "covered urls s"
    and "pool_ok (item_of_scrape scrape ops opts urls) urls c s"
    and "\<And>u v. scrape u opts v \<noteq> None" "\<And>i u v r v'. scrape u opts v = Some (r, v') \<Longrightarrow> scraped_item ops i u r \<noteq> None"
  shows "covered urls s'"
  using assms
proof (induction rule: pool_step.induct)
  case (take_job i s)
  have "covered_at (pl_results s) ((pl_workers s)[i := Busy (pl_next s) (urls ! pl_next s)]) k" if "k < Suc (pl_next s)" for k
  proof (cases "k = pl_next s")
    case True
    with take_job(1) show ?thesis by (auto simp: covered_at_def intro!: bexI[OF _ set_update_memI])
  next
    case False
    with that take_job show ?thesis by (intro covered_at_update) (auto simp: covered_def)
  qed
  with take_job show ?case by (auto simp: covered_def dest: Finished_update)
next
  case (drained i s)
  then show ?case by (auto simp: covered_def intro: covered_at_update)
next
  case (scraped i s idx url r w' item)
  then show ?case by (auto simp: covered_def intro: covered_at_update dest: Finished_update)
next
  case (stored i s idx item)
  from stored have "item_of_scrape scrape ops opts urls idx item"
    using pool_ok_worker_at[of _ urls c s i] by auto
  with stored have "idx < length (pl_results s)" by (simp add: pool_ok_def item_of_scrape_def)
  with stored show ?case by (auto simp: covered_def intro: covered_at_store dest: Finished_update)
qed auto

lemma pool_reach_covered:
  assumes "(pool_step scrape ops opts urls)\<^sup>*\<^sup>* s s'" "covered urls s"
    and "pool_ok (item_of_scrape scrape ops opts urls) urls c s"
    and "\<And>u v. scrape u opts v \<noteq> None" "\<And>i u v r v'. scrape u opts v = Some (r, v') \<Longrightarrow> scraped_item ops i u r \<noteq> None"
  shows "covered urls s'"
  using assms
proof (induction rule: rtranclp_induct)
  case (step s1 s2)
  then show ?case by (metis covered_step pool_ok_reachable)
qed

lemma covered_init: "urls \<noteq> [] \<Longrightarrow> covered urls (pool_init urls concurrency w)"
  by (simp add: covered_def pool_init_def set_replicate_conv_if)

text \<open>
  C22: Where the outcome of a scrape is a function of its URL and no scrape panics, the schedule and
  the concurrency do not matter: the items are those of the sequential map over the URLs.
\<close>

theorem batch_equals_sequential:
  assumes "batch scrape ops urls opts w (Inr r) w'"
    and "\<And>u v. \<exists>v'. scrape u (bo_scrape opts) v = Some (f u, v')"
    and "\<And>i u. scraped_item ops i u (f u) \<noteq> None"
  shows "br_items r = map (\<lambda>(i, u). the (scraped_item ops i u (f u))) (enumerate 0 urls)"
proof -
  let ?good = "item_of_scrape scrape ops (bo_scrape opts) urls"
  let ?c = "max (min (bo_concurrency opts) (length urls)) 1"
  from assms(1) obtain s where v: "validate_batch urls (bo_concurrency opts) = Inr ()"
    and reach: "(pool_step scrape ops (bo_scrape opts) urls)\<^sup>*\<^sup>* (pool_init urls (bo_concurrency opts) w) s"
    and fin: "pool_done s" and r: "br_items r = collect_items urls (pl_results s)"
    by (auto elim: batch_Inr)
  have det: "r = f u" if "scrape u (bo_scrape opts) v = Some (r, v')" for u v r v'
    using assms(2)[of u v] that by auto
  have ok: "pool_ok ?good urls ?c s" using reach pool_ok_init by (rule pool_ok_reachable)
  have "urls \<noteq> []" using v by (auto simp: validate_batch_def)
  with reach have cov: "covered urls s"
  proof (rule pool_reach_covered[OF _ covered_init pool_ok_init])
    show "scrape u (bo_scrape opts) v \<noteq> None" for u v using assms(2)[of u v] by auto
    show "scraped_item ops i u r \<noteq> None" if "scrape u (bo_scrape opts) v = Some (r, v')" for i u v r v'
      using det[OF that] assms(3) by simp
  qed
  have "pl_workers s \<noteq> []" "\<forall>wk \<in> set (pl_workers s). wk = Finished"
    using ok fin by (auto simp: pool_ok_def pool_done_def list_all_iff)
  then have "Finished \<in> set (pl_workers s)" and none: "\<not> (\<exists>wk \<in> set (pl_workers s). holds_job k wk)" for k
    using hd_in_set by force+
  then have full: "pl_results s ! k \<noteq> None" if "k < length urls" for k
    using cov that none by (force simp: covered_def covered_at_def)
  show ?thesis unfolding r
  proof (rule nth_equalityI)
    show l: "length (collect_items urls (pl_results s))
        = length (map (\<lambda>(i, u). the (scraped_item ops i u (f u))) (enumerate 0 urls))"
      using ok by (simp add: pool_ok_def)
    fix k assume "k < length (collect_items urls (pl_results s))"
    then have k: "k < length urls" "k < length (pl_results s)" using ok by (simp_all add: pool_ok_def)
    then obtain item where item: "pl_results s ! k = Some item" using full by blast
    with ok k have "?good k item" by (simp add: pool_ok_def)
    with det have "scraped_item ops k (urls ! k) (f (urls ! k)) = Some item"
      by (auto simp: item_of_scrape_def)
    with k item show "collect_items urls (pl_results s) ! k
        = map (\<lambda>(i, u). the (scraped_item ops i u (f u))) (enumerate 0 urls) ! k"
      by (simp add: nth_collect_items nth_enumerate_eq)
  qed
qed

section \<open>A concrete batch\<close>

definition demo_batch_scrape :: "unit scraper" where
  "demo_batch_scrape url opts w =
     (if url = ''boom'' then None else Some (Inr ((demo_proof ''n'') \<lparr> sp_task_id := Some url \<rparr>), w))"

definition demo_steady_scrape :: "unit scraper" where
  "demo_steady_scrape url opts w = Some (Inr ((demo_proof ''n'') \<lparr> sp_task_id := Some url \<rparr>), w)"

definition demo_batch_options :: batch_options where
  "demo_batch_options = default_batch_options \<lparr> bo_concurrency := 1 \<rparr>"

lemma demo_batch_valid: "validate_batch [a, b] (bo_concurrency demo_batch_options) = Inr ()"
  by (simp add: validate_batch_def demo_batch_options_def)

text \<open>
  A panic ends its worker, not only its URL: with one worker every later URL goes unscraped, though
  its own scrape would have succeeded.
\<close>

lemma panic_collapses_siblings:
  "\<exists>r w'. batch demo_batch_scrape ops [''boom'', ''fine''] demo_batch_options () (Inr r) w'
     \<and> br_items r = [missing_item 0 ''boom'', missing_item 1 ''fine'']"
proof -
  let ?s = "pool_init [''boom'', ''fine''] (bo_concurrency demo_batch_options) ()"
  obtain s' where "run_schedule demo_batch_scrape ops (bo_scrape demo_batch_options) [''boom'', ''fine''] [0, 0] ?s = Some s'"
    and s': "pool_done s'" "pl_results s' = [None, None]"
    by (simp add: pool_init_def demo_batch_options_def worker_step_def demo_batch_scrape_def pool_done_def)
  note reach = run_schedule_reachable[OF this(1)]
  have "batch demo_batch_scrape ops [''boom'', ''fine''] demo_batch_options ()
      (Inr \<lparr> br_mode = ''batch'', br_items = collect_items [''boom'', ''fine''] (pl_results s'),
         br_concurrency = max (min (bo_concurrency demo_batch_options) (length [''boom'', ''fine''])) 1 \<rparr>) (pl_world s')"
    using demo_batch_valid reach s'(1) by (rule batch.joined)
  moreover have "collect_items [''boom'', ''fine''] (pl_results s') = [missing_item 0 ''boom'', missing_item 1 ''fine'']"
    using s'(2) by (simp add: collect_items_def)
  ultimately show ?thesis by fastforce
qed

lemma demo_batch_run:
  "\<exists>r. batch demo_steady_scrape ops [''u'', ''v''] demo_batch_options () (Inr r) ()"
proof -
  let ?s = "pool_init [''u'', ''v''] (bo_concurrency demo_batch_options) ()"
  obtain s' where "run_schedule demo_steady_scrape ops (bo_scrape demo_batch_options) [''u'', ''v'']
      [0, 0, 0, 0, 0, 0, 0] ?s = Some s'" and s': "pool_done s'" "pl_world s' = ()"
    by (simp add: pool_init_def demo_batch_options_def worker_step_def demo_steady_scrape_def pool_done_def)
  note reach = run_schedule_reachable[OF this(1)]
  have "batch demo_steady_scrape ops [''u'', ''v''] demo_batch_options ()
      (Inr \<lparr> br_mode = ''batch'', br_items = collect_items [''u'', ''v''] (pl_results s'),
         br_concurrency = max (min (bo_concurrency demo_batch_options) (length [''u'', ''v''])) 1 \<rparr>) (pl_world s')"
    using demo_batch_valid reach s'(1) by (rule batch.joined)
  then show ?thesis by auto
qed

theorem batch_returns_witness:
  "(\<exists>s s'. pool_step demo_batch_scrape demo_ops (bo_scrape demo_batch_options) [''boom'', ''fine'']
        (pool_init [''boom'', ''fine''] (bo_concurrency demo_batch_options) ()) s \<and> \<not> pool_done s
        \<and> pool_step demo_batch_scrape demo_ops (bo_scrape demo_batch_options) [''boom'', ''fine''] s s')
   \<and> (\<exists>r w'. batch demo_batch_scrape demo_ops [''boom'', ''fine''] demo_batch_options () r w')"
proof -
  let ?R = "pool_step demo_batch_scrape demo_ops (bo_scrape demo_batch_options) [''boom'', ''fine'']"
  let ?s = "pool_init [''boom'', ''fine''] (bo_concurrency demo_batch_options) ()"
  obtain s where s: "worker_step demo_batch_scrape demo_ops (bo_scrape demo_batch_options) [''boom'', ''fine''] 0 ?s = Some s"
    and nd: "\<not> pool_done s"
    by (simp add: pool_init_def demo_batch_options_def worker_step_def pool_done_def)
  note step = worker_step_pool_step[OF s]
  then have run: "(?R ^^ 1) ?s s" unfolding relpowp_1 .
  from batch_returns[of demo_batch_scrape demo_ops demo_batch_options "[''boom'', ''fine'']" "()"] run nd
  have "\<exists>s'. ?R s s'" "\<exists>r w'. batch demo_batch_scrape demo_ops [''boom'', ''fine''] demo_batch_options () r w'"
    by blast+
  with step nd show ?thesis by blast
qed

theorem batch_items_faithful_witness:
  "\<exists>r. batch demo_steady_scrape demo_ops [''u'', ''v''] demo_batch_options () (Inr r) ()
     \<and> length (br_items r) = 2 \<and> bi_url (br_items r ! 1) = ''v''"
proof -
  obtain r where r: "batch demo_steady_scrape demo_ops [''u'', ''v''] demo_batch_options () (Inr r) ()"
    using demo_batch_run by blast
  have "length (br_items r) = 2" "bi_url (br_items r ! 1) = ''v''"
    using batch_items_faithful[OF r] by (auto simp: Let_def dest!: spec[of _ 1])
  with r show ?thesis by blast
qed

theorem batch_equals_sequential_witness:
  "\<exists>r. batch demo_steady_scrape demo_ops [''u'', ''v''] demo_batch_options () (Inr r) ()
     \<and> map (\<lambda>i. map_option sp_task_id (bi_proof i)) (br_items r) = [Some (Some ''u''), Some (Some ''v'')]"
proof -
  obtain r where r: "batch demo_steady_scrape demo_ops [''u'', ''v''] demo_batch_options () (Inr r) ()"
    using demo_batch_run by blast
  have "br_items r = map (\<lambda>(i, u). the (scraped_item demo_ops i u
      (Inr ((demo_proof ''n'') \<lparr> sp_task_id := Some u \<rparr>)))) (enumerate 0 [''u'', ''v''])"
    by (rule batch_equals_sequential[OF r]) (simp_all add: demo_steady_scrape_def)
  with r show ?thesis by auto
qed

end
