(* ===== verification/Seal_Result.thy ===== *)
theory Seal_Result
  imports Seal_Task
begin

text \<open>
  \<^verbatim>\<open>basecrawl-seal/src/result.rs\<close>: the scrape result sealed to the committee's public key. The
  serde codec of the sealed body is a pair of parameters: \<open>write\<close> is \<^verbatim>\<open>serde_json::to_vec\<close> and
  \<open>parse\<close> is \<^verbatim>\<open>serde_json::from_slice\<close>. The field \<open>box_seal\<close> stands for sealing with one choice
  of the ephemeral key.
\<close>

definition RESULT_SEAL_SUITE :: string where
  "RESULT_SEAL_SUITE = ''libsodium-sealed-box-x25519-xsalsa20-poly1305''"

definition RESULT_SEAL_DOMAIN :: string where
  "RESULT_SEAL_DOMAIN = ''relay/result-seal/v1''"

definition RESULT_SEAL_KIND :: string where
  "RESULT_SEAL_KIND = ''result''"

definition RESULT_RECIPIENT_ROLE :: string where
  "RESULT_RECIPIENT_ROLE = ''committee-threshold''"

record committee_key =
  ck_public :: string
  ck_key_id :: string

record sealed_result_envelope =
  re_version :: nat
  re_suite :: string
  re_kind :: string
  re_recipient :: string
  re_recipient_key_id :: string
  re_task_id :: string
  re_nonce :: string
  re_result_hash :: string
  re_ciphertext :: string

record result_seal_plaintext =
  rp_task_id :: string
  rp_nonce :: string
  rp_result_hash :: string
  rp_formats :: "(string, json) btree"

section \<open>The committee key\<close>

definition committee_key_bytes :: "string \<Rightarrow> (seal_error, string) result" where
  "committee_key_bytes h =
     (if length h \<noteq> 64 \<or> \<not> list_all is_hex_digit h
      then Inl (InvalidIdentity ''committee public key must be 32 lowercase hex bytes'')
      else if h \<noteq> to_lower h
      then Inl (InvalidIdentity ''committee public key hex must be lowercase'')
      else ok_or (decode_pairs h) (InvalidIdentity ''committee public key is not hexadecimal''))"

definition committee_from_hex :: "crypto_ops \<Rightarrow> string \<Rightarrow> (seal_error, committee_key) result" where
  "committee_from_hex ops h =
     bind_res (committee_key_bytes h) (\<lambda>bs. Inr \<lparr> ck_public = h, ck_key_id = key_id_for ops bs \<rparr>)"

definition committee_from_bytes :: "crypto_ops \<Rightarrow> string \<Rightarrow> committee_key" where
  "committee_from_bytes ops bs = \<lparr> ck_public = hex_encode bs, ck_key_id = key_id_for ops bs \<rparr>"

definition committee_report_data :: "crypto_ops \<Rightarrow> committee_key \<Rightarrow> (seal_error, string) result" where
  "committee_report_data ops ck =
     bind_res (committee_key_bytes (ck_public ck)) (\<lambda>bs.
       Inr (hex_encode (sha256 ops (RESULT_SEAL_DOMAIN @ bs))))"

section \<open>Sealing\<close>

definition is_hex_digest :: "string \<Rightarrow> bool" where
  "is_hex_digest v \<longleftrightarrow> (length v = 64 \<or> length v = 96) \<and> list_all is_lower_hex v \<and> v = to_lower v"

definition validate_result_plaintext :: "result_seal_plaintext \<Rightarrow> (seal_error, unit) result" where
  "validate_result_plaintext p =
     (if rp_task_id p = [] \<or> rp_nonce p = []
      then Inl (InvalidEnvelope ''result plaintext is missing task_id/nonce'')
      else if rp_formats p = []
      then Inl (InvalidEnvelope ''result plaintext carries no formats_produced entries'')
      else Inr ())"

definition result_aad_text :: "string \<Rightarrow> string \<Rightarrow> string \<Rightarrow> string \<Rightarrow> string" where
  "result_aad_text t n h k =
     RESULT_SEAL_DOMAIN @ ''|task_id='' @ t @ ''|nonce='' @ n @ ''|result_hash='' @ h
       @ ''|recipient_key_id='' @ k @ ''|recipient='' @ RESULT_RECIPIENT_ROLE"

definition build_result_aad :: "string \<Rightarrow> string \<Rightarrow> string \<Rightarrow> string \<Rightarrow> (seal_error, string) result" where
  "build_result_aad t n h k =
     (if t = [] \<or> n = [] \<or> h = [] \<or> \<not> is_key_id k
      then Inl (InvalidEnvelope ''result sealing metadata is malformed'')
      else Inr (result_aad_text t n h k))"

definition seal_result_to_committee ::
    "crypto_ops \<Rightarrow> (result_seal_plaintext \<Rightarrow> string option) \<Rightarrow> result_seal_plaintext \<Rightarrow> committee_key
     \<Rightarrow> (seal_error, sealed_result_envelope) result" where
  "seal_result_to_committee ops write p ck =
     bind_res (validate_result_plaintext p) (\<lambda>_.
       if rp_result_hash p = [] \<or> \<not> is_hex_digest (rp_result_hash p)
       then Inl (InvalidEnvelope ''result_hash must be a lowercase hex digest'')
       else
         bind_res (committee_key_bytes (ck_public ck)) (\<lambda>pk.
           if ck_key_id ck \<noteq> key_id_for ops pk
           then Inl (InvalidEnvelope ''committee key_id does not match public key'')
           else
             bind_res (build_result_aad (rp_task_id p) (rp_nonce p) (rp_result_hash p) (ck_key_id ck)) (\<lambda>aad.
             bind_res (ok_or (write p) MalformedPlaintext) (\<lambda>body.
             bind_res (ok_or (box_seal ops pk (aad @ CHR 0x00 # body)) AuthenticationFailed) (\<lambda>ct.
               Inr \<lparr> re_version = 1, re_suite = RESULT_SEAL_SUITE, re_kind = RESULT_SEAL_KIND,
                     re_recipient = RESULT_RECIPIENT_ROLE, re_recipient_key_id = ck_key_id ck,
                     re_task_id = rp_task_id p, re_nonce = rp_nonce p,
                     re_result_hash = rp_result_hash p,
                     re_ciphertext = b64url_encode_nopad ops ct \<rparr>)))))"

definition seal_formats_to_committee ::
    "crypto_ops \<Rightarrow> (result_seal_plaintext \<Rightarrow> string option) \<Rightarrow> string \<Rightarrow> string \<Rightarrow> string
     \<Rightarrow> (string, json) btree \<Rightarrow> committee_key \<Rightarrow> (seal_error, sealed_result_envelope) result" where
  "seal_formats_to_committee ops write t n h formats ck =
     seal_result_to_committee ops write
       \<lparr> rp_task_id = t, rp_nonce = n, rp_result_hash = h, rp_formats = formats \<rparr> ck"

section \<open>Opening\<close>

definition validate_result_envelope :: "sealed_result_envelope \<Rightarrow> (seal_error, unit) result" where
  "validate_result_envelope e =
     (if re_version e \<noteq> 1 then Inl (InvalidEnvelope ''unsupported version'')
      else if re_suite e \<noteq> RESULT_SEAL_SUITE then Inl (InvalidEnvelope ''unsupported suite'')
      else if re_kind e \<noteq> RESULT_SEAL_KIND then Inl (InvalidEnvelope ''envelope kind is not result'')
      else if re_recipient e \<noteq> RESULT_RECIPIENT_ROLE
      then Inl (InvalidEnvelope ''result envelope is not addressed to the committee-threshold role'')
      else if \<not> is_key_id (re_recipient_key_id e)
      then Inl (InvalidEnvelope ''recipient_key_id is malformed'')
      else if re_task_id e = [] \<or> re_nonce e = []
      then Inl (InvalidEnvelope ''result seal envelope is missing routing ids'')
      else if \<not> is_hex_digest (re_result_hash e) then Inl (InvalidEnvelope ''result_hash is malformed'')
      else if re_ciphertext e = [] then Inl (InvalidEnvelope ''ciphertext is empty'')
      else Inr ())"

definition decrypt_result_as_miner_host ::
    "sealed_result_envelope \<Rightarrow> enclave_identity option \<Rightarrow> (seal_error, result_seal_plaintext) result" where
  "decrypt_result_as_miner_host e miner_held =
     bind_res (validate_result_envelope e) (\<lambda>_. Inl KeyNotReleased)"

definition decrypt_result_with_foreign_key ::
    "crypto_ops \<Rightarrow> sealed_result_envelope \<Rightarrow> enclave_identity
     \<Rightarrow> (seal_error, result_seal_plaintext) result" where
  "decrypt_result_with_foreign_key ops e foreign =
     bind_res (validate_result_envelope e) (\<lambda>_.
     bind_res (decode_b64url ops (re_ciphertext e)) (\<lambda>ct.
       if length ct \<le> MIN_SEALED_CIPHERTEXT_LEN then Inl AuthenticationFailed
       else case box_unseal ops (id_secret foreign) ct of
         Some _ \<Rightarrow> Inl AuthenticationFailed
       | None \<Rightarrow> Inl AuthenticationFailed))"

definition unseal_result_with_committee_secret ::
    "crypto_ops \<Rightarrow> (string \<Rightarrow> result_seal_plaintext option) \<Rightarrow> sealed_result_envelope \<Rightarrow> string
     \<Rightarrow> (seal_error, result_seal_plaintext) result" where
  "unseal_result_with_committee_secret ops parse e secret =
     bind_res (validate_result_envelope e) (\<lambda>_.
     bind_res (decode_b64url ops (re_ciphertext e)) (\<lambda>ct.
       if length ct \<le> MIN_SEALED_CIPHERTEXT_LEN then Inl AuthenticationFailed
       else if recipient_key_id ops (x25519_public ops secret) \<noteq> re_recipient_key_id e
       then Inl (InvalidEnvelope ''committee secret does not match recipient_key_id'')
       else
         bind_res (ok_or (box_unseal ops secret ct) AuthenticationFailed) (\<lambda>authenticated.
         bind_res (split_aad_plaintext authenticated) (\<lambda>(aad, body).
         bind_res (build_result_aad (re_task_id e) (re_nonce e) (re_result_hash e)
                     (re_recipient_key_id e)) (\<lambda>expected.
           if \<not> constant_time_eq aad expected then Inl AuthenticationFailed
           else
             bind_res (ok_or (parse body) MalformedPlaintext) (\<lambda>p.
               if rp_task_id p \<noteq> re_task_id e \<or> rp_nonce p \<noteq> re_nonce e
                  \<or> rp_result_hash p \<noteq> re_result_hash e
               then Inl MalformedPlaintext
               else Inr p))))))"

text \<open>The parameter is \<^verbatim>\<open>serde_json::to_vec\<close> of the envelope.\<close>

definition host_visible_contains_marker ::
    "(sealed_result_envelope \<Rightarrow> string option) \<Rightarrow> sealed_result_envelope \<Rightarrow> string \<Rightarrow> bool" where
  "host_visible_contains_marker write_envelope e marker =
     (if marker = [] then False
      else case write_envelope e of None \<Rightarrow> False | Some bs \<Rightarrow> contains bs marker)"

section \<open>What an opened result proves\<close>

lemma committee_key_bytes_iff: "committee_key_bytes h = Inr bs \<longleftrightarrow> h = hex_encode bs \<and> length bs = 32"
proof -
  have "committee_key_bytes h = Inr bs \<longleftrightarrow> hex_decode_32 h = Inr bs"
    by (auto simp: committee_key_bytes_def hex_decode_32_def res_simps)
  then show ?thesis by (simp add: hex_decode_32_iff)
qed

lemma build_result_aad_Inr:
  "build_result_aad t n h k = Inr aad \<longleftrightarrow>
     t \<noteq> [] \<and> n \<noteq> [] \<and> h \<noteq> [] \<and> is_key_id k \<and> aad = result_aad_text t n h k"
  by (auto simp: build_result_aad_def)

lemma unseal_result_Inr:
  "unseal_result_with_committee_secret ops parse e secret = Inr p \<longleftrightarrow>
     validate_result_envelope e = Inr ()
     \<and> recipient_key_id ops (x25519_public ops secret) = re_recipient_key_id e
     \<and> rp_task_id p = re_task_id e \<and> rp_nonce p = re_nonce e \<and> rp_result_hash p = re_result_hash e
     \<and> (\<exists>ct body. decode_b64url ops (re_ciphertext e) = Inr ct \<and> 48 < length ct
          \<and> box_unseal ops secret ct
              = Some (result_aad_text (re_task_id e) (re_nonce e) (re_result_hash e) (re_recipient_key_id e)
                      @ CHR 0x00 # body)
          \<and> CHR 0x00 \<notin> set (result_aad_text (re_task_id e) (re_nonce e) (re_result_hash e) (re_recipient_key_id e))
          \<and> parse body = Some p)" (is "?l \<longleftrightarrow> ?r")
proof
  assume ?l
  then obtain ct authenticated aad body where
    v: "validate_result_envelope e = Inr ()" and d: "decode_b64url ops (re_ciphertext e) = Inr ct"
    and l: "48 < length ct" and k: "recipient_key_id ops (x25519_public ops secret) = re_recipient_key_id e"
    and b: "box_unseal ops secret ct = Some authenticated" and s: "split_aad_plaintext authenticated = Inr (aad, body)"
    and a: "aad = result_aad_text (re_task_id e) (re_nonce e) (re_result_hash e) (re_recipient_key_id e)"
    and p: "parse body = Some p" "rp_task_id p = re_task_id e" "rp_nonce p = re_nonce e"
      "rp_result_hash p = re_result_hash e"
    by (auto simp: unseal_result_with_committee_secret_def res_simps constant_time_eq_iff
        build_result_aad_Inr MIN_SEALED_CIPHERTEXT_LEN_def split: if_splits prod.splits)
  from split_aad_plaintext_Inr[OF s] v d l k b a p show ?r by auto
next
  assume r: ?r
  then obtain ct body where c: "decode_b64url ops (re_ciphertext e) = Inr ct" "48 < length ct"
    "box_unseal ops secret ct
       = Some (result_aad_text (re_task_id e) (re_nonce e) (re_result_hash e) (re_recipient_key_id e)
               @ CHR 0x00 # body)" "parse body = Some p"
    and z: "CHR 0x00 \<notin> set (result_aad_text (re_task_id e) (re_nonce e) (re_result_hash e) (re_recipient_key_id e))"
    by blast
  from r have "re_task_id e \<noteq> []" "re_nonce e \<noteq> []" "re_result_hash e \<noteq> []" "is_key_id (re_recipient_key_id e)"
    by (auto simp: validate_result_envelope_def is_hex_digest_def split: if_splits)
  then have "build_result_aad (re_task_id e) (re_nonce e) (re_result_hash e) (re_recipient_key_id e)
      = Inr (result_aad_text (re_task_id e) (re_nonce e) (re_result_hash e) (re_recipient_key_id e))"
    by (simp add: build_result_aad_Inr)
  with r c split_aad_plaintext_append[OF z] show ?l
    by (simp add: unseal_result_with_committee_secret_def constant_time_eq_iff MIN_SEALED_CIPHERTEXT_LEN_def)
qed

lemma validate_result_envelope_Inr:
  "validate_result_envelope e = Inr () \<longleftrightarrow>
     re_version e = 1 \<and> re_suite e = RESULT_SEAL_SUITE \<and> re_kind e = RESULT_SEAL_KIND
     \<and> re_recipient e = RESULT_RECIPIENT_ROLE \<and> is_key_id (re_recipient_key_id e)
     \<and> re_task_id e \<noteq> [] \<and> re_nonce e \<noteq> [] \<and> is_hex_digest (re_result_hash e) \<and> re_ciphertext e \<noteq> []"
  by (auto simp: validate_result_envelope_def)

text \<open>
  A ciphertext opens under one envelope only: two envelopes that carry the same ciphertext and
  both open under a committee secret agree in every host-visible field, and in the body. So the
  relaying host cannot move a sealed result to another task, nonce, digest or recipient.
\<close>

theorem result_envelope_determined:
  assumes "unseal_result_with_committee_secret ops parse e1 secret = Inr p1"
    and "unseal_result_with_committee_secret ops parse e2 secret = Inr p2"
    and "re_ciphertext e1 = re_ciphertext e2"
  shows "e1 = e2 \<and> p1 = p2"
proof -
  let ?a = "\<lambda>e. result_aad_text (re_task_id e) (re_nonce e) (re_result_hash e) (re_recipient_key_id e)"
  obtain ct body1 where 1: "decode_b64url ops (re_ciphertext e1) = Inr ct"
      "box_unseal ops secret ct = Some (?a e1 @ CHR 0x00 # body1)" "CHR 0x00 \<notin> set (?a e1)" "parse body1 = Some p1"
    using assms(1) by (auto simp: unseal_result_Inr)
  obtain body2 where 2: "box_unseal ops secret ct = Some (?a e2 @ CHR 0x00 # body2)"
      "CHR 0x00 \<notin> set (?a e2)" "parse body2 = Some p2"
    using assms(2,3) 1(1) by (auto simp: unseal_result_Inr)
  have "split_aad_plaintext (?a e1 @ CHR 0x00 # body1) = split_aad_plaintext (?a e2 @ CHR 0x00 # body2)"
    using 1(2) 2(1) by simp
  then have "body1 = body2"
    using split_aad_plaintext_append[OF 1(3)] split_aad_plaintext_append[OF 2(2)] by simp
  with 1(4) 2(3) have p: "p1 = p2" by simp
  with assms show ?thesis by (cases e1; cases e2) (auto simp: unseal_result_Inr validate_result_envelope_Inr)
qed

section \<open>The committee reads what the enclave sealed\<close>

text \<open>The documented behaviour of the sealed box and of base64url without padding.\<close>

definition sealed_box_law :: "crypto_ops \<Rightarrow> string \<Rightarrow> bool" where
  "sealed_box_law ops secret \<longleftrightarrow>
     (\<forall>m ct. box_seal ops (x25519_public ops secret) m = Some ct
        \<longrightarrow> box_unseal ops secret ct = Some m \<and> length ct = 48 + length m)"

definition base64url_law :: "crypto_ops \<Rightarrow> bool" where
  "base64url_law ops \<longleftrightarrow>
     (\<forall>bs. let s = b64url_encode_nopad ops bs in
        list_all is_b64url_char s \<and> length s mod 4 \<noteq> 1 \<and> (s = [] \<longrightarrow> bs = [])
        \<and> b64url_decode_padded ops (pad4 s) = Some bs)"

lemma base64url_decode:
  assumes "base64url_law ops" "bs \<noteq> []"
  shows "decode_b64url ops (b64url_encode_nopad ops bs) = Inr bs" and "b64url_encode_nopad ops bs \<noteq> []"
proof -
  have s: "list_all is_b64url_char (b64url_encode_nopad ops bs)" "length (b64url_encode_nopad ops bs) mod 4 \<noteq> 1"
    "b64url_encode_nopad ops bs = [] \<longrightarrow> bs = []" "b64url_decode_padded ops (pad4 (b64url_encode_nopad ops bs)) = Some bs"
    using assms(1) by (auto simp: base64url_law_def Let_def)
  with assms(2) show "b64url_encode_nopad ops bs \<noteq> []" by blast
  with s show "decode_b64url ops (b64url_encode_nopad ops bs) = Inr bs" by (simp add: decode_b64url_def)
qed

lemma seal_result_Inr:
  "seal_result_to_committee ops write p ck = Inr e \<longleftrightarrow>
     rp_task_id p \<noteq> [] \<and> rp_nonce p \<noteq> [] \<and> rp_formats p \<noteq> [] \<and> is_hex_digest (rp_result_hash p)
     \<and> is_key_id (ck_key_id ck)
     \<and> (\<exists>pk body ct. committee_key_bytes (ck_public ck) = Inr pk \<and> ck_key_id ck = key_id_for ops pk
          \<and> write p = Some body
          \<and> box_seal ops pk (result_aad_text (rp_task_id p) (rp_nonce p) (rp_result_hash p) (ck_key_id ck)
                @ CHR 0x00 # body) = Some ct
          \<and> e = \<lparr> re_version = 1, re_suite = RESULT_SEAL_SUITE, re_kind = RESULT_SEAL_KIND,
                 re_recipient = RESULT_RECIPIENT_ROLE, re_recipient_key_id = ck_key_id ck,
                 re_task_id = rp_task_id p, re_nonce = rp_nonce p, re_result_hash = rp_result_hash p,
                 re_ciphertext = b64url_encode_nopad ops ct \<rparr>)"
  by (auto simp: seal_result_to_committee_def validate_result_plaintext_def build_result_aad_Inr
      is_hex_digest_def res_simps split: if_splits)

lemma hex_digest_no_nul: "is_hex_digest h \<Longrightarrow> CHR 0x00 \<notin> set h"
  using lower_hex_no_pipe by (auto simp: is_hex_digest_def list_all_iff)

lemma result_aad_no_nul:
  "CHR 0x00 \<notin> set (result_aad_text t n h k) \<longleftrightarrow>
     CHR 0x00 \<notin> set t \<and> CHR 0x00 \<notin> set n \<and> CHR 0x00 \<notin> set h \<and> CHR 0x00 \<notin> set k"
  by (auto simp: result_aad_text_def RESULT_SEAL_DOMAIN_def RESULT_RECIPIENT_ROLE_def)

lemma seal_then_unseal:
  assumes "seal_result_to_committee ops write p ck = Inr e"
    and "committee_key_bytes (ck_public ck) = Inr (x25519_public ops secret)"
    and "sealed_box_law ops secret" and "base64url_law ops"
    and "\<And>body. write p = Some body \<Longrightarrow> parse body = Some p"
    and "CHR 0x00 \<notin> set (rp_task_id p)" and "CHR 0x00 \<notin> set (rp_nonce p)"
  shows "unseal_result_with_committee_secret ops parse e secret = Inr p"
proof -
  let ?a = "result_aad_text (rp_task_id p) (rp_nonce p) (rp_result_hash p) (ck_key_id ck)"
  from assms(1,2) obtain body ct where p: "rp_task_id p \<noteq> []" "rp_nonce p \<noteq> []" "is_hex_digest (rp_result_hash p)"
      "is_key_id (ck_key_id ck)" and k: "ck_key_id ck = key_id_for ops (x25519_public ops secret)"
    and w: "write p = Some body" and s: "box_seal ops (x25519_public ops secret) (?a @ CHR 0x00 # body) = Some ct"
    and e: "e = \<lparr> re_version = 1, re_suite = RESULT_SEAL_SUITE, re_kind = RESULT_SEAL_KIND,
       re_recipient = RESULT_RECIPIENT_ROLE, re_recipient_key_id = ck_key_id ck,
       re_task_id = rp_task_id p, re_nonce = rp_nonce p, re_result_hash = rp_result_hash p,
       re_ciphertext = b64url_encode_nopad ops ct \<rparr>"
    by (auto simp: seal_result_Inr)
  from s assms(3) have o: "box_unseal ops secret ct = Some (?a @ CHR 0x00 # body)" "48 < length ct"
    by (auto simp: sealed_box_law_def)
  then have "ct \<noteq> []" by auto
  note d = base64url_decode[OF assms(4) this]
  have z: "CHR 0x00 \<notin> set ?a"
    using assms(6,7) p hex_digest_no_nul key_id_chars by (simp add: result_aad_no_nul)
  show ?thesis unfolding unseal_result_Inr
    using p k d o z assms(5)[OF w] e by (simp add: validate_result_envelope_Inr recipient_key_id_def key_id_for_def)
qed

text \<open>
  C23: What the enclave seals to the committee, the committee's secret opens, and it is the sealed
  result: for a sealed box, a base64 codec and a serde codec that invert their encoders, and routing
  ids without a NUL byte.
\<close>

theorem result_seal_roundtrip:
  assumes "seal_result_to_committee ops write p ck = Inr e"
    and "committee_key_bytes (ck_public ck) = Inr (x25519_public ops secret)"
    and "sealed_box_law ops secret" and "base64url_law ops"
    and "\<And>body. write p = Some body \<Longrightarrow> parse body = Some p"
    and "CHR 0x00 \<notin> set (rp_task_id p)" and "CHR 0x00 \<notin> set (rp_nonce p)"
  shows "unseal_result_with_committee_secret ops parse e secret = Inr p"
  using assms by (rule seal_then_unseal)

text \<open>A routing id with a NUL byte seals, but what it seals can never be opened.\<close>

lemma nul_routing_id_unopenable:
  assumes "CHR 0x00 \<in> set (re_task_id e)"
  shows "unseal_result_with_committee_secret ops parse e secret \<noteq> Inr p"
  using assms by (auto simp: unseal_result_Inr result_aad_no_nul)

text \<open>The host and every foreign key end with an error.\<close>

lemma host_reads_no_result:
  "decrypt_result_as_miner_host e held \<noteq> Inr p" "decrypt_result_with_foreign_key ops e foreign \<noteq> Inr p"
  by (auto simp: decrypt_result_as_miner_host_def decrypt_result_with_foreign_key_def res_simps
      split: option.splits if_splits)

text \<open>
  The result body reaches the host in the ciphertext only: with the routing fields fixed, the
  envelopes of two bodies differ at most there, and neither the miner path nor a foreign key ever
  yields a body.
\<close>

theorem sealed_result_hides_body:
  assumes "seal_result_to_committee ops write p ck = Inr e"
    and "seal_result_to_committee ops write (p \<lparr> rp_formats := formats \<rparr>) ck = Inr e'"
  shows "e' = e \<lparr> re_ciphertext := re_ciphertext e' \<rparr>
     \<and> decrypt_result_as_miner_host e held \<noteq> Inr q
     \<and> decrypt_result_with_foreign_key ops e foreign \<noteq> Inr q"
proof (intro conjI host_reads_no_result)
  show "e' = e \<lparr> re_ciphertext := re_ciphertext e' \<rparr>"
    using assms by (auto simp: seal_result_Inr)
qed

section \<open>A concrete committee\<close>

text \<open>An instance of the third-party laws: base64 is replaced by hexadecimal.\<close>

definition hex_ops :: crypto_ops where
  "hex_ops = demo_ops \<lparr> b64url_encode_nopad := hex_encode,
     b64url_decode_padded := (\<lambda>s. decode_pairs (takeWhile (\<lambda>c. c \<noteq> CHR ''='') s)) \<rparr>"

lemma hex_ops_sealed_box: "sealed_box_law hex_ops secret"
  by (simp add: sealed_box_law_def hex_ops_def demo_ops_def)

lemma lower_hex_b64url: "is_lower_hex c \<Longrightarrow> is_b64url_char c \<and> c \<noteq> CHR ''=''"
  by (auto simp: is_lower_hex_def is_b64url_char_def is_lower_def is_digit_def)

lemma hex_ops_base64: "base64url_law hex_ops"
proof -
  have "list_all is_b64url_char (hex_encode bs)" "\<forall>c \<in> set (hex_encode bs). c \<noteq> CHR ''=''" for bs
    using hex_encode_lower_hex[of bs] lower_hex_b64url by (auto simp: list_all_iff)
  moreover have "2 * n mod 4 \<noteq> Suc 0" for n by presburger
  moreover have "hex_encode bs = [] \<longrightarrow> bs = []" for bs by (cases bs) (auto simp: hex_encode_Cons)
  ultimately show ?thesis
    by (simp add: base64url_law_def Let_def hex_ops_def demo_ops_def pad4_def length_hex_encode
        takeWhile_append2 takeWhile_eq_all_conv[THEN iffD2] decode_pairs_encode takeWhile_append)
qed

definition demo_secret :: string where
  "demo_secret = replicate 32 (CHR ''k'')"

definition demo_committee :: committee_key where
  "demo_committee = committee_from_bytes hex_ops demo_secret"

definition demo_result :: result_seal_plaintext where
  "demo_result = \<lparr> rp_task_id = ''t1'', rp_nonce = ''n1'', rp_result_hash = replicate 64 (CHR ''a''),
     rp_formats = [(''markdown'', JStr ''secret'')] \<rparr>"

definition demo_result_codec :: "result_seal_plaintext \<Rightarrow> string option" where
  "demo_result_codec p = Some (concat (map (\<lambda>(k, v). concat (json_strings v)) (rp_formats p)))"

definition demo_result_parse :: "string \<Rightarrow> result_seal_plaintext option" where
  "demo_result_parse s = Some (demo_result \<lparr> rp_formats := [(''markdown'', JStr s)] \<rparr>)"

lemma demo_committee_bytes: "committee_key_bytes (ck_public demo_committee) = Inr (x25519_public hex_ops demo_secret)"
  by (simp add: demo_committee_def committee_from_bytes_def committee_key_bytes_iff hex_ops_def demo_ops_def demo_secret_def)

lemma demo_codec: "demo_result_codec demo_result = Some body \<Longrightarrow> demo_result_parse body = Some demo_result"
  by (auto simp: demo_result_codec_def demo_result_parse_def demo_result_def)

lemma demo_sealed:
  assumes "f \<noteq> []"
  obtains e where "seal_result_to_committee hex_ops demo_result_codec (demo_result \<lparr> rp_formats := f \<rparr>) demo_committee = Inr e"
proof -
  have "is_hex_digest (replicate 64 (CHR ''a''))" by code_simp
  moreover have "is_key_id (key_id_for hex_ops demo_secret)"
    by (rule key_id_for_is_key_id) (simp add: hex_ops_def demo_ops_def)
  moreover have "committee_key_bytes (ck_public demo_committee) = Inr demo_secret"
    using demo_committee_bytes by (simp add: hex_ops_def demo_ops_def demo_secret_def)
  moreover have "ck_key_id demo_committee = key_id_for hex_ops demo_secret"
    by (simp add: demo_committee_def committee_from_bytes_def)
  moreover have "box_seal hex_ops pk m \<noteq> None" for pk m by (simp add: hex_ops_def demo_ops_def)
  ultimately have "\<exists>e. seal_result_to_committee hex_ops demo_result_codec (demo_result \<lparr> rp_formats := f \<rparr>) demo_committee = Inr e"
    using assms by (auto simp: seal_result_Inr demo_result_def demo_result_codec_def)
  with that show ?thesis by blast
qed

lemma demo_ids: "CHR 0x00 \<notin> set (rp_task_id demo_result)" "CHR 0x00 \<notin> set (rp_nonce demo_result)"
  by (simp_all add: demo_result_def)

theorem result_seal_roundtrip_witness:
  "\<exists>e. seal_result_to_committee hex_ops demo_result_codec demo_result demo_committee = Inr e
     \<and> unseal_result_with_committee_secret hex_ops demo_result_parse e demo_secret = Inr demo_result"
proof -
  obtain e where e: "seal_result_to_committee hex_ops demo_result_codec demo_result demo_committee = Inr e"
    by (rule demo_sealed[of "rp_formats demo_result"]) (simp_all add: demo_result_def)
  have "unseal_result_with_committee_secret hex_ops demo_result_parse e demo_secret = Inr demo_result"
    by (rule result_seal_roundtrip[OF e demo_committee_bytes hex_ops_sealed_box hex_ops_base64 _ demo_ids])
      (rule demo_codec)
  with e show ?thesis by blast
qed

theorem result_envelope_determined_witness:
  "\<exists>e. unseal_result_with_committee_secret hex_ops demo_result_parse e demo_secret = Inr demo_result
     \<and> (\<forall>t. t \<noteq> ''t1'' \<longrightarrow>
          unseal_result_with_committee_secret hex_ops demo_result_parse (e \<lparr> re_task_id := t \<rparr>) demo_secret \<noteq> Inr demo_result)"
proof -
  obtain e where e: "seal_result_to_committee hex_ops demo_result_codec demo_result demo_committee = Inr e"
    by (rule demo_sealed[of "rp_formats demo_result"]) (simp_all add: demo_result_def)
  have u: "unseal_result_with_committee_secret hex_ops demo_result_parse e demo_secret = Inr demo_result"
    by (rule seal_then_unseal[OF e demo_committee_bytes hex_ops_sealed_box hex_ops_base64 _ demo_ids])
      (rule demo_codec)
  have t: "re_task_id e = ''t1''" using u by (auto simp: unseal_result_Inr demo_result_def)
  have "t = ''t1''" if "unseal_result_with_committee_secret hex_ops demo_result_parse (e \<lparr> re_task_id := t \<rparr>) demo_secret = Inr demo_result" for t
  proof -
    from result_envelope_determined[OF that u] have "e \<lparr> re_task_id := t \<rparr> = e" by simp
    from arg_cong[OF this, of re_task_id] t show ?thesis by simp
  qed
  with u show ?thesis by blast
qed

theorem sealed_result_hides_body_witness:
  "\<exists>e e'. seal_result_to_committee hex_ops demo_result_codec demo_result demo_committee = Inr e
     \<and> seal_result_to_committee hex_ops demo_result_codec
         (demo_result \<lparr> rp_formats := [(''markdown'', JStr ''other'')] \<rparr>) demo_committee = Inr e'
     \<and> e' = e \<lparr> re_ciphertext := re_ciphertext e' \<rparr> \<and> re_ciphertext e \<noteq> re_ciphertext e'"
proof -
  let ?p = "demo_result \<lparr> rp_formats := [(''markdown'', JStr ''other'')] \<rparr>"
  let ?s = "\<lambda>p. seal_result_to_committee hex_ops demo_result_codec p demo_committee"
  obtain e where e: "?s demo_result = Inr e" by (rule demo_sealed[of "rp_formats demo_result"]) (simp_all add: demo_result_def)
  obtain e' where e': "?s ?p = Inr e'" by (rule demo_sealed[of "[(''markdown'', JStr ''other'')]"]) simp
  have "length (re_ciphertext e) \<noteq> length (re_ciphertext e')"
    using e e' by (auto simp: seal_result_Inr hex_ops_def demo_ops_def length_hex_encode demo_result_codec_def demo_result_def)
  then have "re_ciphertext e \<noteq> re_ciphertext e'" by auto
  with sealed_result_hides_body[OF e e', of None undefined undefined] e e' show ?thesis by blast
qed

end
