(* ===== verification/Antibot_Feedback.thy ===== *)
theory Antibot_Feedback
  imports Seal_Result
begin

text \<open>
  \<^verbatim>\<open>basecrawl-seal/src/antibot_feedback.rs\<close>: coarse failure hints, sealed to the committee over the
  result envelope of \<open>Seal_Result\<close>. HTTP status codes are \<open>nat\<close>s below \<open>2 ^ 16\<close>.
\<close>

definition ANTIBOT_FEEDBACK_SUITE :: string where
  "ANTIBOT_FEEDBACK_SUITE = RESULT_SEAL_SUITE"

definition ANTIBOT_FEEDBACK_KIND :: string where
  "ANTIBOT_FEEDBACK_KIND = ''antibot_feedback''"

definition ANTIBOT_FEEDBACK_DOMAIN :: string where
  "ANTIBOT_FEEDBACK_DOMAIN = ''basecrawl/antibot-feedback/v1''"

definition ANTIBOT_FEEDBACK_RECIPIENT :: string where
  "ANTIBOT_FEEDBACK_RECIPIENT = RESULT_RECIPIENT_ROLE"

section \<open>Coarse hints\<close>

datatype coarse_hint =
    HintOk | HintBlocked | HintRateLimited | HintUpstreamUnavailable | HintChallenge | HintCaptcha
  | HintEmpty | HintTlsError | HintDnsError | HintEscalateProxyClass

fun hint_str :: "coarse_hint \<Rightarrow> string" where
  "hint_str HintOk = ''ok''"
| "hint_str HintBlocked = ''blocked''"
| "hint_str HintRateLimited = ''rate_limited''"
| "hint_str HintUpstreamUnavailable = ''upstream_unavailable''"
| "hint_str HintChallenge = ''challenge''"
| "hint_str HintCaptcha = ''captcha''"
| "hint_str HintEmpty = ''empty''"
| "hint_str HintTlsError = ''tls_error''"
| "hint_str HintDnsError = ''dns_error''"
| "hint_str HintEscalateProxyClass = ''escalate_proxy_class''"

definition parse_failure_hint :: "string \<Rightarrow> coarse_hint option" where
  "parse_failure_hint s =
     (if s = ''ok'' then Some HintOk
      else if s = ''blocked'' then Some HintBlocked
      else if s = ''rate_limited'' then Some HintRateLimited
      else if s = ''upstream_unavailable'' then Some HintUpstreamUnavailable
      else if s = ''challenge'' then Some HintChallenge
      else if s = ''captcha'' then Some HintCaptcha
      else if s = ''empty'' then Some HintEmpty
      else if s = ''tls_error'' then Some HintTlsError
      else if s = ''dns_error'' then Some HintDnsError
      else if s = ''escalate_proxy_class'' then Some HintEscalateProxyClass
      else None)"

lemma parse_hint_str [simp]: "parse_failure_hint (hint_str h) = Some h"
  by (cases h) (simp_all add: parse_failure_hint_def)

definition from_http_status :: "nat \<Rightarrow> coarse_hint" where
  "from_http_status s =
     (if 200 \<le> s \<and> s \<le> 299 then HintOk
      else if s = 403 \<or> s = 401 then HintBlocked
      else if s = 429 then HintRateLimited
      else if s \<in> {408, 503, 502, 504} then HintUpstreamUnavailable
      else if s \<in> {404, 410} then HintEmpty
      else if 400 \<le> s \<and> s < 500 then HintBlocked
      else if 500 \<le> s \<and> s < 600 then HintUpstreamUnavailable
      else HintOk)"

lemma from_http_status_Ok: "from_http_status s = HintOk \<longleftrightarrow> s < 400 \<or> 600 \<le> s"
  by (auto simp: from_http_status_def)

definition classify_coarse_from_status_and_markers :: "nat \<Rightarrow> string list \<Rightarrow> coarse_hint" where
  "classify_coarse_from_status_and_markers s markers =
     (let joined = join '' '' (map to_lower markers)
      in if contains joined ''cf-mitigated'' \<or> contains joined ''cf-challenge'' then HintChallenge
         else if contains joined ''turnstile'' \<or> contains joined ''captcha'' then HintCaptcha
         else if contains joined ''retry-after'' \<and> s = 429 then HintRateLimited
         else from_http_status s)"

record feedback_plaintext =
  fb_task_id :: string
  fb_nonce :: string
  fb_failure :: coarse_hint
  fb_suggested_proxy_class :: "string option"
  fb_http_status_class :: "string option"

definition new_feedback :: "string \<Rightarrow> string \<Rightarrow> coarse_hint \<Rightarrow> feedback_plaintext" where
  "new_feedback t n h =
     \<lparr> fb_task_id = t, fb_nonce = n, fb_failure = h, fb_suggested_proxy_class = None,
       fb_http_status_class = None \<rparr>"

definition with_suggested_proxy_class ::
    "feedback_plaintext \<Rightarrow> string \<Rightarrow> (seal_error, feedback_plaintext) result" where
  "with_suggested_proxy_class p c =
     (let normalized = to_lower (trim c)
      in if normalized \<in> {''datacenter'', ''residential'', ''mobile''}
         then Inr (p \<lparr> fb_suggested_proxy_class := Some normalized \<rparr>)
         else Inl (InvalidEnvelope ''suggested_proxy_class must be datacenter|residential|mobile''))"

definition status_class :: "nat \<Rightarrow> string" where
  "status_class s =
     (if 100 \<le> s \<and> s \<le> 199 then ''1xx''
      else if 200 \<le> s \<and> s \<le> 299 then ''2xx''
      else if 300 \<le> s \<and> s \<le> 399 then ''3xx''
      else if 400 \<le> s \<and> s \<le> 499 then ''4xx''
      else if 500 \<le> s \<and> s \<le> 599 then ''5xx''
      else ''other'')"

definition with_http_status :: "feedback_plaintext \<Rightarrow> nat \<Rightarrow> feedback_plaintext" where
  "with_http_status p s = p \<lparr> fb_http_status_class := Some (status_class s) \<rparr>"

definition is_coarse_only :: "feedback_plaintext \<Rightarrow> bool" where
  "is_coarse_only p \<longleftrightarrow> fb_task_id p \<noteq> [] \<and> fb_nonce p \<noteq> []"

section \<open>Sealing and opening\<close>

record sealed_feedback =
  sf_version :: nat
  sf_suite :: string
  sf_kind :: string
  sf_recipient :: string
  sf_recipient_key_id :: string
  sf_task_id :: string
  sf_nonce :: string
  sf_feedback_hash :: string
  sf_ciphertext :: string

definition opt_or_empty :: "string option \<Rightarrow> string" where
  "opt_or_empty x = (case x of None \<Rightarrow> [] | Some s \<Rightarrow> s)"

definition feedback_hash :: "crypto_ops \<Rightarrow> feedback_plaintext \<Rightarrow> string" where
  "feedback_hash ops p =
     hex_encode (sha256 ops
       (ANTIBOT_FEEDBACK_DOMAIN @ fb_task_id p @ [CHR 0x00] @ fb_nonce p @ [CHR 0x00]
        @ hint_str (fb_failure p) @ [CHR 0x00] @ opt_or_empty (fb_suggested_proxy_class p) @ [CHR 0x00]
        @ opt_or_empty (fb_http_status_class p)))"

definition feedback_formats :: "feedback_plaintext \<Rightarrow> (string, json) btree" where
  "feedback_formats p =
     [(''antibot_feedback'',
       jobj [(''failure'', JStr (hint_str (fb_failure p))),
             (''suggested_proxy_class'', jopt JStr (fb_suggested_proxy_class p)),
             (''http_status_class'', jopt JStr (fb_http_status_class p))])]"

definition feedback_result :: "crypto_ops \<Rightarrow> feedback_plaintext \<Rightarrow> result_seal_plaintext" where
  "feedback_result ops p =
     \<lparr> rp_task_id = fb_task_id p, rp_nonce = fb_nonce p, rp_result_hash = feedback_hash ops p,
       rp_formats = feedback_formats p \<rparr>"

definition seal_antibot_feedback ::
    "crypto_ops \<Rightarrow> (result_seal_plaintext \<Rightarrow> string option) \<Rightarrow> feedback_plaintext \<Rightarrow> committee_key
     \<Rightarrow> (seal_error, sealed_feedback) result" where
  "seal_antibot_feedback ops write p ck =
     (if \<not> is_coarse_only p
      then Inl (InvalidEnvelope ''antibot feedback must be coarse-only (no free-form content)'')
      else if fb_task_id p = [] \<or> fb_nonce p = []
      then Inl (InvalidEnvelope ''task_id and nonce are required for antibot feedback'')
      else
        bind_res (seal_result_to_committee ops write (feedback_result ops p) ck) (\<lambda>sealed.
          Inr \<lparr> sf_version = re_version sealed, sf_suite = ANTIBOT_FEEDBACK_SUITE,
                sf_kind = ANTIBOT_FEEDBACK_KIND, sf_recipient = ANTIBOT_FEEDBACK_RECIPIENT,
                sf_recipient_key_id = re_recipient_key_id sealed, sf_task_id = re_task_id sealed,
                sf_nonce = re_nonce sealed, sf_feedback_hash = feedback_hash ops p,
                sf_ciphertext = re_ciphertext sealed \<rparr>))"

definition validate_feedback_envelope :: "sealed_feedback \<Rightarrow> (seal_error, unit) result" where
  "validate_feedback_envelope e =
     (if sf_version e \<noteq> 1 then Inl (InvalidEnvelope ''unsupported antibot feedback version'')
      else if sf_suite e \<noteq> ANTIBOT_FEEDBACK_SUITE then Inl (InvalidEnvelope ''unexpected antibot feedback suite'')
      else if sf_kind e \<noteq> ANTIBOT_FEEDBACK_KIND then Inl (InvalidEnvelope ''unexpected antibot feedback kind'')
      else if sf_recipient e \<noteq> ANTIBOT_FEEDBACK_RECIPIENT
      then Inl (InvalidEnvelope ''antibot feedback recipient must be committee-threshold'')
      else if sf_task_id e = [] \<or> sf_nonce e = [] then Inl (InvalidEnvelope ''task_id/nonce required'')
      else if sf_feedback_hash e = [] \<or> sf_ciphertext e = []
      then Inl (InvalidEnvelope ''feedback_hash/ciphertext required'')
      else if \<not> starts_with (sf_recipient_key_id e) ''sha256:''
      then Inl (InvalidEnvelope ''recipient_key_id must be a sha256 content id'')
      else Inr ())"

definition decrypt_antibot_feedback_as_miner_host ::
    "sealed_feedback \<Rightarrow> (seal_error, feedback_plaintext) result" where
  "decrypt_antibot_feedback_as_miner_host e =
     bind_res (validate_feedback_envelope e) (\<lambda>_. Inl KeyNotReleased)"

definition rehydrate :: "sealed_feedback \<Rightarrow> sealed_result_envelope" where
  "rehydrate e =
     \<lparr> re_version = sf_version e, re_suite = sf_suite e, re_kind = RESULT_SEAL_KIND,
       re_recipient = RESULT_RECIPIENT_ROLE, re_recipient_key_id = sf_recipient_key_id e,
       re_task_id = sf_task_id e, re_nonce = sf_nonce e, re_result_hash = sf_feedback_hash e,
       re_ciphertext = sf_ciphertext e \<rparr>"

definition feedback_of_result :: "result_seal_plaintext \<Rightarrow> (seal_error, feedback_plaintext) result" where
  "feedback_of_result opened =
     bind_res (ok_or (bt_get (rp_formats opened) ''antibot_feedback'') MalformedPlaintext) (\<lambda>v.
     bind_res (ok_or (jget_str v ''failure'') MalformedPlaintext) (\<lambda>failure_str.
     bind_res (ok_or (parse_failure_hint failure_str) MalformedPlaintext) (\<lambda>failure.
       Inr \<lparr> fb_task_id = rp_task_id opened, fb_nonce = rp_nonce opened, fb_failure = failure,
             fb_suggested_proxy_class = jget_str v ''suggested_proxy_class'',
             fb_http_status_class = jget_str v ''http_status_class'' \<rparr>)))"

definition unseal_antibot_feedback ::
    "crypto_ops \<Rightarrow> (string \<Rightarrow> result_seal_plaintext option) \<Rightarrow> sealed_feedback \<Rightarrow> string
     \<Rightarrow> (seal_error, feedback_plaintext) result" where
  "unseal_antibot_feedback ops parse e secret =
     bind_res (validate_feedback_envelope e) (\<lambda>_.
     bind_res (unseal_result_with_committee_secret ops parse (rehydrate e) secret) feedback_of_result)"

definition miner_visible_contains_marker ::
    "(sealed_result_envelope \<Rightarrow> string option) \<Rightarrow> sealed_feedback \<Rightarrow> string \<Rightarrow> bool" where
  "miner_visible_contains_marker write_envelope e marker =
     (if marker = [] then False
      else if contains (join ''|'' [show_nat (sf_version e), sf_suite e, sf_kind e, sf_recipient e,
                sf_recipient_key_id e, sf_task_id e, sf_nonce e, sf_feedback_hash e, sf_ciphertext e]) marker
      then True
      else host_visible_contains_marker write_envelope
        ((rehydrate e) \<lparr> re_kind := sf_kind e, re_recipient := sf_recipient e \<rparr>) marker)"

definition maybe_seal_failure_feedback ::
    "crypto_ops \<Rightarrow> (result_seal_plaintext \<Rightarrow> string option) \<Rightarrow> string \<Rightarrow> string \<Rightarrow> nat \<Rightarrow> committee_key \<Rightarrow> bool
     \<Rightarrow> (seal_error, sealed_feedback option) result" where
  "maybe_seal_failure_feedback ops write t n s ck suggest_residential =
     (let failure = from_http_status s
      in if failure = HintOk then Inr None
         else
           bind_res (if suggest_residential
                        \<and> failure \<in> {HintBlocked, HintRateLimited, HintChallenge, HintCaptcha}
                     then with_suggested_proxy_class (with_http_status (new_feedback t n failure) s) ''residential''
                     else Inr (with_http_status (new_feedback t n failure) s))
             (\<lambda>p. bind_res (seal_antibot_feedback ops write p ck) (\<lambda>e. Inr (Some e))))"

section \<open>The committee reads the hint\<close>

lemma feedback_formats_back:
  "feedback_of_result (feedback_result ops p) = Inr p"
  by (cases p) (simp add: feedback_of_result_def feedback_result_def feedback_formats_def bt_get_def
      jget_str_def jget_jobj jopt_def split: option.split)

lemma seal_then_unseal_feedback:
  assumes "seal_antibot_feedback ops write p ck = Inr e"
    and "committee_key_bytes (ck_public ck) = Inr (x25519_public ops secret)"
    and "sealed_box_law ops secret" and "base64url_law ops"
    and "\<And>r body. write r = Some body \<Longrightarrow> parse body = Some r"
    and "CHR 0x00 \<notin> set (fb_task_id p)" and "CHR 0x00 \<notin> set (fb_nonce p)"
  shows "unseal_antibot_feedback ops parse e secret = Inr p"
proof -
  from assms(1) obtain sealed where s: "seal_result_to_committee ops write (feedback_result ops p) ck = Inr sealed"
    and e: "e = \<lparr> sf_version = re_version sealed, sf_suite = ANTIBOT_FEEDBACK_SUITE,
                sf_kind = ANTIBOT_FEEDBACK_KIND, sf_recipient = ANTIBOT_FEEDBACK_RECIPIENT,
                sf_recipient_key_id = re_recipient_key_id sealed, sf_task_id = re_task_id sealed,
                sf_nonce = re_nonce sealed, sf_feedback_hash = feedback_hash ops p,
                sf_ciphertext = re_ciphertext sealed \<rparr>"
    by (auto simp: seal_antibot_feedback_def res_simps split: if_splits)
  have u: "unseal_result_with_committee_secret ops parse sealed secret = Inr (feedback_result ops p)"
    by (rule seal_then_unseal[OF s assms(2-5)]) (use assms(6,7) in \<open>simp_all add: feedback_result_def\<close>)
  then have v: "validate_result_envelope sealed = Inr ()" by (simp add: unseal_result_Inr)
  from s have h: "re_result_hash sealed = feedback_hash ops p"
    by (auto simp: seal_result_Inr feedback_result_def)
  from v h have r: "rehydrate e = sealed"
    by (cases sealed) (simp add: validate_result_envelope_Inr rehydrate_def e ANTIBOT_FEEDBACK_SUITE_def)
  from v h have "validate_feedback_envelope e = Inr ()"
    by (auto simp: validate_result_envelope_Inr validate_feedback_envelope_def e is_hex_digest_def
        is_key_id_def starts_with_def split: option.splits)
  with u r show ?thesis by (simp add: unseal_antibot_feedback_def feedback_formats_back)
qed

text \<open>
  The coarse-only check reads the two ids: a plaintext that was deserialised, or built from its
  public fields, passes it with any text as its proxy class.
\<close>

lemma coarse_only_free_form:
  "t \<noteq> [] \<Longrightarrow> n \<noteq> [] \<Longrightarrow> is_coarse_only (new_feedback t n h \<lparr> fb_suggested_proxy_class := Some free_form \<rparr>)"
  by (simp add: is_coarse_only_def new_feedback_def)

text \<open>
  Failure feedback is emitted exactly for a status from 400 to 599, and what the committee opens
  is the coarse hint of that status and nothing else: the hint, the status class, and the residential
  advice when it was asked for and the origin blocked or rate-limited the scrape.
\<close>

theorem failure_feedback_is_coarse:
  assumes "maybe_seal_failure_feedback ops write t n s ck suggest = Inr r"
    and "committee_key_bytes (ck_public ck) = Inr (x25519_public ops secret)"
    and "sealed_box_law ops secret" and "base64url_law ops"
    and "\<And>q body. write q = Some body \<Longrightarrow> parse body = Some q"
    and "CHR 0x00 \<notin> set t" and "CHR 0x00 \<notin> set n"
  shows "(r = None \<longleftrightarrow> s < 400 \<or> 600 \<le> s)
     \<and> (\<forall>e. r = Some e \<longrightarrow> unseal_antibot_feedback ops parse e secret = Inr
          \<lparr> fb_task_id = t, fb_nonce = n, fb_failure = from_http_status s,
            fb_suggested_proxy_class =
              (if suggest \<and> from_http_status s \<in> {HintBlocked, HintRateLimited} then Some ''residential'' else None),
            fb_http_status_class = Some (if s < 500 then ''4xx'' else ''5xx'') \<rparr>)"
proof (cases "from_http_status s = HintOk")
  case True
  with assms(1) show ?thesis by (simp add: maybe_seal_failure_feedback_def from_http_status_Ok)
next
  case False
  then have s: "400 \<le> s" "s < 600" by (auto simp: from_http_status_Ok)
  have res: "to_lower (trim ''residential'') = ''residential''" by code_simp
  have never: "from_http_status s \<notin> {HintChallenge, HintCaptcha}" by (auto simp: from_http_status_def)
  let ?p = "\<lparr> fb_task_id = t, fb_nonce = n, fb_failure = from_http_status s,
      fb_suggested_proxy_class =
        (if suggest \<and> from_http_status s \<in> {HintBlocked, HintRateLimited} then Some ''residential'' else None),
      fb_http_status_class = Some (if s < 500 then ''4xx'' else ''5xx'') \<rparr>"
  from assms(1) False never s obtain e where r: "r = Some e" and e: "seal_antibot_feedback ops write ?p ck = Inr e"
    by (auto simp: maybe_seal_failure_feedback_def Let_def res_simps with_suggested_proxy_class_def res
        with_http_status_def new_feedback_def status_class_def split: if_splits)
  have "unseal_antibot_feedback ops parse e secret = Inr ?p"
    by (rule seal_then_unseal_feedback[OF e assms(2-5)]) (use assms(6,7) in simp_all)
  with r s show ?thesis by auto
qed

text \<open>A codec for the witness: hexadecimal fields, separated by commas.\<close>

definition demo_feedback_write :: "result_seal_plaintext \<Rightarrow> string option" where
  "demo_feedback_write q =
     (if rp_formats q = feedback_formats \<lparr> fb_task_id = [], fb_nonce = [], fb_failure = HintBlocked,
           fb_suggested_proxy_class = Some ''residential'', fb_http_status_class = Some ''4xx'' \<rparr>
      then Some (join '','' (map hex_encode [rp_task_id q, rp_nonce q, rp_result_hash q])) else None)"

definition demo_feedback_parse :: "string \<Rightarrow> result_seal_plaintext option" where
  "demo_feedback_parse s =
     (case map decode_pairs (split_on (CHR '','') s) of
        [Some t, Some n, Some h] \<Rightarrow>
          Some \<lparr> rp_task_id = t, rp_nonce = n, rp_result_hash = h,
                 rp_formats = feedback_formats \<lparr> fb_task_id = [], fb_nonce = [], fb_failure = HintBlocked,
                   fb_suggested_proxy_class = Some ''residential'', fb_http_status_class = Some ''4xx'' \<rparr> \<rparr>
      | _ \<Rightarrow> None)"

lemma demo_feedback_codec: "demo_feedback_write q = Some body \<Longrightarrow> demo_feedback_parse body = Some q"
proof -
  assume w: "demo_feedback_write q = Some body"
  have c: "CHR '','' \<notin> set (hex_encode bs)" for bs
    using hex_encode_lower_hex[of bs] by (auto simp: list_all_iff is_lower_hex_def is_digit_def)
  from w have "body = hex_encode (rp_task_id q) @ CHR '','' # hex_encode (rp_nonce q) @ CHR '','' # hex_encode (rp_result_hash q)"
    by (auto simp: demo_feedback_write_def split: if_splits)
  with w show ?thesis
    by (cases q) (auto simp: demo_feedback_write_def demo_feedback_parse_def split_on_append[OF c]
        split_on_single[OF c] decode_pairs_encode split: if_splits)
qed

theorem failure_feedback_is_coarse_witness:
  "\<exists>e. maybe_seal_failure_feedback hex_ops demo_feedback_write ''t1'' ''n1'' 403 demo_committee True = Inr (Some e)
     \<and> (\<exists>p. unseal_antibot_feedback hex_ops demo_feedback_parse e demo_secret = Inr p
           \<and> fb_failure p = HintBlocked \<and> fb_suggested_proxy_class p = Some ''residential'')"
proof -
  obtain r where r: "maybe_seal_failure_feedback hex_ops demo_feedback_write ''t1'' ''n1'' 403 demo_committee True = Inr r"
  proof -
    let ?p = "\<lparr> fb_task_id = ''t1'', fb_nonce = ''n1'', fb_failure = HintBlocked,
      fb_suggested_proxy_class = Some ''residential'', fb_http_status_class = Some ''4xx'' \<rparr>"
    have res: "to_lower (trim ''residential'') = ''residential''" by code_simp
    have h: "is_hex_digest (feedback_hash hex_ops ?p)"
    proof -
      have l: "length (sha256 hex_ops x) = 32" for x by (simp add: hex_ops_def demo_ops_def)
      have "\<not> is_upper c" if "c \<in> set (hex_encode bs)" for c bs
        using that hex_encode_lower_hex[of bs] lower_hex_not_upper by (auto simp: list_all_iff)
      then show ?thesis
        by (simp add: is_hex_digest_def feedback_hash_def length_hex_encode l hex_encode_lower_hex to_lower_fixed_iff[THEN iffD2])
    qed
    have k: "committee_key_bytes (ck_public demo_committee) = Inr demo_secret"
      using demo_committee_bytes by (simp add: hex_ops_def demo_ops_def demo_secret_def)
    have kid: "ck_key_id demo_committee = key_id_for hex_ops demo_secret" "is_key_id (key_id_for hex_ops demo_secret)"
      by (simp add: demo_committee_def committee_from_bytes_def)
        (rule key_id_for_is_key_id, simp add: hex_ops_def demo_ops_def)
    have b: "box_seal hex_ops pk m \<noteq> None" for pk m by (simp add: hex_ops_def demo_ops_def)
    have "\<exists>e. seal_result_to_committee hex_ops demo_feedback_write (feedback_result hex_ops ?p) demo_committee = Inr e"
      using h k kid b by (auto simp: seal_result_Inr feedback_result_def demo_feedback_write_def feedback_formats_def)
    then show ?thesis using that
      by (auto simp: maybe_seal_failure_feedback_def from_http_status_def with_suggested_proxy_class_def res
          with_http_status_def new_feedback_def status_class_def seal_antibot_feedback_def is_coarse_only_def)
  qed
  have nz: "CHR 0x00 \<notin> set ''t1''" "CHR 0x00 \<notin> set ''n1''" by simp_all
  note f = failure_feedback_is_coarse[OF r demo_committee_bytes hex_ops_sealed_box hex_ops_base64 _ nz,
      of demo_feedback_parse, OF demo_feedback_codec]
  then obtain e where "r = Some e" by (cases r) auto
  with f r show ?thesis by (auto simp: from_http_status_def)
qed

end
