(* ===== verification/Key_Release.thy ===== *)
theory Key_Release
  imports Seal_Task
begin

text \<open>
  \<^verbatim>\<open>basecrawl-seal/src/keyrelease.rs\<close>: the client of the key-release server. The transport, the
  quote provider and the sockets are parameters that read and change a world.
\<close>

definition KEY_RELEASE_TAG :: string where
  "KEY_RELEASE_TAG = ''basecrawl-keyrelease-v1''"

definition RA_TLS_PEER_HEADER :: string where
  "RA_TLS_PEER_HEADER = ''X-RA-TLS-Peer-Key''"

definition REPORT_DATA_LEN :: nat where
  "REPORT_DATA_LEN = 64"

definition key_release_report_data :: "crypto_ops \<Rightarrow> string \<Rightarrow> string \<Rightarrow> string" where
  "key_release_report_data ops nonce pk = sha256 ops (KEY_RELEASE_TAG @ nonce @ pk)"

definition to_report_data_field :: "string \<Rightarrow> string" where
  "to_report_data_field binding =
     (let n = min (length binding) REPORT_DATA_LEN
      in hex_encode (take n binding @ replicate (REPORT_DATA_LEN - n) (CHR 0x00)))"

record quote_bundle =
  qb_quote_hex :: string
  qb_event_log :: "json option"
  qb_vm_config :: "json option"

type_synonym ('a, 'w) seal_step = "(seal_error, 'a) result \<times> 'w"

fun then_do :: "('a, 'w) seal_step \<Rightarrow> ('a \<Rightarrow> 'w \<Rightarrow> ('b, 'w) seal_step) \<Rightarrow> ('b, 'w) seal_step" where
  "then_do (Inl e, w) f = (Inl e, w)"
| "then_do (Inr a, w) f = f a w"

lemma then_do_Inr_iff:
  "then_do s f = (Inr b, w') \<longleftrightarrow> (\<exists>a w. s = (Inr a, w) \<and> f a w = (Inr b, w'))"
  by (cases "(s, f)" rule: then_do.cases) auto

type_synonym 'w transport =
  "string \<Rightarrow> string \<Rightarrow> (string \<times> string) list \<Rightarrow> json option \<Rightarrow> 'w \<Rightarrow> (nat \<times> json, 'w) seal_step"
type_synonym 'w quote_provider = "string \<Rightarrow> 'w \<Rightarrow> (quote_bundle, 'w) seal_step"

section \<open>The HTTP transport\<close>

record ('a, 'c, 'w) socket_ops =
  sk_parse_addr :: "string \<Rightarrow> 'a option"
  sk_connect :: "'a \<Rightarrow> 'w \<Rightarrow> 'c option \<times> 'w"
  sk_set_read_timeout :: "'c \<Rightarrow> 'w \<Rightarrow> string option \<times> 'w"
  sk_set_write_timeout :: "'c \<Rightarrow> 'w \<Rightarrow> string option \<times> 'w"
  sk_write_all :: "'c \<Rightarrow> string \<Rightarrow> 'w \<Rightarrow> bool \<times> 'w"
  sk_flush :: "'c \<Rightarrow> 'w \<Rightarrow> bool \<times> 'w"
  sk_read_to_end :: "'c \<Rightarrow> 'w \<Rightarrow> string option \<times> 'w"

definition crlf :: string where
  "crlf = [CHR 0x0D, CHR 0x0A]"

definition release_request_text ::
    "string \<Rightarrow> nat \<Rightarrow> string \<Rightarrow> string \<Rightarrow> (string \<times> string) list \<Rightarrow> nat option \<Rightarrow> string" where
  "release_request_text host port method path headers body_len =
     method @ '' '' @ path @ '' HTTP/1.1'' @ crlf @ ''Host: '' @ host @ '':'' @ show_nat port @ crlf
     @ ''Accept: application/json'' @ crlf @ ''Connection: close'' @ crlf
     @ (case body_len of None \<Rightarrow> []
        | Some n \<Rightarrow> ''Content-Type: application/json'' @ crlf @ ''Content-Length: '' @ show_nat n @ crlf)
     @ concat (map (\<lambda>(name, v). name @ '': '' @ v @ crlf) headers) @ crlf"

text \<open>\<^verbatim>\<open>trim_start_matches\<close> of the byte order mark, three bytes in UTF-8.\<close>

fun trim_bom :: "string \<Rightarrow> string" where
  "trim_bom (a # b # c # cs) =
     (if a = CHR 0xEF \<and> b = CHR 0xBB \<and> c = CHR 0xBF then trim_bom cs else a # b # c # cs)"
| "trim_bom s = s"

definition parse_http_json_response ::
    "(string \<Rightarrow> json option) \<Rightarrow> string \<Rightarrow> (seal_error, nat \<times> json) result" where
  "parse_http_json_response parse raw =
     (if \<not> utf8_ok raw then Inl (KeyReleaseProtocol ''response is not UTF-8'')
      else
        bind_res (ok_or (case split_once_str (crlf @ crlf) raw of
                           Some hb \<Rightarrow> Some hb
                         | None \<Rightarrow> split_once_str [CHR 0x0A, CHR 0x0A] raw)
                    (KeyReleaseProtocol ''response missing header terminator'')) (\<lambda>(header, body).
          let status_line = (case lines header of [] \<Rightarrow> [] | l # _ \<Rightarrow> l)
          in bind_res (ok_or (case split_whitespace status_line of
                                _ # s # _ \<Rightarrow> parse_unsigned 10 65535 s | _ \<Rightarrow> None)
                         (KeyReleaseProtocol ''response status line is malformed'')) (\<lambda>status.
             if trim_bom body = [] then Inl (KeyReleaseProtocol ''response body is empty'')
             else bind_res (ok_or (parse (trim_bom body))
                             (KeyReleaseProtocol ''response body is not JSON'')) (\<lambda>v. Inr (status, v)))))"

definition http_request_json ::
    "('a, 'c, 'w) socket_ops \<Rightarrow> (string \<Rightarrow> json option) \<Rightarrow> (json \<Rightarrow> string) \<Rightarrow> string \<Rightarrow> nat \<Rightarrow> 'w transport" where
  "http_request_json N parse write host port method path0 headers body w =
     (let path = (if starts_with path0 ''/'' then path0 else ''/'' @ path0)
      in case sk_parse_addr N (host @ '':'' @ show_nat port) of
           None \<Rightarrow> (Inl KeyReleaseUnreachable, w)
         | Some addr \<Rightarrow>
     (case sk_connect N addr w of
        (None, w) \<Rightarrow> (Inl KeyReleaseUnreachable, w)
      | (Some c, w) \<Rightarrow>
     (case sk_set_read_timeout N c w of
        (Some e, w) \<Rightarrow> (Inl (SealTransport e), w)
      | (None, w) \<Rightarrow>
     (case sk_set_write_timeout N c w of
        (Some e, w) \<Rightarrow> (Inl (SealTransport e), w)
      | (None, w) \<Rightarrow>
     (let bytes = (case body of None \<Rightarrow> [] | Some v \<Rightarrow> write v);
          req = release_request_text host port method path headers (map_option (\<lambda>v. length (write v)) body)
      in case sk_write_all N c req w of
           (False, w) \<Rightarrow> (Inl KeyReleaseUnreachable, w)
         | (True, w) \<Rightarrow>
     (case (if bytes \<noteq> [] then sk_write_all N c bytes w else (True, w)) of
        (False, w) \<Rightarrow> (Inl KeyReleaseMidExchange, w)
      | (True, w) \<Rightarrow>
     (case sk_flush N c w of
        (False, w) \<Rightarrow> (Inl KeyReleaseMidExchange, w)
      | (True, w) \<Rightarrow>
     (case sk_read_to_end N c w of
        (None, w) \<Rightarrow> (Inl KeyReleaseMidExchange, w)
      | (Some raw, w) \<Rightarrow> (parse_http_json_response parse raw, w)))))))))"

section \<open>The exchange\<close>

definition success :: "nat \<Rightarrow> bool" where
  "success status \<longleftrightarrow> 200 \<le> status \<and> status < 300"

text \<open>The key material is the list of its bytes; \<open>released_key\<close> is \<^verbatim>\<open>ReleasedTaskKey::from_bytes\<close>.\<close>

definition released_key :: "string \<Rightarrow> (seal_error, string) result" where
  "released_key bs = (if bs = [] then Inl (KeyReleaseProtocol ''released key is empty'') else Inr bs)"

definition parse_release_response ::
    "crypto_ops \<Rightarrow> json \<Rightarrow> enclave_identity \<Rightarrow> (seal_error, string) result" where
  "parse_release_response ops response i =
     bind_res (ok_or (Option.bind (jget response ''released'') jbool)
                 (KeyReleaseProtocol ''release response missing released flag'')) (\<lambda>released.
       if \<not> released then
         (if jget response ''key'' \<noteq> None
          then Inl (KeyReleaseProtocol ''deny response must not include key material'')
          else Inl (KeyReleaseDenied
                 (case jget_str response ''reason'' of Some r \<Rightarrow> r | None \<Rightarrow> ''denied'')))
       else
         bind_res (ok_or (jget_str response ''key'')
                     (KeyReleaseProtocol ''success response missing key field'')) (\<lambda>b64.
         bind_res (ok_or (b64std_decode ops b64)
                     (KeyReleaseProtocol ''success response key is not valid base64'')) (\<lambda>sealed.
           if sealed = [] then Inl (KeyReleaseProtocol ''success response key is empty'')
           else
             bind_res (ok_or (box_unseal ops (id_secret i) sealed) AuthenticationFailed) released_key)))"

definition request_nonce :: "'w transport \<Rightarrow> 'w \<Rightarrow> (string, 'w) seal_step" where
  "request_nonce T w =
     then_do (T ''GET'' ''/nonce'' [] None w) (\<lambda>(status, response) w.
       if \<not> success status then (Inl (KeyReleaseDenied (''nonce_http_'' @ show_nat status)), w)
       else case jget_str response ''nonce'' of
         None \<Rightarrow> (Inl (KeyReleaseProtocol ''nonce response missing nonce field''), w)
       | Some nonce \<Rightarrow>
           if nonce = [] then (Inl (KeyReleaseProtocol ''nonce response is empty''), w)
           else (Inr nonce, w))"

definition release_body :: "string \<Rightarrow> quote_bundle \<Rightarrow> string \<Rightarrow> json" where
  "release_body nonce q pk =
     jobj ([(''nonce'', JStr nonce), (''quote'', JStr (qb_quote_hex q)), (''ra_tls_pubkey'', JStr (hex_encode pk))]
       @ (case qb_event_log q of None \<Rightarrow> [] | Some v \<Rightarrow> [(''event_log'', v)])
       @ (case qb_vm_config q of None \<Rightarrow> [] | Some v \<Rightarrow> [(''vm_config'', v)]))"

fun mid_exchange :: "('a, 'w) seal_step \<Rightarrow> ('a, 'w) seal_step" where
  "mid_exchange (Inl KeyReleaseUnreachable, w) = (Inl KeyReleaseMidExchange, w)"
| "mid_exchange s = s"

definition obtain_task_key ::
    "crypto_ops \<Rightarrow> 'w transport \<Rightarrow> 'w quote_provider \<Rightarrow> enclave_identity \<Rightarrow> 'w \<Rightarrow> (string, 'w) seal_step" where
  "obtain_task_key ops T Q i w =
     then_do (request_nonce T w) (\<lambda>nonce w.
     then_do (Q (to_report_data_field (key_release_report_data ops nonce (id_public i))) w) (\<lambda>quote w.
     then_do (mid_exchange (T ''POST'' ''/release'' [(RA_TLS_PEER_HEADER, hex_encode (id_public i))]
                (Some (release_body nonce quote (id_public i))) w)) (\<lambda>(status, response) w.
       if \<not> success status
       then (Inl (KeyReleaseDenied (case jget_str response ''reason'' of Some r \<Rightarrow> r | None \<Rightarrow> ''http_error'')), w)
       else (parse_release_response ops response i, w))))"

definition decrypt_requires_released_key :: "string option \<Rightarrow> (seal_error, unit) result" where
  "decrypt_requires_released_key key =
     (case key of Some k \<Rightarrow> if k \<noteq> [] then Inr () else Inl KeyNotReleased | None \<Rightarrow> Inl KeyNotReleased)"

section \<open>A key means a grant\<close>

lemma jbool_Some_iff: "jbool j = Some b \<longleftrightarrow> j = JBool b"
  by (cases j) auto

lemma jstr_Some_iff: "jstr j = Some s \<longleftrightarrow> j = JStr s"
  by (cases j) auto

lemma parse_release_response_Inr:
  "parse_release_response ops response i = Inr key \<longleftrightarrow>
     jget response ''released'' = Some (JBool True)
     \<and> (\<exists>b64 sealed. jget response ''key'' = Some (JStr b64) \<and> b64std_decode ops b64 = Some sealed
          \<and> sealed \<noteq> [] \<and> box_unseal ops (id_secret i) sealed = Some key \<and> key \<noteq> [])"
  by (auto simp: parse_release_response_def res_simps bind_eq_Some_conv jbool_Some_iff jget_str_def
      jstr_Some_iff released_key_def split: if_splits)

lemma request_nonce_Inr:
  "request_nonce T w = (Inr nonce, w') \<longleftrightarrow>
     nonce \<noteq> [] \<and> (\<exists>status response. T ''GET'' ''/nonce'' [] None w = (Inr (status, response), w')
       \<and> success status \<and> jget response ''nonce'' = Some (JStr nonce))" (is "_ \<longleftrightarrow> ?r")
proof
  assume "request_nonce T w = (Inr nonce, w')"
  then show ?r
    by (auto simp: request_nonce_def then_do_Inr_iff jget_str_def bind_eq_Some_conv jstr_Some_iff
        split: if_splits option.splits)
qed (auto simp: request_nonce_def jget_str_def)

lemma mid_exchange_Inr: "mid_exchange s = (Inr a, w) \<longleftrightarrow> s = (Inr a, w)"
  by (cases s rule: mid_exchange.cases) auto

text \<open>
  C24: The client holds a task key exactly when the server granted it: it answered both requests with
  success, the quote was taken over the server's own nonce and the enclave's session key, the grant
  carries a sealed key, and the enclave's secret opens it to a nonempty key. Every other course of
  the exchange ends in an error.
\<close>

theorem task_key_only_by_grant:
  "obtain_task_key ops T Q i w = (Inr key, w') \<longleftrightarrow>
     (\<exists>status nonce_response nonce w1 quote w2 status' response b64 sealed.
        T ''GET'' ''/nonce'' [] None w = (Inr (status, nonce_response), w1) \<and> success status
        \<and> jget nonce_response ''nonce'' = Some (JStr nonce) \<and> nonce \<noteq> []
        \<and> Q (to_report_data_field (key_release_report_data ops nonce (id_public i))) w1 = (Inr quote, w2)
        \<and> T ''POST'' ''/release'' [(RA_TLS_PEER_HEADER, hex_encode (id_public i))]
             (Some (release_body nonce quote (id_public i))) w2 = (Inr (status', response), w')
        \<and> success status' \<and> jget response ''released'' = Some (JBool True)
        \<and> jget response ''key'' = Some (JStr b64) \<and> b64std_decode ops b64 = Some sealed \<and> sealed \<noteq> []
        \<and> box_unseal ops (id_secret i) sealed = Some key \<and> key \<noteq> [])" (is "_ \<longleftrightarrow> ?r")
proof
  assume "obtain_task_key ops T Q i w = (Inr key, w')"
  then show ?r
    by (auto simp: obtain_task_key_def then_do_Inr_iff request_nonce_Inr mid_exchange_Inr
        parse_release_response_Inr split: if_splits)
next
  assume ?r
  then obtain status nonce_response nonce w1 quote w2 status' response b64 sealed where
    n: "T ''GET'' ''/nonce'' [] None w = (Inr (status, nonce_response), w1)" "success status"
      "jget nonce_response ''nonce'' = Some (JStr nonce)" "nonce \<noteq> []"
    and q: "Q (to_report_data_field (key_release_report_data ops nonce (id_public i))) w1 = (Inr quote, w2)"
    and t: "T ''POST'' ''/release'' [(RA_TLS_PEER_HEADER, hex_encode (id_public i))]
             (Some (release_body nonce quote (id_public i))) w2 = (Inr (status', response), w')" "success status'"
    and k: "jget response ''released'' = Some (JBool True)" "jget response ''key'' = Some (JStr b64)"
      "b64std_decode ops b64 = Some sealed" "sealed \<noteq> []" "box_unseal ops (id_secret i) sealed = Some key" "key \<noteq> []"
    by blast
  have "request_nonce T w = (Inr nonce, w1)" unfolding request_nonce_Inr using n by blast
  moreover have "parse_release_response ops response i = Inr key" unfolding parse_release_response_Inr using k by blast
  ultimately show "obtain_task_key ops T Q i w = (Inr key, w')"
    using q t by (simp add: obtain_task_key_def)
qed

section \<open>The quote belongs to the session\<close>

lemma length_report_data_field: "length (to_report_data_field b) = 128"
  by (simp add: to_report_data_field_def REPORT_DATA_LEN_def Let_def length_hex_encode)

lemma report_data_field_inject:
  "length a = 32 \<Longrightarrow> length b = 32 \<Longrightarrow> to_report_data_field a = to_report_data_field b \<longleftrightarrow> a = b"
  by (simp add: to_report_data_field_def REPORT_DATA_LEN_def Let_def hex_encode_inject)

text \<open>
  The report data of a key-release quote commits to the nonce and to the session key: for a
  collision-free hash with 32-byte digests and session keys of 32 bytes, equal fields mean the same
  nonce and the same key.
\<close>

theorem release_quote_binds_session:
  assumes "to_report_data_field (key_release_report_data ops n1 k1)
             = to_report_data_field (key_release_report_data ops n2 k2)"
    and "length k1 = 32" and "length k2 = 32"
    and "\<And>m. length (sha256 ops m) = 32"
    and "inj_on (sha256 ops) {KEY_RELEASE_TAG @ n1 @ k1, KEY_RELEASE_TAG @ n2 @ k2}"
  shows "n1 = n2 \<and> k1 = k2"
proof -
  have "sha256 ops (KEY_RELEASE_TAG @ n1 @ k1) = sha256 ops (KEY_RELEASE_TAG @ n2 @ k2)"
    using assms(1,4) report_data_field_inject by (simp add: key_release_report_data_def)
  then have "n1 @ k1 = n2 @ k2" using inj_on_eq_iff[OF assms(5)] by simp
  with assms(2,3) show ?thesis by simp
qed

section \<open>A concrete exchange\<close>

definition demo_grant :: "unit transport" where
  "demo_grant method path headers body w =
     (Inr (200, if path = ''/nonce'' then jobj [(''nonce'', JStr ''n1'')]
                else jobj [(''released'', JBool True),
                           (''key'', JStr (replicate 48 (CHR ''*'') @ ''task key''))]), w)"

definition demo_deny :: "unit transport" where
  "demo_deny method path headers body w =
     (Inr (200, if path = ''/nonce'' then jobj [(''nonce'', JStr ''n1'')]
                else jobj [(''released'', JBool False), (''reason'', JStr ''measurement'')]), w)"

definition demo_quote :: "unit quote_provider" where
  "demo_quote field w = (Inr \<lparr> qb_quote_hex = field, qb_event_log = None, qb_vm_config = None \<rparr>, w)"

definition demo_enclave :: enclave_identity where
  "demo_enclave = \<lparr> id_secret = replicate 32 (CHR ''s''), id_public = replicate 32 (CHR ''p''),
     id_key_id = [], id_report_data = [] \<rparr>"

lemma demo_exchanges:
  "obtain_task_key demo_ops demo_grant demo_quote demo_enclave () = (Inr ''task key'', ())"
  "obtain_task_key demo_ops demo_deny demo_quote demo_enclave () = (Inl (KeyReleaseDenied ''measurement''), ())"
  by (simp_all add: obtain_task_key_def request_nonce_def demo_grant_def demo_deny_def demo_quote_def success_def
      jget_str_def jget_jobj parse_release_response_def demo_ops_def released_key_def)

theorem release_quote_binds_session_witness:
  "to_report_data_field (key_release_report_data (demo_ops \<lparr> sha256 := (\<lambda>m. take 32 (drop 23 (m @ replicate 55 (CHR ''.'')))) \<rparr>) ''n'' (replicate 32 (CHR ''p'')))
   \<noteq> to_report_data_field (key_release_report_data (demo_ops \<lparr> sha256 := (\<lambda>m. take 32 (drop 23 (m @ replicate 55 (CHR ''.'')))) \<rparr>) ''m'' (replicate 32 (CHR ''p'')))"
  (is "to_report_data_field (key_release_report_data ?ops _ _) \<noteq> _")
proof
  assume eq: "to_report_data_field (key_release_report_data ?ops ''n'' (replicate 32 (CHR ''p'')))
    = to_report_data_field (key_release_report_data ?ops ''m'' (replicate 32 (CHR ''p'')))"
  have l: "length (sha256 ?ops m) = 32" for m by simp
  have i: "inj_on (sha256 ?ops) {KEY_RELEASE_TAG @ ''n'' @ replicate 32 (CHR ''p''), KEY_RELEASE_TAG @ ''m'' @ replicate 32 (CHR ''p'')}"
    by (simp add: KEY_RELEASE_TAG_def)
  from release_quote_binds_session[OF eq _ _ l i] show False by simp
qed

end
