(* ===== verification/Ip_Addr.thy ===== *)
theory Ip_Addr
  imports Rust_Str
begin

text \<open>
  Internet addresses of \<^verbatim>\<open>std::net\<close>, as the resolver, the proxy client and the sealed browser proxy
  use them: the text forms that \<^verbatim>\<open>str::parse::<IpAddr>\<close> accepts, a recursive descent over the bytes
  with a fixed number of slots, and \<^verbatim>\<open>Ipv4Addr\<close>'s text. An address is its network-order octets.
\<close>

datatype ip_addr = IpV4 "nat list" | IpV6 "nat list"

definition LOCALHOST_V4 :: ip_addr where
  "LOCALHOST_V4 = IpV4 [127, 0, 0, 1]"

text \<open>
  \<^verbatim>\<open>read_number\<close>: the digits of the radix, at most \<open>digits\<close> of them, below \<open>bound\<close>; the result is
  the value and the rest.
\<close>

fun read_digits :: "nat \<Rightarrow> nat \<Rightarrow> nat \<Rightarrow> nat \<Rightarrow> nat \<Rightarrow> string \<Rightarrow> (nat \<times> nat \<times> string) option" where
  "read_digits radix bound digits n acc [] = Some (acc, n, [])"
| "read_digits radix bound digits n acc (c # cs) =
     (if digit_val c < radix
      then let v = acc * radix + digit_val c
           in if bound \<le> v \<or> digits < n + 1 then None else read_digits radix bound digits (n + 1) v cs
      else Some (acc, n, c # cs))"

definition read_number :: "nat \<Rightarrow> nat \<Rightarrow> nat \<Rightarrow> bool \<Rightarrow> string \<Rightarrow> (nat \<times> string) option" where
  "read_number radix bound digits allow_zero_prefix s =
     (case read_digits radix bound digits 0 0 s of
        None \<Rightarrow> None
      | Some (v, n, rest) \<Rightarrow>
          if n = 0 then None
          else if \<not> allow_zero_prefix \<and> starts_with s ''0'' \<and> 1 < n then None
          else Some (v, rest))"

fun read_char :: "char \<Rightarrow> string \<Rightarrow> string option" where
  "read_char c [] = None"
| "read_char c (d # cs) = (if c = d then Some cs else None)"

definition read_octet :: "string \<Rightarrow> (nat \<times> string) option" where
  "read_octet = read_number 10 256 3 False"

definition read_ipv4 :: "string \<Rightarrow> (nat list \<times> string) option" where
  "read_ipv4 s =
     Option.bind (read_octet s) (\<lambda>(a, s). Option.bind (read_char (CHR ''.'') s) (\<lambda>s.
     Option.bind (read_octet s) (\<lambda>(b, s). Option.bind (read_char (CHR ''.'') s) (\<lambda>s.
     Option.bind (read_octet s) (\<lambda>(c, s). Option.bind (read_char (CHR ''.'') s) (\<lambda>s.
     Option.bind (read_octet s) (\<lambda>(d, s). Some ([a, b, c, d], s))))))))"

text \<open>A separator before every slot but the first.\<close>

definition read_sep :: "nat \<Rightarrow> string \<Rightarrow> string option" where
  "read_sep i s = (if 0 < i then read_char (CHR '':'') s else Some s)"

text \<open>
  The 16-bit groups of an IPv6 address, at most \<open>limit\<close>: the octets read, their number of groups,
  whether they ended in an embedded IPv4 address, and the rest.
\<close>

function read_groups :: "nat \<Rightarrow> nat \<Rightarrow> string \<Rightarrow> nat list \<Rightarrow> nat list \<times> nat \<times> bool \<times> string" where
  "read_groups limit i s acc =
     (if limit \<le> i then (acc, limit, False, s)
      else case (if i + 1 < limit then Option.bind (read_sep i s) read_ipv4 else None) of
        Some (octets, rest) \<Rightarrow> (acc @ octets, i + 2, True, rest)
      | None \<Rightarrow>
          (case Option.bind (read_sep i s) (read_number 16 65536 4 True) of
             Some (g, rest) \<Rightarrow> read_groups limit (i + 1) rest (acc @ [g div 256, g mod 256])
           | None \<Rightarrow> (acc, i, False, s)))"
  by pat_completeness auto
termination by (relation "measure (\<lambda>(limit, i, s, acc). limit - i)") auto

declare read_groups.simps [simp del]

definition read_ipv6 :: "string \<Rightarrow> (nat list \<times> string) option" where
  "read_ipv6 s =
     (case read_groups 8 0 s [] of (head, head_size, head_ipv4, rest) \<Rightarrow>
        if head_size = 8 then Some (head, rest)
        else if head_ipv4 then None
        else Option.bind (read_char (CHR '':'') rest) (\<lambda>rest.
             Option.bind (read_char (CHR '':'') rest) (\<lambda>rest.
             case read_groups (8 - (head_size + 1)) 0 rest [] of (tail, tail_size, _, rest) \<Rightarrow>
               Some (head @ replicate (16 - length head - length tail) 0 @ tail, rest))))"

definition parse_ip :: "string \<Rightarrow> ip_addr option" where
  "parse_ip s =
     (case read_ipv4 s of
        Some (octets, rest) \<Rightarrow> if rest = [] then Some (IpV4 octets) else None
      | None \<Rightarrow> (case read_ipv6 s of
          Some (octets, rest) \<Rightarrow> if rest = [] then Some (IpV6 octets) else None
        | None \<Rightarrow> None))"

definition show_ipv4 :: "nat list \<Rightarrow> string" where
  "show_ipv4 octets = join ''.'' (map show_nat octets)"

lemma demo_addresses:
  "parse_ip ''127.0.0.1'' = Some LOCALHOST_V4" "parse_ip ''01.2.3.4'' = None" "parse_ip ''1.2.3.256'' = None"
  "parse_ip ''::1'' = Some (IpV6 (replicate 14 0 @ [0, 1]))" "parse_ip ''a.example'' = None" "parse_ip ''1.2.3.4:80'' = None"
  by (simp_all add: parse_ip_def read_ipv4_def read_octet_def read_number_def read_ipv6_def read_groups.simps
      read_sep_def digit_val_def is_digit_def is_lower_def is_upper_def starts_with_def LOCALHOST_V4_def Let_def)

section \<open>What parses is an address\<close>

definition ip_wf :: "ip_addr \<Rightarrow> bool" where
  "ip_wf ip = (case ip of IpV4 os \<Rightarrow> length os = 4 \<and> (\<forall>b \<in> set os. b < 256)
                       | IpV6 os \<Rightarrow> length os = 16 \<and> (\<forall>b \<in> set os. b < 256))"

lemma read_digits_bound: "acc < bound \<Longrightarrow> read_digits radix bound digits n acc s = Some (v, m, r) \<Longrightarrow> v < bound"
  by (induction radix bound digits n acc s rule: read_digits.induct) (auto simp: Let_def split: if_splits)

lemma read_number_bound: "0 < bound \<Longrightarrow> read_number radix bound digits z s = Some (v, r) \<Longrightarrow> v < bound"
  by (auto simp: read_number_def read_digits_bound split: option.splits if_splits)

lemma read_octet_bound: "read_octet s = Some (v, r) \<Longrightarrow> v < 256"
  unfolding read_octet_def by (rule read_number_bound[of 256]) simp

lemma read_ipv4_wf: "read_ipv4 s = Some (os, r) \<Longrightarrow> length os = 4 \<and> (\<forall>b \<in> set os. b < 256)"
  by (auto simp: read_ipv4_def bind_eq_Some_conv dest: read_octet_bound)

lemma read_groups_wf:
  assumes "read_groups limit i s acc = (out, n, v4, r)" and "length acc = 2 * i" and "\<forall>b \<in> set acc. b < 256" and "i \<le> limit"
  shows "length out = 2 * n \<and> (\<forall>b \<in> set out. b < 256) \<and> n \<le> limit"
  using assms
proof (induction limit i s acc rule: read_groups.induct)
  case (1 limit i s acc)
  show ?case
  proof (cases "limit \<le> i")
    case False
    show ?thesis
    proof (cases "if i + 1 < limit then Option.bind (read_sep i s) read_ipv4 else None")
      case None
      show ?thesis
      proof (cases "Option.bind (read_sep i s) (read_number 16 65536 4 True)")
        case n2: None
        with None False "1.prems" show ?thesis by (subst (asm) read_groups.simps) auto
      next
        case (Some p)
        obtain g rest where p: "p = (g, rest)" by force
        have "g < 65536"
          using Some p read_number_bound[of 65536 16 4 True _ g rest] by (auto simp: bind_eq_Some_conv)
        then have "g div 256 < 256" by auto
        with None Some p False "1.prems" show ?thesis
          by (intro "1.IH"[OF False None Some p[symmetric]]) (subst (asm) read_groups.simps, auto)
      qed
    next
      case (Some q)
      obtain os rest where q: "q = (os, rest)" by force
      with Some have "length os = 4 \<and> (\<forall>b \<in> set os. b < 256)" "i + 1 < limit"
        by (auto simp: bind_eq_Some_conv dest: read_ipv4_wf split: if_splits)
      with Some q False "1.prems" show ?thesis by (subst (asm) read_groups.simps) auto
    qed
  qed (use "1.prems" in \<open>subst (asm) read_groups.simps, auto\<close>)
qed

lemma parse_ip_wf: "parse_ip s = Some ip \<Longrightarrow> ip_wf ip"
proof -
  assume p: "parse_ip s = Some ip"
  show ?thesis
  proof (cases "read_ipv4 s")
    case (Some q)
    with p show ?thesis by (cases q) (auto simp: parse_ip_def ip_wf_def split: if_splits dest: read_ipv4_wf)
  next
    case None
    with p obtain os where ip: "ip = IpV6 os" and os: "read_ipv6 s = Some (os, [])"
      by (auto simp: parse_ip_def split: option.splits if_splits)
    obtain head hs v4 rest where h: "read_groups 8 0 s [] = (head, hs, v4, rest)" by (metis prod_cases4)
    from read_groups_wf[OF this] have hw: "length head = 2 * hs" "\<forall>b \<in> set head. b < 256" "hs \<le> 8" by auto
    show ?thesis
    proof (cases "hs = 8")
      case True
      with os h hw show ?thesis by (simp add: read_ipv6_def ip ip_wf_def)
    next
      case False
      with os h obtain rest' where "(case read_groups (8 - (hs + 1)) 0 rest' [] of (tail, tail_size, _, rest) \<Rightarrow>
          Some (head @ replicate (16 - length head - length tail) 0 @ tail, rest)) = Some (os, [])"
        by (auto simp: read_ipv6_def bind_eq_Some_conv simp del: diff_Suc_Suc split: if_splits)
      moreover obtain tail ts v4' rest'' where t: "read_groups (8 - (hs + 1)) 0 rest' [] = (tail, ts, v4', rest'')"
        by (metis prod_cases4)
      ultimately have o: "os = head @ replicate (16 - length head - length tail) 0 @ tail" by simp
      from read_groups_wf[OF t] have "length tail = 2 * ts" "\<forall>b \<in> set tail. b < 256" "ts \<le> 8 - (hs + 1)" by auto
      with hw False show ?thesis by (auto simp: ip ip_wf_def o)
    qed
  qed
qed

end
