(* ===== verification/Dns_Wire.thy ===== *)
theory Dns_Wire
  imports Seal_Base Ip_Addr
begin

text \<open>
  The DNS messages of \<^verbatim>\<open>basecrawl-seal/src/dns.rs\<close>: building a query, parsing the answers of a
  reply, and taking the body out of a DNS-over-HTTPS response. An index read of the source is an
  option, so that an index out of range is \<open>None\<close>, the panic; \<^verbatim>\<open>usize\<close> has 64 bits.
\<close>

definition QTYPE_A :: nat where "QTYPE_A = 1"
definition QTYPE_AAAA :: nat where "QTYPE_AAAA = 28"
definition USIZE_MAX :: nat where "USIZE_MAX = 2 ^ 64 - 1"

definition dns_error :: "string \<Rightarrow> (seal_error, 'a) result" where
  "dns_error detail = Inl (SealDns detail)"

lemma dns_error_simps [simp]: "dns_error d \<noteq> Inr a" "Inr a \<noteq> dns_error d" "bind_res (dns_error d) f = dns_error d"
  by (simp_all add: dns_error_def)

section \<open>Queries\<close>

definition be16 :: "nat \<Rightarrow> string" where
  "be16 n = [char_of (n div 256), char_of (n mod 256)]"

definition name_char :: "char \<Rightarrow> bool" where
  "name_char c \<longleftrightarrow> is_alnum c \<or> c = CHR ''-'' \<or> c = CHR ''.''"

definition normalize_name :: "string \<Rightarrow> (seal_error, string) result" where
  "normalize_name name =
     (let trimmed = to_lower (rev (dropWhile (\<lambda>c. c = CHR ''.'') (rev (trim name))))
      in if trimmed = [] \<or> 253 < length trimmed \<or> contains trimmed ''..'' \<or> starts_with trimmed ''.''
            \<or> \<not> list_all name_char trimmed
         then dns_error ''hostname is not a valid DNS name''
         else Inr trimmed)"

fun encode_labels :: "string list \<Rightarrow> (seal_error, string) result" where
  "encode_labels [] = Inr [CHR 0x00]"
| "encode_labels (l # ls) =
     (if l = [] \<or> 63 < length l then dns_error ''hostname has an empty or overlong DNS label''
      else bind_res (encode_labels ls) (\<lambda>r. Inr (char_of (length l) # l @ r)))"

definition encode_name :: "string \<Rightarrow> (seal_error, string) result" where
  "encode_name name = encode_labels (split_on (CHR ''.'') name)"

definition build_query :: "string \<Rightarrow> nat \<Rightarrow> nat \<Rightarrow> (seal_error, string) result" where
  "build_query name qtype qid =
     bind_res (normalize_name name) (\<lambda>name.
     bind_res (encode_name name) (\<lambda>labels.
       Inr (be16 qid @ be16 0x0100 @ be16 1 @ be16 0 @ be16 0 @ be16 0 @ labels @ be16 qtype @ be16 1)))"

section \<open>Replies\<close>

definition byte_at :: "string \<Rightarrow> nat \<Rightarrow> nat option" where
  "byte_at msg i = (if i < length msg then Some (code (msg ! i)) else None)"

definition u16_at :: "string \<Rightarrow> nat \<Rightarrow> nat option" where
  "u16_at msg i =
     Option.bind (byte_at msg i) (\<lambda>a. Option.bind (byte_at msg (i + 1)) (\<lambda>b. Some (256 * a + b)))"

text \<open>\<^verbatim>\<open>skip_name\<close>: its loop, with the count of labels passed so far.\<close>

function skip_name :: "string \<Rightarrow> nat \<Rightarrow> nat \<Rightarrow> (seal_error, nat) result" where
  "skip_name msg jumps offset =
     (if length msg \<le> offset then dns_error ''DNS name overrun''
      else
        let len = code (msg ! offset)
        in if len = 0 then Inr (offset + 1)
           else if 192 \<le> len then
             (if length msg \<le> offset + 1 then dns_error ''DNS compression pointer overrun''
              else Inr (offset + 2))
           else if 64 \<le> len then dns_error ''DNS name uses unsupported label type''
           else if USIZE_MAX < offset + (1 + len) then dns_error ''DNS name length overflow''
           else if 128 < jumps + 1 then dns_error ''DNS name too long''
           else skip_name msg (jumps + 1) (offset + (1 + len)))"
  by pat_completeness auto
termination by (relation "measure (\<lambda>(msg, jumps, offset). 129 - jumps)") auto

declare skip_name.simps [simp del]

text \<open>The two tests of the label type, as the source writes them with a mask.\<close>

lemma label_type_masks:
  "(byte_of c AND 0xc0 = 0xc0) = (192 \<le> code c)" "(byte_of c AND 0xc0 \<noteq> 0) = (64 \<le> code c)"
proof -
  have "list_all (\<lambda>n. ((word_of_nat n :: 8 word) AND 0xc0 = 0xc0) = (192 \<le> n)
      \<and> ((word_of_nat n :: 8 word) AND 0xc0 \<noteq> 0) = (64 \<le> n)) [0..<256]"
    by code_simp
  then show "(byte_of c AND 0xc0 = 0xc0) = (192 \<le> code c)" "(byte_of c AND 0xc0 \<noteq> 0) = (64 \<le> code c)"
    using code_less_256[of c] by (auto simp: list_all_iff byte_of_def)
qed

fun skip_questions :: "string \<Rightarrow> nat \<Rightarrow> nat \<Rightarrow> (seal_error, nat) result" where
  "skip_questions msg 0 offset = Inr offset"
| "skip_questions msg (Suc n) offset =
     bind_res (skip_name msg 0 offset) (\<lambda>offset.
       if USIZE_MAX < offset + 4 then dns_error ''DNS question overrun''
       else skip_questions msg n (offset + 4))"

definition address_of :: "nat \<Rightarrow> nat \<Rightarrow> string \<Rightarrow> ip_addr option" where
  "address_of expected rtype rdata =
     (if rtype = expected
      then if rtype = QTYPE_A \<and> length rdata = 4 then Some (IpV4 (map code rdata))
           else if rtype = QTYPE_AAAA \<and> length rdata = 16 then Some (IpV6 (map code rdata))
           else None
      else None)"

fun opt_push :: "'a list \<Rightarrow> 'a option \<Rightarrow> 'a list" where
  "opt_push xs None = xs"
| "opt_push xs (Some x) = xs @ [x]"

fun read_answers ::
    "string \<Rightarrow> nat \<Rightarrow> nat \<Rightarrow> nat \<Rightarrow> ip_addr list \<Rightarrow> (seal_error, ip_addr list) result option" where
  "read_answers msg expected 0 offset answers = Some (Inr answers)"
| "read_answers msg expected (Suc n) offset answers =
     (case skip_name msg 0 offset of
        Inl e \<Rightarrow> Some (Inl e)
      | Inr offset \<Rightarrow>
          if length msg < offset + 10 then Some (dns_error ''DNS answer header overrun'')
          else
            Option.bind (u16_at msg offset) (\<lambda>rtype.
            Option.bind (u16_at msg (offset + 2)) (\<lambda>_.
            Option.bind (u16_at msg (offset + 8)) (\<lambda>rdlength.
              if length msg < offset + 10 + rdlength then Some (dns_error ''DNS rdata overrun'')
              else read_answers msg expected n (offset + 10 + rdlength)
                     (opt_push answers (address_of expected rtype (take rdlength (drop (offset + 10) msg))))))))"

definition parse_answers :: "string \<Rightarrow> nat \<Rightarrow> (seal_error, ip_addr list) result option" where
  "parse_answers msg expected =
     (if length msg < 12 then Some (dns_error ''DNS response shorter than header'')
      else
        Option.bind (u16_at msg 2) (\<lambda>flags.
          if flags mod 16 \<noteq> 0 then Some (Inr [])
          else
            Option.bind (u16_at msg 4) (\<lambda>qdcount.
            Option.bind (u16_at msg 6) (\<lambda>ancount.
              case skip_questions msg qdcount 12 of
                Inl e \<Rightarrow> Some (Inl e)
              | Inr offset \<Rightarrow> read_answers msg expected ancount offset []))))"

section \<open>No reply makes the parser panic\<close>

lemma u16_at_in_range: "i + 1 < length msg \<Longrightarrow> \<exists>v < 65536. u16_at msg i = Some v"
proof -
  assume i: "i + 1 < length msg"
  have "code (msg ! i) < 256" "code (msg ! (i + 1)) < 256" by (rule code_less_256)+
  then have "256 * code (msg ! i) + code (msg ! (i + 1)) < 65536" by linarith
  with i show ?thesis by (simp add: u16_at_def byte_at_def)
qed

definition answer_ok :: "nat \<Rightarrow> ip_addr \<Rightarrow> bool" where
  "answer_ok expected ip \<longleftrightarrow> ip_wf ip
     \<and> (case ip of IpV4 _ \<Rightarrow> expected = QTYPE_A | IpV6 _ \<Rightarrow> expected = QTYPE_AAAA)"

lemma address_of_ok: "address_of expected rtype rdata = Some ip \<Longrightarrow> answer_ok expected ip"
  by (auto simp: address_of_def answer_ok_def ip_wf_def split: if_splits)

lemma read_answers_total:
  assumes "\<forall>ip \<in> set answers. answer_ok expected ip"
  shows "\<exists>r. read_answers msg expected n offset answers = Some r
     \<and> (\<forall>ips. r = Inr ips \<longrightarrow> length ips \<le> length answers + n \<and> (\<forall>ip \<in> set ips. answer_ok expected ip))"
  using assms
proof (induction n arbitrary: offset answers)
  case (Suc n)
  show ?case
  proof (cases "skip_name msg 0 offset")
    case (Inr o2)
    show ?thesis
    proof (cases "length msg < o2 + 10")
      case False
      then obtain rtype rclass rdlength where u: "u16_at msg o2 = Some rtype" "u16_at msg (o2 + 2) = Some rclass"
        "u16_at msg (o2 + 8) = Some rdlength"
        using u16_at_in_range[of o2 msg] u16_at_in_range[of "o2 + 2" msg] u16_at_in_range[of "o2 + 8" msg] by auto
      let ?a = "address_of expected rtype (take rdlength (drop (o2 + 10) msg))"
      have "\<forall>ip \<in> set (opt_push answers ?a). answer_ok expected ip"
        using Suc.prems address_of_ok by (cases ?a) auto
      from Suc.IH[OF this, of "o2 + 10 + rdlength"] Inr False u show ?thesis
        by (cases ?a) (auto simp: le_Suc_eq)
    qed (simp add: Inr)
  qed simp
qed simp

lemma parse_answers_defined:
  "\<exists>r. parse_answers msg expected = Some r
     \<and> (\<forall>ips. r = Inr ips \<longrightarrow> length ips < 65536 \<and> list_all (answer_ok expected) ips)"
proof (cases "length msg < 12")
  case False
  then obtain flags qd an where u: "u16_at msg 2 = Some flags" "u16_at msg 4 = Some qd" "u16_at msg 6 = Some an"
    and an: "an < 65536"
    using u16_at_in_range[of 2 msg] u16_at_in_range[of 4 msg] u16_at_in_range[of 6 msg] by auto
  show ?thesis
  proof (cases "skip_questions msg qd 12")
    case (Inr o2)
    from read_answers_total[of "[]" expected msg an o2] an u Inr show ?thesis
      by (fastforce simp: parse_answers_def list_all_iff)
  qed (use u in \<open>auto simp: parse_answers_def\<close>)
qed (simp add: parse_answers_def)

text \<open>
  No byte string makes the parser of DNS replies read out of range: it always returns, with an
  error or with at most 65535 addresses, each of the queried family and of the right size.
\<close>

theorem parse_answers_total:
  "(\<exists>e. parse_answers msg expected = Some (Inl e))
     \<or> (\<exists>ips. parse_answers msg expected = Some (Inr ips) \<and> length ips < 65536
            \<and> list_all (answer_ok expected) ips)"
  using parse_answers_defined[of msg expected] by (metis sum.exhaust)

section \<open>A reply means what its records say\<close>

text \<open>
  The reference encoder: names are labels followed by the root or by a compression pointer.
\<close>

record dns_name =
  dn_labels :: "string list"
  dn_end :: string

definition label_bytes :: "string list \<Rightarrow> string" where
  "label_bytes ls = concat (map (\<lambda>l. char_of (length l) # l) ls)"

definition name_bytes :: "dns_name \<Rightarrow> string" where
  "name_bytes n = label_bytes (dn_labels n) @ dn_end n"

definition name_ok :: "dns_name \<Rightarrow> bool" where
  "name_ok n \<longleftrightarrow> length (dn_labels n) \<le> 128 \<and> (\<forall>l \<in> set (dn_labels n). l \<noteq> [] \<and> length l \<le> 63)
     \<and> (dn_end n = [CHR 0x00] \<or> (\<exists>a b. dn_end n = [a, b] \<and> 192 \<le> code a))"

record dns_record =
  dr_name :: dns_name
  dr_type :: nat
  dr_class :: string
  dr_ttl :: string
  dr_data :: string

definition record_ok :: "dns_record \<Rightarrow> bool" where
  "record_ok r \<longleftrightarrow> name_ok (dr_name r) \<and> dr_type r < 65536 \<and> length (dr_class r) = 2
     \<and> length (dr_ttl r) = 4 \<and> length (dr_data r) < 65536"

definition record_bytes :: "dns_record \<Rightarrow> string" where
  "record_bytes r = name_bytes (dr_name r) @ be16 (dr_type r) @ dr_class r @ dr_ttl r
     @ be16 (length (dr_data r)) @ dr_data r"

definition record_address :: "nat \<Rightarrow> dns_record \<Rightarrow> ip_addr option" where
  "record_address expected r = address_of expected (dr_type r) (dr_data r)"

lemma skip_name_step:
  assumes "msg = pre @ char_of (length l) # l @ post" "l \<noteq> []" "length l \<le> 63" "jumps + 1 \<le> 128"
    and "length msg \<le> USIZE_MAX"
  shows "skip_name msg jumps (length pre) = skip_name msg (jumps + 1) (length pre + 1 + length l)"
  by (subst skip_name.simps) (use assms in \<open>auto simp: nth_append Let_def\<close>)

lemma skip_name_bytes:
  assumes "msg = pre @ label_bytes ls @ e @ post" "jumps + length ls \<le> 128" "\<forall>l \<in> set ls. l \<noteq> [] \<and> length l \<le> 63"
    and "e = [CHR 0x00] \<or> (\<exists>a b. e = [a, b] \<and> 192 \<le> code a)" "length msg \<le> USIZE_MAX"
  shows "skip_name msg jumps (length pre) = Inr (length pre + length (label_bytes ls) + length e)"
  using assms
proof (induction ls arbitrary: pre jumps)
  case Nil
  from Nil.prems(4) show ?case
  proof
    assume "e = [CHR 0x00]"
    with Nil.prems show ?thesis by (subst skip_name.simps) (simp add: label_bytes_def nth_append)
  next
    assume "\<exists>a b. e = [a, b] \<and> 192 \<le> code a"
    with Nil.prems show ?thesis by (subst skip_name.simps) (auto simp: label_bytes_def nth_append Let_def)
  qed
next
  case (Cons l ls)
  have m: "msg = pre @ char_of (length l) # l @ (label_bytes ls @ e @ post)"
    using Cons.prems(1) by (simp add: label_bytes_def)
  have "skip_name msg (jumps + 1) (length (pre @ char_of (length l) # l))
      = Inr (length (pre @ char_of (length l) # l) + length (label_bytes ls) + length e)"
    by (rule Cons.IH) (use Cons.prems m in auto)
  with skip_name_step[OF m] Cons.prems show ?case by (simp add: label_bytes_def)
qed

lemma u16_at_be16:
  assumes "msg = pre @ be16 n @ post" "n < 65536"
  shows "u16_at msg (length pre) = Some n"
proof -
  have "n div 256 < 256" using assms(2) by auto
  with assms show ?thesis by (simp add: u16_at_def byte_at_def be16_def nth_append)
qed

lemma read_answers_record:
  assumes msg: "msg = pre @ record_bytes r @ post" and ok: "record_ok r" and len: "length msg \<le> USIZE_MAX"
  shows "read_answers msg expected (Suc n) (length pre) answers
     = read_answers msg expected n (length (pre @ record_bytes r)) (opt_push answers (record_address expected r))"
proof -
  let ?o = "length (pre @ name_bytes (dr_name r))"
  have m: "msg = (pre @ name_bytes (dr_name r)) @ be16 (dr_type r) @ dr_class r @ dr_ttl r
      @ be16 (length (dr_data r)) @ dr_data r @ post"
    by (simp add: msg record_bytes_def)
  have o: "skip_name msg 0 (length pre) = Inr ?o"
    using skip_name_bytes[of msg pre "dn_labels (dr_name r)" "dn_end (dr_name r)" _ 0] m ok len
    by (simp add: name_bytes_def record_ok_def name_ok_def)
  have t: "u16_at msg ?o = Some (dr_type r)"
    by (rule u16_at_be16[OF m]) (use ok in \<open>simp add: record_ok_def\<close>)
  have b2: "length (be16 k) = 2" for k by (simp add: be16_def)
  have l: "u16_at msg (?o + 8) = Some (length (dr_data r))"
    using u16_at_be16[of msg "pre @ name_bytes (dr_name r) @ be16 (dr_type r) @ dr_class r @ dr_ttl r"
        "length (dr_data r)" "dr_data r @ post"] m ok
    by (simp add: record_ok_def b2 ac_simps)
  have c: "u16_at msg (?o + 2) \<noteq> None"
    using u16_at_in_range[of "?o + 2" msg] m ok by (auto simp: record_ok_def b2)
  have d: "take (length (dr_data r)) (drop (?o + 10) msg) = dr_data r"
    using m ok by (simp add: record_ok_def b2)
  have n: "\<not> length msg < ?o + 10" "\<not> length msg < ?o + 10 + length (dr_data r)"
    using m ok by (simp_all add: record_ok_def b2)
  have e: "?o + 10 + length (dr_data r) = length (pre @ record_bytes r)"
    using ok by (simp add: record_bytes_def record_ok_def b2)
  from c obtain cl where "u16_at msg (?o + 2) = Some cl" by blast
  with o t l d n show ?thesis unfolding e[symmetric] by (simp add: record_address_def)
qed

lemma read_answers_records:
  assumes "msg = pre @ concat (map record_bytes rs) @ post" "\<forall>r \<in> set rs. record_ok r" "length msg \<le> USIZE_MAX"
  shows "read_answers msg expected (length rs) (length pre) answers
     = Some (Inr (answers @ List.map_filter (record_address expected) rs))"
  using assms
proof (induction rs arbitrary: pre answers)
  case (Cons r rs)
  have m: "msg = pre @ record_bytes r @ concat (map record_bytes rs) @ post" using Cons.prems(1) by simp
  have "read_answers msg expected (length (r # rs)) (length pre) answers
      = read_answers msg expected (length rs) (length (pre @ record_bytes r)) (opt_push answers (record_address expected r))"
    using read_answers_record[OF m] Cons.prems by simp
  also have "\<dots> = Some (Inr (opt_push answers (record_address expected r) @ List.map_filter (record_address expected) rs))"
    by (rule Cons.IH) (use Cons.prems in auto)
  finally show ?case by (cases "record_address expected r") (simp_all add: map_filter_simps)
qed (simp add: map_filter_simps)

definition reply_bytes :: "string \<Rightarrow> nat \<Rightarrow> dns_name \<Rightarrow> string \<Rightarrow> dns_record list \<Rightarrow> string \<Rightarrow> string \<Rightarrow> string" where
  "reply_bytes tid flags question qtail rs counts extra =
     tid @ be16 flags @ be16 1 @ be16 (length rs) @ counts @ name_bytes question @ qtail
       @ concat (map record_bytes rs) @ extra"

lemma parse_reply:
  assumes "length tid = 2" "length counts = 4" "length qtail = 4" "flags < 65536" "flags mod 16 = 0"
    and "name_ok question" "\<forall>r \<in> set rs. record_ok r" "length rs < 65536"
    and "length (reply_bytes tid flags question qtail rs counts extra) + 4 \<le> USIZE_MAX"
  shows "parse_answers (reply_bytes tid flags question qtail rs counts extra) expected
     = Some (Inr (List.map_filter (record_address expected) rs))"
proof -
  let ?m = "reply_bytes tid flags question qtail rs counts extra"
  let ?rs = "concat (map record_bytes rs) @ extra"
  have b2: "length (be16 k) = 2" for k by (simp add: be16_def)
  have u: "u16_at ?m 2 = Some flags" "u16_at ?m 4 = Some 1" "u16_at ?m 6 = Some (length rs)"
    using u16_at_be16[of ?m tid flags] u16_at_be16[of ?m "tid @ be16 flags" 1]
      u16_at_be16[of ?m "tid @ be16 flags @ be16 1" "length rs"] assms
    by (simp_all add: reply_bytes_def b2)
  have q: "skip_name ?m 0 12 = Inr (12 + length (name_bytes question))"
    using skip_name_bytes[of ?m "tid @ be16 flags @ be16 1 @ be16 (length rs) @ counts" "dn_labels question"
        "dn_end question" "qtail @ ?rs" 0] assms
    by (simp add: reply_bytes_def b2 name_ok_def name_bytes_def)
  have s: "skip_questions ?m 1 12 = Inr (12 + length (name_bytes question) + 4)"
    using q assms(1-3,9) by (simp add: reply_bytes_def b2 One_nat_def)
  have "read_answers ?m expected (length rs) (length (tid @ be16 flags @ be16 1 @ be16 (length rs) @ counts
      @ name_bytes question @ qtail)) [] = Some (Inr ([] @ List.map_filter (record_address expected) rs))"
    by (rule read_answers_records) (use assms in \<open>auto simp: reply_bytes_def\<close>)
  with u s assms show ?thesis
    by (simp add: parse_answers_def b2) (simp add: reply_bytes_def b2)
qed

text \<open>
  A well-formed reply without an error code yields exactly the addresses of its matching
  records, in their order, whatever the names of the records are, compressed or not, and whatever
  records of other types stand between them.
\<close>

theorem parse_answers_of_reply:
  assumes "length tid = 2" "length counts = 4" "length qtail = 4" "flags < 65536" "flags mod 16 = 0"
    and "name_ok question" "list_all record_ok rs" "length rs < 65536"
    and "length (reply_bytes tid flags question qtail rs counts extra) + 4 \<le> USIZE_MAX"
  shows "parse_answers (reply_bytes tid flags question qtail rs counts extra) expected
     = Some (Inr (List.map_filter (record_address expected) rs))"
  using parse_reply assms by (simp add: list_all_iff)

section \<open>A query carries the normalised name\<close>

lemma encode_labels_Inr:
  "encode_labels ls = Inr r \<longleftrightarrow> (\<forall>l \<in> set ls. l \<noteq> [] \<and> length l \<le> 63) \<and> r = label_bytes ls @ [CHR 0x00]"
  by (induction ls arbitrary: r) (auto simp: label_bytes_def res_simps)

lemma length_join: "ws \<noteq> [] \<Longrightarrow> length (join [d] ws) = sum_list (map length ws) + length ws - 1"
  by (induction "[d]" ws rule: join.induct) auto

lemma length_label_bytes: "length (label_bytes ls) = sum_list (map length ls) + length ls"
  by (induction ls) (simp_all add: label_bytes_def)

lemma length_labels:
  "length (label_bytes (split_on d s)) = length s + 1"
proof -
  have "0 < length (split_on d s)" by simp
  with length_join[of "split_on d s" d] show ?thesis by (simp add: join_split_on length_label_bytes)
qed

lemma normalize_name_Inr:
  assumes "normalize_name name = Inr n"
  shows "n \<noteq> [] \<and> length n \<le> 253 \<and> list_all name_char n \<and> to_lower n = n"
  using assms by (auto simp: normalize_name_def Let_def split: if_splits)

text \<open>
  A query is the fixed header, the normalised host name as its labels, and the type: the labels
  joined by dots are the name, every label has at most 63 bytes, a message never exceeds 271 bytes,
  and reading the name back in the message ends exactly before the type.
\<close>

theorem build_query_layout:
  assumes "build_query name qtype qid = Inr m"
  shows "\<exists>n labels. normalize_name name = Inr n \<and> join ''.'' labels = n
     \<and> m = be16 qid @ be16 256 @ be16 1 @ be16 0 @ be16 0 @ be16 0
             @ label_bytes labels @ [CHR 0x00] @ be16 qtype @ be16 1
     \<and> list_all (\<lambda>l. l \<noteq> [] \<and> length l \<le> 63) labels \<and> length m \<le> 271
     \<and> skip_name m 0 12 = Inr (length m - 4)"
proof -
  from assms obtain n where n: "normalize_name name = Inr n"
    and l: "\<forall>l \<in> set (split_on (CHR ''.'') n). l \<noteq> [] \<and> length l \<le> 63"
    and m: "m = be16 qid @ be16 256 @ be16 1 @ be16 0 @ be16 0 @ be16 0
             @ label_bytes (split_on (CHR ''.'') n) @ [CHR 0x00] @ be16 qtype @ be16 1"
    by (auto simp: build_query_def encode_name_def encode_labels_Inr res_simps)
  have b2: "length (be16 k) = 2" for k by (simp add: be16_def)
  have len: "length m = length n + 18" using m by (simp add: b2 length_labels)
  have n253: "length n \<le> 253" using normalize_name_Inr[OF n] by simp
  have k: "length (split_on (CHR ''.'') n) \<le> 128"
  proof -
    have "length ls \<le> sum_list (map length ls)" if "\<forall>l \<in> set ls. l \<noteq> []" for ls :: "string list"
      using that
    proof (induction ls)
      case (Cons l ls)
      then have "1 \<le> length l" by (simp add: Suc_le_eq)
      with Cons show ?case by (simp del: length_greater_0_conv)
    qed simp
    with l have "2 * length (split_on (CHR ''.'') n) \<le> length (label_bytes (split_on (CHR ''.'') n))"
      by (simp add: length_label_bytes)
    with n253 show ?thesis by (simp add: length_labels)
  qed
  have "skip_name m 0 (length (be16 qid @ be16 256 @ be16 1 @ be16 0 @ be16 0 @ be16 0))
      = Inr (length (be16 qid @ be16 256 @ be16 1 @ be16 0 @ be16 0 @ be16 0)
             + length (label_bytes (split_on (CHR ''.'') n)) + length [CHR 0x00])"
    by (rule skip_name_bytes[of _ _ _ _ "be16 qtype @ be16 1"])
      (use m l k len n253 in \<open>auto simp: USIZE_MAX_def\<close>)
  with len have "skip_name m 0 12 = Inr (length m - 4)" by (simp add: b2 length_labels)
  with n l m len n253 show ?thesis
    by (intro exI[of _ n] exI[of _ "split_on (CHR ''.'') n"]) (auto simp: join_split_on list_all_iff)
qed

section \<open>The body of a DNS-over-HTTPS response\<close>

definition trim_ascii :: "string \<Rightarrow> string" where
  "trim_ascii s = rev (dropWhile is_ascii_ws (rev (dropWhile is_ascii_ws s)))"

text \<open>The search of \<^verbatim>\<open>content_length\<close> stops at the first line with the header, valid or not.\<close>

fun content_length_lines :: "string list \<Rightarrow> nat option" where
  "content_length_lines [] = None"
| "content_length_lines (l # ls) =
     (case strip_prefix ''content-length:'' (to_lower (strip_cr l)) of
        Some rest \<Rightarrow> (if utf8_ok (trim_ascii rest) then parse_unsigned 10 USIZE_MAX (trim (trim_ascii rest)) else None)
      | None \<Rightarrow> content_length_lines ls)"

definition content_length :: "string \<Rightarrow> nat option" where
  "content_length headers = content_length_lines (split_on (CHR 0x0A) headers)"

definition header_end :: string where
  "header_end = [CHR 0x0D, CHR 0x0A, CHR 0x0D, CHR 0x0A]"

definition split_http_body :: "string \<Rightarrow> (seal_error, string) result" where
  "split_http_body raw =
     (case find_sub header_end raw of
        None \<Rightarrow> dns_error ''DoH response missing header terminator''
      | Some sep \<Rightarrow>
          let headers = take sep raw; body = drop (sep + 4) raw
          in if \<not> (starts_with headers ''HTTP/1.1 2'' \<or> starts_with headers ''HTTP/1.0 2'')
             then dns_error ''DoH endpoint returned a non-2xx status''
             else case content_length headers of
               Some n \<Rightarrow> if length body < n then dns_error ''DoH body shorter than Content-Length''
                         else Inr (take n body)
             | None \<Rightarrow> Inr body)"

lemma split_http_body_segment:
  "split_http_body raw = Inr body \<Longrightarrow> \<exists>headers rest. raw = headers @ header_end @ body @ rest
     \<and> starts_with headers ''HTTP/1.''"
proof -
  assume s: "split_http_body raw = Inr body"
  then obtain sep where f: "find_sub header_end raw = Some sep"
    and h: "starts_with (take sep raw) ''HTTP/1.1 2'' \<or> starts_with (take sep raw) ''HTTP/1.0 2''"
    and "body = drop (sep + 4) raw \<or> (\<exists>n. body = take n (drop (sep + 4) raw))"
    by (auto simp: split_http_body_def Let_def split: option.splits if_splits)
  then have b: "\<exists>rest. drop (sep + 4) raw = body @ rest" by (metis append_take_drop_id append_Nil2)
  from find_sub_decomp[OF f] have "raw = take sep raw @ header_end @ drop (sep + 4) raw"
    by (simp add: header_end_def numeral_eq_Suc)
  moreover from b obtain rest where "drop (sep + 4) raw = body @ rest" by blast
  moreover have "starts_with (take sep raw) ''HTTP/1.''" using h by (auto simp: starts_with_iff)
  ultimately show ?thesis by metis
qed

section \<open>A concrete exchange\<close>

definition demo_name :: dns_name where
  "demo_name = \<lparr> dn_labels = [''a'', ''example''], dn_end = [CHR 0x00] \<rparr>"

definition demo_record :: dns_record where
  "demo_record = \<lparr> dr_name = \<lparr> dn_labels = [], dn_end = [CHR 0xC0, CHR 0x0C] \<rparr>, dr_type = QTYPE_A,
     dr_class = be16 1, dr_ttl = be16 0 @ be16 60, dr_data = map char_of [93::nat, 184, 216, 34] \<rparr>"

theorem parse_answers_of_reply_witness:
  "parse_answers (reply_bytes (be16 7) 33152 demo_name (be16 1 @ be16 1) [demo_record] (be16 0 @ be16 0) []) QTYPE_A
     = Some (Inr [IpV4 [93, 184, 216, 34]])"
proof -
  have b2: "length (be16 k) = 2" for k by (simp add: be16_def)
  have n: "name_ok demo_name" by (simp add: name_ok_def demo_name_def)
  have r: "list_all record_ok [demo_record]"
    by (simp add: record_ok_def name_ok_def demo_record_def b2 QTYPE_A_def)
  have l: "length (reply_bytes (be16 7) 33152 demo_name (be16 1 @ be16 1) [demo_record] (be16 0 @ be16 0) []) + 4 \<le> USIZE_MAX"
    by (simp add: reply_bytes_def b2 name_bytes_def demo_name_def record_bytes_def demo_record_def label_bytes_def USIZE_MAX_def)
  have "parse_answers (reply_bytes (be16 7) 33152 demo_name (be16 1 @ be16 1) [demo_record] (be16 0 @ be16 0) []) QTYPE_A
      = Some (Inr (List.map_filter (record_address QTYPE_A) [demo_record]))"
    by (rule parse_answers_of_reply[OF _ _ _ _ _ n r _ l]) (simp_all add: b2)
  then show ?thesis
    by (simp add: record_address_def address_of_def demo_record_def map_filter_simps QTYPE_A_def)
qed

theorem build_query_layout_witness:
  "\<exists>m. build_query ''A.Example.'' QTYPE_A 7 = Inr m \<and> length m = 27 \<and> skip_name m 0 12 = Inr 23"
proof -
  have n: "normalize_name ''A.Example.'' = Inr ''a.example''" by code_simp
  have e: "encode_name ''a.example'' = Inr (label_bytes [''a'', ''example''] @ [CHR 0x00])"
    by (simp add: encode_name_def encode_labels_Inr label_bytes_def)
  obtain m where m: "build_query ''A.Example.'' QTYPE_A 7 = Inr m" and l: "length m = 27"
    by (simp add: build_query_def n e be16_def label_bytes_def)
  from build_query_layout[OF m] l have "skip_name m 0 12 = Inr 23" by auto
  with m l show ?thesis by blast
qed

end
