(* ===== verification/Dns_Resolver.thy ===== *)
theory Dns_Resolver
  imports Dns_Wire
begin

text \<open>
  The pinned resolver of \<^verbatim>\<open>basecrawl-seal/src/dns.rs\<close>: the TLS exchange with the pinned endpoint, over
  HTTPS or over length-prefixed frames, and the choice of the address of a scrape. Sockets, rustls and
  the clocks are the fields of \<open>dns_net\<close>. A loop that may never return is an option: \<open>None\<close> is a
  run without end.
\<close>

datatype resolver_mode = Doh | Dot
datatype tls_version = Tls12 | Tls13
datatype io_read = ReadBytes string | WouldBlock | TimedOut | ReadError string

record resolver_endpoint =
  ep_ip :: ip_addr
  ep_port :: nat
  ep_sni :: string
  ep_path :: string
  ep_mode :: resolver_mode

type_synonym socket_addr = "ip_addr \<times> nat"

record ('c, 'w) dns_net =
  dn_now :: "'w \<Rightarrow> nat \<times> 'w"
  dn_nanos :: "'w \<Rightarrow> nat option \<times> 'w"
  dn_tcp :: "socket_addr \<Rightarrow> nat \<Rightarrow> 'w \<Rightarrow> (string, 'c) result \<times> 'w"
  dn_set_timeout :: "bool \<Rightarrow> nat \<Rightarrow> 'c \<Rightarrow> 'w \<Rightarrow> string option \<times> 'w"
  dn_server_name :: "string \<Rightarrow> bool"
  dn_tls_client :: "string \<Rightarrow> 'c \<Rightarrow> (string, 'c) result"
  dn_handshaking :: "'c \<Rightarrow> 'w \<Rightarrow> bool"
  dn_complete_io :: "'c \<Rightarrow> 'w \<Rightarrow> string option \<times> 'w"
  dn_version :: "'c \<Rightarrow> 'w \<Rightarrow> tls_version option"
  dn_write :: "'c \<Rightarrow> string \<Rightarrow> 'w \<Rightarrow> string option \<times> 'w"
  dn_flush :: "'c \<Rightarrow> 'w \<Rightarrow> string option \<times> 'w"
  dn_read :: "'c \<Rightarrow> nat \<Rightarrow> 'w \<Rightarrow> io_read \<times> 'w"

definition DOH_PATH_MARKER :: string where
  "DOH_PATH_MARKER = ''basecrawl-seal/doh-v1''"

definition DEFAULT_DOH_ENDPOINT :: resolver_endpoint where
  "DEFAULT_DOH_ENDPOINT =
     \<lparr> ep_ip = IpV4 [1, 1, 1, 1], ep_port = 443, ep_sni = ''cloudflare-dns.com'',
       ep_path = ''/dns-query'', ep_mode = Doh \<rparr>"

definition DEFAULT_DOT_ENDPOINT :: resolver_endpoint where
  "DEFAULT_DOT_ENDPOINT =
     \<lparr> ep_ip = IpV4 [1, 1, 1, 1], ep_port = 853, ep_sni = ''cloudflare-dns.com'',
       ep_path = '''', ep_mode = Dot \<rparr>"

section \<open>Steps that may not return\<close>

type_synonym ('a, 'w) dns_step = "((seal_error, 'a) result \<times> 'w) option"

fun dns_then :: "('a, 'w) dns_step \<Rightarrow> ('a \<Rightarrow> 'w \<Rightarrow> ('b, 'w) dns_step) \<Rightarrow> ('b, 'w) dns_step" where
  "dns_then None f = None"
| "dns_then (Some (Inl e, w)) f = Some (Inl e, w)"
| "dns_then (Some (Inr a, w)) f = f a w"

lemma dns_then_Some_Inr:
  "dns_then s f = Some (Inr b, w') \<longleftrightarrow> (\<exists>a w. s = Some (Inr a, w) \<and> f a w = Some (Inr b, w'))"
  by (cases "(s, f)" rule: dns_then.cases) auto

definition returns :: "'a option \<Rightarrow> bool" where
  "returns s \<longleftrightarrow> s \<noteq> None"

lemma returns_simps [simp]: "returns (Some x)" "\<not> returns None"
  by (simp_all add: returns_def)

lemma returns_then [intro!]:
  "returns s \<Longrightarrow> (\<And>a w. returns (f a w)) \<Longrightarrow> returns (dns_then s f)"
  by (cases "(s, f)" rule: dns_then.cases) auto

text \<open>\<^verbatim>\<open>map_err(map_io(context))\<close> on an operation that returns an error text or nothing.\<close>

fun io_step :: "string \<Rightarrow> string option \<times> 'w \<Rightarrow> (unit, 'w) dns_step" where
  "io_step context (None, w) = Some (Inr (), w)"
| "io_step context (Some e, w) = Some (dns_error (context @ '': '' @ e), w)"

lemma io_step_returns [simp]: "returns (io_step context s)"
  by (cases "(context, s)" rule: io_step.cases) auto

definition remaining :: "('c, 'w) dns_net \<Rightarrow> nat \<Rightarrow> 'w \<Rightarrow> (nat, 'w) dns_step" where
  "remaining N deadline w =
     (case dn_now N w of (t, w) \<Rightarrow>
        if t < deadline then Some (Inr (deadline - t), w)
        else Some (dns_error ''DNS deadline already elapsed'', w))"

section \<open>The TLS connection\<close>

partial_function (option) handshake ::
    "('c, 'w) dns_net \<Rightarrow> nat \<Rightarrow> 'c \<Rightarrow> 'w \<Rightarrow> (unit, 'w) dns_step" where
  "handshake N deadline c w =
     (if \<not> dn_handshaking N c w then Some (Inr (), w)
      else case dn_complete_io N c w of
        (Some e, w) \<Rightarrow> Some (dns_error (''resolver TLS handshake: '' @ e), w)
      | (None, w) \<Rightarrow>
          (case dn_now N w of (t, w) \<Rightarrow>
             if deadline \<le> t then Some (dns_error ''resolver TLS handshake exceeded deadline'', w)
             else handshake N deadline c w))"

fun require_tls13 :: "tls_version option \<Rightarrow> 'c \<Rightarrow> 'w \<Rightarrow> ('c, 'w) dns_step" where
  "require_tls13 (Some Tls13) c w = Some (Inr c, w)"
| "require_tls13 (Some Tls12) c w = Some (dns_error ''resolver negotiated non-TLS-1.3 version TLSv1_2'', w)"
| "require_tls13 None c w = Some (dns_error ''resolver TLS version not negotiated'', w)"

lemma require_tls13_Inr:
  "require_tls13 v c w = Some (Inr c', w') \<longleftrightarrow> v = Some Tls13 \<and> c' = c \<and> w' = w"
  by (cases "(v, c, w)" rule: require_tls13.cases) auto

lemma require_tls13_returns [simp]: "returns (require_tls13 v c w)"
  by (cases "(v, c, w)" rule: require_tls13.cases) auto

definition connect_tls ::
    "('c, 'w) dns_net \<Rightarrow> resolver_endpoint \<Rightarrow> nat \<Rightarrow> 'w \<Rightarrow> ('c, 'w) dns_step" where
  "connect_tls N ep deadline w =
     dns_then (remaining N deadline w) (\<lambda>left w.
     dns_then (case dn_tcp N (ep_ip ep, ep_port ep) left w of
                 (Inl e, w) \<Rightarrow> Some (dns_error (''resolver TCP connect: '' @ e), w)
               | (Inr c, w) \<Rightarrow> Some (Inr c, w)) (\<lambda>tcp w.
     dns_then (io_step ''resolver set_read_timeout'' (dn_set_timeout N True left tcp w)) (\<lambda>_ w.
     dns_then (io_step ''resolver set_write_timeout'' (dn_set_timeout N False left tcp w)) (\<lambda>_ w.
       if \<not> dn_server_name N (ep_sni ep)
       then Some (dns_error (''invalid resolver SNI '' @ [CHR 0x27] @ ep_sni ep @ [CHR 0x27]), w)
       else case dn_tls_client N (ep_sni ep) tcp of
         Inl e \<Rightarrow> Some (dns_error (''rustls client init failed: '' @ e), w)
       | Inr c \<Rightarrow>
           dns_then (handshake N deadline c w) (\<lambda>_ w. require_tls13 (dn_version N c w) c w)))))"

lemma connect_tls_version:
  "connect_tls N ep deadline w = Some (Inr c, w') \<Longrightarrow> dn_version N c w' = Some Tls13"
  by (auto simp: connect_tls_def dns_then_Some_Inr require_tls13_Inr split: if_splits sum.splits)

section \<open>Exchanges\<close>

partial_function (option) doh_read ::
    "('c, 'w) dns_net \<Rightarrow> nat \<Rightarrow> 'c \<Rightarrow> string \<Rightarrow> 'w \<Rightarrow> (string, 'w) dns_step" where
  "doh_read N deadline c raw w =
     (case dn_now N w of (t, w) \<Rightarrow>
        if deadline \<le> t then Some (dns_error ''DoH exchange exceeded deadline'', w)
        else case dn_read N c 4096 w of (r, w) \<Rightarrow>
          (case r of
             ReadBytes bs \<Rightarrow>
               if bs = [] then Some (Inr raw, w)
               else if 64 * 1024 < length (raw @ bs)
               then Some (dns_error ''DoH response exceeded size bound'', w)
               else doh_read N deadline c (raw @ bs) w
           | WouldBlock \<Rightarrow> doh_read N deadline c raw w
           | TimedOut \<Rightarrow> Some (dns_error ''DoH read timed out'', w)
           | ReadError e \<Rightarrow> Some (dns_error (''DoH read: '' @ e), w)))"

definition doh_request :: "resolver_endpoint \<Rightarrow> string \<Rightarrow> string" where
  "doh_request ep query =
     (let crlf = [CHR 0x0D, CHR 0x0A];
          host = (if ep_port ep = 443 then ep_sni ep else ep_sni ep @ '':'' @ show_nat (ep_port ep))
      in ''POST '' @ ep_path ep @ '' HTTP/1.1'' @ crlf @ ''Host: '' @ host @ crlf
         @ ''Accept: application/dns-message'' @ crlf @ ''Content-Type: application/dns-message'' @ crlf
         @ ''Content-Length: '' @ show_nat (length query) @ crlf @ ''Connection: close'' @ crlf
         @ ''User-Agent: '' @ DOH_PATH_MARKER @ crlf @ crlf)"

definition exchange_doh ::
    "('c, 'w) dns_net \<Rightarrow> resolver_endpoint \<Rightarrow> string \<Rightarrow> nat \<Rightarrow> 'w \<Rightarrow> (string, 'w) dns_step" where
  "exchange_doh N ep query deadline w =
     dns_then (connect_tls N ep deadline w) (\<lambda>tls w.
     dns_then (io_step ''DoH request write'' (dn_write N tls (doh_request ep query) w)) (\<lambda>_ w.
     dns_then (io_step ''DoH query write'' (dn_write N tls query w)) (\<lambda>_ w.
     dns_then (io_step ''DoH flush'' (dn_flush N tls w)) (\<lambda>_ w.
     dns_then (doh_read N deadline tls [] w) (\<lambda>raw w.
       Some (split_http_body raw, w))))))"

partial_function (option) read_exact ::
    "('c, 'w) dns_net \<Rightarrow> nat \<Rightarrow> 'c \<Rightarrow> nat \<Rightarrow> string \<Rightarrow> 'w \<Rightarrow> (string, 'w) dns_step" where
  "read_exact N deadline c n filled w =
     (if n \<le> length filled then Some (Inr filled, w)
      else case dn_now N w of (t, w) \<Rightarrow>
        if deadline \<le> t then Some (dns_error ''DNS read exceeded deadline'', w)
        else case dn_read N c (n - length filled) w of (r, w) \<Rightarrow>
          (case r of
             ReadBytes bs \<Rightarrow>
               if bs = [] then Some (dns_error ''DNS stream closed before full frame'', w)
               else read_exact N deadline c n (filled @ bs) w
           | WouldBlock \<Rightarrow> read_exact N deadline c n filled w
           | TimedOut \<Rightarrow> Some (dns_error ''DNS read timed out'', w)
           | ReadError e \<Rightarrow> Some (dns_error (''DNS read: '' @ e), w)))"

text \<open>The two bytes of a frame's length.\<close>

definition frame_length :: "string \<Rightarrow> nat" where
  "frame_length s = (case s of a # b # _ \<Rightarrow> 256 * code a + code b | _ \<Rightarrow> 0)"

definition exchange_dot ::
    "('c, 'w) dns_net \<Rightarrow> resolver_endpoint \<Rightarrow> string \<Rightarrow> nat \<Rightarrow> 'w \<Rightarrow> (string, 'w) dns_step" where
  "exchange_dot N ep query deadline w =
     dns_then (connect_tls N ep deadline w) (\<lambda>tls w.
       if 65535 < length query then Some (dns_error ''DNS query exceeds DoT length frame'', w)
       else
         dns_then (io_step ''DoT length write'' (dn_write N tls (be16 (length query)) w)) (\<lambda>_ w.
         dns_then (io_step ''DoT query write'' (dn_write N tls query w)) (\<lambda>_ w.
         dns_then (io_step ''DoT flush'' (dn_flush N tls w)) (\<lambda>_ w.
         dns_then (read_exact N deadline tls 2 [] w) (\<lambda>len_buf w.
           let resp_len = frame_length len_buf
           in if resp_len = 0 \<or> 64 * 1024 < resp_len
              then Some (dns_error ''DoT response length out of bounds'', w)
              else read_exact N deadline tls resp_len [] w)))))"

section \<open>Lookups\<close>

definition lookup_type ::
    "('c, 'w) dns_net \<Rightarrow> resolver_endpoint \<Rightarrow> string \<Rightarrow> nat \<Rightarrow> nat \<Rightarrow> 'w \<Rightarrow> (ip_addr list, 'w) dns_step" where
  "lookup_type N ep name qtype deadline w =
     (case dn_nanos N w of (nanos, w) \<Rightarrow>
        let qid = (case nanos of Some n \<Rightarrow> n | None \<Rightarrow> 1) mod 65536
        in dns_then (Some (build_query name qtype (max qid 1), w)) (\<lambda>query w.
           dns_then (case ep_mode ep of Doh \<Rightarrow> exchange_doh N ep query deadline w
                                      | Dot \<Rightarrow> exchange_dot N ep query deadline w) (\<lambda>response w.
             map_option (\<lambda>r. (r, w)) (parse_answers response qtype))))"

fun add_new :: "'a list \<Rightarrow> 'a list \<Rightarrow> 'a list" where
  "add_new xs [] = xs"
| "add_new xs (y # ys) = add_new (if y \<in> set xs then xs else xs @ [y]) ys"

record resolve_result =
  rv_addresses :: "ip_addr list"
  rv_via :: resolver_endpoint
  rv_protocol :: string

text \<open>An error of the second lookup counts as no answer.\<close>

definition lookup ::
    "('c, 'w) dns_net \<Rightarrow> resolver_endpoint \<Rightarrow> string \<Rightarrow> nat \<Rightarrow> 'w \<Rightarrow> (resolve_result, 'w) dns_step" where
  "lookup N ep name deadline w =
     dns_then (Some (normalize_name name, w)) (\<lambda>name w.
     dns_then (lookup_type N ep name QTYPE_A deadline w) (\<lambda>addresses w.
       case lookup_type N ep name QTYPE_AAAA deadline w of
         None \<Rightarrow> None
       | Some (r, w) \<Rightarrow>
           let all = add_new addresses (case r of Inr aaaa \<Rightarrow> aaaa | Inl _ \<Rightarrow> [])
           in if all = [] then Some (dns_error ''pinned resolver returned no A/AAAA answers'', w)
              else Some (Inr \<lparr> rv_addresses = all, rv_via = ep,
                               rv_protocol = (case ep_mode ep of Doh \<Rightarrow> ''doh'' | Dot \<Rightarrow> ''dot'') \<rparr>, w)))"

definition resolve_host ::
    "('c, 'w) dns_net \<Rightarrow> resolver_endpoint \<Rightarrow> string \<Rightarrow> nat \<Rightarrow> nat \<Rightarrow> 'w \<Rightarrow> (socket_addr list, 'w) dns_step" where
  "resolve_host N ep host port deadline w =
     dns_then (lookup N ep host deadline w) (\<lambda>r w.
       Some (Inr (map (\<lambda>ip. (ip, port)) (rv_addresses r)), w))"

definition is_loopback_name :: "string \<Rightarrow> bool" where
  "is_loopback_name host = eq_ic host ''localhost''"

definition resolve_for_connect ::
    "(string \<Rightarrow> nat \<Rightarrow> nat \<Rightarrow> 'w \<Rightarrow> (socket_addr list, 'w) dns_step) \<Rightarrow> string \<Rightarrow> nat \<Rightarrow> nat \<Rightarrow> 'w
     \<Rightarrow> (socket_addr, 'w) dns_step" where
  "resolve_for_connect resolver host port deadline w =
     (case parse_ip host of
        Some ip \<Rightarrow> Some (Inr (ip, port), w)
      | None \<Rightarrow>
          if is_loopback_name host then Some (Inr (LOCALHOST_V4, port), w)
          else dns_then (resolver host port deadline w) (\<lambda>addresses w.
            case addresses of
              [] \<Rightarrow> Some (dns_error ''pinned resolver returned an empty address list'', w)
            | a # _ \<Rightarrow> Some (Inr a, w)))"

section \<open>Only the pinned endpoint is contacted\<close>

text \<open>A network that treats every destination but one in an arbitrary way.\<close>

definition reroute :: "(socket_addr \<Rightarrow> nat \<Rightarrow> 'w \<Rightarrow> (string, 'c) result \<times> 'w) \<Rightarrow> resolver_endpoint
    \<Rightarrow> ('c, 'w) dns_net \<Rightarrow> ('c, 'w) dns_net" where
  "reroute other ep N =
     N \<lparr> dn_tcp := (\<lambda>a. if a = (ep_ip ep, ep_port ep) then dn_tcp N a else other a) \<rparr>"

lemma reroute_fields [simp]:
  "dn_now (reroute other ep N) = dn_now N" "dn_nanos (reroute other ep N) = dn_nanos N"
  "dn_set_timeout (reroute other ep N) = dn_set_timeout N" "dn_server_name (reroute other ep N) = dn_server_name N"
  "dn_tls_client (reroute other ep N) = dn_tls_client N" "dn_handshaking (reroute other ep N) = dn_handshaking N"
  "dn_complete_io (reroute other ep N) = dn_complete_io N" "dn_version (reroute other ep N) = dn_version N"
  "dn_write (reroute other ep N) = dn_write N" "dn_flush (reroute other ep N) = dn_flush N"
  "dn_read (reroute other ep N) = dn_read N"
  "dn_tcp (reroute other ep N) (ep_ip ep, ep_port ep) = dn_tcp N (ep_ip ep, ep_port ep)"
  by (simp_all add: reroute_def)

text \<open>The loops do not look at the way connections are made.\<close>

lemma handshake_tcp1:
  assumes "handshake N d c w = Some y"
  shows "handshake (N \<lparr> dn_tcp := t \<rparr>) d c w = Some y"
  by (rule handshake.raw_induct[where P = "\<lambda>N d c w y. handshake (N \<lparr> dn_tcp := t \<rparr>) d c w = Some y", OF _ assms])
    (subst handshake.simps, auto split: if_splits prod.splits option.splits)

lemma doh_read_tcp1:
  assumes "doh_read N d c raw w = Some y"
  shows "doh_read (N \<lparr> dn_tcp := t \<rparr>) d c raw w = Some y"
  by (rule doh_read.raw_induct[where P = "\<lambda>N d c raw w y. doh_read (N \<lparr> dn_tcp := t \<rparr>) d c raw w = Some y", OF _ assms])
    (subst doh_read.simps, auto split: if_splits prod.splits io_read.splits)

lemma read_exact_tcp1:
  assumes "read_exact N d c n f w = Some y"
  shows "read_exact (N \<lparr> dn_tcp := t \<rparr>) d c n f w = Some y"
  by (rule read_exact.raw_induct[where P = "\<lambda>N d c n f w y. read_exact (N \<lparr> dn_tcp := t \<rparr>) d c n f w = Some y", OF _ assms])
    (subst read_exact.simps, auto split: if_splits prod.splits io_read.splits)

lemma option_eqI: "(\<And>y. a = Some y \<Longrightarrow> b = Some y) \<Longrightarrow> (\<And>y. b = Some y \<Longrightarrow> a = Some y) \<Longrightarrow> a = b"
  by (cases a; cases b) auto

lemma loops_tcp:
  "handshake (N \<lparr> dn_tcp := t \<rparr>) d c w = handshake N d c w"
  "doh_read (N \<lparr> dn_tcp := t \<rparr>) d c raw w = doh_read N d c raw w"
  "read_exact (N \<lparr> dn_tcp := t \<rparr>) d c n f w = read_exact N d c n f w"
proof -
  show "handshake (N \<lparr> dn_tcp := t \<rparr>) d c w = handshake N d c w"
    by (rule option_eqI) (drule handshake_tcp1[where t = "dn_tcp N"], simp, erule handshake_tcp1)
  show "doh_read (N \<lparr> dn_tcp := t \<rparr>) d c raw w = doh_read N d c raw w"
    by (rule option_eqI) (drule doh_read_tcp1[where t = "dn_tcp N"], simp, erule doh_read_tcp1)
  show "read_exact (N \<lparr> dn_tcp := t \<rparr>) d c n f w = read_exact N d c n f w"
    by (rule option_eqI) (drule read_exact_tcp1[where t = "dn_tcp N"], simp, erule read_exact_tcp1)
qed

lemma reroute_loops [simp]:
  "handshake (reroute other ep N) = handshake N" "doh_read (reroute other ep N) = doh_read N"
  "read_exact (reroute other ep N) = read_exact N" "remaining (reroute other ep N) = remaining N"
  by (auto simp: reroute_def loops_tcp remaining_def fun_eq_iff)

lemma reroute_exchanges [simp]:
  "connect_tls (reroute other ep N) ep = connect_tls N ep"
  "exchange_doh (reroute other ep N) ep = exchange_doh N ep"
  "exchange_dot (reroute other ep N) ep = exchange_dot N ep"
  by (simp_all add: connect_tls_def exchange_doh_def exchange_dot_def fun_eq_iff cong: if_cong sum.case_cong)

text \<open>
  C25: Resolution contacts the pinned endpoint and nothing else: replacing every other destination of
  the network by an arbitrary one changes no lookup, in its outcome and in its effect on the world.
\<close>

theorem lookup_contacts_only_pin:
  "resolve_host (reroute other ep N) ep host port deadline w = resolve_host N ep host port deadline w"
  by (simp add: resolve_host_def lookup_def lookup_type_def cong: resolver_mode.case_cong option.case_cong prod.case_cong)

lemma first_address:
  "(case addresses of [] \<Rightarrow> Some (dns_error d, w) | a # _ \<Rightarrow> Some (Inr a, w))
     = Some (if addresses = [] then dns_error d else Inr (hd addresses), w)"
  by (cases addresses) auto

text \<open>
  A literal address and the local host name resolve to themselves without a step of the network;
  every other host resolves to the first address of the pinned resolver, or fails; no other source
  of addresses exists.
\<close>

theorem resolve_for_connect_cases:
  "resolve_for_connect resolver host port deadline w =
     (if parse_ip host \<noteq> None then Some (Inr (the (parse_ip host), port), w)
      else if to_lower host = ''localhost'' then Some (Inr (IpV4 [127, 0, 0, 1], port), w)
      else dns_then (resolver host port deadline w) (\<lambda>addresses w.
        Some (if addresses = [] then dns_error ''pinned resolver returned an empty address list''
              else Inr (hd addresses), w)))"
proof -
  have "to_lower ''localhost'' = ''localhost''" by code_simp
  then show ?thesis
    by (simp add: resolve_for_connect_def is_loopback_name_def eq_ic_def LOCALHOST_V4_def first_address
        split: option.splits)
qed

section \<open>Lookups return\<close>

text \<open>
  A network that makes progress: a rank of the world falls with every read and every handshake step
  that the deadline allowed, as it does when each of them takes time.
\<close>

definition progresses :: "('c, 'w) dns_net \<Rightarrow> ('w \<Rightarrow> nat) \<Rightarrow> nat \<Rightarrow> bool" where
  "progresses N rank deadline \<longleftrightarrow>
     (\<forall>w t w1 c n r w2. dn_now N w = (t, w1) \<longrightarrow> t < deadline \<longrightarrow> dn_read N c n w1 = (r, w2) \<longrightarrow> rank w2 < rank w)
   \<and> (\<forall>w c w1 t w2. dn_complete_io N c w = (None, w1) \<longrightarrow> dn_now N w1 = (t, w2) \<longrightarrow> t < deadline \<longrightarrow> rank w2 < rank w)"

lemma handshake_returns:
  assumes "progresses N rank deadline"
  shows "returns (handshake N deadline c w)"
proof (induction "rank w" arbitrary: w rule: less_induct)
  case less
  then show ?case using assms
    by (subst handshake.simps) (auto simp: progresses_def not_le split: prod.splits option.splits)
qed

lemma doh_read_returns:
  assumes "progresses N rank deadline"
  shows "returns (doh_read N deadline c raw w)"
proof (induction "rank w" arbitrary: w raw rule: less_induct)
  case less
  then show ?case using assms
    by (subst doh_read.simps) (auto simp: progresses_def not_le split: prod.splits io_read.splits)
qed

lemma read_exact_returns:
  assumes "progresses N rank deadline"
  shows "returns (read_exact N deadline c n f w)"
proof (induction "rank w" arbitrary: w f rule: less_induct)
  case less
  then show ?case using assms
    by (subst read_exact.simps) (auto simp: progresses_def not_le split: prod.splits io_read.splits)
qed

lemma connect_tls_returns:
  assumes "progresses N rank deadline"
  shows "returns (connect_tls N ep deadline w)"
  using handshake_returns[OF assms]
  by (auto simp: connect_tls_def remaining_def split: sum.splits prod.splits)

lemma exchange_returns:
  assumes "progresses N rank deadline"
  shows "returns (exchange_doh N ep query deadline w)" "returns (exchange_dot N ep query deadline w)"
  using connect_tls_returns[OF assms] doh_read_returns[OF assms] read_exact_returns[OF assms]
  by (auto simp: exchange_doh_def exchange_dot_def Let_def)

lemma lookup_type_returns:
  assumes "progresses N rank deadline"
  shows "returns (lookup_type N ep name qtype deadline w)"
proof -
  have "returns (map_option h (parse_answers m q))" for h :: "_ \<Rightarrow> 'd" and m q
    using parse_answers_defined[of m q] by auto
  then show ?thesis using exchange_returns[OF assms]
    by (auto simp: lookup_type_def Let_def split: prod.splits resolver_mode.splits)
qed

text \<open>
  C26: Resolution returns. When reads and handshake steps take time, every lookup ends, with
  addresses or with an error, whatever bytes the resolver answers with.
\<close>

theorem resolution_returns:
  assumes "progresses N rank deadline"
  shows "resolve_host N ep host port deadline w \<noteq> None
     \<and> resolve_for_connect (resolve_host N ep) host port deadline w \<noteq> None"
proof -
  have l: "returns (lookup N ep host deadline w)" for w
  proof -
    have "\<exists>r w'. lookup_type N ep name QTYPE_AAAA deadline w = Some (r, w')" for name w
      using lookup_type_returns[OF assms, of ep name QTYPE_AAAA w] by (auto simp: returns_def)
    then show ?thesis using lookup_type_returns[OF assms]
      by (auto simp: lookup_def Let_def split: option.splits)
  qed
  have "returns (resolve_for_connect (resolve_host N ep) host port deadline w)"
    using l by (auto simp: resolve_for_connect_def resolve_host_def first_address split: option.splits)
  moreover have "returns (resolve_host N ep host port deadline w)"
    using l by (auto simp: resolve_host_def)
  ultimately show ?thesis unfolding returns_def by blast
qed

text \<open>
  The addresses of a result are in stable order; only the second lookup is checked for duplicates,
  so two equal A records stay two addresses.
\<close>

lemma add_new_spec: "\<exists>zs. add_new xs ys = xs @ zs \<and> set (add_new xs ys) = set xs \<union> set ys \<and> distinct zs \<and> set zs \<inter> set xs = {}"
proof (induction ys arbitrary: xs)
  case (Cons y ys)
  from Cons[of "if y \<in> set xs then xs else xs @ [y]"] show ?case by (auto split: if_splits)
qed simp

lemma duplicate_a_records_stay: "\<not> distinct xs \<Longrightarrow> \<not> distinct (add_new xs ys)"
  using add_new_spec[of xs ys] by auto

section \<open>A concrete resolver\<close>

text \<open>A clock world; the reply to every read is one DNS-over-HTTPS response, then the end.\<close>

definition demo_reply :: string where
  "demo_reply = reply_bytes (be16 1) 33152 demo_name (be16 1 @ be16 1) [demo_record] (be16 0 @ be16 0) []"

definition demo_net :: "(nat, nat) dns_net" where
  "demo_net =
     \<lparr> dn_now = (\<lambda>w. (w, w)), dn_nanos = (\<lambda>w. (Some 7, w)), dn_tcp = (\<lambda>a left w. (Inr 0, w)),
       dn_set_timeout = (\<lambda>rd left c w. (None, w)), dn_server_name = (\<lambda>s. True), dn_tls_client = (\<lambda>s c. Inr c),
       dn_handshaking = (\<lambda>c w. False), dn_complete_io = (\<lambda>c w. (None, w + 1)),
       dn_version = (\<lambda>c w. Some Tls13), dn_write = (\<lambda>c s w. (None, w)), dn_flush = (\<lambda>c w. (None, w)),
       dn_read = (\<lambda>c n w. (if even w then ReadBytes (''HTTP/1.1 200 OK'' @ header_end @ demo_reply)
                             else ReadBytes [], w + 1)) \<rparr>"

lemma demo_net_progresses: "progresses demo_net (\<lambda>w. deadline - w) deadline"
  by (auto simp: progresses_def demo_net_def)

theorem resolution_returns_witness:
  "resolve_host demo_net DEFAULT_DOH_ENDPOINT ''a.example'' 443 10 0 \<noteq> None"
  using resolution_returns[OF demo_net_progresses[of 10], of DEFAULT_DOH_ENDPOINT "''a.example''" 443 0] by simp

end
