(* ===== verification/Render_Budget.thy ===== *)
theory Render_Budget
  imports Url_Ops "HOL-Library.Word" "HOL-Library.Sublist"
begin

text \<open>
  The resource accounting of \<^verbatim>\<open>basecrawl-render/src/lib.rs\<close>: the request and byte budget that one
  scrape shares among its renders, the count of top-frame navigations, and the per-origin pacer that
  direct and browser requests share. A lock region of the source is one function of the state; \<^verbatim>\<open>u64\<close>
  values are \<open>nat\<close>s with the overflow check written out, the pending counter wraps at its width.
\<close>

definition U64_MAX :: nat where
  "U64_MAX = 2 ^ 64 - 1"

datatype render_error =
    ChromeNotFound
  | Launch string
  | DnsIsolation string
  | RenderFailed string
  | RenderTimeout nat
  | PacingDeadline
  | WaitFor string string
  | TooManyClientRedirects nat
  | ResourceBudgetExceeded
  | DocumentPolicyDenied string
  | StealthInjectInstall string
  | NoContent

section \<open>The budget\<close>

record render_usage =
  ru_count :: nat
  ru_bytes :: nat
  ru_cap_exceeded :: bool

record render_budget =
  bg_max_requests :: nat
  bg_max_bytes :: nat
  bg_usage :: render_usage
  bg_pending :: "64 word"

definition new_budget :: "nat \<Rightarrow> nat \<Rightarrow> render_budget" where
  "new_budget max_requests max_bytes =
     \<lparr> bg_max_requests = max_requests, bg_max_bytes = max_bytes,
       bg_usage = \<lparr> ru_count = 0, ru_bytes = 0, ru_cap_exceeded = False \<rparr>, bg_pending = 0 \<rparr>"

definition exhaust :: "render_budget \<Rightarrow> render_budget" where
  "exhaust b = b \<lparr> bg_usage := (bg_usage b) \<lparr> ru_cap_exceeded := True \<rparr> \<rparr>"

definition ensure_available :: "render_budget \<Rightarrow> (render_error, unit) result" where
  "ensure_available b = (if ru_cap_exceeded (bg_usage b) then Inl ResourceBudgetExceeded else Inr ())"

definition remaining_bytes :: "render_budget \<Rightarrow> (render_error, nat) result" where
  "remaining_bytes b =
     (if ru_cap_exceeded (bg_usage b) then Inl ResourceBudgetExceeded
      else Inr (bg_max_bytes b - ru_bytes (bg_usage b)))"

definition charge_bytes :: "nat \<Rightarrow> render_budget \<Rightarrow> (render_error, unit) result \<times> render_budget" where
  "charge_bytes n b =
     (let total = ru_bytes (bg_usage b) + n
      in if U64_MAX < total then (Inl ResourceBudgetExceeded, exhaust b)
         else if ru_cap_exceeded (bg_usage b) \<or> bg_max_bytes b < total
         then (Inl ResourceBudgetExceeded, exhaust b)
         else (Inr (), b \<lparr> bg_usage := (bg_usage b) \<lparr> ru_bytes := total \<rparr> \<rparr>))"

definition charge_remaining_bytes ::
    "nat \<Rightarrow> nat \<Rightarrow> render_budget \<Rightarrow> (render_error, unit) result \<times> render_budget" where
  "charge_remaining_bytes total_observed already_charged b =
     (let additional = total_observed - already_charged
      in if additional = 0 then (Inr (), b) else charge_bytes additional b)"

definition begin_body_account :: "render_budget \<Rightarrow> render_budget" where
  "begin_body_account b = b \<lparr> bg_pending := bg_pending b + 1 \<rparr>"

definition finish_body_account :: "render_budget \<Rightarrow> render_budget" where
  "finish_body_account b = b \<lparr> bg_pending := bg_pending b - 1 \<rparr>"

definition has_pending_body_accounts :: "render_budget \<Rightarrow> bool" where
  "has_pending_body_accounts b \<longleftrightarrow> 0 < bg_pending b"

text \<open>The admission of one browser request; the flag says that it may go on.\<close>

definition admit_request :: "render_budget \<Rightarrow> bool \<times> render_budget" where
  "admit_request b =
     (if ru_cap_exceeded (bg_usage b) \<or> bg_max_requests b \<le> ru_count (bg_usage b)
      then (False, exhaust b)
      else (True, b \<lparr> bg_usage := (bg_usage b) \<lparr> ru_count := ru_count (bg_usage b) + 1 \<rparr> \<rparr>))"

text \<open>The invariant of a budget, and what its operations keep of an earlier budget.\<close>

definition budget_ok :: "render_budget \<Rightarrow> bool" where
  "budget_ok b \<longleftrightarrow> ru_bytes (bg_usage b) \<le> bg_max_bytes b \<and> ru_count (bg_usage b) \<le> bg_max_requests b"

definition budget_grows :: "render_budget \<Rightarrow> render_budget \<Rightarrow> bool" where
  "budget_grows a b \<longleftrightarrow>
     bg_max_bytes b = bg_max_bytes a \<and> bg_max_requests b = bg_max_requests a
     \<and> ru_bytes (bg_usage a) \<le> ru_bytes (bg_usage b) \<and> ru_count (bg_usage a) \<le> ru_count (bg_usage b)
     \<and> (ru_cap_exceeded (bg_usage a) \<longrightarrow> bg_usage b = bg_usage a)"

lemma budget_ok_new: "budget_ok (new_budget m n)"
  by (simp add: budget_ok_def new_budget_def)

lemma budget_ok_exhaust [simp]: "budget_ok (exhaust b) = budget_ok b"
  by (simp add: budget_ok_def exhaust_def)

lemma budget_ok_pending [simp]:
  "budget_ok (begin_body_account b) = budget_ok b" "budget_ok (finish_body_account b) = budget_ok b"
  by (simp_all add: budget_ok_def begin_body_account_def finish_body_account_def)

lemma charge_bytes_ok: "budget_ok b \<Longrightarrow> budget_ok (snd (charge_bytes n b))"
  by (auto simp: budget_ok_def charge_bytes_def Let_def exhaust_def)

lemma charge_remaining_ok: "budget_ok b \<Longrightarrow> budget_ok (snd (charge_remaining_bytes t a b))"
  by (simp add: charge_remaining_bytes_def Let_def charge_bytes_ok)

lemma admit_request_ok: "budget_ok b \<Longrightarrow> budget_ok (snd (admit_request b))"
  by (auto simp: budget_ok_def admit_request_def exhaust_def)

lemma exhausted_stays [simp]: "ru_cap_exceeded (bg_usage b) \<Longrightarrow> exhaust b = b"
  by (simp add: exhaust_def)

lemma charge_bytes_grows: "budget_grows b (snd (charge_bytes n b))"
  by (auto simp: budget_grows_def charge_bytes_def Let_def exhaust_def)

lemma charge_remaining_grows: "budget_grows b (snd (charge_remaining_bytes t a b))"
  using charge_bytes_grows by (simp add: charge_remaining_bytes_def Let_def budget_grows_def)

lemma admit_request_grows: "budget_grows b (snd (admit_request b))"
  by (auto simp: budget_grows_def admit_request_def exhaust_def)

lemma budget_grows_exhaust [simp]: "budget_grows b (exhaust b)"
  by (auto simp: budget_grows_def exhaust_def)

lemma charge_bytes_Inr:
  "fst (charge_bytes n b) = Inr () \<longleftrightarrow>
     \<not> ru_cap_exceeded (bg_usage b) \<and> ru_bytes (bg_usage b) + n \<le> bg_max_bytes b
     \<and> ru_bytes (bg_usage b) + n \<le> U64_MAX"
  by (auto simp: charge_bytes_def Let_def)

section \<open>Navigations\<close>

record nav_tracker =
  nv_follow :: bool
  nv_max_redirects :: nat
  nv_first_seen :: bool
  nv_hops :: nat
  nv_too_many :: bool

definition new_tracker :: "bool \<Rightarrow> nat \<Rightarrow> nav_tracker" where
  "new_tracker follow max_redirects =
     \<lparr> nv_follow = follow, nv_max_redirects = max_redirects, nv_first_seen = False, nv_hops = 0,
       nv_too_many = False \<rparr>"

definition record_top_document_request :: "nav_tracker \<Rightarrow> (render_error, unit) result \<times> nav_tracker" where
  "record_top_document_request t =
     (if \<not> nv_first_seen t then (Inr (), t \<lparr> nv_first_seen := True \<rparr>)
      else if nv_follow t then
        (let t = t \<lparr> nv_hops := nv_hops t + 1 \<rparr>
         in if nv_max_redirects t < nv_hops t
            then (Inl (TooManyClientRedirects (nv_max_redirects t)), t \<lparr> nv_too_many := True \<rparr>)
            else (Inr (), t))
      else (Inr (), t))"

definition ensure_within_limit :: "nav_tracker \<Rightarrow> (render_error, unit) result" where
  "ensure_within_limit t =
     (if nv_too_many t then Inl (TooManyClientRedirects (nv_max_redirects t)) else Inr ())"

text \<open>The accepted documents of a run of the tracker.\<close>

fun accepted_documents :: "nat \<Rightarrow> nav_tracker \<Rightarrow> nat" where
  "accepted_documents 0 t = 0"
| "accepted_documents (Suc n) t =
     (case record_top_document_request t of
        (Inr _, t') \<Rightarrow> 1 + accepted_documents n t'
      | (Inl _, t') \<Rightarrow> accepted_documents n t')"

lemma accepted_after_first:
  assumes "nv_first_seen t" "nv_follow t"
  shows "accepted_documents n t = min n (nv_max_redirects t - nv_hops t)"
  using assms
proof (induction n arbitrary: t)
  case (Suc n)
  show ?case
  proof (cases "nv_max_redirects t < nv_hops t + 1")
    case True
    with Suc.prems Suc.IH[of "t \<lparr> nv_hops := nv_hops t + 1, nv_too_many := True \<rparr>"] show ?thesis
      by (simp add: record_top_document_request_def Let_def)
  next
    case False
    with Suc.prems Suc.IH[of "t \<lparr> nv_hops := nv_hops t + 1 \<rparr>"] show ?thesis
      by (auto simp: record_top_document_request_def Let_def min_def)
  qed
qed simp

lemma tracker_flag:
  assumes "record_top_document_request t = (r, t')" "nv_too_many t \<longleftrightarrow> nv_max_redirects t < nv_hops t"
  shows "nv_too_many t' \<longleftrightarrow> nv_max_redirects t' < nv_hops t'"
  using assms by (auto simp: record_top_document_request_def Let_def split: if_splits)

text \<open>
  With following on, the first document and at most \<open>max_redirects\<close> navigations after it are
  accepted, however many document requests the page makes; without following all are.
\<close>

theorem navigation_hops_bounded:
  "accepted_documents n (new_tracker follow m) = (if follow then min n (m + 1) else n)"
proof (cases n)
  case (Suc k)
  show ?thesis
  proof (cases follow)
    case True
    with Suc accepted_after_first[of "(new_tracker follow m) \<lparr> nv_first_seen := True \<rparr>" k] show ?thesis
      by (simp add: record_top_document_request_def new_tracker_def)
  next
    case False
    have "accepted_documents k (t \<lparr> nv_follow := False, nv_first_seen := True \<rparr>) = k" for t
      by (induction k) (simp_all add: record_top_document_request_def)
    from this[of "new_tracker follow m"] False Suc show ?thesis
      by (simp add: record_top_document_request_def new_tracker_def)
  qed
qed simp

section \<open>Pacing\<close>

record render_origin =
  ro_scheme :: string
  ro_host :: string
  ro_port :: nat

definition origin_of :: "'u url_ops \<Rightarrow> 'u \<Rightarrow> render_origin option" where
  "origin_of U u =
     (case (url_host_str U u, url_known_port U u) of
        (Some h, Some p) \<Rightarrow> Some \<lparr> ro_scheme = to_lower (url_scheme U u), ro_host = to_lower h, ro_port = p \<rparr>
      | _ \<Rightarrow> None)"

definition origin_for_url :: "'u url_ops \<Rightarrow> string \<Rightarrow> render_origin option" where
  "origin_for_url U raw = (case url_parse U raw of Inr u \<Rightarrow> origin_of U u | Inl _ \<Rightarrow> None)"

definition same_origin_url :: "'u url_ops \<Rightarrow> string \<Rightarrow> 'u \<Rightarrow> bool" where
  "same_origin_url U raw credential_origin =
     (case origin_for_url U raw of
        None \<Rightarrow> False
      | Some a \<Rightarrow> (case origin_for_url U (url_string U credential_origin) of
          None \<Rightarrow> False | Some b \<Rightarrow> a = b))"

text \<open>
  The clock reads and sleeps of a world. \<open>transmit\<close> returns its result and the world; a missing
  result says that the deadline came first.
\<close>

record 'w clock =
  ck_now :: "'w \<Rightarrow> nat \<times> 'w"
  ck_sleep :: "nat \<Rightarrow> 'w \<Rightarrow> 'w"

type_synonym pacer = "render_origin \<Rightarrow> nat option"

definition pacing_wait ::
    "'w clock \<Rightarrow> nat \<Rightarrow> nat \<Rightarrow> nat option \<Rightarrow> 'w \<Rightarrow> bool \<times> 'w" where
  "pacing_wait K delay deadline previous w =
     (case previous of
        None \<Rightarrow> (True, w)
      | Some p \<Rightarrow>
          (case ck_now K w of (t, w) \<Rightarrow>
             if t - p < delay then
               (case ck_now K w of (t', w) \<Rightarrow>
                  if deadline \<le> t' then (False, w)
                  else if deadline - t' \<le> delay - (t - p) then (False, w)
                  else (True, ck_sleep K (delay - (t - p)) w))
             else (True, w)))"

definition transmit ::
    "'u url_ops \<Rightarrow> 'w clock \<Rightarrow> string \<Rightarrow> nat \<Rightarrow> nat \<Rightarrow> ('w \<Rightarrow> 'r \<times> 'w) \<Rightarrow> pacer \<Rightarrow> 'w
     \<Rightarrow> 'r option \<times> pacer \<times> 'w" where
  "transmit U K raw_url delay deadline send pacer w =
     (if delay = 0 then (case send w of (r, w) \<Rightarrow> (Some r, pacer, w))
      else case origin_for_url U raw_url of
        None \<Rightarrow> (case send w of (r, w) \<Rightarrow> (Some r, pacer, w))
      | Some origin \<Rightarrow>
          (case pacing_wait K delay deadline (pacer origin) w of
             (False, w) \<Rightarrow> (None, pacer, w)
           | (True, w) \<Rightarrow>
               (case send w of (r, w) \<Rightarrow>
                  (case ck_now K w of (t, w) \<Rightarrow> (Some r, pacer(origin \<mapsto> t), w)))))"

text \<open>A clock that shows the time: reads lie between the times around them, sleeps are not cut short.\<close>

definition clock_ok :: "'w clock \<Rightarrow> ('w \<Rightarrow> nat) \<Rightarrow> bool" where
  "clock_ok K tm \<longleftrightarrow>
     (\<forall>w t w'. ck_now K w = (t, w') \<longrightarrow> tm w \<le> t \<and> t \<le> tm w')
     \<and> (\<forall>d w. tm w + d \<le> tm (ck_sleep K d w))"

lemma pacing_wait_time:
  assumes "clock_ok K tm" "pacing_wait K delay deadline previous w = (True, w')"
    and "\<And>p. previous = Some p \<Longrightarrow> p \<le> tm w"
  shows "tm w \<le> tm w' \<and> (\<forall>p. previous = Some p \<longrightarrow> p + delay \<le> tm w')"
proof (cases previous)
  case (Some p)
  obtain t w1 where n1: "ck_now K w = (t, w1)" by force
  with assms(1) have t: "tm w \<le> t" "t \<le> tm w1" by (auto simp: clock_ok_def)
  show ?thesis
  proof (cases "t - p < delay")
    case True
    obtain t2 w2 where n2: "ck_now K w1 = (t2, w2)" by force
    with assms(1) have t2: "tm w1 \<le> t2" "t2 \<le> tm w2" by (auto simp: clock_ok_def)
    have w': "w' = ck_sleep K (delay - (t - p)) w2"
      using assms(2) Some n1 n2 True by (auto simp: pacing_wait_def split: if_splits)
    have "tm w2 + (delay - (t - p)) \<le> tm w'" using assms(1) unfolding w' by (simp add: clock_ok_def)
    moreover have "p \<le> tm w" using assms(3) Some by simp
    ultimately show ?thesis using t t2 True Some by auto
  next
    case False
    with assms(2) Some n1 have "w' = w1" by (auto simp: pacing_wait_def)
    moreover have "p \<le> tm w" using assms(3) Some by simp
    ultimately show ?thesis using t False Some by auto
  qed
qed (use assms(2) in \<open>simp add: pacing_wait_def\<close>)

text \<open>
  One transmission after another, to any origins, with a log of the origin and the starting time of each.
\<close>

type_synonym send_log = "(render_origin option \<times> nat) list"

definition logged_clock :: "'w clock \<Rightarrow> ('w \<times> send_log) clock" where
  "logged_clock K =
     \<lparr> ck_now = (\<lambda>(w, l). case ck_now K w of (t, w') \<Rightarrow> (t, (w', l))),
       ck_sleep = (\<lambda>d (w, l). (ck_sleep K d w, l)) \<rparr>"

definition logged_send ::
    "('w \<Rightarrow> nat) \<Rightarrow> render_origin option \<Rightarrow> ('w \<Rightarrow> 'r \<times> 'w) \<Rightarrow> 'w \<times> send_log \<Rightarrow> 'r \<times> ('w \<times> send_log)" where
  "logged_send tm origin send = (\<lambda>(w, l). case send w of (r, w') \<Rightarrow> (r, (w', l @ [(origin, tm w)])))"

fun transmit_all ::
    "'u url_ops \<Rightarrow> 'w clock \<Rightarrow> ('w \<Rightarrow> nat) \<Rightarrow> nat \<Rightarrow> nat \<Rightarrow> (string \<times> ('w \<Rightarrow> 'r \<times> 'w)) list
     \<Rightarrow> pacer \<Rightarrow> 'w \<times> send_log \<Rightarrow> pacer \<times> ('w \<times> send_log)" where
  "transmit_all U K tm delay deadline [] pacer s = (pacer, s)"
| "transmit_all U K tm delay deadline ((url, send) # rs) pacer s =
     (case transmit U (logged_clock K) url delay deadline (logged_send tm (origin_for_url U url) send) pacer s of
        (_, pacer', s') \<Rightarrow> transmit_all U K tm delay deadline rs pacer' s')"

text \<open>The times at which the transmissions to one origin started.\<close>

definition starts_to :: "render_origin \<Rightarrow> send_log \<Rightarrow> nat list" where
  "starts_to org l = map snd (filter (\<lambda>(origin, t). origin = Some org) l)"

lemma starts_to_snoc:
  "starts_to org (l @ [(origin, t)]) = starts_to org l @ (if origin = Some org then [t] else [])"
  by (simp add: starts_to_def)

lemma starts_to_Nil [simp]: "starts_to org [] = []"
  by (simp add: starts_to_def)

definition spaced :: "nat \<Rightarrow> nat list \<Rightarrow> bool" where
  "spaced delay ts \<longleftrightarrow> (\<forall>i. Suc i < length ts \<longrightarrow> ts ! i + delay \<le> ts ! Suc i)"

lemma spaced_snoc:
  assumes "spaced delay ts" "ts = [] \<or> last ts + delay \<le> t"
  shows "spaced delay (ts @ [t])"
  unfolding spaced_def
proof (intro allI impI)
  fix i assume "Suc i < length (ts @ [t])"
  then consider "Suc i < length ts" | "Suc i = length ts" by force
  then show "(ts @ [t]) ! i + delay \<le> (ts @ [t]) ! Suc i"
  proof cases
    case 1
    with assms(1) show ?thesis by (simp add: spaced_def nth_append)
  next
    case 2
    then have ne: "ts \<noteq> []" by auto
    then have "last ts = ts ! i" using 2[symmetric] by (simp add: last_conv_nth)
    with ne 2 assms(2) show ?thesis by (simp add: nth_append)
  qed
qed

text \<open>For every origin: what the pacer remembers of it, and how its transmissions lie.\<close>

definition pacer_ok :: "('w \<Rightarrow> nat) \<Rightarrow> nat \<Rightarrow> pacer \<Rightarrow> 'w \<times> send_log \<Rightarrow> bool" where
  "pacer_ok tm delay pacer s \<longleftrightarrow>
     (\<forall>org. spaced delay (starts_to org (snd s))
        \<and> (\<forall>p. pacer org = Some p \<longrightarrow> p \<le> tm (fst s) \<and> Some org \<in> fst ` set (snd s))
        \<and> (starts_to org (snd s) \<noteq> [] \<longrightarrow> (\<exists>p. pacer org = Some p \<and> last (starts_to org (snd s)) \<le> p)))"

lemma clock_ok_logged: "clock_ok K tm \<Longrightarrow> clock_ok (logged_clock K) (\<lambda>s. tm (fst s))"
  by (auto simp: clock_ok_def logged_clock_def split: prod.splits)

lemma pacing_wait_log:
  "pacing_wait (logged_clock K) delay deadline previous s = (b, s') \<Longrightarrow> snd s' = snd s"
  by (auto simp: pacing_wait_def logged_clock_def split: option.splits prod.splits if_splits)

lemma pacing_wait_mono:
  assumes "clock_ok K tm" "pacing_wait K delay deadline previous w = (b, w')"
  shows "tm w \<le> tm w'"
proof -
  have n: "tm w \<le> tm w'" if "ck_now K w = (t, w')" for w t w'
    using assms(1) that le_trans unfolding clock_ok_def by blast
  have sl: "tm w \<le> tm (ck_sleep K d w)" for w d
    using assms(1) add_leD1 unfolding clock_ok_def by blast
  show ?thesis
  proof (cases previous)
    case None
    with assms(2) show ?thesis by (simp add: pacing_wait_def)
  next
    case (Some p)
    obtain t w1 where n1: "ck_now K w = (t, w1)" by (metis surj_pair)
    obtain t2 w2 where n2: "ck_now K w1 = (t2, w2)" by (metis surj_pair)
    have "w' \<in> {w1, w2, ck_sleep K (delay - (t - p)) w2}"
      using assms(2) Some n1 n2 by (auto simp: pacing_wait_def split: if_splits)
    then show ?thesis using n[OF n1] n[OF n2] sl[of w2 "delay - (t - p)"] by auto
  qed
qed

text \<open>A transmission that starts, to an origin or to none.\<close>

lemma pacer_ok_unpaced:
  assumes "pacer_ok tm delay pacer (w, l)" "tm w \<le> tm w'"
  shows "pacer_ok tm delay pacer (w', l @ [(None, t)])"
  using assms by (force simp: pacer_ok_def starts_to_snoc)

lemma pacer_ok_sent:
  assumes ok: "pacer_ok tm delay pacer (w, l)" and p: "\<forall>p. pacer org = Some p \<longrightarrow> p + delay \<le> t"
    and t: "t \<le> t2" "t2 \<le> tm w'" "tm w \<le> tm w'"
  shows "pacer_ok tm delay (pacer(org \<mapsto> t2)) (w', l @ [(Some org, t)])"
proof -
  have "spaced delay (starts_to org l @ [t])"
    by (rule spaced_snoc) (use ok p in \<open>force simp: pacer_ok_def\<close>)+
  then show ?thesis using ok t by (fastforce simp: pacer_ok_def starts_to_snoc)
qed

lemma transmit_pacer_ok:
  assumes c: "clock_ok K tm" and d: "0 < delay"
    and m: "\<And>w. tm w \<le> tm (snd (send w))" and ok: "pacer_ok tm delay pacer s"
    and t: "transmit U (logged_clock K) url delay deadline (logged_send tm (origin_for_url U url) send) pacer s
      = (r, pacer', s')"
  shows "pacer_ok tm delay pacer' s' \<and> origin_for_url U url \<in> fst ` set (snd s')
     \<and> (snd s' = snd s \<or> (\<exists>t. snd s' = snd s @ [(origin_for_url U url, t)]))"
proof (cases "origin_for_url U url")
  case None
  obtain x w' where se: "send (fst s) = (x, w')" by force
  with t d None have "pacer' = pacer" "s' = (w', snd s @ [(None, tm (fst s))])"
    by (auto simp: transmit_def logged_send_def split: prod.splits)
  moreover have "tm (fst s) \<le> tm w'" using m[of "fst s"] se by simp
  ultimately show ?thesis using pacer_ok_unpaced[of tm delay pacer "fst s" "snd s"] ok None by simp
next
  case (Some org)
  let ?tm = "\<lambda>s. tm (fst s)"
  note lc = clock_ok_logged[OF c]
  obtain b s1 where w: "pacing_wait (logged_clock K) delay deadline (pacer org) s = (b, s1)"
    by (metis surj_pair)
  from pacing_wait_log[OF w] have l: "snd s1 = snd s" .
  from pacing_wait_mono[OF lc w] have mono: "?tm s \<le> ?tm s1" .
  show ?thesis
  proof (cases b)
    case False
    with t d Some w have e: "pacer' = pacer" "s' = s1" by (auto simp: transmit_def)
    moreover have "pacer org \<noteq> None" using w False by (cases "pacer org") (auto simp: pacing_wait_def)
    ultimately show ?thesis using ok l mono Some by (fastforce simp: pacer_ok_def)
  next
    case True
    with w have w: "pacing_wait (logged_clock K) delay deadline (pacer org) s = (True, s1)" by simp
    have time: "\<forall>p. pacer org = Some p \<longrightarrow> p + delay \<le> ?tm s1"
      using pacing_wait_time[OF lc w] ok by (auto simp: pacer_ok_def)
    obtain x w2 where se: "send (fst s1) = (x, w2)" by force
    obtain t2 w3 where nw: "ck_now K w2 = (t2, w3)" by force
    from t d Some w se nw have p: "pacer' = pacer(org \<mapsto> t2)" and s': "s' = (w3, snd s1 @ [(Some org, tm (fst s1))])"
      by (auto simp: transmit_def logged_send_def logged_clock_def split: prod.splits)
    have "tm (fst s1) \<le> tm w2" using m[of "fst s1"] se by simp
    moreover have "tm w2 \<le> t2" "t2 \<le> tm w3" using c nw by (auto simp: clock_ok_def)
    ultimately show ?thesis
      using pacer_ok_sent[of tm delay pacer "fst s" "snd s" org "tm (fst s1)" t2 w3] ok time mono l Some
      by (simp add: p s')
  qed
qed

text \<open>
  C27: The pacer keeps the crawl delay of every origin apart. However many transmissions are attempted, direct or from
  the browser and to whatever origins in whatever order, the starts of any two consecutive ones to one origin are at
  least the delay apart, whatever went to other origins in between; the transmissions may take any time and may fail.
  The ones that start are among those attempted, in their order, and no origin is left out: at least one transmission
  to each starts, those that cannot start before the deadline are dropped.
\<close>

theorem transmissions_spaced:
  assumes "clock_ok K tm" and "0 < delay"
    and "\<And>url send w. (url, send) \<in> set rs \<Longrightarrow> tm w \<le> tm (snd (send w))"
    and "transmit_all U K tm delay deadline rs Map.empty (w, []) = (pacer, (w', sends))"
  shows "(\<forall>org. spaced delay (starts_to org sends))
     \<and> subseq (map fst sends) (map (\<lambda>(url, send). origin_for_url U url) rs)
     \<and> set (map fst sends) = set (map (\<lambda>(url, send). origin_for_url U url) rs)"
proof -
  let ?o = "\<lambda>(url, send). origin_for_url U url"
  have inv: "pacer_ok tm delay q s \<Longrightarrow> transmit_all U K tm delay deadline rs q s = (pacer, s')
      \<Longrightarrow> \<forall>(url, send) \<in> set rs. \<forall>w. tm w \<le> tm (snd (send w))
      \<Longrightarrow> pacer_ok tm delay pacer s' \<and> ?o ` set rs \<subseteq> fst ` set (snd s')
        \<and> (\<exists>more. snd s' = snd s @ more \<and> subseq (map fst more) (map ?o rs))" for q s s'
  proof (induction rs arbitrary: q s)
    case (Cons r rs)
    obtain url send where r: "r = (url, send)" by force
    obtain x q1 s1 where t: "transmit U (logged_clock K) url delay deadline
        (logged_send tm (origin_for_url U url) send) q s = (x, q1, s1)" by (metis prod_cases3)
    have one: "pacer_ok tm delay q1 s1 \<and> origin_for_url U url \<in> fst ` set (snd s1)
      \<and> (snd s1 = snd s \<or> (\<exists>t. snd s1 = snd s @ [(origin_for_url U url, t)]))"
      by (rule transmit_pacer_ok[OF assms(1,2) _ Cons.prems(1) t]) (use Cons.prems(3) r in auto)
    have rest: "pacer_ok tm delay pacer s' \<and> ?o ` set rs \<subseteq> fst ` set (snd s')
        \<and> (\<exists>more. snd s' = snd s1 @ more \<and> subseq (map fst more) (map ?o rs))"
      by (rule Cons.IH[OF conjunct1[OF one]]) (use Cons.prems t r in auto)
    then obtain more where more: "snd s' = snd s1 @ more" "subseq (map fst more) (map ?o rs)" by blast
    have "\<exists>more. snd s' = snd s @ more \<and> subseq (map fst more) (map ?o (r # rs))"
      using one more by (auto simp: r)
    with one rest more(1) show ?case by (auto simp: r)
  qed simp
  have z: "pacer_ok tm delay Map.empty (w, [])" by (simp add: pacer_ok_def spaced_def)
  have m: "\<forall>(url, send) \<in> set rs. \<forall>w. tm w \<le> tm (snd (send w))" using assms(3) by blast
  from inv[OF z assms(4) m] have i: "pacer_ok tm delay pacer (w', sends)" "?o ` set rs \<subseteq> fst ` set sends"
    and sub: "subseq (map fst sends) (map ?o rs)" by simp_all
  have "set (map fst sends) \<subseteq> set (map ?o rs)" using list_emb_set[OF sub] by blast
  with i(2) have "set (map fst sends) = set (map ?o rs)" by auto
  with i(1) sub show ?thesis by (simp add: pacer_ok_def)
qed

section \<open>A concrete clock\<close>

definition demo_clock :: "nat clock" where
  "demo_clock = \<lparr> ck_now = (\<lambda>w. (w, w)), ck_sleep = (\<lambda>d w. w + d) \<rparr>"

lemma demo_clock_ok: "clock_ok demo_clock id"
  by (simp add: clock_ok_def demo_clock_def)

definition demo_send :: "nat \<Rightarrow> unit \<times> nat" where
  "demo_send w = ((), w + 3)"

theorem transmissions_spaced_witness:
  "\<exists>pacer w' sends org.
     transmit_all demo_url_ops demo_clock id 10 100
       [(''https://a.example/x'', demo_send), (''https://b.example/y'', demo_send), (''https://a.example/z'', demo_send)]
       Map.empty (5, []) = (pacer, (w', sends)) \<and> spaced 10 (starts_to org sends) \<and> length (starts_to org sends) = 2"
proof -
  let ?rs = "[(''https://a.example/x'', demo_send), (''https://b.example/y'', demo_send), (''https://a.example/z'', demo_send)]"
  let ?a = "\<lparr> ro_scheme = ''https'', ro_host = ''a.example'', ro_port = 443 \<rparr>"
  let ?b = "\<lparr> ro_scheme = ''https'', ro_host = ''b.example'', ro_port = 443 \<rparr>"
  have o: "origin_for_url demo_url_ops ''https://a.example/x'' = Some ?a"
    "origin_for_url demo_url_ops ''https://b.example/y'' = Some ?b"
    "origin_for_url demo_url_ops ''https://a.example/z'' = Some ?a" by code_simp+
  obtain pacer w' sends where r: "transmit_all demo_url_ops demo_clock id 10 100 ?rs Map.empty (5, [])
      = (pacer, (w', sends))" and n: "length (starts_to ?a sends) = 2"
    by (simp add: transmit_def o pacing_wait_def logged_clock_def demo_clock_def logged_send_def demo_send_def starts_to_def)
  have "\<forall>org. spaced 10 (starts_to org sends)"
    by (rule conjunct1[OF transmissions_spaced[OF demo_clock_ok _ _ r]]) (auto simp: demo_send_def)
  with r n show ?thesis by blast
qed

end
