(* ===== verification/Render_Guard.thy ===== *)
theory Render_Guard
  imports Render_Budget Ordered_Map
begin

text \<open>
  The request guard of \<^verbatim>\<open>configure_resource_guard\<close> (\<^verbatim>\<open>basecrawl-render/src/lib.rs\<close>): Chromium pauses
  every request and every response, the guard decides, and a deferred decision runs later on another
  thread. The interception callbacks, the deferred closures and the byte events are the steps of a
  relation over the shared state. What Chromium reports (a pause, a body, received bytes, whether a
  continuation was late) is the choice of a step; \<open>gs_effects\<close> records what the guard did, and the bytes
that the events of a metered response reported.
\<close>

section \<open>Requests and responses\<close>

record paused =
  pr_id :: string
  pr_is_document :: bool
  pr_frame :: string
  pr_url :: string
  pr_headers :: "json option"
  pr_status :: "nat option"
  pr_response_headers :: "(string \<times> string) list option"
  pr_network_id :: "string option"

definition declared_content_length :: "(string \<times> string) list \<Rightarrow> nat option" where
  "declared_content_length headers =
     (case find (\<lambda>(n, v). eq_ic n ''content-length'') headers of
        None \<Rightarrow> None
      | Some (n, v) \<Rightarrow> parse_unsigned 10 U64_MAX (trim v))"

definition has_chunked_transfer :: "(string \<times> string) list \<Rightarrow> bool" where
  "has_chunked_transfer headers =
     list_ex (\<lambda>(n, v). eq_ic n ''transfer-encoding''
       \<and> list_ex (\<lambda>token. eq_ic (trim token) ''chunked'') (split_on (CHR '','') v)) headers"

text \<open>The parameter \<open>decode\<close> is the base64 decoder.\<close>

definition observed_body_len :: "(string \<Rightarrow> string option) \<Rightarrow> string \<Rightarrow> bool \<Rightarrow> nat option" where
  "observed_body_len decode body base64_encoded =
     (if base64_encoded then map_option length (decode body) else Some (length body))"

text \<open>The parameter \<open>show_json\<close> is the text of a JSON value that is not a string.\<close>

definition browser_headers :: "(json \<Rightarrow> string) \<Rightarrow> json option \<Rightarrow> (string \<times> string) list" where
  "browser_headers show_json headers =
     (case headers of
        Some (JObj m) \<Rightarrow> map (\<lambda>(n, v). (n, case jstr v of Some s \<Rightarrow> s | None \<Rightarrow> show_json v)) m
      | _ \<Rightarrow> [])"

definition effective_continue_headers ::
    "'u url_ops \<Rightarrow> (json \<Rightarrow> string) \<Rightarrow> (string \<times> string) list \<Rightarrow> 'u \<Rightarrow> paused \<Rightarrow> (string \<times> string) list" where
  "effective_continue_headers U show_json effective_headers credential_origin p =
     (let same = same_origin_url U (pr_url p) credential_origin;
          kept = filter (\<lambda>(h, _). \<not> list_ex (\<lambda>(name, _). eq_ic h name
                     \<and> (same \<or> \<not> eq_ic name ''user-agent'')) effective_headers)
                   (browser_headers show_json (pr_headers p))
      in kept @ (if same then effective_headers else []))"

lemma cross_origin_headers:
  assumes "\<not> same_origin_url U (pr_url p) credential_origin"
    and "(h, v) \<in> set (effective_continue_headers U show_json hs credential_origin p)"
  shows "(h, v) \<in> set (browser_headers show_json (pr_headers p))
     \<and> (\<forall>(name, _) \<in> set hs. eq_ic h name \<longrightarrow> eq_ic name ''user-agent'')"
  using assms by (auto simp: effective_continue_headers_def list_ex_iff)

section \<open>The shared state\<close>

record response_meter =
  mt_observed :: nat
  mt_max_document_bytes :: nat
  mt_is_document :: bool

datatype deferred_task =
    ContinueTask paused "(string \<times> string) list"
  | BodyTask paused
  | ChargeTask paused nat nat

datatype guard_effect =
    Refused string
  | Transmitted paused "(string \<times> string) list"
  | Passed string
  | Fulfilled paused nat
  | Received string nat

record 'u guard_config =
  gc_max_document_bytes :: nat
  gc_headers :: "(string \<times> string) list"
  gc_policy :: "('u \<Rightarrow> (string, unit) result) option"
  gc_credential_origin :: 'u
  gc_top_frame :: string

record guard_state =
  gs_budget :: render_budget
  gs_meters :: "string \<Rightarrow> response_meter option"
  gs_denial :: "string option"
  gs_nav :: nav_tracker
  gs_late :: bool
  gs_closing :: bool
  gs_tasks :: "deferred_task list"
  gs_effects :: "guard_effect list"

definition emit :: "guard_effect \<Rightarrow> guard_state \<Rightarrow> guard_state" where
  "emit e s = s \<lparr> gs_effects := gs_effects s @ [e] \<rparr>"

definition with_budget :: "(render_budget \<Rightarrow> render_budget) \<Rightarrow> guard_state \<Rightarrow> guard_state" where
  "with_budget f s = s \<lparr> gs_budget := f (gs_budget s) \<rparr>"

definition guard_init :: "render_budget \<Rightarrow> nav_tracker \<Rightarrow> guard_state" where
  "guard_init b t =
     \<lparr> gs_budget = b, gs_meters = Map.empty, gs_denial = None, gs_nav = t, gs_late = False,
       gs_closing = False, gs_tasks = [], gs_effects = [] \<rparr>"

section \<open>Pauses\<close>

text \<open>The meter of a response, and the decision to read its body.\<close>

definition start_meter :: "'u guard_config \<Rightarrow> paused \<Rightarrow> guard_state \<Rightarrow> guard_state" where
  "start_meter C p s =
     (case pr_network_id p of
        None \<Rightarrow> s
      | Some n \<Rightarrow> s \<lparr> gs_meters := (gs_meters s)(n \<mapsto>
          \<lparr> mt_observed = 0, mt_max_document_bytes = gc_max_document_bytes C,
            mt_is_document = pr_is_document p \<rparr>) \<rparr>)"

definition queue_body :: "paused \<Rightarrow> guard_state \<Rightarrow> guard_state" where
  "queue_body p s = (with_budget begin_body_account s) \<lparr> gs_tasks := gs_tasks s @ [BodyTask p] \<rparr>"

text \<open>A pause at the response stage.\<close>

definition response_paused :: "'u guard_config \<Rightarrow> paused \<Rightarrow> guard_state \<Rightarrow> guard_state" where
  "response_paused C p s =
     (let headers = (case pr_response_headers p of Some hs \<Rightarrow> hs | None \<Rightarrow> []);
          declared = (case declared_content_length headers of Some n \<Rightarrow> n | None \<Rightarrow> 0);
          document_limit = (if pr_is_document p then gc_max_document_bytes C else U64_MAX);
          early_limit = (case remaining_bytes (gs_budget s) of
                           Inr r \<Rightarrow> Some (min r document_limit) | Inl _ \<Rightarrow> None)
      in if early_limit = None \<or> the early_limit < declared
         then emit (Refused (pr_id p)) (with_budget exhaust s)
         else
           let s = start_meter C p s
           in if \<not> (declared_content_length headers = None \<or> has_chunked_transfer headers)
              then emit (Passed (pr_id p)) s
              else queue_body p s)"

definition is_top_document :: "'u guard_config \<Rightarrow> paused \<Rightarrow> bool" where
  "is_top_document C p \<longleftrightarrow> pr_is_document p \<and> pr_frame p = gc_top_frame C"

definition policy_verdict :: "'u url_ops \<Rightarrow> (string \<Rightarrow> string) \<Rightarrow> 'u guard_config \<Rightarrow> paused \<Rightarrow> (string, unit) result" where
  "policy_verdict U parse_error C p =
     (case gc_policy C of
        None \<Rightarrow> Inr ()
      | Some policy \<Rightarrow> (case url_parse U (pr_url p) of
            Inl _ \<Rightarrow> Inl (parse_error (pr_url p)) | Inr target \<Rightarrow> policy target))"

text \<open>The admission of a request under the request cap, and the decision to continue it.\<close>

definition admit_paused :: "'u url_ops \<Rightarrow> (json \<Rightarrow> string) \<Rightarrow> 'u guard_config \<Rightarrow> paused \<Rightarrow> guard_state \<Rightarrow> guard_state" where
  "admit_paused U show_json C p s =
     (case admit_request (gs_budget s) of
        (False, b) \<Rightarrow> emit (Refused (pr_id p)) (s \<lparr> gs_budget := b \<rparr>)
      | (True, b) \<Rightarrow> s \<lparr> gs_budget := b, gs_tasks := gs_tasks s @ [ContinueTask p
            (effective_continue_headers U show_json (gc_headers C) (gc_credential_origin C) p)] \<rparr>)"

text \<open>A pause at the request stage; \<open>parse_error\<close> is the text of a URL parse error.\<close>

definition request_paused ::
    "'u url_ops \<Rightarrow> (string \<Rightarrow> string) \<Rightarrow> (json \<Rightarrow> string) \<Rightarrow> 'u guard_config \<Rightarrow> paused \<Rightarrow> guard_state \<Rightarrow> guard_state" where
  "request_paused U parse_error show_json C p s =
     (let top = is_top_document C p;
          verdict = (if top then policy_verdict U parse_error C p else Inr ())
      in case verdict of
           Inl e \<Rightarrow> emit (Refused (pr_id p)) (s \<lparr> gs_denial := Some e \<rparr>)
         | Inr _ \<Rightarrow>
             if top then
               (case record_top_document_request (gs_nav s) of
                  (Inl _, t) \<Rightarrow> emit (Refused (pr_id p)) (s \<lparr> gs_nav := t \<rparr>)
                | (Inr _, t) \<Rightarrow> admit_paused U show_json C p (s \<lparr> gs_nav := t \<rparr>))
             else admit_paused U show_json C p s)"

text \<open>The interception callback: a pause with a response status is one of the response stage.\<close>

definition intercept ::
    "'u url_ops \<Rightarrow> (string \<Rightarrow> string) \<Rightarrow> (json \<Rightarrow> string) \<Rightarrow> 'u guard_config \<Rightarrow> paused \<Rightarrow> guard_state \<Rightarrow> guard_state" where
  "intercept U parse_error show_json C p s =
     (if pr_status p \<noteq> None then response_paused C p s else request_paused U parse_error show_json C p s)"

section \<open>Deferred decisions and byte events\<close>

text \<open>The continuation of a request: transmitted, or late for the deadline.\<close>

definition run_continue :: "bool \<Rightarrow> paused \<Rightarrow> (string \<times> string) list \<Rightarrow> guard_state \<Rightarrow> guard_state" where
  "run_continue late p hs s =
     (let s = (if late then emit (Refused (pr_id p)) (s \<lparr> gs_late := True \<rparr>)
               else emit (Transmitted p hs) s)
      in case ensure_within_limit (gs_nav s) of
           Inr _ \<Rightarrow> s | Inl _ \<Rightarrow> emit (Refused (pr_id p)) s)"

definition give_up_body :: "paused \<Rightarrow> guard_state \<Rightarrow> guard_state" where
  "give_up_body p s = with_budget finish_body_account (emit (Refused (pr_id p)) (with_budget exhaust s))"

text \<open>The bytes that the events of a response have charged so far.\<close>

definition already_charged :: "guard_state \<Rightarrow> paused \<Rightarrow> nat" where
  "already_charged s p =
     (case Option.bind (pr_network_id p) (gs_meters s) of Some m \<Rightarrow> mt_observed m | None \<Rightarrow> 0)"

definition over_document :: "'u guard_config \<Rightarrow> paused \<Rightarrow> nat \<Rightarrow> bool" where
  "over_document C p observed \<longleftrightarrow> pr_is_document p \<and> gc_max_document_bytes C < observed"

definition raise_meter :: "paused \<Rightarrow> nat \<Rightarrow> guard_state \<Rightarrow> guard_state" where
  "raise_meter p observed s =
     (case pr_network_id p of
        None \<Rightarrow> s
      | Some n \<Rightarrow> (case gs_meters s n of
          None \<Rightarrow> s
        | Some m \<Rightarrow> s \<lparr> gs_meters := (gs_meters s)(n \<mapsto> m \<lparr> mt_observed := max observed (mt_observed m) \<rparr>) \<rparr>))"

text \<open>The charge of a materialised body, and its delivery to the page.\<close>

definition charge_body :: "'u guard_config \<Rightarrow> paused \<Rightarrow> nat \<Rightarrow> nat \<Rightarrow> guard_state \<Rightarrow> guard_state" where
  "charge_body C p observed already s =
     (if over_document C p observed then give_up_body p s
      else case charge_remaining_bytes observed already (gs_budget s) of
        (Inl _, b) \<Rightarrow> give_up_body p (s \<lparr> gs_budget := b \<rparr>)
      | (Inr _, b) \<Rightarrow>
          with_budget finish_body_account
            (emit (Fulfilled p observed) (raise_meter p observed (s \<lparr> gs_budget := b \<rparr>))))"

text \<open>\<^verbatim>\<open>Network.dataReceived\<close>; the numbers are 32-bit.\<close>

definition data_received :: "string \<Rightarrow> nat \<Rightarrow> nat \<Rightarrow> guard_state \<Rightarrow> guard_state" where
  "data_received n encoded_len data_len s =
     (let bytes = (if encoded_len = 0 then data_len else encoded_len);
          over = (\<lambda>s. (with_budget exhaust s) \<lparr> gs_closing := True \<rparr>)
      in if bytes = 0 then s
         else case gs_meters s n of
           None \<Rightarrow> s
         | Some m \<Rightarrow>
             let s = emit (Received n bytes) s; total = mt_observed m + bytes
             in if U64_MAX < total then over s
                else if mt_is_document m \<and> mt_max_document_bytes m < total then over s
                else case charge_bytes bytes (gs_budget s) of
                  (Inl _, b) \<Rightarrow> over (s \<lparr> gs_budget := b \<rparr>)
                | (Inr _, b) \<Rightarrow>
                    s \<lparr> gs_budget := b, gs_meters := (gs_meters s)(n \<mapsto> m \<lparr> mt_observed := total \<rparr>) \<rparr>)"

inductive guard_step ::
    "'u url_ops \<Rightarrow> (string \<Rightarrow> string) \<Rightarrow> (json \<Rightarrow> string) \<Rightarrow> (string \<Rightarrow> string option) \<Rightarrow> 'u guard_config
     \<Rightarrow> guard_state \<Rightarrow> guard_state \<Rightarrow> bool"
  for U parse_error show_json decode C where
  intercepted: "guard_step U parse_error show_json decode C s (intercept U parse_error show_json C p s)"
| continued: "gs_tasks s = ts @ ContinueTask p hs # us \<Longrightarrow>
    guard_step U parse_error show_json decode C s (run_continue late p hs (s \<lparr> gs_tasks := ts @ us \<rparr>))"
| body_failed: "gs_tasks s = ts @ BodyTask p # us \<Longrightarrow>
    guard_step U parse_error show_json decode C s (give_up_body p (s \<lparr> gs_tasks := ts @ us \<rparr>))"
| body_undecodable: "gs_tasks s = ts @ BodyTask p # us \<Longrightarrow> observed_body_len decode body b64 = None \<Longrightarrow>
    guard_step U parse_error show_json decode C s (give_up_body p (s \<lparr> gs_tasks := ts @ us \<rparr>))"
| body_read: "gs_tasks s = ts @ BodyTask p # us \<Longrightarrow> observed_body_len decode body b64 = Some observed \<Longrightarrow>
    guard_step U parse_error show_json decode C s
      (s \<lparr> gs_tasks := ts @ ChargeTask p observed (already_charged s p) # us \<rparr>)"
| body_charged: "gs_tasks s = ts @ ChargeTask p observed already # us \<Longrightarrow>
    guard_step U parse_error show_json decode C s
      (charge_body C p observed already (s \<lparr> gs_tasks := ts @ us \<rparr>))"
| received: "guard_step U parse_error show_json decode C s (data_received n encoded_len data_len s)"

section \<open>What the guard keeps\<close>

definition is_continue :: "deferred_task \<Rightarrow> bool" where
  "is_continue t = (case t of ContinueTask _ _ \<Rightarrow> True | _ \<Rightarrow> False)"

definition is_transmitted :: "guard_effect \<Rightarrow> bool" where
  "is_transmitted e = (case e of Transmitted _ _ \<Rightarrow> True | _ \<Rightarrow> False)"

definition admitted_requests :: "guard_state \<Rightarrow> nat" where
  "admitted_requests s =
     length (filter is_continue (gs_tasks s)) + length (filter is_transmitted (gs_effects s))"

definition open_bodies :: "guard_state \<Rightarrow> nat" where
  "open_bodies s = length (filter (\<lambda>t. \<not> is_continue t) (gs_tasks s))"

lemmas guard_ops =
  emit_def with_budget_def give_up_body_def exhaust_def begin_body_account_def finish_body_account_def
  raise_meter_def is_continue_def is_transmitted_def

text \<open>
  \<open>j\<close> is the number of decisions and \<open>k\<close> the number of bodies that a step has taken from the queue
  and is still at work on.
\<close>

definition guard_ok :: "nat \<Rightarrow> nat \<Rightarrow> nat \<Rightarrow> nat \<Rightarrow> guard_state \<Rightarrow> bool" where
  "guard_ok m n j k s \<longleftrightarrow>
     budget_ok (gs_budget s) \<and> bg_max_requests (gs_budget s) = m \<and> bg_max_bytes (gs_budget s) = n
     \<and> admitted_requests s + j \<le> ru_count (bg_usage (gs_budget s))
     \<and> bg_pending (gs_budget s) = of_nat (open_bodies s + k)"

lemma charge_keeps:
  "bg_max_requests (snd (charge_bytes x b)) = bg_max_requests b"
  "bg_max_bytes (snd (charge_bytes x b)) = bg_max_bytes b"
  "ru_count (bg_usage (snd (charge_bytes x b))) = ru_count (bg_usage b)"
  "bg_pending (snd (charge_bytes x b)) = bg_pending b"
  by (simp_all add: charge_bytes_def Let_def exhaust_def)

lemma guard_ok_budget:
  "guard_ok m n j k s \<Longrightarrow> guard_ok m n j k (s \<lparr> gs_budget := snd (charge_bytes x (gs_budget s)) \<rparr>)"
  by (simp add: guard_ok_def admitted_requests_def open_bodies_def charge_keeps charge_bytes_ok)

lemma guard_ok_remaining:
  "guard_ok m n j k s \<Longrightarrow> guard_ok m n j k (s \<lparr> gs_budget := snd (charge_remaining_bytes t a (gs_budget s)) \<rparr>)"
  using guard_ok_budget by (simp add: charge_remaining_bytes_def Let_def)

lemma guard_ok_simps [simp]:
  "guard_ok m n j k (with_budget exhaust s) = guard_ok m n j k s"
  "guard_ok m n j k (emit (Refused r) s) = guard_ok m n j k s"
  "guard_ok m n j k (emit (Passed r) s) = guard_ok m n j k s"
  "guard_ok m n j k (emit (Fulfilled q l) s) = guard_ok m n j k s"
  "guard_ok m n j k (emit (Received r l) s) = guard_ok m n j k s"
  "guard_ok m n j k (s \<lparr> gs_meters := M \<rparr>) = guard_ok m n j k s"
  "guard_ok m n j k (s \<lparr> gs_denial := d \<rparr>) = guard_ok m n j k s"
  "guard_ok m n j k (s \<lparr> gs_nav := t \<rparr>) = guard_ok m n j k s"
  "guard_ok m n j k (s \<lparr> gs_late := f \<rparr>) = guard_ok m n j k s"
  "guard_ok m n j k (s \<lparr> gs_closing := f \<rparr>) = guard_ok m n j k s"
  by (simp_all add: guard_ok_def admitted_requests_def open_bodies_def guard_ops budget_ok_def)

lemma guard_ok_sent: "guard_ok m n (Suc j) k s \<Longrightarrow> guard_ok m n j k (emit (Transmitted p hs) s)"
  by (simp add: guard_ok_def admitted_requests_def open_bodies_def guard_ops)

lemma guard_ok_less: "guard_ok m n (Suc j) k s \<Longrightarrow> guard_ok m n j k s"
  by (simp add: guard_ok_def)

lemma guard_ok_finish: "guard_ok m n j (Suc k) s \<Longrightarrow> guard_ok m n j k (with_budget finish_body_account s)"
  by (simp add: guard_ok_def admitted_requests_def open_bodies_def with_budget_def finish_body_account_def
      budget_ok_def)

lemma guard_ok_give_up: "guard_ok m n j (Suc k) s \<Longrightarrow> guard_ok m n j k (give_up_body p s)"
  by (simp add: give_up_body_def guard_ok_finish)

lemma guard_ok_raise [simp]: "guard_ok m n j k (raise_meter p x s) = guard_ok m n j k s"
  by (simp add: raise_meter_def split: option.split)

lemma guard_ok_take:
  assumes "gs_tasks s = ts @ t # us" "guard_ok m n 0 0 s"
  shows "guard_ok m n (if is_continue t then 1 else 0) (if is_continue t then 0 else 1) (s \<lparr> gs_tasks := ts @ us \<rparr>)"
  using assms by (cases "is_continue t") (simp_all add: guard_ok_def admitted_requests_def open_bodies_def)

lemma guard_ok_response:
  assumes "guard_ok m n 0 0 s"
  shows "guard_ok m n 0 0 (response_paused C p s)"
proof -
  have "guard_ok m n 0 0 (queue_body p (start_meter C p s))"
    using assms by (simp add: guard_ok_def admitted_requests_def open_bodies_def queue_body_def start_meter_def
        guard_ops budget_ok_def split: option.split)
  moreover have "guard_ok m n 0 0 (start_meter C p s)"
    using assms by (simp add: start_meter_def split: option.split)
  ultimately show ?thesis
    using assms by (simp add: response_paused_def Let_def)
qed

lemma guard_ok_admit: "guard_ok m n 0 0 s \<Longrightarrow> guard_ok m n 0 0 (admit_paused U show_json C p s)"
  by (auto simp: admit_paused_def admit_request_def guard_ok_def admitted_requests_def open_bodies_def
      guard_ops budget_ok_def)

lemma guard_ok_request:
  assumes "guard_ok m n 0 0 s"
  shows "guard_ok m n 0 0 (request_paused U parse_error show_json C p s)"
  unfolding request_paused_def Let_def
  using assms by (auto intro!: guard_ok_admit split: sum.split prod.split)

lemma guard_ok_received: "guard_ok m n 0 0 s \<Longrightarrow> guard_ok m n 0 0 (data_received i e d s)"
  using guard_ok_budget[of m n 0 0 "emit (Received i (if e = 0 then d else e)) s" "if e = 0 then d else e"]
  by (auto simp: data_received_def Let_def split: option.split prod.split sum.split)

lemma guard_ok_charge:
  assumes "guard_ok m n 0 1 s"
  shows "guard_ok m n 0 0 (charge_body C p observed already s)"
  using assms guard_ok_remaining[OF assms, of observed already]
  by (auto simp: charge_body_def intro!: guard_ok_give_up guard_ok_finish split: prod.split sum.split)

lemma guard_ok_step:
  assumes "guard_step U parse_error show_json decode C s s'" "guard_ok m n 0 0 s"
  shows "guard_ok m n 0 0 s'"
  using assms
proof cases
  case (intercepted p)
  with assms(2) show ?thesis by (simp add: intercept_def guard_ok_response guard_ok_request)
next
  case (continued ts p hs us late)
  with guard_ok_take[OF continued(2) assms(2)] show ?thesis
    by (auto simp: run_continue_def Let_def is_continue_def intro: guard_ok_sent guard_ok_less split: sum.split)
next
  case (body_failed ts p us)
  with guard_ok_take[OF body_failed(2) assms(2)] show ?thesis
    by (simp add: is_continue_def guard_ok_give_up)
next
  case (body_undecodable ts p us body b64)
  with guard_ok_take[OF body_undecodable(2) assms(2)] show ?thesis
    by (simp add: is_continue_def guard_ok_give_up)
next
  case (body_read ts p us body b64 observed)
  with assms(2) show ?thesis
    by (simp add: guard_ok_def admitted_requests_def open_bodies_def is_continue_def)
next
  case (body_charged ts p observed already us)
  with guard_ok_take[OF body_charged(2) assms(2)] show ?thesis
    by (simp add: is_continue_def guard_ok_charge)
next
  case (received n encoded_len data_len)
  with assms(2) show ?thesis by (simp add: guard_ok_received)
qed

lemma guard_ok_reachable:
  assumes "(guard_step U parse_error show_json decode C)\<^sup>*\<^sup>* s s'" "guard_ok m n 0 0 s"
  shows "guard_ok m n 0 0 s'"
  using assms by (induction rule: rtranclp_induct) (auto intro: guard_ok_step)

lemma guard_ok_init: "guard_ok m n 0 0 (guard_init (new_budget m n) t)"
  by (simp add: guard_ok_def guard_init_def admitted_requests_def open_bodies_def budget_ok_new)
    (simp add: new_budget_def)

section \<open>What is paid for\<close>

text \<open>
  The bodies delivered under a network id, or under none, the bytes that its events reported, and the bytes that
  reached the page: every body without an id counts, and for an id its largest body or, if they are more, the bytes
  reported for it, since the charge of a body deducts what its events were charged.
\<close>

definition bodies :: "string option \<Rightarrow> guard_effect list \<Rightarrow> nat list" where
  "bodies k es = concat (map (\<lambda>e. case e of Fulfilled p x \<Rightarrow> if pr_network_id p = k then [x] else [] | _ \<Rightarrow> []) es)"

definition reported :: "string \<Rightarrow> guard_effect list \<Rightarrow> nat" where
  "reported n es = sum_list (map (\<lambda>e. case e of Received i x \<Rightarrow> if i = n then x else 0 | _ \<Rightarrow> 0) es)"

definition network_ids :: "guard_effect list \<Rightarrow> string list" where
  "network_ids es = remdups (concat (map (\<lambda>e. case e of
     Fulfilled p x \<Rightarrow> (case pr_network_id p of Some n \<Rightarrow> [n] | None \<Rightarrow> []) | Received n x \<Rightarrow> [n] | _ \<Rightarrow> []) es))"

definition traffic_bytes :: "guard_effect list \<Rightarrow> nat" where
  "traffic_bytes es =
     sum_list (bodies None es) + (\<Sum>n \<leftarrow> network_ids es. fold max (bodies (Some n) es) (reported n es))"

definition is_body :: "guard_effect \<Rightarrow> bool" where
  "is_body e = (case e of Fulfilled _ _ \<Rightarrow> True | _ \<Rightarrow> False)"

definition delivered_bytes :: "guard_effect list \<Rightarrow> nat" where
  "delivered_bytes es = traffic_bytes (filter is_body es)"

lemma traffic_snoc:
  "bodies k (es @ [e]) = bodies k es @ (case e of Fulfilled p x \<Rightarrow> if pr_network_id p = k then [x] else [] | _ \<Rightarrow> [])"
  "reported n (es @ [e]) = reported n es + (case e of Received i x \<Rightarrow> if i = n then x else 0 | _ \<Rightarrow> 0)"
  by (simp_all add: bodies_def reported_def)

lemma delivered_parts: "bodies k (filter is_body es) = bodies k es" "reported n (filter is_body es) = 0"
  by (induction es) (auto simp: bodies_def reported_def is_body_def split: guard_effect.split)

lemma fold_max_le: "fold max xs r \<le> (b :: nat) \<longleftrightarrow> r \<le> b \<and> (\<forall>x \<in> set xs. x \<le> b)"
  by (induction xs arbitrary: r) auto

lemma sum_charged_le:
  assumes "finite A"
  shows "sum (c(k := c k + x)) A \<le> sum c A + (x :: nat)"
proof -
  have "c(k := c k + x) = (\<lambda>i. c i + (if i = k then x else 0))" by auto
  then show ?thesis using assms by (simp add: sum.distrib)
qed

lemma traffic_covered:
  assumes "\<And>A. finite A \<Longrightarrow> sum c A \<le> (b :: nat)" and "sum_list (bodies None es) \<le> c None"
    and "\<And>n x. x \<in> set (bodies (Some n) es) \<Longrightarrow> x \<le> c (Some n)" and "\<And>n. reported n es \<le> c (Some n)"
  shows "traffic_bytes es \<le> b"
proof -
  have "(\<Sum>n \<leftarrow> network_ids es. fold max (bodies (Some n) es) (reported n es)) \<le> (\<Sum>n \<leftarrow> network_ids es. c (Some n))"
    by (rule sum_list_mono) (simp add: fold_max_le assms(3,4))
  also have "\<dots> = sum c (Some ` set (network_ids es))"
    by (simp add: sum.reindex comp_def sum_list_distinct_conv_sum_set network_ids_def)
  finally have "traffic_bytes es \<le> c None + sum c (Some ` set (network_ids es))"
    using assms(2) by (simp add: traffic_bytes_def)
  also have "\<dots> = sum c (insert None (Some ` set (network_ids es)))" by (subst sum.insert) auto
  also have "\<dots> \<le> b" by (rule assms(1)) simp
  finally show ?thesis .
qed

text \<open>
  A ledger \<open>c\<close> of the charges per network id accounts for the bytes of the budget; it covers every meter, every
  deduction that an outstanding charge will make, every body and, until the budget is spent, every reported byte.
\<close>

definition credit :: "(string option \<Rightarrow> nat) \<Rightarrow> paused \<Rightarrow> nat" where
  "credit c p = (case pr_network_id p of None \<Rightarrow> 0 | Some n \<Rightarrow> c (Some n))"

definition paid :: "(string option \<Rightarrow> nat) \<Rightarrow> guard_state \<Rightarrow> bool" where
  "paid c s \<longleftrightarrow>
     (\<forall>A. finite A \<longrightarrow> sum c A \<le> ru_bytes (bg_usage (gs_budget s)))
     \<and> (\<forall>n m. gs_meters s n = Some m \<longrightarrow> mt_observed m \<le> c (Some n))
     \<and> (\<forall>p x a. ChargeTask p x a \<in> set (gs_tasks s) \<longrightarrow> a \<le> credit c p)
     \<and> sum_list (bodies None (gs_effects s)) \<le> c None
     \<and> (\<forall>n. \<forall>x \<in> set (bodies (Some n) (gs_effects s)). x \<le> c (Some n))
     \<and> (ru_cap_exceeded (bg_usage (gs_budget s)) \<or> (\<forall>n. reported n (gs_effects s) \<le> c (Some n)))"

lemma credit_charged: "credit c p \<le> credit (c(k := c k + x)) p"
  by (auto simp: credit_def split: option.split)

lemma paid_simps [simp]:
  "paid c (with_budget begin_body_account s) = paid c s"
  "paid c (with_budget finish_body_account s) = paid c s"
  "paid c (emit (Refused r) s) = paid c s"
  "paid c (emit (Passed r) s) = paid c s"
  "paid c (emit (Transmitted p hs) s) = paid c s"
  "paid c (s \<lparr> gs_denial := d \<rparr>) = paid c s"
  "paid c (s \<lparr> gs_nav := t \<rparr>) = paid c s"
  "paid c (s \<lparr> gs_late := f \<rparr>) = paid c s"
  "paid c (s \<lparr> gs_closing := f \<rparr>) = paid c s"
  by (simp_all add: paid_def guard_ops traffic_snoc)

lemma paid_exhaust: "paid c s \<Longrightarrow> paid c (with_budget exhaust s)"
  by (simp add: paid_def guard_ops)

lemma paid_give_up: "paid c s \<Longrightarrow> paid c (give_up_body p s)"
  by (simp add: give_up_body_def paid_exhaust)

lemma paid_tasks:
  assumes "paid c s" and "\<And>p x a. ChargeTask p x a \<in> set ts \<Longrightarrow> ChargeTask p x a \<in> set (gs_tasks s) \<or> a \<le> credit c p"
  shows "paid c (s \<lparr> gs_tasks := ts \<rparr>)"
proof -
  have "\<forall>p x a. ChargeTask p x a \<in> set ts \<longrightarrow> a \<le> credit c p" using assms unfolding paid_def by blast
  with assms(1) show ?thesis unfolding paid_def by simp
qed

lemma paid_meter: "paid c s \<Longrightarrow> paid c (start_meter C p s)"
  by (auto simp: start_meter_def paid_def split: option.split)

lemma paid_queue:
  assumes "paid c s"
  shows "paid c (queue_body p s)"
proof -
  from assms have "paid c (with_budget begin_body_account s)" by simp
  then show ?thesis unfolding queue_body_def by (rule paid_tasks) (auto simp: with_budget_def)
qed

lemma paid_response: "paid c s \<Longrightarrow> paid c (response_paused C p s)"
  by (simp add: response_paused_def Let_def paid_queue paid_exhaust paid_meter)

lemma paid_admit: "paid c s \<Longrightarrow> paid c (admit_paused U show_json C p s)"
proof -
  assume p: "paid c s"
  have b: "paid c (s \<lparr> gs_budget := snd (admit_request (gs_budget s)) \<rparr>)"
    using p by (auto simp: paid_def admit_request_def exhaust_def)
  then show ?thesis
    using paid_tasks[OF b, of "gs_tasks s @ [ContinueTask p
        (effective_continue_headers U show_json (gc_headers C) (gc_credential_origin C) p)]"]
    by (auto simp: admit_paused_def split: prod.split bool.split)
qed

lemma paid_request: "paid c s \<Longrightarrow> paid c (request_paused U parse_error show_json C p s)"
  unfolding request_paused_def Let_def by (auto intro!: paid_admit split: sum.split prod.split)

lemma paid_metered: "paid c s \<Longrightarrow> mt_observed m \<le> c (Some n) \<Longrightarrow> paid c (s \<lparr> gs_meters := (gs_meters s)(n \<mapsto> m) \<rparr>)"
  by (simp add: paid_def)

lemma paid_reported:
  assumes "paid c s" "\<And>i. reported i (gs_effects s) + (if i = n then x else 0) \<le> c (Some i)"
  shows "paid c (emit (Received n x) s)"
proof -
  have "reported i (gs_effects (emit (Received n x) s)) \<le> c (Some i)" for i
    using assms(2)[of i] by (auto simp: emit_def traffic_snoc)
  with assms(1) show ?thesis by (simp add: paid_def emit_def traffic_snoc)
qed

text \<open>A charge of \<open>x\<close> bytes on the account \<open>k\<close>.\<close>

lemma paid_charge_bytes:
  assumes "paid c s" "charge_bytes x (gs_budget s) = (r, b)"
  shows "if r = Inr () then paid (c(k := c k + x)) (s \<lparr> gs_budget := b \<rparr>) else paid c (s \<lparr> gs_budget := b \<rparr>)"
proof (cases "r = Inr ()")
  case True
  with assms(2) have b: "ru_bytes (bg_usage b) = ru_bytes (bg_usage (gs_budget s)) + x"
    "ru_cap_exceeded (bg_usage b) = ru_cap_exceeded (bg_usage (gs_budget s))"
    by (auto simp: charge_bytes_def Let_def split: if_splits)
  have "sum (c(k := c k + x)) A \<le> ru_bytes (bg_usage b)" if "finite A" for A
  proof -
    have "sum c A \<le> ru_bytes (bg_usage (gs_budget s))" using assms(1) that by (simp add: paid_def)
    with sum_charged_le[OF that, of c k x] b(1) show ?thesis by linarith
  qed
  moreover have "n \<le> credit (c(k := c k + x)) p" if "n \<le> credit c p" for n p
    using credit_charged that le_trans by blast
  ultimately show ?thesis using True assms(1) b unfolding paid_def by (auto simp: trans_le_add1)
next
  case False
  with assms show ?thesis by (auto simp: charge_bytes_def Let_def paid_def exhaust_def split: if_splits)
qed

lemma paid_charge_remaining:
  assumes "paid c s" "charge_remaining_bytes t a (gs_budget s) = (r, b)"
  shows "if r = Inr () then paid (c(k := c k + (t - a))) (s \<lparr> gs_budget := b \<rparr>) else paid c (s \<lparr> gs_budget := b \<rparr>)"
proof (cases "t - a = 0")
  case True
  with assms have "r = Inr ()" "s \<lparr> gs_budget := b \<rparr> = s" by (simp_all add: charge_remaining_bytes_def)
  with True assms(1) show ?thesis by simp
next
  case False
  with assms(2) have "charge_bytes (t - a) (gs_budget s) = (r, b)" by (simp add: charge_remaining_bytes_def Let_def)
  from paid_charge_bytes[OF assms(1) this] show ?thesis .
qed

lemma paid_body:
  assumes "paid c s" and n: "pr_network_id p = Some n" and x: "x \<le> c (Some n)"
  shows "paid c (emit (Fulfilled p x) s)"
proof -
  let ?es = "gs_effects (emit (Fulfilled p x) s)"
  have b: "bodies k ?es = bodies k (gs_effects s) @ (if k = Some n then [x] else [])" "reported i ?es = reported i (gs_effects s)" for k i
    using n by (auto simp: emit_def traffic_snoc)
  have "y \<le> c (Some i)" if "y \<in> set (bodies (Some i) ?es)" for y i
  proof (cases "y \<in> set (bodies (Some i) (gs_effects s))")
    case True
    with assms(1) show ?thesis unfolding paid_def by blast
  next
    case False
    with that x show ?thesis unfolding b by (cases "i = n") simp_all
  qed
  moreover have "gs_budget (emit (Fulfilled p x) s) = gs_budget s" "gs_meters (emit (Fulfilled p x) s) = gs_meters s"
    "gs_tasks (emit (Fulfilled p x) s) = gs_tasks s" "bodies None ?es = bodies None (gs_effects s)"
    by (simp_all add: b) (simp_all add: emit_def)
  ultimately show ?thesis using assms(1) unfolding paid_def b(2) by (simp only:) blast
qed

lemma paid_deliver:
  assumes "paid c s"
    and "pr_network_id p = None \<Longrightarrow> sum_list (bodies None (gs_effects s)) + x \<le> c None"
    and "\<And>n. pr_network_id p = Some n \<Longrightarrow> x \<le> c (Some n)"
  shows "paid c (emit (Fulfilled p x) (raise_meter p x s))"
proof (cases "pr_network_id p")
  case None
  with assms(1,2) show ?thesis by (simp add: paid_def emit_def traffic_snoc raise_meter_def)
next
  case (Some n)
  have x: "x \<le> c (Some n)" by (rule assms(3)[OF Some])
  have "paid c (raise_meter p x s)"
  proof (cases "gs_meters s n")
    case None
    with assms(1) Some show ?thesis by (simp add: raise_meter_def)
  next
    case m: (Some m)
    have "mt_observed m \<le> c (Some n)" using assms(1) m unfolding paid_def by blast
    with x have o: "mt_observed (m \<lparr> mt_observed := max x (mt_observed m) \<rparr>) \<le> c (Some n)" by simp
    have "raise_meter p x s = s \<lparr> gs_meters := (gs_meters s)(n \<mapsto> m \<lparr> mt_observed := max x (mt_observed m) \<rparr>) \<rparr>"
      unfolding raise_meter_def by (simp only: Some m option.case)
    then show ?thesis using paid_metered[OF assms(1) o] by (simp only:)
  qed
  then show ?thesis using Some x by (rule paid_body)
qed

lemma paid_charge:
  assumes "paid c s" and "a \<le> credit c p"
  shows "\<exists>c. paid c (charge_body C p x a s)"
proof (cases "over_document C p x")
  case True
  with assms show ?thesis by (auto simp: charge_body_def intro!: exI[of _ c] paid_give_up)
next
  case False
  obtain r b where ch: "charge_remaining_bytes x a (gs_budget s) = (r, b)" by force
  note P = paid_charge_remaining[OF assms(1) ch, of "pr_network_id p"]
  show ?thesis
  proof (cases "r = Inr ()")
    case True
    let ?c = "c(pr_network_id p := c (pr_network_id p) + (x - a))"
    from P True have "paid ?c (s \<lparr> gs_budget := b \<rparr>)" by simp
    then have "paid ?c (emit (Fulfilled p x) (raise_meter p x (s \<lparr> gs_budget := b \<rparr>)))"
    proof (rule paid_deliver)
      assume n: "pr_network_id p = None"
      have "sum_list (bodies None (gs_effects s)) \<le> c None" using assms(1) by (simp add: paid_def)
      with n assms(2) show "sum_list (bodies None (gs_effects (s \<lparr> gs_budget := b \<rparr>))) + x \<le> ?c None" by (simp add: credit_def)
    next
      fix n assume n: "pr_network_id p = Some n"
      with assms(2) have "a \<le> c (Some n)" by (simp add: credit_def)
      then have "x \<le> c (Some n) + (x - a)" by linarith
      then show "x \<le> ?c (Some n)" unfolding n fun_upd_same .
    qed
    with False ch True show ?thesis by (auto simp: charge_body_def)
  next
    case r: False
    then obtain e where "r = Inl e" by (cases r) auto
    with False ch P show ?thesis by (auto simp: charge_body_def intro!: exI[of _ c] paid_give_up)
  qed
qed

lemma paid_received:
  assumes "paid c s"
  shows "\<exists>c. paid c (data_received n e d s)"
proof -
  define x where "x = (if e = 0 then d else e)"
  show ?thesis
  proof (cases "x = 0 \<or> gs_meters s n = None")
    case True
    with assms show ?thesis by (auto simp: data_received_def x_def Let_def)
  next
    case False
    then obtain m where m: "gs_meters s n = Some m" and x: "x \<noteq> 0" by auto
    let ?s = "emit (Received n x) s"
    let ?over = "\<lambda>s. (with_budget exhaust s) \<lparr> gs_closing := True \<rparr>"
    have over: "paid c (?over (?s \<lparr> gs_budget := b \<rparr>))" if "ru_bytes (bg_usage b) = ru_bytes (bg_usage (gs_budget s))" for b
      using assms that by (simp add: paid_def guard_ops traffic_snoc)
    have over0: "paid c (?over ?s)" using over[of "gs_budget s"] by (simp add: emit_def)
    obtain r b where ch: "charge_bytes x (gs_budget s) = (r, b)" by force
    let ?stop = "U64_MAX < mt_observed m + x \<or> mt_is_document m \<and> mt_max_document_bytes m < mt_observed m + x"
    have D: "data_received n e d s = (if ?stop then ?over ?s else case r of
        Inl _ \<Rightarrow> ?over (?s \<lparr> gs_budget := b \<rparr>)
      | Inr _ \<Rightarrow> ?s \<lparr> gs_budget := b, gs_meters := (gs_meters s)(n \<mapsto> m \<lparr> mt_observed := mt_observed m + x \<rparr>) \<rparr>)"
      using m x ch by (cases r) (auto simp: data_received_def Let_def x_def[symmetric] emit_def)
    show ?thesis
    proof (cases "?stop \<or> r \<noteq> Inr ()")
      case True
      have "r \<noteq> Inr () \<Longrightarrow> ru_bytes (bg_usage b) = ru_bytes (bg_usage (gs_budget s))"
        using ch by (auto simp: charge_bytes_def Let_def exhaust_def split: if_splits)
      with True D over over0 show ?thesis by (cases r) (auto intro!: exI[of _ c])
    next
      case False
      let ?c = "c(Some n := c (Some n) + x)"
      from False paid_charge_bytes[OF assms ch, of "Some n"] have c: "paid ?c (s \<lparr> gs_budget := b \<rparr>)" by simp
      have o: "mt_observed m + x \<le> ?c (Some n)" using assms m by (simp add: paid_def)
      have "\<not> ru_cap_exceeded (bg_usage (gs_budget s))"
        using False ch by (auto simp: charge_bytes_def Let_def split: if_splits)
      then have r: "\<forall>i. reported i (gs_effects s) \<le> c (Some i)" using assms by (simp add: paid_def)
      have "paid ?c (emit (Received n x) (s \<lparr> gs_budget := b \<rparr>))" by (rule paid_reported[OF c]) (use r in simp)
      from paid_metered[OF this, of "m \<lparr> mt_observed := mt_observed m + x \<rparr>" n] o
      have "paid ?c (?s \<lparr> gs_budget := b, gs_meters := (gs_meters s)(n \<mapsto> m \<lparr> mt_observed := mt_observed m + x \<rparr>) \<rparr>)"
        by (cases s) (simp add: emit_def)
      then have "paid ?c (data_received n e d s)" using False D by auto
      then show ?thesis by blast
    qed
  qed
qed

lemma paid_take: "gs_tasks s = ts @ t # us \<Longrightarrow> paid c s \<Longrightarrow> paid c (s \<lparr> gs_tasks := ts @ us \<rparr>)"
  by (rule paid_tasks) auto

lemma paid_step:
  assumes "guard_step U parse_error show_json decode C s s'" "paid c s"
  shows "\<exists>c. paid c s'"
  using assms(1)
proof cases
  case (intercepted p)
  with assms(2) show ?thesis by (auto simp: intercept_def intro: paid_response paid_request)
next
  case (continued ts p hs us late)
  with paid_take[OF continued(2) assms(2)] show ?thesis
    by (intro exI[of _ c]) (simp add: run_continue_def Let_def split: sum.split)
next
  case (body_failed ts p us)
  with paid_take[OF body_failed(2) assms(2)] show ?thesis by (auto intro: paid_give_up)
next
  case (body_undecodable ts p us body b64)
  with paid_take[OF body_undecodable(2) assms(2)] show ?thesis by (auto intro: paid_give_up)
next
  case (body_read ts p us body b64 observed)
  have "already_charged s p \<le> credit c p"
    using assms(2) by (auto simp: already_charged_def credit_def paid_def split: option.split bind_split)
  with body_read assms(2) have "paid c s'" by (auto intro!: paid_tasks)
  then show ?thesis by blast
next
  case (body_charged ts p observed already us)
  with paid_charge[OF paid_take[OF body_charged(2) assms(2)], of already p C observed] assms(2)
  show ?thesis by (auto simp: paid_def)
next
  case (received n encoded_len data_len)
  with paid_received[OF assms(2)] show ?thesis by blast
qed

lemma paid_reachable:
  assumes "(guard_step U parse_error show_json decode C)\<^sup>*\<^sup>* (guard_init b t) s"
  shows "\<exists>c. paid c s"
  using assms
proof (induction rule: rtranclp_induct)
  case base
  show ?case by (rule exI[of _ "\<lambda>_. 0"]) (simp add: paid_def guard_init_def bodies_def reported_def)
qed (blast intro: paid_step)

lemma paused_bodies:
  "Fulfilled p x \<in> set (gs_effects (response_paused C q s)) \<Longrightarrow> Fulfilled p x \<in> set (gs_effects s)"
  "Fulfilled p x \<in> set (gs_effects (admit_paused U show_json C q s)) \<Longrightarrow> Fulfilled p x \<in> set (gs_effects s)"
  by (auto simp: response_paused_def admit_paused_def admit_request_def Let_def emit_def with_budget_def queue_body_def
      start_meter_def split: if_splits option.splits)

lemma requested_bodies:
  "Fulfilled p x \<in> set (gs_effects (request_paused U parse_error show_json C q s)) \<Longrightarrow> Fulfilled p x \<in> set (gs_effects s)"
  by (auto simp: request_paused_def Let_def emit_def split: if_splits sum.splits prod.splits dest!: paused_bodies(2))

lemma charged_bodies:
  "Fulfilled p x \<in> set (gs_effects (charge_body C q observed already s)) \<Longrightarrow>
     Fulfilled p x \<in> set (gs_effects s) \<or> \<not> over_document C p x"
  "Fulfilled p x \<in> set (gs_effects (data_received i e d s)) \<Longrightarrow> Fulfilled p x \<in> set (gs_effects s)"
  by (auto simp: charge_body_def data_received_def Let_def guard_ops split: if_splits option.splits sum.splits prod.splits)

lemma bodies_step:
  assumes "guard_step U parse_error show_json decode C s s'" and "Fulfilled p x \<in> set (gs_effects s')"
  shows "Fulfilled p x \<in> set (gs_effects s) \<or> \<not> over_document C p x"
  using assms(1)
proof cases
  case (intercepted q)
  with assms(2) show ?thesis by (auto simp: intercept_def split: if_splits dest: paused_bodies requested_bodies)
next
  case (continued ts q hs us late)
  with assms(2) show ?thesis by (auto simp: run_continue_def Let_def emit_def split: if_splits sum.splits)
next
  case (body_charged ts q observed already us)
  with assms(2) charged_bodies(1)[of p x C q observed already "s \<lparr> gs_tasks := ts @ us \<rparr>"] show ?thesis by simp
next
  case (received n e d)
  with assms(2) charged_bodies(2)[of p x n e d s] show ?thesis by simp
qed (use assms(2) in \<open>simp_all add: guard_ops\<close>)

lemma document_bodies_bounded:
  assumes "(guard_step U parse_error show_json decode C)\<^sup>*\<^sup>* (guard_init b t) s"
  shows "\<forall>p x. Fulfilled p x \<in> set (gs_effects s) \<and> pr_is_document p \<longrightarrow> x \<le> gc_max_document_bytes C"
  using assms
proof (induction rule: rtranclp_induct)
  case (step y z)
  show ?case
  proof (intro allI impI)
    fix p x assume "Fulfilled p x \<in> set (gs_effects z) \<and> pr_is_document p"
    with bodies_step[OF step(2), of p x] step(3) show "x \<le> gc_max_document_bytes C" by (auto simp: over_document_def)
  qed
qed (simp add: guard_init_def)


section \<open>What goes out\<close>

definition passed_policy :: "'u url_ops \<Rightarrow> (string \<Rightarrow> string) \<Rightarrow> 'u guard_config \<Rightarrow> paused \<Rightarrow> bool" where
  "passed_policy U parse_error C p \<longleftrightarrow>
     is_top_document C p \<longrightarrow> policy_verdict U parse_error C p = Inr ()"

definition vetted ::
    "'u url_ops \<Rightarrow> (string \<Rightarrow> string) \<Rightarrow> (json \<Rightarrow> string) \<Rightarrow> 'u guard_config \<Rightarrow> paused \<Rightarrow> (string \<times> string) list \<Rightarrow> bool" where
  "vetted U parse_error show_json C p hs \<longleftrightarrow>
     passed_policy U parse_error C p
     \<and> hs = effective_continue_headers U show_json (gc_headers C) (gc_credential_origin C) p"

definition all_vetted ::
    "'u url_ops \<Rightarrow> (string \<Rightarrow> string) \<Rightarrow> (json \<Rightarrow> string) \<Rightarrow> 'u guard_config \<Rightarrow> guard_state \<Rightarrow> bool" where
  "all_vetted U parse_error show_json C s \<longleftrightarrow>
     (\<forall>p hs. ContinueTask p hs \<in> set (gs_tasks s) \<or> Transmitted p hs \<in> set (gs_effects s)
        \<longrightarrow> vetted U parse_error show_json C p hs)"

lemma all_vetted_sub:
  assumes "all_vetted U parse_error show_json C s"
    and "\<And>p hs. ContinueTask p hs \<in> set (gs_tasks s') \<Longrightarrow> ContinueTask p hs \<in> set (gs_tasks s) \<or> vetted U parse_error show_json C p hs"
    and "\<And>p hs. Transmitted p hs \<in> set (gs_effects s') \<Longrightarrow>
           ContinueTask p hs \<in> set (gs_tasks s) \<or> Transmitted p hs \<in> set (gs_effects s)"
  shows "all_vetted U parse_error show_json C s'"
  using assms unfolding all_vetted_def by blast

text \<open>The requests that a pause adds to the queue, and the transmissions that a step adds.\<close>

lemma response_tasks:
  "ContinueTask p hs \<in> set (gs_tasks (response_paused C q s)) \<Longrightarrow> ContinueTask p hs \<in> set (gs_tasks s)"
  "Transmitted p hs \<in> set (gs_effects (response_paused C q s)) \<Longrightarrow> Transmitted p hs \<in> set (gs_effects s)"
  by (auto simp: response_paused_def Let_def emit_def with_budget_def queue_body_def start_meter_def
      split: if_splits option.splits)

lemma admit_tasks:
  "ContinueTask p hs \<in> set (gs_tasks (admit_paused U show_json C q s)) \<Longrightarrow>
     ContinueTask p hs \<in> set (gs_tasks s)
     \<or> p = q \<and> hs = effective_continue_headers U show_json (gc_headers C) (gc_credential_origin C) p"
  "Transmitted p hs \<in> set (gs_effects (admit_paused U show_json C q s)) \<Longrightarrow> Transmitted p hs \<in> set (gs_effects s)"
  by (auto simp: admit_paused_def emit_def admit_request_def split: if_splits)

lemma request_tasks:
  "ContinueTask p hs \<in> set (gs_tasks (request_paused U parse_error show_json C q s)) \<Longrightarrow>
     ContinueTask p hs \<in> set (gs_tasks s) \<or> vetted U parse_error show_json C p hs"
  "Transmitted p hs \<in> set (gs_effects (request_paused U parse_error show_json C q s)) \<Longrightarrow>
     Transmitted p hs \<in> set (gs_effects s)"
  by (auto simp: request_paused_def Let_def emit_def vetted_def passed_policy_def
      split: if_splits sum.splits prod.splits dest!: admit_tasks)

lemma charge_tasks:
  "gs_tasks (charge_body C p observed already s) = gs_tasks s"
  "Transmitted q hs \<in> set (gs_effects (charge_body C p observed already s)) \<longleftrightarrow> Transmitted q hs \<in> set (gs_effects s)"
  by (auto simp: charge_body_def guard_ops split: prod.splits sum.splits option.splits)

lemma received_tasks:
  "gs_tasks (data_received i e d s) = gs_tasks s"
  "Transmitted q hs \<in> set (gs_effects (data_received i e d s)) \<longleftrightarrow> Transmitted q hs \<in> set (gs_effects s)"
  by (auto simp: data_received_def Let_def with_budget_def emit_def split: option.split prod.split sum.split)

lemma all_vetted_step:
  assumes "guard_step U parse_error show_json decode C s s'" "all_vetted U parse_error show_json C s"
  shows "all_vetted U parse_error show_json C s'"
  using assms(1)
proof cases
  case (intercepted p)
  with assms(2) show ?thesis
    by (auto intro!: all_vetted_sub[OF assms(2)] simp: intercept_def split: if_splits
        dest: response_tasks request_tasks)
next
  case (continued ts p hs us late)
  with assms(2) show ?thesis
    by (auto intro!: all_vetted_sub[OF assms(2)] simp: run_continue_def Let_def emit_def split: sum.splits if_splits)
next
  case (received n encoded_len data_len)
  with assms(2) show ?thesis by (simp add: all_vetted_def received_tasks)
next
  case (body_charged ts p observed already us)
  with assms(2) show ?thesis by (simp add: all_vetted_def charge_tasks)
qed (use assms(2) in \<open>simp_all add: all_vetted_def guard_ops\<close>)

lemma all_vetted_reachable:
  assumes "(guard_step U parse_error show_json decode C)\<^sup>*\<^sup>* (guard_init b t) s"
  shows "all_vetted U parse_error show_json C s"
  using assms
proof (induction rule: rtranclp_induct)
  case base
  show ?case by (simp add: all_vetted_def guard_init_def)
qed (rule all_vetted_step)

text \<open>
  C29: Every request that leaves the browser carries exactly the headers that the guard computed for
  its URL, so to another origin none with the name of a caller header other than the user agent, and
  none of the caller's entries is added; and every top document that leaves it passed the document
  policy.
\<close>

theorem guard_transmits_vetted:
  assumes "(guard_step U parse_error show_json decode C)\<^sup>*\<^sup>* (guard_init b t) s"
    and "Transmitted p hs \<in> set (gs_effects s)"
  shows "(is_top_document C p \<longrightarrow> policy_verdict U parse_error C p = Inr ())
     \<and> hs = effective_continue_headers U show_json (gc_headers C) (gc_credential_origin C) p
     \<and> (\<not> same_origin_url U (pr_url p) (gc_credential_origin C) \<longrightarrow>
          (\<forall>h v name value. (h, v) \<in> set hs \<and> (name, value) \<in> set (gc_headers C) \<and> eq_ic h name
             \<longrightarrow> eq_ic name ''user-agent'' \<and> (h, v) \<in> set (browser_headers show_json (pr_headers p))))"
proof -
  have v: "vetted U parse_error show_json C p hs"
    using all_vetted_reachable[OF assms(1)] assms(2) by (auto simp: all_vetted_def)
  with cross_origin_headers[of U p "gc_credential_origin C" _ _ show_json "gc_headers C"] show ?thesis
    unfolding vetted_def passed_policy_def by fastforce
qed

section \<open>After the budget is spent\<close>

definition frozen :: "render_usage \<Rightarrow> nat \<Rightarrow> nat \<Rightarrow> guard_state \<Rightarrow> bool" where
  "frozen u k j s \<longleftrightarrow> ru_cap_exceeded u \<and> bg_usage (gs_budget s) = u \<and> admitted_requests s + j \<le> k"

lemma frozen_simps [simp]:
  "frozen u k j (with_budget begin_body_account s) = frozen u k j s"
  "frozen u k j (with_budget finish_body_account s) = frozen u k j s"
  "frozen u k j (emit (Refused r) s) = frozen u k j s"
  "frozen u k j (emit (Passed r) s) = frozen u k j s"
  "frozen u k j (emit (Fulfilled q l) s) = frozen u k j s"
  "frozen u k j (emit (Received r l) s) = frozen u k j s"
  "frozen u k j (s \<lparr> gs_meters := M \<rparr>) = frozen u k j s"
  "frozen u k j (s \<lparr> gs_denial := d \<rparr>) = frozen u k j s"
  "frozen u k j (s \<lparr> gs_nav := t \<rparr>) = frozen u k j s"
  "frozen u k j (s \<lparr> gs_late := f \<rparr>) = frozen u k j s"
  "frozen u k j (s \<lparr> gs_closing := f \<rparr>) = frozen u k j s"
  by (auto simp: frozen_def admitted_requests_def guard_ops)

lemma frozen_exhaust: "frozen u k j s \<Longrightarrow> frozen u k j (with_budget exhaust s)"
  by (auto simp: frozen_def admitted_requests_def guard_ops)

lemma frozen_raise [simp]: "frozen u k j (raise_meter p x s) = frozen u k j s"
  by (simp add: raise_meter_def split: option.split)

lemma frozen_give_up: "frozen u k j s \<Longrightarrow> frozen u k j (give_up_body p s)"
  by (simp add: give_up_body_def frozen_exhaust)

lemma frozen_charge_bytes: "frozen u k j s \<Longrightarrow> frozen u k j (s \<lparr> gs_budget := snd (charge_bytes x (gs_budget s)) \<rparr>)"
  by (auto simp: frozen_def admitted_requests_def charge_bytes_def Let_def exhaust_def)

lemma frozen_remaining:
  "frozen u k j s \<Longrightarrow> frozen u k j (s \<lparr> gs_budget := snd (charge_remaining_bytes t a (gs_budget s)) \<rparr>)"
  using frozen_charge_bytes by (simp add: charge_remaining_bytes_def Let_def)

lemma frozen_admit: "frozen u k j s \<Longrightarrow> frozen u k j (admit_paused U show_json C p s)"
  by (auto simp: frozen_def admit_paused_def admit_request_def admitted_requests_def guard_ops)

lemma frozen_response: "frozen u k j s \<Longrightarrow> frozen u k j (response_paused C p s)"
  by (auto simp: frozen_def response_paused_def Let_def remaining_bytes_def admitted_requests_def guard_ops)

lemma frozen_request:
  assumes "frozen u k j s"
  shows "frozen u k j (request_paused U parse_error show_json C p s)"
  unfolding request_paused_def Let_def
  using assms by (auto intro!: frozen_admit split: sum.split prod.split)

lemma frozen_received: "frozen u k j s \<Longrightarrow> frozen u k j (data_received i e d s)"
  using frozen_charge_bytes[of u k j "emit (Received i (if e = 0 then d else e)) s" "if e = 0 then d else e"]
  by (auto simp: data_received_def Let_def intro!: frozen_exhaust split: option.split prod.split sum.split)

lemma frozen_charge:
  assumes "frozen u k j s"
  shows "frozen u k j (charge_body C p observed already s)"
  using assms frozen_remaining[OF assms, of observed already]
  by (auto simp: charge_body_def intro!: frozen_give_up split: prod.split sum.split)

lemma frozen_take:
  assumes "gs_tasks s = ts @ t # us" "frozen u k 0 s"
  shows "frozen u k (if is_continue t then 1 else 0) (s \<lparr> gs_tasks := ts @ us \<rparr>)"
  using assms by (cases "is_continue t") (auto simp: frozen_def admitted_requests_def)

lemma frozen_sent:
  "frozen u k (Suc 0) s \<Longrightarrow> frozen u k 0 (emit (Transmitted p hs) s)" "frozen u k (Suc 0) s \<Longrightarrow> frozen u k 0 s"
  by (simp_all add: frozen_def admitted_requests_def guard_ops)

lemma frozen_step:
  assumes "guard_step U parse_error show_json decode C s s'" "frozen u k 0 s"
  shows "frozen u k 0 s'"
  using assms(1)
proof cases
  case (intercepted p)
  with assms(2) show ?thesis by (simp add: intercept_def frozen_response frozen_request)
next
  case (continued ts p hs us late)
  with frozen_take[OF continued(2) assms(2)] show ?thesis
    by (auto simp: run_continue_def Let_def is_continue_def intro: frozen_sent split: sum.split)
next
  case (body_failed ts p us)
  with frozen_take[OF body_failed(2) assms(2)] show ?thesis by (simp add: is_continue_def frozen_give_up)
next
  case (body_undecodable ts p us body b64)
  with frozen_take[OF body_undecodable(2) assms(2)] show ?thesis by (simp add: is_continue_def frozen_give_up)
next
  case (body_read ts p us body b64 observed)
  with assms(2) show ?thesis by (simp add: frozen_def admitted_requests_def is_continue_def)
next
  case (body_charged ts p observed already us)
  with frozen_take[OF body_charged(2) assms(2)] show ?thesis by (simp add: is_continue_def frozen_charge)
next
  case (received n encoded_len data_len)
  with assms(2) show ?thesis by (simp add: frozen_received)
qed

lemma frozen_reachable:
  assumes "(guard_step U parse_error show_json decode C)\<^sup>*\<^sup>* s s'" "frozen u k 0 s"
  shows "frozen u k 0 s'"
  using assms by (induction rule: rtranclp_induct) (auto intro: frozen_step)

text \<open>
  Once the budget is spent it stays spent: from then on nothing is accounted, and no request is
  transmitted or scheduled beyond those that were already let through.
\<close>

theorem spent_budget_is_final:
  assumes "(guard_step U parse_error show_json decode C)\<^sup>*\<^sup>* s s'"
    and "ru_cap_exceeded (bg_usage (gs_budget s))"
  shows "bg_usage (gs_budget s') = bg_usage (gs_budget s) \<and> admitted_requests s' \<le> admitted_requests s
     \<and> ensure_available (gs_budget s') = Inl ResourceBudgetExceeded"
  using frozen_reachable[OF assms(1), of "bg_usage (gs_budget s)" "admitted_requests s"] assms(2)
  by (simp add: frozen_def ensure_available_def)

section \<open>A run\<close>

definition demo_config :: "demo_url guard_config" where
  "demo_config =
     \<lparr> gc_max_document_bytes = 100, gc_headers = [(''authorization'', ''secret'')],
       gc_policy = Some (\<lambda>u. if du_path u = ''/no'' then Inl ''denied'' else Inr ()),
       gc_credential_origin = site ''/'', gc_top_frame = ''top'' \<rparr>"

definition demo_pause :: "string \<Rightarrow> bool \<Rightarrow> paused" where
  "demo_pause url document =
     \<lparr> pr_id = url, pr_is_document = document, pr_frame = ''top'', pr_url = url,
       pr_headers = Some (JObj [(''Authorization'', JStr ''copied''), (''Accept'', JStr ''x'')]),
       pr_status = None, pr_response_headers = None, pr_network_id = None \<rparr>"

abbreviation demo_step :: "guard_state \<Rightarrow> guard_state \<Rightarrow> bool" where
  "demo_step \<equiv> guard_step demo_url_ops (\<lambda>_. ''bad url'') (\<lambda>_. ''null'') Some demo_config"

definition demo_admitted :: guard_state where
  "demo_admitted = intercept demo_url_ops (\<lambda>_. ''bad url'') (\<lambda>_. ''null'') demo_config
     (demo_pause ''https://b.example/p'' True) (guard_init (new_budget 1 10) (new_tracker True 2))"

definition demo_sent :: guard_state where
  "demo_sent = run_continue False (demo_pause ''https://b.example/p'' True) [(''Accept'', ''x'')]
     (demo_admitted \<lparr> gs_tasks := [] @ [] \<rparr>)"

definition demo_spent :: guard_state where
  "demo_spent = intercept demo_url_ops (\<lambda>_. ''bad url'') (\<lambda>_. ''null'') demo_config
     (demo_pause ''https://a.example/q'' False) demo_sent"

lemma demo_same_origin: "\<not> same_origin_url demo_url_ops ''https://b.example/p'' (site ''/'')"
  by code_simp

lemma demo_verdict:
  "policy_verdict demo_url_ops (\<lambda>_. ''bad url'') demo_config (demo_pause ''https://b.example/p'' True) = Inr ()"
  by code_simp

lemma demo_pause_simps [simp]:
  "pr_status (demo_pause u d) = None" "pr_id (demo_pause u d) = u"
  "is_top_document demo_config (demo_pause u d) = d"
  by (simp_all add: demo_pause_def is_top_document_def demo_config_def)

lemma demo_continue_headers:
  "effective_continue_headers demo_url_ops (\<lambda>_. ''null'') (gc_headers demo_config)
     (gc_credential_origin demo_config) (demo_pause ''https://b.example/p'' True) = [(''Accept'', ''x'')]"
  by (simp add: effective_continue_headers_def demo_same_origin demo_config_def demo_pause_def
      browser_headers_def eq_ic_def) code_simp

lemma demo_admitted_eq:
  "demo_admitted = (guard_init (new_budget 1 10) (new_tracker True 2))
     \<lparr> gs_budget := (new_budget 1 10) \<lparr> bg_usage := \<lparr> ru_count = 1, ru_bytes = 0, ru_cap_exceeded = False \<rparr> \<rparr>,
       gs_nav := (new_tracker True 2) \<lparr> nv_first_seen := True \<rparr>,
       gs_tasks := [ContinueTask (demo_pause ''https://b.example/p'' True) [(''Accept'', ''x'')]] \<rparr>"
  by (simp add: demo_admitted_def intercept_def request_paused_def demo_verdict admit_paused_def
      admit_request_def demo_continue_headers record_top_document_request_def new_tracker_def
      guard_init_def new_budget_def)

lemma demo_sent_eq:
  "gs_effects demo_sent = [Transmitted (demo_pause ''https://b.example/p'' True) [(''Accept'', ''x'')]]"
  "gs_tasks demo_sent = []"
  "gs_budget demo_sent = (new_budget 1 10) \<lparr> bg_usage := \<lparr> ru_count = 1, ru_bytes = 0, ru_cap_exceeded = False \<rparr> \<rparr>"
  by (simp_all add: demo_sent_def run_continue_def demo_admitted_eq emit_def ensure_within_limit_def
      new_tracker_def guard_init_def)

lemma demo_spent_eq: "ru_cap_exceeded (bg_usage (gs_budget demo_spent))" "gs_tasks demo_spent = []"
  by (simp_all add: demo_spent_def intercept_def request_paused_def admit_paused_def admit_request_def
      demo_sent_eq new_budget_def emit_def exhaust_def)

lemma demo_run:
  "demo_step\<^sup>*\<^sup>* (guard_init (new_budget 1 10) (new_tracker True 2)) demo_sent" "demo_step demo_sent demo_spent"
proof -
  let ?s = "guard_init (new_budget 1 10) (new_tracker True 2)"
  have "demo_step ?s demo_admitted" unfolding demo_admitted_def by (rule guard_step.intercepted)
  moreover have "demo_step demo_admitted demo_sent"
    unfolding demo_sent_def by (rule guard_step.continued) (simp add: demo_admitted_eq)
  ultimately show "demo_step\<^sup>*\<^sup>* ?s demo_sent" by (simp add: rtranclp.rtrancl_into_rtrancl)
  show "demo_step demo_sent demo_spent" unfolding demo_spent_def by (rule guard_step.intercepted)
qed

text \<open>A response whose events report three bytes and whose body has five, under a budget of ten.\<close>

definition demo_answer :: paused where
  "demo_answer = (demo_pause ''https://a.example/i'' False)
     \<lparr> pr_status := Some 200, pr_response_headers := Some [], pr_network_id := Some ''7'' \<rparr>"

definition demo_begun :: guard_state where
  "demo_begun = data_received ''7'' 3 3 (intercept demo_url_ops (\<lambda>_. ''bad url'') (\<lambda>_. ''null'') demo_config
     demo_answer (guard_init (new_budget 1 10) (new_tracker True 2)))"

definition demo_charged :: guard_state where
  "demo_charged = charge_body demo_config demo_answer 5 3 (demo_begun \<lparr> gs_tasks := [] @ [] \<rparr>)"

lemma demo_begun_eq:
  "gs_tasks demo_begun = [BodyTask demo_answer]" "gs_effects demo_begun = [Received ''7'' 3]"
  "gs_budget demo_begun = (new_budget 1 10) \<lparr> bg_usage := \<lparr> ru_count = 0, ru_bytes = 3, ru_cap_exceeded = False \<rparr>,
     bg_pending := 1 \<rparr>"
  "gs_meters demo_begun = [''7'' \<mapsto> \<lparr> mt_observed = 3, mt_max_document_bytes = 100, mt_is_document = False \<rparr>]"
  by (simp_all add: demo_begun_def intercept_def demo_answer_def demo_pause_def response_paused_def declared_content_length_def
      remaining_bytes_def guard_init_def new_budget_def start_meter_def demo_config_def queue_body_def guard_ops
      data_received_def charge_bytes_def U64_MAX_def)

lemma demo_charged_eq:
  "gs_effects demo_charged = [Received ''7'' 3, Fulfilled demo_answer 5]" "gs_tasks demo_charged = []"
  "bg_usage (gs_budget demo_charged) = \<lparr> ru_count = 0, ru_bytes = 5, ru_cap_exceeded = False \<rparr>"
  by (simp_all add: demo_charged_def charge_body_def over_document_def charge_remaining_bytes_def charge_bytes_def
      demo_begun_eq new_budget_def guard_ops U64_MAX_def split: option.split)
    (simp_all add: demo_answer_def demo_pause_def)

lemma demo_charged_run: "demo_step\<^sup>*\<^sup>* (guard_init (new_budget 1 10) (new_tracker True 2)) demo_charged"
proof -
  let ?s = "guard_init (new_budget 1 10) (new_tracker True 2)"
  let ?i = "intercept demo_url_ops (\<lambda>_. ''bad url'') (\<lambda>_. ''null'') demo_config demo_answer ?s"
  let ?r = "demo_begun \<lparr> gs_tasks := [] @ ChargeTask demo_answer 5 (already_charged demo_begun demo_answer) # [] \<rparr>"
  have a: "already_charged demo_begun demo_answer = 3"
    by (simp add: already_charged_def demo_begun_eq) (simp add: demo_answer_def)
  have "demo_step ?s ?i" by (rule guard_step.intercepted)
  moreover have "demo_step ?i demo_begun" unfolding demo_begun_def by (rule guard_step.received)
  moreover have "demo_step demo_begun ?r"
    by (rule guard_step.body_read[of _ _ _ _ _ "''hello''" False]) (simp_all add: demo_begun_eq observed_body_len_def)
  moreover have "demo_step ?r (charge_body demo_config demo_answer 5 3 (?r \<lparr> gs_tasks := [] @ [] \<rparr>))"
    by (rule guard_step.body_charged) (simp add: a)
  then have "demo_step ?r demo_charged" by (simp add: demo_charged_def)
  ultimately show ?thesis by (meson converse_rtranclp_into_rtranclp rtranclp.rtrancl_refl)
qed


theorem guard_transmits_vetted_witness:
  "\<exists>p hs. Transmitted p hs \<in> set (gs_effects demo_sent) \<and> is_top_document demo_config p
     \<and> policy_verdict demo_url_ops (\<lambda>_. ''bad url'') demo_config p = Inr ()
     \<and> hs = effective_continue_headers demo_url_ops (\<lambda>_. ''null'') (gc_headers demo_config)
              (gc_credential_origin demo_config) p"
proof -
  let ?p = "demo_pause ''https://b.example/p'' True"
  have "Transmitted ?p [(''Accept'', ''x'')] \<in> set (gs_effects demo_sent)" by (simp add: demo_sent_eq)
  with guard_transmits_vetted[OF demo_run(1) this] demo_pause_simps(3) show ?thesis by blast
qed

theorem spent_budget_is_final_witness:
  "\<exists>s. demo_step\<^sup>*\<^sup>* demo_spent s \<and> s \<noteq> demo_spent \<and> admitted_requests s \<le> admitted_requests demo_spent
     \<and> ensure_available (gs_budget s) = Inl ResourceBudgetExceeded"
proof -
  let ?s = "intercept demo_url_ops (\<lambda>_. ''bad url'') (\<lambda>_. ''null'') demo_config
              (demo_pause ''https://b.example/p'' False) demo_spent"
  have r: "demo_step\<^sup>*\<^sup>* demo_spent ?s" by (rule r_into_rtranclp) (rule guard_step.intercepted)
  have "gs_effects ?s = gs_effects demo_spent @ [Refused ''https://b.example/p'']"
    using demo_spent_eq by (simp add: intercept_def request_paused_def admit_paused_def admit_request_def emit_def)
  then have "?s \<noteq> demo_spent" by fastforce
  with r spent_budget_is_final[OF r demo_spent_eq(1)] show ?thesis by blast
qed

end
