(* ===== verification/Proxy_Config.thy ===== *)
theory Proxy_Config
  imports Product_Options Url_Ops Ip_Addr
begin

text \<open>
  The configuration half of \<^verbatim>\<open>basecrawl-core/src/proxy.rs\<close>: proxy URLs, username templates, the plan
  that picks the upstream of a scrape and the class it may claim, and the slot that admits one
  residential dial at a time. The \<^verbatim>\<open>url\<close> crate and the environment are arguments.
\<close>

section \<open>Text\<close>

text \<open>\<^verbatim>\<open>str::split\<close> on a text pattern, which is never empty here.\<close>

function split_str :: "string \<Rightarrow> string \<Rightarrow> string list" where
  "split_str p s =
     (if p = [] then [s]
      else case find_sub p s of
        None \<Rightarrow> [s] | Some i \<Rightarrow> take i s # split_str p (drop (i + length p) s))"
  by pat_completeness auto
termination
proof (relation "measure (length \<circ> snd)")
  fix p s :: string and i
  assume "p \<noteq> []" "find_sub p s = Some i"
  then have "i + length p \<le> length s" "p \<noteq> []" by (auto dest: find_sub_SomeD)
  then show "((p, drop (i + length p) s), p, s) \<in> measure (length \<circ> snd)" by (cases p) auto
qed simp

declare split_str.simps [simp del]

definition trim_end_char :: "char \<Rightarrow> string \<Rightarrow> string" where
  "trim_end_char c s = rev (dropWhile (\<lambda>d. d = c) (rev s))"

definition trim_char :: "char \<Rightarrow> string \<Rightarrow> string" where
  "trim_char c s = trim_end_char c (dropWhile (\<lambda>d. d = c) s)"

definition non_blank :: "string option \<Rightarrow> string option" where
  "non_blank s = (case s of None \<Rightarrow> None | Some t \<Rightarrow> if trim t = [] then None else Some (trim t))"

definition or_empty :: "string option \<Rightarrow> string" where
  "or_empty s = (case s of Some t \<Rightarrow> t | None \<Rightarrow> [])"

section \<open>Username templates\<close>

record username_options =
  uo_country :: "string option"
  uo_session :: "string option"
  uo_template :: "string option"

definition cut_at :: "string \<Rightarrow> string \<Rightarrow> nat \<Rightarrow> nat" where
  "cut_at p s k = (case find_sub p s of Some i \<Rightarrow> min k i | None \<Rightarrow> k)"

definition strip_username_template_tokens :: "string \<Rightarrow> string" where
  "strip_username_template_tokens username =
     (let t = trim username
      in if t = [] then []
         else let k = cut_at ''-sessid-'' (to_lower t) (cut_at ''-cc-'' (to_lower t)
                          (cut_at ''-sessid-'' t (cut_at ''-cc-'' t (length t))))
              in trim_end_char (CHR ''-'') (take k t))"

definition nth_piece :: "nat \<Rightarrow> 'a list \<Rightarrow> 'a option" where
  "nth_piece n xs = (if n < length xs then Some (xs ! n) else None)"

definition template_country :: "string \<Rightarrow> string option" where
  "template_country username =
     Option.bind (nth_piece 1 (split_str ''-cc-'' username)) (\<lambda>rest.
       let end = (case find_sub ''-sessid-'' rest of Some i \<Rightarrow> i
                  | None \<Rightarrow> (case find_sub ''-cc-'' rest of Some i \<Rightarrow> i | None \<Rightarrow> length rest));
           token = hd (split_on (CHR ''-'') (trim_char (CHR ''-'') (take end rest)))
       in if token = [] then None else Some token)"

definition template_session :: "string \<Rightarrow> string option" where
  "template_session username =
     Option.bind (nth_piece 1 (split_str ''-sessid-'' username)) (\<lambda>rest.
       let s = trim (join ''-'' (takeWhile (\<lambda>p. \<not> eq_ic p ''cc'' \<and> \<not> eq_ic p ''sessid'')
                       (split_on (CHR ''-'') rest)))
       in if s = [] then None else Some s)"

definition parse_username_template_tokens :: "string \<Rightarrow> string option \<times> string option" where
  "parse_username_template_tokens username = (template_country username, template_session username)"

definition UNKNOWN_PLACEHOLDERS :: string where
  "UNKNOWN_PLACEHOLDERS =
     ''username template has unknown placeholders (supported: {user}, {username}, {country}, {cc}, {session}, {sessid})''"

definition fill_template :: "string \<Rightarrow> string \<Rightarrow> string \<Rightarrow> string \<Rightarrow> string" where
  "fill_template tpl base country session =
     replace_all ''{sessid}'' session (replace_all ''{session}'' session
       (replace_all ''{cc}'' country (replace_all ''{country}'' country
         (replace_all ''{username}'' base (replace_all ''{user}'' base tpl)))))"

definition decorated :: "string \<Rightarrow> string option \<Rightarrow> string option \<Rightarrow> string" where
  "decorated base country session =
     base @ (case country of None \<Rightarrow> [] | Some cc \<Rightarrow> ''-cc-'' @ cc)
          @ (case session of None \<Rightarrow> [] | Some s \<Rightarrow> ''-sessid-'' @ s)"

definition render_username ::
    "string option \<Rightarrow> username_options \<Rightarrow> (core_error, string option) result" where
  "render_username base_username opts =
     (let raw_base = trim (or_empty base_username);
          base = strip_username_template_tokens raw_base;
          country = non_blank (uo_country opts);
          session = non_blank (uo_session opts)
      in case non_blank (uo_template opts) of
           Some tpl \<Rightarrow>
             if CHR ''{'' \<in> set tpl then
               (let out = fill_template tpl base (or_empty country) (or_empty session)
                in if CHR ''{'' \<in> set out then Inl (InvalidProxy UNKNOWN_PLACEHOLDERS)
                   else if trim out = [] then Inr None else Inr (Some (trim out)))
             else Inr (Some tpl)
         | None \<Rightarrow>
             if country = None \<and> session = None then
               (if raw_base = [] then Inr None else Inr (Some raw_base))
             else if base = [] then
               Inl (InvalidProxy ''proxy username base is required when country/session template tokens are set'')
             else Inr (Some (decorated base country session)))"

section \<open>Configurations\<close>

datatype proxy_kind = ProxyHttp | ProxyHttps | ProxySocks5

fun proxy_kind_str :: "proxy_kind \<Rightarrow> string" where
  "proxy_kind_str ProxyHttp = ''http''"
| "proxy_kind_str ProxyHttps = ''https''"
| "proxy_kind_str ProxySocks5 = ''socks5''"

record proxy_config =
  px_kind :: proxy_kind
  px_host :: string
  px_port :: nat
  px_username :: "string option"
  px_password :: "string option"
  px_class :: "proxy_class option"

text \<open>The user information of a URL, as the crate's accessors return it.\<close>

record 'u login_ops = "'u url_ops" +
  url_username :: "'u \<Rightarrow> string"
  url_password :: "'u \<Rightarrow> string option"

definition proxy_kind_of :: "string \<Rightarrow> (core_error, proxy_kind) result" where
  "proxy_kind_of scheme =
     (if scheme = ''http'' then Inr ProxyHttp
      else if scheme = ''https'' then Inr ProxyHttps
      else if scheme = ''socks5'' \<or> scheme = ''socks5h'' then Inr ProxySocks5
      else Inl (InvalidProxy (''unsupported proxy scheme '' @ [CHR 0x27] @ scheme @ [CHR 0x27]
                              @ '' (supported: http, https, socks5)'')))"

definition parse_proxy :: "'u login_ops \<Rightarrow> string \<Rightarrow> (core_error, proxy_config) result" where
  "parse_proxy U raw =
     (if trim raw = [] then Inl (InvalidProxy ''proxy URL must not be empty'')
      else case url_parse U (trim raw) of
        Inl _ \<Rightarrow> Inl (InvalidProxy ''proxy URL is not a valid absolute URL'')
      | Inr url \<Rightarrow>
          bind_res (proxy_kind_of (url_scheme U url)) (\<lambda>kind.
          bind_res (ok_or (url_host_str U url) (InvalidProxy ''proxy URL is missing a host'')) (\<lambda>host.
          bind_res (ok_or (url_known_port U url) (InvalidProxy ''proxy URL is missing a port'')) (\<lambda>port.
            Inr \<lparr> px_kind = kind, px_host = host, px_port = port,
                  px_username = (if url_username U url = [] then None else Some (url_username U url)),
                  px_password = url_password U url, px_class = Some Datacenter \<rparr>))))"

definition apply_username_template ::
    "username_options \<Rightarrow> proxy_config \<Rightarrow> (core_error, proxy_config) result" where
  "apply_username_template opts cfg =
     bind_res (render_username (px_username cfg) opts) (\<lambda>u. Inr (cfg \<lparr> px_username := u \<rparr>))"

definition set_proxy_class :: "proxy_class \<Rightarrow> proxy_config \<Rightarrow> proxy_config" where
  "set_proxy_class c cfg = cfg \<lparr> px_class := Some c \<rparr>"

definition redacted_url :: "proxy_config \<Rightarrow> string" where
  "redacted_url cfg =
     proxy_kind_str (px_kind cfg) @ ''://'' @ (if px_username cfg \<noteq> None then ''***:***@'' else [])
     @ px_host cfg @ '':'' @ show_nat (px_port cfg)"

definition has_credentials :: "proxy_config \<Rightarrow> bool" where
  "has_credentials cfg \<longleftrightarrow> px_username cfg \<noteq> None \<or> px_password cfg \<noteq> None"

section \<open>Plans\<close>

record proxy_plan =
  pn_explicit_url :: "string option"
  pn_username :: username_options
  pn_required :: "proxy_class option"
  pn_configured :: "proxy_class option"

definition proxy_env_keys :: "string \<Rightarrow> string list" where
  "proxy_env_keys scheme =
     (let http = [''BASECRAWL_HTTP_PROXY'', ''HTTP_PROXY'', ''http_proxy''];
          all = [''ALL_PROXY'', ''all_proxy'']
      in if scheme = ''https'' then [''BASECRAWL_HTTPS_PROXY'', ''HTTPS_PROXY'', ''https_proxy''] @ http @ all
         else if scheme = ''http'' then http @ all
         else all)"

fun first_env :: "(string \<Rightarrow> string option) \<Rightarrow> string list \<Rightarrow> string option" where
  "first_env env [] = None"
| "first_env env (k # ks) = (case non_blank (env k) of Some v \<Rightarrow> Some v | None \<Rightarrow> first_env env ks)"

definition resolve_proxy ::
    "'u login_ops \<Rightarrow> (string \<Rightarrow> string option) \<Rightarrow> string option \<Rightarrow> 'u \<Rightarrow> (core_error, proxy_config option) result" where
  "resolve_proxy U env explicit target =
     (case non_blank explicit of
        Some raw \<Rightarrow> bind_res (parse_proxy U raw) (\<lambda>c. Inr (Some c))
      | None \<Rightarrow>
          (case first_env env (proxy_env_keys (url_scheme U target)) of
             Some raw \<Rightarrow> bind_res (parse_proxy U raw) (\<lambda>c. Inr (Some c))
           | None \<Rightarrow> Inr None))"

definition plan_class :: "proxy_plan \<Rightarrow> proxy_class" where
  "plan_class plan =
     (let class = (case pn_configured plan of
                     Some c \<Rightarrow> c
                   | None \<Rightarrow> (case pn_required plan of
                       Some c \<Rightarrow> if requires_upstream c then c else Datacenter
                     | None \<Rightarrow> Datacenter))
      in case pn_required plan of
           Some req \<Rightarrow> if requires_upstream req then req else class
         | None \<Rightarrow> class)"

definition check_plan :: "proxy_plan \<Rightarrow> proxy_config option \<Rightarrow> (core_error, proxy_config option) result" where
  "check_plan plan resolved =
     (case (pn_required plan, resolved) of
        (Some ClassDirect, Some _) \<Rightarrow>
          Inl (InvalidProxy ''proxy_class=direct forbids a configured upstream proxy'')
      | (Some req, None) \<Rightarrow>
          if requires_upstream req
          then Inl (ProxyClassUnavailable (proxy_class_str req)
                 ''required proxy class has no upstream dial path configured'')
          else Inr None
      | _ \<Rightarrow> Inr resolved)"

definition resolve_proxy_plan ::
    "'u login_ops \<Rightarrow> (string \<Rightarrow> string option) \<Rightarrow> proxy_plan \<Rightarrow> 'u \<Rightarrow> (core_error, proxy_config option) result" where
  "resolve_proxy_plan U env plan target =
     bind_res (resolve_proxy U env (pn_explicit_url plan) target) (\<lambda>resolved.
     bind_res (case resolved of
                 None \<Rightarrow> Inr None
               | Some cfg \<Rightarrow> bind_res (apply_username_template (pn_username plan) cfg)
                   (\<lambda>cfg. Inr (Some (set_proxy_class (plan_class plan) cfg)))) (\<lambda>resolved.
       check_plan plan resolved))"

definition truthful_proxy_class ::
    "proxy_config option \<Rightarrow> proxy_class option \<Rightarrow> (core_error, proxy_class) result" where
  "truthful_proxy_class dialed required =
     (case dialed of
        None \<Rightarrow>
          (case required of
             Some req \<Rightarrow>
               if requires_upstream req
               then Inl (ProxyClassUnavailable (proxy_class_str req) ''required proxy class was not dialed'')
               else Inr ClassDirect
           | None \<Rightarrow> Inr ClassDirect)
      | Some cfg \<Rightarrow>
          Inr (case px_class cfg of
                 Some c \<Rightarrow> c
               | None \<Rightarrow> (case required of
                   Some req \<Rightarrow> if requires_upstream req then req else Datacenter | None \<Rightarrow> Datacenter)))"

section \<open>The class is the one that was dialled\<close>

text \<open>The plan that \<^verbatim>\<open>scrape\<close> builds configures the class it requires.\<close>

definition scrape_plan :: "proxy_plan \<Rightarrow> bool" where
  "scrape_plan plan \<longleftrightarrow>
     pn_configured plan = (case pn_required plan of
        Some c \<Rightarrow> if requires_upstream c then Some c else None | None \<Rightarrow> None)"

lemma check_plan_Inr:
  "check_plan plan r = Inr p \<longleftrightarrow>
     p = r \<and> (r = None \<longrightarrow> pn_required plan \<in> {None, Some ClassDirect})
     \<and> (r \<noteq> None \<longrightarrow> pn_required plan \<noteq> Some ClassDirect)"
  by (auto simp: check_plan_def requires_upstream_def split: option.splits proxy_class.splits)

lemma plan_class_scrape:
  "scrape_plan plan \<Longrightarrow> plan_class plan = (case pn_required plan of
     Some c \<Rightarrow> if requires_upstream c then c else Datacenter | None \<Rightarrow> Datacenter)"
  by (auto simp: scrape_plan_def plan_class_def Let_def split: option.splits)

text \<open>
  The class claimed for a plan as \<^verbatim>\<open>scrape\<close> builds it is that of its upstream: direct exactly when there is no
  upstream, the required class whenever one is required, and datacenter for an upstream that was not asked for.
\<close>

lemma plan_class_truthful:
  assumes "scrape_plan plan" and "resolve_proxy_plan U env plan target = Inr p"
  shows "\<exists>c. truthful_proxy_class p (pn_required plan) = Inr c
     \<and> (c = ClassDirect \<longleftrightarrow> p = None)
     \<and> (\<forall>cfg. p = Some cfg \<longrightarrow> px_class cfg = Some c)
     \<and> (\<forall>r. pn_required plan = Some r \<longrightarrow> c = r)
     \<and> (pn_required plan = None \<and> p \<noteq> None \<longrightarrow> c = Datacenter)"
proof -
  from assms(2) obtain r where c: "check_plan plan r = Inr p"
    and r: "r = None \<or> (\<exists>cfg. r = Some (set_proxy_class (plan_class plan) cfg))"
    by (auto simp: resolve_proxy_plan_def res_simps split: option.splits)
  from c have p: "p = r" by (simp add: check_plan_Inr)
  show ?thesis
  proof (cases r)
    case None
    with c p show ?thesis by (auto simp: check_plan_Inr truthful_proxy_class_def requires_upstream_def)
  next
    case (Some cfg)
    with r plan_class_scrape[OF assms(1)] have "px_class cfg = Some (case pn_required plan of
        Some c \<Rightarrow> if requires_upstream c then c else Datacenter | None \<Rightarrow> Datacenter)"
      by (auto simp: set_proxy_class_def)
    with c p Some show ?thesis
      by (auto simp: check_plan_Inr truthful_proxy_class_def requires_upstream_def split: option.splits)
  qed
qed

section \<open>A username template is applied once\<close>

definition occurs_at :: "string \<Rightarrow> string \<Rightarrow> nat \<Rightarrow> bool" where
  "occurs_at p s j \<longleftrightarrow> starts_with (drop j s) p"

lemma find_sub_occurs: "find_sub p s = Some i \<Longrightarrow> occurs_at p s i"
  by (metis append_take_drop_id find_sub_SomeD occurs_at_def starts_with_append)

lemma occurs_find_sub:
  assumes "occurs_at p s j" "j \<le> length s"
  shows "\<exists>i. find_sub p s = Some i \<and> i \<le> j"
proof -
  from assms have "find_sub p s \<noteq> None"
    unfolding occurs_at_def starts_with_iff by (metis append_take_drop_id find_sub_append)
  then obtain i where i: "find_sub p s = Some i" by blast
  with find_sub_first[OF i, of j] assms(1) show ?thesis by (auto simp: occurs_at_def not_less[symmetric])
qed

lemma cut_at_le: "cut_at p s k \<le> k" "occurs_at p s j \<Longrightarrow> j \<le> length s \<Longrightarrow> cut_at p s k \<le> j"
  using occurs_find_sub[of p s j] by (auto simp: cut_at_def split: option.split)

lemma cut_at_cases: "cut_at p s k = k \<or> occurs_at p s (cut_at p s k)"
  by (auto simp: cut_at_def min_def find_sub_occurs split: option.split)

lemma occurs_lower:
  assumes "occurs_at p s j" "to_lower p = p"
  shows "occurs_at p (to_lower s) j"
proof -
  from assms(1) obtain r where "drop j s = p @ r" by (auto simp: occurs_at_def starts_with_iff)
  then have "drop j (to_lower s) = p @ to_lower r"
    using assms(2) by (metis drop_map to_lower_def map_append)
  then show ?thesis by (simp add: occurs_at_def)
qed

text \<open>Of the four cuts the ones in the lowercase text decide.\<close>

definition token_cut :: "string \<Rightarrow> nat" where
  "token_cut t = cut_at ''-sessid-'' (to_lower t) (cut_at ''-cc-'' (to_lower t)
     (cut_at ''-sessid-'' t (cut_at ''-cc-'' t (length t))))"

lemma lower_tokens: "to_lower ''-cc-'' = ''-cc-''" "to_lower ''-sessid-'' = ''-sessid-''"
  by code_simp+

lemma token_cut_le: "token_cut t \<le> length t"
  unfolding token_cut_def by (meson cut_at_le(1) le_trans)

lemma token_cut_occurs:
  assumes "p \<in> {''-cc-'', ''-sessid-''}" "occurs_at p (to_lower t) j" "j \<le> length t"
  shows "token_cut t \<le> j"
proof -
  let ?k = "cut_at ''-cc-'' (to_lower t) (cut_at ''-sessid-'' t (cut_at ''-cc-'' t (length t)))"
  from assms(1) consider "p = ''-cc-''" | "p = ''-sessid-''" by blast
  then show ?thesis
  proof cases
    case 1
    have "?k \<le> j" using assms 1 by (intro cut_at_le(2)) auto
    with cut_at_le(1)[of "''-sessid-''" "to_lower t" ?k] show ?thesis by (simp add: token_cut_def)
  next
    case 2
    then show ?thesis unfolding token_cut_def using assms by (intro cut_at_le(2)) auto
  qed
qed

lemma token_cut_cases:
  "token_cut t = length t \<or> (\<exists>p \<in> {''-cc-'', ''-sessid-''}. occurs_at p (to_lower t) (token_cut t))"
  using cut_at_cases[of "''-cc-''" t "length t"]
    cut_at_cases[of "''-sessid-''" t "cut_at ''-cc-'' t (length t)"]
    cut_at_cases[of "''-cc-''" "to_lower t" "cut_at ''-sessid-'' t (cut_at ''-cc-'' t (length t))"]
    cut_at_cases[of "''-sessid-''" "to_lower t" "cut_at ''-cc-'' (to_lower t) (cut_at ''-sessid-'' t (cut_at ''-cc-'' t (length t)))"]
    occurs_lower[OF _ lower_tokens(1), of t] occurs_lower[OF _ lower_tokens(2), of t]
  unfolding token_cut_def by (metis insertCI)

lemma strip_tokens_eq:
  "strip_username_template_tokens u = trim_end_char (CHR ''-'') (take (token_cut (trim u)) (trim u))"
  by (simp add: strip_username_template_tokens_def token_cut_def Let_def trim_end_char_def)

text \<open>Trimming leaves text alone that neither starts nor ends with whitespace.\<close>

lemma ws_len_trim_start: "ws_len (trim_start s) = 0"
proof (induction s rule: trim_start.induct)
  case (1 s)
  show ?case
  proof (cases "ws_len s = 0")
    case False
    with "1" have "ws_len (trim_start (drop (ws_len s) s)) = 0" by blast
    moreover have "trim_start s = trim_start (drop (ws_len s) s)"
      using False by (subst trim_start.simps) simp
    ultimately show ?thesis by simp
  qed (simp add: trim_start.simps)
qed

lemma rws_len_rtrim: "rws_len (rtrim s) = 0"
proof (induction s rule: rtrim.induct)
  case (1 s)
  show ?case
  proof (cases "rws_len s = 0")
    case False
    with "1" have "rws_len (rtrim (drop (rws_len s) s)) = 0" by blast
    moreover have "rtrim s = rtrim (drop (rws_len s) s)" using False by (subst rtrim.simps) simp
    ultimately show ?thesis by simp
  qed (simp add: rtrim.simps)
qed

lemma ws_len_prefix: "prefix p s \<Longrightarrow> ws_len s = 0 \<Longrightarrow> ws_len p = 0"
proof -
  assume "prefix p s" "ws_len s = 0"
  then obtain r where s: "s = p @ r" by (auto simp: prefix_def)
  with \<open>ws_len s = 0\<close> show ?thesis
    by (cases p rule: ws_len.cases; cases r rule: ws_len.cases) (auto split: if_splits)
qed

lemma ws_len_trim: "ws_len (trim s) = 0" "rws_len (rev (trim s)) = 0"
  using ws_len_prefix[OF trim_end_prefix ws_len_trim_start] by (simp_all add: trim_def trim_end_def rws_len_rtrim)

lemma trim_fixed: "ws_len s = 0 \<Longrightarrow> rws_len (rev s) = 0 \<Longrightarrow> trim s = s"
  by (simp add: trim_def trim_end_def trim_start.simps rtrim.simps)

lemma ws_len_dash: "ws_len b = 0 \<Longrightarrow> b \<noteq> [] \<Longrightarrow> ws_len (b @ CHR ''-'' # y) = 0"
  by (cases b rule: ws_len.cases; cases y) (auto simp: ws2_def ws3_def split: if_splits)

lemma rws_len_dash: "rws_len b = 0 \<Longrightarrow> b \<noteq> [] \<Longrightarrow> rws_len (b @ CHR ''-'' # y) = 0"
  by (cases b rule: rws_len.cases; cases y) (auto simp: ws2_def ws3_def split: if_splits)

lemma trim_dashed:
  assumes "ws_len a = 0" "a \<noteq> []" "rws_len (rev b) = 0" "b \<noteq> []"
  shows "trim (a @ CHR ''-'' # y @ CHR ''-'' # b) = a @ CHR ''-'' # y @ CHR ''-'' # b"
  using ws_len_dash[OF assms(1,2), of "y @ CHR ''-'' # b"] rws_len_dash[of "rev b" "rev y @ CHR ''-'' # rev a"] assms
  by (intro trim_fixed) simp_all

text \<open>What is left after stripping.\<close>

definition bare_name :: "string \<Rightarrow> bool" where
  "bare_name b \<longleftrightarrow> b \<noteq> [] \<and> ws_len b = 0 \<and> last b \<noteq> CHR ''-''
     \<and> (\<forall>p \<in> {''-cc-'', ''-sessid-''}. \<forall>j. \<not> occurs_at p (to_lower b) j)"

lemma occurs_length: "occurs_at p s j \<Longrightarrow> p \<noteq> [] \<Longrightarrow> j + length p \<le> length s"
  by (cases "j \<le> length s") (auto simp: occurs_at_def starts_with_iff dest!: arg_cong[of _ _ length])

lemma occurs_append: "occurs_at p a j \<Longrightarrow> p \<noteq> [] \<Longrightarrow> occurs_at p (a @ b) j"
  using occurs_length[of p a j] by (auto simp: occurs_at_def starts_with_iff)

lemma prefix_trim_end_char: "\<exists>r. s = trim_end_char c s @ r"
  by (metis rev_append rev_rev_ident takeWhile_dropWhile_id trim_end_char_def)

lemma last_trim_end_char: "trim_end_char c s \<noteq> [] \<Longrightarrow> last (trim_end_char c s) \<noteq> c"
  using hd_dropWhile[of "\<lambda>d. d = c" "rev s"] by (simp add: trim_end_char_def last_rev)

lemma trim_end_char_fixed: "b \<noteq> [] \<Longrightarrow> last b \<noteq> c \<Longrightarrow> trim_end_char c b = b"
  by (cases b rule: rev_cases) (simp_all add: trim_end_char_def)

lemma strip_bare:
  assumes "strip_username_template_tokens u \<noteq> []"
  shows "bare_name (strip_username_template_tokens u)"
proof -
  let ?t = "trim u" and ?b = "strip_username_template_tokens u"
  let ?k = "token_cut ?t"
  have b: "?b = trim_end_char (CHR ''-'') (take ?k ?t)" by (rule strip_tokens_eq)
  obtain r where r: "take ?k ?t = ?b @ r" using prefix_trim_end_char b by metis
  have len: "length ?b \<le> ?k"
    using r token_cut_le[of ?t] by (metis length_append length_take le_add1 min.absorb2)
  have t: "?t = ?b @ r @ drop ?k ?t" using r by (metis append_assoc append_take_drop_id)
  have "ws_len ?b = 0"
    using ws_len_prefix[of ?b ?t] t ws_len_trim(1)[of u] by (metis prefixI)
  moreover have "\<not> occurs_at p (to_lower ?b) j" if p: "p \<in> {''-cc-'', ''-sessid-''}" for p j
  proof
    assume o: "occurs_at p (to_lower ?b) j"
    from p have "p \<noteq> []" by auto
    have "j + length p \<le> length ?b" using occurs_length[OF o \<open>p \<noteq> []\<close>] by simp
    moreover have "occurs_at p (to_lower ?t) j"
      using occurs_append[OF o \<open>p \<noteq> []\<close>, of "to_lower (r @ drop ?k ?t)"] t by (metis to_lower_append)
    moreover have "0 < length p" using \<open>p \<noteq> []\<close> by simp
    ultimately show False
      using token_cut_occurs[OF p, of ?t j] len token_cut_le[of ?t] by linarith
  qed
  ultimately show ?thesis
    using assms last_trim_end_char[of "CHR ''-''" "take ?k ?t"] b by (simp add: bare_name_def)
qed

text \<open>A token that starts inside a bare name and ends after it needs the name to end in its letters.\<close>

lemma fresh_split:
  assumes "a @ d # x = b @ d # y" "d \<notin> set a" "d \<notin> set b"
  shows "a = b"
proof -
  have "split_once d (a @ d # x) = Some (a, x)" "split_once d (b @ d # y) = Some (b, y)"
    using assms(2,3) by (simp_all add: split_once_Some_iff)
  then have "Some (a, x) = Some (b, y)" unfolding assms(1) by (rule trans[OF sym])
  then show ?thesis by blast
qed

lemma lower_char_dash: "lower_char c = CHR ''-'' \<Longrightarrow> c = CHR ''-''"
  using code_lower_char[of c] by (cases "is_upper c") (simp add: is_upper_def, simp add: lower_char_def)

lemma straddle:
  assumes "starts_with (r @ CHR ''-'' # y) (CHR ''-'' # m @ [CHR ''-''])"
    and "CHR ''-'' \<notin> set m" and "r \<noteq> []" and "last r \<noteq> CHR ''-''"
    and "\<not> starts_with r (CHR ''-'' # m @ [CHR ''-''])"
  shows "r = CHR ''-'' # m"
proof -
  obtain z where z: "r @ CHR ''-'' # y = CHR ''-'' # m @ CHR ''-'' # z"
    using assms(1) by (auto simp: starts_with_iff)
  then obtain r' where r: "r = CHR ''-'' # r'" using assms(3) by (cases r) auto
  with z have e: "r' @ CHR ''-'' # y = m @ CHR ''-'' # z" by simp
  show ?thesis
  proof (cases "CHR ''-'' \<in> set r'")
    case True
    then obtain a b where ab: "r' = a @ CHR ''-'' # b" "CHR ''-'' \<notin> set a" by (metis split_list_first)
    with e have "a @ CHR ''-'' # (b @ CHR ''-'' # y) = m @ CHR ''-'' # z" by simp
    from fresh_split[OF this ab(2) assms(2)] have "a = m" .
    with ab r assms(5) show ?thesis by (auto simp: starts_with_iff)
  next
    case False
    from fresh_split[OF e False assms(2)] have "r' = m" .
    with r show ?thesis by simp
  qed
qed

definition ends_token :: "string \<Rightarrow> bool" where
  "ends_token b \<longleftrightarrow> ends_with (to_lower b) ''-cc'' \<or> ends_with (to_lower b) ''-sessid''"

lemma ends_with_drop: "ends_with s (drop j s)"
  by (metis append_take_drop_id ends_with_def rev_append starts_with_append)

lemma token_shape: "''-cc-'' = CHR ''-'' # ''cc'' @ ''-''" "''-sessid-'' = CHR ''-'' # ''sessid'' @ ''-''"
  by simp_all

lemma no_token_inside:
  assumes "bare_name b" "\<not> ends_token b" "p \<in> {''-cc-'', ''-sessid-''}" "j < length b"
  shows "\<not> occurs_at p (to_lower (b @ CHR ''-'' # y)) j"
proof
  assume o: "occurs_at p (to_lower (b @ CHR ''-'' # y)) j"
  let ?r = "drop j (to_lower b)"
  have "p = CHR ''-'' # ''cc'' @ ''-'' \<or> p = CHR ''-'' # ''sessid'' @ ''-''" using assms(3) by simp
  then obtain m where m: "p = CHR ''-'' # m @ ''-''" "m = ''cc'' \<or> m = ''sessid''" by blast
  have dash: "lower_char (CHR ''-'') = CHR ''-''" by code_simp
  have "starts_with (?r @ CHR ''-'' # to_lower y) p"
    using o assms(4) dash by (simp add: occurs_at_def)
  moreover have "?r \<noteq> []" using assms(4) by simp
  moreover have "last ?r \<noteq> CHR ''-''"
  proof
    assume "last ?r = CHR ''-''"
    moreover have "b \<noteq> []" using assms(4) by auto
    ultimately have "lower_char (last b) = CHR ''-''" using assms(4) by (simp add: last_map to_lower_def)
    then have "last b = CHR ''-''" by (rule lower_char_dash)
    with assms(1) show False by (simp add: bare_name_def)
  qed
  moreover have "\<not> starts_with ?r p"
    using assms(1,3) by (auto simp: bare_name_def occurs_at_def)
  ultimately have "?r = CHR ''-'' # m"
    using m straddle[of ?r "to_lower y" m] by auto
  with m(2) ends_with_drop[of "to_lower b" j] assms(2) show False
    by (auto simp: ends_token_def)
qed

lemma strip_decorated:
  assumes "bare_name b" "\<not> ends_token b" "trim (b @ CHR ''-'' # y) = b @ CHR ''-'' # y"
    and "p \<in> {''-cc-'', ''-sessid-''}" "starts_with (CHR ''-'' # y) p"
  shows "strip_username_template_tokens (b @ CHR ''-'' # y) = b"
proof -
  let ?u = "b @ CHR ''-'' # y"
  from assms(4) have "to_lower p = p" using lower_tokens by auto
  moreover have "occurs_at p ?u (length b)" using assms(5) by (simp add: occurs_at_def)
  ultimately have "token_cut ?u \<le> length b"
    using token_cut_occurs[OF assms(4) occurs_lower, of ?u "length b"] by simp
  moreover have "length b \<le> token_cut ?u"
    using token_cut_cases[of ?u] no_token_inside[OF assms(1,2)] by (metis length_append le_add1 not_le_imp_less)
  ultimately have "token_cut ?u = length b" by simp
  moreover have "b \<noteq> []" "last b \<noteq> CHR ''-''" using assms(1) by (simp_all add: bare_name_def)
  ultimately show ?thesis by (simp add: strip_tokens_eq assms(3) trim_end_char_fixed)
qed

lemma trim_trim [simp]: "trim (trim s) = trim s"
  by (rule trim_fixed) (simp_all add: ws_len_trim)

lemma strip_trim [simp]: "strip_username_template_tokens (trim s) = strip_username_template_tokens s"
  by (simp add: strip_tokens_eq)

lemma non_blank_Some: "non_blank s = Some t \<Longrightarrow> t \<noteq> [] \<and> trim t = t \<and> rws_len (rev t) = 0"
  using ws_len_trim by (auto simp: non_blank_def split: option.splits if_splits)

lemma decorated_shape:
  assumes "bare_name b"
    and "non_blank c \<noteq> None \<or> non_blank s \<noteq> None"
  shows "\<exists>y. decorated b (non_blank c) (non_blank s) = b @ CHR ''-'' # y
     \<and> trim (b @ CHR ''-'' # y) = b @ CHR ''-'' # y
     \<and> (starts_with (CHR ''-'' # y) ''-cc-'' \<or> starts_with (CHR ''-'' # y) ''-sessid-'')"
proof -
  have b: "ws_len b = 0" "b \<noteq> []" using assms(1) by (simp_all add: bare_name_def)
  note t = trim_dashed[OF b]
  show ?thesis
  proof (cases "non_blank s")
    case None
    with assms(2) obtain c' where "non_blank c = Some c'" by auto
    with None t[of c' "''cc''"] non_blank_Some[of c c'] show ?thesis
      by (intro exI[of _ "''cc-'' @ c'"]) (simp add: decorated_def starts_with_def)
  next
    case s: (Some s')
    show ?thesis
    proof (cases "non_blank c")
      case None
      with s t[of s' "''sessid''"] non_blank_Some[of s s'] show ?thesis
        by (intro exI[of _ "''sessid-'' @ s'"]) (simp add: decorated_def starts_with_def)
    next
      case (Some c')
      with s t[of s' "''cc-'' @ c' @ ''-sessid''"] non_blank_Some[of s s'] show ?thesis
        by (intro exI[of _ "''cc-'' @ c' @ ''-sessid-'' @ s'"]) (simp add: decorated_def starts_with_def)
    qed
  qed
qed

text \<open>
  Decorating a proxy username with the country and session of a scrape is idempotent: a name
  that already carries them is left as it is, so a credential from the environment is not decorated
  twice. The customer part must not itself end in \<^verbatim>\<open>-cc\<close> or \<^verbatim>\<open>-sessid\<close>.
\<close>

theorem username_template_idempotent:
  assumes "render_username base opts = Inr (Some u)" and "non_blank (uo_template opts) = None"
    and "\<not> ends_token (strip_username_template_tokens (or_empty base))"
  shows "render_username (Some u) opts = Inr (Some u)"
proof (cases "non_blank (uo_country opts) = None \<and> non_blank (uo_session opts) = None")
  case True
  with assms(1,2) have "u = trim (or_empty base)" "u \<noteq> []"
    by (auto simp: render_username_def Let_def split: if_splits)
  with True assms(2) show ?thesis by (simp add: render_username_def Let_def or_empty_def)
next
  case False
  let ?b = "strip_username_template_tokens (or_empty base)"
  from assms(1,2) False have u: "u = decorated ?b (non_blank (uo_country opts)) (non_blank (uo_session opts))"
    and b: "?b \<noteq> []"
    by (auto simp: render_username_def Let_def split: if_splits)
  have bare: "bare_name ?b" by (rule strip_bare[OF b])
  have ne: "non_blank (uo_country opts) \<noteq> None \<or> non_blank (uo_session opts) \<noteq> None" using False by (simp only: de_Morgan_conj)
  from decorated_shape[OF bare ne] obtain y where
    d: "decorated ?b (non_blank (uo_country opts)) (non_blank (uo_session opts)) = ?b @ CHR ''-'' # y"
    and y: "trim (?b @ CHR ''-'' # y) = ?b @ CHR ''-'' # y"
      "starts_with (CHR ''-'' # y) ''-cc-'' \<or> starts_with (CHR ''-'' # y) ''-sessid-''"
    by (elim exE conjE)
  have "strip_username_template_tokens u = ?b"
    unfolding u d using strip_decorated[OF bare assms(3) y(1)] y(2) by blast
  moreover have "or_empty (Some u) = u" by (simp add: or_empty_def)
  ultimately show ?thesis using False assms(2) u b by (auto simp: render_username_def Let_def)
qed

definition demo_username_options :: username_options where
  "demo_username_options = \<lparr> uo_country = Some '' US '', uo_session = Some ''S1'', uo_template = None \<rparr>"

theorem username_template_idempotent_witness:
  "\<exists>u. render_username (Some ''customer-x-cc-DE'') demo_username_options = Inr (Some u)
     \<and> u = ''customer-x-cc-US-sessid-S1'' \<and> render_username (Some u) demo_username_options = Inr (Some u)"
proof -
  let ?u = "''customer-x-cc-US-sessid-S1''"
  have r: "render_username (Some ''customer-x-cc-DE'') demo_username_options = Inr (Some ?u)" by code_simp
  have t: "non_blank (uo_template demo_username_options) = None" by code_simp
  have e: "\<not> ends_token (strip_username_template_tokens (or_empty (Some ''customer-x-cc-DE'')))" by code_simp
  from username_template_idempotent[OF r t e] r show ?thesis by blast
qed

lemma username_template_strips_too_much:
  "render_username (Some ''x-cc'') demo_username_options = Inr (Some ''x-cc-cc-US-sessid-S1'')"
  "render_username (Some ''x-cc-cc-US-sessid-S1'') demo_username_options = Inr (Some ''x-cc-US-sessid-S1'')"
  by code_simp+

text \<open>The text that a host sees of a configuration does not depend on its credentials.\<close>

lemma redacted_url_hides_credentials:
  "redacted_url (cfg \<lparr> px_username := Some u, px_password := p \<rparr>)
     = redacted_url (cfg \<lparr> px_username := Some u', px_password := p' \<rparr>)"
  by (simp add: redacted_url_def)

section \<open>One residential dial at a time\<close>

text \<open>
  The process-wide slot and the guards that hold it. Every acquisition and every drop of a guard is
  one step, in whatever order the threads take them; a refused acquisition changes nothing.
\<close>

record dial_slot =
  ds_holder :: "string option"
  ds_guards :: "string list"

definition MAX_LIVE_RESIDENTIAL_CONCURRENT :: nat where
  "MAX_LIVE_RESIDENTIAL_CONCURRENT = 1"

definition acquire_residential_dial_slot :: "string \<Rightarrow> dial_slot \<Rightarrow> (core_error, unit) result \<times> dial_slot" where
  "acquire_residential_dial_slot owner s =
     (case ds_holder s of
        Some held \<Rightarrow>
          (Inl (ResidentialConcurrency (''refusing concurrent residential dial (holder='' @ held
             @ '', requested='' @ owner @ ''); max='' @ show_nat MAX_LIVE_RESIDENTIAL_CONCURRENT)), s)
      | None \<Rightarrow> (Inr (), \<lparr> ds_holder = Some owner, ds_guards = owner # ds_guards s \<rparr>))"

definition drop_dial_guard :: "string \<Rightarrow> dial_slot \<Rightarrow> dial_slot" where
  "drop_dial_guard owner s = \<lparr> ds_holder = None, ds_guards = remove1 owner (ds_guards s) \<rparr>"

inductive slot_step :: "dial_slot \<Rightarrow> dial_slot \<Rightarrow> bool" where
  slot_acquire: "acquire_residential_dial_slot owner s = (r, s') \<Longrightarrow> slot_step s s'"
| slot_drop: "owner \<in> set (ds_guards s) \<Longrightarrow> slot_step s (drop_dial_guard owner s)"

definition free_slot :: dial_slot where
  "free_slot = \<lparr> ds_holder = None, ds_guards = [] \<rparr>"

lemma slot_step_ok:
  assumes "slot_step s s'" "ds_guards s = (case ds_holder s of None \<Rightarrow> [] | Some o' \<Rightarrow> [o'])"
  shows "ds_guards s' = (case ds_holder s' of None \<Rightarrow> [] | Some o' \<Rightarrow> [o'])"
  using assms
  by (induction rule: slot_step.induct)
    (auto simp: acquire_residential_dial_slot_def drop_dial_guard_def split: option.splits)

text \<open>
  However acquisitions and drops interleave, at most one guard lives, and the slot names its
  holder exactly while it does; so a second residential dial is refused until the first has ended,
  and not after.
\<close>

theorem residential_dials_exclusive:
  assumes "slot_step\<^sup>*\<^sup>* free_slot s"
  shows "ds_guards s = (case ds_holder s of None \<Rightarrow> [] | Some o' \<Rightarrow> [o'])
     \<and> length (ds_guards s) \<le> MAX_LIVE_RESIDENTIAL_CONCURRENT
     \<and> (is_ok (fst (acquire_residential_dial_slot owner s)) \<longleftrightarrow> ds_guards s = [])"
proof -
  have "ds_guards s = (case ds_holder s of None \<Rightarrow> [] | Some o' \<Rightarrow> [o'])"
    using assms by (induction rule: rtranclp_induct) (simp_all add: free_slot_def slot_step_ok)
  then show ?thesis
    by (auto simp: MAX_LIVE_RESIDENTIAL_CONCURRENT_def acquire_residential_dial_slot_def split: option.splits)
qed

theorem residential_dials_exclusive_witness:
  "\<exists>s. slot_step\<^sup>*\<^sup>* free_slot s \<and> ds_holder s = Some ''a''
     \<and> \<not> is_ok (fst (acquire_residential_dial_slot ''b'' s))"
proof -
  let ?s = "snd (acquire_residential_dial_slot ''a'' free_slot)"
  have r: "slot_step\<^sup>*\<^sup>* free_slot ?s"
    by (rule r_into_rtranclp) (rule slot_acquire, rule prod.collapse[symmetric])
  have "ds_guards ?s = [''a'']" "ds_holder ?s = Some ''a''"
    by (simp_all add: acquire_residential_dial_slot_def free_slot_def)
  with residential_dials_exclusive[OF r, of "''b''"] r show ?thesis by (intro exI[of _ ?s]) auto
qed

section \<open>A concrete environment\<close>

definition demo_login_ops :: "demo_url login_ops" where
  "demo_login_ops = url_ops.extend demo_url_ops (login_ops.fields (\<lambda>_. ''customer'') (\<lambda>_. Some ''secret''))"

definition demo_plan :: proxy_plan where
  "demo_plan = \<lparr> pn_explicit_url = Some ''https://a.example/'', pn_username = demo_username_options,
     pn_required = Some Residential, pn_configured = Some Residential \<rparr>"

lemma plan_class_truthful_witness:
  "\<exists>p. resolve_proxy_plan demo_login_ops (\<lambda>_. None) demo_plan (site ''/'') = Inr (Some p)
     \<and> truthful_proxy_class (Some p) (Some Residential) = Inr Residential"
proof -
  have s: "scrape_plan demo_plan" by code_simp
  let ?p = "\<lparr> px_kind = ProxyHttps, px_host = ''a.example'', px_port = 443,
    px_username = Some ''customer-cc-US-sessid-S1'', px_password = Some ''secret'', px_class = Some Residential \<rparr>"
  have u: "render_username (Some ''customer'') demo_username_options = Inr (Some ''customer-cc-US-sessid-S1'')"
    by code_simp
  have e: "non_blank (Some ''https://a.example/'') = Some ''https://a.example/''" by code_simp
  have q: "parse_proxy demo_login_ops ''https://a.example/''
      = Inr (?p \<lparr> px_username := Some ''customer'', px_class := Some Datacenter \<rparr>)" by code_simp
  have p: "resolve_proxy_plan demo_login_ops (\<lambda>_. None) demo_plan (site ''/'') = Inr (Some ?p)"
    by (simp add: resolve_proxy_plan_def resolve_proxy_def demo_plan_def e q apply_username_template_def u
        set_proxy_class_def plan_class_def requires_upstream_def check_plan_def)
  from plan_class_truthful[OF s p] p show ?thesis by (auto simp: demo_plan_def)
qed

end
