(* ===== verification/Browser_Dns.thy ===== *)
theory Browser_Dns
  imports Dns_Resolver
begin

text \<open>
  The sealed SOCKS5 front of Chromium, \<^verbatim>\<open>basecrawl-seal/src/browser_dns.rs\<close>: one connection from its
  greeting to the dialled origin, and the two copying threads of its tunnel. The client's socket,
  the dialer and the clock are the fields of \<open>socks_net\<close>; the resolver is an argument, as in
  \<open>resolve_for_connect\<close>. A connection that never returns is \<open>None\<close>; \<^verbatim>\<open>Err(())\<close> is the inner \<open>None\<close>.
\<close>

section \<open>Connections\<close>

type_synonym ('a, 'w) conn_step = "('a option \<times> 'w) option"

fun conn_then :: "('a, 'w) conn_step \<Rightarrow> ('a \<Rightarrow> 'w \<Rightarrow> ('b, 'w) conn_step) \<Rightarrow> ('b, 'w) conn_step" where
  "conn_then None f = None"
| "conn_then (Some (None, w)) f = Some (None, w)"
| "conn_then (Some (Some a, w)) f = f a w"

lemma conn_then_Some:
  "conn_then s f = Some (Some b, w') \<longleftrightarrow> (\<exists>a w. s = Some (Some a, w) \<and> f a w = Some (Some b, w'))"
  by (cases "(s, f)" rule: conn_then.cases) auto

fun conn_io :: "bool \<times> 'w \<Rightarrow> (unit, 'w) conn_step" where
  "conn_io (True, w) = Some (Some (), w)"
| "conn_io (False, w) = Some (None, w)"

record ('u, 'w) socks_net =
  sk_set_timeout :: "bool \<Rightarrow> nat \<Rightarrow> 'w \<Rightarrow> bool \<times> 'w"
  sk_read_exact :: "nat \<Rightarrow> 'w \<Rightarrow> string option \<times> 'w"
  sk_write :: "string \<Rightarrow> 'w \<Rightarrow> bool \<times> 'w"
  sk_flush :: "'w \<Rightarrow> bool \<times> 'w"
  sk_now :: "'w \<Rightarrow> nat \<times> 'w"
  sk_dial :: "socket_addr \<Rightarrow> nat \<Rightarrow> 'w \<Rightarrow> ('u, 'w) dns_step"
  sk_set_upstream_timeout :: "bool \<Rightarrow> nat \<Rightarrow> 'u \<Rightarrow> 'w \<Rightarrow> 'w"
  sk_local_addr :: "'u \<Rightarrow> 'w \<Rightarrow> socket_addr option"

definition SEALED_BROWSER_DNS_MARKER :: string where
  "SEALED_BROWSER_DNS_MARKER = ''basecrawl-seal/browser-socks-doh-v1''"

definition COMPOSER_MARKER :: string where
  "COMPOSER_MARKER = ''basecrawl-seal/browser-composer-doh-proxy-v1''"

text \<open>Durations are in milliseconds.\<close>

definition CLIENT_TIMEOUT :: nat where "CLIENT_TIMEOUT = 30000"
definition CONNECT_BUDGET :: nat where "CONNECT_BUDGET = 15000"

definition unspecified :: socket_addr where
  "unspecified = (IpV4 [0, 0, 0, 0], 0)"

section \<open>Replies\<close>

fun address_bytes :: "ip_addr \<Rightarrow> string" where
  "address_bytes (IpV4 octets) = map char_of octets"
| "address_bytes (IpV6 octets) = map char_of octets"

fun address_type :: "ip_addr \<Rightarrow> char" where
  "address_type (IpV4 octets) = CHR 0x01"
| "address_type (IpV6 octets) = CHR 0x04"

definition socks_reply :: "nat \<Rightarrow> socket_addr \<Rightarrow> string" where
  "socks_reply rep bind = (case bind of (ip, port) \<Rightarrow>
     [CHR 0x05, char_of rep, CHR 0x00, address_type ip] @ address_bytes ip @ be16 port)"

definition write_socks_reply :: "('u, 'w) socks_net \<Rightarrow> nat \<Rightarrow> socket_addr \<Rightarrow> 'w \<Rightarrow> bool \<times> 'w" where
  "write_socks_reply N rep bind w =
     (case sk_write N (socks_reply rep bind) w of
        (False, w) \<Rightarrow> (False, w) | (True, w) \<Rightarrow> sk_flush N w)"

text \<open>A refusal: the reply is written, whether that succeeds or not, and the connection ends.\<close>

definition refuse :: "('u, 'w) socks_net \<Rightarrow> nat \<Rightarrow> 'w \<Rightarrow> ('a, 'w) conn_step" where
  "refuse N rep w = Some (None, snd (write_socks_reply N rep unspecified w))"

section \<open>One connection\<close>

definition read_bytes :: "('u, 'w) socks_net \<Rightarrow> nat \<Rightarrow> 'w \<Rightarrow> (string, 'w) conn_step" where
  "read_bytes N n w = Some (sk_read_exact N n w)"

definition read_greeting :: "('u, 'w) socks_net \<Rightarrow> 'w \<Rightarrow> (unit, 'w) conn_step" where
  "read_greeting N w =
     conn_then (read_bytes N 2 w) (\<lambda>header w.
       if header ! 0 \<noteq> CHR 0x05 then Some (None, w)
       else conn_then (if 0 < code (header ! 1) then read_bytes N (code (header ! 1)) w else Some (Some [], w)) (\<lambda>_ w.
            conn_then (conn_io (sk_write N [CHR 0x05, CHR 0x00] w)) (\<lambda>_ w.
              conn_io (sk_flush N w))))"

definition read_target ::
    "('u, 'w) socks_net \<Rightarrow> (string \<Rightarrow> nat \<Rightarrow> nat \<Rightarrow> 'w \<Rightarrow> (socket_addr list, 'w) dns_step) \<Rightarrow> nat \<Rightarrow> char \<Rightarrow> 'w
     \<Rightarrow> (socket_addr, 'w) conn_step" where
  "read_target N resolver deadline atyp w =
     (if atyp = CHR 0x01 then
        conn_then (read_bytes N 4 w) (\<lambda>ip w.
        conn_then (read_bytes N 2 w) (\<lambda>port w. Some (Some (IpV4 (map code ip), frame_length port), w)))
      else if atyp = CHR 0x03 then
        conn_then (read_bytes N 1 w) (\<lambda>len w.
        conn_then (read_bytes N (code (len ! 0)) w) (\<lambda>host w.
        conn_then (read_bytes N 2 w) (\<lambda>port w.
          if \<not> utf8_ok host then Some (None, w)
          else case resolve_for_connect resolver host (frame_length port) deadline w of
            None \<Rightarrow> None
          | Some (Inl _, w) \<Rightarrow> refuse N 0x04 w
          | Some (Inr addr, w) \<Rightarrow> Some (Some addr, w))))
      else if atyp = CHR 0x04 then
        conn_then (read_bytes N 16 w) (\<lambda>ip w.
        conn_then (read_bytes N 2 w) (\<lambda>port w. Some (Some (IpV6 (map code ip), frame_length port), w)))
      else refuse N 0x08 w)"

definition dial_target :: "('u, 'w) socks_net \<Rightarrow> nat \<Rightarrow> socket_addr \<Rightarrow> 'w \<Rightarrow> ('u, 'w) conn_step" where
  "dial_target N deadline target w =
     (case sk_dial N target deadline w of
        None \<Rightarrow> None
      | Some (Inl _, w) \<Rightarrow> refuse N 0x05 w
      | Some (Inr upstream, w) \<Rightarrow>
          let w = sk_set_upstream_timeout N True CLIENT_TIMEOUT upstream w;
              w = sk_set_upstream_timeout N False CLIENT_TIMEOUT upstream w;
              bind = (case sk_local_addr N upstream w of Some a \<Rightarrow> a | None \<Rightarrow> unspecified)
          in conn_then (conn_io (write_socks_reply N 0x00 bind w)) (\<lambda>_ w. Some (Some upstream, w)))"

text \<open>\<^verbatim>\<open>handle_client\<close> up to the tunnel; it returns the origin's stream.\<close>

definition handle_client ::
    "('u, 'w) socks_net \<Rightarrow> (string \<Rightarrow> nat \<Rightarrow> nat \<Rightarrow> 'w \<Rightarrow> (socket_addr list, 'w) dns_step) \<Rightarrow> 'w
     \<Rightarrow> ('u, 'w) conn_step" where
  "handle_client N resolver w =
     conn_then (conn_io (sk_set_timeout N True CLIENT_TIMEOUT w)) (\<lambda>_ w.
     conn_then (conn_io (sk_set_timeout N False CLIENT_TIMEOUT w)) (\<lambda>_ w.
     conn_then (read_greeting N w) (\<lambda>_ w.
     conn_then (read_bytes N 4 w) (\<lambda>req w.
       if req ! 0 \<noteq> CHR 0x05 \<or> req ! 1 \<noteq> CHR 0x01 then refuse N 0x07 w
       else case sk_now N w of (t, w) \<Rightarrow>
         conn_then (read_target N resolver (t + CONNECT_BUDGET) (req ! 3) w) (\<lambda>target w.
           dial_target N (t + CONNECT_BUDGET) target w)))))"

text \<open>A read of the socket returns as many bytes as were asked for.\<close>

definition reads_exactly :: "('u, 'w) socks_net \<Rightarrow> bool" where
  "reads_exactly N \<longleftrightarrow> (\<forall>n w bs w'. sk_read_exact N n w = (Some bs, w') \<longrightarrow> length bs = n)"

definition document_host_needs_sealed_resolve :: "string \<Rightarrow> bool" where
  "document_host_needs_sealed_resolve host \<longleftrightarrow> parse_ip host = None \<and> \<not> is_loopback_name host"

definition preflight_document_dns ::
    "string \<Rightarrow> nat \<Rightarrow> nat \<Rightarrow> (string \<Rightarrow> nat \<Rightarrow> nat \<Rightarrow> 'w \<Rightarrow> (socket_addr list, 'w) dns_step) \<Rightarrow> 'w
     \<Rightarrow> (socket_addr, 'w) dns_step" where
  "preflight_document_dns host port deadline resolver w = resolve_for_connect resolver host port deadline w"

text \<open>\<^verbatim>\<open>DirectOriginDialer\<close>, over a clock and a TCP connect.\<close>

definition direct_dial ::
    "('w \<Rightarrow> nat \<times> 'w) \<Rightarrow> (socket_addr \<Rightarrow> nat \<Rightarrow> 'w \<Rightarrow> (string, 'u) result \<times> 'w)
     \<Rightarrow> socket_addr \<Rightarrow> nat \<Rightarrow> 'w \<Rightarrow> ('u, 'w) dns_step" where
  "direct_dial now connect addr deadline w =
     (case now w of (t, w) \<Rightarrow>
        if deadline \<le> t then Some (dns_error ''deadline expired before origin dial'', w)
        else case connect addr (deadline - t) w of
          (Inl e, w) \<Rightarrow> Some (dns_error (''direct origin dial failed: '' @ e), w)
        | (Inr u, w) \<Rightarrow> Some (Inr u, w))"

section \<open>The tunnel\<close>

text \<open>
  The two copying threads, \<open>True\<close> from the client to the origin. A read takes some of the bytes that
  its source has still to send, at most a buffer; a read that ends or fails, and a write that fails
  after some of its bytes, ends its thread. The threads interleave freely.
\<close>

datatype copier = CopyRead | CopyWrite string | CopyDone

record tunnel =
  tn_unread :: "bool \<Rightarrow> string"
  tn_written :: "bool \<Rightarrow> string"
  tn_copier :: "bool \<Rightarrow> copier"

definition COPY_BUFFER :: nat where "COPY_BUFFER = 16 * 1024"

definition tunnel_init :: "(bool \<Rightarrow> string) \<Rightarrow> tunnel" where
  "tunnel_init src = \<lparr> tn_unread = src, tn_written = (\<lambda>_. []), tn_copier = (\<lambda>_. CopyRead) \<rparr>"

inductive tunnel_step :: "tunnel \<Rightarrow> tunnel \<Rightarrow> bool" where
  copy_read: "tn_copier s d = CopyRead \<Longrightarrow> tn_unread s d = bs @ rest \<Longrightarrow> bs \<noteq> [] \<Longrightarrow> length bs \<le> COPY_BUFFER \<Longrightarrow>
    tunnel_step s (s \<lparr> tn_unread := (tn_unread s)(d := rest), tn_copier := (tn_copier s)(d := CopyWrite bs) \<rparr>)"
| copy_end: "tn_copier s d = CopyRead \<Longrightarrow> tunnel_step s (s \<lparr> tn_copier := (tn_copier s)(d := CopyDone) \<rparr>)"
| copy_write: "tn_copier s d = CopyWrite bs \<Longrightarrow>
    tunnel_step s (s \<lparr> tn_written := (tn_written s)(d := tn_written s d @ bs),
                       tn_copier := (tn_copier s)(d := CopyRead) \<rparr>)"
| copy_fail: "tn_copier s d = CopyWrite (bs @ lost) \<Longrightarrow>
    tunnel_step s (s \<lparr> tn_written := (tn_written s)(d := tn_written s d @ bs),
                       tn_copier := (tn_copier s)(d := CopyDone) \<rparr>)"

definition pending_copy :: "copier \<Rightarrow> string" where
  "pending_copy c = (case c of CopyWrite bs \<Rightarrow> bs | _ \<Rightarrow> [])"

definition tunnel_ok :: "(bool \<Rightarrow> string) \<Rightarrow> tunnel \<Rightarrow> bool" where
  "tunnel_ok src s \<longleftrightarrow> (\<forall>d. prefix (tn_written s d) (src d)
     \<and> (tn_copier s d \<noteq> CopyDone \<longrightarrow> src d = tn_written s d @ pending_copy (tn_copier s d) @ tn_unread s d))"

lemma tunnel_ok_step: "tunnel_step s s' \<Longrightarrow> tunnel_ok src s \<Longrightarrow> tunnel_ok src s'"
proof (induction rule: tunnel_step.induct)
  case (copy_read s d bs rest)
  then show ?case by (auto simp: tunnel_ok_def pending_copy_def)
next
  case (copy_end s d)
  then show ?case by (auto simp: tunnel_ok_def)
next
  case (copy_write s d bs)
  then have "src d = tn_written s d @ bs @ tn_unread s d" by (auto simp: tunnel_ok_def pending_copy_def)
  with copy_write show ?case by (auto simp: tunnel_ok_def pending_copy_def)
next
  case (copy_fail s d bs lost)
  then have "src d = tn_written s d @ (bs @ lost) @ tn_unread s d" by (auto simp: tunnel_ok_def pending_copy_def)
  with copy_fail show ?case by (auto simp: tunnel_ok_def)
qed

lemma tunnel_ok_reachable: "tunnel_step\<^sup>*\<^sup>* s s' \<Longrightarrow> tunnel_ok src s \<Longrightarrow> tunnel_ok src s'"
  by (induction rule: rtranclp_induct) (auto intro: tunnel_ok_step)

lemma tunnel_ok_init: "tunnel_ok src (tunnel_init src)"
  by (simp add: tunnel_ok_def tunnel_init_def pending_copy_def)

text \<open>The work that is left: every byte is read once and written once.\<close>

definition copy_weight :: "copier \<Rightarrow> nat" where
  "copy_weight c = (case c of CopyRead \<Rightarrow> 1 | CopyWrite _ \<Rightarrow> 2 | CopyDone \<Rightarrow> 0)"

definition tunnel_fuel :: "tunnel \<Rightarrow> nat" where
  "tunnel_fuel s = (\<Sum>d \<in> {True, False}. 3 * length (tn_unread s d) + copy_weight (tn_copier s d))"

lemma tunnel_step_fuel: "tunnel_step s s' \<Longrightarrow> tunnel_fuel s' < tunnel_fuel s"
proof (induction rule: tunnel_step.induct)
  case (copy_read s d bs rest)
  then have "Suc 0 < 3 * length bs" by (cases bs) simp_all
  with copy_read show ?case by (cases d) (simp_all add: tunnel_fuel_def copy_weight_def)
next
  case (copy_end s d)
  then show ?case by (cases d) (simp_all add: tunnel_fuel_def copy_weight_def)
next
  case (copy_write s d bs)
  then show ?case by (cases d) (simp_all add: tunnel_fuel_def copy_weight_def)
next
  case (copy_fail s d bs lost)
  then show ?case by (cases d) (simp_all add: tunnel_fuel_def copy_weight_def)
qed

lemma tunnel_run_fuel: "(tunnel_step ^^ k) s s' \<Longrightarrow> k + tunnel_fuel s' \<le> tunnel_fuel s"
proof (induction k arbitrary: s')
  case (Suc k)
  from Suc.prems obtain r where r: "(tunnel_step ^^ k) s r" "tunnel_step r s'" by auto
  from Suc.IH[OF r(1)] tunnel_step_fuel[OF r(2)] show ?case by simp
qed simp

lemma tunnel_progress: "tn_copier s d \<noteq> CopyDone \<Longrightarrow> \<exists>s'. tunnel_step s s'"
  by (cases "tn_copier s d") (auto intro: tunnel_step.intros)

text \<open>
  C34: Whatever the schedule of the two threads and wherever a socket fails, each side receives an
  initial piece of what the other sent, in order and with nothing added; while a thread runs, no byte
  is lost; and no run is longer than three steps per byte and one per thread, and none is stuck
  before both threads have ended.
\<close>

theorem tunnel_faithful:
  assumes "(tunnel_step ^^ k) (tunnel_init src) s"
  shows "(\<forall>d. prefix (tn_written s d) (src d)
            \<and> (tn_copier s d \<noteq> CopyDone \<longrightarrow>
                 src d = tn_written s d @ pending_copy (tn_copier s d) @ tn_unread s d))
     \<and> k \<le> 3 * (length (src True) + length (src False)) + 2
     \<and> ((\<forall>d. tn_copier s d = CopyDone) \<or> (\<exists>s'. tunnel_step s s'))"
proof (intro conjI)
  have "tunnel_step\<^sup>*\<^sup>* (tunnel_init src) s" using assms by (auto simp: rtranclp_power)
  from tunnel_ok_reachable[OF this tunnel_ok_init]
  show "\<forall>d. prefix (tn_written s d) (src d)
      \<and> (tn_copier s d \<noteq> CopyDone \<longrightarrow> src d = tn_written s d @ pending_copy (tn_copier s d) @ tn_unread s d)"
    by (simp add: tunnel_ok_def)
  show "k \<le> 3 * (length (src True) + length (src False)) + 2"
    using tunnel_run_fuel[OF assms] by (simp add: tunnel_fuel_def tunnel_init_def copy_weight_def)
  show "(\<forall>d. tn_copier s d = CopyDone) \<or> (\<exists>s'. tunnel_step s s')"
    using tunnel_progress by blast
qed

definition demo_tunnel :: "copier \<Rightarrow> string \<Rightarrow> string \<Rightarrow> tunnel" where
  "demo_tunnel c unread written =
     \<lparr> tn_unread = (\<lambda>d. if d then unread else []), tn_written = (\<lambda>d. if d then written else []),
       tn_copier = (\<lambda>d. if d then c else CopyRead) \<rparr>"

lemma demo_tunnel_run:
  "(tunnel_step ^^ 2) (tunnel_init (\<lambda>d. if d then ''GET'' else [])) (demo_tunnel CopyRead [] ''GET'')"
proof -
  let ?s0 = "tunnel_init (\<lambda>d. if d then ''GET'' else [])"
  let ?s1 = "demo_tunnel (CopyWrite ''GET'') [] []"
  have s1: "tunnel_step ?s0 ?s1"
    using copy_read[of ?s0 True "''GET''" "[]"]
    by (simp add: tunnel_init_def demo_tunnel_def COPY_BUFFER_def fun_upd_def fun_eq_iff cong: if_cong)
  have s2: "tunnel_step ?s1 (demo_tunnel CopyRead [] ''GET'')"
    using copy_write[of ?s1 True "''GET''"] by (simp add: demo_tunnel_def fun_upd_def fun_eq_iff cong: if_cong)
  show ?thesis
    unfolding numeral_2_eq_2 relpowp.simps using s1 s2 by blast
qed

theorem tunnel_faithful_witness:
  "\<exists>s s'. (tunnel_step ^^ 2) (tunnel_init (\<lambda>d. if d then ''GET'' else [])) s \<and> tn_written s True = ''GET''
     \<and> tunnel_step s s'"
proof -
  let ?s = "demo_tunnel CopyRead [] ''GET''"
  have "tn_copier ?s True = CopyRead" "tn_written ?s True = ''GET''" by (simp_all add: demo_tunnel_def)
  with tunnel_faithful[OF demo_tunnel_run] demo_tunnel_run show ?thesis by (metis copier.distinct(3))
qed

section \<open>A byte stream\<close>

text \<open>
  A client that sends \<open>tp_in\<close> and then nothing more; \<open>tp_out\<close> is what it receives. The rest of
  the world is \<open>tp_rest\<close>, on which the resolver and the dialer act.
\<close>

record 'x tape =
  tp_in :: string
  tp_out :: string
  tp_rest :: 'x

definition tape_read :: "nat \<Rightarrow> 'x tape \<Rightarrow> string option \<times> 'x tape" where
  "tape_read n t =
     (if n \<le> length (tp_in t) then (Some (take n (tp_in t)), t \<lparr> tp_in := drop n (tp_in t) \<rparr>)
      else (None, t \<lparr> tp_in := [] \<rparr>))"

definition tape_write :: "string \<Rightarrow> 'x tape \<Rightarrow> bool \<times> 'x tape" where
  "tape_write s t = (True, t \<lparr> tp_out := tp_out t @ s \<rparr>)"

definition on_rest :: "('x \<Rightarrow> ('a \<times> 'x) option) \<Rightarrow> 'x tape \<Rightarrow> ('a \<times> 'x tape) option" where
  "on_rest f t = map_option (\<lambda>(a, x). (a, t \<lparr> tp_rest := x \<rparr>)) (f (tp_rest t))"

definition tape_net :: "nat \<Rightarrow> (socket_addr \<Rightarrow> nat \<Rightarrow> 'x \<Rightarrow> ('u, 'x) dns_step) \<Rightarrow> ('u \<Rightarrow> socket_addr) \<Rightarrow> ('u, 'x tape) socks_net" where
  "tape_net now dial local_addr =
     \<lparr> sk_set_timeout = (\<lambda>_ _ t. (True, t)), sk_read_exact = tape_read, sk_write = tape_write,
       sk_flush = (\<lambda>t. (True, t)), sk_now = (\<lambda>t. (now, t)),
       sk_dial = (\<lambda>a d. on_rest (dial a d)), sk_set_upstream_timeout = (\<lambda>_ _ _ t. t),
       sk_local_addr = (\<lambda>u _. Some (local_addr u)) \<rparr>"

end
