(* ===== verification/Proxy_Dial.thy ===== *)
theory Proxy_Dial
  imports Fetch Proxy_Config Browser_Dns
begin

text \<open>
  The dialling half of \<^verbatim>\<open>basecrawl-core/src/proxy.rs\<close>: the tunnel through an upstream, by HTTP CONNECT
  or by SOCKS5, and the dialer that the sealed browser proxy composes it with. Sockets, the system's
  name service and the clock are the fields of \<open>proxy_net\<close>; times are in milliseconds.
\<close>

datatype io_error = IoWouldBlock | IoTimedOut | IoOther string

record ('s, 'w) proxy_net =
  pd_now :: "'w \<Rightarrow> nat \<times> 'w"
  pd_sleep :: "nat \<Rightarrow> 'w \<Rightarrow> 'w"
  pd_lookup :: "string \<Rightarrow> nat \<Rightarrow> 'w \<Rightarrow> (string, socket_addr list) result \<times> 'w"
  pd_connect :: "socket_addr \<Rightarrow> nat \<Rightarrow> 'w \<Rightarrow> (io_error, 's) result \<times> 'w"
  pd_set_timeout :: "bool \<Rightarrow> nat \<Rightarrow> 's \<Rightarrow> 'w \<Rightarrow> io_error option \<times> 'w"
  pd_write :: "'s \<Rightarrow> string \<Rightarrow> 'w \<Rightarrow> io_error option \<times> 'w"
  pd_flush :: "'s \<Rightarrow> 'w \<Rightarrow> io_error option \<times> 'w"
  pd_read :: "'s \<Rightarrow> nat \<Rightarrow> 'w \<Rightarrow> (io_error, string) result \<times> 'w"

fun classify_proxy_io :: "io_error \<Rightarrow> core_error" where
  "classify_proxy_io (IoOther e) = Transport (''proxy transport error: '' @ e)"
| "classify_proxy_io _ = Timeout ''proxy I/O timed out''"

fun proxy_io :: "io_error option \<times> 'w \<Rightarrow> (unit, 'w) step" where
  "proxy_io (None, w) = Some (Inr (), w)"
| "proxy_io (Some e, w) = Some (Inl (classify_proxy_io e), w)"

abbreviation failed :: "core_error \<Rightarrow> 'w \<Rightarrow> ('a, 'w) step" where
  "failed e w \<equiv> Some (Inl e, w)"

definition proxy_remaining :: "('s, 'w) proxy_net \<Rightarrow> nat \<Rightarrow> 'w \<Rightarrow> (nat, 'w) step" where
  "proxy_remaining N deadline w =
     (case pd_now N w of (t, w) \<Rightarrow>
        if t < deadline then Some (Inr (deadline - t), w)
        else failed (Timeout ''proxy deadline exceeded'') w)"

definition apply_stream_timeouts :: "('s, 'w) proxy_net \<Rightarrow> 's \<Rightarrow> nat \<Rightarrow> 'w \<Rightarrow> (unit, 'w) step" where
  "apply_stream_timeouts N s deadline w =
     and_then (proxy_remaining N deadline w) (\<lambda>left w.
     and_then (proxy_io (pd_set_timeout N True left s w)) (\<lambda>_ w.
       proxy_io (pd_set_timeout N False left s w)))"

section \<open>The upstream's address\<close>

definition split_host_port_if_embedded :: "string \<Rightarrow> nat \<Rightarrow> string \<times> nat" where
  "split_host_port_if_embedded host port =
     (let host = trim host;
          plain = (case rsplit_once (CHR '':'') host of
             Some (h, p) \<Rightarrow>
               if h \<noteq> [] \<and> CHR '':'' \<notin> set h \<and> list_all is_digit p then
                 (case parse_unsigned 10 65535 p of Some n \<Rightarrow> (h, n) | None \<Rightarrow> (host, port))
               else (host, port)
           | None \<Rightarrow> (host, port))
      in case strip_prefix ''['' host of
           None \<Rightarrow> plain
         | Some rest \<Rightarrow>
             (case split_once (CHR '']'') rest of
                None \<Rightarrow> plain
              | Some (inside, after) \<Rightarrow>
                  (case Option.bind (strip_prefix '':'' after) (parse_unsigned 10 65535) of
                     Some n \<Rightarrow> (inside, n) | None \<Rightarrow> (inside, port))))"

partial_function (option) resolve_loop ::
    "('s, 'w) proxy_net \<Rightarrow> string \<Rightarrow> nat \<Rightarrow> nat \<Rightarrow> nat \<Rightarrow> 'w \<Rightarrow> (socket_addr, 'w) step" where
  "resolve_loop N host port start timeout w =
     (case pd_lookup N host port w of (r, w) \<Rightarrow>
        (case r of
           Inr (a # _) \<Rightarrow> Some (Inr a, w)
         | Inr [] \<Rightarrow>
             (case pd_now N w of (t, w) \<Rightarrow>
                if timeout \<le> t - start
                then failed (Transport ''proxy endpoint resolution failed: proxy host resolved to no addresses'') w
                else resolve_loop N host port start timeout (pd_sleep N 20 w))
         | Inl e \<Rightarrow>
             (case pd_now N w of (t, w) \<Rightarrow>
                if timeout \<le> t - start then failed (Transport (''proxy endpoint resolution failed: '' @ e)) w
                else resolve_loop N host port start timeout (pd_sleep N 20 w))))"

definition resolve_proxy_endpoint ::
    "('s, 'w) proxy_net \<Rightarrow> string \<Rightarrow> nat \<Rightarrow> nat \<Rightarrow> 'w \<Rightarrow> (socket_addr, 'w) step" where
  "resolve_proxy_endpoint N host port timeout w =
     (case split_host_port_if_embedded host port of (host, port) \<Rightarrow>
        case parse_ip host of
          Some ip \<Rightarrow> Some (Inr (ip, port), w)
        | None \<Rightarrow>
            if eq_ic host ''localhost'' \<or> eq_ic host ''localhost.'' then Some (Inr (LOCALHOST_V4, port), w)
            else case pd_now N w of (start, w) \<Rightarrow> resolve_loop N host port start timeout w)"

section \<open>HTTP CONNECT\<close>

definition basic_proxy_authorization :: "crypto_ops \<Rightarrow> proxy_config \<Rightarrow> string option" where
  "basic_proxy_authorization ops cfg =
     (if has_credentials cfg
      then Some (''Basic '' @ b64std_encode ops (or_empty (px_username cfg) @ '':'' @ or_empty (px_password cfg)))
      else None)"

definition connect_request :: "crypto_ops \<Rightarrow> proxy_config \<Rightarrow> string \<Rightarrow> nat \<Rightarrow> string" where
  "connect_request ops cfg host port =
     (let authority = host @ '':'' @ show_nat port
      in ''CONNECT '' @ authority @ '' HTTP/1.1'' @ CRLF @ ''Host: '' @ authority @ CRLF
         @ ''Proxy-Connection: Keep-Alive'' @ CRLF
         @ (case basic_proxy_authorization ops cfg of
              Some auth \<Rightarrow> ''Proxy-Authorization: '' @ auth @ CRLF | None \<Rightarrow> [])
         @ CRLF)"

definition MAX_PROXY_HEAD :: nat where
  "MAX_PROXY_HEAD = 16 * 1024"

definition head_done :: "string \<Rightarrow> bool" where
  "head_done buf \<longleftrightarrow> ends_with buf (CRLF @ CRLF)"

partial_function (option) read_http_head ::
    "('s, 'w) proxy_net \<Rightarrow> 's \<Rightarrow> nat \<Rightarrow> string \<Rightarrow> 'w \<Rightarrow> (string, 'w) step" where
  "read_http_head N s deadline buf w =
     (case pd_now N w of (t, w) \<Rightarrow>
        if deadline \<le> t then failed (Timeout ''proxy CONNECT response timed out'') w
        else case apply_stream_timeouts N s deadline w of
          None \<Rightarrow> None
        | Some (Inl e, w) \<Rightarrow> failed e w
        | Some (Inr _, w) \<Rightarrow>
            (case pd_read N s 1 w of (r, w) \<Rightarrow>
               (case r of
                  Inr [] \<Rightarrow> failed (Transport ''proxy closed the connection during CONNECT'') w
                | Inr (b # _) \<Rightarrow>
                    if head_done (buf @ [b]) then Some (Inr (buf @ [b]), w)
                    else if MAX_PROXY_HEAD < length (buf @ [b])
                    then failed (Transport ''proxy CONNECT response headers exceeded limit'') w
                    else read_http_head N s deadline (buf @ [b]) w
                | Inl (IoOther e) \<Rightarrow> failed (classify_proxy_io (IoOther e)) w
                | Inl _ \<Rightarrow>
                    (case pd_now N w of (t, w) \<Rightarrow>
                       if deadline \<le> t then failed (Timeout ''proxy CONNECT response timed out'') w
                       else read_http_head N s deadline buf w))))"

definition parse_status_code :: "string \<Rightarrow> nat option" where
  "parse_status_code response =
     (if \<not> utf8_ok response then None
      else case lines response of
        [] \<Rightarrow> None
      | line # _ \<Rightarrow>
          (case split_whitespace line of
             _ # status # _ \<Rightarrow> parse_unsigned 10 65535 status | _ \<Rightarrow> None))"

definition classify_connect_status :: "nat \<Rightarrow> core_error" where
  "classify_connect_status status =
     (if status = 407 \<or> status = 401 then
        ProxyConnect (Some status) ''proxy_auth_error''
          (''proxy authentication required or rejected (CONNECT '' @ show_nat status @ ''); not an origin challenge'')
      else if status = 403 then
        ProxyConnect (Some status) ''proxy_acl_error''
          ''proxy CONNECT refused destination or product ACL (CONNECT 403); dial/product residual, not Cloudflare/origin challenge classification''
      else
        ProxyConnect (Some status) ''proxy_connect_error''
          (''proxy CONNECT failed with HTTP status '' @ show_nat status))"

definition http_connect ::
    "crypto_ops \<Rightarrow> ('s, 'w) proxy_net \<Rightarrow> 's \<Rightarrow> proxy_config \<Rightarrow> string \<Rightarrow> nat \<Rightarrow> nat \<Rightarrow> 'w \<Rightarrow> ('s, 'w) step" where
  "http_connect ops N s cfg host port deadline w =
     and_then (apply_stream_timeouts N s deadline w) (\<lambda>_ w.
     and_then (proxy_io (pd_write N s (connect_request ops cfg host port) w)) (\<lambda>_ w.
     and_then (proxy_io (pd_flush N s w)) (\<lambda>_ w.
     and_then (read_http_head N s deadline [] w) (\<lambda>response w.
       case parse_status_code response of
         None \<Rightarrow> failed (Transport ''proxy CONNECT returned an unreadable status line'') w
       | Some status \<Rightarrow>
           if status = 200 then Some (Inr s, w) else failed (classify_connect_status status) w))))"

section \<open>SOCKS5\<close>

partial_function (option) read_full ::
    "('s, 'w) proxy_net \<Rightarrow> 's \<Rightarrow> nat \<Rightarrow> nat \<Rightarrow> string \<Rightarrow> 'w \<Rightarrow> (string, 'w) step" where
  "read_full N s deadline n filled w =
     (if n \<le> length filled then Some (Inr filled, w)
      else case pd_now N w of (t, w) \<Rightarrow>
        if deadline \<le> t then failed (Timeout ''proxy I/O timed out'') w
        else case apply_stream_timeouts N s deadline w of
          None \<Rightarrow> None
        | Some (Inl e, w) \<Rightarrow> failed e w
        | Some (Inr _, w) \<Rightarrow>
            (case pd_read N s (n - length filled) w of (r, w) \<Rightarrow>
               (case r of
                  Inr bs \<Rightarrow>
                    if bs = [] then failed (Transport ''proxy closed the connection unexpectedly'') w
                    else read_full N s deadline n (filled @ bs) w
                | Inl (IoOther e) \<Rightarrow> failed (classify_proxy_io (IoOther e)) w
                | Inl _ \<Rightarrow> read_full N s deadline n filled w)))"

definition socks_greeting :: "bool \<Rightarrow> string" where
  "socks_greeting want_auth =
     (if want_auth then [CHR 0x05, CHR 0x02, CHR 0x00, CHR 0x02] else [CHR 0x05, CHR 0x01, CHR 0x00])"

definition socks_userpass :: "string \<Rightarrow> string \<Rightarrow> string" where
  "socks_userpass user pass =
     [CHR 0x01, char_of (length user)] @ user @ [char_of (length pass)] @ pass"

definition socks5_userpass_auth ::
    "('s, 'w) proxy_net \<Rightarrow> 's \<Rightarrow> proxy_config \<Rightarrow> nat \<Rightarrow> 'w \<Rightarrow> (unit, 'w) step" where
  "socks5_userpass_auth N s cfg deadline w =
     (let user = or_empty (px_username cfg); pass = or_empty (px_password cfg)
      in if 255 < length user \<or> 255 < length pass
         then failed (Transport ''SOCKS5 username/password exceeds 255 bytes'') w
         else
           and_then (proxy_io (pd_write N s (socks_userpass user pass) w)) (\<lambda>_ w.
           and_then (read_full N s deadline 2 [] w) (\<lambda>status w.
             if status ! 0 \<noteq> CHR 0x01 \<or> status ! 1 \<noteq> CHR 0x00
             then failed (ProxyConnect None ''proxy_auth_error''
                    ''SOCKS5 username/password authentication failed (not an origin challenge)'') w
             else Some (Inr (), w))))"

definition socks_target :: "string \<Rightarrow> string" where
  "socks_target host =
     (case parse_ip host of
        Some ip \<Rightarrow> address_type ip # address_bytes ip
      | None \<Rightarrow> [CHR 0x03, char_of (length host)] @ host)"

definition socks_request :: "string \<Rightarrow> nat \<Rightarrow> string" where
  "socks_request host port = [CHR 0x05, CHR 0x01, CHR 0x00] @ socks_target host @ be16 port"

definition socks_refusal :: "nat \<Rightarrow> core_error" where
  "socks_refusal rep =
     (if rep = 2 then ProxyConnect None ''proxy_acl_error''
        ''SOCKS5 connection not allowed by ruleset (proxy ACL residual; not an origin challenge)''
      else ProxyConnect None ''proxy_connect_error''
        (if rep = 1 then ''general SOCKS server failure''
         else if rep = 3 then ''network unreachable''
         else if rep = 4 then ''host unreachable''
         else if rep = 5 then ''connection refused''
         else if rep = 6 then ''TTL expired''
         else if rep = 7 then ''command not supported''
         else if rep = 8 then ''address type not supported''
         else ''SOCKS5 CONNECT failed''))"

definition drain_bound_address :: "('s, 'w) proxy_net \<Rightarrow> 's \<Rightarrow> nat \<Rightarrow> char \<Rightarrow> 'w \<Rightarrow> (unit, 'w) step" where
  "drain_bound_address N s deadline atyp w =
     (if atyp = CHR 0x01 then and_then (read_full N s deadline 6 [] w) (\<lambda>_ w. Some (Inr (), w))
      else if atyp = CHR 0x03 then
        and_then (read_full N s deadline 1 [] w) (\<lambda>len w.
        and_then (read_full N s deadline (code (len ! 0) + 2) [] w) (\<lambda>_ w. Some (Inr (), w)))
      else if atyp = CHR 0x04 then and_then (read_full N s deadline 18 [] w) (\<lambda>_ w. Some (Inr (), w))
      else failed (Transport (''SOCKS5 reply used unsupported address type '' @ show_nat (code atyp))) w)"

definition select_method ::
    "('s, 'w) proxy_net \<Rightarrow> 's \<Rightarrow> proxy_config \<Rightarrow> nat \<Rightarrow> string \<Rightarrow> 'w \<Rightarrow> (unit, 'w) step" where
  "select_method N s cfg deadline choice w =
     (if choice ! 0 \<noteq> CHR 0x05 then failed (Transport ''SOCKS5 greeting returned unexpected version'') w
      else if choice ! 1 = CHR 0x00 then Some (Inr (), w)
      else if choice ! 1 = CHR 0x02 then socks5_userpass_auth N s cfg deadline w
      else if choice ! 1 = CHR 0xFF
      then failed (Transport ''SOCKS5 proxy rejected all offered authentication methods'') w
      else failed (Transport (''SOCKS5 proxy selected unsupported auth method '' @ show_nat (code (choice ! 1)))) w)"

definition socks5_connect ::
    "('s, 'w) proxy_net \<Rightarrow> 's \<Rightarrow> proxy_config \<Rightarrow> string \<Rightarrow> nat \<Rightarrow> nat \<Rightarrow> 'w \<Rightarrow> ('s, 'w) step" where
  "socks5_connect N s cfg host port deadline w =
     and_then (apply_stream_timeouts N s deadline w) (\<lambda>_ w.
     and_then (proxy_io (pd_write N s (socks_greeting (has_credentials cfg)) w)) (\<lambda>_ w.
     and_then (read_full N s deadline 2 [] w) (\<lambda>choice w.
     and_then (select_method N s cfg deadline choice w) (\<lambda>_ w.
       if 255 < length host then failed (Transport ''SOCKS5 target hostname exceeds 255 bytes'') w
       else
         and_then (proxy_io (pd_write N s (socks_request host port) w)) (\<lambda>_ w.
         and_then (read_full N s deadline 4 [] w) (\<lambda>reply w.
           if reply ! 0 \<noteq> CHR 0x05 then failed (Transport ''SOCKS5 reply returned unexpected version'') w
           else if reply ! 1 \<noteq> CHR 0x00 then failed (socks_refusal (code (reply ! 1))) w
           else and_then (drain_bound_address N s deadline (reply ! 3) w) (\<lambda>_ w. Some (Inr s, w))))))))"

section \<open>Dialling a target\<close>

definition connect_to_target ::
    "crypto_ops \<Rightarrow> ('s, 'w) proxy_net \<Rightarrow> proxy_config \<Rightarrow> string \<Rightarrow> nat \<Rightarrow> nat \<Rightarrow> 'w \<Rightarrow> ('s, 'w) step" where
  "connect_to_target ops N cfg host port deadline w =
     and_then (proxy_remaining N deadline w) (\<lambda>left w.
     and_then (resolve_proxy_endpoint N (px_host cfg) (px_port cfg) left w) (\<lambda>addr w.
     and_then (case pd_connect N addr left w of
                 (Inl e, w) \<Rightarrow> failed (classify_proxy_io e) w | (Inr s, w) \<Rightarrow> Some (Inr s, w)) (\<lambda>s w.
     and_then (apply_stream_timeouts N s deadline w) (\<lambda>_ w.
       if px_kind cfg = ProxySocks5 then socks5_connect N s cfg host port deadline w
       else http_connect ops N s cfg host port deadline w))))"

definition map_proxy_error_to_seal :: "core_error \<Rightarrow> seal_error" where
  "map_proxy_error_to_seal e =
     SealDns (case e of
        ProxyConnect _ cls detail \<Rightarrow> ''composer upstream dial failed ('' @ cls @ ''): '' @ detail
      | ResidentialConcurrency detail \<Rightarrow> ''composer residential concurrency refused: '' @ detail
      | ProxyClassUnavailable required detail \<Rightarrow>
          ''composer proxy class unavailable ('' @ required @ ''): '' @ detail
      | other \<Rightarrow> ''composer upstream dial failed: '' @ display other)"

text \<open>\<^verbatim>\<open>ComposerOriginDialer\<close>; \<open>show_ip\<close> is the text of an address.\<close>

definition composer_dial ::
    "crypto_ops \<Rightarrow> ('s, 'w) proxy_net \<Rightarrow> (ip_addr \<Rightarrow> string) \<Rightarrow> proxy_config \<Rightarrow> socket_addr \<Rightarrow> nat \<Rightarrow> 'w
     \<Rightarrow> ('s, 'w) dns_step" where
  "composer_dial ops N show_ip cfg addr deadline w =
     (case connect_to_target ops N cfg (show_ip (fst addr)) (snd addr) deadline w of
        None \<Rightarrow> None
      | Some (Inl e, w) \<Rightarrow> Some (Inl (map_proxy_error_to_seal e), w)
      | Some (Inr s, w) \<Rightarrow> Some (Inr s, w))"

section \<open>What is read and what is written\<close>

definition connect_verdict :: "'b \<Rightarrow> string \<Rightarrow> (core_error, 'b) result" where
  "connect_verdict stream head = (case parse_status_code head of
     None \<Rightarrow> Inl (Transport ''proxy CONNECT returned an unreadable status line'')
   | Some status \<Rightarrow> if status = 200 then Inr stream else Inl (classify_connect_status status))"

text \<open>
  The laws of a live socket: \<open>unread\<close> is what the peer has still to deliver and \<open>sent\<close> what it has been
  sent; the deadline does not pass, a write appends all its bytes to the second, and a read takes some
  bytes off the front of the first, at most as many as asked for, or would block, which it does only
  finitely often.
\<close>

locale live_stream =
  fixes N :: "('s, 'w) proxy_net" and s :: 's and deadline :: nat
    and unread :: "'w \<Rightarrow> string" and sent :: "'w \<Rightarrow> string" and rank :: "'w \<Rightarrow> nat"
  assumes now_law: "pd_now N w = (t, w') \<Longrightarrow> t < deadline \<and> unread w' = unread w \<and> sent w' = sent w \<and> rank w' \<le> rank w"
    and timeout_law: "pd_set_timeout N b ms s w = (r, w') \<Longrightarrow>
           r = None \<and> unread w' = unread w \<and> sent w' = sent w \<and> rank w' \<le> rank w"
    and write_law: "pd_write N s bs w = (r, w') \<Longrightarrow>
           r = None \<and> unread w' = unread w \<and> sent w' = sent w @ bs \<and> rank w' \<le> rank w"
    and flush_law: "pd_flush N s w = (r, w') \<Longrightarrow> r = None \<and> unread w' = unread w \<and> sent w' = sent w \<and> rank w' \<le> rank w"
    and read_law: "pd_read N s n w = (Inr bs, w') \<Longrightarrow> length bs \<le> n \<and> unread w = bs @ unread w' \<and> sent w' = sent w
           \<and> rank w' \<le> rank w \<and> (0 < n \<longrightarrow> unread w \<noteq> [] \<longrightarrow> bs \<noteq> [])"
    and block_law: "pd_read N s n w = (Inl err, w') \<Longrightarrow>
           (err = IoWouldBlock \<or> err = IoTimedOut) \<and> unread w' = unread w \<and> sent w' = sent w \<and> rank w' < rank w"
begin

lemma timeouts_live:
  "\<exists>w'. apply_stream_timeouts N s deadline w = Some (Inr (), w') \<and> unread w' = unread w \<and> sent w' = sent w \<and> rank w' \<le> rank w"
proof -
  obtain t w1 where 1: "pd_now N w = (t, w1)" by fastforce
  obtain r2 w2 where 2: "pd_set_timeout N True (deadline - t) s w1 = (r2, w2)" by fastforce
  obtain r3 w3 where 3: "pd_set_timeout N False (deadline - t) s w2 = (r3, w3)" by fastforce
  show ?thesis using now_law[OF 1] timeout_law[OF 2] timeout_law[OF 3] 1 2 3
    by (auto simp: apply_stream_timeouts_def proxy_remaining_def and_then_def)
qed

lemma write_live:
  "\<exists>w'. proxy_io (pd_write N s bs w) = Some (Inr (), w') \<and> unread w' = unread w \<and> sent w' = sent w @ bs \<and> rank w' \<le> rank w"
  by (cases "pd_write N s bs w") (auto dest: write_law)

lemma flush_live:
  "\<exists>w'. proxy_io (pd_flush N s w) = Some (Inr (), w') \<and> unread w' = unread w \<and> sent w' = sent w \<and> rank w' \<le> rank w"
  by (cases "pd_flush N s w") (auto dest: flush_law)

text \<open>One turn of a reading loop: the clock, the timeouts and a read.\<close>

lemma turn_live:
  assumes "0 < n" "unread w \<noteq> []"
  obtains t w1 w2 r w3 where "pd_now N w = (t, w1)" "t < deadline"
    "apply_stream_timeouts N s deadline w1 = Some (Inr (), w2)" "pd_read N s n w2 = (r, w3)" "sent w3 = sent w"
    "(\<exists>bs. r = Inr bs \<and> bs \<noteq> [] \<and> length bs \<le> n \<and> unread w = bs @ unread w3 \<and> rank w3 \<le> rank w)
     \<or> ((r = Inl IoWouldBlock \<or> r = Inl IoTimedOut) \<and> unread w3 = unread w \<and> rank w3 < rank w)"
proof -
  obtain t w1 where 1: "pd_now N w = (t, w1)" by fastforce
  obtain w2 where 2: "apply_stream_timeouts N s deadline w1 = Some (Inr (), w2)"
    "unread w2 = unread w1" "sent w2 = sent w1" "rank w2 \<le> rank w1" using timeouts_live by blast
  obtain r w3 where 3: "pd_read N s n w2 = (r, w3)" by fastforce
  have "sent w3 = sent w \<and> ((\<exists>bs. r = Inr bs \<and> bs \<noteq> [] \<and> length bs \<le> n \<and> unread w = bs @ unread w3 \<and> rank w3 \<le> rank w)
     \<or> ((r = Inl IoWouldBlock \<or> r = Inl IoTimedOut) \<and> unread w3 = unread w \<and> rank w3 < rank w))"
  proof (cases r)
    case (Inl e)
    with block_law[of n w2 e w3] 3 now_law[OF 1] 2 show ?thesis by auto
  next
    case (Inr bs)
    with read_law[of n w2 bs w3] 3 now_law[OF 1] 2 assms show ?thesis by auto
  qed
  with that 1 2(1) 3 now_law[OF 1] show ?thesis by blast
qed

lemma read_full_live:
  assumes "n \<le> length filled + length (unread w)" "length filled \<le> n"
  shows "\<exists>w'. read_full N s deadline n filled w = Some (Inr (filled @ take (n - length filled) (unread w)), w')
     \<and> unread w' = drop (n - length filled) (unread w) \<and> sent w' = sent w \<and> rank w' \<le> rank w"
  using assms
proof (induction "rank w + (n - length filled)" arbitrary: filled w rule: less_induct)
  case less
  show ?case
  proof (cases "n = length filled")
    case True
    then show ?thesis by (subst read_full.simps) simp
  next
    case False
    with less.prems have "0 < n - length filled" "unread w \<noteq> []" by auto
    then obtain t w1 w2 r w3 where t: "pd_now N w = (t, w1)" "t < deadline"
      "apply_stream_timeouts N s deadline w1 = Some (Inr (), w2)"
      "pd_read N s (n - length filled) w2 = (r, w3)" "sent w3 = sent w"
      and r: "(\<exists>bs. r = Inr bs \<and> bs \<noteq> [] \<and> length bs \<le> n - length filled \<and> unread w = bs @ unread w3 \<and> rank w3 \<le> rank w)
        \<or> ((r = Inl IoWouldBlock \<or> r = Inl IoTimedOut) \<and> unread w3 = unread w \<and> rank w3 < rank w)"
      by (rule turn_live)
    note unfold = read_full.simps[of N s deadline n filled w]
    from r show ?thesis
    proof (elim disjE exE conjE)
      fix bs assume bs: "r = Inr bs" "bs \<noteq> []" "length bs \<le> n - length filled" "unread w = bs @ unread w3" "rank w3 \<le> rank w"
      have "rank w3 + (n - length (filled @ bs)) < rank w + (n - length filled)"
        using bs \<open>0 < n - length filled\<close> by (cases bs) auto
      from less.hyps[OF this] less.prems bs t False show ?thesis
        by (fastforce simp: unfold algebra_simps)
    next
      assume r: "r = Inl IoWouldBlock" "unread w3 = unread w" "rank w3 < rank w"
      then have "rank w3 + (n - length filled) < rank w + (n - length filled)" by simp
      from less.hyps[OF this] less.prems r t False show ?thesis by (fastforce simp: unfold)
    next
      assume r: "r = Inl IoTimedOut" "unread w3 = unread w" "rank w3 < rank w"
      then have "rank w3 + (n - length filled) < rank w + (n - length filled)" by simp
      from less.hyps[OF this] less.prems r t False show ?thesis by (fastforce simp: unfold)
    qed
  qed
qed

text \<open>A head that ends where its first blank line does.\<close>

lemma read_http_head_live:
  assumes "unread w = h @ origin" "h \<noteq> []" "head_done (buf @ h)"
    "\<And>p. strict_prefix p h \<Longrightarrow> \<not> head_done (buf @ p)" "length (buf @ h) \<le> Suc MAX_PROXY_HEAD"
  shows "\<exists>w'. read_http_head N s deadline buf w = Some (Inr (buf @ h), w')
     \<and> unread w' = origin \<and> sent w' = sent w \<and> rank w' \<le> rank w"
  using assms
proof (induction "rank w + length h" arbitrary: buf h w rule: less_induct)
  case less
  from less.prems have "unread w \<noteq> []" by simp
  then obtain t w1 w2 r w3 where t: "pd_now N w = (t, w1)" "t < deadline"
    "apply_stream_timeouts N s deadline w1 = Some (Inr (), w2)" "pd_read N s 1 w2 = (r, w3)" "sent w3 = sent w"
    and r: "(\<exists>bs. r = Inr bs \<and> bs \<noteq> [] \<and> length bs \<le> 1 \<and> unread w = bs @ unread w3 \<and> rank w3 \<le> rank w)
      \<or> ((r = Inl IoWouldBlock \<or> r = Inl IoTimedOut) \<and> unread w3 = unread w \<and> rank w3 < rank w)"
    by (rule turn_live[OF zero_less_one])
  obtain t4 w4 where now: "pd_now N w3 = (t4, w4)" by fastforce
  note unfold = read_http_head.simps[of N s deadline buf w]
  from r show ?case
  proof (elim disjE exE conjE)
    fix bs assume bs: "r = Inr bs" "bs \<noteq> []" "length bs \<le> 1" "unread w = bs @ unread w3" "rank w3 \<le> rank w"
    then obtain b where b: "bs = [b]" by (cases bs) auto
    with bs less.prems obtain h' where h: "h = b # h'" "unread w3 = h' @ origin" by (cases h) auto
    show ?thesis
    proof (cases "h' = []")
      case True
      with less.prems h b bs t show ?thesis by (simp add: unfold)
    next
      case False
      have "\<not> head_done (buf @ [b])" using less.prems(4)[of "[b]"] h False by (cases h') auto
      moreover have "\<not> MAX_PROXY_HEAD < length (buf @ [b])" using less.prems(5) h False by (cases h') auto
      moreover have less: "rank w3 + length h' < rank w + length h" using bs h by simp
      have "\<exists>w'. read_http_head N s deadline (buf @ [b]) w3 = Some (Inr ((buf @ [b]) @ h'), w') \<and> unread w' = origin
          \<and> sent w' = sent w3 \<and> rank w' \<le> rank w3"
      proof (rule less.hyps[OF less h(2) False])
        show "head_done ((buf @ [b]) @ h')" "length ((buf @ [b]) @ h') \<le> Suc MAX_PROXY_HEAD"
          using less.prems(3,5) h by simp_all
        show "\<not> head_done ((buf @ [b]) @ p)" if "strict_prefix p h'" for p
          using less.prems(4)[of "b # p"] that h by simp
      qed
      then obtain w' where "read_http_head N s deadline (buf @ [b]) w3 = Some (Inr (buf @ h), w')"
        "unread w' = origin" "sent w' = sent w" "rank w' \<le> rank w"
        using h bs(5) t(5) by (metis append.assoc append_Cons append_Nil le_trans)
      ultimately show ?thesis using b bs(1) t by (simp add: unfold)
    qed
  next
    assume r: "r = Inl IoWouldBlock" "unread w3 = unread w" "rank w3 < rank w"
    with now_law[OF now] have "rank w4 + length h < rank w + length h" by simp
    from less.hyps[OF this _ less.prems(2-5)] less.prems(1) r(2) now_law[OF now]
    obtain w' where "read_http_head N s deadline buf w4 = Some (Inr (buf @ h), w')"
      "unread w' = origin" "sent w' = sent w4" "rank w' \<le> rank w4" by auto
    with r t now now_law[OF now] show ?thesis by (simp add: unfold)
  next
    assume r: "r = Inl IoTimedOut" "unread w3 = unread w" "rank w3 < rank w"
    with now_law[OF now] have "rank w4 + length h < rank w + length h" by simp
    from less.hyps[OF this _ less.prems(2-5)] less.prems(1) r(2) now_law[OF now]
    obtain w' where "read_http_head N s deadline buf w4 = Some (Inr (buf @ h), w')"
      "unread w' = origin" "sent w' = sent w4" "rank w' \<le> rank w4" by auto
    with r t now now_law[OF now] show ?thesis by (simp add: unfold)
  qed
qed

lemma http_connect_live:
  assumes "unread w = head @ origin" "head \<noteq> []" "head_done head"
    "\<And>p. strict_prefix p head \<Longrightarrow> \<not> head_done p" "length head \<le> Suc MAX_PROXY_HEAD"
  shows "\<exists>w'. http_connect ops N s cfg host port deadline w = Some (connect_verdict s head, w')
     \<and> unread w' = origin \<and> sent w' = sent w @ connect_request ops cfg host port"
proof -
  obtain w1 where 1: "apply_stream_timeouts N s deadline w = Some (Inr (), w1)" "unread w1 = unread w" "sent w1 = sent w"
    using timeouts_live by blast
  obtain w2 where 2: "proxy_io (pd_write N s (connect_request ops cfg host port) w1) = Some (Inr (), w2)"
    "unread w2 = unread w1" "sent w2 = sent w1 @ connect_request ops cfg host port" using write_live by blast
  obtain w3 where 3: "proxy_io (pd_flush N s w2) = Some (Inr (), w3)" "unread w3 = unread w2" "sent w3 = sent w2"
    using flush_live by blast
  obtain w4 where 4: "read_http_head N s deadline [] w3 = Some (Inr head, w4)" "unread w4 = origin" "sent w4 = sent w3"
    using read_http_head_live[of w3 head origin "[]"] assms 1 2 3 by auto
  show ?thesis using 1 2 3 4
    by (simp add: http_connect_def and_then_def connect_verdict_def split: option.split)
qed

text \<open>A reading step of a protocol, as the loops above leave it.\<close>

lemma and_read_live:
  assumes "unread w = bs @ after" "length bs = n"
  obtains w' where "and_then (read_full N s deadline n [] w) f = f bs w'" "unread w' = after" "sent w' = sent w"
  using read_full_live[of n "[]" w] assms by (auto simp: and_then_def)

lemma and_write_live:
  obtains w' where "and_then (proxy_io (pd_write N s bs w)) f = f () w'" "unread w' = unread w" "sent w' = sent w @ bs"
  using write_live[of bs w] by (auto simp: and_then_def)

lemma and_timeouts_live:
  obtains w' where "and_then (apply_stream_timeouts N s deadline w) f = f () w'" "unread w' = unread w" "sent w' = sent w"
  using timeouts_live[of w] by (auto simp: and_then_def)

lemma drain_live:
  assumes "unread w = address_bytes ip @ be16 port @ origin" "ip_wf ip"
  shows "\<exists>w'. drain_bound_address N s deadline (address_type ip) w = Some (Inr (), w') \<and> unread w' = origin \<and> sent w' = sent w"
proof (cases ip)
  case (IpV4 os)
  with assms obtain w' where "and_then (read_full N s deadline 6 [] w) (\<lambda>_ w. Some (Inr (), w)) = Some (Inr (), w')"
    "unread w' = origin" "sent w' = sent w"
    using and_read_live[of w "map char_of os @ be16 port" origin 6 "\<lambda>_ w. Some (Inr (), w)"]
    by (auto simp: ip_wf_def be16_def)
  with IpV4 show ?thesis by (simp add: drain_bound_address_def)
next
  case (IpV6 os)
  with assms obtain w' where "and_then (read_full N s deadline 18 [] w) (\<lambda>_ w. Some (Inr (), w)) = Some (Inr (), w')"
    "unread w' = origin" "sent w' = sent w"
    using and_read_live[of w "map char_of os @ be16 port" origin 18 "\<lambda>_ w. Some (Inr (), w)"]
    by (auto simp: ip_wf_def be16_def)
  with IpV6 show ?thesis by (simp add: drain_bound_address_def)
qed

text \<open>The reply to a request: the origin's bytes are left after a success.\<close>

lemma socks_request_live:
  assumes "length host \<le> 255" "unread w = socks_reply rep bind @ origin" "rep < 256" "ip_wf (fst bind)"
  shows "\<exists>w'. and_then (proxy_io (pd_write N s (socks_request host port) w)) (\<lambda>_ w.
         and_then (read_full N s deadline 4 [] w) (\<lambda>reply w.
           if reply ! 0 \<noteq> CHR 0x05 then failed (Transport ''SOCKS5 reply returned unexpected version'') w
           else if reply ! 1 \<noteq> CHR 0x00 then failed (socks_refusal (code (reply ! 1))) w
           else and_then (drain_bound_address N s deadline (reply ! 3) w) (\<lambda>_ w. Some (Inr s, w))))
       = Some (if rep = 0 then Inr s else Inl (socks_refusal rep), w')
     \<and> sent w' = sent w @ socks_request host port \<and> (rep = 0 \<longrightarrow> unread w' = origin)"
    (is "\<exists>w'. and_then _ ?f = _ \<and> _")
proof -
  obtain ip p where bind: "bind = (ip, p)" by fastforce
  let ?head = "[CHR 0x05, char_of rep, CHR 0x00, address_type ip]"
  have rep0: "char_of rep = CHR 0x00 \<longleftrightarrow> rep = 0"
    using assms(3) by (simp add: char_of_eq_iff take_bit_eq_mod)
  obtain w1 where 1: "and_then (proxy_io (pd_write N s (socks_request host port) w)) ?f = ?f () w1"
    "unread w1 = unread w" "sent w1 = sent w @ socks_request host port" by (rule and_write_live)
  have u: "unread w1 = ?head @ address_bytes ip @ be16 p @ origin" using 1 assms(2) by (simp add: socks_reply_def bind)
  let ?g = "\<lambda>reply w. if reply ! 0 \<noteq> CHR 0x05 then failed (Transport ''SOCKS5 reply returned unexpected version'') w
      else if reply ! 1 \<noteq> CHR 0x00 then failed (socks_refusal (code (reply ! 1))) w
      else and_then (drain_bound_address N s deadline (reply ! 3) w) (\<lambda>_ w. Some (Inr s, w))"
  obtain w2 where 2: "and_then (read_full N s deadline 4 [] w1) ?g = ?g ?head w2"
    "unread w2 = address_bytes ip @ be16 p @ origin" "sent w2 = sent w1"
    using and_read_live[of w1 ?head "address_bytes ip @ be16 p @ origin" 4 ?g] u by auto
  obtain w3 where 3: "drain_bound_address N s deadline (address_type ip) w2 = Some (Inr (), w3)" "unread w3 = origin" "sent w3 = sent w2"
    using drain_live[OF 2(2)] assms(4) by (auto simp: bind)
  have "?g ?head w2 = Some (if rep = 0 then Inr s else Inl (socks_refusal rep), if rep = 0 then w3 else w2)"
    using 3(1) assms(3) rep0 by (simp add: and_then_def take_bit_eq_mod)
  with 1(1) 2(1) have "and_then (proxy_io (pd_write N s (socks_request host port) w)) ?f
      = Some (if rep = 0 then Inr s else Inl (socks_refusal rep), if rep = 0 then w3 else w2)"
    by (simp only:)
  with 1 2(3) 3 show ?thesis by (auto intro!: exI[of _ "if rep = 0 then w3 else w2"])
qed

lemma select_method_live:
  assumes "auth = [] \<and> choice = [CHR 0x05, CHR 0x00] \<or> auth = [CHR 0x01, CHR 0x00] \<and> choice = [CHR 0x05, CHR 0x02]"
    and "unread w = auth @ after" and "length (or_empty (px_username cfg)) \<le> 255" "length (or_empty (px_password cfg)) \<le> 255"
  shows "\<exists>w'. select_method N s cfg deadline choice w = Some (Inr (), w') \<and> unread w' = after
     \<and> sent w' = sent w @ (if auth = [] then [] else socks_userpass (or_empty (px_username cfg)) (or_empty (px_password cfg)))"
  using assms(1)
proof (elim disjE conjE)
  assume a: "auth = [CHR 0x01, CHR 0x00]" "choice = [CHR 0x05, CHR 0x02]"
  let ?u = "or_empty (px_username cfg)" and ?p = "or_empty (px_password cfg)"
  let ?g = "\<lambda>status w. if status ! 0 \<noteq> CHR 0x01 \<or> status ! 1 \<noteq> CHR 0x00
       then failed (ProxyConnect None ''proxy_auth_error''
              ''SOCKS5 username/password authentication failed (not an origin challenge)'') w
       else Some (Inr (), w)"
  let ?f = "\<lambda>_ w. and_then (read_full N s deadline 2 [] w) ?g"
  obtain w1 where 1: "and_then (proxy_io (pd_write N s (socks_userpass ?u ?p) w)) ?f = ?f () w1"
    "unread w1 = unread w" "sent w1 = sent w @ socks_userpass ?u ?p" by (rule and_write_live)
  obtain w2 where 2: "and_then (read_full N s deadline 2 [] w1) ?g = ?g auth w2" "unread w2 = after" "sent w2 = sent w1"
    using and_read_live[of w1 auth after 2 ?g] 1(2) assms(2) a(1) by auto
  have "socks5_userpass_auth N s cfg deadline w = ?g auth w2"
    using 1(1) 2(1) assms(3,4) by (simp only: socks5_userpass_auth_def Let_def not_less[symmetric] simp_thms if_False)
  with a 1 2 show ?thesis by (simp add: select_method_def)
qed (use assms(2) in \<open>simp add: select_method_def\<close>)

lemma socks5_connect_live:
  assumes "length host \<le> 255" "rep < 256" "ip_wf (fst bind)"
    and "auth = [] \<and> choice = [CHR 0x05, CHR 0x00] \<or> auth = [CHR 0x01, CHR 0x00] \<and> choice = [CHR 0x05, CHR 0x02]"
    and "length (or_empty (px_username cfg)) \<le> 255" "length (or_empty (px_password cfg)) \<le> 255"
    and "unread w = choice @ auth @ socks_reply rep bind @ origin"
  shows "\<exists>w'. socks5_connect N s cfg host port deadline w
         = Some (if rep = 0 then Inr s else Inl (socks_refusal rep), w')
     \<and> sent w' = sent w @ socks_greeting (has_credentials cfg)
         @ (if auth = [] then [] else socks_userpass (or_empty (px_username cfg)) (or_empty (px_password cfg)))
         @ socks_request host port
     \<and> (rep = 0 \<longrightarrow> unread w' = origin)"
proof -
  let ?G = "socks_greeting (has_credentials cfg)"
  let ?A = "if auth = [] then [] else socks_userpass (or_empty (px_username cfg)) (or_empty (px_password cfg))"
  let ?d = "\<lambda>w. and_then (proxy_io (pd_write N s (socks_request host port) w)) (\<lambda>_ w.
         and_then (read_full N s deadline 4 [] w) (\<lambda>reply w.
           if reply ! 0 \<noteq> CHR 0x05 then failed (Transport ''SOCKS5 reply returned unexpected version'') w
           else if reply ! 1 \<noteq> CHR 0x00 then failed (socks_refusal (code (reply ! 1))) w
           else and_then (drain_bound_address N s deadline (reply ! 3) w) (\<lambda>_ w. Some (Inr s, w))))"
  let ?c = "\<lambda>_ w. if 255 < length host then failed (Transport ''SOCKS5 target hostname exceeds 255 bytes'') w else ?d w"
  let ?b = "\<lambda>choice w. and_then (select_method N s cfg deadline choice w) ?c"
  let ?a = "\<lambda>_ w. and_then (read_full N s deadline 2 [] w) ?b"
  let ?t = "\<lambda>_ w. and_then (proxy_io (pd_write N s ?G w)) ?a"
  obtain w1 where 1: "and_then (apply_stream_timeouts N s deadline w) ?t = ?t () w1"
    "unread w1 = unread w" "sent w1 = sent w" by (rule and_timeouts_live)
  obtain w2 where 2: "and_then (proxy_io (pd_write N s ?G w1)) ?a = ?a () w2" "unread w2 = unread w1" "sent w2 = sent w1 @ ?G"
    by (rule and_write_live)
  have "length choice = 2" using assms(4) by auto
  then obtain w3 where 3: "and_then (read_full N s deadline 2 [] w2) ?b = ?b choice w3"
    "unread w3 = auth @ socks_reply rep bind @ origin" "sent w3 = sent w2"
    using and_read_live[of w2 choice "auth @ socks_reply rep bind @ origin" 2 ?b] 1 2 assms(7) by auto
  obtain w4 where 4: "select_method N s cfg deadline choice w3 = Some (Inr (), w4)"
    "unread w4 = socks_reply rep bind @ origin" "sent w4 = sent w3 @ ?A"
    using select_method_live[OF assms(4) 3(2) assms(5,6)] by blast
  obtain w5 where 5: "?d w4 = Some (if rep = 0 then Inr s else Inl (socks_refusal rep), w5)"
    "sent w5 = sent w4 @ socks_request host port" "rep = 0 \<longrightarrow> unread w5 = origin"
    using socks_request_live[OF assms(1) 4(2) assms(2,3)] by blast
  have "socks5_connect N s cfg host port deadline w = ?c () w4"
    unfolding socks5_connect_def 1(1) 2(1) 3(1) 4(1) by (simp only: and_then_def option.case prod.case sum.case)
  with assms(1) 5 have "socks5_connect N s cfg host port deadline w
      = Some (if rep = 0 then Inr s else Inl (socks_refusal rep), w5)"
    by (simp only: not_less[symmetric] if_False simp_thms)
  with 1(3) 2(3) 3(3) 4(3) 5(2,3) show ?thesis by auto
qed

end

section \<open>A proxy on a byte stream\<close>

text \<open>
  A peer that delivers \<open>tp_in\<close> in pieces: each entry of the schedule \<open>tp_rest\<close> is a read of at most so
  many bytes, and 0 one that would block; when the schedule is used up, reads are served in full.
\<close>

definition chunk_read :: "nat \<Rightarrow> nat list tape \<Rightarrow> (io_error, string) result \<times> nat list tape" where
  "chunk_read n t = (case tp_rest t of
     [] \<Rightarrow> (Inr (take n (tp_in t)), t \<lparr> tp_in := drop n (tp_in t) \<rparr>)
   | 0 # ks \<Rightarrow> (Inl IoWouldBlock, t \<lparr> tp_rest := ks \<rparr>)
   | Suc k # ks \<Rightarrow> (Inr (take (min n (Suc k)) (tp_in t)), t \<lparr> tp_in := drop (min n (Suc k)) (tp_in t), tp_rest := ks \<rparr>))"

definition chunk_net :: "nat \<Rightarrow> (unit, nat list tape) proxy_net" where
  "chunk_net now =
     \<lparr> pd_now = (\<lambda>t. (now, t)), pd_sleep = (\<lambda>_ t. t), pd_lookup = (\<lambda>_ _ t. (Inl ''no such host'', t)),
       pd_connect = (\<lambda>_ _ t. (Inr (), t)), pd_set_timeout = (\<lambda>_ _ _ t. (None, t)),
       pd_write = (\<lambda>_ s t. (None, t \<lparr> tp_out := tp_out t @ s \<rparr>)), pd_flush = (\<lambda>_ t. (None, t)),
       pd_read = (\<lambda>_. chunk_read) \<rparr>"

interpretation chunk: live_stream "chunk_net now" "()" "Suc (now + left)" tp_in tp_out "\<lambda>t. length (tp_rest t)"
  by unfold_locales
     (auto simp: chunk_net_def chunk_read_def min_def split: list.splits nat.splits if_splits)

text \<open>A head that its first blank line ends.\<close>

definition one_head :: "string \<Rightarrow> bool" where
  "one_head h \<longleftrightarrow> h \<noteq> [] \<and> head_done h \<and> list_all (\<lambda>n. \<not> head_done (take n h)) [0..<length h]"

lemma one_head_prefix: "one_head h \<Longrightarrow> strict_prefix p h \<Longrightarrow> \<not> head_done p"
proof -
  assume h: "one_head h" and p: "strict_prefix p h"
  then have "take (length p) h = p" "length p < length h"
    by (auto simp: strict_prefix_def prefix_def)
  with h show "\<not> head_done p" unfolding one_head_def list_all_iff by (metis atLeastLessThan_iff le0 set_upt)
qed

text \<open>
  C31: However the upstream's answer arrives in pieces, \<^verbatim>\<open>http_connect\<close> sends exactly the CONNECT
  request, reads exactly the head of the answer, and leaves every byte of the origin's that follows
  it; it returns the stream when the head's status is 200 and the typed error of the status, or of an
  unreadable status line, otherwise.
\<close>

theorem http_connect_exact:
  assumes "one_head head" "length head \<le> MAX_PROXY_HEAD" "tp_in t = head @ origin"
  shows "\<exists>t'. http_connect ops (chunk_net now) () cfg host port (Suc (now + left)) t = Some (connect_verdict () head, t')
     \<and> tp_in t' = origin \<and> tp_out t' = tp_out t @ connect_request ops cfg host port"
proof (rule chunk.http_connect_live[OF assms(3)])
  show "head \<noteq> []" "head_done head" using assms(1) by (simp_all add: one_head_def)
  show "\<not> head_done p" if "strict_prefix p head" for p using one_head_prefix[OF assms(1) that] .
  show "length head \<le> Suc MAX_PROXY_HEAD" using assms(2) by simp
qed

definition demo_proxy_config :: proxy_config where
  "demo_proxy_config = \<lparr> px_kind = ProxyHttp, px_host = ''192.0.2.1'', px_port = 3128, px_username = Some ''u'',
     px_password = Some ''p'', px_class = None \<rparr>"

definition demo_connect_head :: string where
  "demo_connect_head = ''HTTP/1.1 200 OK'' @ CRLF @ ''Via: 1.1 x'' @ CRLF @ CRLF"

theorem http_connect_exact_witness:
  "\<exists>t'. http_connect demo_ops (chunk_net 0) () demo_proxy_config ''192.0.2.7'' 443 5
          \<lparr> tp_in = demo_connect_head @ ''hello'', tp_out = [], tp_rest = [3, 0, 1] \<rparr> = Some (Inr (), t')
     \<and> tp_in t' = ''hello'' \<and> tp_out t' = connect_request demo_ops demo_proxy_config ''192.0.2.7'' 443"
proof -
  have h: "one_head demo_connect_head" by code_simp
  have l: "length demo_connect_head \<le> MAX_PROXY_HEAD" by (simp add: demo_connect_head_def MAX_PROXY_HEAD_def CRLF_def)
  have u: "utf8_ok demo_connect_head" by (rule utf8_ok_ascii) code_simp
  have r: "lines demo_connect_head = [''HTTP/1.1 200 OK'', ''Via: 1.1 x'', []]" by code_simp
  have q: "split_whitespace ''HTTP/1.1 200 OK'' = [''HTTP/1.1'', ''200'', ''OK'']" by code_simp
  have n: "parse_unsigned 10 65535 ''200'' = Some 200"
    by (simp add: parse_unsigned_def digit_val_def is_digit_def)
  have v: "connect_verdict () demo_connect_head = Inr ()"
    by (simp add: connect_verdict_def parse_status_code_def u r q n)
  show ?thesis
    using http_connect_exact[OF h l, of "\<lparr> tp_in = demo_connect_head @ ''hello'', tp_out = [], tp_rest = [3, 0, 1] \<rparr>" "''hello''"
        demo_ops 0 demo_proxy_config "''192.0.2.7''" 443 4]
    by (simp add: v)
qed

section \<open>The SOCKS5 client and the sealed SOCKS5 server\<close>

lemma octets_code: "\<forall>b \<in> set os. b < (256 :: nat) \<Longrightarrow> map (\<lambda>b. b mod 256) os = os"
  by (induction os) auto

lemma frame_length_be16: "n < 65536 \<Longrightarrow> frame_length (be16 n) = n"
  by (simp add: frame_length_def be16_def take_bit_eq_mod)

lemma tape_read_front:
  "length bs = n \<Longrightarrow> tape_read n \<lparr> tp_in = bs @ after, tp_out = out, tp_rest = x \<rparr>
     = (Some bs, \<lparr> tp_in = after, tp_out = out, tp_rest = x \<rparr>)"
  by (simp add: tape_read_def)

lemma tape_net_fields [simp]:
  "sk_set_timeout (tape_net now dial la) b n t = (True, t)" "sk_read_exact (tape_net now dial la) = tape_read"
  "sk_write (tape_net now dial la) = tape_write" "sk_flush (tape_net now dial la) t = (True, t)"
  "sk_now (tape_net now dial la) t = (now, t)" "sk_dial (tape_net now dial la) a d = on_rest (dial a d)"
  "sk_set_upstream_timeout (tape_net now dial la) b n u t = t" "sk_local_addr (tape_net now dial la) u t = Some (la u)"
  by (simp_all add: tape_net_def)

lemma on_rest_resolve:
  "resolve_for_connect (\<lambda>h p d. on_rest (R h p d)) host port d \<lparr> tp_in = i, tp_out = out, tp_rest = x \<rparr>
     = map_option (\<lambda>(r, x). (r, \<lparr> tp_in = i, tp_out = out, tp_rest = x \<rparr>)) (resolve_for_connect R host port d x)"
proof (cases "R host port d x")
  case (Some y)
  obtain r x' where "y = (r, x')" by fastforce
  with Some show ?thesis
    by (cases r) (auto simp: resolve_for_connect_def on_rest_def split: option.split list.split)
qed (auto simp: resolve_for_connect_def on_rest_def split: option.split)

lemma greeting_served:
  "read_greeting (tape_net now dial la) \<lparr> tp_in = socks_greeting auth @ after, tp_out = out, tp_rest = x \<rparr>
     = Some (Some (), \<lparr> tp_in = after, tp_out = out @ [CHR 0x05, CHR 0x00], tp_rest = x \<rparr>)"
  by (cases auth) (simp_all add: read_greeting_def socks_greeting_def read_bytes_def tape_read_def tape_write_def)

lemma target_served:
  assumes "length host \<le> 255" "utf8_ok host" "port < 65536"
  obtains atyp target where
    "socks_target host = atyp # target"
    "read_target (tape_net now dial la) (\<lambda>h p d. on_rest (R h p d)) d atyp
       \<lparr> tp_in = target @ be16 port @ after, tp_out = out, tp_rest = x \<rparr>
     = (case resolve_for_connect R host port d x of
          None \<Rightarrow> None
        | Some (Inl _, x) \<Rightarrow> refuse (tape_net now dial la) 0x04 \<lparr> tp_in = after, tp_out = out, tp_rest = x \<rparr>
        | Some (Inr a, x) \<Rightarrow> Some (Some a, \<lparr> tp_in = after, tp_out = out, tp_rest = x \<rparr>))"
proof (cases "parse_ip host")
  case (Some ip)
  have r: "resolve_for_connect R host port d x = Some (Inr (ip, port), x)"
    using Some by (simp add: resolve_for_connect_def)
  have wf: "ip_wf ip" using Some by (rule parse_ip_wf)
  have p2: "length (be16 port) = 2" by (simp add: be16_def)
  show ?thesis
  proof (rule that)
    show "socks_target host = address_type ip # address_bytes ip" using Some by (simp add: socks_target_def)
    show "read_target (tape_net now dial la) (\<lambda>h p d. on_rest (R h p d)) d (address_type ip)
       \<lparr> tp_in = address_bytes ip @ be16 port @ after, tp_out = out, tp_rest = x \<rparr>
     = (case resolve_for_connect R host port d x of
          None \<Rightarrow> None
        | Some (Inl _, x) \<Rightarrow> refuse (tape_net now dial la) 0x04 \<lparr> tp_in = after, tp_out = out, tp_rest = x \<rparr>
        | Some (Inr a, x) \<Rightarrow> Some (Some a, \<lparr> tp_in = after, tp_out = out, tp_rest = x \<rparr>))"
      using wf by (cases ip)
        (simp_all add: read_target_def read_bytes_def r ip_wf_def tape_read_front p2 octets_code
          frame_length_be16[OF assms(3)] o_def)
  qed
next
  case None
  have p2: "length (be16 port) = 2" by (simp add: be16_def)
  have l: "code (char_of (length host)) = length host" using assms(1) by (simp add: take_bit_eq_mod)
  have l1: "tape_read (Suc 0) \<lparr> tp_in = char_of (length host) # host @ be16 port @ after, tp_out = out, tp_rest = x \<rparr>
      = (Some [char_of (length host)], \<lparr> tp_in = host @ be16 port @ after, tp_out = out, tp_rest = x \<rparr>)"
    by (simp add: tape_read_def)
  show ?thesis
    using None by (intro that[of "CHR 0x03" "char_of (length host) # host"])
      (simp_all add: socks_target_def read_target_def read_bytes_def l1 l[simplified] tape_read_front p2
        frame_length_be16[OF assms(3)] assms(2) on_rest_resolve split: option.split sum.split)
qed

text \<open>What a connection comes to: the reply's code and address, and the origin's stream if there is one.\<close>

definition served ::
    "(string \<Rightarrow> nat \<Rightarrow> nat \<Rightarrow> 'x \<Rightarrow> (socket_addr list, 'x) dns_step)
     \<Rightarrow> (socket_addr \<Rightarrow> nat \<Rightarrow> 'x \<Rightarrow> ('u, 'x) dns_step) \<Rightarrow> ('u \<Rightarrow> socket_addr) \<Rightarrow> string \<Rightarrow> nat \<Rightarrow> nat \<Rightarrow> 'x
     \<Rightarrow> ('u option \<times> nat \<times> socket_addr \<times> 'x) option" where
  "served R dial local_addr host port deadline x =
     (case resolve_for_connect R host port deadline x of
        None \<Rightarrow> None
      | Some (Inl _, x) \<Rightarrow> Some (None, 4, unspecified, x)
      | Some (Inr a, x) \<Rightarrow>
          (case dial a deadline x of
             None \<Rightarrow> None
           | Some (Inl _, x) \<Rightarrow> Some (None, 5, unspecified, x)
           | Some (Inr u, x) \<Rightarrow> Some (Some u, 0, local_addr u, x)))"

lemma request_served:
  assumes "length host \<le> 255" "utf8_ok host" "port < 65536"
  shows "handle_client (tape_net now dial la) (\<lambda>h p d. on_rest (R h p d))
           \<lparr> tp_in = socks_greeting auth @ socks_request host port @ after, tp_out = out, tp_rest = x \<rparr>
       = map_option (\<lambda>(u, rep, bind, x). (u, \<lparr> tp_in = after,
             tp_out = out @ [CHR 0x05, CHR 0x00] @ socks_reply rep bind, tp_rest = x \<rparr>))
           (served R dial la host port (now + CONNECT_BUDGET) x)"
proof -
  let ?out = "out @ [CHR 0x05, CHR 0x00]"
  obtain atyp target where t: "socks_target host = atyp # target"
    "read_target (tape_net now dial la) (\<lambda>h p d. on_rest (R h p d)) (now + CONNECT_BUDGET) atyp
       \<lparr> tp_in = target @ be16 port @ after, tp_out = ?out, tp_rest = x \<rparr>
     = (case resolve_for_connect R host port (now + CONNECT_BUDGET) x of
          None \<Rightarrow> None
        | Some (Inl _, x) \<Rightarrow> refuse (tape_net now dial la) 0x04 \<lparr> tp_in = after, tp_out = ?out, tp_rest = x \<rparr>
        | Some (Inr a, x) \<Rightarrow> Some (Some a, \<lparr> tp_in = after, tp_out = ?out, tp_rest = x \<rparr>))"
    by (rule target_served[OF assms])
  have h: "tape_read 4 \<lparr> tp_in = socks_request host port @ after, tp_out = ?out, tp_rest = x \<rparr>
      = (Some [CHR 0x05, CHR 0x01, CHR 0x00, atyp], \<lparr> tp_in = target @ be16 port @ after, tp_out = ?out, tp_rest = x \<rparr>)"
    using t(1) by (simp add: socks_request_def tape_read_def)
  have w: "write_socks_reply (tape_net now dial la) rep bind \<lparr> tp_in = after, tp_out = o', tp_rest = x' \<rparr>
      = (True, \<lparr> tp_in = after, tp_out = o' @ socks_reply rep bind, tp_rest = x' \<rparr>)" for rep bind o' x'
    by (simp add: write_socks_reply_def tape_write_def)
  show ?thesis
    by (simp add: handle_client_def greeting_served read_bytes_def h t(2))
       (auto simp: served_def refuse_def w dial_target_def on_rest_def Let_def split: option.split sum.split)
qed

text \<open>
  C32: The client and the server of the two crates speak one SOCKS5: what \<^verbatim>\<open>socks5_connect\<close> sends for a
  host and port, \<^verbatim>\<open>handle_client\<close> takes as exactly that target, resolved by \<^verbatim>\<open>resolve_for_connect\<close> and
  dialled, and leaves the bytes after it unread; what the server answers, the client takes as success
  exactly when the dial succeeded, as the refusal of the reply's code otherwise, and after a success it
  has read the reply to its last byte and none of the origin's, however it arrives in pieces.
\<close>

theorem socks_agreement:
  assumes "length host \<le> 255" "utf8_ok host" "port < 65536"
    and "served R dial la host port (now + CONNECT_BUDGET) x = Some (u, rep, bind, x')" "ip_wf (fst bind)"
    and "length (or_empty (px_username cfg)) \<le> 255" "length (or_empty (px_password cfg)) \<le> 255"
    and "tp_in t = answer @ origin" "answer = [CHR 0x05, CHR 0x00] @ socks_reply rep bind"
  shows "handle_client (tape_net now dial la) (\<lambda>h p d. on_rest (R h p d))
           \<lparr> tp_in = socks_greeting (has_credentials cfg) @ socks_request host port @ early, tp_out = [], tp_rest = x \<rparr>
         = Some (u, \<lparr> tp_in = early, tp_out = answer, tp_rest = x' \<rparr>)
     \<and> (\<exists>t'. socks5_connect (chunk_net clock) () cfg host port (Suc (clock + left)) t
           = Some (if u = None then Inl (socks_refusal rep) else Inr (), t')
         \<and> tp_out t' = tp_out t @ socks_greeting (has_credentials cfg) @ socks_request host port
         \<and> (u \<noteq> None \<longrightarrow> tp_in t' = origin))"
proof
  show "handle_client (tape_net now dial la) (\<lambda>h p d. on_rest (R h p d))
           \<lparr> tp_in = socks_greeting (has_credentials cfg) @ socks_request host port @ early, tp_out = [], tp_rest = x \<rparr>
         = Some (u, \<lparr> tp_in = early, tp_out = answer, tp_rest = x' \<rparr>)"
    unfolding request_served[OF assms(1-3)] assms(4,9) by simp
  have rep: "rep < 256" "rep = 0 \<longleftrightarrow> u \<noteq> None"
    using assms(4) by (auto simp: served_def split: option.splits sum.splits prod.splits)
  have "tp_in t = [CHR 0x05, CHR 0x00] @ [] @ socks_reply rep bind @ origin" using assms(8,9) by simp
  from chunk.socks5_connect_live[OF assms(1) rep(1) assms(5) _ assms(6,7) this, of clock port left] rep(2)
  show "\<exists>t'. socks5_connect (chunk_net clock) () cfg host port (Suc (clock + left)) t
           = Some (if u = None then Inl (socks_refusal rep) else Inr (), t')
         \<and> tp_out t' = tp_out t @ socks_greeting (has_credentials cfg) @ socks_request host port
         \<and> (u \<noteq> None \<longrightarrow> tp_in t' = origin)"
    by (auto split: if_splits)
qed

theorem socks_agreement_witness:
  "\<exists>t'. socks5_connect (chunk_net 0) () demo_proxy_config ''a.example'' 443 9
       \<lparr> tp_in = [CHR 0x05, CHR 0x00] @ socks_reply 0 (LOCALHOST_V4, 5000) @ ''hello'', tp_out = [], tp_rest = [1, 0, 2] \<rparr>
       = Some (Inr (), t') \<and> tp_in t' = ''hello''"
proof -
  let ?R = "\<lambda>h p d x. Some (Inr [(IpV4 [192, 0, 2, 7], p)], x) :: (socket_addr list, unit) dns_step"
  let ?dial = "\<lambda>a d x. Some (Inr (), x) :: (unit, unit) dns_step"
  have a: "parse_ip ''a.example'' = None" by (simp add: demo_addresses)
  have n: "\<not> is_loopback_name ''a.example''" by code_simp
  have s: "served ?R ?dial (\<lambda>_. (LOCALHOST_V4, 5000)) ''a.example'' 443 (0 + CONNECT_BUDGET) ()
      = Some (Some (), 0, (LOCALHOST_V4, 5000), ())"
    by (simp add: served_def resolve_for_connect_def a n)
  have u: "utf8_ok ''a.example''" by (rule utf8_ok_ascii) code_simp
  have w: "ip_wf (fst (LOCALHOST_V4, 5000 :: nat))" by (simp add: ip_wf_def LOCALHOST_V4_def)
  show ?thesis
    using socks_agreement[of "''a.example''" 443 ?R ?dial "\<lambda>_. (LOCALHOST_V4, 5000)" 0 "()" "Some ()" 0
        "(LOCALHOST_V4, 5000)" "()" demo_proxy_config
        "\<lparr> tp_in = [CHR 0x05, CHR 0x00] @ socks_reply 0 (LOCALHOST_V4, 5000) @ ''hello'', tp_out = [], tp_rest = [1, 0, 2] \<rparr>"
        _ "''hello''" "[]" 0 8, OF _ u _ s w _ _ _ refl]
    by (auto simp: demo_proxy_config_def or_empty_def)
qed

section \<open>The composer pins the origin's address\<close>

lemma update_lookup [simp]:
  "proxy_remaining (N \<lparr> pd_lookup := L \<rparr>) = proxy_remaining N"
  "apply_stream_timeouts (N \<lparr> pd_lookup := L \<rparr>) = apply_stream_timeouts N"
  by (simp_all add: fun_eq_iff proxy_remaining_def apply_stream_timeouts_def)

lemma read_full_lookup1:
  assumes "read_full N s d n filled w = Some y"
  shows "read_full (N \<lparr> pd_lookup := L \<rparr>) s d n filled w = Some y"
  by (rule read_full.raw_induct[where P = "\<lambda>N s d n filled w y. read_full (N \<lparr> pd_lookup := L \<rparr>) s d n filled w = Some y", OF _ assms])
    (subst read_full.simps, auto split: if_splits prod.splits option.splits sum.splits io_error.splits)

lemma read_http_head_lookup1:
  assumes "read_http_head N s d buf w = Some y"
  shows "read_http_head (N \<lparr> pd_lookup := L \<rparr>) s d buf w = Some y"
proof (rule read_http_head.raw_induct[where P = "\<lambda>N s d buf w y. read_http_head (N \<lparr> pd_lookup := L \<rparr>) s d buf w = Some y",
      OF _ assms], goal_cases)
  case (1 f N s d buf w y)
  note ih = "1"(1) and body = "1"(2)
  obtain t1 w1 where e1: "pd_now N w = (t1, w1)" by fastforce
  show ?case
  proof (cases "d \<le> t1")
    case True
    with e1 show ?thesis using body by (subst read_http_head.simps) simp
  next
    case False
    show ?thesis
    proof (cases "apply_stream_timeouts N s d w1")
      case None
      with e1 False show ?thesis using body by (subst read_http_head.simps) simp
    next
      case (Some q)
      obtain u w2 where e2: "apply_stream_timeouts N s d w1 = Some (u, w2)" using Some by (cases q) simp
      obtain r w3 where e3: "pd_read N s 1 w2 = (r, w3)" by fastforce
      obtain t4 w4 where e4: "pd_now N w3 = (t4, w4)" by fastforce
      note eqs = e1 e2 e3[simplified] e4 False
      show ?thesis
        using body by (subst read_http_head.simps, cases u; cases r)
          (auto simp: eqs intro: ih split: if_splits list.splits io_error.splits)
    qed
  qed
qed

lemma lookup_loops [simp]:
  "read_full (N \<lparr> pd_lookup := L \<rparr>) = read_full N"
  "read_http_head (N \<lparr> pd_lookup := L \<rparr>) = read_http_head N"
proof -
  have "read_full (N \<lparr> pd_lookup := L \<rparr>) s d n f w = read_full N s d n f w" for s d n f w
    by (rule option_eqI) (drule read_full_lookup1[where L = "pd_lookup N"], simp, erule read_full_lookup1)
  then show "read_full (N \<lparr> pd_lookup := L \<rparr>) = read_full N" by (simp add: fun_eq_iff)
  have "read_http_head (N \<lparr> pd_lookup := L \<rparr>) s d b w = read_http_head N s d b w" for s d b w
    by (rule option_eqI) (drule read_http_head_lookup1[where L = "pd_lookup N"], simp, erule read_http_head_lookup1)
  then show "read_http_head (N \<lparr> pd_lookup := L \<rparr>) = read_http_head N" by (simp add: fun_eq_iff)
qed

lemma lookup_protocols [simp]:
  "socks5_userpass_auth (N \<lparr> pd_lookup := L \<rparr>) = socks5_userpass_auth N"
  "drain_bound_address (N \<lparr> pd_lookup := L \<rparr>) = drain_bound_address N"
  "select_method (N \<lparr> pd_lookup := L \<rparr>) = select_method N"
  "http_connect ops (N \<lparr> pd_lookup := L \<rparr>) = http_connect ops N"
  "socks5_connect (N \<lparr> pd_lookup := L \<rparr>) = socks5_connect N"
proof -
  show 1: "socks5_userpass_auth (N \<lparr> pd_lookup := L \<rparr>) = socks5_userpass_auth N"
    by (simp add: fun_eq_iff socks5_userpass_auth_def Let_def)
  show 2: "drain_bound_address (N \<lparr> pd_lookup := L \<rparr>) = drain_bound_address N"
    by (simp add: fun_eq_iff drain_bound_address_def)
  show 3: "select_method (N \<lparr> pd_lookup := L \<rparr>) = select_method N"
    by (simp add: fun_eq_iff select_method_def 1)
  show "http_connect ops (N \<lparr> pd_lookup := L \<rparr>) = http_connect ops N"
    by (simp add: fun_eq_iff http_connect_def)
  show "socks5_connect (N \<lparr> pd_lookup := L \<rparr>) = socks5_connect N"
    by (simp add: fun_eq_iff socks5_connect_def 2 3 cong: if_cong)
qed

text \<open>A system name service that answers in an arbitrary way for every name but one.\<close>

definition relookup :: "(string \<Rightarrow> nat \<Rightarrow> 'w \<Rightarrow> (string, socket_addr list) result \<times> 'w) \<Rightarrow> string
    \<Rightarrow> ('s, 'w) proxy_net \<Rightarrow> ('s, 'w) proxy_net" where
  "relookup other host N = N \<lparr> pd_lookup := (\<lambda>h. if h = host then pd_lookup N h else other h) \<rparr>"

lemma relookup_fields [simp]:
  "pd_now (relookup other h N) = pd_now N" "pd_sleep (relookup other h N) = pd_sleep N"
  "pd_lookup (relookup other h N) h = pd_lookup N h" "relookup (pd_lookup N) h (relookup other h N) = N"
proof -
  have "(\<lambda>h'. if h' = h then pd_lookup N h else pd_lookup N h') = pd_lookup N" by auto
  then show "relookup (pd_lookup N) h (relookup other h N) = N" by (simp add: relookup_def cong: if_cong)
qed (simp_all add: relookup_def)

lemma resolve_loop_lookup1:
  assumes "resolve_loop N h port start timeout w = Some y"
  shows "resolve_loop (relookup other h N) h port start timeout w = Some y"
  by (rule resolve_loop.raw_induct[where P = "\<lambda>N h port start timeout w y.
      resolve_loop (relookup other h N) h port start timeout w = Some y", OF _ assms])
    (subst resolve_loop.simps, auto split: if_splits prod.splits sum.splits list.splits)

lemma relookup_resolve:
  "resolve_proxy_endpoint (relookup other (fst (split_host_port_if_embedded host port)) N) host port timeout w
     = resolve_proxy_endpoint N host port timeout w"
proof -
  obtain h p where hp: "split_host_port_if_embedded host port = (h, p)" by fastforce
  have "resolve_loop (relookup other h N) h p start timeout w = resolve_loop N h p start timeout w" for start w
    by (rule option_eqI) (drule resolve_loop_lookup1[where other = "pd_lookup N"], simp, erule resolve_loop_lookup1)
  then show ?thesis by (auto simp: resolve_proxy_endpoint_def hp split: option.split prod.split)
qed

text \<open>
  A network that notes whom it connects to and what it is given to write; apart from that it acts as the network
  it is made of. A step follows a script when it writes a prefix of it, and all of it if it succeeds.
\<close>

datatype dial_act = Connects socket_addr | Writes string

definition noting :: "('w \<Rightarrow> 'a \<times> 'w) \<Rightarrow> dial_act list \<Rightarrow> 'w \<times> dial_act list \<Rightarrow> 'a \<times> ('w \<times> dial_act list)" where
  "noting f acts v = (case f (fst v) of (a, w) \<Rightarrow> (a, (w, snd v @ acts)))"

definition logging :: "('s, 'w) proxy_net \<Rightarrow> ('s, 'w \<times> dial_act list) proxy_net" where
  "logging N =
     \<lparr> pd_now = noting (pd_now N) [], pd_sleep = (\<lambda>d v. (pd_sleep N d (fst v), snd v)),
       pd_lookup = (\<lambda>h p. noting (pd_lookup N h p) []),
       pd_connect = (\<lambda>a t. noting (pd_connect N a t) [Connects a]),
       pd_set_timeout = (\<lambda>b t s. noting (pd_set_timeout N b t s) []),
       pd_write = (\<lambda>s bs. noting (pd_write N s bs) [Writes bs]), pd_flush = (\<lambda>s. noting (pd_flush N s) []),
       pd_read = (\<lambda>s n. noting (pd_read N s n) []) \<rparr>"

definition follows :: "string list set \<Rightarrow> ('w \<times> dial_act list \<Rightarrow> ('a, 'w \<times> dial_act list) step) \<Rightarrow> bool" where
  "follows scripts f \<longleftrightarrow>
     (\<forall>v r v'. f v = Some (r, v') \<longrightarrow>
        (\<exists>script \<in> scripts. \<exists>bs. prefix bs script \<and> snd v' = snd v @ map Writes bs \<and> (is_ok r \<longrightarrow> bs = script)))"

lemma noted:
  "pd_now (logging N) v = (t, v') \<Longrightarrow> snd v' = snd v"
  "pd_lookup (logging N) h p v = (l, v') \<Longrightarrow> snd v' = snd v"
  "pd_set_timeout (logging N) b d s v = (e, v') \<Longrightarrow> snd v' = snd v"
  "pd_flush (logging N) s v = (e, v') \<Longrightarrow> snd v' = snd v"
  "pd_read (logging N) s n v = (r, v') \<Longrightarrow> snd v' = snd v"
  "pd_write (logging N) s bs v = (e, v') \<Longrightarrow> snd v' = snd v @ [Writes bs]"
  "pd_connect (logging N) addr d v = (c, v') \<Longrightarrow> snd v' = snd v @ [Connects addr]"
  by (auto simp: logging_def noting_def split: prod.splits)

lemma noted_sleep [simp]: "snd (pd_sleep (logging N) d v) = snd v"
  by (simp add: logging_def)

lemma proxy_io_Some: "proxy_io m = Some (r, w) \<Longrightarrow> \<exists>e. m = (e, w) \<and> (is_ok r \<longrightarrow> e = None)"
  by (cases m rule: proxy_io.cases) auto

lemma remaining_quiet: "proxy_remaining (logging N) d v = Some (r, v') \<Longrightarrow> snd v' = snd v"
  by (auto simp: proxy_remaining_def dest!: noted split: prod.splits if_splits)

lemma and_then_SomeD:
  "and_then m f = Some (r, w) \<Longrightarrow> (\<exists>e. m = Some (Inl e, w) \<and> r = Inl e) \<or> (\<exists>a u. m = Some (Inr a, u) \<and> f a u = Some (r, w))"
  by (auto simp: and_then_def split: option.splits sum.splits prod.splits)

lemma timeout_set_quiet: "proxy_io (pd_set_timeout (logging N) b d s v) = Some (r, v') \<Longrightarrow> snd v' = snd v"
  by (auto dest!: proxy_io_Some noted)

lemma timeouts_quiet: "apply_stream_timeouts (logging N) s d v = Some (r, v') \<Longrightarrow> snd v' = snd v"
  by (auto simp: apply_stream_timeouts_def dest!: and_then_SomeD remaining_quiet timeout_set_quiet)

lemma read_full_quiet:
  assumes "read_full (logging N) s d n filled v = Some y"
  shows "snd (snd y) = snd v"
proof -
  have "logging N = logging N \<longrightarrow> snd (snd y) = snd v"
  proof (rule read_full.raw_induct[where P = "\<lambda>M s d n filled v y. M = logging N \<longrightarrow> snd (snd y) = snd v", OF _ assms], goal_cases)
    case (1 f M s d n filled v y)
    then show ?case
      by (auto dest!: noted timeouts_quiet "1"(1)[THEN mp] split: if_splits prod.splits option.splits sum.splits io_error.splits)
  qed
  then show ?thesis by simp
qed

lemma read_http_head_quiet:
  assumes "read_http_head (logging N) s d buf v = Some y"
  shows "snd (snd y) = snd v"
proof -
  have "logging N = logging N \<longrightarrow> snd (snd y) = snd v"
  proof (rule read_http_head.raw_induct[where P = "\<lambda>M s d buf v y. M = logging N \<longrightarrow> snd (snd y) = snd v", OF _ assms], goal_cases)
    case (1 f M s d buf v y)
    then show ?case
      by (auto dest!: noted timeouts_quiet "1"(1)[THEN mp]
          split: if_splits prod.splits option.splits sum.splits list.splits io_error.splits)
  qed
  then show ?thesis by simp
qed

lemma resolve_loop_quiet:
  assumes "resolve_loop (logging N) host port start timeout v = Some y"
  shows "snd (snd y) = snd v"
proof -
  have "logging N = logging N \<longrightarrow> snd (snd y) = snd v"
  proof (rule resolve_loop.raw_induct[where P = "\<lambda>M host port start timeout v y. M = logging N \<longrightarrow> snd (snd y) = snd v", OF _ assms],
      goal_cases)
    case (1 f M host port start timeout v y)
    then show ?case
      by (auto dest!: noted "1"(1)[THEN mp] split: if_splits prod.splits sum.splits list.splits)
  qed
  then show ?thesis by simp
qed

lemma resolve_quiet: "resolve_proxy_endpoint (logging N) host port timeout v = Some (r, v') \<Longrightarrow> snd v' = snd v"
  by (auto simp: resolve_proxy_endpoint_def dest!: noted resolve_loop_quiet split: prod.splits option.splits if_splits)

text \<open>The scripts of the steps, and of steps in sequence.\<close>

lemma follows_fail: "scripts \<noteq> {} \<Longrightarrow> follows scripts (\<lambda>v. failed e v)"
  by (auto simp: follows_def)

lemma follows_quiet: "(\<And>v r v'. f v = Some (r, v') \<Longrightarrow> snd v' = snd v) \<Longrightarrow> follows {[]} f"
  by (force simp: follows_def)

lemma follows_then:
  assumes "follows A m" "\<And>a. follows B (f a)" and "B \<noteq> {}"
  shows "follows {x @ y |x y. x \<in> A \<and> y \<in> B} (\<lambda>v. and_then (m v) f)"
  unfolding follows_def
proof (intro allI impI)
  fix v r v' assume "and_then (m v) f = Some (r, v')"
  then consider (bad) e where "m v = Some (Inl e, v')" "r = Inl e"
    | (good) a u where "m v = Some (Inr a, u)" "f a u = Some (r, v')" by (auto dest: and_then_SomeD)
  then show "\<exists>script \<in> {x @ y |x y. x \<in> A \<and> y \<in> B}. \<exists>bs. prefix bs script \<and> snd v' = snd v @ map Writes bs \<and> (is_ok r \<longrightarrow> bs = script)"
  proof cases
    case bad
    from assms(1) bad(1) obtain x bs where "x \<in> A" "prefix bs x" "snd v' = snd v @ map Writes bs"
      unfolding follows_def by blast
    moreover obtain y where "y \<in> B" using assms(3) by blast
    ultimately show ?thesis using bad(2) by (intro bexI[of _ "x @ y"] exI[of _ bs]) auto
  next
    case good
    from assms(1) good(1) obtain x where x: "x \<in> A" "snd u = snd v @ map Writes x"
      unfolding follows_def by fastforce
    from assms(2)[of a] good(2) obtain y bs where "y \<in> B" "prefix bs y" "snd v' = snd u @ map Writes bs" "is_ok r \<longrightarrow> bs = y"
      unfolding follows_def by blast
    with x show ?thesis by (intro bexI[of _ "x @ y"] exI[of _ "x @ bs"]) auto
  qed
qed

lemma follows_after_quiet:
  assumes "\<And>v r v'. m v = Some (r, v') \<Longrightarrow> snd v' = snd v" "\<And>a. follows B (f a)" "B \<noteq> {}"
  shows "follows B (\<lambda>v. and_then (m v) f)"
proof -
  have "{x @ y |x y. x \<in> {[]} \<and> y \<in> B} = B" by auto
  with follows_then[OF follows_quiet assms(2,3), of m] assms(1) show ?thesis by simp
qed

lemma follows_write: "follows {[bs]} (\<lambda>v. proxy_io (pd_write (logging N) s bs v))"
  unfolding follows_def
proof (intro allI impI)
  fix v r v' assume "proxy_io (pd_write (logging N) s bs v) = Some (r, v')"
  then have "snd v' = snd v @ map Writes [bs]" by (auto dest!: proxy_io_Some noted(6))
  then show "\<exists>script \<in> {[bs]}. \<exists>b. prefix b script \<and> snd v' = snd v @ map Writes b \<and> (is_ok r \<longrightarrow> b = script)"
    by (intro bexI[of _ "[bs]"] exI[of _ "[bs]"]) simp_all
qed

lemma follows_after_write:
  assumes "\<And>a. follows B (f a)" "B \<noteq> {}"
  shows "follows ((#) bs ` B) (\<lambda>v. and_then (proxy_io (pd_write (logging N) s bs v)) f)"
proof -
  have e: "{x @ y |x y. x \<in> {[bs]} \<and> y \<in> B} = (#) bs ` B" by auto
  show ?thesis using follows_then[OF follows_write assms, of bs N s] unfolding e .
qed

lemma flush_quiet: "proxy_io (pd_flush (logging N) s v) = Some (r, v') \<Longrightarrow> snd v' = snd v"
  by (auto dest!: proxy_io_Some noted)

lemma read_quiet:
  "read_full (logging N) s d n filled v = Some (r, v') \<Longrightarrow> snd v' = snd v"
  "read_http_head (logging N) s d buf v = Some (r', v') \<Longrightarrow> snd v' = snd v"
  by (drule read_full_quiet, simp) (drule read_http_head_quiet, simp)

lemma drain_quiet: "drain_bound_address (logging N) s d atyp v = Some (r, v') \<Longrightarrow> snd v' = snd v"
  by (auto simp: drain_bound_address_def dest!: and_then_SomeD read_quiet split: if_splits)

lemma follows_timeouts:
  assumes "\<And>a. follows B (f a)" "B \<noteq> {}"
  shows "follows B (\<lambda>v. and_then (apply_stream_timeouts (logging N) s d v) f)"
  by (rule follows_after_quiet[OF _ assms]) (erule timeouts_quiet)

lemma follows_flush:
  assumes "\<And>a. follows B (f a)" "B \<noteq> {}"
  shows "follows B (\<lambda>v. and_then (proxy_io (pd_flush (logging N) s v)) f)"
  by (rule follows_after_quiet[OF _ assms]) (erule flush_quiet)

lemma follows_read:
  assumes "\<And>a. follows B (f a)" "B \<noteq> {}"
  shows "follows B (\<lambda>v. and_then (read_full (logging N) s d n filled v) f)"
  by (rule follows_after_quiet[OF _ assms]) (erule read_quiet(1))

lemma follows_head:
  assumes "\<And>a. follows B (f a)" "B \<noteq> {}"
  shows "follows B (\<lambda>v. and_then (read_http_head (logging N) s d buf v) f)"
  by (rule follows_after_quiet[OF _ assms]) (erule read_quiet(2))

lemma http_connect_follows:
  "follows {[connect_request ops cfg host port]} (http_connect ops (logging N) s cfg host port deadline)"
proof -
  have v: "follows {[]} (\<lambda>w. case parse_status_code response of
         None \<Rightarrow> failed (Transport ''proxy CONNECT returned an unreadable status line'') w
       | Some status \<Rightarrow> if status = 200 then Some (Inr s, w) else failed (classify_connect_status status) w)" for response
    by (rule follows_quiet) (auto split: option.splits if_splits)
  have "follows ((#) (connect_request ops cfg host port) ` {[]}) (\<lambda>w. http_connect ops (logging N) s cfg host port deadline w)"
    unfolding http_connect_def
    by (rule follows_timeouts, rule follows_after_write, rule follows_flush, rule follows_head, rule v) simp_all
  then show ?thesis by simp
qed

lemma follows_mono: "follows A f \<Longrightarrow> A \<subseteq> B \<Longrightarrow> follows B f"
  unfolding follows_def by blast

lemma userpass_follows:
  "follows {[socks_userpass (or_empty (px_username cfg)) (or_empty (px_password cfg))]}
     (socks5_userpass_auth (logging N) s cfg d)"
proof -
  let ?b = "socks_userpass (or_empty (px_username cfg)) (or_empty (px_password cfg))"
  let ?f = "\<lambda>w. and_then (proxy_io (pd_write (logging N) s ?b w)) (\<lambda>_ w.
           and_then (read_full (logging N) s d 2 [] w) (\<lambda>status w.
             if status ! 0 \<noteq> CHR 0x01 \<or> status ! 1 \<noteq> CHR 0x00
             then failed (ProxyConnect None ''proxy_auth_error''
                    ''SOCKS5 username/password authentication failed (not an origin challenge)'') w
             else Some (Inr (), w)))"
  have "follows ((#) ?b ` {[]}) ?f"
    by (rule follows_after_write, rule follows_read, rule follows_quiet) (auto split: if_splits)
  then have "follows {[?b]} ?f" by simp
  then have "follows {[?b]} (\<lambda>w. socks5_userpass_auth (logging N) s cfg d w)"
    using follows_fail[of "{[?b]}"] unfolding socks5_userpass_auth_def Let_def
    by (cases "255 < length (or_empty (px_username cfg)) \<or> 255 < length (or_empty (px_password cfg))") (simp_all only: if_True if_False, simp)
  then show ?thesis by simp
qed

lemma select_method_follows:
  "follows {[], [socks_userpass (or_empty (px_username cfg)) (or_empty (px_password cfg))]}
     (\<lambda>v. select_method (logging N) s cfg d choice v)"
proof -
  let ?S = "{[], [socks_userpass (or_empty (px_username cfg)) (or_empty (px_password cfg))]}"
  have e: "follows ?S (\<lambda>v. failed e v)" for e by (rule follows_fail) simp
  have o: "follows ?S (\<lambda>v. Some (Inr (), v))" by (auto simp: follows_def)
  have u: "follows ?S (\<lambda>v. socks5_userpass_auth (logging N) s cfg d v)" by (rule follows_mono[OF userpass_follows]) simp
  from e o u show ?thesis unfolding select_method_def
    by (cases "choice ! 0 \<noteq> CHR 0x05"; cases "choice ! 1 = CHR 0x00"; cases "choice ! 1 = CHR 0x02"; cases "choice ! 1 = CHR 0xFF")
      (simp_all only: if_True if_False simp_thms)
qed

lemma socks5_connect_follows:
  "follows {[socks_greeting (has_credentials cfg), socks_request host port],
      [socks_greeting (has_credentials cfg), socks_userpass (or_empty (px_username cfg)) (or_empty (px_password cfg)),
       socks_request host port]}
     (\<lambda>w. socks5_connect (logging N) s cfg host port deadline w)"
proof -
  let ?b = "socks_userpass (or_empty (px_username cfg)) (or_empty (px_password cfg))" and ?q = "socks_request host port"
  let ?G = "socks_greeting (has_credentials cfg)"
  let ?r = "\<lambda>reply w. if reply ! 0 \<noteq> CHR 0x05 then failed (Transport ''SOCKS5 reply returned unexpected version'') w
           else if reply ! 1 \<noteq> CHR 0x00 then failed (socks_refusal (code (reply ! 1))) w
           else and_then (drain_bound_address (logging N) s deadline (reply ! 3) w) (\<lambda>_ w. Some (Inr s, w))"
  let ?c = "\<lambda>w. if 255 < length host then failed (Transport ''SOCKS5 target hostname exceeds 255 bytes'') w
      else and_then (proxy_io (pd_write (logging N) s ?q w)) (\<lambda>_ w. and_then (read_full (logging N) s deadline 4 [] w) ?r)"
  have "snd v' = snd v" if "?r reply v = Some (y, v')" for reply v y v'
    using that by (auto dest!: and_then_SomeD drain_quiet split: if_splits)
  then have r: "follows {[]} (?r reply)" for reply by (rule follows_quiet)
  have "follows ((#) ?q ` {[]}) (\<lambda>w. and_then (proxy_io (pd_write (logging N) s ?q w)) (\<lambda>_ w.
      and_then (read_full (logging N) s deadline 4 [] w) ?r))"
    by (rule follows_after_write, rule follows_read, rule r) simp_all
  then have c: "follows {[?q]} ?c"
    using follows_fail[of "{[?q]}" "Transport ''SOCKS5 target hostname exceeds 255 bytes''"]
    by (cases "255 < length host") simp_all
  have e: "{x @ y |x y. x \<in> {[], [?b]} \<and> y \<in> {[?q]}} = {[?q], [?b, ?q]}" by auto
  have m: "follows {[?q], [?b, ?q]} (\<lambda>w. and_then (select_method (logging N) s cfg deadline choice w) (\<lambda>_. ?c))" for choice
    unfolding e[symmetric] by (rule follows_then[OF select_method_follows c]) simp
  have "follows ((#) ?G ` {[?q], [?b, ?q]}) (\<lambda>w. socks5_connect (logging N) s cfg host port deadline w)"
    unfolding socks5_connect_def
    by (rule follows_timeouts, rule follows_after_write, rule follows_read, rule m) simp_all
  then show ?thesis by simp
qed

lemma literal_upstream:
  assumes "resolve_proxy_endpoint N host port timeout w = Some (Inr up, w')"
    and "split_host_port_if_embedded host port = (h, p)" "parse_ip h = Some ip"
  shows "up = (ip, p)"
  using assms by (simp add: resolve_proxy_endpoint_def)

text \<open>What the composer may write to the upstream for an origin's address, in its order.\<close>

definition origin_request :: "socket_addr \<Rightarrow> string" where
  "origin_request addr =
     [CHR 0x05, CHR 0x01, CHR 0x00, address_type (fst addr)] @ address_bytes (fst addr) @ be16 (snd addr)"

definition origin_scripts :: "crypto_ops \<Rightarrow> proxy_config \<Rightarrow> (ip_addr \<Rightarrow> string) \<Rightarrow> socket_addr \<Rightarrow> string list set" where
  "origin_scripts ops cfg show_ip addr =
     (if px_kind cfg = ProxySocks5
      then {[socks_greeting (has_credentials cfg), origin_request addr],
            [socks_greeting (has_credentials cfg),
             socks_userpass (or_empty (px_username cfg)) (or_empty (px_password cfg)), origin_request addr]}
      else {[connect_request ops cfg (show_ip (fst addr)) (snd addr)]})"

lemma tunnel_follows:
  assumes "parse_ip (show_ip (fst addr)) = Some (fst addr)"
  shows "follows (origin_scripts ops cfg show_ip addr)
    (\<lambda>w. if px_kind cfg = ProxySocks5 then socks5_connect (logging N) s cfg (show_ip (fst addr)) (snd addr) deadline w
         else http_connect ops (logging N) s cfg (show_ip (fst addr)) (snd addr) deadline w)"
proof -
  have "socks_request (show_ip (fst addr)) (snd addr) = origin_request addr"
    by (simp add: socks_request_def socks_target_def assms origin_request_def)
  then show ?thesis
    using socks5_connect_follows[of cfg "show_ip (fst addr)" "snd addr" N s deadline]
      http_connect_follows[of ops cfg "show_ip (fst addr)" "snd addr" N s deadline]
    by (simp add: origin_scripts_def)
qed

lemma connect_to_target_acts:
  assumes "connect_to_target ops (logging N) cfg (show_ip (fst addr)) (snd addr) deadline (w, []) = Some (r, (w', acts))"
    and "parse_ip (show_ip (fst addr)) = Some (fst addr)"
  shows "acts = [] \<and> \<not> is_ok r
     \<or> (\<exists>up bs. acts = Connects up # map Writes bs
          \<and> (\<forall>h p ip. split_host_port_if_embedded (px_host cfg) (px_port cfg) = (h, p) \<and> parse_ip h = Some ip \<longrightarrow> up = (ip, p))
          \<and> (\<exists>script \<in> origin_scripts ops cfg show_ip addr. prefix bs script \<and> (is_ok r \<longrightarrow> bs = script)))"
proof -
  let ?M = "logging N"
  let ?t = "\<lambda>s w. if px_kind cfg = ProxySocks5 then socks5_connect ?M s cfg (show_ip (fst addr)) (snd addr) deadline w
         else http_connect ops ?M s cfg (show_ip (fst addr)) (snd addr) deadline w"
  let ?k = "\<lambda>s w. and_then (apply_stream_timeouts ?M s deadline w) (\<lambda>_ w. ?t s w)"
  let ?j = "\<lambda>up left w. and_then (case pd_connect ?M up left w of (Inl e, w) \<Rightarrow> failed (classify_proxy_io e) w | (Inr s, w) \<Rightarrow> Some (Inr s, w)) ?k"
  have k: "follows (origin_scripts ops cfg show_ip addr) (?k s)" for s
    by (rule follows_timeouts, rule tunnel_follows[of show_ip addr, OF assms(2)]) (simp add: origin_scripts_def)
  from assms(1) have "and_then (proxy_remaining ?M deadline (w, [])) (\<lambda>left w.
      and_then (resolve_proxy_endpoint ?M (px_host cfg) (px_port cfg) left w) (\<lambda>up w. ?j up left w)) = Some (r, (w', acts))"
    unfolding connect_to_target_def .
  from and_then_SomeD[OF this] consider (e1) e where "proxy_remaining ?M deadline (w, []) = Some (Inl e, (w', acts))" "r = Inl e"
    | (e2) left v e where "proxy_remaining ?M deadline (w, []) = Some (Inr left, v)"
        "resolve_proxy_endpoint ?M (px_host cfg) (px_port cfg) left v = Some (Inl e, (w', acts))" "r = Inl e"
    | (ok) left v up u where "proxy_remaining ?M deadline (w, []) = Some (Inr left, v)"
        "resolve_proxy_endpoint ?M (px_host cfg) (px_port cfg) left v = Some (Inr up, u)" "?j up left u = Some (r, (w', acts))"
    by (elim disjE exE conjE) (blast dest: and_then_SomeD)+
  then show ?thesis
  proof cases
    case e1
    from remaining_quiet[OF e1(1)] e1(2) show ?thesis by simp
  next
    case e2
    from remaining_quiet[OF e2(1)] resolve_quiet[OF e2(2)] e2(3) show ?thesis by simp
  next
    case ok
    have u: "snd u = []" using remaining_quiet[OF ok(1)] resolve_quiet[OF ok(2)] by simp
    obtain c x where c: "pd_connect ?M up left u = (c, x)" by (metis surj_pair)
    have x: "snd x = [Connects up]" using noted(7)[OF c] u by simp
    note lit = literal_upstream[OF ok(2)]
    show ?thesis
    proof (cases c)
      case (Inl e)
      with ok(3) c have "r = Inl (classify_proxy_io e)" "(w', acts) = x" by (auto simp: and_then_def)
      with x lit show ?thesis
        by (intro disjI2 exI[of _ up] exI[of _ "[]"]) (auto simp: origin_scripts_def)
    next
      case (Inr s)
      with ok(3) c have "?k s x = Some (r, (w', acts))" by (simp add: and_then_def)
      with k[of s] x obtain script bs where "script \<in> origin_scripts ops cfg show_ip addr" "prefix bs script"
        "acts = Connects up # map Writes bs" "is_ok r \<longrightarrow> bs = script" unfolding follows_def by fastforce
      with lit show ?thesis by blast
    qed
  qed
qed


definition demo_show_ip :: "ip_addr \<Rightarrow> string" where
  "demo_show_ip ip = (case ip of IpV4 os \<Rightarrow> show_ipv4 os | IpV6 _ \<Rightarrow> [])"

definition demo_socks_config :: proxy_config where
  "demo_socks_config = \<lparr> px_kind = ProxySocks5, px_host = ''127.0.0.1'', px_port = 1080, px_username = None,
     px_password = None, px_class = None \<rparr>"

definition demo_origin :: socket_addr where
  "demo_origin = (IpV4 [192, 0, 2, 7], 443)"

text \<open>A SOCKS5 upstream that answers the greeting and the request, one byte late.\<close>

definition demo_upstream :: "nat list tape" where
  "demo_upstream = \<lparr> tp_in = [CHR 0x05, CHR 0x00] @ socks_reply 0 (LOCALHOST_V4, 5000), tp_out = [], tp_rest = [1, 0] \<rparr>"

interpretation noted_chunk: live_stream "logging (chunk_net now)" "()" "Suc (now + left)" "\<lambda>v. tp_in (fst v)"
    "\<lambda>v. tp_out (fst v)" "\<lambda>v. length (tp_rest (fst v))"
  by unfold_locales
     (auto simp: logging_def noting_def chunk_net_def chunk_read_def min_def split: list.splits nat.splits if_splits prod.splits)

lemma demo_composed:
  "\<exists>w' acts. composer_dial demo_ops (logging (chunk_net 0)) demo_show_ip demo_socks_config demo_origin 5 (demo_upstream, [])
     = Some (Inr (), (w', acts))"
proof -
  have h: "split_host_port_if_embedded (px_host demo_socks_config) (px_port demo_socks_config) = (''127.0.0.1'', 1080)"
    and i: "parse_ip ''127.0.0.1'' = Some (IpV4 [127, 0, 0, 1])" and l: "length (demo_show_ip (fst demo_origin)) \<le> 255"
    by code_simp+
  have w: "ip_wf (fst (LOCALHOST_V4, 5000 :: nat))" by (simp add: ip_wf_def LOCALHOST_V4_def)
  have c: "px_kind demo_socks_config = ProxySocks5" "or_empty (px_username demo_socks_config) = []"
    "or_empty (px_password demo_socks_config) = []" by (simp_all add: demo_socks_config_def or_empty_def)
  let ?v = "(demo_upstream, [Connects (IpV4 [127, 0, 0, 1], 1080)])"
  have "\<exists>u. socks5_connect (logging (chunk_net 0)) () demo_socks_config (demo_show_ip (fst demo_origin)) (snd demo_origin)
      (Suc (0 + 4)) ?v = Some (if 0 = (0 :: nat) then Inr () else Inl (socks_refusal 0), u)
     \<and> tp_out (fst u) = tp_out (fst ?v) @ socks_greeting (has_credentials demo_socks_config)
         @ (if [] = ([] :: string) then [] else socks_userpass (or_empty (px_username demo_socks_config)) (or_empty (px_password demo_socks_config)))
         @ socks_request (demo_show_ip (fst demo_origin)) (snd demo_origin)
     \<and> (0 = (0 :: nat) \<longrightarrow> tp_in (fst u) = [])"
    by (rule noted_chunk.socks5_connect_live[where auth = "[]" and choice = "[CHR 0x05, CHR 0x00]" and bind = "(LOCALHOST_V4, 5000)"])
      (use l w in \<open>simp_all add: c demo_upstream_def\<close>)
  then obtain w' acts where s: "socks5_connect (logging (chunk_net 0)) () demo_socks_config (demo_show_ip (fst demo_origin)) (snd demo_origin)
      5 ?v = Some (Inr (), (w', acts))" by auto
  have f: "pd_now (logging (chunk_net 0)) v = (0, v)" "pd_set_timeout (logging (chunk_net 0)) b ms x v = (None, v)"
    "pd_connect (logging (chunk_net 0)) up ms v = (Inr (), (fst v, snd v @ [Connects up]))" for v b ms x up
    by (simp_all add: logging_def noting_def chunk_net_def)
  show ?thesis
    by (simp add: composer_dial_def connect_to_target_def and_then_def proxy_remaining_def resolve_proxy_endpoint_def h i
        apply_stream_timeouts_def c f s[simplified])
qed


text \<open>The address of an IPv6 origin stands in the authority of a CONNECT request without its brackets.\<close>

lemma connect_names_v6_unbracketed:
  "\<exists>rest. connect_request ops cfg ''2001:db8::1'' 443 = ''CONNECT 2001:db8::1:443 HTTP/1.1'' @ CRLF @ rest"
proof -
  have "show_nat 443 = ''443''" by code_simp
  then show ?thesis by (simp add: connect_request_def Let_def)
qed

end
