(* ===== verification/Captcha_Solver.thy ===== *)
theory Captcha_Solver
  imports Scrape_Options Scrape_Surface Redact
begin

text \<open>
  The optional captcha solver of \<^verbatim>\<open>basecrawl-core/src/captcha_solver.rs\<close>: its activation from options
  and environment, the classification of a challenge page, the two calls to the solver's service and
  the polling loop, the actions that apply a token, and the verdict on the page after it. The service,
  the clock (in milliseconds) and the sleeps are the fields of \<open>solver_net\<close>; \<open>text\<close> is \<^verbatim>\<open>serde_json\<close>'s
  text of a value. A panic and a poll that never returns are \<open>None\<close>.
\<close>

section \<open>Configuration\<close>

definition CAPSOLVER_API_BASE :: string where "CAPSOLVER_API_BASE = ''https://api.capsolver.com''"
definition CAPSOLVER_API_KEY_ENV :: string where "CAPSOLVER_API_KEY_ENV = ''CAPSOLVER_API_KEY''"
definition BASECRAWL_CAPSOLVER_API_KEY_ENV :: string where
  "BASECRAWL_CAPSOLVER_API_KEY_ENV = ''BASECRAWL_CAPSOLVER_API_KEY''"
definition CAPTCHA_SOLVER_ENV :: string where "CAPTCHA_SOLVER_ENV = ''BASECRAWL_CAPTCHA_SOLVER''"
definition CAPSOLVER_API_BASE_ENV :: string where "CAPSOLVER_API_BASE_ENV = ''BASECRAWL_CAPSOLVER_API_BASE''"
definition DEFAULT_SOLVE_TIMEOUT_SECS :: nat where "DEFAULT_SOLVE_TIMEOUT_SECS = 90"
definition DEFAULT_POLL_INTERVAL_MS :: nat where "DEFAULT_POLL_INTERVAL_MS = 1000"
definition TURNSTILE_TASK_TYPE :: string where "TURNSTILE_TASK_TYPE = ''AntiTurnstileTaskProxyLess''"
definition SUPPORTED_CHALLENGE_CLASSES :: "string list" where
  "SUPPORTED_CHALLENGE_CLASSES = [''turnstile'', ''cloudflare_turnstile'']"

datatype captcha_solver_provider = CapSolver

definition parse_provider :: "string \<Rightarrow> captcha_solver_provider option" where
  "parse_provider raw = (if to_lower (trim raw) = ''capsolver'' then Some CapSolver else None)"

fun provider_str :: "captcha_solver_provider \<Rightarrow> string" where
  "provider_str CapSolver = ''capsolver''"

datatype challenge_class = Turnstile | UnsupportedChallenge

fun challenge_class_str :: "challenge_class \<Rightarrow> string" where
  "challenge_class_str Turnstile = ''turnstile''"
| "challenge_class_str UnsupportedChallenge = ''unsupported''"

datatype captcha_key_source = KeyEnv string | KeyOptions

fun key_source_str :: "captcha_key_source \<Rightarrow> string" where
  "key_source_str (KeyEnv name) = name"
| "key_source_str KeyOptions = ''scrape_options.captcha_api_key''"

record captcha_solver_config =
  cs_provider :: captcha_solver_provider
  cs_key_source :: captcha_key_source
  cs_api_base :: string
  cs_solve_timeout :: nat
  cs_poll_interval :: nat

record captcha_solver_runtime =
  cr_config :: captcha_solver_config
  cr_api_key :: string

definition new_runtime :: "string \<Rightarrow> string \<Rightarrow> nat \<Rightarrow> captcha_key_source \<Rightarrow> captcha_solver_runtime" where
  "new_runtime api_key api_base solve_timeout key_source =
     \<lparr> cr_config = \<lparr> cs_provider = CapSolver, cs_key_source = key_source,
         cs_api_base = rev (dropWhile (\<lambda>c. c = CHR ''/'') (rev api_base)),
         cs_solve_timeout = solve_timeout, cs_poll_interval = DEFAULT_POLL_INTERVAL_MS \<rparr>,
       cr_api_key = api_key \<rparr>"

definition resolve_provider_name :: "env \<Rightarrow> string option \<Rightarrow> bool \<Rightarrow> captcha_solver_provider option" where
  "resolve_provider_name env cli_solver ambient_env =
     (case cli_solver of
        Some raw \<Rightarrow> parse_provider raw
      | None \<Rightarrow> if \<not> ambient_env then None else Option.bind (env CAPTCHA_SOLVER_ENV) parse_provider)"

fun first_key :: "env \<Rightarrow> string list \<Rightarrow> (string \<times> captcha_key_source) option" where
  "first_key env [] = None"
| "first_key env (name # names) =
     (case env name of
        None \<Rightarrow> first_key env names
      | Some v \<Rightarrow> if trim v \<noteq> [] then Some (trim v, KeyEnv name) else first_key env names)"

definition read_api_key_from_env :: "env \<Rightarrow> (string \<times> captcha_key_source) option" where
  "read_api_key_from_env env = first_key env [CAPSOLVER_API_KEY_ENV, BASECRAWL_CAPSOLVER_API_KEY_ENV]"

text \<open>\<^verbatim>\<open>char::is_control\<close>, at the head of a text.\<close>

fun starts_control :: "string \<Rightarrow> bool" where
  "starts_control (a # b # s) \<longleftrightarrow> code a < 32 \<or> code a = 127 \<or> (code a = 194 \<and> 128 \<le> code b \<and> code b \<le> 159)"
| "starts_control [a] \<longleftrightarrow> code a < 32 \<or> code a = 127"
| "starts_control [] \<longleftrightarrow> False"

fun bad_key :: "string \<Rightarrow> bool" where
  "bad_key [] \<longleftrightarrow> False"
| "bad_key (c # cs) \<longleftrightarrow> starts_control (c # cs) \<or> ws_len (c # cs) \<noteq> 0 \<or> bad_key cs"

definition resolve_runtime ::
    "env \<Rightarrow> string option \<Rightarrow> string option \<Rightarrow> nat option \<Rightarrow> (core_error, captcha_solver_runtime option) result" where
  "resolve_runtime env cli_solver options_key solve_timeout_secs =
     (case (case Option.bind options_key (\<lambda>s. if trim s = [] then None else Some (trim s, KeyOptions)) of
              Some pair \<Rightarrow> Some pair | None \<Rightarrow> read_api_key_from_env env) of
        None \<Rightarrow> Inr None
      | Some (key, source) \<Rightarrow>
          (case (case resolve_provider_name env cli_solver True of
                   Some p \<Rightarrow> Some p
                 | None \<Rightarrow>
                     if source = KeyOptions \<or> source = KeyEnv CAPSOLVER_API_KEY_ENV
                        \<or> source = KeyEnv BASECRAWL_CAPSOLVER_API_KEY_ENV
                     then Some CapSolver else None) of
             None \<Rightarrow> Inr None
           | Some provider \<Rightarrow>
               if bad_key key then
                 Inl (Solver ''solver_auth_error''
                   ''captcha solver API key contains invalid whitespace/control characters'' None)
               else
                 let api_base = (case map_option (\<lambda>v. rev (dropWhile (\<lambda>c. c = CHR ''/'') (rev (trim v))))
                                   (env CAPSOLVER_API_BASE_ENV) of
                        Some v \<Rightarrow> if v = [] then CAPSOLVER_API_BASE else v
                      | None \<Rightarrow> CAPSOLVER_API_BASE);
                     secs = (case solve_timeout_secs of Some n \<Rightarrow> n | None \<Rightarrow> DEFAULT_SOLVE_TIMEOUT_SECS)
                 in Inr (Some \<lparr> cr_config = \<lparr> cs_provider = provider, cs_key_source = source, cs_api_base = api_base,
                      cs_solve_timeout = secs * 1000, cs_poll_interval = DEFAULT_POLL_INTERVAL_MS \<rparr>,
                    cr_api_key = key \<rparr>)))"

definition solver_is_configured :: "captcha_solver_runtime option \<Rightarrow> bool" where
  "solver_is_configured runtime \<longleftrightarrow> runtime \<noteq> None"

section \<open>Secrets\<close>

definition scrub_secret :: "string \<Rightarrow> string \<Rightarrow> string" where
  "scrub_secret t secret = (if secret = [] then t else replace_all secret REDACTED_TOKEN t)"

text \<open>The slice of the first four bytes panics inside a character.\<close>

definition redact_secret_preview :: "string \<Rightarrow> string option" where
  "redact_secret_preview secret =
     (if length secret \<le> 8 then Some REDACTED_TOKEN
      else if 128 \<le> code (secret ! 4) \<and> code (secret ! 4) < 192 then None
      else Some (take 4 secret @ [CHR 0xE2, CHR 0x80, CHR 0xA6] @ ''<redacted>''))"

definition assert_no_secret_leak :: "string \<Rightarrow> string \<Rightarrow> bool" where
  "assert_no_secret_leak surface secret \<longleftrightarrow> secret = [] \<or> \<not> contains surface secret"

section \<open>Challenge pages\<close>

definition sitekey_end :: "char \<Rightarrow> bool" where
  "sitekey_end c \<longleftrightarrow> c \<in> {CHR 0x22, CHR 0x27, CHR '' '', CHR ''>'', CHR ''&''}"

definition sitekey_needles :: "string list" where
  "sitekey_needles = [''data-sitekey='' @ [CHR 0x22], ''data-sitekey='' @ [CHR 0x27],
     ''sitekey='' @ [CHR 0x22], ''sitekey='' @ [CHR 0x27]]"

definition sitekey_at :: "string \<Rightarrow> string \<Rightarrow> string option" where
  "sitekey_at html needle =
     (case find_sub needle (to_lower html) of
        None \<Rightarrow> None
      | Some idx \<Rightarrow>
          (let key = trim (takeWhile (\<lambda>c. \<not> sitekey_end c) (drop (idx + length needle) html))
           in if key \<noteq> [] \<and> 8 \<le> length key then Some key else None))"

fun first_some :: "('a \<Rightarrow> 'b option) \<Rightarrow> 'a list \<Rightarrow> 'b option" where
  "first_some f [] = None"
| "first_some f (x # xs) = (case f x of Some y \<Rightarrow> Some y | None \<Rightarrow> first_some f xs)"

definition extract_turnstile_sitekey :: "string \<Rightarrow> string option" where
  "extract_turnstile_sitekey html = first_some (sitekey_at html) sitekey_needles"

definition classify_challenge_html :: "string \<Rightarrow> challenge_class" where
  "classify_challenge_html html =
     (let lower = to_lower html;
          sitekey = extract_turnstile_sitekey html \<noteq> None;
          turnstile_ish = contains lower ''turnstile'' \<or> contains lower ''cf-turnstile''
            \<or> (contains lower ''data-sitekey''
               \<and> (contains lower ''challenges.cloudflare.com'' \<or> contains lower ''cf-turnstile''))
      in if turnstile_ish \<or> (sitekey \<and> contains lower ''captcha'')
         then if sitekey then Turnstile else UnsupportedChallenge
         else UnsupportedChallenge)"

section \<open>Requests and outcomes\<close>

record solve_request =
  sq_website_url :: string
  sq_website_key :: string
  sq_challenge_class :: challenge_class
  sq_action :: "string option"
  sq_cdata :: "string option"

record solve_solution =
  sl_token :: string
  sl_task_id :: string
  sl_task_type :: string
  sl_user_agent :: "string option"

datatype solver_error_kind = SolverAuth | SolverTimeout | SolverUnsupported | SolverProvider | SolverTransport

fun solver_error_kind_str :: "solver_error_kind \<Rightarrow> string" where
  "solver_error_kind_str SolverAuth = ''solver_auth_error''"
| "solver_error_kind_str SolverTimeout = ''solver_timeout''"
| "solver_error_kind_str SolverUnsupported = ''solver_unsupported''"
| "solver_error_kind_str SolverProvider = ''solver_error''"
| "solver_error_kind_str SolverTransport = ''solver_transport_error''"

datatype solve_outcome = Solved solve_solution | Failed solver_error_kind string "string option"

record 'w solver_net =
  sn_post :: "string \<Rightarrow> json \<Rightarrow> 'w \<Rightarrow> (string, nat \<times> json) result \<times> 'w"
  sn_now :: "'w \<Rightarrow> nat \<times> 'w"
  sn_sleep :: "nat \<Rightarrow> 'w \<Rightarrow> 'w"

text \<open>
  \<^verbatim>\<open>ReqwestCapSolverHttp\<close>, over building a client, sending a request and reading the reply's text.
\<close>

definition post_json ::
    "string option \<Rightarrow> (json \<Rightarrow> string) \<Rightarrow> (string \<Rightarrow> json option)
     \<Rightarrow> (string \<Rightarrow> string \<Rightarrow> 'w \<Rightarrow> (string, nat \<times> (string, string) result) result \<times> 'w)
     \<Rightarrow> string \<Rightarrow> json \<Rightarrow> 'w \<Rightarrow> (string, nat \<times> json) result \<times> 'w" where
  "post_json build_error txt of_text send url body w =
     (case build_error of
        Some e \<Rightarrow> (Inl (''client build failed: '' @ e), w)
      | None \<Rightarrow>
          (case send url (txt body) w of
             (Inl e, w) \<Rightarrow> (Inl (''capsolver transport: '' @ e), w)
           | (Inr (status, Inl e), w) \<Rightarrow> (Inl (''capsolver read body: '' @ e), w)
           | (Inr (status, Inr reply), w) \<Rightarrow>
               (Inr (status, case of_text reply of
                  Some v \<Rightarrow> v
                | None \<Rightarrow> jobj [(''errorId'', JNum 1), (''errorCode'', JStr ''INVALID_JSON''),
                            (''errorDescription'', JStr ''non-json response from capsolver host'')]), w)))"

definition as_i64 :: "json \<Rightarrow> int option" where
  "as_i64 v = (case v of JNum n \<Rightarrow> if - (2 ^ 63) \<le> n \<and> n < 2 ^ 63 then Some n else None | _ \<Rightarrow> None)"

definition error_id :: "json \<Rightarrow> int" where
  "error_id v = (case Option.bind (jget v ''errorId'') as_i64 of Some n \<Rightarrow> n | None \<Rightarrow> 0)"

definition str_or :: "json \<Rightarrow> string \<Rightarrow> string \<Rightarrow> string" where
  "str_or v k d = (case jget_str v k of Some s \<Rightarrow> s | None \<Rightarrow> d)"

definition nonempty_str :: "json \<Rightarrow> string \<Rightarrow> string option" where
  "nonempty_str v k = Option.bind (jget_str v k) (\<lambda>s. if s = [] then None else Some s)"

definition classify_provider_error :: "string \<Rightarrow> string \<Rightarrow> nat \<Rightarrow> solver_error_kind" where
  "classify_provider_error err desc http_status =
     (let c = to_upper err; d = to_lower desc
      in if http_status = 401 \<or> http_status = 403 \<or> contains c ''KEY'' \<or> contains c ''AUTH''
            \<or> contains d ''invalid key'' \<or> contains d ''api key'' \<or> contains d ''unauthorized''
            \<or> contains d ''client key''
         then SolverAuth else SolverProvider)"

definition extract_solution :: "json \<Rightarrow> string \<Rightarrow> solve_solution option" where
  "extract_solution v fallback_task_id =
     Option.bind (jget v ''solution'') (\<lambda>solution.
     Option.bind (case jget solution ''token'' of Some t \<Rightarrow> Some t | None \<Rightarrow> jget solution ''gRecaptchaResponse'') (\<lambda>t.
     Option.bind (jstr t) (\<lambda>token.
       if token = [] then None
       else Some \<lparr> sl_token = token,
              sl_task_id = (case nonempty_str v ''taskId'' of Some s \<Rightarrow> s | None \<Rightarrow> fallback_task_id),
              sl_task_type = TURNSTILE_TASK_TYPE, sl_user_agent = jget_str solution ''userAgent'' \<rparr>)))"

section \<open>The two calls\<close>

datatype create_task_result = Pending string | Ready solve_solution

definition task_value :: "solve_request \<Rightarrow> json" where
  "task_value q =
     jobj ([(''type'', JStr TURNSTILE_TASK_TYPE), (''websiteURL'', JStr (sq_website_url q)),
            (''websiteKey'', JStr (sq_website_key q))]
       @ (if sq_action q \<noteq> None \<or> sq_cdata q \<noteq> None
          then [(''metadata'', jobj ((case sq_action q of Some a \<Rightarrow> [(''action'', JStr a)] | None \<Rightarrow> [])
                  @ (case sq_cdata q of Some c \<Rightarrow> [(''cdata'', JStr c)] | None \<Rightarrow> [])))]
          else []))"

definition http_refused :: "string \<Rightarrow> nat \<Rightarrow> string" where
  "http_refused call status =
     ''capsolver '' @ call @ '' HTTP '' @ show_nat status @ '' (invalid or unauthorized key)''"

definition provider_failure :: "captcha_solver_runtime \<Rightarrow> string \<Rightarrow> string \<Rightarrow> nat \<Rightarrow> json \<Rightarrow> string option \<Rightarrow> solve_outcome" where
  "provider_failure rt call default_desc status v task_id =
     (let err = str_or v ''errorCode'' []; desc = str_or v ''errorDescription'' default_desc
      in Failed (classify_provider_error err desc status)
           (scrub_secret (call @ '' failed code='' @ err @ '' desc='' @ desc @ '' http='' @ show_nat status) (cr_api_key rt))
           task_id)"

definition create_task ::
    "'w solver_net \<Rightarrow> captcha_solver_runtime \<Rightarrow> solve_request \<Rightarrow> 'w \<Rightarrow> (solve_outcome, create_task_result) result \<times> 'w" where
  "create_task N rt q w =
     (case sn_post N (cs_api_base (cr_config rt) @ ''/createTask'')
             (jobj [(''clientKey'', JStr (cr_api_key rt)), (''task'', task_value q)]) w of
        (Inl e, w) \<Rightarrow> (Inl (Failed SolverTransport (scrub_secret e (cr_api_key rt)) None), w)
      | (Inr (status, v), w) \<Rightarrow>
          (if status = 401 \<or> status = 403 then Inl (Failed SolverAuth (http_refused ''createTask'' status) None)
           else if error_id v \<noteq> 0 \<or> 400 \<le> status
           then Inl (provider_failure rt ''createTask'' ''capsolver createTask failed'' status v (jget_str v ''taskId''))
           else case (if jget_str v ''status'' = Some ''ready'' then extract_solution v [] else None) of
                  Some solution \<Rightarrow> Inr (Ready solution)
                | None \<Rightarrow> (case nonempty_str v ''taskId'' of
                     Some task_id \<Rightarrow> Inr (Pending task_id)
                   | None \<Rightarrow> Inl (Failed SolverProvider ''createTask returned no taskId'' None)), w))"

definition poll_body :: "captcha_solver_runtime \<Rightarrow> string \<Rightarrow> json" where
  "poll_body rt task_id = jobj [(''clientKey'', JStr (cr_api_key rt)), (''taskId'', JStr task_id)]"

text \<open>What a reply to a poll comes to; none when the task is still running.\<close>

definition poll_verdict :: "captcha_solver_runtime \<Rightarrow> string \<Rightarrow> (string, nat \<times> json) result \<Rightarrow> solve_outcome option" where
  "poll_verdict rt task_id reply =
     (case reply of
        Inl e \<Rightarrow> Some (Failed SolverTransport (scrub_secret e (cr_api_key rt)) (Some task_id))
      | Inr (status, v) \<Rightarrow>
          if status = 401 \<or> status = 403
          then Some (Failed SolverAuth (http_refused ''getTaskResult'' status) (Some task_id))
          else if error_id v \<noteq> 0 \<or> 400 \<le> status
          then Some (provider_failure rt ''getTaskResult'' ''getTaskResult failed'' status v (Some task_id))
          else let s = str_or v ''status'' []
               in if s = ''ready'' then
                    Some (case extract_solution v task_id of
                       Some sol \<Rightarrow>
                         if sl_token sol \<noteq> [] then Solved sol
                         else Failed SolverProvider ''empty solution token; refuse forge'' (Some task_id)
                     | None \<Rightarrow> Failed SolverProvider ''ready status without solution token; refuse forge'' (Some task_id))
                  else if s = ''failed'' \<or> s = ''error''
                  then Some (Failed SolverProvider ''capsolver status=failed'' (Some task_id))
                  else None)"

text \<open>The counter of polls is a \<^verbatim>\<open>u32\<close>; with a second between polls it does not overflow in a century.\<close>

partial_function (option) poll_task_result ::
    "'w solver_net \<Rightarrow> captcha_solver_runtime \<Rightarrow> string \<Rightarrow> nat \<Rightarrow> nat \<Rightarrow> 'w \<Rightarrow> (solve_outcome \<times> 'w) option" where
  "poll_task_result N rt task_id deadline polls w =
     (case sn_now N w of (t, w) \<Rightarrow>
        if deadline \<le> t then
          Some (Failed SolverTimeout
            (''solver_timeout after '' @ show_nat polls @ '' poll(s) (budget ''
              @ show_nat (cs_solve_timeout (cr_config rt) div 1000) @ ''s)'') (Some task_id), w)
        else
          case (if 0 < polls then
                  (case sn_now N w of (t, w) \<Rightarrow>
                     let sleep_for = min (cs_poll_interval (cr_config rt)) (deadline - t)
                     in if sleep_for \<noteq> 0 then sn_sleep N sleep_for w else w)
                else w) of w \<Rightarrow>
          (case sn_post N (cs_api_base (cr_config rt) @ ''/getTaskResult'') (poll_body rt task_id) w of (reply, w) \<Rightarrow>
             (case poll_verdict rt task_id reply of
                Some outcome \<Rightarrow> Some (outcome, w)
              | None \<Rightarrow> poll_task_result N rt task_id deadline (polls + 1) w)))"

text \<open>\<^verbatim>\<open>Instant + Duration\<close> panics when its seconds leave \<^verbatim>\<open>i64\<close>.\<close>

definition instant_add :: "nat \<Rightarrow> nat \<Rightarrow> nat option" where
  "instant_add t d = (if (t + d) div 1000 < 2 ^ 63 then Some (t + d) else None)"

definition solve_challenge ::
    "'w solver_net \<Rightarrow> captcha_solver_runtime \<Rightarrow> solve_request \<Rightarrow> 'w \<Rightarrow> (solve_outcome \<times> 'w) option" where
  "solve_challenge N rt q w =
     (if sq_challenge_class q \<noteq> Turnstile then
        Some (Failed SolverUnsupported
          (''challenge class '' @ [CHR 0x27] @ challenge_class_str (sq_challenge_class q) @ [CHR 0x27]
            @ '' is not implemented for CapSolver in this build (supported: ''
            @ join '', '' SUPPORTED_CHALLENGE_CLASSES @ '')'') None, w)
      else if trim (sq_website_key q) = [] then
        Some (Failed SolverUnsupported ''turnstile sitekey missing; refuse forge'' None, w)
      else case sn_now N w of (t, w) \<Rightarrow>
        Option.bind (instant_add t (cs_solve_timeout (cr_config rt))) (\<lambda>deadline.
        case create_task N rt q w of
           (Inl outcome, w) \<Rightarrow> Some (outcome, w)
         | (Inr (Ready solution), w) \<Rightarrow> Some (Solved solution, w)
         | (Inr (Pending task_id), w) \<Rightarrow>
             poll_task_result N rt task_id deadline 0 w))"

definition probe_balance ::
    "(json \<Rightarrow> string) \<Rightarrow> 'w solver_net \<Rightarrow> captcha_solver_runtime \<Rightarrow> 'w
     \<Rightarrow> (solve_outcome, nat \<times> string) result \<times> 'w" where
  "probe_balance txt N rt w =
     (case sn_post N (cs_api_base (cr_config rt) @ ''/getBalance'') (jobj [(''clientKey'', JStr (cr_api_key rt))]) w of
        (Inl e, w) \<Rightarrow> (Inl (Failed SolverTransport (scrub_secret e (cr_api_key rt)) None), w)
      | (Inr (status, v), w) \<Rightarrow>
          (if status = 401 \<or> status = 403 then
             Inl (Failed SolverAuth (''capsolver getBalance HTTP '' @ show_nat status
               @ '': key rejected (check CAP-'' @ [CHR 0xE2, CHR 0x80, CHR 0xA6]
               @ '' account/key format; remain fail-closed; never forge unlock)'') None)
           else if error_id v \<noteq> 0 then
             (let err = str_or v ''errorCode'' []; desc = str_or v ''errorDescription'' ''getBalance failed''
              in Inl (Failed (classify_provider_error err desc status)
                   (scrub_secret (''getBalance failed code='' @ err @ '' desc='' @ desc) (cr_api_key rt)) None))
           else Inr (status, ''balance_ok='' @ (case jget v ''balance'' of Some b \<Rightarrow> txt b | None \<Rightarrow> ''unknown'')), w))"

section \<open>Solving, or refusing\<close>

fun outcome_to_error :: "solve_outcome \<Rightarrow> nat \<Rightarrow> core_error" where
  "outcome_to_error (Solved _) status =
     Solver ''solver_apply_pending''
       ''solver returned a token but application into content is required before content_success (refuse forge from token alone)''
       (Some status)"
| "outcome_to_error (Failed SolverUnsupported detail _) status =
     ChallengeBlocked status (''solver_unsupported: '' @ detail)"
| "outcome_to_error (Failed k detail _) status = Solver (solver_error_kind_str k) detail (Some status)"

definition attempt_optional_solve ::
    "'w solver_net \<Rightarrow> captcha_solver_runtime option \<Rightarrow> string \<Rightarrow> string \<Rightarrow> nat \<Rightarrow> 'w
     \<Rightarrow> (solve_solution option, 'w) step" where
  "attempt_optional_solve N runtime website_url html challenge_status w =
     (case runtime of
        None \<Rightarrow> Some (Inl (ChallengeBlocked challenge_status
          ''hard path observed a bot-challenge / block response (detect-not-solve; CapSolver inactive without key)''), w)
      | Some rt \<Rightarrow>
          if classify_challenge_html html = UnsupportedChallenge then
            Some (Inl (ChallengeBlocked challenge_status
              (''challenge class unsupported by CapSolver mapping (supported: ''
               @ join '', '' SUPPORTED_CHALLENGE_CLASSES @ ''); refuse content_success'')), w)
          else case extract_turnstile_sitekey html of
            None \<Rightarrow> Some (Inl (ChallengeBlocked challenge_status ''turnstile sitekey not found; refuse forge''), w)
          | Some sitekey \<Rightarrow>
              (case solve_challenge N rt \<lparr> sq_website_url = website_url, sq_website_key = sitekey,
                       sq_challenge_class = classify_challenge_html html, sq_action = None, sq_cdata = None \<rparr> w of
                 None \<Rightarrow> None
               | Some (Solved sol, w) \<Rightarrow> Some (Inr (Some sol), w)
               | Some (other, w) \<Rightarrow> Some (Inl (outcome_to_error other challenge_status), w)))"

section \<open>Applying a token\<close>

definition DEFAULT_HUMAN_PACE_MIN_MS :: "64 word" where "DEFAULT_HUMAN_PACE_MIN_MS = 80"
definition DEFAULT_HUMAN_PACE_MAX_MS :: "64 word" where "DEFAULT_HUMAN_PACE_MAX_MS = 320"
definition DEFAULT_POST_APPLY_SETTLE_MS :: nat where "DEFAULT_POST_APPLY_SETTLE_MS = 450"

definition paced_delay_ms :: "64 word \<Rightarrow> 64 word \<Rightarrow> 64 word \<Rightarrow> 64 word" where
  "paced_delay_ms seed min_ms max_ms =
     (let lo = min min_ms max_ms; hi = max min_ms max_ms
      in if lo = hi then lo else lo + seed mod (hi - lo + 1))"

definition human_like_pacing_delays :: "bool \<Rightarrow> 64 word \<Rightarrow> 64 word list" where
  "human_like_pacing_delays solver_armed seed =
     (if \<not> solver_armed then []
      else [paced_delay_ms (seed XOR 0xA5A5A5A5) DEFAULT_HUMAN_PACE_MIN_MS DEFAULT_HUMAN_PACE_MAX_MS,
            paced_delay_ms (seed XOR 0x5A5A5A5A) DEFAULT_HUMAN_PACE_MIN_MS DEFAULT_HUMAN_PACE_MAX_MS])"

definition sleep_pacing_ms :: "(nat \<Rightarrow> 'w \<Rightarrow> 'w) \<Rightarrow> nat list \<Rightarrow> 'w \<Rightarrow> 'w" where
  "sleep_pacing_ms sleep delays w = fold (\<lambda>ms w. if 0 < ms then sleep ms w else w) delays w"

text \<open>The script, up to the token and after it.\<close>

definition inject_before :: string where
  \<open>inject_before = join [CHR 0x0A]
     [''(function(){'',
      ''  var token = '']\<close>

definition inject_after :: string where
  \<open>inject_after = join [CHR 0x0A]
     ['';'',
      ''  if(!token){return {applied:false, reason:'empty'};}'',
      ''  function setVal(el){'',
      ''    if(!el) return false;'',
      ''    try {'',
      ''      el.value = token;'',
      ''      el.setAttribute('value', token);'',
      ''      el.dispatchEvent(new Event('input', {bubbles:true}));'',
      ''      el.dispatchEvent(new Event('change', {bubbles:true}));'',
      ''      return true;'',
      ''    } catch(e) { return false; }'',
      ''  }'',
      ''  var selectors = ['',
      ''    'input[name="cf-turnstile-response"]','',
      ''    'textarea[name="cf-turnstile-response"]','',
      ''    'input[name="g-recaptcha-response"]','',
      ''    'textarea[name="g-recaptcha-response"]','',
      ''    '#cf-turnstile-response','',
      ''    '[name="cf-turnstile-response"]'' @ [CHR 0x27],
      ''  ];'',
      ''  var filled = 0;'',
      ''  for (var i=0;i<selectors.length;i++){'',
      ''    var nodes = document.querySelectorAll(selectors[i]);'',
      ''    for (var j=0;j<nodes.length;j++){ if(setVal(nodes[j])) filled++; }'',
      ''  }'',
      ''  // Ensure a hidden input exists so hermetic canaries can observe the applied token.'',
      ''  if (filled === 0) {'',
      ''    var inp = document.createElement('input');'',
      ''    inp.type = 'hidden';'',
      ''    inp.name = 'cf-turnstile-response';'',
      ''    inp.id = 'cf-turnstile-response';'',
      ''    inp.value = token;'',
      ''    document.body.appendChild(inp);'',
      ''    filled = 1;'',
      ''  }'',
      ''  try {'',
      ''    if (typeof window.turnstileCallback === 'function') { window.turnstileCallback(token); }'',
      ''    if (typeof window.onTurnstileSuccess === 'function') { window.onTurnstileSuccess(token); }'',
      ''    if (typeof window.cfTurnstileCallback === 'function') { window.cfTurnstileCallback(token); }'',
      ''  } catch(e) {}'',
      ''  try {'',
      ''    document.documentElement.setAttribute('data-basecrawl-turnstile-applied','1');'',
      ''    document.documentElement.setAttribute('data-basecrawl-token-len', String(token.length));'',
      ''  } catch(e) {}'',
      ''  // Optional form submit for canaries that advance on solution submit (human-paced by caller delays).'',
      ''  try {'',
      ''    var form = document.querySelector('form[data-basecrawl-captcha-form], form#captcha-form, form[action*="challenge"]');'',
      ''    if (form && form.getAttribute('data-basecrawl-auto-submit') === '1') { form.submit(); }'',
      ''  } catch(e) {}'',
      ''  // Hermetic canary only: explicit data-basecrawl-canary-unlock attribute swaps to unlocked'',
      ''  // primary content so apply ordering can be asserted without live CF / marketplace.'',
      ''  try {'',
      ''    if (document.documentElement.getAttribute('data-basecrawl-canary-unlock') === '1') {'',
      ''      document.documentElement.setAttribute('data-basecrawl-content-unlocked','1');'',
      ''      document.body.innerHTML ='',
      ''        '<main id='' @ [CHR 0x5C] @ ''"unlocked'' @ [CHR 0x5C] @ ''" data-basecrawl-content-unlocked='' @ [CHR 0x5C] @ ''"1'' @ [CHR 0x5C] @ ''">' +'',
      ''        'unlocked-content-basecrawl</main>';'',
      ''    }'',
      ''  } catch(e) {}'',
      ''  return {applied:true, filled:filled, token_len:token.length};'',
      ''})()'']\<close>

definition turnstile_token_inject_expression :: "(json \<Rightarrow> string) \<Rightarrow> string \<Rightarrow> (core_error, string) result" where
  "turnstile_token_inject_expression txt token =
     (if trim token = []
      then Inl (Solver ''solver_error'' ''refuse forge: empty Turnstile token cannot be applied'' None)
      else Inr (inject_before @ txt (JStr token) @ inject_after))"

definition armed_solver_apply_actions ::
    "(json \<Rightarrow> string) \<Rightarrow> string \<Rightarrow> 64 word \<Rightarrow> (core_error, action list \<times> 64 word list) result" where
  "armed_solver_apply_actions txt token seed =
     (let delays = human_like_pacing_delays True seed
      in bind_res (turnstile_token_inject_expression txt token) (\<lambda>expression.
           Inr ((case delays of pre # _ \<Rightarrow> [Wait (unat pre)] | [] \<Rightarrow> [])
                @ [Evaluate expression]
                @ (case delays of _ # mid # _ \<Rightarrow> [Wait (unat mid)] | _ \<Rightarrow> [])
                @ [Wait DEFAULT_POST_APPLY_SETTLE_MS], delays)))"

definition residual_after_applied_token :: "string \<Rightarrow> nat \<Rightarrow> string \<Rightarrow> core_error option" where
  "residual_after_applied_token html status_code task_id =
     (if contains html ''data-basecrawl-content-unlocked'' then None
      else if \<not> contains html (''data-basecrawl-turnstile-applied='' @ [CHR 0x22] @ ''1'' @ [CHR 0x22])
      then Some (Solver ''solver_apply_failed''
             (''CapSolver token task_id='' @ task_id
               @ '' was not observed as applied in the DOM; refuse content_success (not commercial unlocker parity)'')
             (Some status_code))
      else if looks_like_challenge_interstitial html status_code
      then Some (ChallengeBlocked status_code
             (''CapSolver token task_id='' @ task_id @ '' was applied but challenge residual remains ''
               @ ''(managed interstitial / no primary content). Optional solver is not Web Unlocker ''
               @ ''parity; no content_success forge''))
      else None)"

section \<open>The scripted service\<close>

text \<open>\<^verbatim>\<open>MockCapSolverHttp\<close>: the replies are taken from the end of each list; it has a clock of its own.\<close>

record mock_state =
  mk_create :: "(string, nat \<times> json) result list"
  mk_result :: "(string, nat \<times> json) result list"
  mk_balance :: "(string, nat \<times> json) result list"
  mk_create_bodies :: "json list"
  mk_result_bodies :: "json list"
  mk_balance_bodies :: "json list"
  mk_poll_delay :: nat
  mk_clock :: nat

definition pop_reply :: "string \<Rightarrow> (string, nat \<times> json) result list
    \<Rightarrow> (string, nat \<times> json) result \<times> (string, nat \<times> json) result list" where
  "pop_reply none rs = (if rs = [] then (Inl none, []) else (last rs, butlast rs))"

definition mock_post :: "string \<Rightarrow> json \<Rightarrow> mock_state \<Rightarrow> (string, nat \<times> json) result \<times> mock_state" where
  "mock_post url body m =
     (if contains url ''createTask'' then
        (case pop_reply ''mock: no createTask response scripted'' (mk_create m) of (r, rs) \<Rightarrow>
           (r, m \<lparr> mk_create_bodies := mk_create_bodies m @ [body], mk_create := rs \<rparr>))
      else if contains url ''getTaskResult'' then
        (case pop_reply ''mock: no getTaskResult response scripted'' (mk_result m) of (r, rs) \<Rightarrow>
           (r, m \<lparr> mk_clock := mk_clock m + mk_poll_delay m,
                  mk_result_bodies := mk_result_bodies m @ [body], mk_result := rs \<rparr>))
      else if contains url ''getBalance'' then
        (case pop_reply ''mock: no getBalance response scripted'' (mk_balance m) of (r, rs) \<Rightarrow>
           (r, m \<lparr> mk_balance_bodies := mk_balance_bodies m @ [body], mk_balance := rs \<rparr>))
      else (Inl (''mock: unexpected url '' @ url), m))"

definition mock_net :: "mock_state solver_net" where
  "mock_net = \<lparr> sn_post = mock_post, sn_now = (\<lambda>m. (mk_clock m, m)),
     sn_sleep = (\<lambda>d m. m \<lparr> mk_clock := mk_clock m + d \<rparr>) \<rparr>"

definition mock_calls :: "mock_state \<Rightarrow> nat" where
  "mock_calls m = length (mk_create_bodies m) + length (mk_result_bodies m) + length (mk_balance_bodies m)"

section \<open>Polling ends\<close>

text \<open>Intervals, the last one perhaps cut short.\<close>

definition rounds :: "nat \<Rightarrow> nat \<Rightarrow> nat" where
  "rounds interval left = (left + interval - 1) div interval"

lemma rounds_pos: "0 < interval \<Longrightarrow> 0 < left \<Longrightarrow> 1 \<le> rounds interval left"
  by (simp add: rounds_def Suc_le_eq div_greater_zero_iff)

lemma rounds_mono: "left' \<le> left \<Longrightarrow> rounds interval left' \<le> rounds interval left"
  by (auto simp: rounds_def intro!: div_le_mono)

lemma rounds_less:
  assumes "0 < interval" "0 < left" "left' \<le> left - min interval left"
  shows "rounds interval left' + 1 \<le> rounds interval left"
proof (cases "left \<le> interval")
  case True
  with assms have "rounds interval left' = 0" by (simp add: rounds_def)
  with rounds_pos[OF assms(1,2)] show ?thesis by simp
next
  case False
  with assms have "left' + interval - 1 \<le> left - 1" by simp
  then have "rounds interval left' \<le> (left - 1) div interval" unfolding rounds_def by (rule div_le_mono)
  moreover have "(left - 1 + interval) div interval = (left - 1) div interval + 1"
    using assms(1) by (simp add: div_add_self2)
  then have "rounds interval left = (left - 1) div interval + 1" using assms(2) by (simp add: rounds_def add.commute)
  ultimately show ?thesis by simp
qed

text \<open>
  What polling needs of a clock: it does not run backwards, a sleep lasts as long as it was asked to, and
  only a call to the service counts as one.
\<close>

locale solver_clock =
  fixes N :: "'w solver_net" and clock :: "'w \<Rightarrow> nat" and calls :: "'w \<Rightarrow> nat"
  assumes now_law: "sn_now N w = (t, w') \<Longrightarrow> clock w \<le> t \<and> t \<le> clock w' \<and> calls w' = calls w"
    and sleep_law: "clock w + d \<le> clock (sn_sleep N d w) \<and> calls (sn_sleep N d w) = calls w"
    and post_law: "sn_post N u b w = (r, w') \<Longrightarrow> clock w \<le> clock w' \<and> calls w' \<le> calls w + 1"
begin

lemma poll_step:
  obtains (expired) t w1 o1 where "sn_now N w = (t, w1)"
      "poll_task_result N rt i deadline polls w = Some (o1, w1)" "calls w1 = calls w"
  | (finished) w1 o1 where "poll_task_result N rt i deadline polls w = Some (o1, w1)" "calls w1 \<le> calls w + 1" "clock w < deadline"
  | (again) w1 where "poll_task_result N rt i deadline polls w = poll_task_result N rt i deadline (polls + 1) w1"
      "calls w1 \<le> calls w + 1" "clock w < deadline" "clock w \<le> clock w1"
      "polls = 0 \<or> clock w + min (cs_poll_interval (cr_config rt)) (deadline - clock w) \<le> clock w1"
proof -
  obtain t w1 where 1: "sn_now N w = (t, w1)" by fastforce
  note n1 = now_law[OF 1]
  show thesis
  proof (cases "deadline \<le> t")
    case True
    with 1 n1 show thesis by (intro expired[OF 1]) (subst poll_task_result.simps, simp_all)
  next
    case False
    obtain t2 w2 where 2: "sn_now N w1 = (t2, w2)" by fastforce
    note n2 = now_law[OF 2]
    let ?d = "min (cs_poll_interval (cr_config rt)) (deadline - t2)"
    define w3 where "w3 = (if 0 < polls then (if ?d \<noteq> 0 then sn_sleep N ?d w2 else w2) else w1)"
    have c3: "calls w3 = calls w" "clock w \<le> clock w3" "polls = 0 \<or> t2 + ?d \<le> clock w3"
      using n1 n2 sleep_law[of w2 ?d] by (auto simp: w3_def intro: le_trans)
    obtain r w4 where 4: "sn_post N (cs_api_base (cr_config rt) @ ''/getTaskResult'') (poll_body rt i) w3 = (r, w4)"
      by fastforce
    note n4 = post_law[OF 4]
    have e: "poll_task_result N rt i deadline polls w = (case poll_verdict rt i r of
        Some o1 \<Rightarrow> Some (o1, w4) | None \<Rightarrow> poll_task_result N rt i deadline (polls + 1) w4)"
      using False 1 2 4 by (subst poll_task_result.simps) (auto simp: w3_def Let_def)
    have cw: "clock w < deadline" using n1 False by simp
    have "polls = 0 \<or> clock w + min (cs_poll_interval (cr_config rt)) (deadline - clock w) \<le> clock w4"
      using c3 n1 n2 n4 by (auto simp: min_def split: if_splits)
    then show thesis
      using c3 n4 cw e finished again by (cases "poll_verdict rt i r") auto
  qed
qed

lemma poll_again_returns:
  assumes "0 < cs_poll_interval (cr_config rt)" "0 < polls"
  shows "\<exists>o1 w1. poll_task_result N rt i deadline polls w = Some (o1, w1)
     \<and> calls w1 \<le> calls w + rounds (cs_poll_interval (cr_config rt)) (deadline - clock w)"
  using assms(2)
proof (induction "deadline - clock w" arbitrary: w polls rule: less_induct)
  case less
  let ?i = "cs_poll_interval (cr_config rt)"
  show ?case
  proof (cases rule: poll_step[of w rt i deadline polls])
    case (expired t w1 o1)
    then show ?thesis by simp
  next
    case (finished w1 o1)
    moreover have "1 \<le> rounds ?i (deadline - clock w)" using assms(1) finished(3) by (intro rounds_pos) simp_all
    ultimately show ?thesis by auto
  next
    case (again w1)
    with less.prems have c: "clock w + min ?i (deadline - clock w) \<le> clock w1" by simp
    with again(3) assms(1) have "deadline - clock w1 < deadline - clock w" by (auto simp: min_def split: if_splits)
    from less.hyps[OF this, of "polls + 1"] obtain o1 w2 where
      w2: "poll_task_result N rt i deadline (polls + 1) w1 = Some (o1, w2)"
      "calls w2 \<le> calls w1 + rounds ?i (deadline - clock w1)" by auto
    have "rounds ?i (deadline - clock w1) + 1 \<le> rounds ?i (deadline - clock w)"
      using c again(3) assms(1) by (intro rounds_less) auto
    with w2 again show ?thesis by auto
  qed
qed

lemma poll_returns:
  assumes "0 < cs_poll_interval (cr_config rt)"
  shows "\<exists>o1 w1. poll_task_result N rt i deadline polls w = Some (o1, w1)
     \<and> calls w1 \<le> calls w + 1 + rounds (cs_poll_interval (cr_config rt)) (deadline - clock w)"
proof (cases rule: poll_step[of w rt i deadline polls])
  case (expired t w1 o1)
  then show ?thesis by simp
next
  case (finished w1 o1)
  then show ?thesis by simp
next
  case (again w1)
  from poll_again_returns[OF assms, of "polls + 1" i deadline w1] obtain o1 w2 where
    w2: "poll_task_result N rt i deadline (polls + 1) w1 = Some (o1, w2)"
      "calls w2 \<le> calls w1 + rounds (cs_poll_interval (cr_config rt)) (deadline - clock w1)" by auto
  moreover have "rounds (cs_poll_interval (cr_config rt)) (deadline - clock w1)
      \<le> rounds (cs_poll_interval (cr_config rt)) (deadline - clock w)"
    using again(4) by (intro rounds_mono) simp
  ultimately show ?thesis using again by auto
qed

end

interpretation mock: solver_clock mock_net mk_clock mock_calls
proof
  show "sn_now mock_net w = (t, w') \<Longrightarrow> mk_clock w \<le> t \<and> t \<le> mk_clock w' \<and> mock_calls w' = mock_calls w" for w t w'
    by (auto simp: mock_net_def)
  show "mk_clock w + d \<le> mk_clock (sn_sleep mock_net d w) \<and> mock_calls (sn_sleep mock_net d w) = mock_calls w" for w d
    by (simp add: mock_net_def mock_calls_def)
  show "sn_post mock_net u b w = (r, w') \<Longrightarrow> mk_clock w \<le> mk_clock w' \<and> mock_calls w' \<le> mock_calls w + 1" for u b w r w'
    by (auto simp: mock_net_def mock_post_def mock_calls_def split: if_splits prod.splits)
qed

lemma resolve_runtime_Some:
  assumes "resolve_runtime env cli key secs = Inr (Some rt)"
  shows "cs_poll_interval (cr_config rt) = 1000
     \<and> cs_solve_timeout (cr_config rt) = (case secs of Some n \<Rightarrow> n | None \<Rightarrow> 90) * 1000
     \<and> \<not> bad_key (cr_api_key rt) \<and> cr_api_key rt \<noteq> []"
proof -
  have ne: "first_key env ns = Some (k, src) \<Longrightarrow> k \<noteq> []" for ns k src
    by (induction ns) (auto split: option.splits if_splits)
  let ?km = "case Option.bind key (\<lambda>s. if trim s = [] then None else Some (trim s, KeyOptions)) of
       Some pair \<Rightarrow> Some pair | None \<Rightarrow> read_api_key_from_env env"
  obtain k src where km: "?km = Some (k, src)"
    using assms by (cases ?km) (auto simp: resolve_runtime_def)
  have k: "k \<noteq> []"
    using km ne by (auto simp: read_api_key_from_env_def bind_eq_Some_conv split: option.splits if_splits)
  obtain p where p: "(case resolve_provider_name env cli True of Some p \<Rightarrow> Some p
      | None \<Rightarrow> if src = KeyOptions \<or> src = KeyEnv CAPSOLVER_API_KEY_ENV \<or> src = KeyEnv BASECRAWL_CAPSOLVER_API_KEY_ENV
                then Some CapSolver else None) = Some p"
    using assms unfolding resolve_runtime_def km by (cases "resolve_provider_name env cli True") (auto split: if_splits)
  have "\<not> bad_key k" using assms unfolding resolve_runtime_def km by (simp add: p split: if_splits)
  with assms k show ?thesis unfolding resolve_runtime_def km
    by (cases secs) (auto simp: p DEFAULT_POLL_INTERVAL_MS_def DEFAULT_SOLVE_TIMEOUT_SECS_def Let_def)
qed

text \<open>
  C35: A solve ends. With the runtime that the options and the environment give, and a clock that does
  not run backwards, the solver makes at most two calls more than the seconds of its budget and then
  returns an outcome, whatever the service replies.
\<close>

theorem solve_challenge_ends:
  assumes "solver_clock N clock calls" and "resolve_runtime env cli key secs = Inr (Some rt)"
    and "\<And>t w'. sn_now N w = (t, w') \<Longrightarrow> instant_add t (cs_solve_timeout (cr_config rt)) \<noteq> None"
  shows "\<exists>outcome w'. solve_challenge N rt q w = Some (outcome, w')
     \<and> calls w' \<le> calls w + 2 + (case secs of Some n \<Rightarrow> n | None \<Rightarrow> 90)"
proof -
  let ?n = "case secs of Some n \<Rightarrow> n | None \<Rightarrow> 90"
  have rt: "cs_poll_interval (cr_config rt) = 1000" "cs_solve_timeout (cr_config rt) = ?n * 1000"
    using resolve_runtime_Some[OF assms(2)] by auto
  obtain t w1 where 1: "sn_now N w = (t, w1)" by fastforce
  note n1 = solver_clock.now_law[OF assms(1) 1]
  obtain d where d: "instant_add t (cs_solve_timeout (cr_config rt)) = Some d" using assms(3)[OF 1] by auto
  then have d': "d = t + ?n * 1000" using rt by (auto simp: instant_add_def split: if_splits)
  obtain r w2 where 2: "create_task N rt q w1 = (r, w2)" by fastforce
  have n2: "clock w1 \<le> clock w2" "calls w2 \<le> calls w1 + 1"
    using 2 solver_clock.post_law[OF assms(1)] by (auto simp: create_task_def split: prod.splits sum.splits)
  have "\<exists>outcome w'. poll_task_result N rt i d 0 w2 = Some (outcome, w') \<and> calls w' \<le> calls w + 2 + ?n" for i
  proof -
    obtain outcome w' where o: "poll_task_result N rt i d 0 w2 = Some (outcome, w')"
      "calls w' \<le> calls w2 + 1 + rounds 1000 (d - clock w2)"
      using solver_clock.poll_returns[OF assms(1), of rt i d 0 w2] rt by auto
    have "d - clock w2 \<le> ?n * 1000" using d' n1 n2 by linarith
    then have "rounds 1000 (d - clock w2) \<le> rounds 1000 (?n * 1000)" by (rule rounds_mono)
    also have "\<dots> = ?n" by (simp add: rounds_def)
    finally show ?thesis using o n1 n2 by auto
  qed
  with 1 2 d n1 n2 show ?thesis
    by (cases r rule: sum.exhaust; cases "projr r") (auto simp: solve_challenge_def)
qed

definition demo_pending :: mock_state where
  "demo_pending = \<lparr> mk_create = [Inr (200, jobj [(''taskId'', JStr ''t9'')])],
     mk_result = replicate 9 (Inr (200, jobj [(''status'', JStr ''processing'')])), mk_balance = [],
     mk_create_bodies = [], mk_result_bodies = [], mk_balance_bodies = [], mk_poll_delay = 0, mk_clock = 0 \<rparr>"

definition demo_solve_request :: solve_request where
  "demo_solve_request = \<lparr> sq_website_url = ''https://a.example/'', sq_website_key = ''0x4AAAAAAA'',
     sq_challenge_class = Turnstile, sq_action = None, sq_cdata = None \<rparr>"

definition demo_solver_env :: env where
  "demo_solver_env = [''CAPSOLVER_API_KEY'' \<mapsto> ''CAP-12345678'']"

lemma demo_runtime:
  "resolve_runtime demo_solver_env None None (Some 3) = Inr (Some \<lparr> cr_config =
     \<lparr> cs_provider = CapSolver, cs_key_source = KeyEnv ''CAPSOLVER_API_KEY'', cs_api_base = ''https://api.capsolver.com'',
       cs_solve_timeout = 3000, cs_poll_interval = 1000 \<rparr>, cr_api_key = ''CAP-12345678'' \<rparr>)"
proof -
  have "trim ''CAP-12345678'' = ''CAP-12345678''" "\<not> bad_key ''CAP-12345678''" by code_simp+
  then show ?thesis
    by (simp add: resolve_runtime_def read_api_key_from_env_def demo_solver_env_def CAPSOLVER_API_KEY_ENV_def
        BASECRAWL_CAPSOLVER_API_KEY_ENV_def CAPTCHA_SOLVER_ENV_def CAPSOLVER_API_BASE_ENV_def CAPSOLVER_API_BASE_def
        resolve_provider_name_def DEFAULT_POLL_INTERVAL_MS_def)
qed

theorem solve_challenge_ends_witness:
  "\<exists>rt outcome m. resolve_runtime demo_solver_env None None (Some 3) = Inr (Some rt)
     \<and> solve_challenge mock_net rt demo_solve_request demo_pending = Some (outcome, m) \<and> mock_calls m \<le> 5"
proof -
  have now: "sn_now mock_net demo_pending = (t, w') \<Longrightarrow> instant_add t 3000 \<noteq> None" for t w'
    by (auto simp: mock_net_def demo_pending_def instant_add_def)
  have c: "mock_calls demo_pending = 0" by (simp add: mock_calls_def demo_pending_def)
  show ?thesis
    using solve_challenge_ends[OF mock.solver_clock_axioms demo_runtime, of demo_pending demo_solve_request] now c demo_runtime
    by auto
qed

section \<open>No token is made up\<close>

text \<open>A token that the service gave in a reply that reports no error.\<close>

definition served_token :: "'w solver_net \<Rightarrow> captcha_solver_runtime \<Rightarrow> string \<Rightarrow> bool" where
  "served_token N rt token \<longleftrightarrow> (\<exists>call body w status v w' i sol.
     sn_post N (cs_api_base (cr_config rt) @ call) body w = (Inr (status, v), w') \<and> jget_str v ''status'' = Some ''ready''
     \<and> status < 400 \<and> error_id v = 0 \<and> extract_solution v i = Some sol \<and> sl_token sol = token)"

lemma extract_solution_token: "extract_solution v i = Some sol \<Longrightarrow> sl_token sol \<noteq> []"
  by (auto simp: extract_solution_def bind_eq_Some_conv split: if_splits)

lemma poll_verdict_solved:
  assumes "poll_verdict rt i reply = Some (Solved sol)"
  shows "\<exists>status v. reply = Inr (status, v) \<and> jget_str v ''status'' = Some ''ready'' \<and> status < 400 \<and> error_id v = 0
     \<and> extract_solution v i = Some sol"
  using assms
  by (auto simp: poll_verdict_def provider_failure_def str_or_def Let_def
      split: sum.splits prod.splits if_splits option.splits)

lemma poll_solved:
  assumes "poll_task_result N rt i deadline polls w = Some y"
  shows "fst y = Solved sol \<longrightarrow> served_token N rt (sl_token sol) \<and> sl_token sol \<noteq> []"
proof (rule poll_task_result.raw_induct[where P = "\<lambda>N rt i d p w y. fst y = Solved sol \<longrightarrow>
      served_token N rt (sl_token sol) \<and> sl_token sol \<noteq> []", OF _ assms], goal_cases)
  case (1 f N rt i d p w y)
  note ih = "1"(1) and body = "1"(2)
  obtain t w1 where e1: "sn_now N w = (t, w1)" by fastforce
  define w2 where "w2 = (if 0 < p then (case sn_now N w1 of (t, w) \<Rightarrow>
       let sleep_for = min (cs_poll_interval (cr_config rt)) (d - t) in if sleep_for \<noteq> 0 then sn_sleep N sleep_for w else w)
     else w1)"
  obtain r w3 where e3: "sn_post N (cs_api_base (cr_config rt) @ ''/getTaskResult'') (poll_body rt i) w2 = (r, w3)" by fastforce
  show ?case
  proof (cases "d \<le> t")
    case True
    with body e1 show ?thesis by auto
  next
    case False
    from False body have b: "(case poll_verdict rt i r of Some o1 \<Rightarrow> Some (o1, w3) | None \<Rightarrow> f N rt i d (p + 1) w3) = Some y"
      unfolding e1 prod.case w2_def[symmetric] e3 by simp
    show ?thesis
    proof (cases "poll_verdict rt i r")
      case None
      with b ih show ?thesis by simp
    next
      case (Some o1)
      show ?thesis
      proof
        assume "fst y = Solved sol"
        with b Some have v: "poll_verdict rt i r = Some (Solved sol)" by auto
        then obtain status v where v: "r = Inr (status, v)" "jget_str v ''status'' = Some ''ready''" "status < 400"
          "error_id v = 0" "extract_solution v i = Some sol" using poll_verdict_solved[OF v] by blast
        with e3 have "served_token N rt (sl_token sol)" unfolding served_token_def by blast
        with extract_solution_token[OF v(5)] show "served_token N rt (sl_token sol) \<and> sl_token sol \<noteq> []" by simp
      qed
    qed
  qed
qed

lemma create_task_ready:
  assumes "create_task N rt q w = (Inr (Ready sol), w')"
  shows "served_token N rt (sl_token sol) \<and> sl_token sol \<noteq> []"
proof -
  obtain r w1 where p: "sn_post N (cs_api_base (cr_config rt) @ ''/createTask'')
      (jobj [(''clientKey'', JStr (cr_api_key rt)), (''task'', task_value q)]) w = (r, w1)" by fastforce
  with assms obtain status v where r: "r = Inr (status, v)" by (auto simp: create_task_def split: sum.splits)
  from assms p r have "jget_str v ''status'' = Some ''ready''" "status < 400" "error_id v = 0" "extract_solution v [] = Some sol"
    by (auto simp: create_task_def split: if_splits option.splits)
  with p r extract_solution_token show ?thesis unfolding served_token_def by blast
qed

lemma create_task_failed: "create_task N rt q w = (Inl o1, w') \<Longrightarrow> o1 \<noteq> Solved sol"
  by (auto simp: create_task_def provider_failure_def Let_def split: sum.splits prod.splits if_splits option.splits)

lemma solve_challenge_solved:
  assumes "solve_challenge N rt q w = Some (Solved sol, w')"
  shows "sq_challenge_class q = Turnstile \<and> served_token N rt (sl_token sol) \<and> sl_token sol \<noteq> []"
proof -
  obtain t w1 where 1: "sn_now N w = (t, w1)" by fastforce
  from assms have q: "sq_challenge_class q = Turnstile" "trim (sq_website_key q) \<noteq> []"
    by (auto simp: solve_challenge_def split: if_splits)
  from assms q 1 obtain d where d: "instant_add t (cs_solve_timeout (cr_config rt)) = Some d"
    by (auto simp: solve_challenge_def bind_eq_Some_conv)
  obtain r w2 where 2: "create_task N rt q w1 = (r, w2)" by fastforce
  show ?thesis
  proof (cases r)
    case (Inl o1)
    with assms q 1 d 2 create_task_failed[of N rt q w1 o1 w2 sol] show ?thesis by (simp add: solve_challenge_def)
  next
    case (Inr c)
    show ?thesis
    proof (cases c)
      case (Pending i)
      with assms q 1 d 2 Inr have "poll_task_result N rt i d 0 w2 = Some (Solved sol, w')"
        by (simp add: solve_challenge_def)
      from poll_solved[OF this] q show ?thesis by simp
    next
      case (Ready sol')
      with assms q 1 d 2 Inr create_task_ready[of N rt q w1 sol' w2] show ?thesis by (simp add: solve_challenge_def)
    qed
  qed
qed


definition demo_challenge_page :: string where
  \<open>demo_challenge_page = ''<div class=cf-turnstile data-sitekey="0x4AAAAAAA"></div>''\<close>

definition demo_solved :: mock_state where
  "demo_solved = demo_pending \<lparr> mk_create := [Inr (200, jobj [(''status'', JStr ''ready''),
     (''solution'', jobj [(''token'', JStr ''tok-1'')])])] \<rparr>"

definition demo_solver :: captcha_solver_runtime where
  "demo_solver = \<lparr> cr_config = \<lparr> cs_provider = CapSolver, cs_key_source = KeyOptions,
       cs_api_base = ''https://api.capsolver.com'', cs_solve_timeout = 3000, cs_poll_interval = 1000 \<rparr>,
     cr_api_key = ''CAP-12345678'' \<rparr>"

lemma demo_challenge:
  "extract_turnstile_sitekey demo_challenge_page = Some ''0x4AAAAAAA''" "classify_challenge_html demo_challenge_page = Turnstile"
proof -
  show 1: "extract_turnstile_sitekey demo_challenge_page = Some ''0x4AAAAAAA''" by code_simp
  have "contains (to_lower demo_challenge_page) ''turnstile''" by code_simp
  with 1 show "classify_challenge_html demo_challenge_page = Turnstile" by (simp add: classify_challenge_html_def)
qed

lemma demo_attempt:
  "\<exists>m. attempt_optional_solve mock_net (Some demo_solver) u demo_challenge_page 403 demo_solved
     = Some (Inr (Some \<lparr> sl_token = ''tok-1'', sl_task_id = [], sl_task_type = ''AntiTurnstileTaskProxyLess'',
         sl_user_agent = None \<rparr>), m)"
proof -
  have t: "trim ''0x4AAAAAAA'' \<noteq> []" by code_simp
  have c: "contains ''https://api.capsolver.com/createTask'' ''createTask''" by code_simp
  have x: "extract_solution (jobj [(''status'', JStr ''ready''), (''solution'', jobj [(''token'', JStr ''tok-1'')])]) []
      = Some \<lparr> sl_token = ''tok-1'', sl_task_id = [], sl_task_type = ''AntiTurnstileTaskProxyLess'', sl_user_agent = None \<rparr>"
    by (simp add: extract_solution_def jget_jobj jget_str_def nonempty_str_def TURNSTILE_TASK_TYPE_def)
  have e: "error_id (jobj [(''status'', JStr ''ready''), (''solution'', jobj [(''token'', JStr ''tok-1'')])]) = 0"
    by (simp add: error_id_def jget_jobj)
  have r: "jget_str (jobj [(''status'', JStr ''ready''), (''solution'', jobj [(''token'', JStr ''tok-1'')])]) ''status'' = Some ''ready''"
    by (simp add: jget_str_def jget_jobj)
  show ?thesis
    using c by (simp add: attempt_optional_solve_def demo_challenge solve_challenge_def t mock_net_def mock_post_def demo_solver_def
        create_task_def pop_reply_def demo_solved_def demo_pending_def instant_add_def e r x)
qed


section \<open>The key stays inside\<close>

text \<open>The messages that are made of numbers and words of the program alone.\<close>

definition own_message :: "string \<Rightarrow> bool" where
  "own_message m \<longleftrightarrow>
     m \<in> {''createTask returned no taskId'', ''empty solution token; refuse forge'',
          ''ready status without solution token; refuse forge'', ''capsolver status=failed'',
          ''turnstile sitekey missing; refuse forge'',
          ''challenge class '' @ [CHR 0x27] @ ''unsupported'' @ [CHR 0x27]
            @ '' is not implemented for CapSolver in this build (supported: ''
            @ join '', '' SUPPORTED_CHALLENGE_CLASSES @ '')''}
     \<or> (\<exists>call n. call \<in> {''createTask'', ''getTaskResult''} \<and> m = http_refused call n)
     \<or> (\<exists>polls secs. m = ''solver_timeout after '' @ show_nat polls @ '' poll(s) (budget '' @ show_nat secs @ ''s)'')"

definition detail_safe :: "string \<Rightarrow> solve_outcome \<Rightarrow> bool" where
  "detail_safe key outcome \<longleftrightarrow> (\<forall>k detail i. outcome = Failed k detail i \<longrightarrow> own_message detail \<or> \<not> contains detail key)"

lemma scrub_removes: "marker_free key \<Longrightarrow> \<not> contains (scrub_secret t key) key"
  using replace_all_removes[of key t] by (simp add: scrub_secret_def REDACTED_TOKEN_def REDACTED_def marker_free_def)

lemma provider_failure_safe: "marker_free (cr_api_key rt) \<Longrightarrow> detail_safe (cr_api_key rt) (provider_failure rt call d status v i)"
  by (auto simp: detail_safe_def provider_failure_def Let_def scrub_removes)

lemma detail_safe_own: "own_message m \<Longrightarrow> detail_safe key (Failed k m i)"
  by (simp add: detail_safe_def)

lemma detail_safe_scrubbed: "marker_free key \<Longrightarrow> detail_safe key (Failed k (scrub_secret t key) i)"
  by (simp add: detail_safe_def scrub_removes)

lemma detail_safe_solved [simp]: "detail_safe key (Solved sol)"
  by (simp add: detail_safe_def)

lemma own_http: "own_message (http_refused ''createTask'' n)" "own_message (http_refused ''getTaskResult'' n)"
  by (auto simp: own_message_def)

lemma create_task_safe:
  assumes "marker_free (cr_api_key rt)" "create_task N rt q w = (Inl o1, w')"
  shows "detail_safe (cr_api_key rt) o1"
proof -
  have own: "own_message ''createTask returned no taskId''" by (simp add: own_message_def)
  show ?thesis using assms(2) detail_safe_scrubbed[OF assms(1)] provider_failure_safe[OF assms(1)] detail_safe_own[OF own]
    detail_safe_own[OF own_http(1)]
  by (auto simp: create_task_def split: sum.splits prod.splits if_splits option.splits)
qed

lemma poll_verdict_safe:
  assumes "marker_free (cr_api_key rt)" "poll_verdict rt i reply = Some o1"
  shows "detail_safe (cr_api_key rt) o1"
proof -
  have own: "own_message ''empty solution token; refuse forge''" "own_message ''ready status without solution token; refuse forge''"
    "own_message ''capsolver status=failed''" by (simp_all add: own_message_def)
  show ?thesis using assms(2) detail_safe_scrubbed[OF assms(1)] provider_failure_safe[OF assms(1)] detail_safe_own[OF own(1)]
    detail_safe_own[OF own(2)] detail_safe_own[OF own(3)] detail_safe_own[OF own_http(2)]
    by (auto simp: poll_verdict_def Let_def split: sum.splits prod.splits if_splits option.splits)
qed

lemma poll_safe:
  assumes "poll_task_result N rt i deadline polls w = Some y"
  shows "marker_free (cr_api_key rt) \<longrightarrow> detail_safe (cr_api_key rt) (fst y)"
proof (rule poll_task_result.raw_induct[where P = "\<lambda>N rt i d p w y. marker_free (cr_api_key rt) \<longrightarrow>
      detail_safe (cr_api_key rt) (fst y)", OF _ assms], goal_cases)
  case (1 f N rt i d p w y)
  note ih = "1"(1) and body = "1"(2)
  have own: "own_message (''solver_timeout after '' @ show_nat p @ '' poll(s) (budget '' @ show_nat s @ ''s)'')" for s
    unfolding own_message_def by blast
  obtain t w1 where e1: "sn_now N w = (t, w1)" by fastforce
  define w2 where "w2 = (if 0 < p then (case sn_now N w1 of (t, w) \<Rightarrow>
       let sleep_for = min (cs_poll_interval (cr_config rt)) (d - t) in if sleep_for \<noteq> 0 then sn_sleep N sleep_for w else w)
     else w1)"
  obtain r w3 where e3: "sn_post N (cs_api_base (cr_config rt) @ ''/getTaskResult'') (poll_body rt i) w2 = (r, w3)" by fastforce
  show ?case
  proof (cases "d \<le> t")
    case True
    with body e1 have "fst y = Failed SolverTimeout
            (''solver_timeout after '' @ show_nat p @ '' poll(s) (budget ''
              @ show_nat (cs_solve_timeout (cr_config rt) div 1000) @ ''s)'') (Some i)" by auto
    with detail_safe_own[OF own] show ?thesis by simp
  next
    case False
    from False body have b: "(case poll_verdict rt i r of Some o1 \<Rightarrow> Some (o1, w3) | None \<Rightarrow> f N rt i d (p + 1) w3) = Some y"
      unfolding e1 prod.case w2_def[symmetric] e3 by simp
    with ih poll_verdict_safe[of rt i r] show ?thesis by (cases "poll_verdict rt i r") auto
  qed
qed

text \<open>
  C37: The API key does not leave through a failure's detail. Whatever the service replies, an error page
  that repeats the request included, the detail of a failed solve does not contain the key, unless the key
  occurs in the program's own fixed messages; a key that the redaction marker can spell is left out.
\<close>

theorem solver_key_not_in_detail:
  assumes "marker_free (cr_api_key rt)" and "solve_challenge N rt q w = Some (Failed k detail i, w')"
  shows "own_message detail \<or> \<not> contains detail (cr_api_key rt)"
proof -
  have own: "own_message ''turnstile sitekey missing; refuse forge''" by (simp add: own_message_def)
  have cls: "own_message (''challenge class '' @ [CHR 0x27] @ challenge_class_str c @ [CHR 0x27]
            @ '' is not implemented for CapSolver in this build (supported: ''
            @ join '', '' SUPPORTED_CHALLENGE_CLASSES @ '')'')" if "c \<noteq> Turnstile" for c
    using that by (cases c) (simp_all add: own_message_def)
  obtain t w1 where 1: "sn_now N w = (t, w1)" by fastforce
  obtain r w2 where 2: "create_task N rt q w1 = (r, w2)" by fastforce
  consider "sq_challenge_class q \<noteq> Turnstile" | "sq_challenge_class q = Turnstile" "trim (sq_website_key q) = []"
    | "sq_challenge_class q = Turnstile" "trim (sq_website_key q) \<noteq> []" by blast
  then have "detail_safe (cr_api_key rt) (Failed k detail i)"
  proof cases
    case 1
    with assms(2) have "own_message detail" using cls by (auto simp: solve_challenge_def)
    then show ?thesis by (rule detail_safe_own)
  next
    case 2
    with assms(2) own have "own_message detail" by (simp add: solve_challenge_def)
    then show ?thesis by (rule detail_safe_own)
  next
    case 3
    with assms(2) 1 obtain d where d: "instant_add t (cs_solve_timeout (cr_config rt)) = Some d"
      by (auto simp: solve_challenge_def bind_eq_Some_conv)
    show ?thesis
    proof (cases r)
      case (Inl o1)
      with assms(2) 3 1 d 2 create_task_safe[OF assms(1), of N q w1 o1 w2] show ?thesis by (simp add: solve_challenge_def)
    next
      case (Inr c)
      with assms(2) 3 1 d 2 obtain j where "poll_task_result N rt j d 0 w2 = Some (Failed k detail i, w')"
        by (cases c) (simp_all add: solve_challenge_def)
      from poll_safe[OF this] assms(1) show ?thesis by simp
    qed
  qed
  then show ?thesis by (simp add: detail_safe_def)
qed

definition demo_echo :: mock_state where
  "demo_echo = demo_pending \<lparr> mk_create := [Inl ''connection reset: clientKey CAP-12345678''] \<rparr>"

theorem solver_key_not_in_detail_witness:
  "\<exists>detail m. solve_challenge mock_net demo_solver demo_solve_request demo_echo = Some (Failed SolverTransport detail None, m)
     \<and> \<not> contains detail ''CAP-12345678''"
proof -
  have t: "trim ''0x4AAAAAAA'' \<noteq> []" by code_simp
  have c: "contains ''https://api.capsolver.com/createTask'' ''createTask''" by code_simp
  have f: "marker_free (cr_api_key demo_solver)" by code_simp
  obtain m where s: "solve_challenge mock_net demo_solver demo_solve_request demo_echo
      = Some (Failed SolverTransport (scrub_secret ''connection reset: clientKey CAP-12345678'' ''CAP-12345678'') None, m)"
    using c t by (simp add: solve_challenge_def demo_solve_request_def mock_net_def mock_post_def demo_solver_def create_task_def
        pop_reply_def demo_echo_def demo_pending_def instant_add_def)
  moreover have "\<not> contains (scrub_secret ''connection reset: clientKey CAP-12345678'' ''CAP-12345678'') (cr_api_key demo_solver)"
  proof -
    have k: "cr_api_key demo_solver = ''CAP-12345678''" by (simp add: demo_solver_def)
    have "\<not> own_message (scrub_secret ''connection reset: clientKey CAP-12345678'' ''CAP-12345678'')"
    proof -
      have "scrub_secret ''connection reset: clientKey CAP-12345678'' ''CAP-12345678'' = ''connection reset: clientKey <redacted>''"
        by code_simp
      then show ?thesis by (auto simp: own_message_def http_refused_def)
    qed
    with solver_key_not_in_detail[OF f s] k show ?thesis by simp
  qed
  ultimately show ?thesis by (auto simp: demo_solver_def)
qed

section \<open>Switching the solver off\<close>

text \<open>
  Every source of a key that the code knows selects the provider as well, so the provider that the options
  or the environment name never matters: \<^verbatim>\<open>--captcha-solver off\<close> leaves the solver on.
\<close>

lemma captcha_solver_off_ignored:
  "resolve_runtime env cli key secs = resolve_runtime env cli' key secs"
proof -
  let ?km = "case Option.bind key (\<lambda>s. if trim s = [] then None else Some (trim s, KeyOptions)) of
       Some pair \<Rightarrow> Some pair | None \<Rightarrow> read_api_key_from_env env"
  have src: "src \<in> {KeyOptions, KeyEnv CAPSOLVER_API_KEY_ENV, KeyEnv BASECRAWL_CAPSOLVER_API_KEY_ENV}" if "?km = Some (k, src)" for k src
    using that by (auto simp: read_api_key_from_env_def bind_eq_Some_conv split: option.splits if_splits)
  show ?thesis
  proof (cases ?km)
    case (Some a)
    obtain k s where a: "a = (k, s)" by fastforce
    have p: "(case resolve_provider_name env c True of Some p \<Rightarrow> Some p
        | None \<Rightarrow> if s = KeyOptions \<or> s = KeyEnv CAPSOLVER_API_KEY_ENV \<or> s = KeyEnv BASECRAWL_CAPSOLVER_API_KEY_ENV
                  then Some CapSolver else None) = Some CapSolver" for c
      using src[of k s] Some a by (cases "resolve_provider_name env c True") (auto intro: captcha_solver_provider.exhaust)
    from Some a show ?thesis unfolding resolve_runtime_def by (simp add: p)
  qed (simp add: resolve_runtime_def)
qed

section \<open>After the token\<close>

lemma paced_delay_between:
  "unat (paced_delay_ms seed DEFAULT_HUMAN_PACE_MIN_MS DEFAULT_HUMAN_PACE_MAX_MS) \<in> {80..320}"
proof -
  have "unat (seed mod 241) < 241" by (simp add: unat_mod)
  moreover have "unat ((80 :: 64 word) + seed mod 241) = 80 + unat (seed mod 241)"
    using calculation by (subst unat_add_lem[THEN iffD1]) auto
  ultimately show ?thesis by (simp add: paced_delay_ms_def DEFAULT_HUMAN_PACE_MIN_MS_def DEFAULT_HUMAN_PACE_MAX_MS_def)
qed

text \<open>
  Applying a token is a wait, one script and two waits, each wait within the documented pace and
  within half a second; the script carries the token once, as the JSON text between its fixed parts, and a blank
  token applies nothing. Afterwards the page passes only with the unlocked marker, or with the applied marker
  and no challenge left; any other page is refused, never passed.
\<close>

theorem armed_actions_shape:
  "armed_solver_apply_actions txt token seed =
     (if trim token = [] then Inl (Solver ''solver_error'' ''refuse forge: empty Turnstile token cannot be applied'' None)
      else Inr ([Wait (unat (paced_delay_ms (seed XOR 0xA5A5A5A5) 80 320)),
             Evaluate (inject_before @ txt (JStr token) @ inject_after),
             Wait (unat (paced_delay_ms (seed XOR 0x5A5A5A5A) 80 320)), Wait 450],
           [paced_delay_ms (seed XOR 0xA5A5A5A5) 80 320, paced_delay_ms (seed XOR 0x5A5A5A5A) 80 320]))
   \<and> unat (paced_delay_ms seed 80 320) \<in> {80..320}
   \<and> (residual_after_applied_token html status i = None \<longleftrightarrow>
        contains html ''data-basecrawl-content-unlocked''
        \<or> (contains html (''data-basecrawl-turnstile-applied='' @ [CHR 0x22] @ ''1'' @ [CHR 0x22])
           \<and> \<not> looks_like_challenge_interstitial html status))"
proof (intro conjI)
  show "armed_solver_apply_actions txt token seed =
     (if trim token = [] then Inl (Solver ''solver_error'' ''refuse forge: empty Turnstile token cannot be applied'' None)
      else Inr ([Wait (unat (paced_delay_ms (seed XOR 0xA5A5A5A5) 80 320)),
             Evaluate (inject_before @ txt (JStr token) @ inject_after),
             Wait (unat (paced_delay_ms (seed XOR 0x5A5A5A5A) 80 320)), Wait 450],
           [paced_delay_ms (seed XOR 0xA5A5A5A5) 80 320, paced_delay_ms (seed XOR 0x5A5A5A5A) 80 320]))"
    by (simp add: armed_solver_apply_actions_def human_like_pacing_delays_def turnstile_token_inject_expression_def Let_def
        DEFAULT_HUMAN_PACE_MIN_MS_def DEFAULT_HUMAN_PACE_MAX_MS_def DEFAULT_POST_APPLY_SETTLE_MS_def)
  show "unat (paced_delay_ms seed 80 320) \<in> {80..320}"
    using paced_delay_between[of seed] by (simp add: DEFAULT_HUMAN_PACE_MIN_MS_def DEFAULT_HUMAN_PACE_MAX_MS_def)
qed (simp add: residual_after_applied_token_def)

text \<open>The unlocked marker is text that the origin itself can serve, with the challenge still on the page.\<close>

lemma origin_can_claim_unlocked:
  "residual_after_applied_token ''<p data-basecrawl-content-unlocked>Just a moment... Cloudflare</p>'' 403 i = None"
proof -
  have "contains ''<p data-basecrawl-content-unlocked>Just a moment... Cloudflare</p>'' ''data-basecrawl-content-unlocked''"
    by code_simp
  then show ?thesis by (simp add: residual_after_applied_token_def)
qed

text \<open>A task id is the service's text and is not scrubbed.\<close>

lemma task_id_not_scrubbed:
  assumes "\<not> contains html ''data-basecrawl-content-unlocked''"
    and "\<not> contains html (''data-basecrawl-turnstile-applied='' @ [CHR 0x22] @ ''1'' @ [CHR 0x22])"
  shows "\<exists>detail. residual_after_applied_token html status key = Some (Solver ''solver_apply_failed'' detail (Some status))
     \<and> contains detail key"
proof -
  have "contains (a @ key @ b) key" for a b by (auto simp: contains_iff)
  with assms show ?thesis by (simp only: residual_after_applied_token_def if_False if_True not_False_eq_True) blast
qed

end
