(* ===== verification/Fingerprint.thy ===== *)
theory Fingerprint
  imports Proxy_Config Http_Request
begin

text \<open>
  The seeded fingerprints of crate \<^verbatim>\<open>basecrawl-fp\<close>: its allowlists, the seed and its stream of
  pseudo-random lanes, the profile that a seed selects (\<^verbatim>\<open>lib.rs\<close>), the security invariants that every profile
  is checked against (\<^verbatim>\<open>security.rs\<close>) and the fixed soft TLS profile (\<^verbatim>\<open>tls_impersonate.rs\<close>). SHA-256 is
  \<open>sha256\<close>; the environment gives an operator's Chromium version.
\<close>

section \<open>The declared space\<close>

definition PINNED_CHROMIUM_VERSION :: string where "PINNED_CHROMIUM_VERSION = ''145.0.7632.46''"
definition PINNED_CHROMIUM_MAJOR :: nat where "PINNED_CHROMIUM_MAJOR = 145"

definition USER_AGENTS :: "string list" where
  "USER_AGENTS =
    [''Mozilla/5.0 (X11; Linux x86_64) AppleWebKit/537.36 (KHTML, like Gecko) Chrome/145.0.0.0 Safari/537.36'',
     ''Mozilla/5.0 (Windows NT 10.0; Win64; x64) AppleWebKit/537.36 (KHTML, like Gecko) Chrome/145.0.0.0 Safari/537.36'',
     ''Mozilla/5.0 (Macintosh; Intel Mac OS X 10_15_7) AppleWebKit/537.36 (KHTML, like Gecko) Chrome/145.0.0.0 Safari/537.36'',
     ''Mozilla/5.0 (X11; Ubuntu; Linux x86_64) AppleWebKit/537.36 (KHTML, like Gecko) Chrome/145.0.0.0 Safari/537.36'',
     ''Mozilla/5.0 (Windows NT 11.0; Win64; x64) AppleWebKit/537.36 (KHTML, like Gecko) Chrome/145.0.0.0 Safari/537.36'',
     ''Mozilla/5.0 (X11; Fedora; Linux x86_64) AppleWebKit/537.36 (KHTML, like Gecko) Chrome/145.0.0.0 Safari/537.36'',
     ''Mozilla/5.0 (Windows NT 10.0; WOW64) AppleWebKit/537.36 (KHTML, like Gecko) Chrome/145.0.0.0 Safari/537.36'',
     ''Mozilla/5.0 (Macintosh; Intel Mac OS X 13_6_0) AppleWebKit/537.36 (KHTML, like Gecko) Chrome/145.0.0.0 Safari/537.36'']"

definition HARDWARE_CONCURRENCY :: "nat list" where "HARDWARE_CONCURRENCY = [2, 4, 6, 8, 12, 16]"
definition DEVICE_MEMORY :: "nat list" where "DEVICE_MEMORY = [2, 4, 8]"

definition VIEWPORTS :: "(nat \<times> nat) list" where
  "VIEWPORTS = [(1280, 800), (1366, 768), (1440, 900), (1536, 864), (1920, 1080), (1280, 720), (1600, 900), (1680,
     1050)]"

text \<open>Width, height, available width and height, colour depth.\<close>

definition SCREEN_GEOMETRY :: "(nat \<times> nat \<times> nat \<times> nat \<times> nat) list" where
  "SCREEN_GEOMETRY = [(1280, 800, 1280, 760, 24), (1366, 768, 1366, 728, 24), (1440, 900, 1440, 860, 24), (1536, 864,
     1536, 824, 24), (1920, 1080, 1920, 1040, 24), (1280, 720, 1280, 680, 24), (1600, 900, 1600, 860,
     24), (1680, 1050, 1680, 1010, 24)]"

definition PLUGIN_INVENTORY :: "string list" where
  "PLUGIN_INVENTORY = [''PDF Viewer'', ''Chrome PDF Viewer'', ''Chromium PDF Viewer'', ''Microsoft Edge PDF Viewer'',
     ''WebKit built-in PDF'']"

definition TIMEZONES :: "string list" where
  "TIMEZONES = [''UTC'', ''America/New_York'', ''America/Los_Angeles'', ''America/Chicago'', ''Europe/London'', ''Europe/Paris'', ''Europe/Berlin'', ''Asia/Tokyo'', ''Asia/Shanghai'', ''Asia/Singapore'', ''Australia/Sydney'', ''America/Sao_Paulo'']"

definition LOCALES :: "string list" where
  "LOCALES = [''en-US'', ''en-GB'', ''de-DE'', ''fr-FR'', ''ja-JP'', ''es-ES'', ''pt-BR'', ''zh-CN'', ''ko-KR'', ''it-IT'']"

definition HEADER_ORDERS :: "string list list" where
  "HEADER_ORDERS =
    [[''user-agent'', ''accept'', ''accept-language'', ''accept-encoding''],
     [''user-agent'', ''accept-language'', ''accept'', ''accept-encoding''],
     [''user-agent'', ''accept-encoding'', ''accept'', ''accept-language''],
     [''user-agent'', ''accept'', ''accept-encoding'', ''accept-language''],
     [''accept'', ''user-agent'', ''accept-language'', ''accept-encoding''],
     [''accept-language'', ''user-agent'', ''accept'', ''accept-encoding'']]"

definition TLS13_CIPHER_SUITES :: "nat list" where "TLS13_CIPHER_SUITES = [0x1302, 0x1301, 0x1303]"

definition TLS13_CIPHER_NAMES :: "string list" where
  "TLS13_CIPHER_NAMES = [''TLS13_AES_256_GCM_SHA384'',
     ''TLS13_AES_128_GCM_SHA256'',
     ''TLS13_CHACHA20_POLY1305_SHA256'']"

definition TLS_GROUPS :: "string list" where "TLS_GROUPS = [''X25519'', ''secp256r1'', ''secp384r1'']"

definition WEBGL_RENDERERS :: "string list" where
  "WEBGL_RENDERERS =
    [''ANGLE (Intel, Mesa Intel(R) UHD Graphics 620 (KBL GT2), OpenGL 4.6)'',
     ''ANGLE (NVIDIA, NVIDIA GeForce GTX 1660/PCIe/SSE2, OpenGL 4.5.0)'',
     ''ANGLE (AMD, AMD Radeon RX 580 Series, OpenGL 4.6)'',
     ''ANGLE (Apple, Apple M1, OpenGL 4.1)'',
     ''ANGLE (Google, Vulkan 1.3.0 (SwiftShader Device (Subzero)), SwiftShader)'',
     ''ANGLE (Intel, Intel(R) Iris(R) Xe Graphics, OpenGL 4.6)'']"

definition WEBGL_VENDORS :: "string list" where
  "WEBGL_VENDORS =
    [''Google Inc. (Intel)'',
     ''Google Inc. (NVIDIA)'',
     ''Google Inc. (AMD)'',
     ''Google Inc. (Apple)'',
     ''Google Inc. (Google)'',
     ''Google Inc. (Intel)'']"

definition product_chromium_version :: "env \<Rightarrow> string" where
  "product_chromium_version env =
     (case env ''CHROMIUM_VERSION'' of
        Some v \<Rightarrow> if trim v = [] then PINNED_CHROMIUM_VERSION else trim v
      | None \<Rightarrow> PINNED_CHROMIUM_VERSION)"

definition U32_MAX :: nat where "U32_MAX = 2 ^ 32 - 1"

definition product_chromium_major :: "env \<Rightarrow> nat" where
  "product_chromium_major env =
     (case parse_unsigned 10 U32_MAX (hd (split_on (CHR ''.'') (product_chromium_version env))) of
        Some n \<Rightarrow> n | None \<Rightarrow> PINNED_CHROMIUM_MAJOR)"

record fingerprint_profile =
  fp_seed :: string
  fp_user_agent :: string
  fp_viewport :: "nat \<times> nat"
  fp_timezone :: string
  fp_locale :: string
  fp_header_names :: "string list"
  fp_accept_language :: string
  fp_accept :: string
  fp_accept_encoding :: string
  fp_tls13_cipher_order :: "nat list"
  fp_tls13_cipher_names :: "string list"
  fp_tls_group_order :: "string list"
  fp_canvas_fingerprint :: string
  fp_webgl_fingerprint :: string
  fp_webgl_vendor :: string
  fp_webgl_renderer :: string
  fp_canvas_noise :: "64 word"
  fp_ja3 :: string
  fp_ja4 :: string
  fp_platform :: string
  fp_hardware_concurrency :: nat
  fp_device_memory :: nat
  fp_screen :: "nat \<times> nat"
  fp_screen_avail :: "nat \<times> nat"
  fp_screen_color_depth :: nat
  fp_plugins_length :: nat
  fp_chrome_major :: nat
  fp_chrome_full_version :: string

section \<open>Seeds\<close>

definition NUL :: char where "NUL = CHR 0x00"

definition SEED_DOMAIN_TAG :: string where "SEED_DOMAIN_TAG = ''basecrawl/fingerprint-seed/v1'' @ [NUL]"
definition JA3_DOMAIN_TAG :: string where "JA3_DOMAIN_TAG = ''basecrawl/ja3/v1'' @ [NUL]"
definition JA4_DOMAIN_TAG :: string where "JA4_DOMAIN_TAG = ''basecrawl/ja4/v1'' @ [NUL]"
definition CANVAS_DOMAIN_TAG :: string where "CANVAS_DOMAIN_TAG = ''basecrawl/canvas-fp/v1'' @ [NUL]"
definition WEBGL_DOMAIN_TAG :: string where "WEBGL_DOMAIN_TAG = ''basecrawl/webgl-fp/v1'' @ [NUL]"

definition is_hex64 :: "string \<Rightarrow> bool" where
  "is_hex64 s \<longleftrightarrow> length s = 64 \<and> list_all is_hex_digit s"

definition normalize_seed :: "crypto_ops \<Rightarrow> string \<Rightarrow> string" where
  "normalize_seed ops input =
     (let trimmed = trim input
      in if is_hex64 trimmed then to_lower trimmed else hex_encode (sha256 ops (SEED_DOMAIN_TAG @ trimmed)))"

definition UNATTENDED_DEFAULT_SEED :: string where
  "UNATTENDED_DEFAULT_SEED = ''basecrawl-unattended-default''"

definition nonempty :: "string option \<Rightarrow> string option" where
  "nonempty x = (case x of Some s \<Rightarrow> if s = [] then None else Some s | None \<Rightarrow> None)"

definition resolve_seed ::
    "crypto_ops \<Rightarrow> string option \<Rightarrow> string option \<Rightarrow> string option \<Rightarrow> string \<Rightarrow> string" where
  "resolve_seed ops explicit task_id nonce fallback_material =
     (case nonempty (map_option trim explicit) of
        Some seed \<Rightarrow> normalize_seed ops seed
      | None \<Rightarrow>
          (case (nonempty task_id, nonempty nonce) of
             (Some task, Some n) \<Rightarrow> normalize_seed ops (task @ [NUL] @ n)
           | (Some task, None) \<Rightarrow> normalize_seed ops task
           | (None, Some n) \<Rightarrow> normalize_seed ops n
           | (None, None) \<Rightarrow> normalize_seed ops fallback_material))"

section \<open>The stream\<close>

definition le64 :: "64 word \<Rightarrow> string" where
  "le64 n = map (\<lambda>i. char_of (unat (drop_bit (8 * i) n) mod 256)) [0..<8]"

definition from_le64 :: "string \<Rightarrow> 64 word" where
  "from_le64 bs = foldr (\<lambda>b n. of_nat (code b) + 256 * n) bs 0"

definition fp_hex_decode32 :: "string \<Rightarrow> string option" where
  "fp_hex_decode32 input = (if length input \<noteq> 64 then None else decode_pairs input)"

definition seed_stream :: "crypto_ops \<Rightarrow> string \<Rightarrow> string" where
  "seed_stream ops seed_hex = (case fp_hex_decode32 seed_hex of Some bytes \<Rightarrow> bytes | None \<Rightarrow> sha256 ops seed_hex)"

record lane =
  ln_state :: string
  ln_offset :: nat

definition stream_lane :: "crypto_ops \<Rightarrow> string \<Rightarrow> 64 word \<Rightarrow> lane" where
  "stream_lane ops seed i =
     \<lparr> ln_state = sha256 ops (''basecrawl/fp-stream/v1'' @ [NUL] @ seed @ le64 i), ln_offset = 0 \<rparr>"

definition refill :: "crypto_ops \<Rightarrow> lane \<Rightarrow> lane" where
  "refill ops l = \<lparr> ln_state = sha256 ops (''basecrawl/fp-stream-block/v1'' @ [NUL] @ ln_state l), ln_offset = 0 \<rparr>"

definition next_u64 :: "crypto_ops \<Rightarrow> lane \<Rightarrow> 64 word \<times> lane" where
  "next_u64 ops l =
     (let l = (if 32 < ln_offset l + 8 then refill ops l else l)
      in (from_le64 (take 8 (drop (ln_offset l) (ln_state l))), l \<lparr> ln_offset := ln_offset l + 8 \<rparr>))"

definition next_usize :: "crypto_ops \<Rightarrow> nat \<Rightarrow> lane \<Rightarrow> nat \<times> lane" where
  "next_usize ops bound l =
     (if bound = 0 then (0, l) else case next_u64 ops l of (n, l) \<Rightarrow> (unat n mod bound, l))"

definition pick :: "crypto_ops \<Rightarrow> lane \<Rightarrow> 'a list \<Rightarrow> 'a" where
  "pick ops l items = items ! fst (next_usize ops (length items) l)"

definition swap_items :: "nat \<Rightarrow> nat \<Rightarrow> 'a list \<Rightarrow> 'a list" where
  "swap_items i j xs = xs[i := xs ! j, j := xs ! i]"

text \<open>The Fisher-Yates loop, with \<open>i\<close> running down from \<open>n - 1\<close> to 1.\<close>

fun shuffle :: "crypto_ops \<Rightarrow> nat \<Rightarrow> lane \<Rightarrow> 'a list \<Rightarrow> 'a list" where
  "shuffle ops 0 l items = items"
| "shuffle ops (Suc i) l items =
     (case next_usize ops (Suc i + 1) l of (j, l) \<Rightarrow> shuffle ops i l (swap_items (Suc i) j items))"

definition permutation :: "crypto_ops \<Rightarrow> lane \<Rightarrow> nat \<Rightarrow> nat list" where
  "permutation ops l n = shuffle ops (n - 1) l [0..<n]"

section \<open>Derived values\<close>

definition digits_prefix :: "string \<Rightarrow> string" where
  "digits_prefix s = takeWhile is_digit s"

definition ua_major :: "string \<Rightarrow> nat option" where
  "ua_major user_agent =
     (case split_str ''Chrome/'' user_agent of
        _ # rest # _ \<Rightarrow> parse_unsigned 10 U32_MAX (digits_prefix rest) | _ \<Rightarrow> None)"

definition chrome_versions_for_ua :: "env \<Rightarrow> string \<Rightarrow> nat \<times> string" where
  "chrome_versions_for_ua env user_agent =
     (let parsed = (case ua_major user_agent of Some n \<Rightarrow> n | None \<Rightarrow> product_chromium_major env);
          major = (if parsed \<noteq> product_chromium_major env then product_chromium_major env else parsed);
          full = (if major = product_chromium_major env then product_chromium_version env
                  else show_nat major @ ''.0.0.0'')
      in (major, full))"

definition coerce_user_agent_to_product_pin :: "env \<Rightarrow> string \<Rightarrow> string" where
  "coerce_user_agent_to_product_pin env user_agent =
     (case split_once_str ''Chrome/'' user_agent of
        None \<Rightarrow> user_agent
      | Some (before, rest) \<Rightarrow>
          (case parse_unsigned 10 U32_MAX (digits_prefix rest) of
             None \<Rightarrow> user_agent
           | Some parsed \<Rightarrow>
               if parsed \<noteq> product_chromium_major env
               then before @ ''Chrome/'' @ show_nat (product_chromium_major env) @ drop (length (digits_prefix rest)) rest
               else user_agent))"

definition hard_path_versions_are_pin_coherent :: "env \<Rightarrow> fingerprint_profile \<Rightarrow> bool" where
  "hard_path_versions_are_pin_coherent env p =
     (let pin = product_chromium_major env
      in ua_major (fp_user_agent p) = Some pin \<and> fp_chrome_major p = pin
         \<and> parse_unsigned 10 U32_MAX (hd (split_on (CHR ''.'') (fp_chrome_full_version p))) = Some pin
         \<and> starts_with (fp_chrome_full_version p) (show_nat pin @ ''.''))"

definition accept_language_for :: "string \<Rightarrow> string" where
  "accept_language_for locale =
     (let short = hd (split_on (CHR ''-'') locale)
      in if short = locale then locale @ '',en;q=0.8'' else locale @ '','' @ short @ '';q=0.9,en;q=0.8'')"

definition platform_for :: "string \<Rightarrow> string" where
  "platform_for user_agent =
     (if contains user_agent ''Windows'' then ''Win32''
      else if contains user_agent ''Macintosh'' \<or> contains user_agent ''Mac OS'' then ''MacIntel''
      else ''Linux x86_64'')"

text \<open>Four lowercase hexadecimal digits, and two decimal ones.\<close>

definition hex4 :: "nat \<Rightarrow> string" where
  "hex4 n = map hex_char [n div 4096 mod 16, n div 256 mod 16, n div 16 mod 16, n mod 16]"

definition dec2 :: "nat \<Rightarrow> string" where
  "dec2 n = (if n < 10 then ''0'' @ show_nat n else show_nat n)"

definition compute_ja3 :: "crypto_ops \<Rightarrow> nat list \<Rightarrow> string list \<Rightarrow> string list \<Rightarrow> string" where
  "compute_ja3 ops ciphers groups header_names =
     hex_encode (sha256 ops (JA3_DOMAIN_TAG @ ''771,'' @ join ''-'' (map hex4 ciphers) @ '','' @ ''0-11-10-35-16-13'' @ '',''
       @ join ''-'' groups @ '',0'' @ ''|headers:'' @ concat (map (\<lambda>name. name @ '','') header_names)))"

definition compute_ja4 :: "crypto_ops \<Rightarrow> nat list \<Rightarrow> string list \<Rightarrow> string \<Rightarrow> string" where
  "compute_ja4 ops ciphers groups locale =
     hex_encode (sha256 ops (JA4_DOMAIN_TAG @ ''t13d'' @ dec2 (length ciphers) @ ''_'' @ join '','' (map hex4 ciphers) @ ''_''
       @ join '','' groups @ ''_'' @ locale))"

definition compute_canvas_fingerprint :: "crypto_ops \<Rightarrow> string \<Rightarrow> 64 word \<Rightarrow> string" where
  "compute_canvas_fingerprint ops seed noise = hex_encode (sha256 ops (CANVAS_DOMAIN_TAG @ seed @ le64 noise))"

definition compute_webgl_fingerprint :: "crypto_ops \<Rightarrow> string \<Rightarrow> string \<Rightarrow> string \<Rightarrow> string" where
  "compute_webgl_fingerprint ops seed vendor renderer =
     hex_encode (sha256 ops (WEBGL_DOMAIN_TAG @ seed @ vendor @ [NUL] @ renderer))"

section \<open>A profile\<close>

definition generate :: "crypto_ops \<Rightarrow> env \<Rightarrow> string \<Rightarrow> fingerprint_profile" where
  "generate ops env seed_input =
     (let seed = normalize_seed ops seed_input;
          lane = stream_lane ops (seed_stream ops seed);
          user_agent = coerce_user_agent_to_product_pin env (pick ops (lane 0) USER_AGENTS);
          viewport = pick ops (lane 1) VIEWPORTS;
          locale = pick ops (lane 3) LOCALES;
          header_names = pick ops (lane 4) HEADER_ORDERS;
          cipher_perm = permutation ops (lane 5) (length TLS13_CIPHER_SUITES);
          tls13_cipher_order = map ((!) TLS13_CIPHER_SUITES) cipher_perm;
          group_perm = permutation ops (lane 6) (length TLS_GROUPS);
          tls_group_order = map ((!) TLS_GROUPS) group_perm;
          webgl_idx = fst (next_usize ops (length WEBGL_RENDERERS) (lane 7));
          webgl_renderer = WEBGL_RENDERERS ! webgl_idx;
          webgl_vendor = WEBGL_VENDORS ! webgl_idx;
          canvas_noise = fst (next_u64 ops (lane 8));
          viewport_idx = (case position (\<lambda>v. v = viewport) VIEWPORTS of Some i \<Rightarrow> i | None \<Rightarrow> 0)
      in case SCREEN_GEOMETRY ! min viewport_idx (length SCREEN_GEOMETRY - 1) of
         (screen_width, screen_height, avail_width, avail_height, color_depth) \<Rightarrow>
      case chrome_versions_for_ua env user_agent of (chrome_major, chrome_full_version) \<Rightarrow>
      \<lparr> fp_seed = seed, fp_user_agent = user_agent, fp_viewport = viewport,
        fp_timezone = pick ops (lane 2) TIMEZONES, fp_locale = locale, fp_header_names = header_names,
        fp_accept_language = accept_language_for locale,
        fp_accept = ''text/html,application/xhtml+xml,application/xml;q=0.9,image/avif,image/webp,*/*;q=0.8'',
        fp_accept_encoding = ''gzip, deflate, br'',
        fp_tls13_cipher_order = tls13_cipher_order,
        fp_tls13_cipher_names = map ((!) TLS13_CIPHER_NAMES) cipher_perm,
        fp_tls_group_order = tls_group_order,
        fp_canvas_fingerprint = compute_canvas_fingerprint ops seed canvas_noise,
        fp_webgl_fingerprint = compute_webgl_fingerprint ops seed webgl_vendor webgl_renderer,
        fp_webgl_vendor = webgl_vendor, fp_webgl_renderer = webgl_renderer, fp_canvas_noise = canvas_noise,
        fp_ja3 = compute_ja3 ops tls13_cipher_order tls_group_order header_names,
        fp_ja4 = compute_ja4 ops tls13_cipher_order tls_group_order locale,
        fp_platform = platform_for user_agent,
        fp_hardware_concurrency = pick ops (lane 9) HARDWARE_CONCURRENCY,
        fp_device_memory = pick ops (lane 10) DEVICE_MEMORY,
        fp_screen = (screen_width, screen_height), fp_screen_avail = (avail_width, avail_height),
        fp_screen_color_depth = color_depth, fp_plugins_length = length PLUGIN_INVENTORY,
        fp_chrome_major = chrome_major, fp_chrome_full_version = chrome_full_version \<rparr>)"

definition is_within_parameter_space :: "env \<Rightarrow> fingerprint_profile \<Rightarrow> bool" where
  "is_within_parameter_space env p \<longleftrightarrow>
     fp_user_agent p \<in> set USER_AGENTS \<and> fp_viewport p \<in> set VIEWPORTS \<and> fp_timezone p \<in> set TIMEZONES
   \<and> fp_locale p \<in> set LOCALES \<and> fp_header_names p \<in> set HEADER_ORDERS
   \<and> length (fp_tls13_cipher_order p) = length TLS13_CIPHER_SUITES
   \<and> list_all (\<lambda>s. s \<in> set TLS13_CIPHER_SUITES) (fp_tls13_cipher_order p)
   \<and> sort (fp_tls13_cipher_order p) = sort TLS13_CIPHER_SUITES
   \<and> length (fp_tls_group_order p) = length TLS_GROUPS
   \<and> list_all (\<lambda>g. g \<in> set TLS_GROUPS) (fp_tls_group_order p)
   \<and> fp_webgl_renderer p \<in> set WEBGL_RENDERERS \<and> fp_webgl_vendor p \<in> set WEBGL_VENDORS
   \<and> fp_hardware_concurrency p \<in> set HARDWARE_CONCURRENCY \<and> 0 < fp_hardware_concurrency p
   \<and> fp_device_memory p \<in> set DEVICE_MEMORY \<and> 0 < fp_device_memory p
   \<and> fst (fp_viewport p) \<le> fst (fp_screen p) \<and> snd (fp_viewport p) \<le> snd (fp_screen p)
   \<and> 0 < fst (fp_screen_avail p) \<and> 0 < snd (fp_screen_avail p) \<and> 0 < fp_screen_color_depth p
   \<and> fp_plugins_length p = length PLUGIN_INVENTORY \<and> 0 < fp_chrome_major p
   \<and> chrome_versions_for_ua env (fp_user_agent p) = (fp_chrome_major p, fp_chrome_full_version p)
   \<and> is_hex64 (fp_seed p) \<and> is_hex64 (fp_ja3 p) \<and> is_hex64 (fp_ja4 p)
   \<and> is_hex64 (fp_canvas_fingerprint p) \<and> is_hex64 (fp_webgl_fingerprint p)"

section \<open>Headers and hints\<close>

definition seed_owned :: "string \<Rightarrow> bool" where
  "seed_owned name \<longleftrightarrow> eq_ic name ''user-agent'' \<or> eq_ic name ''accept'' \<or> eq_ic name ''accept-language''
     \<or> eq_ic name ''accept-encoding''"

definition seed_header :: "fingerprint_profile \<Rightarrow> string \<Rightarrow> (string \<times> string) option" where
  "seed_header p name =
     (if eq_ic name ''user-agent'' then Some (name, fp_user_agent p)
      else if eq_ic name ''accept'' then Some (name, fp_accept p)
      else if eq_ic name ''accept-language'' then Some (name, fp_accept_language p)
      else if eq_ic name ''accept-encoding'' then Some (name, fp_accept_encoding p)
      else None)"

definition effective_fingerprint_headers :: "fingerprint_profile \<Rightarrow> headers \<Rightarrow> headers" where
  "effective_fingerprint_headers p caller_headers =
     List.map_filter (seed_header p) (fp_header_names p)
     @ map (\<lambda>(name, val). (to_lower name, val)) (filter (\<lambda>(name, val). \<not> seed_owned name) caller_headers)"

definition client_hints_brands :: "fingerprint_profile \<Rightarrow> (string \<times> string) list" where
  "client_hints_brands p =
     [(''Not:A-Brand'', ''99''), (''Google Chrome'', show_nat (fp_chrome_major p)), (''Chromium'', show_nat (fp_chrome_major p))]"

definition sec_ch_ua_header :: "fingerprint_profile \<Rightarrow> string" where
  "sec_ch_ua_header p =
     join '', '' (map (\<lambda>(brand, version). [CHR 0x22] @ brand @ [CHR 0x22] @ '';v='' @ [CHR 0x22] @ version @ [CHR 0x22])
       (client_hints_brands p))"

definition client_hints_platform :: "fingerprint_profile \<Rightarrow> string" where
  "client_hints_platform p =
     (if starts_with (fp_platform p) ''Win'' then ''Windows''
      else if starts_with (fp_platform p) ''Mac'' then ''macOS'' else ''Linux'')"

section \<open>Security invariants\<close>

datatype certificate_validation_policy = WebPkiValidated
datatype offered_tls_versions = Tls13PreferredTls12DiagnosticOnly

record security_critical_tls_params =
  sp_certificate_validation :: certificate_validation_policy
  sp_seed_may_weaken_cert_validation :: bool
  sp_offered_versions :: offered_tls_versions
  sp_required_negotiated_version :: string
  sp_cipher_suites_are_tls13_only :: bool
  sp_groups_are_modern_only :: bool
  sp_cert_chain_capture_enabled :: bool
  sp_transcript_capture_enabled :: bool
  sp_l2_binding :: bool

definition REQUIRED_NEGOTIATED_TLS_VERSION :: string where "REQUIRED_NEGOTIATED_TLS_VERSION = ''1.3''"

definition tls_params :: security_critical_tls_params where
  "tls_params = \<lparr> sp_certificate_validation = WebPkiValidated, sp_seed_may_weaken_cert_validation = False,
     sp_offered_versions = Tls13PreferredTls12DiagnosticOnly,
     sp_required_negotiated_version = REQUIRED_NEGOTIATED_TLS_VERSION,
     sp_cipher_suites_are_tls13_only = True, sp_groups_are_modern_only = True,
     sp_cert_chain_capture_enabled = True, sp_transcript_capture_enabled = True, sp_l2_binding = True \<rparr>"

definition SECURITY_TLS13_CIPHER_SUITE_IANA :: "nat list" where
  "SECURITY_TLS13_CIPHER_SUITE_IANA = [0x1301, 0x1302, 0x1303]"

definition SECURITY_TLS_GROUP_ALLOWLIST :: "string list" where
  "SECURITY_TLS_GROUP_ALLOWLIST = [''X25519'', ''secp256r1'', ''secp384r1'']"

text \<open>\<open>quote\<close> is the debug format of a text.\<close>

definition assert_security_invariants ::
    "(string \<Rightarrow> string) \<Rightarrow> fingerprint_profile \<Rightarrow> (string, unit) result" where
  "assert_security_invariants quote p =
     (let fixed = tls_params; suites = fp_tls13_cipher_order p; groups = fp_tls_group_order p in
      if sp_seed_may_weaken_cert_validation fixed
      then Inl ''measured image must never allow seeds to weaken cert validation''
      else if sp_required_negotiated_version fixed \<noteq> REQUIRED_NEGOTIATED_TLS_VERSION
      then Inl (''required negotiated TLS version must be '' @ REQUIRED_NEGOTIATED_TLS_VERSION)
      else if \<not> sp_cert_chain_capture_enabled fixed \<or> \<not> sp_transcript_capture_enabled fixed
      then Inl ''in-enclave cert/transcript capture must stay enabled under every seed''
      else if \<not> sp_l2_binding fixed
      then Inl ''L2 report_data binding must include cert + transcript under every seed''
      else if length suites \<noteq> length SECURITY_TLS13_CIPHER_SUITE_IANA
      then Inl (''seed emitted '' @ show_nat (length suites) @ '' cipher suites; expected exactly ''
             @ show_nat (length SECURITY_TLS13_CIPHER_SUITE_IANA))
      else case List.find (\<lambda>s. s \<notin> set SECURITY_TLS13_CIPHER_SUITE_IANA) suites of
        Some s \<Rightarrow> Inl (''seed emitted non-TLS-1.3 / non-allowlisted cipher suite 0x'' @ hex4 s)
      | None \<Rightarrow>
      if sort suites \<noteq> sort SECURITY_TLS13_CIPHER_SUITE_IANA
      then Inl ''seed must re-order the closed TLS 1.3 cipher set, not drop or duplicate''
      else if length groups \<noteq> length SECURITY_TLS_GROUP_ALLOWLIST
      then Inl (''seed emitted '' @ show_nat (length groups) @ '' groups; expected exactly ''
             @ show_nat (length SECURITY_TLS_GROUP_ALLOWLIST))
      else case List.find (\<lambda>g. g \<notin> set SECURITY_TLS_GROUP_ALLOWLIST) groups of
        Some g \<Rightarrow> Inl (''seed emitted non-allowlisted TLS group '' @ quote g)
      | None \<Rightarrow>
      if sort groups \<noteq> sort SECURITY_TLS_GROUP_ALLOWLIST
      then Inl ''seed must re-order the closed modern group set, not drop or duplicate''
      else case List.find (\<lambda>n. \<not> starts_with n ''TLS13_'') (fp_tls13_cipher_names p) of
        Some n \<Rightarrow> Inl (''seed emitted non-TLS-1.3 cipher name '' @ quote n)
      | None \<Rightarrow> Inr ())"

definition generate_validated ::
    "(string \<Rightarrow> string) \<Rightarrow> crypto_ops \<Rightarrow> env \<Rightarrow> string \<Rightarrow> (string, fingerprint_profile) result" where
  "generate_validated quote ops env seed_input =
     (let p = generate ops env seed_input in bind_res (assert_security_invariants quote p) (\<lambda>_. Inr p))"

section \<open>The soft TLS profile\<close>

definition SOFT_CHROME_JA3_DOMAIN :: string where
  "SOFT_CHROME_JA3_DOMAIN = ''basecrawl/soft-tls-impersonate/ja3/v1'' @ [NUL]"
definition SOFT_CHROME_JA4_DOMAIN :: string where
  "SOFT_CHROME_JA4_DOMAIN = ''basecrawl/soft-tls-impersonate/ja4/v1'' @ [NUL]"
definition SOFT_TLS_FP_LABEL :: string where "SOFT_TLS_FP_LABEL = ''soft_synthetic_impersonate''"
definition CHROME_TLS13_CIPHER_ORDER :: "nat list" where "CHROME_TLS13_CIPHER_ORDER = [0x1301, 0x1302, 0x1303]"
definition CHROME_TLS13_CIPHER_NAMES :: "string list" where
  "CHROME_TLS13_CIPHER_NAMES =
     [''TLS13_AES_128_GCM_SHA256'', ''TLS13_AES_256_GCM_SHA384'', ''TLS13_CHACHA20_POLY1305_SHA256'']"
definition CHROME_TLS_GROUP_ORDER :: "string list" where
  "CHROME_TLS_GROUP_ORDER = [''X25519'', ''secp256r1'', ''secp384r1'']"
definition CHROME_SOFT_EXTENSION_ORDER :: string where
  "CHROME_SOFT_EXTENSION_ORDER = ''0-23-65281-10-11-35-16-5-13-18-51-45-43-27-17513-65037''"

datatype soft_tls_impersonate = ImpersonateChrome

fun impersonate_str :: "soft_tls_impersonate \<Rightarrow> string" where
  "impersonate_str ImpersonateChrome = ''chrome''"

datatype soft_tls_impersonate_error = ImpersonateEmpty | ImpersonateUnknown string | BelowSecurityFloor string

fun impersonate_kind :: "soft_tls_impersonate_error \<Rightarrow> string" where
  "impersonate_kind ImpersonateEmpty = ''tls_impersonate_empty''"
| "impersonate_kind (ImpersonateUnknown _) = ''tls_impersonate_unsupported''"
| "impersonate_kind (BelowSecurityFloor _) = ''tls_impersonate_security_floor''"

fun impersonate_message :: "soft_tls_impersonate_error \<Rightarrow> string" where
  "impersonate_message ImpersonateEmpty =
     ''tls impersonate profile is empty; pass a supported soft profile such as '' @ [CHR 0x27] @ ''chrome'' @ [CHR 0x27]
     @ '' (chrome ClientHello/JA3-family bootstrap alignment; residual bot detection remains)''"
| "impersonate_message (ImpersonateUnknown token) =
     ''unsupported tls impersonate profile '' @ [CHR 0x27] @ token @ [CHR 0x27]
     @ ''; supported soft profiles: chrome (aliases: chrome-145, chrome-impersonate). Invalid profiles fail closed ''
     @ ''and are never silently treated as random suite reorder success''"
| "impersonate_message (BelowSecurityFloor token) =
     ''tls impersonate profile '' @ [CHR 0x27] @ token @ [CHR 0x27]
     @ '' is below the product security floor (TLS 1.3 AEAD only; no export/RC4/3DES/TLS1.0 profiles)''"

definition weak_tokens :: "string list" where
  "weak_tokens = [''export'', ''rc4'', ''3des'', ''des'', ''null'', ''ssl3'', ''sslv3'', ''tls1.0'', ''tls10'', ''tls1.1'',
     ''tls11'', ''tlsv1'', ''tlsv1.0'', ''md5'', ''anon'', ''insecure'', ''broken'']"

definition is_weak_or_legacy_token :: "string \<Rightarrow> bool" where
  "is_weak_or_legacy_token token \<longleftrightarrow> list_ex (\<lambda>w. token = w \<or> contains token w) weak_tokens"

definition parse_impersonate :: "string \<Rightarrow> (soft_tls_impersonate_error, soft_tls_impersonate) result" where
  "parse_impersonate raw =
     (let token = to_lower (trim raw)
      in if token = [] then Inl ImpersonateEmpty
         else if is_weak_or_legacy_token token then Inl (BelowSecurityFloor token)
         else if token \<in> {''chrome'', ''chrome-145'', ''chrome_145'', ''chrome-impersonate'', ''chrome_impersonate'',
                          ''chrome-like'', ''chrome_like''}
         then Inr ImpersonateChrome
         else Inl (ImpersonateUnknown token))"

definition group_iana :: "string \<Rightarrow> string" where
  "group_iana name =
     (if name = ''X25519'' then ''29'' else if name = ''secp256r1'' then ''23''
      else if name = ''secp384r1'' then ''24'' else name)"

definition soft_chrome_ja3 :: "crypto_ops \<Rightarrow> nat list \<Rightarrow> string list \<Rightarrow> string" where
  "soft_chrome_ja3 ops ciphers groups =
     hex_encode (sha256 ops (SOFT_CHROME_JA3_DOMAIN @ ''label:'' @ SOFT_TLS_FP_LABEL @ ''|profile:chrome|'' @ ''771,''
       @ join ''-'' (map hex4 ciphers) @ '','' @ CHROME_SOFT_EXTENSION_ORDER @ '',''
       @ join ''-'' (map group_iana groups) @ '',0''))"

definition soft_chrome_ja4 :: "crypto_ops \<Rightarrow> nat list \<Rightarrow> string list \<Rightarrow> string" where
  "soft_chrome_ja4 ops ciphers groups =
     hex_encode (sha256 ops (SOFT_CHROME_JA4_DOMAIN @ ''label:'' @ SOFT_TLS_FP_LABEL @ ''|profile:chrome|'' @ ''t13d''
       @ dec2 (length ciphers) @ ''_'' @ join '','' (map hex4 ciphers) @ ''_'' @ join '','' groups @ ''_''
       @ CHROME_SOFT_EXTENSION_ORDER))"

definition apply_chrome_soft_profile :: "crypto_ops \<Rightarrow> fingerprint_profile \<Rightarrow> fingerprint_profile" where
  "apply_chrome_soft_profile ops p =
     p \<lparr> fp_tls13_cipher_order := CHROME_TLS13_CIPHER_ORDER, fp_tls13_cipher_names := CHROME_TLS13_CIPHER_NAMES,
         fp_tls_group_order := CHROME_TLS_GROUP_ORDER,
         fp_ja3 := soft_chrome_ja3 ops CHROME_TLS13_CIPHER_ORDER CHROME_TLS_GROUP_ORDER,
         fp_ja4 := soft_chrome_ja4 ops CHROME_TLS13_CIPHER_ORDER CHROME_TLS_GROUP_ORDER \<rparr>"

fun apply_impersonate :: "crypto_ops \<Rightarrow> soft_tls_impersonate \<Rightarrow> fingerprint_profile \<Rightarrow> fingerprint_profile" where
  "apply_impersonate ops ImpersonateChrome p = apply_chrome_soft_profile ops p"

definition assert_chrome_security_floor :: "(string \<Rightarrow> string) \<Rightarrow> (string, unit) result" where
  "assert_chrome_security_floor quote =
     (if length CHROME_TLS13_CIPHER_ORDER \<noteq> 3
      then Inl ''chrome soft profile must offer exactly 3 TLS 1.3 AEAD suites''
      else case List.find (\<lambda>s. \<not> (0x1301 \<le> s \<and> s \<le> 0x1303) \<or> s \<notin> set TLS13_CIPHER_SUITES) CHROME_TLS13_CIPHER_ORDER of
        Some s \<Rightarrow> Inl (''chrome soft profile suite 0x'' @ hex4 s
          @ (if \<not> (0x1301 \<le> s \<and> s \<le> 0x1303) then '' below floor'' else '' not in product closed set''))
      | None \<Rightarrow>
      case List.find (\<lambda>n. \<not> starts_with n ''TLS13_'' \<or> n \<notin> set TLS13_CIPHER_NAMES) CHROME_TLS13_CIPHER_NAMES of
        Some n \<Rightarrow> Inl (''chrome soft profile name '' @ quote n
          @ (if \<not> starts_with n ''TLS13_'' then '' is not TLS1.3'' else '' not in product closed set''))
      | None \<Rightarrow>
      case List.find (\<lambda>g. g \<notin> set TLS_GROUPS) CHROME_TLS_GROUP_ORDER of
        Some g \<Rightarrow> Inl (''chrome soft profile group '' @ quote g @ '' not in product closed set'')
      | None \<Rightarrow>
      if contains CHROME_SOFT_EXTENSION_ORDER ''0x0000''
      then Inl ''chrome soft profile must not include null/export inventory'' else Inr ())"

record soft_tls_impersonate_audit =
  sa_profile :: string
  sa_ja_label :: string
  sa_soft_ja3 :: string
  sa_soft_ja4 :: string
  sa_tls13_cipher_order :: "nat list"
  sa_tls_group_order :: "string list"

definition audit_from_applied :: "soft_tls_impersonate \<Rightarrow> fingerprint_profile \<Rightarrow> soft_tls_impersonate_audit" where
  "audit_from_applied profile p = \<lparr> sa_profile = impersonate_str profile, sa_ja_label = SOFT_TLS_FP_LABEL,
     sa_soft_ja3 = fp_ja3 p, sa_soft_ja4 = fp_ja4 p, sa_tls13_cipher_order = fp_tls13_cipher_order p,
     sa_tls_group_order = fp_tls_group_order p \<rparr>"

end
