(* ===== verification/Fingerprint_Space.thy ===== *)
theory Fingerprint_Space
  imports Fingerprint Http_Response "HOL-Library.Multiset"
begin

text \<open>
  What the fingerprint generator guarantees for every seed: the offered TLS parameters are a reordering of the
  closed secure set, the profile stays in the declared space, the version it claims is the pinned one, and the
  headers of a caller cannot replace the seed's.
\<close>

section \<open>Shuffles\<close>

lemma mset_swap_items:
  "i < length xs \<Longrightarrow> j < length xs \<Longrightarrow> mset (swap_items i j xs) = mset xs"
  unfolding swap_items_def by (rule mset_swap)

lemma next_usize_less: "0 < bound \<Longrightarrow> fst (next_usize ops bound l) < bound"
  by (simp add: next_usize_def split: prod.split)

lemma mset_shuffle: "i < length items \<Longrightarrow> mset (shuffle ops i l items) = mset items"
proof (induction i arbitrary: l items)
  case (Suc i)
  obtain j l' where j: "next_usize ops (Suc i + 1) l = (j, l')" by fastforce
  have "j < Suc i + 1" using next_usize_less[of "Suc i + 1" ops l] j by simp
  with Suc.prems have s: "mset (swap_items (Suc i) j items) = mset items" by (intro mset_swap_items) auto
  moreover have "i < length (swap_items (Suc i) j items)" using Suc.prems by (simp add: swap_items_def)
  ultimately show ?case using Suc.IH j by simp
qed simp

lemma mset_permutation: "mset (permutation ops l n) = mset [0..<n]"
  by (cases n) (auto simp: permutation_def mset_shuffle simp del: upt_Suc)

lemma mset_reordered: "mset p = mset [0..<length xs] \<Longrightarrow> mset (map ((!) xs) p) = mset xs"
  by (metis map_nth mset_map)

lemma mset_sort_eq: "mset xs = mset ys \<Longrightarrow> sort xs = sort ys"
  by (metis mset_sort properties_for_sort sorted_sort)

lemma find_None_iff: "List.find P xs = None \<longleftrightarrow> (\<forall>x \<in> set xs. \<not> P x)"
  by (induction xs) auto

section \<open>The offered parameters\<close>

definition reordered_offer :: "fingerprint_profile \<Rightarrow> bool" where
  "reordered_offer p \<longleftrightarrow> mset (fp_tls13_cipher_order p) = mset TLS13_CIPHER_SUITES
     \<and> mset (fp_tls_group_order p) = mset TLS_GROUPS \<and> set (fp_tls13_cipher_names p) \<subseteq> set TLS13_CIPHER_NAMES"

lemma reordered_secure:
  assumes "reordered_offer p"
  shows "assert_security_invariants quote p = Inr ()"
proof -
  let ?s = "fp_tls13_cipher_order p" and ?g = "fp_tls_group_order p"
  have ms: "mset ?s = mset SECURITY_TLS13_CIPHER_SUITE_IANA"
    using assms by (simp add: reordered_offer_def TLS13_CIPHER_SUITES_def SECURITY_TLS13_CIPHER_SUITE_IANA_def)
  have mg: "mset ?g = mset SECURITY_TLS_GROUP_ALLOWLIST"
    using assms by (simp add: reordered_offer_def TLS_GROUPS_def SECURITY_TLS_GROUP_ALLOWLIST_def)
  have l: "length ?s = length SECURITY_TLS13_CIPHER_SUITE_IANA" "length ?g = length SECURITY_TLS_GROUP_ALLOWLIST"
    using ms mg by (metis size_mset)+
  have e: "set ?s = set SECURITY_TLS13_CIPHER_SUITE_IANA" "set ?g = set SECURITY_TLS_GROUP_ALLOWLIST"
    using ms mg by (metis set_mset_mset)+
  have f1: "List.find (\<lambda>s. s \<notin> set SECURITY_TLS13_CIPHER_SUITE_IANA) ?s = None" using e by (simp add: find_None_iff)
  have f2: "List.find (\<lambda>g. g \<notin> set SECURITY_TLS_GROUP_ALLOWLIST) ?g = None" using e by (simp add: find_None_iff)
  have "list_all (\<lambda>n. starts_with n ''TLS13_'') TLS13_CIPHER_NAMES" by code_simp
  then have f3: "List.find (\<lambda>n. \<not> starts_with n ''TLS13_'') (fp_tls13_cipher_names p) = None"
    using assms by (auto simp: find_None_iff list_all_iff reordered_offer_def)
  show ?thesis
    unfolding assert_security_invariants_def Let_def f1 f2 f3 mset_sort_eq[OF ms] mset_sort_eq[OF mg] l
    by (simp add: tls_params_def)
qed

lemma table_lengths [simp]:
  "length TLS13_CIPHER_SUITES = 3" "length TLS_GROUPS = 3" "length TLS13_CIPHER_NAMES = 3"
  by (simp_all add: TLS13_CIPHER_SUITES_def TLS_GROUPS_def TLS13_CIPHER_NAMES_def)

lemma generate_fields:
  fixes ops env s
  defines "lane \<equiv> stream_lane ops (seed_stream ops (normalize_seed ops s))"
  shows "fp_seed (generate ops env s) = normalize_seed ops s"
    "fp_user_agent (generate ops env s) = coerce_user_agent_to_product_pin env (pick ops (lane 0) USER_AGENTS)"
    "fp_viewport (generate ops env s) = pick ops (lane 1) VIEWPORTS"
    "fp_timezone (generate ops env s) = pick ops (lane 2) TIMEZONES"
    "fp_locale (generate ops env s) = pick ops (lane 3) LOCALES"
    "fp_header_names (generate ops env s) = pick ops (lane 4) HEADER_ORDERS"
    "fp_tls13_cipher_order (generate ops env s) = map ((!) TLS13_CIPHER_SUITES) (permutation ops (lane 5) 3)"
    "fp_tls13_cipher_names (generate ops env s) = map ((!) TLS13_CIPHER_NAMES) (permutation ops (lane 5) 3)"
    "fp_tls_group_order (generate ops env s) = map ((!) TLS_GROUPS) (permutation ops (lane 6) 3)"
    "fp_hardware_concurrency (generate ops env s) = pick ops (lane 9) HARDWARE_CONCURRENCY"
    "fp_device_memory (generate ops env s) = pick ops (lane 10) DEVICE_MEMORY"
    "fp_plugins_length (generate ops env s) = length PLUGIN_INVENTORY"
    "fp_webgl_renderer (generate ops env s) = WEBGL_RENDERERS ! fst (next_usize ops (length WEBGL_RENDERERS) (lane 7))"
    "fp_webgl_vendor (generate ops env s) = WEBGL_VENDORS ! fst (next_usize ops (length WEBGL_RENDERERS) (lane 7))"
    "(fp_chrome_major (generate ops env s), fp_chrome_full_version (generate ops env s))
       = chrome_versions_for_ua env (fp_user_agent (generate ops env s))"
  by (simp_all add: generate_def lane_def Let_def split: prod.split)

lemma generate_reordered: "reordered_offer (generate ops env s)"
proof -
  have "set (permutation ops l 3) = {0..<3}" for l
    by (metis atLeastLessThan_upt mset_permutation set_mset_mset)
  then have n: "set (map ((!) TLS13_CIPHER_NAMES) (permutation ops l 3)) \<subseteq> set TLS13_CIPHER_NAMES" for l
    by (auto intro!: nth_mem)
  have m: "mset (map ((!) TLS13_CIPHER_SUITES) (permutation ops l 3)) = mset TLS13_CIPHER_SUITES"
    "mset (map ((!) TLS_GROUPS) (permutation ops l 3)) = mset TLS_GROUPS" for l
    by (rule mset_reordered, simp only: table_lengths mset_permutation)+
  show ?thesis unfolding reordered_offer_def generate_fields by (intro conjI m n)
qed

text \<open>
  C38: A seed never weakens the connection. Whatever the seed, the environment and the hash, the generated
  profile passes the security check, so generation never fails; what is offered is the closed TLS 1.3 suites and
  modern groups in some order; and the soft TLS profile, applied to any profile at all, passes the check
  too and changes nothing but the offer and its digests.
\<close>

theorem seeds_never_weaken_tls:
  "generate_validated quote ops env s = Inr (generate ops env s)
   \<and> mset (fp_tls13_cipher_order (generate ops env s)) = {#0x1301, 0x1302, 0x1303#}
   \<and> mset (fp_tls_group_order (generate ops env s)) = {#''X25519'', ''secp256r1'', ''secp384r1''#}
   \<and> assert_security_invariants quote (apply_impersonate ops i p) = Inr ()
   \<and> assert_chrome_security_floor quote = Inr ()
   \<and> fp_user_agent (apply_impersonate ops i p) = fp_user_agent p
   \<and> effective_fingerprint_headers (apply_impersonate ops i p) hs = effective_fingerprint_headers p hs"
proof (intro conjI)
  show "generate_validated quote ops env s = Inr (generate ops env s)"
    by (simp add: generate_validated_def reordered_secure[OF generate_reordered])
  show "mset (fp_tls13_cipher_order (generate ops env s)) = {#0x1301, 0x1302, 0x1303#}"
    "mset (fp_tls_group_order (generate ops env s)) = {#''X25519'', ''secp256r1'', ''secp384r1''#}"
    using generate_reordered[of ops env s]
    by (simp_all add: reordered_offer_def TLS13_CIPHER_SUITES_def TLS_GROUPS_def)
  have "reordered_offer (apply_impersonate ops i p)"
    by (cases i) (simp add: reordered_offer_def apply_chrome_soft_profile_def CHROME_TLS13_CIPHER_ORDER_def CHROME_TLS_GROUP_ORDER_def
        CHROME_TLS13_CIPHER_NAMES_def TLS13_CIPHER_SUITES_def TLS_GROUPS_def TLS13_CIPHER_NAMES_def)
  then show "assert_security_invariants quote (apply_impersonate ops i p) = Inr ()" by (rule reordered_secure)
  have "List.find (\<lambda>s. \<not> (0x1301 \<le> s \<and> s \<le> 0x1303) \<or> s \<notin> set TLS13_CIPHER_SUITES) CHROME_TLS13_CIPHER_ORDER = None"
    by (simp add: TLS13_CIPHER_SUITES_def CHROME_TLS13_CIPHER_ORDER_def)
  moreover have "List.find (\<lambda>n. \<not> starts_with n ''TLS13_'' \<or> n \<notin> set TLS13_CIPHER_NAMES) CHROME_TLS13_CIPHER_NAMES = None"
    by code_simp
  moreover have "List.find (\<lambda>g. g \<notin> set TLS_GROUPS) CHROME_TLS_GROUP_ORDER = None" by code_simp
  moreover have "\<not> contains CHROME_SOFT_EXTENSION_ORDER ''0x0000''" by code_simp
  moreover have "length CHROME_TLS13_CIPHER_ORDER = 3" by (simp add: CHROME_TLS13_CIPHER_ORDER_def)
  ultimately show "assert_chrome_security_floor quote = Inr ()" by (simp add: assert_chrome_security_floor_def)
  show "fp_user_agent (apply_impersonate ops i p) = fp_user_agent p"
    by (cases i) (simp add: apply_chrome_soft_profile_def)
  have "seed_header (apply_impersonate ops i p) = seed_header p" "fp_header_names (apply_impersonate ops i p) = fp_header_names p"
    by (cases i; simp add: fun_eq_iff seed_header_def apply_chrome_soft_profile_def)+
  then show "effective_fingerprint_headers (apply_impersonate ops i p) hs = effective_fingerprint_headers p hs"
    by (simp add: effective_fingerprint_headers_def)
qed

section \<open>One version\<close>

lemma digits_val_show_nat: "n \<le> maxv \<Longrightarrow> digits_val 10 maxv 0 (show_nat n) = Some n"
proof (induction n rule: show_nat.induct)
  case (1 n)
  have d: "digit_val (char_of (k + 48)) = k" if "k < 10" for k
    using that by (simp add: digit_val_def is_digit_def take_bit_eq_mod)
  show ?case
  proof (cases "n < 10")
    case True
    with 1 d show ?thesis by (subst show_nat.simps) (simp add: Let_def)
  next
    case False
    with 1 have "digits_val 10 maxv 0 (show_nat (n div 10)) = Some (n div 10)" by simp
    moreover have "show_nat n = show_nat (n div 10) @ [char_of (n mod 10 + 48)]" using False by (simp add: show_nat.simps[of n])
    ultimately show ?thesis using d[of "n mod 10"] 1 by (simp add: digits_val_snoc Let_def)
  qed
qed

lemma parse_show_nat: "n \<le> maxv \<Longrightarrow> parse_unsigned 10 maxv (show_nat n) = Some n"
proof -
  assume n: "n \<le> maxv"
  obtain c cs where c: "show_nat n = c # cs" by (cases "show_nat n") auto
  with show_nat_digits[of n] have "c \<noteq> CHR ''+''" by (auto simp: is_digit_def)
  with c digits_val_show_nat[OF n] show ?thesis by (simp add: parse_unsigned_def)
qed

lemma digits_prefix_show_nat: "\<not> is_digit c \<Longrightarrow> digits_prefix (show_nat n @ c # s) = show_nat n"
  using show_nat_digits[of n] by (simp add: digits_prefix_def list_all_iff takeWhile_append2)

lemma split_str_first:
  assumes "find_sub p s = Some i"
  shows "p \<noteq> [] \<Longrightarrow> split_str p s = take i s # split_str p (drop (i + length p) s)"
  using assms by (subst split_str.simps) simp

lemma agents_split: "u \<in> set USER_AGENTS \<Longrightarrow> find_sub ''Chrome/'' u = Some (length u - 30) \<and> drop (length u - 30) u = ''Chrome/145.0.0.0 Safari/537.36''"
proof -
  have "list_all (\<lambda>u. find_sub ''Chrome/'' u = Some (length u - 30) \<and> drop (length u - 30) u = ''Chrome/145.0.0.0 Safari/537.36'') USER_AGENTS"
    by code_simp
  then show "u \<in> set USER_AGENTS \<Longrightarrow> ?thesis" unfolding list_all_iff by blast
qed

lemma agents_decomp:
  assumes "u \<in> set USER_AGENTS"
  obtains before where "u = before @ ''Chrome/145.0.0.0 Safari/537.36''" "find_sub ''Chrome/'' u = Some (length before)"
proof
  let ?b = "take (length u - 30) u"
  have d: "find_sub ''Chrome/'' u = Some (length u - 30)" "drop (length u - 30) u = ''Chrome/145.0.0.0 Safari/537.36''"
    using agents_split[OF assms] by auto
  then show "u = ?b @ ''Chrome/145.0.0.0 Safari/537.36''" by (metis append_take_drop_id)
  show "find_sub ''Chrome/'' u = Some (length ?b)" using d by simp
qed

lemma parse_145: "parse_unsigned 10 U32_MAX ''145'' = Some 145"
  by (simp add: parse_unsigned_def digit_val_def is_digit_def U32_MAX_def)

lemma split_tail: "split_str ''Chrome/'' (show_nat n @ ''.0.0.0 Safari/537.36'') = [show_nat n @ ''.0.0.0 Safari/537.36'']"
proof -
  have "find_sub ''Chrome/'' (show_nat n @ ''.0.0.0 Safari/537.36'') = None"
  proof (rule find_sub_None_head)
    show "CHR ''C'' \<notin> set (show_nat n @ ''.0.0.0 Safari/537.36'')"
      using show_nat_digits[of n] by (auto simp: list_all_iff is_digit_def)
  qed
  then show ?thesis by (subst split_str.simps) simp
qed

lemma find_sub_app_same:
  assumes "find_sub p (b @ p @ r) = Some (length b)"
  shows "find_sub p (b @ p @ r') = Some (length b)"
proof (cases "find_sub p (b @ p @ r')")
  case None
  then show ?thesis using find_sub_append[of p b r'] by simp
next
  case (Some i)
  have "i = length b"
  proof (rule ccontr)
    assume n: "i \<noteq> length b"
    have "starts_with (drop (length b) (b @ p @ r')) p" by (simp add: starts_with_iff)
    with find_sub_first[OF Some, of "length b"] n have i: "i < length b"
      by (metis linorder_neqE_nat starts_with_iff append_eq_conv_conj)
    have s: "starts_with (drop i (b @ p @ r')) p"
      using find_sub_SomeD[OF Some] by (metis append_take_drop_id starts_with_append)
    have "take (length p) (drop i (b @ p @ r)) = take (length p) (drop i (b @ p @ r'))"
      using i by (simp add: take_drop)
    with s have "starts_with (drop i (b @ p @ r)) p"
      by (metis append_eq_conv_conj append_take_drop_id starts_with_iff)
    with find_sub_first[OF assms i] show False by (auto simp: starts_with_iff)
  qed
  with Some show ?thesis by simp
qed

lemma split_at_token:
  assumes "find_sub ''Chrome/'' (b @ ''Chrome/'' @ show_nat n @ ''.0.0.0 Safari/537.36'') = Some (length b)"
  shows "split_str ''Chrome/'' (b @ ''Chrome/'' @ show_nat n @ ''.0.0.0 Safari/537.36'')
     = [b, show_nat n @ ''.0.0.0 Safari/537.36'']"
proof -
  have "drop (length b + length ''Chrome/'') (b @ ''Chrome/'' @ show_nat n @ ''.0.0.0 Safari/537.36'')
      = show_nat n @ ''.0.0.0 Safari/537.36''" by simp
  then show ?thesis by (subst split_str_first[OF assms]) (simp_all add: split_tail)
qed

lemma coerced_agent:
  assumes "u \<in> set USER_AGENTS" "product_chromium_major env = n" "n \<le> U32_MAX"
  shows "ua_major (coerce_user_agent_to_product_pin env u) = Some n"
proof -
  obtain b where u: "u = b @ ''Chrome/145.0.0.0 Safari/537.36''" "find_sub ''Chrome/'' u = Some (length b)"
    using agents_decomp[OF assms(1)] by blast
  have n145: "show_nat 145 = ''145''" by code_simp
  have o: "split_once_str ''Chrome/'' u = Some (b, ''145.0.0.0 Safari/537.36'')"
    using u by (simp add: split_once_str_def)
  have d: "digits_prefix ''145.0.0.0 Safari/537.36'' = ''145''" by code_simp
  have c: "coerce_user_agent_to_product_pin env u = b @ ''Chrome/'' @ show_nat n @ ''.0.0.0 Safari/537.36''"
  proof (cases "n = 145")
    case True
    have "coerce_user_agent_to_product_pin env u = u"
      using assms(2) True by (simp add: coerce_user_agent_to_product_pin_def o d parse_145)
    then show ?thesis using u(1) n145 True by simp
  next
    case False
    then show ?thesis using assms(2) by (simp add: coerce_user_agent_to_product_pin_def o d parse_145)
  qed
  have "find_sub ''Chrome/'' (b @ ''Chrome/'' @ show_nat n @ ''.0.0.0 Safari/537.36'') = Some (length b)"
    by (rule find_sub_app_same[of _ _ "''145.0.0.0 Safari/537.36''"]) (use u in simp)
  from split_at_token[OF this] have "split_str ''Chrome/'' (coerce_user_agent_to_product_pin env u)
      = [b, show_nat n @ ''.0.0.0 Safari/537.36'']" by (simp only: c)
  moreover have "digits_prefix (show_nat n @ ''.0.0.0 Safari/537.36'') = show_nat n"
    by (rule digits_prefix_show_nat) (simp add: is_digit_def)
  ultimately show ?thesis using parse_show_nat[OF assms(3)] by (simp add: ua_major_def)
qed

lemma pick_mem: "xs \<noteq> [] \<Longrightarrow> pick ops l xs \<in> set xs"
  unfolding pick_def by (rule nth_mem) (simp add: next_usize_less)

lemma product_major_le: "product_chromium_major env \<le> U32_MAX"
  using parse_unsigned_le by (fastforce simp: product_chromium_major_def PINNED_CHROMIUM_MAJOR_def U32_MAX_def split: option.split)

lemma generated_versions:
  "ua_major (fp_user_agent (generate ops env s)) = Some (product_chromium_major env)"
  "fp_chrome_major (generate ops env s) = product_chromium_major env"
  "fp_chrome_full_version (generate ops env s) = product_chromium_version env"
proof -
  show u: "ua_major (fp_user_agent (generate ops env s)) = Some (product_chromium_major env)"
    unfolding generate_fields by (rule coerced_agent[OF pick_mem _ product_major_le]) (simp_all add: USER_AGENTS_def)
  show "fp_chrome_major (generate ops env s) = product_chromium_major env"
    "fp_chrome_full_version (generate ops env s) = product_chromium_version env"
    using generate_fields(15)[of ops env s] u by (simp_all add: chrome_versions_for_ua_def)
qed

lemma decimal_major: "starts_with v (show_nat n @ ''.'') \<Longrightarrow> hd (split_on (CHR ''.'') v) = show_nat n"
proof -
  assume "starts_with v (show_nat n @ ''.'')"
  then obtain r where v: "v = show_nat n @ CHR ''.'' # r" by (auto simp: starts_with_iff)
  have "CHR ''.'' \<notin> set (show_nat n)" using show_nat_digits[of n] by (auto simp: list_all_iff is_digit_def)
  then show "hd (split_on (CHR ''.'') v) = show_nat n" unfolding v by (simp add: split_on_append)
qed

lemma pin_coherent_iff:
  "hard_path_versions_are_pin_coherent env (generate ops env s) \<longleftrightarrow>
     starts_with (product_chromium_version env) (show_nat (product_chromium_major env) @ ''.'')"
proof -
  let ?v = "product_chromium_version env" and ?n = "product_chromium_major env"
  have "starts_with ?v (show_nat ?n @ ''.'') \<Longrightarrow> parse_unsigned 10 U32_MAX (hd (split_on (CHR ''.'') ?v)) = Some ?n"
    using decimal_major[of ?v ?n] parse_show_nat[OF product_major_le[of env]] by simp
  then show ?thesis unfolding hard_path_versions_are_pin_coherent_def generated_versions Let_def by blast
qed

lemma pinned_version:
  assumes "env ''CHROMIUM_VERSION'' = None"
  shows "product_chromium_version env = ''145.0.7632.46''" "product_chromium_major env = 145"
proof -
  show v: "product_chromium_version env = ''145.0.7632.46''"
    using assms by (simp add: product_chromium_version_def PINNED_CHROMIUM_VERSION_def)
  have "split_on (CHR ''.'') ''145.0.7632.46'' = [''145'', ''0'', ''7632'', ''46'']" by code_simp
  then show "product_chromium_major env = 145" by (simp add: product_chromium_major_def v parse_145)
qed

text \<open>
  The profile claims one Chrome version. For every seed the user agent's major version, the profile's
  and the full version are those of the product, pinned or set by the operator; they are coherent as the hard
  path requires exactly when the version starts with the decimal major version and a dot, as the pinned one does.
\<close>

theorem versions_pin_coherent:
  "ua_major (fp_user_agent (generate ops env s)) = Some (product_chromium_major env)
   \<and> fp_chrome_major (generate ops env s) = product_chromium_major env
   \<and> fp_chrome_full_version (generate ops env s) = product_chromium_version env
   \<and> (hard_path_versions_are_pin_coherent env (generate ops env s) \<longleftrightarrow>
        starts_with (product_chromium_version env) (show_nat (product_chromium_major env) @ ''.''))
   \<and> hard_path_versions_are_pin_coherent Map.empty (generate ops Map.empty s)"
proof -
  have "show_nat 145 = ''145''" by code_simp
  then have "hard_path_versions_are_pin_coherent Map.empty (generate ops Map.empty s)"
    unfolding pin_coherent_iff pinned_version[of Map.empty, OF refl] by (simp add: starts_with_iff)
  then show ?thesis using generated_versions[of ops env s] pin_coherent_iff[of env ops s] by blast
qed

text \<open>An operator's version without a dot, or that is no number, is taken as it is.\<close>

lemma operator_version_incoherent:
  assumes "env ''CHROMIUM_VERSION'' = Some ''stable''"
  shows "\<not> hard_path_versions_are_pin_coherent env (generate ops env s)"
proof -
  have "trim ''stable'' = ''stable''" by code_simp
  then have v: "product_chromium_version env = ''stable''" by (simp add: product_chromium_version_def assms)
  have sp: "split_on (CHR ''.'') ''stable'' = [''stable'']" by code_simp
  have "show_nat n \<noteq> ''stable''" for n using show_nat_digits[of n] by (auto simp: is_digit_def)
  then show ?thesis
    unfolding pin_coherent_iff v using decimal_major[of "''stable''" "product_chromium_major env"] unfolding sp list.sel by metis
qed

section \<open>The declared space\<close>

lemma is_hex64_encode: "length bs = 32 \<Longrightarrow> is_hex64 (hex_encode bs)"
proof -
  assume l: "length bs = 32"
  have "list_all is_hex_digit (hex_encode bs)" for bs
    using hex_encode_lower_hex[of bs] by (auto simp: list_all_iff lower_hex_digit)
  with l show ?thesis by (simp add: is_hex64_def length_hex_encode)
qed

lemma is_hex64_lower: "is_hex64 s \<Longrightarrow> is_hex64 (to_lower s)"
proof -
  have "is_hex_digit (lower_char c)" if "is_hex_digit c" for c
    using that by (auto simp: is_hex_digit_def code_lower_char is_digit_def is_upper_def)
  then show "is_hex64 s \<Longrightarrow> is_hex64 (to_lower s)" by (auto simp: is_hex64_def to_lower_def list_all_iff)
qed

lemma normalize_hex64: "(\<And>x. length (sha256 ops x) = 32) \<Longrightarrow> is_hex64 (normalize_seed ops s)"
  by (simp add: normalize_seed_def Let_def is_hex64_lower is_hex64_encode)

lemma viewport_screen:
  assumes "v \<in> set VIEWPORTS"
  shows "(case SCREEN_GEOMETRY ! min (case position (\<lambda>u. u = v) VIEWPORTS of Some i \<Rightarrow> i | None \<Rightarrow> 0)
       (length SCREEN_GEOMETRY - 1) of
     (w, h, aw, ah, d) \<Rightarrow> fst v \<le> w \<and> snd v \<le> h \<and> 0 < aw \<and> 0 < ah \<and> 0 < d)"
proof -
  have "list_all (\<lambda>v. case SCREEN_GEOMETRY ! min (case position (\<lambda>u. u = v) VIEWPORTS of Some i \<Rightarrow> i | None \<Rightarrow> 0)
       (length SCREEN_GEOMETRY - 1) of
     (w, h, aw, ah, d) \<Rightarrow> fst v \<le> w \<and> snd v \<le> h \<and> 0 < aw \<and> 0 < ah \<and> 0 < d) VIEWPORTS"
    by code_simp
  from bspec[OF this[unfolded list_all_iff] assms] show ?thesis .
qed

lemma generate_screen:
  "case SCREEN_GEOMETRY ! min (case position (\<lambda>u. u = fp_viewport (generate ops env s)) VIEWPORTS of Some i \<Rightarrow> i | None \<Rightarrow> 0)
       (length SCREEN_GEOMETRY - 1) of
     (w, h, aw, ah, d) \<Rightarrow> fp_screen (generate ops env s) = (w, h) \<and> fp_screen_avail (generate ops env s) = (aw, ah)
       \<and> fp_screen_color_depth (generate ops env s) = d"
  unfolding generate_fields(3) by (simp add: generate_def Let_def split: prod.split)

lemma generate_digests:
  "\<exists>a b c d. fp_ja3 (generate ops env s) = hex_encode (sha256 ops a) \<and> fp_ja4 (generate ops env s) = hex_encode (sha256 ops b)
     \<and> fp_canvas_fingerprint (generate ops env s) = hex_encode (sha256 ops c)
     \<and> fp_webgl_fingerprint (generate ops env s) = hex_encode (sha256 ops d)"
  by (simp add: generate_def Let_def compute_ja3_def compute_ja4_def compute_canvas_fingerprint_def
      compute_webgl_fingerprint_def split: prod.split) blast

text \<open>
  C39: A profile never leaves the declared space. For every seed, with the pinned browser and a hash of 32
  bytes, each value of the profile is one that its table lists, the ciphers and groups are reorderings, the
  screen is at least as large as the viewport and the digests are 64 hexadecimal digits; and the profile
  depends on the normalised seed alone, which is its own normal form.
\<close>

theorem profiles_within_space:
  assumes "\<And>x. length (sha256 ops x) = 32" and "env ''CHROMIUM_VERSION'' = None"
  shows "is_within_parameter_space env (generate ops env s)
     \<and> normalize_seed ops (normalize_seed ops s) = normalize_seed ops s
     \<and> generate ops env (normalize_seed ops s) = generate ops env s"
proof -
  let ?p = "generate ops env s"
  have h: "is_hex64 (normalize_seed ops s)" by (rule normalize_hex64) (rule assms(1))
  note m = pinned_version(2)[of env, OF assms(2)]
  have n145: "show_nat 145 = ''145''" by code_simp
  have coerce: "coerce_user_agent_to_product_pin env u = u" if u: "u \<in> set USER_AGENTS" for u
  proof -
    obtain b where "u = b @ ''Chrome/145.0.0.0 Safari/537.36''" "find_sub ''Chrome/'' u = Some (length b)"
      using agents_decomp[OF u] by blast
    then have o: "split_once_str ''Chrome/'' u = Some (b, ''145.0.0.0 Safari/537.36'')" by (simp add: split_once_str_def)
    have d: "digits_prefix ''145.0.0.0 Safari/537.36'' = ''145''" by code_simp
    show ?thesis by (simp add: coerce_user_agent_to_product_pin_def o d parse_145 m)
  qed
  have ua: "fp_user_agent ?p \<in> set USER_AGENTS"
  proof -
    have "USER_AGENTS \<noteq> []" by (simp add: USER_AGENTS_def)
    then show ?thesis unfolding generate_fields using coerce pick_mem by metis
  qed
  have vp: "fp_viewport ?p \<in> set VIEWPORTS" unfolding generate_fields by (rule pick_mem) (simp add: VIEWPORTS_def)
  have tz: "fp_timezone ?p \<in> set TIMEZONES" unfolding generate_fields by (rule pick_mem) (simp add: TIMEZONES_def)
  have lo: "fp_locale ?p \<in> set LOCALES" unfolding generate_fields by (rule pick_mem) (simp add: LOCALES_def)
  have ho: "fp_header_names ?p \<in> set HEADER_ORDERS" unfolding generate_fields by (rule pick_mem) (simp add: HEADER_ORDERS_def)
  have hc: "fp_hardware_concurrency ?p \<in> set HARDWARE_CONCURRENCY"
    unfolding generate_fields by (rule pick_mem) (simp add: HARDWARE_CONCURRENCY_def)
  have dm: "fp_device_memory ?p \<in> set DEVICE_MEMORY" unfolding generate_fields by (rule pick_mem) (simp add: DEVICE_MEMORY_def)
  have pos: "0 < fp_hardware_concurrency ?p" "0 < fp_device_memory ?p"
    using hc dm by (auto simp: HARDWARE_CONCURRENCY_def DEVICE_MEMORY_def)
  have gl: "fp_webgl_renderer ?p \<in> set WEBGL_RENDERERS" "fp_webgl_vendor ?p \<in> set WEBGL_VENDORS"
    unfolding generate_fields by (rule nth_mem, simp add: next_usize_less WEBGL_RENDERERS_def WEBGL_VENDORS_def)+
  have off: "reordered_offer ?p" by (rule generate_reordered)
  have cs: "length (fp_tls13_cipher_order ?p) = length TLS13_CIPHER_SUITES" "set (fp_tls13_cipher_order ?p) = set TLS13_CIPHER_SUITES"
    "sort (fp_tls13_cipher_order ?p) = sort TLS13_CIPHER_SUITES" "length (fp_tls_group_order ?p) = length TLS_GROUPS"
    "set (fp_tls_group_order ?p) = set TLS_GROUPS"
    using off unfolding reordered_offer_def by (metis size_mset, metis set_mset_mset, metis mset_sort_eq, metis size_mset, metis set_mset_mset)
  have sc: "fst (fp_viewport ?p) \<le> fst (fp_screen ?p) \<and> snd (fp_viewport ?p) \<le> snd (fp_screen ?p)
      \<and> 0 < fst (fp_screen_avail ?p) \<and> 0 < snd (fp_screen_avail ?p) \<and> 0 < fp_screen_color_depth ?p"
    using viewport_screen[OF vp] generate_screen[of ops env s] by (auto split: prod.splits)
  have dg: "is_hex64 (fp_ja3 ?p) \<and> is_hex64 (fp_ja4 ?p) \<and> is_hex64 (fp_canvas_fingerprint ?p) \<and> is_hex64 (fp_webgl_fingerprint ?p)"
    using generate_digests[of ops env s] assms(1) by (auto simp: is_hex64_encode)
  have low: "list_all is_lower_hex (normalize_seed ops s)"
  proof (cases "is_hex64 (trim s)")
    case True
    then show ?thesis
      by (auto simp: normalize_seed_def is_hex64_def to_lower_def list_all_iff is_hex_digit_def is_lower_hex_def
          code_lower_char is_digit_def is_upper_def)
  next
    case False
    with hex_encode_lower_hex show ?thesis by (simp add: normalize_seed_def Let_def)
  qed
  have norm: "normalize_seed ops (normalize_seed ops s) = normalize_seed ops s"
  proof -
    have "trim (normalize_seed ops s) = normalize_seed ops s" using low by (rule trim_lower_hex)
    moreover have "to_lower (normalize_seed ops s) = normalize_seed ops s"
      using low by (auto simp: to_lower_fixed_iff list_all_iff lower_hex_not_upper)
    ultimately show ?thesis using h by (simp add: normalize_seed_def[of ops "normalize_seed ops s"])
  qed
  have "is_within_parameter_space env ?p"
    unfolding is_within_parameter_space_def list_all_iff cs(2,5) generate_fields(15)[symmetric]
    using ua vp tz lo ho hc dm pos gl cs sc dg h generated_versions(2)[of ops env s]
    by (simp add: m generate_fields(1) generate_fields(12))
  moreover have "generate ops env (normalize_seed ops s) = generate ops env s"
    unfolding generate_def norm ..
  ultimately show ?thesis using norm by simp
qed

theorem profiles_within_space_witness:
  "is_within_parameter_space Map.empty (generate demo_ops Map.empty ''task-7'')"
  using profiles_within_space[of demo_ops Map.empty "''task-7''"] by (simp add: demo_ops_def)

section \<open>Headers\<close>

definition four_names :: "string set" where
  "four_names = {''user-agent'', ''accept'', ''accept-language'', ''accept-encoding''}"

lemma seed_owned_iff: "seed_owned name \<longleftrightarrow> to_lower name \<in> four_names"
proof -
  have "to_lower ''user-agent'' = ''user-agent''" "to_lower ''accept'' = ''accept''"
    "to_lower ''accept-language'' = ''accept-language''" "to_lower ''accept-encoding'' = ''accept-encoding''" by code_simp+
  then show ?thesis by (simp add: seed_owned_def eq_ic_def four_names_def)
qed

lemma order_names: "order \<in> set HEADER_ORDERS \<Longrightarrow> distinct order \<and> set order = four_names"
proof -
  have "list_all (\<lambda>order. distinct order \<and> set order = set [''user-agent'', ''accept'', ''accept-language'', ''accept-encoding'']) HEADER_ORDERS"
    by (simp add: HEADER_ORDERS_def insert_commute)
  from this[unfolded list_all_iff] have "\<forall>order \<in> set HEADER_ORDERS. distinct order \<and> set order = four_names"
    by (simp add: four_names_def)
  then show "order \<in> set HEADER_ORDERS \<Longrightarrow> ?thesis" by blast
qed

definition seed_value :: "fingerprint_profile \<Rightarrow> string \<Rightarrow> string" where
  "seed_value p name = (if name = ''user-agent'' then fp_user_agent p else if name = ''accept'' then fp_accept p
     else if name = ''accept-language'' then fp_accept_language p else fp_accept_encoding p)"

lemma seed_header_four: "name \<in> four_names \<Longrightarrow> seed_header p name = Some (name, seed_value p name)"
proof -
  have "eq_ic ''user-agent'' ''user-agent''" "\<not> eq_ic ''accept'' ''user-agent''" "\<not> eq_ic ''accept-language'' ''user-agent''"
    "\<not> eq_ic ''accept-encoding'' ''user-agent''" "\<not> eq_ic ''accept-language'' ''accept''" "\<not> eq_ic ''accept-encoding'' ''accept''"
    "\<not> eq_ic ''accept-encoding'' ''accept-language''" by code_simp+
  then show "name \<in> four_names \<Longrightarrow> ?thesis"
    unfolding four_names_def by (elim insertE emptyE) (simp_all add: seed_header_def seed_value_def)
qed

lemma map_filter_seed:
  "set names \<subseteq> four_names \<Longrightarrow> List.map_filter (seed_header p) names = map (\<lambda>n. (n, seed_value p n)) names"
  by (induction names) (auto simp: List.map_filter_simps seed_header_four)

definition caller_part :: "headers \<Rightarrow> headers" where
  "caller_part hs = map (\<lambda>(name, val). (to_lower name, val)) (filter (\<lambda>(name, val). \<not> seed_owned name) hs)"

lemma generated_header_names:
  "distinct (fp_header_names (generate ops env s)) \<and> set (fp_header_names (generate ops env s)) = four_names"
  unfolding generate_fields by (rule order_names, rule pick_mem) (simp add: HEADER_ORDERS_def)

lemma generated_effective:
  "effective_fingerprint_headers (generate ops env s) hs
     = map (\<lambda>n. (n, seed_value (generate ops env s) n)) (fp_header_names (generate ops env s)) @ caller_part hs"
  using generated_header_names[of ops env s]
  by (simp add: effective_fingerprint_headers_def caller_part_def map_filter_seed)

lemma caller_part_names:
  "distinct (map (to_lower \<circ> fst) hs) \<Longrightarrow> distinct (map fst (caller_part hs)) \<and> set (map fst (caller_part hs)) \<inter> four_names = {}"
proof -
  have e: "map fst (caller_part hs) = map (to_lower \<circ> fst) (filter (\<lambda>(name, val). \<not> seed_owned name) hs)"
    by (simp add: caller_part_def case_prod_unfold)
  assume "distinct (map (to_lower \<circ> fst) hs)"
  then have "distinct (map fst (caller_part hs))" unfolding e by (rule distinct_map_filter)
  moreover have "set (map fst (caller_part hs)) \<inter> four_names = {}"
    unfolding e by (auto simp: seed_owned_iff)
  ultimately show ?thesis by blast
qed

text \<open>The seed's own values are legal header values.\<close>

lemma seed_values_legal:
  assumes "name \<in> four_names"
  shows "validate_header_pair name (seed_value (generate ops env s) name) = Inr ()"
proof -
  let ?p = "generate ops env s"
  have names: "list_all is_tchar n" "n \<noteq> []" if "n \<in> four_names" for n
  proof -
    have "list_all (\<lambda>n. list_all is_tchar n \<and> n \<noteq> []) [''user-agent'', ''accept'', ''accept-language'', ''accept-encoding'']"
      by code_simp
    with that show "list_all is_tchar n" "n \<noteq> []" by (auto simp: four_names_def)
  qed
  have ua: "list_all is_value_byte (fp_user_agent ?p)"
  proof -
    have "USER_AGENTS \<noteq> []" by (simp add: USER_AGENTS_def)
    then obtain u where u: "u \<in> set USER_AGENTS" "fp_user_agent ?p = coerce_user_agent_to_product_pin env u"
      unfolding generate_fields using pick_mem by metis
    have "list_all (list_all is_value_byte) USER_AGENTS" by code_simp
    then have "\<forall>v \<in> set USER_AGENTS. list_all is_value_byte v" by (rule list_all_iff[THEN iffD1])
    with u(1) have l: "list_all is_value_byte u" by blast
    moreover have "list_all is_value_byte (b @ ''Chrome/'' @ show_nat n @ drop k r)"
      if "split_once_str ''Chrome/'' u = Some (b, r)" for b r n k
    proof -
      have "u = b @ ''Chrome/'' @ r" using that by (rule split_once_str_SomeD)
      with l have "list_all is_value_byte b" "list_all is_value_byte r" by simp_all
      moreover have "list_all is_value_byte (show_nat n)"
        using show_nat_digits[of n] by (auto simp: list_all_iff is_digit_def is_value_byte_def)
      moreover have "list_all is_value_byte ''Chrome/''" by code_simp
      ultimately show ?thesis by (auto simp: list_all_iff dest: in_set_dropD)
    qed
    ultimately show ?thesis
      unfolding u(2) coerce_user_agent_to_product_pin_def by (simp split: option.split prod.split)
  qed
  have al: "list_all is_value_byte (fp_accept_language ?p)"
  proof -
    have "list_all (\<lambda>l. list_all is_value_byte (accept_language_for l)) LOCALES" by code_simp
    moreover have "LOCALES \<noteq> []" by (simp add: LOCALES_def)
    moreover have "fp_accept_language ?p = accept_language_for (fp_locale ?p)"
      by (simp add: generate_def Let_def split: prod.split)
    ultimately show ?thesis unfolding generate_fields using pick_mem by (metis list_all_iff)
  qed
  have "list_all is_value_byte ''text/html,application/xhtml+xml,application/xml;q=0.9,image/avif,image/webp,*/*;q=0.8''"
    "list_all is_value_byte ''gzip, deflate, br''" by code_simp+
  moreover have "fp_accept ?p = ''text/html,application/xhtml+xml,application/xml;q=0.9,image/avif,image/webp,*/*;q=0.8''"
    "fp_accept_encoding ?p = ''gzip, deflate, br''"
    by (simp_all add: generate_def Let_def split: prod.split)
  ultimately have "list_all is_value_byte (seed_value ?p name)" using ua al by (simp add: seed_value_def)
  with names[OF assms] show ?thesis by (simp add: validate_header_pair_def)
qed

text \<open>
  The effective list of headers. For every seed and every caller list that the validation accepts, it has each of the
  four seed-owned names once, in one of the allowlisted orders, with the profile's values, then the caller's other headers in
  their order and lowercase; no name occurs twice, and every pair passes the check that guards the wire.
\<close>

theorem effective_headers_seed_owned:
  assumes "validate_caller_headers hs = Inr ()"
  shows "effective_fingerprint_headers (generate ops env s) hs
       = map (\<lambda>n. (n, seed_value (generate ops env s) n)) (fp_header_names (generate ops env s)) @ caller_part hs
     \<and> fp_header_names (generate ops env s) \<in> set HEADER_ORDERS
     \<and> distinct (map fst (effective_fingerprint_headers (generate ops env s) hs))
     \<and> map_of (effective_fingerprint_headers (generate ops env s) hs) ''user-agent'' = Some (fp_user_agent (generate ops env s))
     \<and> list_all (\<lambda>h. validate_header_pair (fst h) (snd h) = Inr ()) (effective_fingerprint_headers (generate ops env s) hs)"
proof -
  let ?p = "generate ops env s"
  note e = generated_effective[of ops env s hs] and gh = generated_header_names[of ops env s]
  have C: "distinct (map (to_lower \<circ> fst) hs)" "\<forall>h \<in> set hs. validate_header_pair (fst h) (snd h) = Inr ()"
    using check_caller_headers_Inr[of "[]" hs] assms by (auto simp: validate_caller_headers_def comp_def)
  have n: "map fst (effective_fingerprint_headers ?p hs) = fp_header_names ?p @ map fst (caller_part hs)"
    by (simp add: e comp_def)
  have d: "distinct (map fst (effective_fingerprint_headers ?p hs))"
    unfolding n using gh caller_part_names[OF C(1)] by auto
  have "''user-agent'' \<in> set (fp_header_names ?p)" using gh by (simp add: four_names_def)
  then have "(''user-agent'', fp_user_agent ?p) \<in> set (effective_fingerprint_headers ?p hs)"
    by (auto simp: e seed_value_def intro!: image_eqI[of _ _ "''user-agent''"])
  with d have m: "map_of (effective_fingerprint_headers ?p hs) ''user-agent'' = Some (fp_user_agent ?p)"
    by (rule map_of_is_SomeI)
  have v: "list_all (\<lambda>h. validate_header_pair (fst h) (snd h) = Inr ()) (effective_fingerprint_headers ?p hs)"
    using gh seed_values_legal C(2) validate_lower_pair
    by (fastforce simp: e list_all_iff caller_part_def)
  have o: "fp_header_names ?p \<in> set HEADER_ORDERS"
    unfolding generate_fields by (rule pick_mem) (simp add: HEADER_ORDERS_def)
  from e o d m v show ?thesis by blast
qed

theorem effective_headers_seed_owned_witness:
  "map_of (effective_fingerprint_headers (generate demo_ops Map.empty ''t'') [(''X-Tag'', ''1''), (''Accept'', ''text/plain'')]) ''user-agent''
     = Some (fp_user_agent (generate demo_ops Map.empty ''t''))"
proof -
  have "validate_caller_headers [(''X-Tag'', ''1''), (''Accept'', ''text/plain'')] = Inr ()" by code_simp
  from effective_headers_seed_owned[OF this, of demo_ops Map.empty "''t''"] show ?thesis by blast
qed

end
