(* ===== verification/Attestation.thy ===== *)
theory Attestation
  imports Scrape_Proof Dns_Wire
begin

text \<open>
  \<^verbatim>\<open>basecrawl-core/src/attestation.rs\<close>: the exchange with the guest agent of the enclave, which
  gives TDX quotes and Ed25519 signatures, and the structural check of a quote. The Unix socket is
  the record \<open>unix_net\<close> over a world \<open>'w\<close>; the derived JSON readers of the two responses, the printer
  of the two requests and the Ed25519 operations are parameters.
\<close>

section \<open>Constants and errors\<close>

definition DEFAULT_DSTACK_SOCKET :: string where
  "DEFAULT_DSTACK_SOCKET = ''/var/run/dstack.sock''"

definition QUOTE_HEADER_BYTES :: nat where "QUOTE_HEADER_BYTES = 48"
definition TD_REPORT_BYTES :: nat where "TD_REPORT_BYTES = 584"
definition TD_REPORT_DATA_OFFSET :: nat where "TD_REPORT_DATA_OFFSET = 520"
definition TD_REPORT_DATA_BYTES :: nat where "TD_REPORT_DATA_BYTES = 64"
definition SIGNATURE_DATA_LENGTH_BYTES :: nat where "SIGNATURE_DATA_LENGTH_BYTES = 4"
definition ECDSA_SIGNATURE_BYTES :: nat where "ECDSA_SIGNATURE_BYTES = 64"
definition ECDSA_ATTESTATION_KEY_BYTES :: nat where "ECDSA_ATTESTATION_KEY_BYTES = 64"
definition CERTIFICATION_HEADER_BYTES :: nat where "CERTIFICATION_HEADER_BYTES = 6"
definition QE_REPORT_BYTES :: nat where "QE_REPORT_BYTES = 384"
definition QE_REPORT_SIGNATURE_BYTES :: nat where "QE_REPORT_SIGNATURE_BYTES = 64"
definition AUTHENTICATION_DATA_LENGTH_BYTES :: nat where "AUTHENTICATION_DATA_LENGTH_BYTES = 2"
definition MIN_CERTIFICATION_DATA_BYTES :: nat where "MIN_CERTIFICATION_DATA_BYTES = 1"

definition SIGNATURE_DATA_LENGTH_OFFSET :: nat where
  "SIGNATURE_DATA_LENGTH_OFFSET = QUOTE_HEADER_BYTES + TD_REPORT_BYTES"

definition SIGNATURE_DATA_OFFSET :: nat where
  "SIGNATURE_DATA_OFFSET = SIGNATURE_DATA_LENGTH_OFFSET + SIGNATURE_DATA_LENGTH_BYTES"

definition MIN_OUTER_BYTES :: nat where
  "MIN_OUTER_BYTES = QE_REPORT_BYTES + QE_REPORT_SIGNATURE_BYTES + AUTHENTICATION_DATA_LENGTH_BYTES
     + CERTIFICATION_HEADER_BYTES + MIN_CERTIFICATION_DATA_BYTES"

definition MIN_SIGNATURE_DATA_BYTES :: nat where
  "MIN_SIGNATURE_DATA_BYTES = ECDSA_SIGNATURE_BYTES + ECDSA_ATTESTATION_KEY_BYTES
     + CERTIFICATION_HEADER_BYTES + MIN_OUTER_BYTES"

definition MIN_QUOTE_BYTES :: nat where
  "MIN_QUOTE_BYTES = SIGNATURE_DATA_OFFSET + MIN_SIGNATURE_DATA_BYTES"

definition MIN_QUOTE_HEX_LEN :: nat where "MIN_QUOTE_HEX_LEN = MIN_QUOTE_BYTES * 2"
definition QUOTE_VERSION :: nat where "QUOTE_VERSION = 4"
definition TDX_TEE_TYPE :: nat where "TDX_TEE_TYPE = 0x81"
definition QE_REPORT_CERTIFICATION_DATA_TYPE :: nat where "QE_REPORT_CERTIFICATION_DATA_TYPE = 6"
definition PCK_CERTIFICATE_CHAIN_DATA_TYPE :: nat where "PCK_CERTIFICATE_CHAIN_DATA_TYPE = 5"

named_theorems layout \<open>the sizes of a quote\<close>

lemmas [layout] = QUOTE_HEADER_BYTES_def TD_REPORT_BYTES_def TD_REPORT_DATA_OFFSET_def
  TD_REPORT_DATA_BYTES_def SIGNATURE_DATA_LENGTH_BYTES_def ECDSA_SIGNATURE_BYTES_def
  ECDSA_ATTESTATION_KEY_BYTES_def CERTIFICATION_HEADER_BYTES_def QE_REPORT_BYTES_def
  QE_REPORT_SIGNATURE_BYTES_def AUTHENTICATION_DATA_LENGTH_BYTES_def MIN_CERTIFICATION_DATA_BYTES_def
  SIGNATURE_DATA_LENGTH_OFFSET_def SIGNATURE_DATA_OFFSET_def MIN_OUTER_BYTES_def
  MIN_SIGNATURE_DATA_BYTES_def MIN_QUOTE_BYTES_def MIN_QUOTE_HEX_LEN_def QUOTE_VERSION_def
  TDX_TEE_TYPE_def QE_REPORT_CERTIFICATION_DATA_TYPE_def PCK_CERTIFICATE_CHAIN_DATA_TYPE_def

text \<open>\<^verbatim>\<open>QuoteRequestError\<close> and \<^verbatim>\<open>SignRequestError\<close>; an error of the system is its text.\<close>

datatype quote_error =
    EmptyReportData
  | InvalidReportData
  | QuoteSocketUnavailable string string
  | QuoteIo string
  | QuoteHttpStatus nat
  | QuoteInvalidJson string
  | MissingField string
  | InvalidQuote
  | QuoteTooShort nat nat
  | InvalidQuoteHeader
  | MalformedQuote string
  | QuoteReportDataMismatch
  | ReportDataMismatch string string

fun quote_error_text :: "quote_error \<Rightarrow> string" where
  "quote_error_text EmptyReportData = ''dstack report_data must contain at least one hexadecimal byte''"
| "quote_error_text InvalidReportData = ''dstack report_data is not valid hexadecimal''"
| "quote_error_text (QuoteSocketUnavailable path e) =
     ''dstack guest-agent socket '' @ path @ '' is unavailable: '' @ e"
| "quote_error_text (QuoteIo e) = ''dstack guest-agent request failed: '' @ e"
| "quote_error_text (QuoteHttpStatus n) = ''dstack guest-agent returned HTTP status '' @ show_nat n"
| "quote_error_text (QuoteInvalidJson e) = ''dstack guest-agent returned malformed JSON: '' @ e"
| "quote_error_text (MissingField f) = ''dstack guest-agent response is missing a non-empty '' @ f"
| "quote_error_text InvalidQuote = ''dstack quote is not hexadecimal''"
| "quote_error_text (QuoteTooShort actual minimum) = ''dstack quote is truncated: got '' @ show_nat actual
     @ '' hex characters, need at least '' @ show_nat minimum"
| "quote_error_text InvalidQuoteHeader = ''dstack quote is not an Intel TDX v4 quote''"
| "quote_error_text (MalformedQuote why) = ''dstack quote structure is malformed or truncated: '' @ why"
| "quote_error_text QuoteReportDataMismatch = ''dstack quote report_data does not match the guest-agent response''"
| "quote_error_text (ReportDataMismatch submitted returned) =
     ''dstack guest-agent report_data mismatch: submitted '' @ submitted @ '', returned '' @ returned"

datatype sign_error =
    EmptyPayload
  | SignHttpStatus nat
  | SignInvalidJson string
  | InvalidField string
  | SignSocketUnavailable string
  | SignIo string

fun sign_error_text :: "sign_error \<Rightarrow> string" where
  "sign_error_text EmptyPayload = ''dstack signing payload is empty''"
| "sign_error_text (SignHttpStatus n) = ''dstack signing endpoint returned HTTP status '' @ show_nat n"
| "sign_error_text (SignInvalidJson e) = ''dstack signing endpoint returned malformed JSON: '' @ e"
| "sign_error_text (InvalidField f) = ''dstack signing endpoint returned an invalid field: '' @ f"
| "sign_error_text (SignSocketUnavailable e) = ''dstack signing socket is unavailable: '' @ e"
| "sign_error_text (SignIo e) = ''dstack signing request failed: '' @ e"

record sign_response =
  sg_signature :: string
  sg_signature_chain :: "string list"
  sg_public_key :: string

record quote_response =
  qr_quote :: string
  qr_event_log :: json
  qr_report_data :: string
  qr_vm_config :: json

section \<open>Hexadecimal text and little-endian numbers\<close>

definition hex_nibble :: "char \<Rightarrow> nat option" where
  "hex_nibble c =
     (if is_digit c then Some (code c - 48)
      else if 97 \<le> code c \<and> code c \<le> 102 then Some (code c - 87)
      else if 65 \<le> code c \<and> code c \<le> 70 then Some (code c - 55)
      else None)"

fun decode_hex_pairs :: "string \<Rightarrow> string option" where
  "decode_hex_pairs (a # b # s) =
     (case (hex_nibble a, hex_nibble b, decode_hex_pairs s) of
        (Some x, Some y, Some bs) \<Rightarrow> Some (char_of (16 * x + y) # bs)
      | _ \<Rightarrow> None)"
| "decode_hex_pairs s = Some []"

definition decode_hex :: "string \<Rightarrow> string option" where
  "decode_hex s = (if even (length s) then decode_hex_pairs s else None)"

fun le_value :: "string \<Rightarrow> nat" where
  "le_value [] = 0"
| "le_value (b # bs) = code b + 256 * le_value bs"

text \<open>\<^verbatim>\<open>value.get(offset..offset + n)\<close>.\<close>

definition bytes_at :: "nat \<Rightarrow> string \<Rightarrow> nat \<Rightarrow> string option" where
  "bytes_at n s offset = (if offset + n \<le> length s then Some (take n (drop offset s)) else None)"

definition read_u16 :: "string \<Rightarrow> nat \<Rightarrow> (quote_error, nat) result" where
  "read_u16 s offset = bind_res (ok_or (bytes_at 2 s offset)
     (MalformedQuote ''missing two-byte length or type field'')) (\<lambda>bs. Inr (le_value bs))"

definition read_u32 :: "string \<Rightarrow> nat \<Rightarrow> (quote_error, nat) result" where
  "read_u32 s offset = bind_res (ok_or (bytes_at 4 s offset)
     (MalformedQuote ''missing four-byte length field'')) (\<lambda>bs. Inr (le_value bs))"

definition add_usize :: "nat \<Rightarrow> nat \<Rightarrow> string \<Rightarrow> (quote_error, nat) result" where
  "add_usize a b what = (if a + b \<le> USIZE_MAX then Inr (a + b) else Inl (MalformedQuote what))"

section \<open>The structure of a quote\<close>

definition validate_pck :: "string \<Rightarrow> nat \<Rightarrow> nat \<Rightarrow> (quote_error, unit) result" where
  "validate_pck sd cursor outer_end =
     bind_res (read_u16 sd cursor) (\<lambda>certification_type.
     bind_res (read_u32 sd (cursor + 2)) (\<lambda>certification_length.
       if certification_type \<noteq> PCK_CERTIFICATE_CHAIN_DATA_TYPE
       then Inl (MalformedQuote ''QE report has no PCK certificate-chain data'')
       else if certification_length < MIN_CERTIFICATION_DATA_BYTES
       then Inl (MalformedQuote ''PCK certification data is empty'')
       else bind_res (add_usize (cursor + CERTIFICATION_HEADER_BYTES) certification_length
                        ''PCK certification data length overflow'') (\<lambda>certification_end.
         if certification_end \<noteq> outer_end
         then Inl (MalformedQuote ''PCK certification data is truncated or has trailing bytes'')
         else Inr ())))"

definition validate_authentication :: "string \<Rightarrow> nat \<Rightarrow> nat \<Rightarrow> (quote_error, unit) result" where
  "validate_authentication sd cursor outer_end =
     bind_res (read_u16 sd cursor) (\<lambda>authentication_length.
     bind_res (add_usize (cursor + AUTHENTICATION_DATA_LENGTH_BYTES) authentication_length
                 ''authentication data length overflow'') (\<lambda>cursor.
       if outer_end < cursor + CERTIFICATION_HEADER_BYTES
       then Inl (MalformedQuote ''authentication data is truncated'')
       else validate_pck sd cursor outer_end))"

definition validate_signature_data :: "string \<Rightarrow> (quote_error, unit) result" where
  "validate_signature_data sd =
     (let cursor = ECDSA_SIGNATURE_BYTES + ECDSA_ATTESTATION_KEY_BYTES in
      bind_res (read_u16 sd cursor) (\<lambda>outer_type.
      bind_res (read_u32 sd (cursor + 2)) (\<lambda>outer_length.
        if outer_type \<noteq> QE_REPORT_CERTIFICATION_DATA_TYPE
        then Inl (MalformedQuote ''signature data has no QE report certification envelope'')
        else let cursor = cursor + CERTIFICATION_HEADER_BYTES in
        bind_res (add_usize cursor outer_length ''QE certification data length overflow'') (\<lambda>outer_end.
          if outer_end \<noteq> length sd
          then Inl (MalformedQuote ''QE certification data length does not match signature data'')
          else if outer_length < MIN_OUTER_BYTES
          then Inl (MalformedQuote ''QE report certification data is truncated'')
          else validate_authentication sd (cursor + (QE_REPORT_BYTES + QE_REPORT_SIGNATURE_BYTES)) outer_end))))"

definition validate_tdx_v4_quote :: "string \<Rightarrow> (quote_error, unit) result" where
  "validate_tdx_v4_quote q =
     (if length q < MIN_QUOTE_BYTES then Inl (QuoteTooShort (length q * 2) MIN_QUOTE_HEX_LEN)
      else if le_value (take 2 q) \<noteq> QUOTE_VERSION \<or> le_value (take 4 (drop 4 q)) \<noteq> TDX_TEE_TYPE
      then Inl InvalidQuoteHeader
      else bind_res (read_u32 q SIGNATURE_DATA_LENGTH_OFFSET) (\<lambda>n.
        if n < MIN_SIGNATURE_DATA_BYTES then Inl (MalformedQuote ''signature data is too short'')
        else bind_res (add_usize SIGNATURE_DATA_OFFSET n ''signature data length overflow'') (\<lambda>end.
          if length q < end then Inl (MalformedQuote ''declared signature data is truncated'')
          else if list_ex (\<lambda>b. b \<noteq> CHR 0x00) (drop end q)
          then Inl (MalformedQuote ''non-zero bytes follow declared signature data'')
          else validate_signature_data (take (end - SIGNATURE_DATA_OFFSET) (drop SIGNATURE_DATA_OFFSET q)))))"

definition slice :: "string \<Rightarrow> nat \<Rightarrow> nat \<Rightarrow> string" where
  "slice s a b = take (b - a) (drop a s)"

definition quote_measurement :: "string \<Rightarrow> (quote_error, tdx_measurement) result" where
  "quote_measurement quote_hex =
     bind_res (ok_or (decode_hex quote_hex) InvalidQuote) (\<lambda>q.
     bind_res (validate_tdx_v4_quote q) (\<lambda>_.
       Inr \<lparr> tm_mrtd = hex_encode (slice q (48 + 136) (48 + 184)),
             tm_rtmr0 = hex_encode (slice q (48 + 328) (48 + 376)),
             tm_rtmr1 = hex_encode (slice q (48 + 376) (48 + 424)),
             tm_rtmr2 = hex_encode (slice q (48 + 424) (48 + 472)),
             tm_rtmr3 = hex_encode (slice q (48 + 472) (48 + 520)) \<rparr>))"

definition quote_report_data :: "string \<Rightarrow> (quote_error, string) result" where
  "quote_report_data quote_hex =
     bind_res (ok_or (decode_hex quote_hex) InvalidQuote) (\<lambda>q.
     bind_res (validate_tdx_v4_quote q) (\<lambda>_.
       Inr (hex_encode (slice q (QUOTE_HEADER_BYTES + TD_REPORT_DATA_OFFSET)
              (QUOTE_HEADER_BYTES + TD_REPORT_DATA_OFFSET + TD_REPORT_DATA_BYTES)))))"

section \<open>The two requests\<close>

definition normalize_report_data :: "crypto_ops \<Rightarrow> string \<Rightarrow> (quote_error, string) result" where
  "normalize_report_data ops raw =
     (let t = trim raw in
      if t = [] then Inl EmptyReportData
      else if odd (length t) \<or> \<not> list_all is_hex_digit t then Inl InvalidReportData
      else bind_res (ok_or (decode_hex t) InvalidReportData) (\<lambda>bs.
        let field = (if TD_REPORT_DATA_BYTES < length bs then sha256 ops bs else bs)
        in Inr (hex_encode (field @ replicate (TD_REPORT_DATA_BYTES - length field) (CHR 0x00)))))"

fun is_empty_json :: "json \<Rightarrow> bool" where
  "is_empty_json (JArr xs) \<longleftrightarrow> xs = []"
| "is_empty_json (JObj kvs) \<longleftrightarrow> kvs = []"
| "is_empty_json (JStr s) \<longleftrightarrow> s = []"
| "is_empty_json _ \<longleftrightarrow> False"

definition missing_json :: "json \<Rightarrow> bool" where
  "missing_json v \<longleftrightarrow> v = JNull \<or> is_empty_json v"

definition validate_quote_response :: "quote_response \<Rightarrow> string \<Rightarrow> (quote_error, quote_response) result" where
  "validate_quote_response r expected =
     (if qr_quote r = [] then Inl (MissingField ''quote'')
      else if missing_json (qr_event_log r) then Inl (MissingField ''event_log'')
      else if missing_json (qr_vm_config r) then Inl (MissingField ''vm_config'')
      else bind_res (ok_or (decode_hex (qr_quote r)) InvalidQuote) (\<lambda>q.
        bind_res (validate_tdx_v4_quote q) (\<lambda>_.
        bind_res (quote_report_data (qr_quote r)) (\<lambda>embedded.
          let r = r \<lparr> qr_quote := hex_encode q, qr_report_data := to_lower (qr_report_data r) \<rparr>
          in if qr_report_data r \<noteq> expected then Inl (ReportDataMismatch expected (qr_report_data r))
             else if embedded \<noteq> expected then Inl QuoteReportDataMismatch
             else Inr r))))"

text \<open>\<^verbatim>\<open>parse_http_response_parts\<close>; its errors are texts of the system's error type.\<close>

definition parse_agent_response :: "string \<Rightarrow> (string, nat \<times> string) result" where
  "parse_agent_response response =
     bind_res (ok_or (split_once_str (CRLF @ CRLF) response) ''missing HTTP headers'') (\<lambda>(headers, body).
     bind_res (ok_or (position (\<lambda>c. c = CHR 0x0D) headers) ''missing HTTP status'') (\<lambda>line_end.
     bind_res (if utf8_ok (take line_end headers) then Inr () else Inl ''invalid HTTP status'') (\<lambda>_.
     bind_res (ok_or (case split_whitespace (take line_end headers) of
                        _ # s # _ \<Rightarrow> parse_unsigned 10 65535 s | _ \<Rightarrow> None) ''invalid HTTP status'')
       (\<lambda>status. Inr (status, body)))))"

record ('s, 'w) unix_net =
  ux_connect :: "string \<Rightarrow> 'w \<Rightarrow> (string, 's) result \<times> 'w"
  ux_set_read_timeout :: "'s \<Rightarrow> nat \<Rightarrow> 'w \<Rightarrow> (string, unit) result \<times> 'w"
  ux_set_write_timeout :: "'s \<Rightarrow> nat \<Rightarrow> 'w \<Rightarrow> (string, unit) result \<times> 'w"
  ux_write_all :: "'s \<Rightarrow> string \<Rightarrow> 'w \<Rightarrow> (string, unit) result \<times> 'w"
  ux_shutdown_write :: "'s \<Rightarrow> 'w \<Rightarrow> (string, unit) result \<times> 'w"
  ux_read_to_end :: "'s \<Rightarrow> 'w \<Rightarrow> (string, string) result \<times> 'w"

fun then_io :: "(string, 'a) result \<times> 'w \<Rightarrow> ('a \<Rightarrow> 'w \<Rightarrow> (string, 'b) result \<times> 'w) \<Rightarrow> (string, 'b) result \<times> 'w" where
  "then_io (Inl e, w) f = (Inl e, w)"
| "then_io (Inr a, w) f = f a w"

definition REQUEST_TIMEOUT :: nat where
  "REQUEST_TIMEOUT = 10 * 1000"

definition agent_request_text :: "string \<Rightarrow> string \<Rightarrow> string" where
  "agent_request_text path body =
     ''POST '' @ path @ '' HTTP/1.1'' @ CRLF @ ''Host: dstack'' @ CRLF @ ''Content-Type: application/json'' @ CRLF
     @ ''Content-Length: '' @ show_nat (length body) @ CRLF @ ''Connection: close'' @ CRLF @ CRLF @ body"

text \<open>What the two exchanges do on a connected socket.\<close>

definition agent_exchange ::
    "('s, 'w) unix_net \<Rightarrow> string \<Rightarrow> string \<Rightarrow> 's \<Rightarrow> 'w \<Rightarrow> (string, nat \<times> string) result \<times> 'w" where
  "agent_exchange N path body s w =
     then_io (ux_set_read_timeout N s REQUEST_TIMEOUT w) (\<lambda>_ w.
     then_io (ux_set_write_timeout N s REQUEST_TIMEOUT w) (\<lambda>_ w.
     then_io (ux_write_all N s (agent_request_text path body) w) (\<lambda>_ w.
     then_io (ux_shutdown_write N s w) (\<lambda>_ w.
     then_io (ux_read_to_end N s w) (\<lambda>response w. (parse_agent_response response, w))))))"

definition get_quote_at ::
    "crypto_ops \<Rightarrow> ('s, 'w) unix_net \<Rightarrow> (json \<Rightarrow> string) \<Rightarrow> (string \<Rightarrow> (string, quote_response) result)
     \<Rightarrow> string \<Rightarrow> string \<Rightarrow> 'w \<Rightarrow> (quote_error, quote_response) result \<times> 'w" where
  "get_quote_at ops N txt read_quote socket_path report_data w =
     (case normalize_report_data ops report_data of
        Inl e \<Rightarrow> (Inl e, w)
      | Inr normalized \<Rightarrow>
     (case ux_connect N socket_path w of
        (Inl e, w) \<Rightarrow> (Inl (QuoteSocketUnavailable socket_path e), w)
      | (Inr s, w) \<Rightarrow>
     (case agent_exchange N ''/GetQuote'' (txt (jobj [(''report_data'', JStr normalized)])) s w of
        (Inl e, w) \<Rightarrow> (Inl (QuoteIo e), w)
      | (Inr (status, body), w) \<Rightarrow>
          (if status \<noteq> 200 then Inl (QuoteHttpStatus status)
           else case read_quote body of
             Inl e \<Rightarrow> Inl (QuoteInvalidJson e)
           | Inr r \<Rightarrow> validate_quote_response r normalized, w))))"

definition get_quote ::
    "crypto_ops \<Rightarrow> ('s, 'w) unix_net \<Rightarrow> (json \<Rightarrow> string) \<Rightarrow> (string \<Rightarrow> (string, quote_response) result)
     \<Rightarrow> string \<Rightarrow> 'w \<Rightarrow> (quote_error, quote_response) result \<times> 'w" where
  "get_quote ops N txt read_quote report_data w =
     get_quote_at ops N txt read_quote DEFAULT_DSTACK_SOCKET report_data w"

text \<open>The Ed25519 crate: which keys it accepts and which signatures it verifies.\<close>

record ed25519 =
  ed_key_ok :: "string \<Rightarrow> bool"
  ed_verify :: "string \<Rightarrow> string \<Rightarrow> string \<Rightarrow> bool"

definition hex_field :: "string \<Rightarrow> nat \<Rightarrow> string \<Rightarrow> (sign_error, string) result" where
  "hex_field name n s =
     (case decode_hex s of
        Some bs \<Rightarrow> if length bs = n then Inr bs else Inl (InvalidField name)
      | None \<Rightarrow> Inl (InvalidField name))"

definition validate_sign_response :: "ed25519 \<Rightarrow> sign_response \<Rightarrow> (sign_error, sign_response) result" where
  "validate_sign_response E r =
     (if sg_signature r = [] then Inl (InvalidField ''signature'')
      else if sg_public_key r = [] then Inl (InvalidField ''public_key'')
      else bind_res (hex_field ''signature'' 64 (sg_signature r)) (\<lambda>_.
        bind_res (hex_field ''public_key'' 32 (sg_public_key r)) (\<lambda>key.
          if \<not> ed_key_ok E key then Inl (InvalidField ''public_key'')
          else Inr (r \<lparr> sg_signature := to_lower (sg_signature r),
                        sg_public_key := to_lower (sg_public_key r) \<rparr>))))"

definition sign_at ::
    "ed25519 \<Rightarrow> ('s, 'w) unix_net \<Rightarrow> (json \<Rightarrow> string) \<Rightarrow> (string \<Rightarrow> (string, sign_response) result)
     \<Rightarrow> string \<Rightarrow> string \<Rightarrow> 'w \<Rightarrow> (sign_error, sign_response) result \<times> 'w" where
  "sign_at E N txt read_sign socket_path payload w =
     (if payload = [] then (Inl EmptyPayload, w)
      else case ux_connect N socket_path w of
        (Inl e, w) \<Rightarrow> (Inl (SignSocketUnavailable e), w)
      | (Inr s, w) \<Rightarrow>
     (case agent_exchange N ''/Sign''
             (txt (jobj [(''algorithm'', JStr ''ed25519''), (''data'', JStr (hex_encode payload))])) s w of
        (Inl e, w) \<Rightarrow> (Inl (SignIo e), w)
      | (Inr (status, body), w) \<Rightarrow>
          (if status \<noteq> 200 then Inl (SignHttpStatus status)
           else case read_sign body of
             Inl e \<Rightarrow> Inl (SignInvalidJson e)
           | Inr r \<Rightarrow> validate_sign_response E r, w)))"

definition verify_signature :: "ed25519 \<Rightarrow> string \<Rightarrow> string \<Rightarrow> string \<Rightarrow> (sign_error, unit) result" where
  "verify_signature E pk_hex sig_hex message =
     bind_res (ok_or (decode_hex pk_hex) (InvalidField ''public_key'')) (\<lambda>key.
     bind_res (ok_or (decode_hex sig_hex) (InvalidField ''signature'')) (\<lambda>sig.
       if length key \<noteq> 32 then Inl (InvalidField ''public_key'')
       else if length sig \<noteq> 64 then Inl (InvalidField ''signature'')
       else if \<not> ed_key_ok E key then Inl (InvalidField ''public_key'')
       else if ed_verify E key message sig then Inr () else Inl (InvalidField ''signature'')))"

section \<open>What the structural check accepts\<close>

fun le_bytes :: "nat \<Rightarrow> nat \<Rightarrow> string" where
  "le_bytes 0 n = []"
| "le_bytes (Suc k) n = char_of (n mod 256) # le_bytes k (n div 256)"

lemma length_le_bytes [simp]: "length (le_bytes k n) = k"
  by (induction k arbitrary: n) auto

lemma le_value_bytes: "n < 256 ^ k \<Longrightarrow> le_value (le_bytes k n) = n"
  by (induction k arbitrary: n) (auto simp: less_mult_imp_div_less mult.commute)

lemma le_bytes_value: "le_bytes (length bs) (le_value bs) = bs"
  by (induction bs) (simp_all add: div_mult_self3)

lemma le_value_bound: "le_value bs < 256 ^ length bs"
proof (induction bs)
  case (Cons b bs)
  have "code b \<le> 255" using code_less_256[of b] by linarith
  with Cons show ?case by simp
qed simp

lemma le_field:
  "length bs = k \<Longrightarrow> le_value bs = n \<longleftrightarrow> bs = le_bytes k n \<and> n < 256 ^ k"
  by (metis le_bytes_value le_value_bound le_value_bytes)

lemma read_u16_append:
  "read_u16 (pre @ rest) (length pre) = Inr n \<longleftrightarrow> (\<exists>r. rest = le_bytes 2 n @ r) \<and> n < 256 ^ 2"
proof (cases "2 \<le> length rest")
  case True
  then have "rest = take 2 rest @ drop 2 rest" "length (take 2 rest) = 2" by auto
  with True show ?thesis
    by (auto simp: read_u16_def bytes_at_def le_field res_simps) (metis append_eq_conv_conj length_le_bytes)+
qed (auto simp: read_u16_def bytes_at_def res_simps)

lemma read_u32_append:
  "read_u32 (pre @ rest) (length pre) = Inr n \<longleftrightarrow> (\<exists>r. rest = le_bytes 4 n @ r) \<and> n < 256 ^ 4"
proof (cases "4 \<le> length rest")
  case True
  then have "rest = take 4 rest @ drop 4 rest" "length (take 4 rest) = 4" by auto
  with True show ?thesis
    by (auto simp: read_u32_def bytes_at_def le_field res_simps) (metis append_eq_conv_conj length_le_bytes)+
qed (auto simp: read_u32_def bytes_at_def res_simps)

text \<open>A quote, piece by piece.\<close>

record tdx_quote =
  tq_key_type :: string
  tq_header_rest :: string
  tq_report :: string
  tq_signature :: string
  tq_attestation_key :: string
  tq_qe_report :: string
  tq_qe_signature :: string
  tq_authentication :: string
  tq_certificates :: string
  tq_padding :: nat

definition certification_bytes :: "string \<Rightarrow> string" where
  "certification_bytes cert = le_bytes 2 5 @ le_bytes 4 (length cert) @ cert"

definition envelope_bytes :: "tdx_quote \<Rightarrow> string" where
  "envelope_bytes t = tq_qe_report t @ tq_qe_signature t @ le_bytes 2 (length (tq_authentication t))
     @ tq_authentication t @ certification_bytes (tq_certificates t)"

definition signature_bytes :: "tdx_quote \<Rightarrow> string" where
  "signature_bytes t = tq_signature t @ tq_attestation_key t @ le_bytes 2 6
     @ le_bytes 4 (length (envelope_bytes t)) @ envelope_bytes t"

definition quote_bytes :: "tdx_quote \<Rightarrow> string" where
  "quote_bytes t = le_bytes 2 4 @ tq_key_type t @ le_bytes 4 0x81 @ tq_header_rest t @ tq_report t
     @ le_bytes 4 (length (signature_bytes t)) @ signature_bytes t @ replicate (tq_padding t) (CHR 0x00)"

definition signature_wf :: "tdx_quote \<Rightarrow> bool" where
  "signature_wf t \<longleftrightarrow> length (tq_signature t) = 64 \<and> length (tq_attestation_key t) = 64
     \<and> length (tq_qe_report t) = 384 \<and> length (tq_qe_signature t) = 64
     \<and> length (tq_authentication t) < 256 ^ 2 \<and> tq_certificates t \<noteq> [] \<and> length (envelope_bytes t) < 256 ^ 4"

definition quote_wf :: "tdx_quote \<Rightarrow> bool" where
  "quote_wf t \<longleftrightarrow> length (tq_key_type t) = 2 \<and> length (tq_header_rest t) = 40 \<and> length (tq_report t) = 584
     \<and> signature_wf t \<and> length (signature_bytes t) < 256 ^ 4"

lemma validate_pck_iff:
  assumes "length pre + length rest \<le> USIZE_MAX"
  shows "validate_pck (pre @ rest) (length pre) (length (pre @ rest)) = Inr () \<longleftrightarrow>
     (\<exists>cert. rest = certification_bytes cert \<and> cert \<noteq> [] \<and> length cert < 256 ^ 4)"
proof
  assume v: "validate_pck (pre @ rest) (length pre) (length (pre @ rest)) = Inr ()"
  then obtain t n where t: "read_u16 (pre @ rest) (length pre) = Inr t"
    and n: "read_u32 (pre @ rest) (length pre + 2) = Inr n"
    by (auto simp: validate_pck_def res_simps)
  from t obtain r where r: "rest = le_bytes 2 t @ r" by (auto simp: read_u16_append)
  have "read_u32 ((pre @ le_bytes 2 t) @ r) (length (pre @ le_bytes 2 t)) = Inr n" using n r by simp
  then obtain cert where c: "r = le_bytes 4 n @ cert" "n < 256 ^ 4" by (auto simp only: read_u32_append)
  from v t n have "t = 5" "n \<noteq> 0" "length pre + 6 + n = length (pre @ rest)"
    by (auto simp: validate_pck_def res_simps layout add_usize_def split: if_splits)
  with r c show "\<exists>cert. rest = certification_bytes cert \<and> cert \<noteq> [] \<and> length cert < 256 ^ 4"
    by (auto simp: certification_bytes_def intro!: exI[of _ cert])
next
  assume "\<exists>cert. rest = certification_bytes cert \<and> cert \<noteq> [] \<and> length cert < 256 ^ 4"
  then obtain cert where r: "rest = le_bytes 2 5 @ le_bytes 4 (length cert) @ cert" "cert \<noteq> []" "length cert < 256 ^ 4"
    by (auto simp: certification_bytes_def)
  have t: "read_u16 (pre @ rest) (length pre) = Inr 5" by (simp add: read_u16_append r(1))
  have "read_u32 ((pre @ le_bytes 2 5) @ le_bytes 4 (length cert) @ cert) (length (pre @ le_bytes 2 5)) = Inr (length cert)"
    using r(3) by (auto simp only: read_u32_append)
  then have n: "read_u32 (pre @ rest) (length pre + 2) = Inr (length cert)" using r(1) by simp
  show "validate_pck (pre @ rest) (length pre) (length (pre @ rest)) = Inr ()"
    unfolding validate_pck_def t n bind_res.simps using assms r(1,2)
    by (auto simp: layout add_usize_def Suc_le_eq)
qed

lemma validate_authentication_iff:
  assumes "length pre + length rest \<le> USIZE_MAX"
  shows "validate_authentication (pre @ rest) (length pre) (length (pre @ rest)) = Inr () \<longleftrightarrow>
     (\<exists>auth cert. rest = le_bytes 2 (length auth) @ auth @ certification_bytes cert \<and> length auth < 256 ^ 2
        \<and> cert \<noteq> [] \<and> length cert < 256 ^ 4)"
proof
  assume v: "validate_authentication (pre @ rest) (length pre) (length (pre @ rest)) = Inr ()"
  then obtain n where n: "read_u16 (pre @ rest) (length pre) = Inr n"
    by (auto simp: validate_authentication_def res_simps)
  then obtain r where r: "rest = le_bytes 2 n @ r" "n < 256 ^ 2" by (auto simp: read_u16_append)
  from v n have len: "length pre + 2 + n + 6 \<le> length (pre @ rest)"
    and p: "validate_pck (pre @ rest) (length pre + 2 + n) (length (pre @ rest)) = Inr ()"
    by (auto simp: validate_authentication_def res_simps layout add_usize_def split: if_splits)
  from len r have nr: "n \<le> length r" by simp
  let ?pre = "pre @ le_bytes 2 n @ take n r"
  have e: "pre @ rest = ?pre @ drop n r" "length pre + 2 + n = length ?pre" using r nr by auto
  from p assms obtain cert where "drop n r = certification_bytes cert" "cert \<noteq> []" "length cert < 256 ^ 4"
    unfolding e by (subst (asm) validate_pck_iff) (use r nr in auto)
  then show "\<exists>auth cert. rest = le_bytes 2 (length auth) @ auth @ certification_bytes cert \<and> length auth < 256 ^ 2
        \<and> cert \<noteq> [] \<and> length cert < 256 ^ 4"
    using r nr by (intro exI[of _ "take n r"] exI[of _ cert]) (auto, metis append_take_drop_id)
next
  assume "\<exists>auth cert. rest = le_bytes 2 (length auth) @ auth @ certification_bytes cert \<and> length auth < 256 ^ 2
        \<and> cert \<noteq> [] \<and> length cert < 256 ^ 4"
  then obtain auth cert where r: "rest = le_bytes 2 (length auth) @ auth @ certification_bytes cert"
    "length auth < 256 ^ 2" "cert \<noteq> []" "length cert < 256 ^ 4" by blast
  have n: "read_u16 (pre @ rest) (length pre) = Inr (length auth)" using r by (simp add: read_u16_append)
  let ?pre = "pre @ le_bytes 2 (length auth) @ auth"
  have e: "pre @ rest = ?pre @ certification_bytes cert" "length pre + 2 + length auth = length ?pre" using r by auto
  have p: "validate_pck (pre @ rest) (length pre + 2 + length auth) (length (pre @ rest)) = Inr ()"
    unfolding e using assms r by (subst validate_pck_iff) auto
  have "6 \<le> length (certification_bytes cert)" by (simp add: certification_bytes_def)
  then have l: "length pre + 2 + length auth + 6 \<le> length (pre @ rest)" using r(1) by simp
  then have a: "add_usize (length pre + AUTHENTICATION_DATA_LENGTH_BYTES) (length auth) what
      = Inr (length pre + 2 + length auth)" for what
    using assms by (simp add: add_usize_def layout)
  show "validate_authentication (pre @ rest) (length pre) (length (pre @ rest)) = Inr ()"
    unfolding validate_authentication_def n bind_res.simps a p using l by (simp add: layout)
qed

lemma validate_signature_data_iff:
  assumes "length sd \<le> USIZE_MAX"
  shows "validate_signature_data sd = Inr () \<longleftrightarrow> (\<exists>t. signature_wf t \<and> sd = signature_bytes t)"
proof
  assume v: "validate_signature_data sd = Inr ()"
  then obtain t n where t: "read_u16 sd 128 = Inr t" and n: "read_u32 sd 130 = Inr n"
    by (auto simp: validate_signature_data_def res_simps layout Let_def)
  from t have "128 \<le> length sd" by (auto simp: read_u16_def bytes_at_def res_simps split: if_splits)
  then obtain pre rest where sd: "sd = pre @ rest" "length pre = 128"
    by (metis append_take_drop_id length_take min.absorb2)
  from t sd obtain r where r: "rest = le_bytes 2 t @ r" using read_u16_append[of pre rest t] by auto
  have "read_u32 ((pre @ le_bytes 2 t) @ r) (length (pre @ le_bytes 2 t)) = Inr n" using n r sd by simp
  then obtain env where c: "r = le_bytes 4 n @ env" "n < 256 ^ 4" by (auto simp only: read_u32_append)
  from v t n have w: "t = 6" "134 + n = length sd" "457 \<le> n"
    and a: "validate_authentication sd 582 (length sd) = Inr ()"
    by (auto simp: validate_signature_data_def res_simps layout add_usize_def Let_def split: if_splits)
  from w sd r c have n_env: "length env = n" by simp
  let ?pre = "pre @ le_bytes 2 t @ le_bytes 4 n @ take 448 env"
  have e: "sd = ?pre @ drop 448 env" "582 = length ?pre" using sd r c n_env w by auto
  have "validate_authentication (?pre @ drop 448 env) (length ?pre) (length (?pre @ drop 448 env)) = Inr ()"
    using a unfolding e(2) e(1)[symmetric] .
  then obtain auth cert where d: "drop 448 env = le_bytes 2 (length auth) @ auth @ certification_bytes cert"
    and wf: "length auth < 256 ^ 2" "cert \<noteq> []"
    using validate_authentication_iff[of ?pre "drop 448 env"] assms e(1) by (auto simp del: append_assoc)
  let ?t = "\<lparr> tq_key_type = [], tq_header_rest = [], tq_report = [], tq_signature = take 64 pre,
    tq_attestation_key = drop 64 pre, tq_qe_report = take 384 env, tq_qe_signature = take 64 (drop 384 env),
    tq_authentication = auth, tq_certificates = cert, tq_padding = 0 \<rparr>"
  have "drop 448 env = drop 64 (drop 384 env)" by simp
  then have env: "env = take 384 env @ take 64 (drop 384 env) @ drop 448 env" by (metis append_take_drop_id)
  then have eb: "envelope_bytes ?t = env" using d by (simp add: envelope_bytes_def)
  have "sd = signature_bytes ?t"
    by (simp add: signature_bytes_def eb n_env sd r c w(1))
  moreover have "signature_wf ?t" using sd wf c n_env w by (simp add: signature_wf_def eb)
  ultimately show "\<exists>t. signature_wf t \<and> sd = signature_bytes t" by blast
next
  assume "\<exists>t. signature_wf t \<and> sd = signature_bytes t"
  then obtain t where wf: "signature_wf t" and sd: "sd = signature_bytes t" by blast
  let ?env = "envelope_bytes t" and ?pre = "tq_signature t @ tq_attestation_key t"
  have l: "length ?pre = 128" using wf by (simp add: signature_wf_def)
  have s0: "sd = ?pre @ le_bytes 2 6 @ le_bytes 4 (length ?env) @ ?env" by (simp add: sd signature_bytes_def)
  have t: "read_u16 sd 128 = Inr 6" using read_u16_append[of ?pre "le_bytes 2 6 @ le_bytes 4 (length ?env) @ ?env" 6] l s0 by simp
  have n: "read_u32 sd 130 = Inr (length ?env)"
    using read_u32_append[of "?pre @ le_bytes 2 6" "le_bytes 4 (length ?env) @ ?env" "length ?env"] l s0 wf
    by (simp add: signature_wf_def)
  let ?p = "?pre @ le_bytes 2 6 @ le_bytes 4 (length ?env) @ tq_qe_report t @ tq_qe_signature t"
  let ?r = "le_bytes 2 (length (tq_authentication t)) @ tq_authentication t @ certification_bytes (tq_certificates t)"
  have s1: "sd = ?p @ ?r" by (simp add: s0 envelope_bytes_def)
  have lp: "length ?p = 582" using wf by (simp add: signature_wf_def)
  have cl: "length (tq_certificates t) < 256 ^ 4"
    using wf by (simp add: signature_wf_def envelope_bytes_def certification_bytes_def)
  have "validate_authentication (?p @ ?r) (length ?p) (length (?p @ ?r)) = Inr ()"
    by (rule iffD2[OF validate_authentication_iff]) (use assms s1 wf cl in \<open>auto simp: signature_wf_def simp del: append_assoc\<close>)
  then have a: "validate_authentication sd 582 (length sd) = Inr ()" unfolding s1[symmetric] lp .
  have len: "134 + length ?env = length sd" using l s0 by simp
  have min: "457 \<le> length ?env"
    using wf by (cases "tq_certificates t") (auto simp: signature_wf_def envelope_bytes_def certification_bytes_def)
  show "validate_signature_data sd = Inr ()"
    using len min assms a by (simp add: validate_signature_data_def layout add_usize_def t n)
qed

lemma all_zero: "\<not> list_ex (\<lambda>b. b \<noteq> CHR 0x00) s \<longleftrightarrow> s = replicate (length s) (CHR 0x00)"
  by (induction s) auto

lemma quote_head:
  assumes "quote_wf t"
  shows "quote_bytes t = (le_bytes 2 4 @ tq_key_type t @ le_bytes 4 0x81 @ tq_header_rest t @ tq_report t)
       @ le_bytes 4 (length (signature_bytes t)) @ signature_bytes t @ replicate (tq_padding t) (CHR 0x00)"
    and "length (le_bytes 2 4 @ tq_key_type t @ le_bytes 4 0x81 @ tq_header_rest t @ tq_report t) = 632"
  using assms by (simp_all add: quote_bytes_def quote_wf_def)

lemma validate_complete:
  assumes "quote_wf t" "length (quote_bytes t) \<le> USIZE_MAX"
  shows "validate_tdx_v4_quote (quote_bytes t) = Inr ()"
proof -
  let ?q = "quote_bytes t" and ?sd = "signature_bytes t"
  note h = quote_head[OF assms(1)]
  have k: "length (tq_key_type t) = 2" using assms(1) by (simp add: quote_wf_def)
  have n: "read_u32 ?q 632 = Inr (length ?sd)"
    using read_u32_append[of _ "le_bytes 4 (length ?sd) @ ?sd @ replicate (tq_padding t) (CHR 0x00)" "length ?sd"] h assms(1)
    by (metis (no_types, lifting) quote_wf_def)
  have lq: "length ?q = 636 + length ?sd + tq_padding t" unfolding h(1) length_append h(2)[simplified] using h(2) by simp
  have "457 \<le> length (envelope_bytes t)"
    using assms(1) by (cases "tq_certificates t")
      (auto simp: quote_wf_def signature_wf_def envelope_bytes_def certification_bytes_def)
  then have min: "591 \<le> length ?sd" using assms(1) by (simp add: quote_wf_def signature_wf_def signature_bytes_def)
  have v: "take 2 ?q = le_bytes 2 4" by (simp add: quote_bytes_def)
  have ty: "take 4 (drop 4 ?q) = le_bytes 4 0x81" using k by (simp add: quote_bytes_def)
  have lv: "le_value (le_bytes 2 4) = 4" "le_value (le_bytes 4 0x81) = 0x81" by (simp_all add: le_value_bytes)
  have d: "drop 636 ?q = ?sd @ replicate (tq_padding t) (CHR 0x00)"
  proof -
    have "drop 636 ?q = drop 4 (drop 632 ?q)" by simp
    also have "drop 632 ?q = le_bytes 4 (length ?sd) @ ?sd @ replicate (tq_padding t) (CHR 0x00)"
      unfolding h(1) using h(2) by simp
    finally show ?thesis by simp
  qed
  have "drop (636 + length ?sd) ?q = drop (length ?sd) (drop 636 ?q)" by (simp add: add.commute)
  then have z: "drop (636 + length ?sd) ?q = replicate (tq_padding t) (CHR 0x00)" unfolding d by simp
  have z': "\<not> list_ex (\<lambda>b. b \<noteq> CHR 0x00) (drop (636 + length ?sd) ?q)" unfolding z by (simp add: list_ex_iff)
  have sd: "validate_signature_data ?sd = Inr ()"
    using validate_signature_data_iff[of ?sd] lq assms by (auto simp: quote_wf_def)
  have a: "add_usize 636 (length ?sd) what = Inr (636 + length ?sd)" for what
    using lq assms(2) by (simp add: add_usize_def)
  have t: "take (636 + length ?sd - 636) (drop 636 ?q) = ?sd" unfolding d by simp
  have o: "SIGNATURE_DATA_LENGTH_OFFSET = 632" "SIGNATURE_DATA_OFFSET = 636" "MIN_QUOTE_BYTES = 1227"
    "MIN_SIGNATURE_DATA_BYTES = 591" "QUOTE_VERSION = 4" "TDX_TEE_TYPE = 0x81" by (simp_all add: layout)
  have c: "\<not> length ?q < 1227" "\<not> length ?sd < 591" "\<not> length ?q < 636 + length ?sd" using lq min by simp_all
  show ?thesis unfolding validate_tdx_v4_quote_def o v ty lv n bind_res.simps a t sd using c z' by simp
qed

lemma validate_sound:
  assumes "validate_tdx_v4_quote q = Inr ()" "length q \<le> USIZE_MAX"
  obtains t where "quote_wf t" "q = quote_bytes t"
proof -
  from assms(1) obtain n where n: "read_u32 q 632 = Inr n"
    by (auto simp: validate_tdx_v4_quote_def res_simps layout split: if_splits)
  from assms(1) n have c: "1227 \<le> length q" "le_value (take 2 q) = 4" "le_value (take 4 (drop 4 q)) = 0x81"
    and e: "636 + n \<le> length q" "\<not> list_ex (\<lambda>b. b \<noteq> CHR 0x00) (drop (636 + n) q)"
    and s: "validate_signature_data (take n (drop 636 q)) = Inr ()"
    by (auto simp: validate_tdx_v4_quote_def res_simps layout add_usize_def split: if_splits)
  have "length (take n (drop 636 q)) \<le> USIZE_MAX" using assms(2) by simp
  then obtain t where t: "signature_wf t" "take n (drop 636 q) = signature_bytes t"
    using s validate_signature_data_iff by blast
  have ln: "length (signature_bytes t) = n" unfolding t(2)[symmetric] using e by simp
  let ?t = "t \<lparr> tq_key_type := take 2 (drop 2 q), tq_header_rest := take 40 (drop 8 q),
    tq_report := take 584 (drop 48 q), tq_padding := length q - (636 + n) \<rparr>"
  have same: "signature_bytes ?t = signature_bytes t" "signature_wf ?t = signature_wf t" "envelope_bytes ?t = envelope_bytes t"
    by (simp_all add: signature_bytes_def envelope_bytes_def signature_wf_def)
  have n4: "n < 256 ^ 4" "take 4 (drop 632 q) = le_bytes 4 n"
  proof -
    have "read_u32 (take 632 q @ drop 632 q) (length (take 632 q)) = Inr n" using n c by simp
    then obtain r where "drop 632 q = le_bytes 4 n @ r" "n < 256 ^ 4" by (auto simp only: read_u32_append)
    then show "n < 256 ^ 4" "take 4 (drop 632 q) = le_bytes 4 n" by simp_all
  qed
  have v: "take 2 q = le_bytes 2 4" "take 4 (drop 4 q) = le_bytes 4 0x81"
    using c le_field[of "take 2 q" 2 4] le_field[of "take 4 (drop 4 q)" 4 "0x81"] by simp_all
  have pad: "drop (636 + n) q = replicate (length q - (636 + n)) (CHR 0x00)"
    using e(2) unfolding all_zero by simp
  have cut: "drop a q = take b (drop a q) @ drop (a + b) q" for a b
    by (metis append_take_drop_id drop_drop add.commute)
  have "q = take 2 q @ take 2 (drop 2 q) @ take 4 (drop 4 q) @ take 40 (drop 8 q) @ take 584 (drop 48 q)
      @ take 4 (drop 632 q) @ take n (drop 636 q) @ drop (636 + n) q"
    using cut[of 0 2] cut[of 2 2] cut[of 4 4] cut[of 8 40] cut[of 48 584] cut[of 632 4] cut[of 636 n]
    by simp
  then have "q = quote_bytes ?t"
    unfolding v n4(2) t(2) pad by (simp add: quote_bytes_def same ln)
  moreover have "quote_wf ?t"
    using c t(1) n4(1) ln by (simp add: quote_wf_def same)
  ultimately show ?thesis using that by blast
qed

text \<open>
  C16: The structural check accepts exactly the TDX v4 quotes: a byte string passes if and only if it is the
  layout of some well-formed quote, each length field stating the length of what follows it, with nothing but
  zero bytes behind.
\<close>

theorem quote_check_exact:
  assumes "length q \<le> USIZE_MAX"
  shows "validate_tdx_v4_quote q = Inr () \<longleftrightarrow> (\<exists>t. quote_wf t \<and> q = quote_bytes t)"
  using validate_complete validate_sound[OF _ assms] assms by metis

definition demo_tdx :: tdx_quote where
  "demo_tdx = \<lparr> tq_key_type = replicate 2 (CHR 0x00), tq_header_rest = replicate 40 (CHR 0x00),
     tq_report = replicate 584 (CHR 0x00), tq_signature = replicate 64 (CHR 0x00),
     tq_attestation_key = replicate 64 (CHR 0x00), tq_qe_report = replicate 384 (CHR 0x00),
     tq_qe_signature = replicate 64 (CHR 0x00), tq_authentication = ''auth'', tq_certificates = ''pem'', tq_padding = 2 \<rparr>"

lemma demo_tdx_wf: "quote_wf demo_tdx" "length (quote_bytes demo_tdx) = 1235"
  by (simp_all add: quote_wf_def demo_tdx_def signature_wf_def signature_bytes_def envelope_bytes_def
      certification_bytes_def quote_bytes_def)

theorem quote_check_exact_witness: "validate_tdx_v4_quote (quote_bytes demo_tdx) = Inr ()"
  using quote_check_exact[of "quote_bytes demo_tdx"] demo_tdx_wf by (auto simp: USIZE_MAX_def)

section \<open>What the agent's answers guarantee\<close>

lemma hex_nibble_char: "n < 16 \<Longrightarrow> hex_nibble (hex_char n) = Some n"
  using code_hex_char[of n] by (auto simp: hex_nibble_def is_digit_def)

lemma decode_hex_encode: "decode_hex (hex_encode bs) = Some bs"
proof -
  have "code b div 16 < 16" for b using less_mult_imp_div_less[of "code b" 16 16] code_less_256[of b] by simp
  then have "decode_hex_pairs (hex_encode bs) = Some bs"
    by (induction bs) (simp_all add: hex_encode_Cons hex_nibble_char)
  then show ?thesis by (simp add: decode_hex_def length_hex_encode)
qed

lemma decode_hex_length: "decode_hex s = Some bs \<Longrightarrow> length s = 2 * length bs"
proof -
  have "decode_hex_pairs s = Some bs \<Longrightarrow> even (length s) \<Longrightarrow> length s = 2 * length bs" for s bs
    by (induction s arbitrary: bs rule: decode_hex_pairs.induct) (auto split: option.splits)
  then show "decode_hex s = Some bs \<Longrightarrow> length s = 2 * length bs" by (auto simp: decode_hex_def split: if_splits)
qed

lemma trim_hex: "trim (hex_encode bs) = hex_encode bs"
  by (rule trim_lower_hex[OF hex_encode_lower_hex])

lemma normalize_report_data_field:
  assumes "length bs = 64"
  shows "normalize_report_data ops (hex_encode bs) = Inr (hex_encode bs)"
proof -
  have "hex_encode bs \<noteq> []" using assms by (cases bs) (auto simp: hex_encode_Cons)
  moreover have "list_all is_hex_digit (hex_encode bs)"
    using hex_encode_lower_hex[of bs] by (auto simp: list_all_iff intro: lower_hex_digit)
  ultimately show ?thesis
    using assms by (simp add: normalize_report_data_def trim_hex decode_hex_encode length_hex_encode layout Let_def)
qed

lemma slice_report:
  assumes "quote_wf t" "b \<le> 584"
  shows "slice (quote_bytes t) (48 + a) (48 + b) = slice (tq_report t) a b"
proof -
  let ?h = "le_bytes 2 4 @ tq_key_type t @ le_bytes 4 0x81 @ tq_header_rest t"
  let ?s = "le_bytes 4 (length (signature_bytes t)) @ signature_bytes t @ replicate (tq_padding t) (CHR 0x00)"
  have q: "quote_bytes t = ?h @ tq_report t @ ?s" "length ?h = 48" "length (tq_report t) = 584"
    using assms(1) by (simp_all add: quote_bytes_def quote_wf_def)
  have "drop (48 + a) (quote_bytes t) = drop a (tq_report t @ ?s)" unfolding q(1) using q(2) by simp
  then show ?thesis using assms(2) q(3) by (auto simp: slice_def)
qed

definition measurement_of :: "string \<Rightarrow> tdx_measurement" where
  "measurement_of report = \<lparr> tm_mrtd = hex_encode (slice report 136 184), tm_rtmr0 = hex_encode (slice report 328 376),
     tm_rtmr1 = hex_encode (slice report 376 424), tm_rtmr2 = hex_encode (slice report 424 472),
     tm_rtmr3 = hex_encode (slice report 472 520) \<rparr>"

lemma quote_fields:
  assumes "quote_wf t" "length (quote_bytes t) \<le> USIZE_MAX" "decode_hex h = Some (quote_bytes t)"
  shows "quote_measurement h = Inr (measurement_of (tq_report t))"
    and "quote_report_data h = Inr (hex_encode (drop 520 (tq_report t)))"
proof -
  note v = validate_complete[OF assms(1,2)]
  have l: "length (tq_report t) = 584" using assms(1) by (simp add: quote_wf_def)
  show "quote_measurement h = Inr (measurement_of (tq_report t))"
    using slice_report[OF assms(1), of 184 136] slice_report[OF assms(1), of 376 328] slice_report[OF assms(1), of 424 376]
      slice_report[OF assms(1), of 472 424] slice_report[OF assms(1), of 520 472]
    unfolding quote_measurement_def assms(3) ok_or.simps bind_res.simps v measurement_of_def by simp
  have "slice (tq_report t) 520 584 = drop 520 (tq_report t)" by (simp add: slice_def l)
  then show "quote_report_data h = Inr (hex_encode (drop 520 (tq_report t)))"
    using slice_report[OF assms(1), of 584 520] by (simp add: quote_report_data_def assms(3) v layout)
qed

lemma get_quote_validated:
  assumes "get_quote_at ops N txt read_quote path rd w = (Inr r, w')"
  obtains n r0 where "normalize_report_data ops rd = Inr n" "validate_quote_response r0 n = Inr r"
  using assms by (auto simp: get_quote_at_def split: sum.splits prod.splits if_splits)

lemma get_quote_bound:
  assumes "get_quote_at ops N txt read_quote path rd w = (Inr r, w')" "length (qr_quote r) \<le> USIZE_MAX"
  shows "\<exists>n t. normalize_report_data ops rd = Inr n \<and> qr_report_data r = n
     \<and> (\<forall>bs. length bs = 64 \<and> rd = hex_encode bs \<longrightarrow> n = rd)
     \<and> quote_wf t \<and> qr_quote r = hex_encode (quote_bytes t) \<and> n = hex_encode (drop 520 (tq_report t))
     \<and> quote_measurement (qr_quote r) = Inr (measurement_of (tq_report t))"
proof -
  from assms(1) obtain n r0 where n: "normalize_report_data ops rd = Inr n" and v: "validate_quote_response r0 n = Inr r"
    by (rule get_quote_validated)
  from v obtain q where q: "decode_hex (qr_quote r0) = Some q" "validate_tdx_v4_quote q = Inr ()"
    and r: "qr_quote r = hex_encode q" "qr_report_data r = n" "quote_report_data (qr_quote r0) = Inr n"
    by (auto simp: validate_quote_response_def res_simps Let_def split: if_splits)
  have l: "length q \<le> USIZE_MAX" using assms(2) r(1) by (simp add: length_hex_encode)
  from validate_sound[OF q(2) l] obtain t where t: "quote_wf t" "q = quote_bytes t" by blast
  have lt: "length (quote_bytes t) \<le> USIZE_MAX" using l t(2) by simp
  have "n = hex_encode (drop 520 (tq_report t))"
    using quote_fields(2)[OF t(1) lt, of "qr_quote r0"] q(1) r(3) t(2) by simp
  moreover have "quote_measurement (qr_quote r) = Inr (measurement_of (tq_report t))"
    using quote_fields(1)[OF t(1) lt] r(1) t(2) by (simp add: decode_hex_encode)
  moreover have "n = rd" if "length bs = 64" "rd = hex_encode bs" for bs
    using n normalize_report_data_field[OF that(1), of ops] that(2) by simp
  ultimately show ?thesis using n r t by blast
qed

text \<open>
  A quote that the guest agent's answer passes on is bound to what was asked. Whatever the agent sends,
  a returned quote is a well-formed TDX v4 quote whose report data is the submitted value in its normal
  form, which for a value of 64 bytes is that value; the measurement is read from the same report, and
  reading it never fails.
\<close>

theorem quote_binds_report_data:
  assumes "get_quote_at ops N txt read_quote path rd w = (Inr r, w')" "length (qr_quote r) \<le> USIZE_MAX"
  shows "\<exists>n t. normalize_report_data ops rd = Inr n \<and> qr_report_data r = n
     \<and> (\<forall>bs. length bs = 64 \<and> rd = hex_encode bs \<longrightarrow> n = rd)
     \<and> quote_wf t \<and> qr_quote r = hex_encode (quote_bytes t) \<and> n = hex_encode (drop 520 (tq_report t))
     \<and> quote_measurement (qr_quote r) = Inr (measurement_of (tq_report t))"
  using assms by (rule get_quote_bound)

definition demo_quote_response :: quote_response where
  "demo_quote_response = \<lparr> qr_quote = hex_encode (quote_bytes demo_tdx), qr_event_log = JArr [JNum 1],
     qr_report_data = hex_encode (replicate 64 (CHR 0x00)), qr_vm_config = JStr ''vm'' \<rparr>"

definition demo_agent :: "(unit, unit) unix_net" where
  "demo_agent = \<lparr> ux_connect = (\<lambda>_ w. (Inr (), w)), ux_set_read_timeout = (\<lambda>_ _ w. (Inr (), w)),
     ux_set_write_timeout = (\<lambda>_ _ w. (Inr (), w)), ux_write_all = (\<lambda>_ _ w. (Inr (), w)),
     ux_shutdown_write = (\<lambda>_ w. (Inr (), w)),
     ux_read_to_end = (\<lambda>_ w. (Inr (''HTTP/1.1 200 OK'' @ CRLF @ ''Server: d'' @ CRLF @ CRLF @ ''{}''), w)) \<rparr>"

lemma demo_agent_exchange: "agent_exchange demo_agent path body () () = (Inr (200, ''{}''), ())"
proof -
  have "parse_agent_response (''HTTP/1.1 200 OK'' @ CRLF @ ''Server: d'' @ CRLF @ CRLF @ ''{}'') = Inr (200, ''{}'')"
  proof -
    have "split_once_str (CRLF @ CRLF) (''HTTP/1.1 200 OK'' @ CRLF @ ''Server: d'' @ CRLF @ CRLF @ ''{}'')
        = Some (''HTTP/1.1 200 OK'' @ CRLF @ ''Server: d'', ''{}'')" by code_simp
    moreover have "position (\<lambda>c. c = CHR 0x0D) (''HTTP/1.1 200 OK'' @ CRLF @ ''Server: d'') = Some 15" by code_simp
    moreover have "take 15 (''HTTP/1.1 200 OK'' @ CRLF @ ''Server: d'') = ''HTTP/1.1 200 OK''" by code_simp
    moreover have "utf8_ok ''HTTP/1.1 200 OK''" by (rule utf8_ok_ascii) code_simp
    moreover have "split_whitespace ''HTTP/1.1 200 OK'' = [''HTTP/1.1'', ''200'', ''OK'']" by code_simp
    moreover have "parse_unsigned 10 65535 ''200'' = Some 200"
      by (simp add: parse_unsigned_def digit_val_def is_digit_def)
    ultimately show ?thesis unfolding parse_agent_response_def by (simp del: append.simps)
  qed
  then show ?thesis by (simp add: agent_exchange_def demo_agent_def)
qed

lemma demo_get_quote:
  "get_quote_at ops demo_agent write (\<lambda>_. Inr demo_quote_response) DEFAULT_DSTACK_SOCKET
     (hex_encode (replicate 64 (CHR 0x00))) () = (Inr demo_quote_response, ())"
proof -
  have l: "length (quote_bytes demo_tdx) \<le> USIZE_MAX" by (simp add: demo_tdx_wf(2) USIZE_MAX_def)
  have d: "decode_hex (hex_encode (quote_bytes demo_tdx)) = Some (quote_bytes demo_tdx)" by (rule decode_hex_encode)
  have e: "quote_report_data (hex_encode (quote_bytes demo_tdx)) = Inr (hex_encode (replicate 64 (CHR 0x00)))"
    using quote_fields(2)[OF demo_tdx_wf(1) l d] by (simp add: demo_tdx_def)
  have n: "hex_encode (quote_bytes demo_tdx) \<noteq> []"
    using demo_tdx_wf(2) length_hex_encode[of "quote_bytes demo_tdx"] by auto
  have low: "to_lower (hex_encode bs) = hex_encode bs" for bs
    using hex_encode_lower_hex[of bs] by (auto simp: to_lower_fixed_iff list_all_iff dest: lower_hex_not_upper)
  have "validate_quote_response demo_quote_response (hex_encode (replicate 64 (CHR 0x00))) = Inr demo_quote_response"
    unfolding validate_quote_response_def demo_quote_response_def
    by (simp add: missing_json_def d e n low validate_complete[OF demo_tdx_wf(1) l] Let_def)
  moreover have "ux_connect demo_agent DEFAULT_DSTACK_SOCKET () = (Inr (), ())" by (simp add: demo_agent_def)
  ultimately show ?thesis by (simp add: get_quote_at_def normalize_report_data_field demo_agent_exchange)
qed

theorem quote_binds_report_data_witness:
  "\<exists>t. quote_wf t \<and> qr_quote demo_quote_response = hex_encode (quote_bytes t)
     \<and> hex_encode (drop 520 (tq_report t)) = hex_encode (replicate 64 (CHR 0x00))"
proof -
  have "length (qr_quote demo_quote_response) \<le> USIZE_MAX"
    by (simp add: demo_quote_response_def length_hex_encode demo_tdx_wf(2) USIZE_MAX_def)
  from quote_binds_report_data[OF demo_get_quote[of demo_ops "\<lambda>_. []"] this] obtain n t where "quote_wf t"
    "qr_quote demo_quote_response = hex_encode (quote_bytes t)" "qr_report_data demo_quote_response = n"
    "n = hex_encode (drop 520 (tq_report t))" by blast
  moreover have "qr_report_data demo_quote_response = hex_encode (replicate 64 (CHR 0x00))"
    by (simp only: demo_quote_response_def quote_response.simps)
  ultimately show ?thesis by metis
qed

text \<open>A signature that the agent returned is checked against the proof by the cryptography alone.\<close>

lemma decode_hex_to_lower: "decode_hex (to_lower s) = decode_hex s"
proof -
  have c: "hex_nibble (lower_char c) = hex_nibble c" for c
    by (auto simp: hex_nibble_def code_lower_char is_digit_def is_upper_def)
  have "decode_hex_pairs (map lower_char s) = decode_hex_pairs s" for s
    by (induction s rule: decode_hex_pairs.induct) (simp_all add: c)
  then show ?thesis by (simp add: decode_hex_def to_lower_def)
qed

lemma sign_at_fields:
  assumes "sign_at E N txt read_sign path payload w = (Inr r, w')"
  obtains key sig where "decode_hex (sg_public_key r) = Some key" "length key = 32" "ed_key_ok E key"
    "decode_hex (sg_signature r) = Some sig" "length sig = 64" "payload \<noteq> []"
proof -
  from assms obtain r0 where "validate_sign_response E r0 = Inr r" and p: "payload \<noteq> []"
    by (auto simp: sign_at_def split: sum.splits prod.splits if_splits)
  then show ?thesis
    by (auto simp: validate_sign_response_def hex_field_def res_simps decode_hex_to_lower split: option.splits if_splits
        intro: that)
qed

lemma verify_signature_of_sign:
  assumes "sign_at E N txt read_sign path payload w = (Inr r, w')"
  shows "verify_signature E (sg_public_key r) (sg_signature r) m =
     (if ed_verify E (the (decode_hex (sg_public_key r))) m (the (decode_hex (sg_signature r)))
      then Inr () else Inl (InvalidField ''signature''))"
proof -
  obtain key sig where k: "decode_hex (sg_public_key r) = Some key" "length key = 32" "ed_key_ok E key"
    "decode_hex (sg_signature r) = Some sig" "length sig = 64" by (rule sign_at_fields[OF assms])
  show ?thesis unfolding verify_signature_def k(1,4) ok_or.simps bind_res.simps option.sel using k(2,3,5) by simp
qed

end
