(* ===== verification/Scrape_Attest.thy ===== *)
theory Scrape_Attest
  imports Attestation Canonical
begin

text \<open>
  The end of \<^verbatim>\<open>scrape\<close> in \<^verbatim>\<open>basecrawl-core/src/lib.rs\<close>: a proof is completed with the enclave's key, a
  quote that commits to it, and a signature over the completed proof.
\<close>

record ('s, 'w) guest_agent =
  ga_net :: "('s, 'w) unix_net"
  ga_keys :: ed25519
  ga_read_quote :: "string \<Rightarrow> (string, quote_response) result"
  ga_read_sign :: "string \<Rightarrow> (string, sign_response) result"

definition SIGNING_KEY_PROBE :: string where
  "SIGNING_KEY_PROBE = ''basecrawl/enclave-signing-key/v1''"

definition agent_sign ::
    "('s, 'w) guest_agent \<Rightarrow> (json \<Rightarrow> string) \<Rightarrow> string \<Rightarrow> 'w \<Rightarrow> (core_error, sign_response) result \<times> 'w" where
  "agent_sign A write payload w =
     (case sign_at (ga_keys A) (ga_net A) write (ga_read_sign A) DEFAULT_DSTACK_SOCKET payload w of
        (Inl e, w) \<Rightarrow> (Inl (core_error.Attestation (''guest-agent signing request failed: '' @ sign_error_text e)), w)
      | (Inr r, w) \<Rightarrow> (Inr r, w))"

definition agent_quote ::
    "crypto_ops \<Rightarrow> ('s, 'w) guest_agent \<Rightarrow> (json \<Rightarrow> string) \<Rightarrow> string \<Rightarrow> 'w
     \<Rightarrow> (core_error, quote_response \<times> tdx_measurement) result \<times> 'w" where
  "agent_quote ops A write report_data w =
     (case get_quote ops (ga_net A) write (ga_read_quote A) report_data w of
        (Inl e, w) \<Rightarrow> (Inl (core_error.Attestation (''guest-agent quote request failed: '' @ quote_error_text e)), w)
      | (Inr q, w) \<Rightarrow>
          (case quote_measurement (qr_quote q) of
             Inl e \<Rightarrow> Inl (core_error.Attestation (''guest-agent quote is malformed: '' @ quote_error_text e))
           | Inr m \<Rightarrow> Inr (q, m), w))"

definition with_pubkey :: "string \<Rightarrow> scrape_proof \<Rightarrow> scrape_proof" where
  "with_pubkey key p =
     p \<lparr> sp_sdk_signature := (sp_sdk_signature p) \<lparr> ss_enclave_pubkey := Some key \<rparr> \<rparr>"

definition with_quote :: "quote_response \<Rightarrow> tdx_measurement \<Rightarrow> scrape_proof \<Rightarrow> scrape_proof" where
  "with_quote q m p =
     p \<lparr> sp_attestation := \<lparr> at_tee_type = Some ''tdx'', at_quote = Some (qr_quote q), at_measurement = Some m,
                            at_report_data = Some (qr_report_data q) \<rparr> \<rparr>"

definition with_signature :: "string \<Rightarrow> scrape_proof \<Rightarrow> scrape_proof" where
  "with_signature s p = p \<lparr> sp_sdk_signature := (sp_sdk_signature p) \<lparr> ss_sig := Some s \<rparr> \<rparr>"

text \<open>The checks after the second signing call.\<close>

definition seal_signature ::
    "ed25519 \<Rightarrow> (json \<Rightarrow> string) \<Rightarrow> (f64 \<Rightarrow> json) \<Rightarrow> sign_response \<Rightarrow> scrape_proof \<Rightarrow> (core_error, scrape_proof) result" where
  "seal_signature E write f64_json sign p =
     (case ss_enclave_pubkey (sp_sdk_signature p) of
        None \<Rightarrow> Inl (EnclaveSignature ''missing enclave public key'')
      | Some key \<Rightarrow>
          if sg_public_key sign \<noteq> key
          then Inl (EnclaveSignature ''guest-agent signing key changed during proof assembly'')
          else let p = with_signature (sg_signature sign) p in
            (case verify_signature E key (sg_signature sign) (to_canonical_signing_json write f64_json p) of
               Inl e \<Rightarrow> Inl (EnclaveSignature (sign_error_text e))
             | Inr _ \<Rightarrow> Inr p))"

definition attest_proof ::
    "crypto_ops \<Rightarrow> ('s, 'w) guest_agent \<Rightarrow> (json \<Rightarrow> string) \<Rightarrow> (f64 \<Rightarrow> json) \<Rightarrow> scrape_proof \<Rightarrow> 'w
     \<Rightarrow> (core_error, scrape_proof) result \<times> 'w" where
  "attest_proof ops A write f64_json proof w =
     (case agent_sign A write SIGNING_KEY_PROBE w of
        (Inl e, w) \<Rightarrow> (Inl e, w)
      | (Inr probe, w) \<Rightarrow>
     (let p = with_pubkey (sg_public_key probe) proof in
      case attestation_report_data ops p of
        Inl e \<Rightarrow> (Inl (core_error.Attestation (''report_data assembly failed: '' @ e)), w)
      | Inr report_data \<Rightarrow>
     (case agent_quote ops A write report_data w of
        (Inl e, w) \<Rightarrow> (Inl e, w)
      | (Inr (q, m), w) \<Rightarrow>
     (let p = with_quote q m p in
      case agent_sign A write (to_canonical_signing_json write f64_json p) w of
        (Inl e, w) \<Rightarrow> (Inl e, w)
      | (Inr sign, w) \<Rightarrow> (seal_signature (ga_keys A) write f64_json sign p, w)))))"

section \<open>What an attested proof carries\<close>

lemma report_data_after:
  "attestation_report_data ops (with_signature s p) = attestation_report_data ops p"
  "attestation_report_data ops (with_quote q m p) = attestation_report_data ops p"
  by (simp_all add: attestation_report_data_def with_signature_def with_quote_def)

lemma signing_json_after: "to_canonical_signing_json write f64_json (with_signature s p) = to_canonical_signing_json write f64_json p"
  by (simp add: to_canonical_signing_json_def unsigned_proof_def with_signature_def)

lemma attest_proof_steps:
  assumes "attest_proof ops A write f64_json proof w = (Inr p, w')"
  obtains probe rd q m sign w1 w2 w3 where
    "agent_sign A write SIGNING_KEY_PROBE w = (Inr probe, w1)"
    "attestation_report_data ops (with_pubkey (sg_public_key probe) proof) = Inr rd"
    "agent_quote ops A write rd w1 = (Inr (q, m), w2)"
    "agent_sign A write (to_canonical_signing_json write f64_json (with_quote q m (with_pubkey (sg_public_key probe) proof))) w2
      = (Inr sign, w3)"
    "seal_signature (ga_keys A) write f64_json sign (with_quote q m (with_pubkey (sg_public_key probe) proof)) = Inr p"
proof -
  obtain r1 w1 where 1: "agent_sign A write SIGNING_KEY_PROBE w = (r1, w1)" by fastforce
  with assms obtain probe where p: "r1 = Inr probe" by (cases r1) (auto simp: attest_proof_def)
  from assms obtain rd where 2: "attestation_report_data ops (with_pubkey (sg_public_key probe) proof) = Inr rd"
    by (cases "attestation_report_data ops (with_pubkey (sg_public_key probe) proof)")
      (auto simp: attest_proof_def 1 p Let_def)
  obtain r2 w2 where 3: "agent_quote ops A write rd w1 = (r2, w2)" by fastforce
  with assms obtain q m where q: "r2 = Inr (q, m)" by (cases r2) (auto simp: attest_proof_def 1 p 2 Let_def)
  let ?p = "with_quote q m (with_pubkey (sg_public_key probe) proof)"
  obtain r3 w3 where 4: "agent_sign A write (to_canonical_signing_json write f64_json ?p) w2 = (r3, w3)" by fastforce
  with assms obtain sign where s: "r3 = Inr sign" by (cases r3) (auto simp: attest_proof_def 1 p 2 3 q Let_def)
  from assms have "seal_signature (ga_keys A) write f64_json sign ?p = Inr p"
    by (simp add: attest_proof_def 1 p 2 3 q 4 s Let_def)
  with 1 2 3 4 show ?thesis unfolding p q s by (rule that)
qed

text \<open>
  C11: An attested proof is what the enclave vouches for. The signature in it verifies, under the public
  key in it, over the proof as it is returned less that signature; the report data of the proof commits to
  that key; the quote in it is a well-formed TDX v4 quote whose own report data is that value, whatever
  the guest agent answered; and nothing but these fields differs from the proof that was assembled.
\<close>

theorem attested_proof_bound:
  assumes "attest_proof ops A write f64_json proof w = (Inr p, w')"
    and "\<And>x. length (sha512 ops x) = 64" and "\<And>q. at_quote (sp_attestation p) = Some q \<Longrightarrow> length q \<le> USIZE_MAX"
  shows "\<exists>key s rd t. sp_sdk_signature p = (sp_sdk_signature proof) \<lparr> ss_enclave_pubkey := Some key, ss_sig := Some s \<rparr>
     \<and> verify_signature (ga_keys A) key s (to_canonical_signing_json write f64_json p) = Inr ()
     \<and> attestation_report_data ops p = Inr rd \<and> quote_wf t \<and> rd = hex_encode (drop 520 (tq_report t))
     \<and> sp_attestation p = \<lparr> at_tee_type = Some ''tdx'', at_quote = Some (hex_encode (quote_bytes t)),
          at_measurement = Some (measurement_of (tq_report t)), at_report_data = Some rd \<rparr>
     \<and> p = proof \<lparr> sp_attestation := sp_attestation p, sp_sdk_signature := sp_sdk_signature p \<rparr>"
proof -
  from assms(1) obtain probe :: sign_response and rd q m sign w1 w2 where
    rd: "attestation_report_data ops (with_pubkey (sg_public_key probe) proof) = Inr rd"
    and q: "agent_quote ops A write rd w1 = (Inr (q, m), w2)"
    and s: "seal_signature (ga_keys A) write f64_json sign (with_quote q m (with_pubkey (sg_public_key probe) proof)) = Inr p"
    by (rule attest_proof_steps)
  let ?q = "with_quote q m (with_pubkey (sg_public_key probe) proof)"
  have key: "ss_enclave_pubkey (sp_sdk_signature ?q) = Some (sg_public_key probe)"
    by (simp add: with_quote_def with_pubkey_def)
  from s key have p: "p = with_signature (sg_signature sign) ?q"
    and v: "verify_signature (ga_keys A) (sg_public_key probe) (sg_signature sign) (to_canonical_signing_json write f64_json p) = Inr ()"
    by (auto simp: seal_signature_def Let_def split: if_splits sum.splits)
  from q have g: "get_quote_at ops (ga_net A) write (ga_read_quote A) DEFAULT_DSTACK_SOCKET rd w1 = (Inr q, w2)"
    and m: "quote_measurement (qr_quote q) = Inr m"
    by (auto simp: agent_quote_def get_quote_def split: prod.splits sum.splits)
  have "length (qr_quote q) \<le> USIZE_MAX" by (rule assms(3)) (simp add: p with_signature_def with_quote_def)
  from get_quote_bound[OF g this] obtain n t where t: "qr_report_data q = n" "quote_wf t"
    "qr_quote q = hex_encode (quote_bytes t)" "n = hex_encode (drop 520 (tq_report t))"
    "quote_measurement (qr_quote q) = Inr (measurement_of (tq_report t))"
    and n: "\<And>bs. length bs = 64 \<Longrightarrow> rd = hex_encode bs \<Longrightarrow> n = rd" by blast
  have "\<exists>x. rd = hex_encode (sha512 ops x)" using rd by (auto simp: attestation_report_data_def res_simps)
  with n assms(2) have nrd: "n = rd" by blast
  have rp: "attestation_report_data ops p = Inr rd" using rd by (simp add: p report_data_after)
  show ?thesis
    by (rule exI[of _ "sg_public_key probe"], rule exI[of _ "sg_signature sign"], rule exI[of _ rd],
        rule exI[of _ t], intro conjI)
      (use v rp t m nrd in \<open>simp_all add: p with_signature_def with_quote_def with_pubkey_def\<close>)
qed

text \<open>A run against an agent that signs with a fixed key and quotes a fixed digest.\<close>

definition zero_ops :: crypto_ops where
  "zero_ops = demo_ops \<lparr> sha512 := \<lambda>_. replicate 64 (CHR 0x00) \<rparr>"

definition demo_sign_response :: sign_response where
  "demo_sign_response = \<lparr> sg_signature = hex_encode (replicate 64 (CHR 0x00)), sg_signature_chain = [],
     sg_public_key = hex_encode (replicate 32 (CHR 0x00)) \<rparr>"

definition demo_guest :: "(unit, unit) guest_agent" where
  "demo_guest = \<lparr> ga_net = demo_agent, ga_keys = \<lparr> ed_key_ok = (\<lambda>_. True), ed_verify = (\<lambda>_ _ _. True) \<rparr>,
     ga_read_quote = (\<lambda>_. Inr demo_quote_response), ga_read_sign = (\<lambda>_. Inr demo_sign_response) \<rparr>"

lemma lower_hex_encode: "to_lower (hex_encode bs) = hex_encode bs"
  using hex_encode_lower_hex[of bs] by (auto simp: to_lower_fixed_iff list_all_iff dest: lower_hex_not_upper)

lemma demo_agent_sign:
  assumes "payload \<noteq> []"
  shows "agent_sign demo_guest write payload () = (Inr demo_sign_response, ())"
proof -
  have c: "ux_connect demo_agent DEFAULT_DSTACK_SOCKET () = (Inr (), ())" by (simp add: demo_agent_def)
  have n: "hex_encode (replicate 64 (CHR 0x00)) \<noteq> []" "hex_encode (replicate 32 (CHR 0x00)) \<noteq> []"
    using length_hex_encode[of "replicate 64 (CHR 0x00)"] length_hex_encode[of "replicate 32 (CHR 0x00)"] by auto
  have "validate_sign_response (ga_keys demo_guest) demo_sign_response = Inr demo_sign_response"
    unfolding validate_sign_response_def demo_sign_response_def demo_guest_def
    using n by (simp add: hex_field_def decode_hex_encode lower_hex_encode)
  with assms c show ?thesis
    by (simp add: agent_sign_def sign_at_def demo_agent_exchange demo_guest_def)
qed

definition demo_assembled :: scrape_proof where
  "demo_assembled = with_quote demo_quote_response (measurement_of (tq_report demo_tdx))
     (with_pubkey (sg_public_key demo_sign_response) (demo_proof ''n1''))"

lemma demo_attest_proof:
  "attest_proof zero_ops demo_guest (\<lambda>_. ''{}'') (\<lambda>_. JNull) (demo_proof ''n1'') ()
     = (Inr (with_signature (sg_signature demo_sign_response) demo_assembled), ())"
proof -
  let ?p = "with_pubkey (sg_public_key demo_sign_response) (demo_proof ''n1'')"
  have k: "sg_public_key demo_sign_response = hex_encode (replicate 32 (CHR 0x00))"
    "sg_signature demo_sign_response = hex_encode (replicate 64 (CHR 0x00))"
    by (simp_all only: demo_sign_response_def sign_response.simps)
  have probe: "agent_sign demo_guest (\<lambda>_. ''{}'') SIGNING_KEY_PROBE () = (Inr demo_sign_response, ())"
    by (rule demo_agent_sign) (simp add: SIGNING_KEY_PROBE_def)
  have "hex_encode (replicate 32 (CHR 0x00)) \<noteq> []" using length_hex_encode[of "replicate 32 (CHR 0x00)"] by auto
  then have "List.find is_missing (attested_fields ?p) = None"
    unfolding k by (simp add: attested_fields_def demo_proof_def with_pubkey_def is_missing_def default_tls_def)
  then have rd: "attestation_report_data zero_ops ?p = Inr (hex_encode (replicate 64 (CHR 0x00)))"
    unfolding attestation_report_data_eq option.case by (simp only: zero_ops_def) simp
  have l: "length (quote_bytes demo_tdx) \<le> USIZE_MAX" by (simp add: demo_tdx_wf(2) USIZE_MAX_def)
  have d: "decode_hex (hex_encode (quote_bytes demo_tdx)) = Some (quote_bytes demo_tdx)" by (rule decode_hex_encode)
  have "qr_quote demo_quote_response = hex_encode (quote_bytes demo_tdx)"
    by (simp only: demo_quote_response_def quote_response.simps)
  then have m: "quote_measurement (qr_quote demo_quote_response) = Inr (measurement_of (tq_report demo_tdx))"
    using quote_fields(1)[OF demo_tdx_wf(1) l d] by simp
  have net: "ga_net demo_guest = demo_agent" "ga_read_quote demo_guest = (\<lambda>_. Inr demo_quote_response)"
    by (simp_all add: demo_guest_def)
  have q: "agent_quote zero_ops demo_guest (\<lambda>_. ''{}'') (hex_encode (replicate 64 (CHR 0x00))) ()
      = (Inr (demo_quote_response, measurement_of (tq_report demo_tdx)), ())"
    by (simp only: agent_quote_def get_quote_def net demo_get_quote prod.case sum.case m)
  have s: "agent_sign demo_guest (\<lambda>_. ''{}'') (to_canonical_signing_json (\<lambda>_. ''{}'') (\<lambda>_. JNull) demo_assembled) ()
      = (Inr demo_sign_response, ())"
    by (rule demo_agent_sign) (simp add: to_canonical_signing_json_def to_canonical_json_def)
  have key: "ss_enclave_pubkey (sp_sdk_signature demo_assembled) = Some (sg_public_key demo_sign_response)"
    by (simp add: demo_assembled_def with_quote_def with_pubkey_def)
  have v: "verify_signature (ga_keys demo_guest) (sg_public_key demo_sign_response) (sg_signature demo_sign_response) x = Inr ()" for x
    unfolding k verify_signature_def demo_guest_def by (simp add: decode_hex_encode)
  show ?thesis
    by (simp only: attest_proof_def probe prod.case sum.case Let_def rd q s demo_assembled_def[symmetric]
        seal_signature_def key option.case v not_True_eq_False if_False simp_thms)
qed

theorem attested_proof_bound_witness:
  "\<exists>key rd. attestation_report_data zero_ops (with_signature (sg_signature demo_sign_response) demo_assembled) = Inr rd
     \<and> ss_enclave_pubkey (sp_sdk_signature (with_signature (sg_signature demo_sign_response) demo_assembled)) = Some key
     \<and> at_report_data (sp_attestation (with_signature (sg_signature demo_sign_response) demo_assembled)) = Some rd"
proof -
  let ?p = "with_signature (sg_signature demo_sign_response) demo_assembled"
  have h: "length (sha512 zero_ops x) = 64" for x by (simp add: zero_ops_def)
  have q: "length q \<le> USIZE_MAX" if "at_quote (sp_attestation ?p) = Some q" for q
  proof -
    from that have "q = qr_quote demo_quote_response"
      by (simp add: with_signature_def demo_assembled_def with_quote_def)
    then show ?thesis by (simp add: demo_quote_response_def length_hex_encode demo_tdx_wf(2) USIZE_MAX_def)
  qed
  from attested_proof_bound[OF demo_attest_proof h q] obtain key s rd t where
    k: "sp_sdk_signature ?p = (sp_sdk_signature (demo_proof ''n1'')) \<lparr> ss_enclave_pubkey := Some key, ss_sig := Some s \<rparr>"
    and r: "attestation_report_data zero_ops ?p = Inr rd"
    and a: "sp_attestation ?p = \<lparr> at_tee_type = Some ''tdx'', at_quote = Some (hex_encode (quote_bytes t)),
          at_measurement = Some (measurement_of (tq_report t)), at_report_data = Some rd \<rparr>" by blast
  have "ss_enclave_pubkey (sp_sdk_signature ?p) = Some key" by (subst k) simp
  moreover have "at_report_data (sp_attestation ?p) = Some rd" by (subst a) simp
  ultimately show ?thesis using r by blast
qed

end
