(* ===== verification/Page_Render.thy ===== *)
theory Page_Render
  imports Render_Budget Fetch
begin

text \<open>
  The core's side of a render: the texts of \<^verbatim>\<open>RenderError\<close> in \<^verbatim>\<open>basecrawl-render/src/lib.rs\<close> and the
  errors that \<^verbatim>\<open>basecrawl-core/src/html.rs\<close> and \<^verbatim>\<open>screenshot.rs\<close> make of them, with the viewport
  option. \<open>quote\<close> prints a text as \<^verbatim>\<open>{:?}\<close> does, \<open>parse_json\<close> is the JSON reader.
\<close>

section \<open>Texts of the renderer's errors\<close>

text \<open>\<^verbatim>\<open>{:?}\<close> of a duration of whole milliseconds.\<close>

definition pad3 :: "nat \<Rightarrow> string" where
  "pad3 n = (if n < 10 then ''00'' else if n < 100 then ''0'' else []) @ show_nat n"

definition show_millis :: "nat \<Rightarrow> string" where
  "show_millis n =
     (let frac = rev (dropWhile (\<lambda>c. c = CHR ''0'') (rev (pad3 (n mod 1000))))
      in if 1000 \<le> n then show_nat (n div 1000) @ (if frac = [] then [] else ''.'' @ frac) @ ''s''
         else if 0 < n then show_nat n @ ''ms'' else ''0ns'')"

fun render_error_text :: "(string \<Rightarrow> string) \<Rightarrow> render_error \<Rightarrow> string" where
  "render_error_text quote ChromeNotFound =
     ''chrome executable not found (set the CHROME env var to a Chromium binary)''"
| "render_error_text quote (Launch e) = ''failed to launch headless browser: '' @ e"
| "render_error_text quote (render_error.DnsIsolation e) = ''sealed browser DNS isolation failed: '' @ e"
| "render_error_text quote (RenderFailed e) = ''failed to render page: '' @ e"
| "render_error_text quote (RenderTimeout ms) =
     ''render timed out after '' @ show_millis ms @ '': the page never reached network idle''"
| "render_error_text quote PacingDeadline =
     ''the scrape deadline expired while waiting for the per-origin crawl delay''"
| "render_error_text quote (WaitFor selector detail) =
     ''timed out waiting for selector '' @ quote selector @ '': '' @ detail"
| "render_error_text quote (TooManyClientRedirects n) =
     ''exceeded the maximum of '' @ show_nat n @ '' client-side redirect hop(s)''"
| "render_error_text quote render_error.ResourceBudgetExceeded =
     ''the scrape-owned browser request or byte budget was exhausted''"
| "render_error_text quote (DocumentPolicyDenied detail) =
     ''top-level document policy denied navigation: '' @ detail"
| "render_error_text quote (StealthInjectInstall e) = ''stealth inject install failed: '' @ e"
| "render_error_text quote NoContent = ''browser returned no serialized DOM''"

definition is_deadline_exhausted :: "(string \<Rightarrow> string) \<Rightarrow> render_error \<Rightarrow> bool" where
  "is_deadline_exhausted quote e \<longleftrightarrow> contains (render_error_text quote e) ''browser setup deadline exceeded''"

section \<open>Renders\<close>

definition reclassify_composer_proxy_detail :: "string \<Rightarrow> core_error option" where
  "reclassify_composer_proxy_detail detail =
     (let l = to_lower detail in
      if contains l ''proxy_auth_error'' \<or> contains l ''authentication failed''
         \<or> contains l ''proxy authentication required'' \<or> contains l ''connect 407'' \<or> contains l ''connect 401''
      then Some (ProxyConnect (if contains l ''401'' then Some 401 else Some 407) ''proxy_auth_error'' detail)
      else if contains l ''proxy_acl_error'' \<or> contains l ''connect 403'' \<or> contains l ''not allowed by ruleset''
         \<or> contains l ''destination or product acl''
      then Some (ProxyConnect (Some 403) ''proxy_acl_error'' detail)
      else if contains l ''residential concurrency'' then Some (ResidentialConcurrency detail)
      else if contains l ''proxy_connect_error'' \<or> contains l ''composer upstream dial failed''
      then Some (ProxyConnect None ''proxy_connect_error'' detail)
      else None)"

text \<open>The match of \<^verbatim>\<open>render_page_until\<close> on the renderer's error; \<open>url\<close> is the rendered URL's text.\<close>

definition render_page_error ::
    "(string \<Rightarrow> string) \<Rightarrow> (string \<Rightarrow> json option) \<Rightarrow> string \<Rightarrow> render_error \<Rightarrow> core_error" where
  "render_page_error quote parse_json url e =
     (if is_deadline_exhausted quote e
      then Timeout ''scrape deadline exceeded during browser setup or render''
      else case e of
        TooManyClientRedirects n \<Rightarrow> TooManyRedirects n url
      | PacingDeadline \<Rightarrow> Timeout ''scrape deadline exceeded while waiting for crawl delay''
      | render_error.ResourceBudgetExceeded \<Rightarrow> core_error.ResourceBudgetExceeded
      | render_error.DnsIsolation detail \<Rightarrow>
          (case reclassify_composer_proxy_detail detail of
             Some err \<Rightarrow> err | None \<Rightarrow> core_error.DnsIsolation detail)
      | DocumentPolicyDenied detail \<Rightarrow> from_document_policy_denial parse_json detail
      | StealthInjectInstall detail \<Rightarrow> HardPath (''stealth inject install failed: '' @ detail)
      | e \<Rightarrow> Render (render_error_text quote e))"

definition capture_error :: "(string \<Rightarrow> string) \<Rightarrow> (string \<Rightarrow> json option) \<Rightarrow> render_error \<Rightarrow> core_error" where
  "capture_error quote parse_json e =
     (if is_deadline_exhausted quote e
      then Timeout ''scrape deadline exceeded during browser setup or screenshot''
      else case e of
        PacingDeadline \<Rightarrow> Timeout ''scrape deadline exceeded while waiting for crawl delay''
      | render_error.ResourceBudgetExceeded \<Rightarrow> core_error.ResourceBudgetExceeded
      | render_error.DnsIsolation detail \<Rightarrow> core_error.DnsIsolation detail
      | DocumentPolicyDenied detail \<Rightarrow> from_document_policy_denial parse_json detail
      | StealthInjectInstall detail \<Rightarrow> HardPath (''stealth inject install failed: '' @ detail)
      | e \<Rightarrow> Render (render_error_text quote e))"

text \<open>
  A failure of the renderer is never taken for a challenge of the origin: whatever the error's text says,
  a proxy's refusal included.
\<close>

lemma render_failure_not_challenge:
  "render_page_error quote parse_json url e \<noteq> ChallengeBlocked n d"
  "capture_error quote parse_json e \<noteq> ChallengeBlocked n d"
  by (auto simp: render_page_error_def capture_error_def reclassify_composer_proxy_detail_def Let_def
      from_document_policy_denial_def split: render_error.splits option.splits if_splits)

section \<open>The viewport option\<close>

definition U32_MAX_VALUE :: nat where
  "U32_MAX_VALUE = 2 ^ 32 - 1"

definition parse_viewport :: "string \<Rightarrow> (core_error, nat \<times> nat) result" where
  "parse_viewport spec =
     bind_res (ok_or (split_once (CHR ''x'') (to_lower (trim spec))) (InvalidViewport spec)) (\<lambda>(w, h).
     bind_res (ok_or (parse_unsigned 10 U32_MAX_VALUE (trim w)) (InvalidViewport spec)) (\<lambda>width.
     bind_res (ok_or (parse_unsigned 10 U32_MAX_VALUE (trim h)) (InvalidViewport spec)) (\<lambda>height.
       if width = 0 \<or> height = 0 then Inl (InvalidViewport spec) else Inr (width, height))))"

lemma parse_viewport_bounds:
  "parse_viewport spec = Inr (w, h) \<Longrightarrow> 0 < w \<and> 0 < h \<and> w < 2 ^ 32 \<and> h < 2 ^ 32"
  by (auto simp: parse_viewport_def U32_MAX_VALUE_def res_simps split: if_splits
      dest!: parse_unsigned_le)

end
