(* ===== verification/Egress.thy ===== *)
theory Egress
  imports Scrape_Proof
begin

text \<open>
  \<^verbatim>\<open>basecrawl-core/src/egress.rs\<close>: the egress block of a proof and the landmark times recorded in it.
  The printer of a time stamp is the parameter \<open>rfc3339\<close>; it gives the text or the error of the crate.
\<close>

text \<open>The order of \<^verbatim>\<open>f64\<close> on bit patterns: a NaN is below and above nothing, both zeros are equal.\<close>

definition f64_nan :: "f64 \<Rightarrow> bool" where
  "f64_nan x \<longleftrightarrow> 0x7FF0000000000000 < uint x mod 2 ^ 63"

definition f64_key :: "f64 \<Rightarrow> int" where
  "f64_key x = (if 2 ^ 63 \<le> uint x then - (uint x mod 2 ^ 63) else uint x)"

definition f64_less :: "f64 \<Rightarrow> f64 \<Rightarrow> bool" where
  "f64_less x y \<longleftrightarrow> \<not> f64_nan x \<and> \<not> f64_nan y \<and> f64_key x < f64_key y"

lemma f64_less_trans: "f64_less x y \<Longrightarrow> f64_less y z \<Longrightarrow> f64_less x z"
  by (auto simp: f64_less_def)

definition build_with_soft_tls_impersonate ::
    "(string, string) result \<Rightarrow> string \<Rightarrow> string \<Rightarrow> (string, f64) btree \<Rightarrow> proxy_class \<Rightarrow> fetch_path
     \<Rightarrow> soft_tls_audit option \<Rightarrow> (core_error, egress_block) result" where
  "build_with_soft_tls_impersonate rfc3339 egress_ip seed landmarks class path audit =
     bind_res (case rfc3339 of Inl e \<Rightarrow> Inl (EgressMetadata e) | Inr t \<Rightarrow> Inr t) (\<lambda>timestamp.
       Inr \<lparr> eg_egress_ip = Some egress_ip, eg_landmark_rtts = landmarks, eg_timestamp = Some timestamp,
             eg_fingerprint_seed = Some seed, eg_proxy_class = Some class, eg_fetch_path = Some path,
             eg_soft_tls_impersonate = (if path = PathDirect then audit else None) \<rparr>)"

definition build_with_landmark_rtts ::
    "(string, string) result \<Rightarrow> string \<Rightarrow> string \<Rightarrow> (string, f64) btree \<Rightarrow> proxy_class \<Rightarrow> fetch_path
     \<Rightarrow> (core_error, egress_block) result" where
  "build_with_landmark_rtts rfc3339 egress_ip seed landmarks class path =
     build_with_soft_tls_impersonate rfc3339 egress_ip seed landmarks class path None"

definition build_egress :: "(string, string) result \<Rightarrow> string \<Rightarrow> string \<Rightarrow> (core_error, egress_block) result" where
  "build_egress rfc3339 egress_ip seed =
     build_with_landmark_rtts rfc3339 egress_ip seed [] ClassDirect PathDirect"

record landmark_measurement =
  lm_landmark_id :: string
  lm_rtt_ms :: f64

definition record_landmark :: "(string, f64) btree \<Rightarrow> landmark_measurement \<Rightarrow> (string, f64) btree" where
  "record_landmark m x =
     (case bt_get m (lm_landmark_id x) of
        Some existing \<Rightarrow>
          if f64_less (lm_rtt_ms x) existing then bt_insert (lm_landmark_id x) (lm_rtt_ms x) m else m
      | None \<Rightarrow> bt_insert (lm_landmark_id x) (lm_rtt_ms x) m)"

definition landmark_rtts_from_measurements :: "landmark_measurement list \<Rightarrow> (string, f64) btree" where
  "landmark_rtts_from_measurements ms = foldl record_landmark [] ms"

definition landmark_pairs :: "landmark_measurement list \<Rightarrow> (string \<times> f64) set" where
  "landmark_pairs ms = (\<lambda>x. (lm_landmark_id x, lm_rtt_ms x)) ` set ms"

text \<open>
  The recorded time of a landmark is one that was measured and none measured for it is less; a landmark is
  recorded if and only if it was measured. A NaN that comes first stays, since nothing is less than it.
\<close>

lemma landmark_minimum:
  "bt_inv (landmark_rtts_from_measurements ms)
   \<and> (case bt_get (landmark_rtts_from_measurements ms) l of
        None \<Rightarrow> \<forall>r. (l, r) \<notin> landmark_pairs ms
      | Some r \<Rightarrow> (l, r) \<in> landmark_pairs ms \<and> (\<forall>r'. (l, r') \<in> landmark_pairs ms \<longrightarrow> \<not> f64_less r' r))"
proof (induction ms rule: rev_induct)
  case Nil
  show ?case by (simp add: landmark_rtts_from_measurements_def landmark_pairs_def bt.inv_empty bt.get_empty)
next
  case (snoc x ms)
  let ?m = "landmark_rtts_from_measurements ms"
  have i: "bt_inv ?m" using snoc by simp
  have e: "landmark_rtts_from_measurements (ms @ [x]) = record_landmark ?m x"
    by (simp add: landmark_rtts_from_measurements_def)
  have p: "(l, r) \<in> landmark_pairs (ms @ [x]) \<longleftrightarrow> (l, r) \<in> landmark_pairs ms \<or> (l = lm_landmark_id x \<and> r = lm_rtt_ms x)" for r
    by (auto simp: landmark_pairs_def)
  have irr: "\<not> f64_less r r" for r by (simp add: f64_less_def)
  show ?case
  proof (cases "lm_landmark_id x = l")
    case True
    with snoc i show ?thesis
      unfolding e record_landmark_def p
      by (auto simp: bt.inv_put bt.get_put irr split: option.splits dest: f64_less_trans)
  next
    case False
    with snoc i show ?thesis
      unfolding e record_landmark_def p
      by (auto simp: bt.inv_put bt.get_put split: option.splits)
  qed
qed

lemma soft_audit_only_on_direct_path:
  "build_with_soft_tls_impersonate t ip seed lm c path audit = Inr e \<Longrightarrow>
     eg_proxy_class e = Some c \<and> eg_fetch_path e = Some path \<and> eg_fingerprint_seed e = Some seed
     \<and> (eg_soft_tls_impersonate e \<noteq> None \<longrightarrow> path = PathDirect)"
  by (auto simp: build_with_soft_tls_impersonate_def res_simps split: if_splits)

end
