(* ===== verification/Metadata.thy ===== *)
theory Metadata
  imports Page_Links Charset
begin

text \<open>
  The \<^verbatim>\<open>metadata\<close> format of \<^verbatim>\<open>basecrawl-core/src/metadata.rs\<close>: the meta tags of a page, repeated ones as
  lists, overlaid with what the crawler derives. The HTML parser is the parameter \<open>html_ops\<close>.
\<close>

record page_meta =
  pm_source_url :: string
  pm_status_code :: "nat option"
  pm_content_type :: "string option"

definition insert_meta :: "string \<Rightarrow> string \<Rightarrow> (string, json) btree \<Rightarrow> (string, json) btree" where
  "insert_meta k c m =
     (case bt_get m k of
        None \<Rightarrow> bt_insert k (JStr c) m
      | Some (JArr items) \<Rightarrow> bt_insert k (JArr (items @ [JStr c])) m
      | Some previous \<Rightarrow> bt_insert k (JArr [previous, JStr c]) m)"

text \<open>The key and content of a meta tag that is surfaced.\<close>

definition meta_pair :: "element \<Rightarrow> (string \<times> string) option" where
  "meta_pair el =
     (case (case el_attr el ''name'' of Some n \<Rightarrow> Some n | None \<Rightarrow> el_attr el ''property'') of
        None \<Rightarrow> None
      | Some k \<Rightarrow> if trim k = [] then None else map_option (Pair (trim k)) (el_attr el ''content''))"

definition add_meta :: "element \<Rightarrow> (string, json) btree \<Rightarrow> (string, json) btree" where
  "add_meta el m = (case meta_pair el of Some (k, c) \<Rightarrow> insert_meta k c m | None \<Rightarrow> m)"

definition first_text :: "'d html_ops \<Rightarrow> 'd \<Rightarrow> string \<Rightarrow> string option" where
  "first_text H doc selector =
     (case h_select H selector doc of
        [] \<Rightarrow> None
      | el # _ \<Rightarrow>
          let collapsed = join '' '' (split_whitespace (el_text el))
          in if collapsed = [] then None else Some collapsed)"

text \<open>The content of the first element whose attribute is the name, in any letter case.\<close>

definition content_of_first :: "'d html_ops \<Rightarrow> 'd \<Rightarrow> string \<Rightarrow> string \<Rightarrow> string \<Rightarrow> string option" where
  "content_of_first H doc selector attr name =
     Option.bind (List.find (\<lambda>el. case el_attr el attr of Some v \<Rightarrow> eq_ic (trim v) name | None \<Rightarrow> False)
       (h_select H selector doc)) (\<lambda>el. el_attr el ''content'')"

definition meta_http_equiv :: "'d html_ops \<Rightarrow> 'd \<Rightarrow> string \<Rightarrow> string option" where
  "meta_http_equiv H doc wanted = content_of_first H doc ''meta[http-equiv][content]'' ''http-equiv'' wanted"

definition meta_named :: "'d html_ops \<Rightarrow> 'd \<Rightarrow> string \<Rightarrow> string option" where
  "meta_named H doc name = content_of_first H doc ''meta[name][content]'' ''name'' name"

definition nonempty_trimmed :: "string option \<Rightarrow> string option" where
  "nonempty_trimmed v = (case v of None \<Rightarrow> None | Some s \<Rightarrow> if trim s = [] then None else Some (trim s))"

definition first_attr :: "'d html_ops \<Rightarrow> 'd \<Rightarrow> string \<Rightarrow> string \<Rightarrow> string option" where
  "first_attr H doc selector attr =
     (case h_select H selector doc of [] \<Rightarrow> None | el # _ \<Rightarrow> el_attr el attr)"

definition page_language :: "'d html_ops \<Rightarrow> 'd \<Rightarrow> string option" where
  "page_language H doc =
     (case nonempty_trimmed (first_attr H doc ''html[lang]'' ''lang'') of
        Some l \<Rightarrow> Some l
      | None \<Rightarrow>
          (case nonempty_trimmed (meta_http_equiv H doc ''content-language'') of
             Some l \<Rightarrow> Some l | None \<Rightarrow> meta_named H doc ''language''))"

definition page_charset :: "'d html_ops \<Rightarrow> 'd \<Rightarrow> string option \<Rightarrow> string option" where
  "page_charset H doc content_type =
     (case Option.bind content_type charset_from_content_type of
        Some c \<Rightarrow> Some c
      | None \<Rightarrow>
          (case nonempty_trimmed (first_attr H doc ''meta[charset]'' ''charset'') of
             Some c \<Rightarrow> Some (to_lower c)
           | None \<Rightarrow> Option.bind (meta_http_equiv H doc ''content-type'') charset_from_content_type))"

definition put_some :: "string \<Rightarrow> string option \<Rightarrow> (string, json) btree \<Rightarrow> (string, json) btree" where
  "put_some k v m = (case v of Some s \<Rightarrow> bt_insert k (JStr s) m | None \<Rightarrow> m)"

definition put_page :: "page_meta \<Rightarrow> (string, json) btree \<Rightarrow> (string, json) btree" where
  "put_page page m =
     (let m = bt_insert ''sourceURL'' (JStr (pm_source_url page)) m
      in case pm_status_code page of
           Some n \<Rightarrow> bt_insert ''statusCode'' (JNum (int n)) m | None \<Rightarrow> m)"

definition meta_tags :: "'d html_ops \<Rightarrow> 'd \<Rightarrow> page_meta \<Rightarrow> (string, json) btree" where
  "meta_tags H doc page = fold add_meta (h_select H ''meta'' doc) (put_some ''contentType'' (pm_content_type page) [])"

definition extract_for_content :: "'d html_ops \<Rightarrow> string \<Rightarrow> page_meta \<Rightarrow> bool \<Rightarrow> json" where
  "extract_for_content H html page parse_html =
     (if \<not> parse_html then
        JObj (put_page page (put_some ''charset'' (Option.bind (pm_content_type page) charset_from_content_type)
               (put_some ''contentType'' (pm_content_type page) [])))
      else let doc = h_parse H html in
        JObj (put_page page (put_some ''charset'' (page_charset H doc (pm_content_type page))
               (put_some ''language'' (page_language H doc) (put_some ''title'' (first_text H doc ''title'')
                 (meta_tags H doc page))))))"

definition extract_metadata :: "'d html_ops \<Rightarrow> string \<Rightarrow> page_meta \<Rightarrow> json" where
  "extract_metadata H html page = extract_for_content H html page True"

section \<open>What the object holds\<close>

definition collapse :: "string list \<Rightarrow> json option" where
  "collapse cs = (case cs of [] \<Rightarrow> None | [c] \<Rightarrow> Some (JStr c) | _ \<Rightarrow> Some (JArr (map JStr cs)))"

lemma bt_inv_puts [simp]:
  "bt_inv m \<Longrightarrow> bt_inv (put_some k v m)" "bt_inv m \<Longrightarrow> bt_inv (put_page page m)"
  by (simp_all add: put_some_def put_page_def Let_def bt.inv_put bt.inv_empty split: option.splits)

lemma bt_inv_Nil [simp]: "bt_inv []"
  by (rule bt.inv_empty)

lemma get_put_some: "bt_inv m \<Longrightarrow> bt_get (put_some k v m) j = (if j = k \<and> v \<noteq> None then map_option JStr v else bt_get m j)"
  by (auto simp: put_some_def bt.get_put split: option.splits)

lemma insert_meta_get:
  assumes "bt_inv m" and "\<And>j. bt_get m j = collapse (f j)"
  shows "bt_inv (insert_meta k c m)" and "bt_get (insert_meta k c m) j = collapse ((f (k := f k @ [c])) j)"
proof -
  show "bt_inv (insert_meta k c m)"
    using assms(1) by (simp add: insert_meta_def bt.inv_put split: option.splits json.splits)
  have k: "bt_get m k = collapse (f k)" by (rule assms(2))
  consider "f k = []" | x where "f k = [x]" | x y zs where "f k = x # y # zs" by (metis neq_Nil_conv)
  then show "bt_get (insert_meta k c m) j = collapse ((f (k := f k @ [c])) j)"
    by cases (use k assms in \<open>simp_all add: insert_meta_def collapse_def bt.get_put\<close>)
qed

lemma fold_add_meta:
  assumes "bt_inv m" and "\<And>j. bt_get m j = collapse (f j)"
  shows "bt_inv (fold add_meta els m)
     \<and> (\<forall>j. bt_get (fold add_meta els m) j
          = collapse (f j @ map snd (filter (\<lambda>p. fst p = j) (List.map_filter meta_pair els))))"
  using assms
proof (induction els arbitrary: m f)
  case (Cons el els)
  show ?case
  proof (cases "meta_pair el")
    case None
    with Cons show ?thesis by (simp add: add_meta_def List.map_filter_simps)
  next
    case (Some p)
    obtain k c where p: "p = (k, c)" by fastforce
    note step = insert_meta_get[OF Cons.prems, of k c]
    from Cons.IH[of "insert_meta k c m" "f (k := f k @ [c])"] step Some p show ?thesis
      by (auto simp: add_meta_def List.map_filter_simps)
  qed
qed (simp add: List.map_filter_simps)

text \<open>
  C17: The metadata of a page says what the page says and what the crawler knows. A name that the crawler does
  not derive has the content of its tags in document order, a single one as a text and several as a list; the
  requested URL and the status are the crawler's whatever the page declares, and so are a title, a language
  and a charset that it finds.
\<close>

theorem metadata_exact:
  "\<exists>m. extract_for_content H html page True = JObj m \<and> bt_inv m
     \<and> bt_get m ''sourceURL'' = Some (JStr (pm_source_url page))
     \<and> (\<forall>n. pm_status_code page = Some n \<longrightarrow> bt_get m ''statusCode'' = Some (JNum (int n)))
     \<and> (\<forall>t. first_text H (h_parse H html) ''title'' = Some t \<longrightarrow> bt_get m ''title'' = Some (JStr t))
     \<and> (\<forall>l. page_language H (h_parse H html) = Some l \<longrightarrow> bt_get m ''language'' = Some (JStr l))
     \<and> (\<forall>c. page_charset H (h_parse H html) (pm_content_type page) = Some c \<longrightarrow> bt_get m ''charset'' = Some (JStr c))
     \<and> (\<forall>k. k \<notin> {''sourceURL'', ''statusCode'', ''title'', ''language'', ''charset'', ''contentType''} \<longrightarrow>
          bt_get m k = collapse (map snd (filter (\<lambda>p. fst p = k)
            (List.map_filter meta_pair (h_select H ''meta'' (h_parse H html))))))"
proof -
  let ?doc = "h_parse H html"
  let ?f = "\<lambda>j. if j = ''contentType'' then (case pm_content_type page of Some c \<Rightarrow> [c] | None \<Rightarrow> []) else []"
  have b: "bt_get (put_some ''contentType'' (pm_content_type page) []) j = collapse (?f j)" for j
    by (simp add: get_put_some bt.get_empty collapse_def split: option.splits)
  have tags: "bt_inv (meta_tags H ?doc page)"
    "\<And>k. k \<noteq> ''contentType'' \<Longrightarrow> bt_get (meta_tags H ?doc page) k
        = collapse (map snd (filter (\<lambda>p. fst p = k) (List.map_filter meta_pair (h_select H ''meta'' ?doc))))"
    using fold_add_meta[of "put_some ''contentType'' (pm_content_type page) []" ?f "h_select H ''meta'' ?doc"] b
    by (simp_all add: meta_tags_def)
  define m1 where "m1 = put_some ''title'' (first_text H ?doc ''title'') (meta_tags H ?doc page)"
  define m2 where "m2 = put_some ''language'' (page_language H ?doc) m1"
  define m3 where "m3 = put_some ''charset'' (page_charset H ?doc (pm_content_type page)) m2"
  note inv = tags(1)
  have i1: "bt_inv m1" unfolding m1_def by (rule bt_inv_puts[OF inv])
  have i2: "bt_inv m2" unfolding m2_def by (rule bt_inv_puts[OF i1])
  have i3: "bt_inv m3" unfolding m3_def by (rule bt_inv_puts[OF i2])
  have p: "bt_get (put_page page m3) j = (if j = ''statusCode'' \<and> pm_status_code page \<noteq> None
       then map_option (\<lambda>n. JNum (int n)) (pm_status_code page)
       else if j = ''sourceURL'' then Some (JStr (pm_source_url page)) else bt_get m3 j)" for j
    using i3 by (auto simp: put_page_def Let_def bt.get_put bt.inv_put split: option.splits)
  note g = get_put_some[OF inv, of "''title''" "first_text H ?doc ''title''", folded m1_def]
    get_put_some[OF i1, of "''language''" "page_language H ?doc", folded m2_def]
    get_put_some[OF i2, of "''charset''" "page_charset H ?doc (pm_content_type page)", folded m3_def]
  show ?thesis
  proof (intro exI[of _ "put_page page m3"] conjI)
    show "extract_for_content H html page True = JObj (put_page page m3)"
      by (simp add: extract_for_content_def Let_def m1_def m2_def m3_def)
    show "bt_inv (put_page page m3)" by (rule bt_inv_puts[OF i3])
    show "bt_get (put_page page m3) ''sourceURL'' = Some (JStr (pm_source_url page))" by (simp add: p)
  qed (simp_all add: p g tags(2))
qed

text \<open>The content type is not among what overlays the tags: a page can add to it.\<close>

definition forging_page :: "unit html_ops" where
  "forging_page = \<lparr> h_parse = (\<lambda>_. ()), h_select = (\<lambda>s _. if s = ''meta'' then
     [\<lparr> el_attr = (\<lambda>a. if a = ''name'' then Some ''contentType'' else if a = ''content'' then Some ''application/pdf'' else None),
        el_text = [] \<rparr>] else []) \<rparr>"

lemma content_type_not_authoritative:
  "jget (extract_for_content forging_page []
     \<lparr> pm_source_url = [], pm_status_code = None, pm_content_type = Some ''text/html'' \<rparr> True) ''contentType''
   = Some (JArr [JStr ''text/html'', JStr ''application/pdf''])"
  by code_simp

text \<open>A page with an image declared twice and a status of its own.\<close>

definition meta_el :: "string \<Rightarrow> string \<Rightarrow> element" where
  "meta_el k c = \<lparr> el_attr = (\<lambda>a. if a = ''name'' then Some k else if a = ''content'' then Some c else None), el_text = [] \<rparr>"

definition gallery_page :: "unit html_ops" where
  "gallery_page = \<lparr> h_parse = (\<lambda>_. ()), h_select = (\<lambda>s _. if s = ''meta''
     then [meta_el ''og:image'' ''a'', meta_el ''statusCode'' ''999'', meta_el ''og:image'' ''b''] else []) \<rparr>"

theorem metadata_exact_witness:
  "\<exists>m. extract_for_content gallery_page [] \<lparr> pm_source_url = ''u'', pm_status_code = Some 200, pm_content_type = None \<rparr> True = JObj m
     \<and> bt_get m ''statusCode'' = Some (JNum 200) \<and> bt_get m ''og:image'' = Some (JArr [JStr ''a'', JStr ''b''])"
proof -
  let ?page = "\<lparr> pm_source_url = ''u'', pm_status_code = Some 200, pm_content_type = None \<rparr>"
  have pairs: "List.map_filter meta_pair (h_select gallery_page ''meta'' ())
      = [(''og:image'', ''a''), (''statusCode'', ''999''), (''og:image'', ''b'')]" by code_simp
  from metadata_exact[of gallery_page "[]" ?page] obtain m where
    m: "extract_for_content gallery_page [] ?page True = JObj m"
    and n: "\<forall>n. pm_status_code ?page = Some n \<longrightarrow> bt_get m ''statusCode'' = Some (JNum (int n))"
    and k: "\<forall>k. k \<notin> {''sourceURL'', ''statusCode'', ''title'', ''language'', ''charset'', ''contentType''} \<longrightarrow>
      bt_get m k = collapse (map snd (filter (\<lambda>p. fst p = k)
        (List.map_filter meta_pair (h_select gallery_page ''meta'' (h_parse gallery_page [])))))"
    by (elim exE conjE) (rule that, assumption+)
  from k[rule_format, of "''og:image''"] have "bt_get m ''og:image'' = Some (JArr [JStr ''a'', JStr ''b''])"
    by (simp add: pairs collapse_def)
  moreover from n[rule_format, of 200] have "bt_get m ''statusCode'' = Some (JNum 200)" by simp
  ultimately show ?thesis using m by (intro exI[of _ m] conjI)
qed

end
