(* ===== verification/Scrape_Setup.thy ===== *)
theory Scrape_Setup
  imports Scrape_Options Proxy_Config Fingerprint Captcha_Solver
begin

text \<open>
  The part of \<^verbatim>\<open>scrape\<close> in \<^verbatim>\<open>basecrawl-core/src/lib.rs\<close> that comes before the first network call: the checks
  of the options, the fingerprint, the headers, the proxy, the policy of the hard path and the fetch
  configuration. It acts on nothing, so it is a function of the options and the environment; \<open>quote\<close>
  prints a text as \<^verbatim>\<open>{:?}\<close> does.
\<close>

definition env_truthy :: "env \<Rightarrow> string \<Rightarrow> bool" where
  "env_truthy env name =
     (case env name of
        None \<Rightarrow> False
      | Some v \<Rightarrow> trim v = ''1'' \<or> eq_ic (trim v) ''true'' \<or> eq_ic (trim v) ''yes'')"

section \<open>What is requested\<close>

definition requested_formats :: "scrape_options \<Rightarrow> fmt list" where
  "requested_formats opts = (if so_formats opts = [] then default_set else normalize (so_formats opts))"

definition refuse_structured ::
    "(string \<Rightarrow> string + json) \<Rightarrow> env \<Rightarrow> scrape_options \<Rightarrow> fmt list \<Rightarrow> (core_error, unit) result" where
  "refuse_structured parse_json env opts formats =
     (if Json \<in> set formats then
        bind_res (gate_structured_extraction parse_json env (so_json_schema opts) (so_json_prompt opts)) (\<lambda>_.
          Inl (StructuredExtractionUnsupported ExtractorNotAvailable))
      else Inr ())"

fun map_err :: "('e \<Rightarrow> 'f) \<Rightarrow> ('e, 'a) result \<Rightarrow> ('f, 'a) result" where
  "map_err f (Inl e) = Inl (f e)"
| "map_err f (Inr a) = Inr a"

definition scrape_seed :: "crypto_ops \<Rightarrow> scrape_options \<Rightarrow> string" where
  "scrape_seed ops opts =
     resolve_seed ops (so_fingerprint_seed opts) (so_task_id opts) (so_nonce opts) UNATTENDED_DEFAULT_SEED"

text \<open>The soft TLS profile, if one is asked for, applied to the generated fingerprint.\<close>

definition soften_tls ::
    "(string \<Rightarrow> string) \<Rightarrow> crypto_ops \<Rightarrow> scrape_options \<Rightarrow> fingerprint_profile
     \<Rightarrow> (core_error, fingerprint_profile \<times> soft_tls_impersonate option) result" where
  "soften_tls quote ops opts fp =
     (case so_tls_impersonate opts of
        None \<Rightarrow> Inr (fp, None)
      | Some raw \<Rightarrow>
          bind_res (map_err (\<lambda>e. TlsImpersonate (impersonate_message e)) (parse_impersonate raw)) (\<lambda>profile.
          bind_res (map_err (\<lambda>e. TlsImpersonate (''soft chrome profile below security floor: '' @ e))
            (assert_chrome_security_floor quote)) (\<lambda>_.
          bind_res (if so_attest opts \<and> (\<not> sp_cert_chain_capture_enabled tls_params
                          \<or> \<not> sp_transcript_capture_enabled tls_params)
                    then Inl (TlsImpersonate
                      ''tls impersonate under --attest requires in-enclave cert/transcript capture'')
                    else Inr ()) (\<lambda>_.
          let fp = apply_impersonate ops profile fp in
          bind_res (map_err (\<lambda>e. TlsImpersonate
              (''chrome soft profile violated security-critical TLS invariants: '' @ e))
            (assert_security_invariants quote fp)) (\<lambda>_. Inr (fp, Some profile))))))"

definition scrape_fingerprint ::
    "(string \<Rightarrow> string) \<Rightarrow> crypto_ops \<Rightarrow> env \<Rightarrow> scrape_options
     \<Rightarrow> (core_error, fingerprint_profile \<times> soft_tls_impersonate option) result" where
  "scrape_fingerprint quote ops env opts =
     bind_res (map_err (\<lambda>e. TlsCapture (''fingerprint seed violated security-critical TLS invariants: '' @ e))
       (generate_validated quote ops env (scrape_seed ops opts))) (\<lambda>fp. soften_tls quote ops opts fp)"

definition scrape_viewport :: "scrape_options \<Rightarrow> fingerprint_profile \<Rightarrow> nat \<times> nat" where
  "scrape_viewport opts fp =
     (if so_viewport opts = DEFAULT_VIEWPORT then fp_viewport fp
      else so_viewport opts)"

fun validate_pairs :: "headers \<Rightarrow> (core_error, unit) result" where
  "validate_pairs [] = Inr ()"
| "validate_pairs ((name, v) # hs) = bind_res (validate_header_pair name v) (\<lambda>_. validate_pairs hs)"

definition scrape_headers :: "scrape_options \<Rightarrow> fingerprint_profile \<Rightarrow> (core_error, headers) result" where
  "scrape_headers opts fp =
     bind_res (validate_caller_headers (so_headers opts)) (\<lambda>_.
     let effective = effective_fingerprint_headers fp (so_headers opts)
     in bind_res (validate_pairs effective) (\<lambda>_. Inr effective))"

definition scrape_proxy_plan :: "scrape_options \<Rightarrow> proxy_plan" where
  "scrape_proxy_plan opts =
     \<lparr> pn_explicit_url = so_proxy opts,
       pn_username = \<lparr> uo_country = so_proxy_country opts, uo_session = so_proxy_session opts,
                      uo_template = so_proxy_username_template opts \<rparr>,
       pn_required = so_proxy_class opts,
       pn_configured = (case so_proxy_class opts of
          Some c \<Rightarrow> if requires_upstream c then Some c else None | None \<Rightarrow> None) \<rparr>"

record prepared =
  pp_formats :: "fmt list"
  pp_method :: string
  pp_fingerprint :: fingerprint_profile
  pp_soft_tls :: "soft_tls_impersonate option"
  pp_viewport :: "nat \<times> nat"
  pp_headers :: headers
  pp_proxy :: "proxy_config option"
  pp_class :: proxy_class

definition prepare ::
    "(string \<Rightarrow> string) \<Rightarrow> (string \<Rightarrow> string + json) \<Rightarrow> crypto_ops \<Rightarrow> 'u login_ops \<Rightarrow> env \<Rightarrow> scrape_options \<Rightarrow> 'u
     \<Rightarrow> (core_error, prepared) result" where
  "prepare quote parse_json ops L env opts url =
     (let formats = requested_formats opts in
      bind_res (normalize_method (Some (so_method opts))) (\<lambda>m.
      bind_res (validate_method_body m (so_body opts)) (\<lambda>_.
      bind_res (refuse_structured parse_json env opts formats) (\<lambda>_.
      bind_res (scrape_fingerprint quote ops env opts) (\<lambda>(fp, soft).
      bind_res (scrape_headers opts fp) (\<lambda>hs.
      bind_res (resolve_proxy_plan L env (scrape_proxy_plan opts) url) (\<lambda>proxy.
      bind_res (truthful_proxy_class proxy (so_proxy_class opts)) (\<lambda>class.
        Inr \<lparr> pp_formats = formats, pp_method = m, pp_fingerprint = fp, pp_soft_tls = soft,
              pp_viewport = scrape_viewport opts fp, pp_headers = hs, pp_proxy = proxy,
              pp_class = class \<rparr>))))))))"

section \<open>The hard path\<close>

definition or_value :: "'a option \<Rightarrow> 'a \<Rightarrow> 'a" where
  "or_value x d = (case x of Some a \<Rightarrow> a | None \<Rightarrow> d)"

definition wants_residential_slot :: "env \<Rightarrow> scrape_options \<Rightarrow> prepared \<Rightarrow> bool" where
  "wants_residential_slot env opts p \<longleftrightarrow>
     env_truthy env ''BASECRAWL_LIVE_PROXY'' \<and> pp_proxy p \<noteq> None
     \<and> or_value (so_proxy_class opts) (pp_class p) \<in> {Residential, Mobile}"

definition needs_browser_formats :: "scrape_options \<Rightarrow> fmt list \<Rightarrow> bool" where
  "needs_browser_formats opts formats \<longleftrightarrow>
     list_ex (\<lambda>f. f = Screenshot \<or> f = Markdown \<or> f = Html) formats \<or> so_follow_pagination opts"

definition hard_decision :: "scrape_options \<Rightarrow> prepared \<Rightarrow> hard_path_decision" where
  "hard_decision opts p =
     \<lparr> hp_proxy_class = Some (or_value (so_proxy_class opts) (pp_class p)), hp_difficulty = so_difficulty opts,
       hp_force_browser = so_force_browser opts, hp_render_enabled = so_render_enabled opts,
       hp_needs_browser_formats = needs_browser_formats opts (pp_formats p) \<rparr>"

definition STEALTH_INJECT_REQUIRED :: string where
  "STEALTH_INJECT_REQUIRED = ''stealth inject is required on the hard Chromium path; refuse silent success ''
     @ ''without Page.addScriptToEvaluateOnNewDocument install (VAL-CDP-008)''"

definition stealth_inject_enabled :: "env \<Rightarrow> scrape_options \<Rightarrow> bool" where
  "stealth_inject_enabled env opts \<longleftrightarrow>
     so_stealth_inject opts \<and> \<not> env_truthy env ''BASECRAWL_DISABLE_STEALTH_INJECT''"

fun policy_error :: "stealth_policy_error \<Rightarrow> core_error" where
  "policy_error (HardPathDisabled reason) = HardPath reason"
| "policy_error (Profile detail) = HardPath detail"

record browser_plan =
  bp_hard :: bool
  bp_inject :: bool
  bp_browser :: bool

definition browser_plan_of :: "env \<Rightarrow> scrape_options \<Rightarrow> prepared \<Rightarrow> (core_error, browser_plan) result" where
  "browser_plan_of env opts p =
     (let hard = requires_chromium_hard_path (hard_decision opts p);
          inject = stealth_inject_enabled env opts
      in if eq_ic (pp_method p) ''POST'' \<and> hard then Inl PostNotSupportedOnHardPath
         else if hard \<and> \<not> inject then Inl (HardPath STEALTH_INJECT_REQUIRED)
         else bind_res (if eq_ic (pp_method p) ''POST'' then Inr False
                        else map_err policy_error (will_launch_chromium (hard_decision opts p) hard)) (\<lambda>browser.
           Inr \<lparr> bp_hard = hard, bp_inject = inject, bp_browser = browser \<rparr>))"

definition sticky_key :: "scrape_options \<Rightarrow> string" where
  "sticky_key opts =
     (case nonempty (so_task_id opts) of
        Some t \<Rightarrow> t
      | None \<Rightarrow> (case so_proxy_session opts of Some s \<Rightarrow> s | None \<Rightarrow> ''anonymous''))"

definition scrape_fetch_config :: "scrape_options \<Rightarrow> 'u \<Rightarrow> prepared \<Rightarrow> ('u, proxy_config) fetch_config" where
  "scrape_fetch_config opts url p =
     \<lparr> fc_timeout = so_timeout_secs opts, fc_headers = pp_headers p, fc_credential_origin = Some url,
       fc_user_agent = fp_user_agent (pp_fingerprint p), fc_insecure = so_insecure opts,
       fc_max_body_bytes = so_max_body_bytes opts, fc_crawl_delay = so_crawl_delay_ms opts,
       fc_tls13_cipher_names = fp_tls13_cipher_names (pp_fingerprint p),
       fc_tls_group_order = fp_tls_group_order (pp_fingerprint p), fc_proxy = pp_proxy p,
       fc_method = pp_method p, fc_body = so_body opts \<rparr>"

end
