(* ===== verification/Markdown.thy ===== *)
theory Markdown
  imports Page_Links
begin

text \<open>
  The \<^verbatim>\<open>markdown\<close> format of \<^verbatim>\<open>basecrawl-core/src/markdown.rs\<close>. The HTML parser belongs to the third-party
  \<^verbatim>\<open>scraper\<close> crate: \<open>dom_ops\<close> extends \<open>html_ops\<close> with the tree of the first element that a selector
  matches and the root of the document. A tree is what \<^verbatim>\<open>ego_tree\<close> gives: elements, texts, and nodes of other kinds.
\<close>

datatype html_node =
    Elem string "(string \<times> string) list" "html_node list"
  | TextNode string
  | OtherNode "html_node list"

record 'd dom_ops = "'d html_ops" +
  d_first :: "string \<Rightarrow> 'd \<Rightarrow> html_node option"
  d_root :: "'d \<Rightarrow> html_node"

fun children_of :: "html_node \<Rightarrow> html_node list" where
  "children_of (Elem n a cs) = cs"
| "children_of (TextNode t) = []"
| "children_of (OtherNode cs) = cs"

abbreviation LF :: char where
  "LF \<equiv> CHR 0x0A"

abbreviation tick :: char where
  "tick \<equiv> CHR 0x60"

record 'u converter =
  cv_url :: "'u url_ops"
  cv_base :: 'u
  cv_preserve_semantic_headers :: bool

definition is_block :: "string \<Rightarrow> bool" where
  "is_block name \<longleftrightarrow> name \<in> set [''address'', ''article'', ''aside'', ''blockquote'', ''details'', ''dialog'', ''dd'',
     ''div'', ''dl'', ''dt'', ''fieldset'', ''figcaption'', ''figure'', ''footer'', ''form'', ''h1'', ''h2'', ''h3'',
     ''h4'', ''h5'', ''h6'', ''header'', ''hgroup'', ''hr'', ''li'', ''main'', ''nav'', ''ol'', ''p'', ''pre'',
     ''section'', ''table'', ''ul'']"

definition is_skipped :: "string \<Rightarrow> bool" where
  "is_skipped name \<longleftrightarrow>
     name \<in> set [''script'', ''style'', ''noscript'', ''template'', ''svg'', ''head'', ''title'']"

definition is_boilerplate :: "string \<Rightarrow> bool" where
  "is_boilerplate name \<longleftrightarrow> name \<in> set [''nav'', ''header'', ''footer'', ''aside'']"

definition strips :: "'u converter \<Rightarrow> string \<Rightarrow> bool" where
  "strips C name \<longleftrightarrow> is_boilerplate name \<and> \<not> (cv_preserve_semantic_headers C \<and> name = ''header'')"

section \<open>Inline text\<close>

text \<open>\<^verbatim>\<open>char::is_whitespace\<close> decides; a run of such characters becomes one space.\<close>

function collapse_from :: "bool \<Rightarrow> string \<Rightarrow> string" where
  "collapse_from prev [] = []"
| "collapse_from prev (c # cs) =
     (let n = ws_len (c # cs)
      in if n = 0 then c # collapse_from False cs
         else (if prev then [] else '' '') @ collapse_from True (drop n (c # cs)))"
  by pat_completeness auto
termination by (relation "measure (length \<circ> snd)") auto

definition collapse_ws :: "string \<Rightarrow> string" where
  "collapse_ws s = collapse_from False s"

definition starts_ws :: "string \<Rightarrow> bool" where
  "starts_ws s \<longleftrightarrow> ws_len s \<noteq> 0"

definition ends_ws :: "string \<Rightarrow> bool" where
  "ends_ws s \<longleftrightarrow> rws_len (rev s) \<noteq> 0"

definition emphasis_wrap :: "string \<Rightarrow> string \<Rightarrow> string" where
  "emphasis_wrap original replacement =
     (if starts_ws original then '' '' else []) @ replacement @ (if ends_ws original then '' '' else [])"

definition wrap_emphasis :: "string \<Rightarrow> string \<Rightarrow> string" where
  "wrap_emphasis inner marker =
     (if trim inner = [] then inner
      else (if starts_ws inner then '' '' else []) @ marker @ trim inner @ marker
           @ (if ends_ws inner then '' '' else []))"

definition resolve_target :: "'u converter \<Rightarrow> string \<Rightarrow> string option" where
  "resolve_target C target =
     (if trim target = [] then None
      else map_option (url_string (cv_url C)) (url_join (cv_url C) (cv_base C) (trim target)))"

definition render_img :: "'u converter \<Rightarrow> (string \<times> string) list \<Rightarrow> string" where
  "render_img C attrs =
     (case (case map_of attrs ''src'' of Some s \<Rightarrow> Some s | None \<Rightarrow> map_of attrs ''data-src'') of
        None \<Rightarrow> []
      | Some src \<Rightarrow>
          if trim src = [] then []
          else ''!['' @ (case map_of attrs ''alt'' of Some a \<Rightarrow> a | None \<Rightarrow> []) @ '']('' @
               (case resolve_target C src of Some u \<Rightarrow> u | None \<Rightarrow> src) @ '')'')"

fun collect_raw_text :: "html_node list \<Rightarrow> string" where
  "collect_raw_text [] = []"
| "collect_raw_text (TextNode t # ns) = t @ collect_raw_text ns"
| "collect_raw_text (Elem n a cs # ns) = (if is_skipped n then [] else collect_raw_text cs) @ collect_raw_text ns"
| "collect_raw_text (OtherNode cs # ns) = collect_raw_text ns"

fun inline_node :: "'u converter \<Rightarrow> html_node \<Rightarrow> string"
and inline_children :: "'u converter \<Rightarrow> html_node list \<Rightarrow> string" where
  "inline_node C (TextNode t) = collapse_ws t"
| "inline_node C (OtherNode cs) = []"
| "inline_node C (Elem name attrs cs) =
     (if is_skipped name then []
      else if name = ''a'' then
        (let text = inline_children C cs
         in case Option.bind (map_of attrs ''href'') (resolve_target C) of
              None \<Rightarrow> text
            | Some url \<Rightarrow>
                if trim text = [] then text
                else emphasis_wrap text (''['' @ trim text @ '']('' @ url @ '')''))
      else if name = ''img'' then render_img C attrs
      else if name = ''br'' then '''' @ '' '' @ '' '' @ [LF]
      else if name = ''strong'' \<or> name = ''b'' then wrap_emphasis (inline_children C cs) ''**''
      else if name = ''em'' \<or> name = ''i'' then wrap_emphasis (inline_children C cs) ''*''
      else if name = ''code'' then
        (if collect_raw_text cs = [] then [] else [tick] @ collect_raw_text cs @ [tick])
      else if name = ''wbr'' then []
      else inline_children C cs)"
| "inline_children C [] = []"
| "inline_children C (n # ns) = inline_node C n @ inline_children C ns"

section \<open>Blocks\<close>

definition flush_inline :: "string \<Rightarrow> string list" where
  "flush_inline inline = (if trim inline = [] then [] else [trim inline])"

definition heading_level :: "string \<Rightarrow> nat" where
  "heading_level name = (case parse_unsigned 10 (2 ^ 64 - 1) (drop 1 name) of Some l \<Rightarrow> l | None \<Rightarrow> 1)"

text \<open>Lists. The second function renders the lists that are children of an item, one level deeper.\<close>

definition is_list :: "string \<Rightarrow> bool" where
  "is_list name \<longleftrightarrow> name = ''ul'' \<or> name = ''ol''"

fun item_inline :: "'u converter \<Rightarrow> html_node list \<Rightarrow> string" where
  "item_inline C [] = []"
| "item_inline C (Elem n a cs # ns) =
     (if is_list n \<or> is_skipped n \<or> strips C n then [] else inline_node C (Elem n a cs)) @ item_inline C ns"
| "item_inline C (n # ns) = inline_node C n @ item_inline C ns"

fun render_list :: "'u converter \<Rightarrow> bool \<Rightarrow> nat \<Rightarrow> nat \<Rightarrow> html_node list \<Rightarrow> string list"
and nested_lists :: "'u converter \<Rightarrow> nat \<Rightarrow> html_node list \<Rightarrow> string list" where
  "render_list C ordered depth index [] = []"
| "render_list C ordered depth index (Elem n a cs # ns) =
     (if n \<noteq> ''li'' then render_list C ordered depth index ns
      else (concat (replicate depth '' '') @ concat (replicate depth '' '')
             @ (if ordered then show_nat index @ ''.'' else ''-'') @ '' '' @ trim (item_inline C cs))
           # nested_lists C (depth + 1) cs @ render_list C ordered depth (index + 1) ns)"
| "render_list C ordered depth index (TextNode t # ns) = render_list C ordered depth index ns"
| "render_list C ordered depth index (OtherNode cs # ns) = render_list C ordered depth index ns"
| "nested_lists C depth [] = []"
| "nested_lists C depth (Elem n a cs # ns) =
     (if is_list n then render_list C (n = ''ol'') depth 1 cs else []) @ nested_lists C depth ns"
| "nested_lists C depth (TextNode t # ns) = nested_lists C depth ns"
| "nested_lists C depth (OtherNode cs # ns) = nested_lists C depth ns"

text \<open>Tables.\<close>

definition cell_text :: "string \<Rightarrow> string" where
  "cell_text text =
     concat (map (\<lambda>c. if c = LF then '' '' else if c = CHR 0x7C then [CHR 0x5C, CHR 0x7C] else [c]) (trim text))"

fun row_cells :: "'u converter \<Rightarrow> html_node list \<Rightarrow> (bool \<times> string) list" where
  "row_cells C [] = []"
| "row_cells C (Elem n a cs # ns) =
     (if n = ''th'' \<or> n = ''td'' then [(n = ''th'', cell_text (inline_children C cs))] else []) @ row_cells C ns"
| "row_cells C (n # ns) = row_cells C ns"

definition table_row :: "'u converter \<Rightarrow> bool \<Rightarrow> html_node list \<Rightarrow> (bool \<times> string list) list" where
  "table_row C in_thead cs =
     (let cells = row_cells C cs
      in if cells = [] then [] else [(in_thead \<or> list_all fst cells, map snd cells)])"

fun collect_rows :: "'u converter \<Rightarrow> bool \<Rightarrow> html_node list \<Rightarrow> (bool \<times> string list) list" where
  "collect_rows C in_thead [] = []"
| "collect_rows C in_thead (Elem n a cs # ns) =
     (if n = ''thead'' then collect_rows C True cs
      else if n = ''tbody'' \<or> n = ''tfoot'' then collect_rows C False cs
      else if n = ''tr'' then table_row C in_thead cs
      else collect_rows C in_thead cs) @ collect_rows C in_thead ns"
| "collect_rows C in_thead (TextNode t # ns) = collect_rows C in_thead ns"
| "collect_rows C in_thead (OtherNode cs # ns) = collect_rows C in_thead ns"

definition render_row :: "string list \<Rightarrow> nat \<Rightarrow> string" where
  "render_row cells cols =
     ''| '' @ join '' | '' (take cols (cells @ replicate (cols - length cells) [])) @ '' |''"

definition render_table :: "'u converter \<Rightarrow> html_node list \<Rightarrow> string option" where
  "render_table C table =
     (let rows = collect_rows C False table;
          cols = foldr max (map (\<lambda>(_, cells). length cells) rows) 0
      in case rows of
           [] \<Rightarrow> None
         | (is_header, first) # rest \<Rightarrow>
             if cols = 0 then None
             else let (header, body) = (if is_header then (first, rest) else (replicate cols [], rows))
                  in Some (join [LF] (render_row header cols
                       # (''| '' @ join '' | '' (replicate cols ''---'') @ '' |'')
                       # map (\<lambda>(_, cells). render_row cells cols) body)))"

text \<open>Code.\<close>

fun longest_ticks :: "nat \<Rightarrow> nat \<Rightarrow> string \<Rightarrow> nat" where
  "longest_ticks longest current [] = longest"
| "longest_ticks longest current (c # cs) =
     (if c = tick then longest_ticks (max longest (current + 1)) (current + 1) cs
      else longest_ticks longest 0 cs)"

definition code_fence :: "string \<Rightarrow> string" where
  "code_fence raw = replicate (max (longest_ticks 0 0 raw + 1) 3) tick"

definition language_hint :: "string \<Rightarrow> string option" where
  "language_hint token =
     (case (case strip_prefix ''language-'' token of Some l \<Rightarrow> Some l | None \<Rightarrow> strip_prefix ''lang-'' token) of
        Some l \<Rightarrow> if l = [] then None else Some l
      | None \<Rightarrow> None)"

fun first_match :: "('a \<Rightarrow> 'b option) \<Rightarrow> 'a list \<Rightarrow> 'b option" where
  "first_match f [] = None"
| "first_match f (x # xs) = (case f x of Some y \<Rightarrow> Some y | None \<Rightarrow> first_match f xs)"

fun code_class_hint :: "html_node \<Rightarrow> string option" where
  "code_class_hint (Elem n attrs cs) =
     (if n = ''code'' then
        (case map_of attrs ''class'' of
           Some cl \<Rightarrow> first_match language_hint (split_whitespace cl) | None \<Rightarrow> None)
      else None)"
| "code_class_hint _ = None"

definition code_language :: "html_node list \<Rightarrow> string option" where
  "code_language cs = first_match code_class_hint cs"

definition code_block :: "string \<Rightarrow> string \<Rightarrow> string" where
  "code_block lang raw =
     (let fence = code_fence raw
      in fence @ lang @ [LF] @ raw @ (if ends_with raw [LF] then [] else [LF]) @ fence)"

definition render_pre :: "html_node list \<Rightarrow> string" where
  "render_pre cs = code_block (case code_language cs of Some l \<Rightarrow> l | None \<Rightarrow> []) (collect_raw_text cs)"

definition quote_lines :: "string \<Rightarrow> string" where
  "quote_lines inner = join [LF] (map (\<lambda>line. if line = [] then ''>'' else ''> '' @ line) (lines inner))"

fun render_blocks :: "'u converter \<Rightarrow> string \<Rightarrow> html_node list \<Rightarrow> string list"
and render_block_element :: "'u converter \<Rightarrow> string \<Rightarrow> html_node list \<Rightarrow> string list" where
  "render_blocks C inline [] = flush_inline inline"
| "render_blocks C inline (TextNode t # ns) = render_blocks C (inline @ collapse_ws t) ns"
| "render_blocks C inline (OtherNode cs # ns) = render_blocks C inline ns"
| "render_blocks C inline (Elem name attrs cs # ns) =
     (if is_skipped name \<or> strips C name then render_blocks C inline ns
      else if is_block name
      then flush_inline inline @ render_block_element C name cs @ render_blocks C [] ns
      else render_blocks C (inline @ inline_node C (Elem name attrs cs)) ns)"
| "render_block_element C name cs =
     (if name \<in> set [''h1'', ''h2'', ''h3'', ''h4'', ''h5'', ''h6''] then
        (let text = trim (inline_children C cs)
         in if text = [] then [] else [replicate (heading_level name) (CHR 0x23) @ '' '' @ text])
      else if name = ''ul'' \<or> name = ''ol'' then
        (let ls = render_list C (name = ''ol'') 0 1 cs in if ls = [] then [] else [join [LF] ls])
      else if name = ''table'' then (case render_table C cs of Some t \<Rightarrow> [t] | None \<Rightarrow> [])
      else if name = ''pre'' then [render_pre cs]
      else if name = ''blockquote'' then
        (let quoted = quote_lines (join [LF, LF] (render_blocks C [] cs))
         in if trim quoted = [] then [] else [quoted])
      else if name = ''hr'' then [''---'']
      else if name = ''p'' then flush_inline (inline_children C cs)
      else render_blocks C [] cs)"

section \<open>The page\<close>

definition ticks :: "string \<Rightarrow> nat" where
  "ticks line = length (takeWhile (\<lambda>c. c = tick) line)"

definition opening_fence_len :: "string \<Rightarrow> nat option" where
  "opening_fence_len line = (if 3 \<le> ticks line then Some (ticks line) else None)"

definition is_closing_fence :: "string \<Rightarrow> nat \<Rightarrow> bool" where
  "is_closing_fence line opening \<longleftrightarrow> opening \<le> ticks line \<and> trim (drop (ticks line) line) = []"

text \<open>One line at a time: the open fence and the blank lines before, the lines to emit.\<close>

definition normal_line :: "nat option \<Rightarrow> nat \<Rightarrow> string \<Rightarrow> nat option \<times> nat \<times> string list" where
  "normal_line fence blanks line =
     (case fence of
        Some opening \<Rightarrow> (if is_closing_fence line opening then None else Some opening, 0, [line])
      | None \<Rightarrow>
          (case opening_fence_len line of
             Some opening \<Rightarrow> (Some opening, 0, [line])
           | None \<Rightarrow>
               if trim_end line = [] then (None, blanks + 1, if 1 < blanks + 1 then [] else [[]])
               else (None, 0, [trim_end line])))"

fun normal_lines :: "nat option \<Rightarrow> nat \<Rightarrow> string list \<Rightarrow> nat option \<times> nat \<times> string list" where
  "normal_lines fence blanks [] = (fence, blanks, [])"
| "normal_lines fence blanks (line # ls) =
     (let (fence, blanks, out) = normal_line fence blanks line;
          (fence, blanks, rest) = normal_lines fence blanks ls
      in (fence, blanks, out @ rest))"

definition normalize_markdown :: "string \<Rightarrow> string" where
  "normalize_markdown markdown =
     trim (concat (map (\<lambda>line. line @ [LF]) (snd (snd (normal_lines None 0 (split_on LF markdown))))))"

definition main_content_root :: "'d dom_ops \<Rightarrow> 'd \<Rightarrow> html_node \<times> bool" where
  "main_content_root H doc =
     (case first_match (\<lambda>selector. d_first H selector doc)
             [''main'', ''article'', ''[role='' @ [CHR 0x22] @ ''main'' @ [CHR 0x22] @ '']'', ''[role=main]''] of
        Some root \<Rightarrow> (root, True)
      | None \<Rightarrow> (case d_first H ''body'' doc of Some root \<Rightarrow> (root, False) | None \<Rightarrow> (d_root H doc, False)))"

definition to_markdown :: "'u url_ops \<Rightarrow> 'd dom_ops \<Rightarrow> string \<Rightarrow> 'u \<Rightarrow> string" where
  "to_markdown U H html page =
     (let doc = h_parse H html;
          (root, preserve) = main_content_root H doc;
          C = \<lparr> cv_url = U, cv_base = document_base U (html_ops.truncate H) doc page,
                cv_preserve_semantic_headers = preserve \<rparr>
      in normalize_markdown (join [LF, LF] (render_blocks C [] (children_of root))))"

section \<open>Code survives\<close>

lemma split_on_sep: "split_on d (a @ d # b) = split_on d a @ split_on d b"
proof (induction a)
  case (Cons c a)
  obtain w ws where "split_on d a = w # ws" by (cases "split_on d a") auto
  with Cons show ?case by simp
qed simp

lemma concat_lines: "concat (map (\<lambda>l. l @ [d]) (split_on d s)) = s @ [d]"
proof (induction s)
  case (Cons c s)
  obtain w ws where "split_on d s = w # ws" by (cases "split_on d s") auto
  with Cons show ?case by auto
qed simp

lemma split_on_part: "l \<in> set (split_on d s) \<Longrightarrow> \<exists>a b. s = a @ l @ b"
proof (induction s arbitrary: l)
  case (Cons c s)
  obtain w ws where w: "split_on d s = w # ws" by (cases "split_on d s") auto
  obtain r where r: "s = w @ r"
    using hd_split_on[of d s] w takeWhile_dropWhile_id[of "\<lambda>c. c \<noteq> d" s] by (metis list.sel(1))
  consider "c = d" "l = []" | "l \<in> set (split_on d s)" | "c \<noteq> d" "l = c # w"
    using Cons.prems w by (auto split: if_splits)
  then show ?case
  proof cases
    case 2
    then obtain a b where "s = a @ l @ b" using Cons.IH by blast
    then have "c # s = (c # a) @ l @ b" by simp
    then show ?thesis by blast
  next
    case 3
    with r have "c # s = [] @ l @ r" by simp
    then show ?thesis by blast
  qed auto
qed simp

lemma longest_ticks_mono: "L \<le> L' \<Longrightarrow> c \<le> c' \<Longrightarrow> longest_ticks L c s \<le> longest_ticks L' c' s"
proof (induction L c s arbitrary: L' c' rule: longest_ticks.induct)
  case (2 L c x s)
  have "max L (c + 1) \<le> max L' (c' + 1)" using 2(3,4) by auto
  with 2 show ?case by simp
qed simp

lemma longest_ticks_suffix: "longest_ticks 0 0 s \<le> longest_ticks L c (a @ s)"
  by (induction a arbitrary: L c) (auto intro: longest_ticks_mono)

lemma longest_ticks_base: "L \<le> longest_ticks L c s"
  by (induction L c s rule: longest_ticks.induct) auto

lemma longest_ticks_run: "longest_ticks L c (replicate (Suc k) tick @ s) \<ge> c + Suc k"
proof (induction k arbitrary: L c)
  case 0
  show ?case using longest_ticks_base[of "max L (c + 1)" "c + 1" s] by simp
next
  case (Suc k)
  have "longest_ticks L c (replicate (Suc (Suc k)) tick @ s)
      = longest_ticks (max L (c + 1)) (c + 1) (replicate (Suc k) tick @ s)" by simp
  then show ?case using Suc[where L = "max L (c + 1)" and c = "c + 1"] by linarith
qed

lemma takeWhile_ticks: "takeWhile (\<lambda>c. c = tick) l = replicate (ticks l) tick"
  unfolding ticks_def by (induction l) auto

lemma ticks_bounded:
  assumes "l \<in> set (split_on d raw)"
  shows "ticks l \<le> longest_ticks 0 0 raw"
proof (cases "ticks l")
  case (Suc k)
  obtain a b where "raw = a @ l @ b" using split_on_part[OF assms] by blast
  moreover have "l = replicate (Suc k) tick @ dropWhile (\<lambda>c. c = tick) l"
    using takeWhile_dropWhile_id[of "\<lambda>c. c = tick" l] by (simp add: takeWhile_ticks Suc)
  ultimately have raw: "raw = a @ (replicate (Suc k) tick @ dropWhile (\<lambda>c. c = tick) l @ b)" by simp
  have "Suc k \<le> longest_ticks 0 0 (replicate (Suc k) tick @ dropWhile (\<lambda>c. c = tick) l @ b)"
    using longest_ticks_run[of 0 k 0] by simp
  also have "\<dots> \<le> longest_ticks 0 0 raw" unfolding raw by (rule longest_ticks_suffix)
  finally show ?thesis using Suc by simp
qed simp

text \<open>The lines of the code between the fences.\<close>

definition code_lines :: "string \<Rightarrow> string list" where
  "code_lines raw = split_on LF (if ends_with raw [LF] then butlast raw else raw)"

lemma code_lines_open:
  assumes "l \<in> set (code_lines raw)"
  shows "\<not> is_closing_fence l (length (code_fence raw))"
proof -
  have "ticks l \<le> longest_ticks 0 0 raw"
  proof (cases "ends_with raw [LF]")
    case True
    then obtain r where r: "raw = r @ [LF]" by (auto simp: ends_with_def starts_with_iff rev_swap)
    with True assms have "l \<in> set (split_on LF raw)" using split_on_sep[of LF r "[]"] by (simp add: code_lines_def)
    then show ?thesis by (rule ticks_bounded)
  qed (use assms ticks_bounded in \<open>simp add: code_lines_def\<close>)
  then show ?thesis by (simp add: is_closing_fence_def code_fence_def)
qed

lemma no_LF_fence: "LF \<notin> set (code_fence raw)"
  by (simp add: code_fence_def)

lemma split_code_block:
  assumes "LF \<notin> set lang"
  shows "split_on LF (code_block lang raw) = (code_fence raw @ lang) # code_lines raw @ [code_fence raw]"
proof -
  have f: "split_on LF (code_fence raw) = [code_fence raw]" using no_LF_fence by (rule split_on_single)
  have head: "split_on LF (code_fence raw @ lang @ LF # s) = (code_fence raw @ lang) # split_on LF s" for s
    using split_on_append[of LF "code_fence raw @ lang" s] assms no_LF_fence by simp
  show ?thesis
  proof (cases "ends_with raw [LF]")
    case True
    then obtain r where r: "raw = r @ [LF]" by (auto simp: ends_with_def starts_with_iff rev_swap)
    have "code_block lang raw = code_fence raw @ lang @ LF # (r @ LF # code_fence raw)"
      using True r by (simp add: code_block_def Let_def)
    then show ?thesis using head split_on_sep[of LF r "code_fence raw"] f True r
      by (simp add: code_lines_def)
  next
    case False
    then have "code_block lang raw = code_fence raw @ lang @ LF # (raw @ LF # code_fence raw)"
      by (simp add: code_block_def Let_def)
    then show ?thesis using head split_on_sep[of LF raw "code_fence raw"] f False
      by (simp add: code_lines_def)
  qed
qed

lemma normal_lines_append:
  "normal_lines f k (xs @ ys) =
     (let (f1, k1, o1) = normal_lines f k xs; (f2, k2, o2) = normal_lines f1 k1 ys in (f2, k2, o1 @ o2))"
  by (induction f k xs rule: normal_lines.induct) (auto split: prod.splits)

lemma normal_lines_fenced:
  "\<forall>l \<in> set ls. \<not> is_closing_fence l n \<Longrightarrow> \<exists>k'. normal_lines (Some n) k ls = (Some n, k', ls)"
proof (induction ls arbitrary: k)
  case (Cons l ls)
  then obtain k' where "normal_lines (Some n) 0 ls = (Some n, k', ls)" by force
  with Cons.prems show ?case by (simp add: normal_line_def)
qed simp

lemma ticks_fence: "lang = [] \<or> hd lang \<noteq> tick \<Longrightarrow> ticks (code_fence raw @ lang) = length (code_fence raw)"
  by (cases lang) (auto simp: ticks_def code_fence_def takeWhile_append)

lemma normal_lines_code_block:
  assumes "LF \<notin> set lang" and "lang = [] \<or> hd lang \<noteq> tick"
  shows "normal_lines None k (split_on LF (code_block lang raw)) = (None, 0, split_on LF (code_block lang raw))"
proof -
  let ?f = "code_fence raw"
  have three: "3 \<le> length ?f" by (simp add: code_fence_def)
  have o1: "normal_line None k (?f @ lang) = (Some (length ?f), 0, [?f @ lang])"
    using ticks_fence[OF assms(2)] three by (simp add: normal_line_def opening_fence_len_def)
  have "trim [] = []" by code_simp
  then have close: "normal_line (Some (length ?f)) k' ?f = (None, 0, [?f])" for k'
    using ticks_fence[of "[]" raw] by (simp add: normal_line_def is_closing_fence_def)
  obtain k' where mid: "normal_lines (Some (length ?f)) 0 (code_lines raw) = (Some (length ?f), k', code_lines raw)"
    using normal_lines_fenced[of "code_lines raw" "length ?f" 0] code_lines_open by blast
  show ?thesis
    by (simp add: split_code_block[OF assms(1)] o1 normal_lines_append mid close)
qed

text \<open>A block is sound if it is code whose language hint does not prolong the fence, or text that opens none.\<close>

definition clean_hint :: "html_node list \<Rightarrow> bool" where
  "clean_hint cs \<longleftrightarrow> (case code_language cs of None \<Rightarrow> True | Some lang \<Rightarrow> hd lang \<noteq> tick)"

definition fence_free :: "string \<Rightarrow> bool" where
  "fence_free b \<longleftrightarrow> list_all (\<lambda>l. opening_fence_len l = None) (split_on LF b)"

lemma words_no_LF: "w \<in> set (words_from acc s) \<Longrightarrow> LF \<notin> set acc \<Longrightarrow> LF \<notin> set w"
proof (induction acc s rule: words_from.induct)
  case (2 acc c cs)
  show ?case
  proof (cases "c = LF")
    case True
    have "ws_len (LF # cs) \<noteq> 0" by (cases "LF # cs" rule: ws_len.cases) (auto simp: ws1_def)
    with 2 True show ?thesis by (auto simp: Let_def split: if_splits)
  qed (use 2 in \<open>auto simp: Let_def split: if_splits\<close>)
qed (auto split: if_splits)

lemma first_match_in: "first_match f xs = Some y \<Longrightarrow> \<exists>x \<in> set xs. f x = Some y"
  by (induction xs) (auto split: option.splits)

lemma language_no_LF:
  assumes "code_language cs = Some lang"
  shows "LF \<notin> set lang \<and> lang \<noteq> []"
proof -
  from assms obtain n where "code_class_hint n = Some lang"
    unfolding code_language_def by (blast dest: first_match_in)
  then obtain cl where "first_match language_hint (split_whitespace cl) = Some lang"
    by (cases n rule: code_class_hint.cases) (auto split: if_splits option.splits)
  then obtain t where t: "t \<in> set (split_whitespace cl)" "language_hint t = Some lang"
    by (blast dest: first_match_in)
  then have "LF \<notin> set t" using words_no_LF by (simp add: split_whitespace_def)
  with t(2) show ?thesis
    by (auto simp: language_hint_def strip_prefix_Some_iff split: option.splits if_splits)
qed

lemma normal_lines_pre:
  assumes "clean_hint cs"
  shows "normal_lines None k (split_on LF (render_pre cs)) = (None, 0, split_on LF (render_pre cs))"
  unfolding render_pre_def
  by (rule normal_lines_code_block)
    (use assms language_no_LF[of cs] in \<open>auto simp: clean_hint_def split: option.splits\<close>)

lemma normal_lines_fence_free:
  "list_all (\<lambda>l. opening_fence_len l = None) ls \<Longrightarrow> fst (normal_lines None k ls) = None"
proof (induction ls arbitrary: k)
  case (Cons l ls)
  obtain k' out where "normal_line None k l = (None, k', out)"
    using Cons.prems by (cases "trim_end l = []") (auto simp: normal_line_def)
  with Cons show ?case by (auto split: prod.splits) (metis fst_conv)
qed simp

lemma blocks_kept:
  assumes "\<forall>b \<in> set blocks. fence_free b \<or> (\<exists>cs. clean_hint cs \<and> b = render_pre cs)"
  shows "\<exists>k' out. normal_lines None k (split_on LF (join [LF, LF] blocks)) = (None, k', out)
     \<and> (\<forall>cs. clean_hint cs \<longrightarrow> render_pre cs \<in> set blocks \<longrightarrow> (\<exists>a b. out = a @ split_on LF (render_pre cs) @ b))"
  using assms
proof (induction blocks arbitrary: k rule: induct_list012)
  case 1
  then show ?case by (simp add: normal_line_def opening_fence_len_def ticks_def)
next
  case (2 b)
  obtain f k' out where n: "normal_lines None k (split_on LF b) = (f, k', out)" by (metis prod_cases3)
  have "f = None"
    using 2 n normal_lines_fence_free[of "split_on LF b" k] normal_lines_pre[of _ k] by (auto simp: fence_free_def)
  moreover have "\<exists>a c. out = a @ split_on LF (render_pre cs) @ c" if "clean_hint cs" "render_pre cs = b" for cs
    using n normal_lines_pre[OF that(1), of k] that(2) by (metis append_Nil append_Nil2 prod.inject)
  ultimately show ?case using n by auto
next
  case (3 b v blocks)
  obtain f k1 out1 where n: "normal_lines None k (split_on LF b) = (f, k1, out1)" by (metis prod_cases3)
  have f: "f = None"
    using "3.prems" n normal_lines_fence_free[of "split_on LF b" k] normal_lines_pre[of _ k] by (auto simp: fence_free_def)
  have own: "\<exists>a c. out1 = a @ split_on LF (render_pre cs) @ c" if "clean_hint cs" "render_pre cs = b" for cs
    using n normal_lines_pre[OF that(1), of k] that(2) by (metis append_Nil append_Nil2 prod.inject)
  obtain k2 out2 where blank: "normal_lines None k1 [[]] = (None, k2, out2)"
  proof -
    have "trim_end [] = []" by code_simp
    then show ?thesis using that by (simp add: normal_line_def opening_fence_len_def ticks_def)
  qed
  from "3.IH"(2)[of k2] "3.prems" obtain k3 out3 where
    r: "normal_lines None k2 (split_on LF (join [LF, LF] (v # blocks))) = (None, k3, out3)"
    and rest: "\<forall>cs. clean_hint cs \<longrightarrow> render_pre cs \<in> set (v # blocks) \<longrightarrow>
      (\<exists>a b. out3 = a @ split_on LF (render_pre cs) @ b)" by (metis list.set_intros(2))
  have s: "split_on LF (join [LF, LF] (b # v # blocks))
      = split_on LF b @ [[]] @ split_on LF (join [LF, LF] (v # blocks))"
    using split_on_sep[of LF b "LF # join [LF, LF] (v # blocks)"] split_on_sep[of LF "[]" "join [LF, LF] (v # blocks)"]
    by simp
  have whole: "normal_lines None k (split_on LF (join [LF, LF] (b # v # blocks))) = (None, k3, out1 @ out2 @ out3)"
    unfolding s normal_lines_append[of None k "split_on LF b"] normal_lines_append[of _ _ "[[]]"]
    by (simp only: n f blank r Let_def prod.case)
  have "\<exists>a c. out1 @ out2 @ out3 = a @ split_on LF (render_pre cs) @ c"
    if c: "clean_hint cs" "render_pre cs \<in> set (b # v # blocks)" for cs
  proof (cases "render_pre cs = b")
    case True
    with own[OF c(1)] obtain a d where "out1 = a @ split_on LF (render_pre cs) @ d" by blast
    then show ?thesis by (intro exI[of _ a] exI[of _ "d @ out2 @ out3"]) simp
  next
    case False
    with c have "render_pre cs \<in> set (v # blocks)" by simp
    with rest c(1) obtain a d where "out3 = a @ split_on LF (render_pre cs) @ d" by blast
    then show ?thesis by (intro exI[of _ "out1 @ out2 @ a"] exI[of _ d]) simp
  qed
  with whole show ?case by blast
qed

text \<open>Trimming the ends of a text leaves what begins and ends with a tick.\<close>

lemma ws_len_before_tick: "ws_len (x @ tick # m) \<le> length x"
proof -
  consider "x = []" | a where "x = [a]" | a b where "x = [a, b]" | a b c r where "x = a # b # c # r"
    by (metis neq_Nil_conv)
  then show ?thesis
  proof cases
    case 1
    then show ?thesis by (cases "tick # m" rule: ws_len.cases) (auto simp: ws1_def ws2_def ws3_def)
  next
    case 2
    then show ?thesis by (cases m) (auto simp: ws2_def ws3_def)
  qed (auto simp: ws3_def)
qed

lemma rws_len_before_tick: "rws_len (x @ tick # m) \<le> length x"
proof -
  consider "x = []" | a where "x = [a]" | a b where "x = [a, b]" | a b c r where "x = a # b # c # r"
    by (metis neq_Nil_conv)
  then show ?thesis
  proof cases
    case 1
    then show ?thesis by (cases "tick # m" rule: rws_len.cases) (auto simp: ws1_def ws2_def ws3_def)
  next
    case 2
    then show ?thesis by (cases m) (auto simp: ws2_def ws3_def)
  qed (auto simp: ws3_def)
qed

lemma trim_start_before_tick: "\<exists>y. trim_start (x @ tick # m) = y @ tick # m"
proof (induction x rule: length_induct)
  case (1 x)
  show ?case
  proof (cases "ws_len (x @ tick # m) = 0")
    case False
    let ?n = "ws_len (x @ tick # m)"
    have "drop ?n (x @ tick # m) = drop ?n x @ tick # m" using ws_len_before_tick[of x m] by simp
    moreover have "length (drop ?n x) < length x" using False ws_len_before_tick[of x m] by auto
    ultimately show ?thesis using 1 False by (subst trim_start.simps) auto
  qed (simp add: trim_start.simps)
qed

lemma rtrim_before_tick: "\<exists>y. rtrim (x @ tick # m) = y @ tick # m"
proof (induction x rule: length_induct)
  case (1 x)
  show ?case
  proof (cases "rws_len (x @ tick # m) = 0")
    case False
    let ?n = "rws_len (x @ tick # m)"
    have "drop ?n (x @ tick # m) = drop ?n x @ tick # m" using rws_len_before_tick[of x m] by simp
    moreover have "length (drop ?n x) < length x" using False rws_len_before_tick[of x m] by auto
    ultimately show ?thesis using 1 False by (subst rtrim.simps) auto
  qed (simp add: rtrim.simps)
qed

lemma trim_keeps_ticked: "contains (trim (a @ (tick # m @ [tick]) @ b)) (tick # m @ [tick])"
proof -
  obtain y where y: "trim_start (a @ tick # (m @ [tick] @ b)) = y @ tick # (m @ [tick] @ b)"
    using trim_start_before_tick by blast
  obtain z where "rtrim (rev b @ tick # (rev m @ tick # rev y)) = z @ tick # (rev m @ tick # rev y)"
    using rtrim_before_tick by blast
  then have "trim (a @ (tick # m @ [tick]) @ b) = y @ (tick # m @ [tick]) @ rev z"
    using y by (simp add: trim_def trim_end_def)
  then show ?thesis unfolding contains_iff by blast
qed

lemma render_pre_ticked: "\<exists>m. render_pre cs = tick # m @ [tick]"
proof -
  have "code_fence raw = tick # replicate (max (longest_ticks 0 0 raw + 1) 3 - 1) tick"
    "code_fence raw = replicate (max (longest_ticks 0 0 raw + 1) 3 - 1) tick @ [tick]" for raw
    by (simp_all add: code_fence_def replicate_append_same flip: replicate_Suc)
  then show ?thesis unfolding render_pre_def code_block_def Let_def by (metis append_Cons append_assoc)
qed

text \<open>
  The \<^verbatim>\<open>pre\<close> elements of a page that are blocks of it: those reached through generic block containers only
  (\<^verbatim>\<open>div\<close>, \<^verbatim>\<open>section\<close>, \<^verbatim>\<open>figure\<close> and the like). Site chrome, headings, paragraphs, lists, tables, quotations and
  inline elements render their content otherwise.
\<close>

fun code_blocks :: "'u converter \<Rightarrow> html_node list \<Rightarrow> html_node list list" where
  "code_blocks C [] = []"
| "code_blocks C (TextNode t # ns) = code_blocks C ns"
| "code_blocks C (OtherNode cs # ns) = code_blocks C ns"
| "code_blocks C (Elem name attrs cs # ns) =
     (if is_skipped name \<or> strips C name \<or> \<not> is_block name then []
      else if name = ''pre'' then [cs]
      else if name \<in> set [''h1'', ''h2'', ''h3'', ''h4'', ''h5'', ''h6'', ''ul'', ''ol'', ''table'', ''blockquote'', ''hr'', ''p'']
      then []
      else code_blocks C cs) @ code_blocks C ns"

lemma pre_is_block:
  "render_block_element C ''pre'' cs = [render_pre cs]"
  by simp

lemma container_flattens:
  assumes "name \<notin> set [''h1'', ''h2'', ''h3'', ''h4'', ''h5'', ''h6'', ''ul'', ''ol'', ''table'', ''blockquote'', ''hr'', ''p'']"
    and "name \<noteq> ''pre''"
  shows "render_block_element C name cs = render_blocks C [] cs"
  using assms by simp

lemma code_blocks_rendered:
  "cs \<in> set (code_blocks C ns) \<Longrightarrow> render_pre cs \<in> set (render_blocks C inline ns)"
proof (induction C ns arbitrary: inline rule: code_blocks.induct)
  case (4 C name attrs cs' ns)
  show ?case
  proof (cases "cs \<in> set (code_blocks C ns)")
    case True
    then have "render_pre cs \<in> set (render_blocks C i ns)" for i by (rule "4.IH"(2))
    then show ?thesis by (simp del: render_block_element.simps)
  next
    case False
    let ?special = "set [''h1'', ''h2'', ''h3'', ''h4'', ''h5'', ''h6'', ''ul'', ''ol'', ''table'', ''blockquote'', ''hr'', ''p'']"
    from False "4.prems" have kept: "\<not> (is_skipped name \<or> strips C name \<or> \<not> is_block name)"
      and here: "if name = ''pre'' then cs = cs' else name \<notin> ?special \<and> cs \<in> set (code_blocks C cs')"
      unfolding code_blocks.simps set_append Un_iff by (simp_all split: if_splits)
    have "render_pre cs \<in> set (render_block_element C name cs')"
    proof (cases "name = ''pre''")
      case True
      with here have "cs = cs'" by (simp only: if_True)
      with True show ?thesis by (simp only: pre_is_block list.set insertI1)
    next
      case ordinary: False
      with here have "name \<notin> ?special" "cs \<in> set (code_blocks C cs')" by (simp_all only: if_False not_False_eq_True simp_thms)
      then show ?thesis using container_flattens[OF _ ordinary] "4.IH"(1)[OF kept ordinary] by metis
    qed
    with kept show ?thesis by (simp del: render_block_element.simps)
  qed
qed simp_all

lemma code_in_block: "contains s (render_pre cs) \<Longrightarrow> contains s (collect_raw_text cs)"
  unfolding contains_iff render_pre_def code_block_def Let_def by (metis append_assoc)

text \<open>
  C18: Take a page none of whose other blocks opens a fence and no language hint of which begins with a
  backtick. Then every code block of the page (a \<^verbatim>\<open>pre\<close> element reached through generic block containers; code
  inside quotations, lists, tables, paragraphs and inline elements is not claimed) stands in the Markdown byte
  for byte, blank lines and trailing spaces included, between two fences, and no line of the code closes its
  fence.
\<close>

theorem code_survives:
  assumes "main_content_root H (h_parse H html) = (root, preserve)"
    and "C = \<lparr> cv_url = U, cv_base = document_base U (html_ops.truncate H) (h_parse H html) page,
               cv_preserve_semantic_headers = preserve \<rparr>"
    and "\<forall>b \<in> set (render_blocks C [] (children_of root)). fence_free b \<or> (\<exists>cs. clean_hint cs \<and> b = render_pre cs)"
    and "cs \<in> set (code_blocks C (children_of root))" and "clean_hint cs"
  shows "contains (to_markdown U H html page) (render_pre cs)
     \<and> contains (to_markdown U H html page) (collect_raw_text cs)
     \<and> (\<forall>l \<in> set (code_lines (collect_raw_text cs)). \<not> is_closing_fence l (length (code_fence (collect_raw_text cs))))"
proof -
  let ?blocks = "render_blocks C [] (children_of root)"
  from blocks_kept[OF assms(3), of 0] code_blocks_rendered[OF assms(4)] assms(5) obtain k out a b where
    n: "normal_lines None 0 (split_on LF (join [LF, LF] ?blocks)) = (None, k, out)"
    and o: "out = a @ split_on LF (render_pre cs) @ b" by blast
  let ?cat = "\<lambda>ls. concat (map (\<lambda>l. l @ [LF]) ls)"
  have "to_markdown U H html page = trim (?cat out)"
    using assms(1,2) n by (simp add: to_markdown_def normalize_markdown_def Let_def)
  also have "?cat out = ?cat a @ render_pre cs @ (LF # ?cat b)"
    unfolding o by (simp add: concat_lines)
  finally have "to_markdown U H html page = trim (?cat a @ render_pre cs @ (LF # ?cat b))" .
  moreover obtain m where "render_pre cs = tick # m @ [tick]" using render_pre_ticked by blast
  ultimately have "contains (to_markdown U H html page) (render_pre cs)"
    using trim_keeps_ticked[of "?cat a" m "LF # ?cat b"] by simp
  moreover from this have "contains (to_markdown U H html page) (collect_raw_text cs)"
    by (rule code_in_block)
  ultimately show ?thesis using code_lines_open by blast
qed

text \<open>A page with one paragraph and, inside a figure, one code block with a blank line and trailing spaces.\<close>

definition demo_pre :: "html_node list" where
  "demo_pre = [Elem ''code'' [(''class'', ''language-sh'')] [TextNode (''ls  '' @ [LF, LF] @ ''pwd'')]]"

definition demo_body :: html_node where
  "demo_body = Elem ''body'' [] [Elem ''p'' [] [TextNode ''Use this:''], Elem ''figure'' [] [Elem ''pre'' [] demo_pre]]"

definition demo_dom :: "unit dom_ops" where
  "demo_dom = \<lparr> h_parse = (\<lambda>_. ()), h_select = (\<lambda>_ _. []),
     d_first = (\<lambda>s _. if s = ''body'' then Some demo_body else None), d_root = (\<lambda>_. demo_body) \<rparr>"

lemma demo_blocks: "render_blocks C [] (children_of demo_body) = [''Use this:'', render_pre demo_pre]"
proof -
  have "collapse_ws ''Use this:'' = ''Use this:''" "trim ''Use this:'' = ''Use this:''" "trim [] = []" by code_simp+
  then show ?thesis
    by (simp add: demo_body_def is_skipped_def strips_def is_boilerplate_def is_block_def flush_inline_def)
qed

theorem code_survives_witness:
  "contains (to_markdown demo_url_ops demo_dom [] (site ''/'')) (render_pre demo_pre)
   \<and> render_pre demo_pre = [tick, tick, tick] @ ''sh'' @ [LF] @ ''ls  '' @ [LF, LF] @ ''pwd'' @ [LF, tick, tick, tick]"
proof -
  have m: "main_content_root demo_dom (h_parse demo_dom []) = (demo_body, False)"
    by (simp add: main_content_root_def demo_dom_def)
  have f: "fence_free ''Use this:''" and c: "clean_hint demo_pre" by code_simp+
  from f c have "\<forall>b \<in> set [''Use this:'', render_pre demo_pre]. fence_free b \<or> (\<exists>cs. clean_hint cs \<and> b = render_pre cs)"
    by auto
  then have every: "\<forall>b \<in> set (render_blocks C [] (children_of demo_body)). fence_free b \<or> (\<exists>cs. clean_hint cs \<and> b = render_pre cs)"
    for C :: "'u converter" unfolding demo_blocks .
  have "demo_pre \<in> set (code_blocks C (children_of demo_body))" for C :: "'u converter"
    by (simp add: demo_body_def is_skipped_def strips_def is_boilerplate_def is_block_def)
  then have "contains (to_markdown demo_url_ops demo_dom [] (site ''/'')) (render_pre demo_pre)"
    by (rule conjunct1[OF code_survives[OF m refl every _ c]])
  moreover have "render_pre demo_pre = [tick, tick, tick] @ ''sh'' @ [LF] @ ''ls  '' @ [LF, LF] @ ''pwd'' @ [LF, tick, tick, tick]"
    by code_simp
  ultimately show ?thesis by blast
qed

text \<open>
  What the theorem leaves out: a hint that begins with a backtick prolongs the opening fence, which then
  stays open; code inside a quotation is quoted line by line, so its fence is not recognised and it loses its
  trailing spaces.
\<close>

lemma hint_prolongs_fence:
  "fst (normal_lines None 0 (split_on LF (render_pre
     [Elem ''code'' [(''class'', ''language-'' @ [tick])] [TextNode ''x'']]))) = Some 4"
  by code_simp

lemma quoted_code_loses_spaces:
  "normalize_markdown (quote_lines (render_pre [TextNode ''x  ''])) = normalize_markdown (quote_lines (render_pre [TextNode ''x'']))"
  by code_simp

text \<open>Site chrome is dropped where blocks are rendered, not inside an inline element.\<close>

lemma chrome_dropped_in_blocks:
  "render_blocks C inline (Elem ''nav'' attrs cs # ns) = render_blocks C inline ns"
  by (simp add: strips_def is_boilerplate_def)

lemma chrome_kept_in_inline:
  "render_blocks C [] [Elem ''span'' [] [Elem ''nav'' [] [TextNode ''menu'']]] = [''menu'']"
proof -
  have "collapse_ws ''menu'' = ''menu''" "trim ''menu'' = ''menu''" by code_simp+
  then show ?thesis
    by (simp add: strips_def is_boilerplate_def is_block_def is_skipped_def flush_inline_def)
qed

text \<open>Every row of a table has the same number of cells.\<close>

lemma table_rectangular:
  assumes "render_table C cs = Some t"
  shows "\<exists>cols rows. 0 < cols \<and> 2 \<le> length rows \<and> t = join [LF] (map (\<lambda>r. ''| '' @ join '' | '' r @ '' |'') rows)
     \<and> (\<forall>r \<in> set rows. length r = cols)"
proof -
  let ?w = "\<lambda>cols cells. take cols (cells @ replicate (cols - length cells) [])"
  let ?cols = "foldr max (map (\<lambda>(_, cells). length cells) (collect_rows C False cs)) 0"
  obtain h first rest where r: "collect_rows C False cs = (h, first) # rest"
    using assms by (cases "collect_rows C False cs") (auto simp: render_table_def)
  define header body where "header = (if h then first else replicate ?cols [])"
    and "body = (if h then rest else (h, first) # rest)"
  define cols where "cols = ?cols"
  have "render_table C cs = (if cols = 0 then None
      else Some (join [LF] (render_row header cols # (''| '' @ join '' | '' (replicate cols ''---'') @ '' |'')
        # map (\<lambda>(_, cells). render_row cells cols) body)))"
    unfolding render_table_def Let_def r header_def body_def cols_def by (cases h) simp_all
  with assms have c: "cols \<noteq> 0"
    and t: "t = join [LF] (render_row header cols # (''| '' @ join '' | '' (replicate cols ''---'') @ '' |'')
      # map (\<lambda>(_, cells). render_row cells cols) body)"
    by (auto split: if_splits)
  show ?thesis
  proof (rule exI[of _ cols], rule exI[of _ "?w cols header # replicate cols ''---'' # map (?w cols \<circ> snd) body"], intro conjI)
    show "t = join [LF] (map (\<lambda>r. ''| '' @ join '' | '' r @ '' |'')
        (?w cols header # replicate cols ''---'' # map (?w cols \<circ> snd) body))"
      by (simp add: t render_row_def comp_def case_prod_beta')
  qed (use c in auto)
qed

end
