(* ===== verification/Document.thy ===== *)
theory Document
  imports Product_Options
begin

text \<open>
  Text extraction for PDF and office bodies, \<^verbatim>\<open>basecrawl-core/src/document.rs\<close>. The PDF, ZIP and XML readers
  are third-party: \<open>document_readers\<close> is what the source uses of them. A member of an archive is read through
  \<open>zf_read\<close>, which gives at most as many bytes as it is asked for.
\<close>

datatype doc_event =
    DocText "(string, string) result"
  | DocCData "(string, string) result"
  | DocEmpty string
  | DocEnd string
  | DocEof
  | DocError string
  | DocOther

record zip_file =
  zf_name :: string
  zf_size :: nat
  zf_read :: "nat \<Rightarrow> (string, string) result"

record document_readers =
  dr_pdf :: "string \<Rightarrow> (string, string) result"
  dr_zip :: "string \<Rightarrow> (string, nat) result"
  dr_by_index :: "string \<Rightarrow> nat \<Rightarrow> (string, zip_file) result"
  dr_utf8_error :: "string \<Rightarrow> string"
  dr_xml :: "string \<Rightarrow> doc_event list"

definition MAX_OFFICE_PART_BYTES :: nat where
  "MAX_OFFICE_PART_BYTES = 4 * 1024 * 1024"

definition MAX_OFFICE_TEXT_BYTES :: nat where
  "MAX_OFFICE_TEXT_BYTES = 4 * 1024 * 1024"

definition MAX_OFFICE_ARCHIVE_ENTRIES :: nat where
  "MAX_OFFICE_ARCHIVE_ENTRIES = 10000"

definition MAX_OFFICE_ARCHIVE_BYTES :: nat where
  "MAX_OFFICE_ARCHIVE_BYTES = 16 * 1024 * 1024"

definition MAX_OFFICE_TEXT_PARTS :: nat where
  "MAX_OFFICE_TEXT_PARTS = 256"

fun prefix_err :: "string \<Rightarrow> (string, 'a) result \<Rightarrow> (string, 'a) result" where
  "prefix_err msg (Inl e) = Inl (msg @ e)"
| "prefix_err msg (Inr a) = Inr a"

section \<open>Text\<close>

definition append_text :: "string \<Rightarrow> string \<Rightarrow> string" where
  "append_text target text =
     (if target = [] \<or> rws_len (rev target) \<noteq> 0 \<or> text = [] then target @ text else target @ '' '' @ text)"

definition normalize_text :: "string \<Rightarrow> string" where
  "normalize_text text =
     join [CHR 0x0A] (filter (\<lambda>line. line \<noteq> []) (map (\<lambda>line. join '' '' (split_whitespace line)) (lines text)))"

definition doc_local_name :: "string \<Rightarrow> string" where
  "doc_local_name name = last (split_on (CHR '':'') name)"

definition is_break :: "string \<Rightarrow> bool" where
  "is_break name \<longleftrightarrow> doc_local_name name = ''br'' \<or> doc_local_name name = ''line-break''"

definition is_paragraph :: "string \<Rightarrow> bool" where
  "is_paragraph name \<longleftrightarrow> doc_local_name name \<in> {''p'', ''h'', ''row''}"

text \<open>The loop over the events; a reader that has no more events is at the end of its text.\<close>

fun xml_events :: "string \<Rightarrow> doc_event list \<Rightarrow> (string, string) result" where
  "xml_events text [] = Inr text"
| "xml_events text (DocText v # es) =
     bind_res (prefix_err ''could not decode office XML text: '' v) (\<lambda>v. xml_events (append_text text v) es)"
| "xml_events text (DocCData v # es) =
     bind_res (prefix_err ''could not decode office XML text: '' v) (\<lambda>v. xml_events (append_text text v) es)"
| "xml_events text (DocEmpty name # es) = xml_events (if is_break name then text @ [CHR 0x0A] else text) es"
| "xml_events text (DocEnd name # es) = xml_events (if is_paragraph name then text @ [CHR 0x0A] else text) es"
| "xml_events text (DocEof # es) = Inr text"
| "xml_events text (DocError e # es) = Inl (''could not parse office XML: '' @ e)"
| "xml_events text (DocOther # es) = xml_events text es"

definition xml_text :: "document_readers \<Rightarrow> string \<Rightarrow> (string, string) result" where
  "xml_text R source = xml_events [] (dr_xml R source)"

section \<open>Office packages\<close>

definition is_text_part :: "string \<Rightarrow> bool" where
  "is_text_part name \<longleftrightarrow>
     name \<in> {''word/document.xml'', ''content.xml'', ''xl/sharedStrings.xml''}
     \<or> (starts_with name ''word/''
        \<and> (let part = last (split_on (CHR ''/'') name)
           in starts_with part ''header'' \<or> starts_with part ''footer''
              \<or> part \<in> {''footnotes.xml'', ''endnotes.xml'', ''comments.xml''}))
     \<or> (starts_with name ''ppt/slides/'' \<and> ends_with name ''.xml'')
     \<or> (starts_with name ''xl/worksheets/'' \<and> ends_with name ''.xml'')"

definition add_capped_bytes :: "nat \<Rightarrow> nat \<Rightarrow> nat \<Rightarrow> string \<Rightarrow> (string, nat) result" where
  "add_capped_bytes used addition limit subject =
     (if 2 ^ 64 \<le> used + addition then Inl (subject @ '' byte accounting overflow'')
      else if limit < used + addition
      then Inl (subject @ '' exceeds '' @ show_nat limit @ ''-byte cumulative uncompressed limit'')
      else Inr (used + addition))"

definition read_capped_part :: "zip_file \<Rightarrow> nat \<Rightarrow> (string, string \<times> nat) result" where
  "read_capped_part part parser_work =
     bind_res (prefix_err ''could not read office XML part: '' (zf_read part (MAX_OFFICE_PART_BYTES + 1))) (\<lambda>bytes.
       if MAX_OFFICE_PART_BYTES < length bytes
       then Inl (''office XML part exceeds '' @ show_nat MAX_OFFICE_PART_BYTES @ ''-byte limit'')
       else bind_res (add_capped_bytes parser_work (length bytes) MAX_OFFICE_ARCHIVE_BYTES ''office XML parser work'')
         (\<lambda>parser_work. Inr (bytes, parser_work)))"

text \<open>The indices of the text parts, after the sizes of all members have been added up.\<close>

fun text_parts :: "(nat \<Rightarrow> (string, zip_file) result) \<Rightarrow> nat \<Rightarrow> nat list \<Rightarrow> (string, nat list) result" where
  "text_parts by_index used [] = Inr []"
| "text_parts by_index used (i # is) =
     bind_res (prefix_err ''could not inspect office package: '' (by_index i)) (\<lambda>file.
     bind_res (add_capped_bytes used (zf_size file) MAX_OFFICE_ARCHIVE_BYTES ''office package'') (\<lambda>used.
     bind_res (text_parts by_index used is) (\<lambda>parts.
       Inr (if is_text_part (zf_name file) then i # parts else parts))))"

definition part_text :: "document_readers \<Rightarrow> zip_file \<Rightarrow> nat \<Rightarrow> (string, string \<times> nat) result" where
  "part_text R file parser_work =
     (if MAX_OFFICE_PART_BYTES < zf_size file
      then Inl (''office XML part exceeds '' @ show_nat MAX_OFFICE_PART_BYTES @ ''-byte limit'')
      else bind_res (read_capped_part file parser_work) (\<lambda>(bytes, parser_work).
        if \<not> utf8_ok bytes then Inl (''office XML part was not UTF-8: '' @ dr_utf8_error R bytes)
        else bind_res (xml_text R bytes) (\<lambda>t. Inr (t, parser_work))))"

fun extract_parts ::
    "document_readers \<Rightarrow> (nat \<Rightarrow> (string, zip_file) result) \<Rightarrow> string \<Rightarrow> nat \<Rightarrow> nat list \<Rightarrow> (string, string) result" where
  "extract_parts R by_index extracted parser_work [] = Inr extracted"
| "extract_parts R by_index extracted parser_work (i # is) =
     bind_res (prefix_err ''could not open office XML part: '' (by_index i)) (\<lambda>file.
     bind_res (part_text R file parser_work) (\<lambda>(t, parser_work).
     let extracted = append_text extracted t
     in if MAX_OFFICE_TEXT_BYTES < length extracted
        then Inl (''office document extracted text exceeds '' @ show_nat MAX_OFFICE_TEXT_BYTES @ ''-byte limit'')
        else extract_parts R by_index extracted parser_work is))"

definition extract_office :: "document_readers \<Rightarrow> string \<Rightarrow> (string, string) result" where
  "extract_office R body =
     bind_res (prefix_err ''could not open office package: '' (dr_zip R body)) (\<lambda>entries.
       if MAX_OFFICE_ARCHIVE_ENTRIES < entries
       then Inl (''office package has more than '' @ show_nat MAX_OFFICE_ARCHIVE_ENTRIES @ '' entries'')
       else bind_res (text_parts (dr_by_index R body) 0 [0..<entries]) (\<lambda>parts.
         if parts = [] then Inl ''office package contains no recognized text XML parts''
         else if MAX_OFFICE_TEXT_PARTS < length parts
         then Inl (''office package has more than '' @ show_nat MAX_OFFICE_TEXT_PARTS @ '' text parts'')
         else bind_res (extract_parts R (dr_by_index R body) [] 0 parts) (\<lambda>extracted.
           if normalize_text extracted = [] then Inl ''office document contains no extractable text''
           else Inr (normalize_text extracted))))"

definition extract_document :: "document_readers \<Rightarrow> string \<Rightarrow> document_kind \<Rightarrow> (string, string) result" where
  "extract_document R body k =
     (case k of
        Pdf \<Rightarrow>
          bind_res (prefix_err ''could not extract PDF text: '' (dr_pdf R body)) (\<lambda>text.
            if normalize_text text = [] then Inl ''PDF contains no extractable text''
            else Inr (normalize_text text))
      | Office \<Rightarrow> extract_office R body)"

section \<open>Bounds\<close>

text \<open>The length of lines that are joined again.\<close>

definition line_cost :: "string list \<Rightarrow> nat" where
  "line_cost ls = sum_list (map (\<lambda>l. Suc (length l)) ls)"

lemma length_join_le: "length sep \<le> 1 \<Longrightarrow> length (join sep ws) \<le> line_cost ws - 1"
proof (induction sep ws rule: join.induct)
  case (3 sep w v ws)
  have "1 \<le> line_cost (v # ws)" by (simp add: line_cost_def)
  with 3 show ?case by (simp add: line_cost_def)
qed (simp_all add: line_cost_def)

lemma line_cost_split_on: "line_cost (split_on d s) = Suc (length s)"
  by (induction s) (auto simp: line_cost_def split: list.splits)

lemma length_strip_cr: "length (strip_cr l) \<le> length l"
  by (auto simp: strip_cr_def strip_suffix_Some_iff split: option.splits)

lemma line_cost_append: "line_cost (a @ b) = line_cost a + line_cost b"
  by (simp add: line_cost_def)

lemma line_cost_map: "(\<And>l. length (f l) \<le> length l) \<Longrightarrow> line_cost (map f ls) \<le> line_cost ls"
  unfolding line_cost_def by (induction ls) (auto intro: add_mono)

lemma line_cost_filter: "line_cost (filter P ls) \<le> line_cost ls"
  by (induction ls) (auto simp: line_cost_def)

lemma line_cost_lines: "line_cost (lines s) \<le> Suc (length s)"
proof -
  let ?ps = "split_on (CHR 0x0A) s"
  have "line_cost (lines s) \<le> line_cost (map strip_cr (butlast ?ps)) + line_cost [last ?ps]"
    by (simp add: lines_def Let_def line_cost_append) (simp add: line_cost_def)
  also have "\<dots> \<le> line_cost (butlast ?ps) + line_cost [last ?ps]"
    using line_cost_map[of strip_cr "butlast ?ps"] length_strip_cr by simp
  also have "\<dots> = line_cost ?ps"
    by (metis append_butlast_last_id line_cost_append split_on_not_Nil)
  finally show ?thesis by (simp add: line_cost_split_on)
qed

lemma length_words: "length (join '' '' (words_from acc s)) \<le> length acc + length s"
proof (induction acc s rule: words_from.induct)
  case (2 acc c cs)
  show ?case
  proof (cases "ws_len (c # cs) = 0")
    case True
    with 2 show ?thesis by simp
  next
    case False
    let ?ws = "words_from [] (drop (ws_len (c # cs)) (c # cs))"
    have "length (join '' '' ?ws) \<le> length (drop (ws_len (c # cs)) (c # cs))"
      using 2 False by (metis add_0 list.size(3))
    then have "length (join '' '' ?ws) \<le> length cs" using False by simp
    moreover have "length (join '' '' ((if acc = [] then [] else [rev acc]) @ ?ws))
        \<le> length acc + 1 + length (join '' '' ?ws)"
      by (cases ?ws) auto
    ultimately show ?thesis using False by (simp add: Let_def)
  qed
qed simp

lemma length_normalize_text: "length (normalize_text s) \<le> length s"
proof -
  let ?f = "\<lambda>l. join '' '' (split_whitespace l)"
  have "line_cost (filter (\<lambda>l. l \<noteq> []) (map ?f (lines s))) \<le> Suc (length s)"
    using line_cost_filter[of "\<lambda>l. l \<noteq> []" "map ?f (lines s)"] line_cost_map[of ?f "lines s"]
      line_cost_lines[of s] length_words[of "[]"] by (simp add: split_whitespace_def)
  then show ?thesis
    using length_join_le[of "[CHR 0x0A]" "filter (\<lambda>l. l \<noteq> []) (map ?f (lines s))"]
    unfolding normalize_text_def by simp
qed

section \<open>What is extracted\<close>

lemma prefix_err_Inr [res_simps]: "prefix_err m r = Inr a \<longleftrightarrow> r = Inr a"
  by (cases r) auto

lemma add_capped_bytes_Inr [res_simps]:
  "add_capped_bytes used n limit subject = Inr m \<longleftrightarrow> m = used + n \<and> m < 2 ^ 64 \<and> m \<le> limit"
  by (auto simp: add_capped_bytes_def)

lemma text_parts_exact:
  assumes "text_parts by_index used is = Inr parts" and "used \<le> MAX_OFFICE_ARCHIVE_BYTES"
  obtains files where "map by_index is = map Inr files"
    "used + sum_list (map zf_size files) \<le> MAX_OFFICE_ARCHIVE_BYTES"
    "map by_index parts = map Inr (filter (is_text_part \<circ> zf_name) files)"
  using assms
proof (induction "is" arbitrary: used parts thesis)
  case (Cons i "is")
  from Cons.prems(2) obtain f ps where f: "by_index i = Inr f" "used + zf_size f \<le> MAX_OFFICE_ARCHIVE_BYTES"
    "text_parts by_index (used + zf_size f) is = Inr ps" "parts = (if is_text_part (zf_name f) then i # ps else ps)"
    by (auto simp: res_simps)
  from Cons.IH[OF _ f(3,2)] obtain files where "map by_index is = map Inr files"
    "used + zf_size f + sum_list (map zf_size files) \<le> MAX_OFFICE_ARCHIVE_BYTES"
    "map by_index ps = map Inr (filter (is_text_part \<circ> zf_name) files)" by blast
  with f show ?case by (intro Cons.prems(1)[of "f # files"]) (auto simp: comp_def)
qed simp

definition part_read :: "zip_file \<Rightarrow> (string, string) result" where
  "part_read file = zf_read file (MAX_OFFICE_PART_BYTES + 1)"

lemma extract_parts_exact:
  assumes "extract_parts R by_index extracted work is = Inr out" and "work \<le> MAX_OFFICE_ARCHIVE_BYTES"
    and "length extracted \<le> MAX_OFFICE_TEXT_BYTES"
  obtains files datas texts where "map by_index is = map Inr files" "map part_read files = map Inr datas"
    "list_all (\<lambda>d. length d \<le> MAX_OFFICE_PART_BYTES \<and> utf8_ok d) datas"
    "work + sum_list (map length datas) \<le> MAX_OFFICE_ARCHIVE_BYTES"
    "map (xml_text R) datas = map Inr texts" "out = foldl append_text extracted texts"
    "length out \<le> MAX_OFFICE_TEXT_BYTES"
  using assms
proof (induction "is" arbitrary: extracted work thesis)
  case (Cons i "is")
  from Cons.prems(2) obtain f d t where f: "by_index i = Inr f" "part_read f = Inr d"
    "length d \<le> MAX_OFFICE_PART_BYTES" "work + length d \<le> MAX_OFFICE_ARCHIVE_BYTES" "utf8_ok d" "xml_text R d = Inr t"
    "length (append_text extracted t) \<le> MAX_OFFICE_TEXT_BYTES"
    "extract_parts R by_index (append_text extracted t) (work + length d) is = Inr out"
    by (auto simp: res_simps part_text_def read_capped_part_def part_read_def Let_def split: if_splits)
  from Cons.IH[OF _ f(8,4,7)] obtain files datas texts where "map by_index is = map Inr files"
    "map part_read files = map Inr datas" "list_all (\<lambda>d. length d \<le> MAX_OFFICE_PART_BYTES \<and> utf8_ok d) datas"
    "work + length d + sum_list (map length datas) \<le> MAX_OFFICE_ARCHIVE_BYTES"
    "map (xml_text R) datas = map Inr texts" "out = foldl append_text (append_text extracted t) texts"
    "length out \<le> MAX_OFFICE_TEXT_BYTES" by blast
  with f show ?case by (intro Cons.prems(1)[of "f # files" "d # datas" "t # texts"]) auto
qed simp

lemma map_Inr_inject: "map Inr xs = map Inr ys \<longleftrightarrow> xs = ys"
  by (rule inj_map_eq_map) simp

text \<open>
  C19: An office document is read within its bounds and entirely. A text that is extracted is the normalised
  concatenation of the texts of every recognised part, in the order of the archive, whose members are at most
  ten thousand and declare at most 16 MiB; the parts are at most 256, each of at most 4 MiB and together of
  at most 16 MiB once decompressed, whatever sizes they declare; and the text has at most 4 MiB and is not empty.
\<close>

theorem office_text_exact:
  assumes "extract_document R body Office = Inr t"
  shows "\<exists>n files datas texts. dr_zip R body = Inr n \<and> n \<le> MAX_OFFICE_ARCHIVE_ENTRIES
     \<and> map (dr_by_index R body) [0..<n] = map Inr files
     \<and> sum_list (map zf_size files) \<le> MAX_OFFICE_ARCHIVE_BYTES
     \<and> map part_read (filter (is_text_part \<circ> zf_name) files) = map Inr datas
     \<and> 0 < length datas \<and> length datas \<le> MAX_OFFICE_TEXT_PARTS
     \<and> list_all (\<lambda>d. length d \<le> MAX_OFFICE_PART_BYTES \<and> utf8_ok d) datas
     \<and> sum_list (map length datas) \<le> MAX_OFFICE_ARCHIVE_BYTES
     \<and> map (xml_text R) datas = map Inr texts
     \<and> t = normalize_text (foldl append_text [] texts)
     \<and> t \<noteq> [] \<and> length t \<le> MAX_OFFICE_TEXT_BYTES"
proof -
  from assms obtain n parts out where zip: "dr_zip R body = Inr n" "n \<le> MAX_OFFICE_ARCHIVE_ENTRIES"
    and parts: "text_parts (dr_by_index R body) 0 [0..<n] = Inr parts" "parts \<noteq> []" "length parts \<le> MAX_OFFICE_TEXT_PARTS"
    and out: "extract_parts R (dr_by_index R body) [] 0 parts = Inr out"
    and t: "t = normalize_text out" "t \<noteq> []"
    by (auto simp: extract_document_def extract_office_def res_simps split: if_splits)
  obtain files where files: "map (dr_by_index R body) [0..<n] = map Inr files"
    "0 + sum_list (map zf_size files) \<le> MAX_OFFICE_ARCHIVE_BYTES"
    "map (dr_by_index R body) parts = map Inr (filter (is_text_part \<circ> zf_name) files)"
    by (rule text_parts_exact[OF parts(1)]) simp
  obtain ps datas texts where ps: "map (dr_by_index R body) parts = map Inr ps" and d: "map part_read ps = map Inr datas"
    "list_all (\<lambda>d. length d \<le> MAX_OFFICE_PART_BYTES \<and> utf8_ok d) datas"
    "0 + sum_list (map length datas) \<le> MAX_OFFICE_ARCHIVE_BYTES" "map (xml_text R) datas = map Inr texts"
    "out = foldl append_text [] texts" "length out \<le> MAX_OFFICE_TEXT_BYTES"
    by (rule extract_parts_exact[OF out]) simp_all
  have same: "ps = filter (is_text_part \<circ> zf_name) files"
    using files(3) ps by (simp only: map_Inr_inject)
  have "length datas = length parts" using ps d(1) by (metis length_map)
  moreover have "length t \<le> MAX_OFFICE_TEXT_BYTES" using d(6) length_normalize_text[of out] t(1) by simp
  ultimately show ?thesis
    using zip files(1,2) d(1-5) parts(2,3) t same
    by (intro exI[of _ n] exI[of _ files] exI[of _ datas] exI[of _ texts]) simp
qed

text \<open>A package with one part, whose two runs of text are separated.\<close>

definition demo_part :: zip_file where
  "demo_part = \<lparr> zf_name = ''word/document.xml'', zf_size = 3, zf_read = (\<lambda>n. Inr (take n ''xml'')) \<rparr>"

definition demo_readers :: document_readers where
  "demo_readers =
     \<lparr> dr_pdf = (\<lambda>_. Inl ''no pdf''), dr_zip = (\<lambda>_. Inr 1), dr_by_index = (\<lambda>_ _. Inr demo_part),
       dr_utf8_error = id, dr_xml = (\<lambda>_. [DocText (Inr ''Hel''), DocOther, DocText (Inr ''lo''), DocEnd ''w:p'']) \<rparr>"

lemma demo_office: "extract_document demo_readers [] Office = Inr ''Hel lo''"
proof -
  have r: "zf_read demo_part (Suc MAX_OFFICE_PART_BYTES) = Inr ''xml''"
    by (simp add: demo_part_def MAX_OFFICE_PART_BYTES_def)
  have u: "utf8_ok ''xml''" by (rule utf8_ok_ascii) code_simp
  have x: "xml_text demo_readers ''xml'' = Inr (''Hel lo'' @ [CHR 0x0A])"
    unfolding xml_text_def demo_readers_def document_readers.simps by code_simp
  have p: "part_text demo_readers demo_part 0 = Inr (''Hel lo'' @ [CHR 0x0A], 3)"
    using r u x
    by (simp add: part_text_def read_capped_part_def add_capped_bytes_def MAX_OFFICE_ARCHIVE_BYTES_def)
      (simp add: demo_part_def MAX_OFFICE_PART_BYTES_def)
  have t: "is_text_part (zf_name demo_part)" unfolding demo_part_def zip_file.simps by code_simp
  have n: "normalize_text (''Hel lo'' @ [CHR 0x0A]) = ''Hel lo''" by code_simp
  have "zf_size demo_part = 3" by (simp add: demo_part_def)
  with t have parts: "text_parts (\<lambda>_. Inr demo_part) 0 [0] = Inr [0]"
    by (simp add: add_capped_bytes_def MAX_OFFICE_ARCHIVE_BYTES_def)
  have e: "extract_parts demo_readers (\<lambda>_. Inr demo_part) [] 0 [0] = Inr (''Hel lo'' @ [CHR 0x0A])"
    using p by (simp add: append_text_def MAX_OFFICE_TEXT_BYTES_def)
  have z: "dr_zip demo_readers [] = Inr 1" "dr_by_index demo_readers [] = (\<lambda>_. Inr demo_part)"
    by (simp_all add: demo_readers_def)
  show ?thesis
    using parts e n
    by (simp add: extract_document_def extract_office_def z MAX_OFFICE_ARCHIVE_ENTRIES_def MAX_OFFICE_TEXT_PARTS_def)
qed

theorem office_text_exact_witness:
  "\<exists>datas. map part_read [demo_part] = map Inr datas \<and> length datas \<le> MAX_OFFICE_TEXT_PARTS"
proof -
  from office_text_exact[OF demo_office] obtain n files datas where
    n: "dr_zip demo_readers [] = Inr n" and f: "map (dr_by_index demo_readers []) [0..<n] = map Inr files"
    and d: "map part_read (filter (is_text_part \<circ> zf_name) files) = map Inr datas" "length datas \<le> MAX_OFFICE_TEXT_PARTS"
    by (elim exE conjE) (rule that, assumption+)
  have "n = 1" using n by (simp add: demo_readers_def)
  then have "map (dr_by_index demo_readers []) [0..<n] = map Inr [demo_part]" by (simp add: demo_readers_def)
  with f have "map Inr files = map (Inr :: _ \<Rightarrow> (string, zip_file) result) [demo_part]" by simp
  then have "files = [demo_part]" by (rule map_Inr_inject[THEN iffD1])
  moreover have "is_text_part (zf_name demo_part)" unfolding demo_part_def zip_file.simps by code_simp
  ultimately show ?thesis using d by auto
qed

text \<open>
  Words are separated wherever the reader ends a text event, so a word that a document splits into two
  runs, and one with a character reference, come out as two words.
\<close>

lemma run_boundary_splits_word:
  "xml_events [] [DocText (Inr ''Hel''), DocEnd ''w:t'', DocEnd ''w:r'', DocText (Inr ''lo'')] = Inr ''Hel lo''"
  by code_simp

end
