(* ===== verification/Scrape.thy ===== *)
theory Scrape
  imports Scrape_Setup Scrape_Attest Page_Render Egress Metadata Markdown Document Scrape_Surface
begin

text \<open>
  One scrape, \<^verbatim>\<open>scrape\<close> of \<^verbatim>\<open>basecrawl-core/src/lib.rs\<close>, from the validated URL to the proof. The state holds the
  world, the document hops that the shared policy has recorded, the process-wide slot of residential
  dials, the sticky profiles and the guard that wipes this scrape's. The renderer drives Chromium: \<open>ev_render\<close> and
  \<open>ev_capture\<close> give what it produced, and may call the document policy for every navigation. The rest of \<open>scrape_env\<close>
  is the environment and third-party code. Instants are milliseconds.
\<close>

section \<open>State and environment\<close>

record ('w, 'u, 'c) scrape_state =
  zs_world :: 'w
  zs_hops :: "'u document_hop list"
  zs_slot :: dial_slot
  zs_sticky :: "'c sticky_state"
  zs_guard :: wipe_guard

text \<open>What a browser launch is asked for: the configuration's fields that depend on the scrape.\<close>

record ('u, 'x) render_request =
  rr_timeout_secs :: nat
  rr_user_agent :: string
  rr_request_headers :: headers
  rr_credential_origin :: "'u option"
  rr_crawl_delay :: nat
  rr_max_subresources :: nat
  rr_max_resource_bytes :: nat
  rr_max_document_bytes :: nat
  rr_wait_for :: "string option"
  rr_actions :: "action list"
  rr_max_redirects :: nat
  rr_accept_language :: string
  rr_platform :: string
  rr_timezone :: string
  rr_locale :: string
  rr_fingerprint_script :: "string option"
  rr_window_size :: "nat \<times> nat"
  rr_full_page :: bool
  rr_sealed_socks :: "'x option"
  rr_user_data_dir :: "string option"
  rr_require_stealth_inject :: bool
  rr_chrome_full_version :: string
  rr_chrome_major :: nat
  rr_deadline :: nat

type_synonym ('u, 'w) page_state = "'w \<times> 'u document_hop list"

type_synonym ('u, 'w) policy_hook =
  "'u \<Rightarrow> ('u, 'w) page_state \<Rightarrow> ((string, unit) result \<times> ('u, 'w) page_state) option"

type_synonym ('u, 'w, 'x) browser =
  "('u, 'w) policy_hook \<Rightarrow> 'u \<Rightarrow> ('u, 'x) render_request \<Rightarrow> ('u, 'w) page_state
   \<Rightarrow> ((render_error, string) result \<times> ('u, 'w) page_state) option"

record ('u, 'w, 'r, 'e, 'd, 'c, 's, 'x) scrape_env =
  ev_env :: env
  ev_ops :: crypto_ops
  ev_login :: "'u login_ops"
  ev_net :: "('u, proxy_config, tls_block, 'w, 'r) net"
  ev_charsets :: "'e charset_ops"
  ev_xml :: "string \<Rightarrow> xml_event list"
  ev_dom :: "'d dom_ops"
  ev_readers :: document_readers
  ev_quote :: "string \<Rightarrow> string"
  ev_parse_json :: "string \<Rightarrow> string + json"
  ev_read_json :: "string \<Rightarrow> json option"
  ev_write :: "json \<Rightarrow> string"
  ev_f64_json :: "f64 \<Rightarrow> json"
  ev_script :: "fingerprint_profile \<Rightarrow> string"
  ev_siphash :: "string list \<Rightarrow> 64 word"
  ev_solver :: "nat \<Rightarrow> 'w solver_net"
  ev_compose :: "proxy_config \<Rightarrow> 'w \<Rightarrow> (string, 'x) result \<times> 'w"
  ev_render :: "('u, 'w, 'x) browser"
  ev_capture :: "('u, 'w, 'x) browser"
  ev_usage :: "'w \<Rightarrow> render_usage"
  ev_clock :: "'w \<Rightarrow> nat \<times> 'w"
  ev_temp_dir :: string
  ev_io :: "string \<Rightarrow> string option"
  ev_empty_dir :: 'c
  ev_rfc3339 :: "string \<Rightarrow> (string, string) result"
  ev_agent :: "('s, 'w) guest_agent"

abbreviation ev_url :: "('u, 'w, 'r, 'e, 'd, 'c, 's, 'x) scrape_env \<Rightarrow> 'u url_ops" where
  "ev_url Z \<equiv> url_ops.truncate (ev_login Z)"

abbreviation ev_html :: "('u, 'w, 'r, 'e, 'd, 'c, 's, 'x) scrape_env \<Rightarrow> 'd html_ops" where
  "ev_html Z \<equiv> html_ops.truncate (ev_dom Z)"

text \<open>What is known once the browser policy is decided.\<close>

record ('u, 'x) scrape_run =
  sr_opts :: scrape_options
  sr_prep :: prepared
  sr_plan :: browser_plan
  sr_url :: 'u
  sr_cfg :: "('u, proxy_config) fetch_config"
  sr_composer :: "'x option"
  sr_profile :: "string option"
  sr_deadline :: nat

section \<open>Steps on the state\<close>

abbreviation ret :: "'a \<Rightarrow> 's \<Rightarrow> ('a, 's) step" where
  "ret a s \<equiv> Some (Inr a, s)"

abbreviation fails_with :: "core_error \<Rightarrow> 's \<Rightarrow> ('a, 's) step" where
  "fails_with e s \<equiv> Some (Inl e, s)"

abbreviation of_res :: "(core_error, 'a) result \<Rightarrow> 's \<Rightarrow> ('a, 's) step" where
  "of_res r s \<equiv> Some (r, s)"

definition on_page ::
    "(('u, 'w) page_state \<Rightarrow> ('a, ('u, 'w) page_state) step) \<Rightarrow> ('w, 'u, 'c) scrape_state
     \<Rightarrow> ('a, ('w, 'u, 'c) scrape_state) step" where
  "on_page f s =
     map_option (\<lambda>(r, (w, hops)). (r, s \<lparr> zs_world := w, zs_hops := hops \<rparr>)) (f (zs_world s, zs_hops s))"

definition on_world ::
    "('w \<Rightarrow> ('a, 'w) step) \<Rightarrow> ('w, 'u, 'c) scrape_state \<Rightarrow> ('a, ('w, 'u, 'c) scrape_state) step" where
  "on_world f s = map_option (\<lambda>(r, w). (r, s \<lparr> zs_world := w \<rparr>)) (f (zs_world s))"

definition wipe_profile :: "crypto_ops \<Rightarrow> ('w, 'u, 'c) scrape_state \<Rightarrow> ('w, 'u, 'c) scrape_state" where
  "wipe_profile ops s =
     (let (g, st) = wipe_now ops (zs_guard s) (zs_sticky s) in s \<lparr> zs_guard := g, zs_sticky := st \<rparr>)"

definition fail_wiping ::
    "crypto_ops \<Rightarrow> core_error \<Rightarrow> ('w, 'u, 'c) scrape_state \<Rightarrow> ('a, ('w, 'u, 'c) scrape_state) step" where
  "fail_wiping ops e s = fails_with e (wipe_profile ops s)"

definition clock_now ::
    "('u, 'w, 'r, 'e, 'd, 'c, 's, 'x) scrape_env \<Rightarrow> ('w, 'u, 'c) scrape_state \<Rightarrow> (nat, ('w, 'u, 'c) scrape_state) step" where
  "clock_now Z s = on_world (\<lambda>w. let (t, w) = ev_clock Z w in ret t w) s"

section \<open>The page\<close>

definition policy_check ::
    "('u, 'w, 'r, 'e, 'd, 'c, 's, 'x) scrape_env \<Rightarrow> ('u, 'x) scrape_run \<Rightarrow> 'u \<Rightarrow> ('u, 'w) page_state
     \<Rightarrow> (unit, ('u, 'w) page_state) step" where
  "policy_check Z R target s =
     document_check (ev_ops Z) (ev_url Z) (ev_net Z) (ev_charsets Z) (sr_cfg R) (so_robots_policy (sr_opts R)) target s"

definition render_document_policy ::
    "('u, 'w, 'r, 'e, 'd, 'c, 's, 'x) scrape_env \<Rightarrow> ('u, 'x) scrape_run \<Rightarrow> ('u, 'w) policy_hook" where
  "render_document_policy Z R target s =
     map_option (\<lambda>(r, s). (case r of
         Inr _ \<Rightarrow> Inr ()
       | Inl (RobotsDenied detail) \<Rightarrow> Inl (ev_write Z detail)
       | Inl e \<Rightarrow> Inl (display e), s)) (policy_check Z R target s)"

definition fetch_page ::
    "('u, 'w, 'r, 'e, 'd, 'c, 's, 'x) scrape_env \<Rightarrow> ('u, 'x) scrape_run \<Rightarrow> 'u \<Rightarrow> ('w, 'u, 'c) scrape_state
     \<Rightarrow> (tls_block fetched, ('w, 'u, 'c) scrape_state) step" where
  "fetch_page Z R url s =
     on_page (fetch_document_until (ev_ops Z) (ev_url Z) (lift_net (ev_net Z)) (policy_check Z R) url (sr_cfg R)) s"

record 'u fetched_page =
  pg_fetched :: "tls_block fetched"
  pg_kind :: content_kind
  pg_document :: "string option"
  pg_body :: string
  pg_base :: 'u

definition page_base_of :: "'u url_ops \<Rightarrow> 'u \<Rightarrow> tls_block fetched \<Rightarrow> 'u" where
  "page_base_of U url f = (case url_parse U (f_final_url f) of Inr u \<Rightarrow> u | Inl _ \<Rightarrow> url)"

definition read_page ::
    "('u, 'w, 'r, 'e, 'd, 'c, 's, 'x) scrape_env \<Rightarrow> scrape_options \<Rightarrow> 'u \<Rightarrow> tls_block fetched
     \<Rightarrow> (core_error, 'u fetched_page) result" where
  "read_page Z opts url f =
     (let k = classify (f_content_type f);
          page = (\<lambda>doc body. \<lparr> pg_fetched = f, pg_kind = k, pg_document = doc,
            pg_body = redact_sensitive_request_echoes body (so_headers opts), pg_base = page_base_of (ev_url Z) url f \<rparr>)
      in case k of
           DocumentContent dk \<Rightarrow>
             map_err DocumentExtraction
               (bind_res (extract_document (ev_readers Z) (f_body f) dk) (\<lambda>text. Inr (page (Some text) [])))
         | _ \<Rightarrow> Inr (page None (decode_body (ev_charsets Z) (f_body f) (f_content_type f) (k = HtmlContent))))"

definition sitemap_urls ::
    "('u, 'w, 'r, 'e, 'd, 'c, 's, 'x) scrape_env \<Rightarrow> ('u, 'x) scrape_run \<Rightarrow> 'u robots_decision \<Rightarrow> ('w, 'u, 'c) scrape_state
     \<Rightarrow> (string list, ('w, 'u, 'c) scrape_state) step" where
  "sitemap_urls Z R decision s =
     (if Links \<in> set (pp_formats (sr_prep R))
      then on_world (discover_sitemap_urls (ev_ops Z) (ev_url Z) (ev_net Z) (ev_charsets Z) (ev_xml Z)
             (sr_url R) (sr_cfg R) (rd_sitemap_urls decision)) s
      else ret [] s)"

section \<open>Challenges\<close>

definition BLOCK_DETAIL :: string where
  "BLOCK_DETAIL = ''hard path observed a bot-challenge / block response (VAL-STEALTH-016)''"

definition INTERSTITIAL_DETAIL :: string where
  "INTERSTITIAL_DETAIL = ''hard path observed a bot-challenge / block interstitial rather than the ''
     @ ''primary document (VAL-STEALTH-016)''"

definition RESIDUAL_DETAIL :: string where
  "RESIDUAL_DETAIL = ''hard path observed a bot-challenge residual after Chromium ''
     @ ''(detect-not-solve / VAL-STEALTH-016)''"

definition NO_BROWSER_DETAIL :: string where
  "NO_BROWSER_DETAIL = ''hard path observed a bot-challenge / block response without browser apply ''
     @ ''surface (VAL-STEALTH-016 / detect-not-solve)''"

definition try_optional_challenge_solve ::
    "('u, 'w, 'r, 'e, 'd, 'c, 's, 'x) scrape_env \<Rightarrow> captcha_solver_runtime option \<Rightarrow> string \<Rightarrow> string \<Rightarrow> nat \<Rightarrow> string
     \<Rightarrow> ('w, 'u, 'c) scrape_state \<Rightarrow> (solve_solution option, ('w, 'u, 'c) scrape_state) step" where
  "try_optional_challenge_solve Z runtime url html status detail s =
     (case runtime of
        None \<Rightarrow> fails_with (ChallengeBlocked status detail) s
      | Some rt \<Rightarrow>
          on_world (attempt_optional_solve (ev_solver Z (cs_solve_timeout (cr_config rt))) (Some rt) url html status) s)"

text \<open>A solution, or the error with the profile wiped.\<close>

definition solve_or_block ::
    "('u, 'w, 'r, 'e, 'd, 'c, 's, 'x) scrape_env \<Rightarrow> captcha_solver_runtime option \<Rightarrow> 'u \<Rightarrow> string \<Rightarrow> nat \<Rightarrow> string \<Rightarrow> string
     \<Rightarrow> ('w, 'u, 'c) scrape_state \<Rightarrow> (solve_solution, ('w, 'u, 'c) scrape_state) step" where
  "solve_or_block Z runtime base html status detail unsolved s =
     (case try_optional_challenge_solve Z runtime (url_string (ev_url Z) base) html status detail s of
        None \<Rightarrow> None
      | Some (Inr (Some sol), s) \<Rightarrow> ret sol s
      | Some (Inr None, s) \<Rightarrow> fail_wiping (ev_ops Z) (ChallengeBlocked status unsolved) s
      | Some (Inl e, s) \<Rightarrow> fail_wiping (ev_ops Z) e s)"

definition first_solution ::
    "('u, 'w, 'r, 'e, 'd, 'c, 's, 'x) scrape_env \<Rightarrow> ('u, 'x) scrape_run \<Rightarrow> captcha_solver_runtime option \<Rightarrow> 'u fetched_page
     \<Rightarrow> ('w, 'u, 'c) scrape_state \<Rightarrow> (solve_solution option, ('w, 'u, 'c) scrape_state) step" where
  "first_solution Z R runtime page s =
     (let status = f_status_code (pg_fetched page)
      in if bp_hard (sr_plan R) \<and> looks_like_challenge_interstitial (pg_body page) status
         then and_then (solve_or_block Z runtime (pg_base page) (pg_body page) status BLOCK_DETAIL BLOCK_DETAIL s)
                (\<lambda>sol s. ret (Some sol) s)
         else ret None s)"

definition fingerprint_seed_for_pacing ::
    "('u, 'w, 'r, 'e, 'd, 'c, 's, 'x) scrape_env \<Rightarrow> string option \<Rightarrow> string \<Rightarrow> 64 word" where
  "fingerprint_seed_for_pacing Z explicit url =
     (case explicit of
        Some s \<Rightarrow> if trim s \<noteq> [] then ev_siphash Z [s] else ev_siphash Z [UNATTENDED_DEFAULT_SEED, url]
      | None \<Rightarrow> ev_siphash Z [UNATTENDED_DEFAULT_SEED, url])"

text \<open>The caller's actions, and after them those that apply a token.\<close>

definition armed_actions ::
    "('u, 'w, 'r, 'e, 'd, 'c, 's, 'x) scrape_env \<Rightarrow> ('u, 'x) scrape_run \<Rightarrow> solve_solution option
     \<Rightarrow> (core_error, action list) result" where
  "armed_actions Z R pending =
     (case pending of
        None \<Rightarrow> Inr (so_actions (sr_opts R))
      | Some sol \<Rightarrow>
          bind_res (armed_solver_apply_actions (ev_write Z) (sl_token sol)
              (fingerprint_seed_for_pacing Z (so_fingerprint_seed (sr_opts R)) (url_string (ev_url Z) (sr_url R))))
            (\<lambda>(apply_actions, _). Inr (so_actions (sr_opts R) @ apply_actions)))"

section \<open>Renders\<close>

definition render_request_of ::
    "('u, 'w, 'r, 'e, 'd, 'c, 's, 'x) scrape_env \<Rightarrow> ('u, 'x) scrape_run \<Rightarrow> bool \<Rightarrow> action list \<Rightarrow> ('u, 'x) render_request" where
  "render_request_of Z R hard actions =
     (let opts = sr_opts R; fp = pp_fingerprint (sr_prep R); cfg = sr_cfg R
      in \<lparr> rr_timeout_secs = so_render_timeout_secs opts, rr_user_agent = fc_user_agent cfg,
           rr_request_headers = fc_headers cfg, rr_credential_origin = fc_credential_origin cfg,
           rr_crawl_delay = fc_crawl_delay cfg, rr_max_subresources = so_max_render_subresources opts,
           rr_max_resource_bytes = so_max_render_bytes opts, rr_max_document_bytes = so_max_body_bytes opts,
           rr_wait_for = so_wait_for opts, rr_actions = actions, rr_max_redirects = MAX_REDIRECTS,
           rr_accept_language = fp_accept_language fp, rr_platform = fp_platform fp,
           rr_timezone = fp_timezone fp, rr_locale = fp_locale fp,
           rr_fingerprint_script = (if bp_inject (sr_plan R) then Some (ev_script Z fp) else None),
           rr_window_size = fp_viewport fp, rr_full_page = False, rr_sealed_socks = sr_composer R,
           rr_user_data_dir = sr_profile R, rr_require_stealth_inject = hard,
           rr_chrome_full_version = fp_chrome_full_version fp, rr_chrome_major = fp_chrome_major fp,
           rr_deadline = sr_deadline R \<rparr>)"

definition browse ::
    "('u, 'w, 'r, 'e, 'd, 'c, 's, 'x) scrape_env \<Rightarrow> ('u, 'x) scrape_run \<Rightarrow> ('u, 'w, 'x) browser \<Rightarrow> (render_error \<Rightarrow> core_error)
     \<Rightarrow> 'u \<Rightarrow> ('u, 'x) render_request \<Rightarrow> ('w, 'u, 'c) scrape_state \<Rightarrow> (string, ('w, 'u, 'c) scrape_state) step" where
  "browse Z R launch err base req s =
     on_page (\<lambda>s. map_option (\<lambda>(r, s). (map_err err r, s)) (launch (render_document_policy Z R) base req s)) s"

definition render_page ::
    "('u, 'w, 'r, 'e, 'd, 'c, 's, 'x) scrape_env \<Rightarrow> ('u, 'x) scrape_run \<Rightarrow> 'u \<Rightarrow> bool \<Rightarrow> action list
     \<Rightarrow> ('w, 'u, 'c) scrape_state \<Rightarrow> (string, ('w, 'u, 'c) scrape_state) step" where
  "render_page Z R base hard actions s =
     and_then (browse Z R (ev_render Z) (render_page_error (ev_quote Z) (ev_read_json Z) (url_string (ev_url Z) base))
         base (render_request_of Z R hard actions) s)
       (\<lambda>html s. ret (redact_sensitive_request_echoes html (so_headers (sr_opts R))) s)"

definition check_applied ::
    "crypto_ops \<Rightarrow> solve_solution \<Rightarrow> string \<Rightarrow> nat \<Rightarrow> ('w, 'u, 'c) scrape_state
     \<Rightarrow> (string option, ('w, 'u, 'c) scrape_state) step" where
  "check_applied ops sol html status s =
     (case residual_after_applied_token html status (sl_task_id sol) of
        Some e \<Rightarrow> fail_wiping ops e s
      | None \<Rightarrow> ret (Some html) s)"

definition should_render_html :: "('u, 'x) scrape_run \<Rightarrow> 'u fetched_page \<Rightarrow> bool" where
  "should_render_html R page \<longleftrightarrow>
     pg_kind page = HtmlContent \<and> trim (pg_body page) \<noteq> []
     \<and> (bp_hard (sr_plan R)
        \<or> (so_render_enabled (sr_opts R)
           \<and> list_ex (\<lambda>f. f = fmt.Markdown \<or> f = Html) (pp_formats (sr_prep R))))"

text \<open>After the first render: a challenge that remains is solved once, or blocks.\<close>

definition settle_render ::
    "('u, 'w, 'r, 'e, 'd, 'c, 's, 'x) scrape_env \<Rightarrow> ('u, 'x) scrape_run \<Rightarrow> captcha_solver_runtime option \<Rightarrow> 'u fetched_page
     \<Rightarrow> solve_solution option \<Rightarrow> string \<Rightarrow> ('w, 'u, 'c) scrape_state \<Rightarrow> (string option, ('w, 'u, 'c) scrape_state) step" where
  "settle_render Z R runtime page pending html s =
     (let status = f_status_code (pg_fetched page); hard = bp_hard (sr_plan R)
      in case pending of
           Some sol \<Rightarrow> check_applied (ev_ops Z) sol html status s
         | None \<Rightarrow>
             if hard \<and> looks_like_challenge_interstitial html status then
               and_then (solve_or_block Z runtime (pg_base page) html status INTERSTITIAL_DETAIL RESIDUAL_DETAIL s) (\<lambda>sol s.
               and_then (of_res (armed_actions Z R (Some sol)) s) (\<lambda>actions s.
               and_then (render_page Z R (pg_base page) hard actions s) (\<lambda>html s.
                 check_applied (ev_ops Z) sol html status s)))
             else ret (Some html) s)"

definition render_stage ::
    "('u, 'w, 'r, 'e, 'd, 'c, 's, 'x) scrape_env \<Rightarrow> ('u, 'x) scrape_run \<Rightarrow> captcha_solver_runtime option \<Rightarrow> 'u fetched_page
     \<Rightarrow> solve_solution option \<Rightarrow> ('w, 'u, 'c) scrape_state \<Rightarrow> (string option, ('w, 'u, 'c) scrape_state) step" where
  "render_stage Z R runtime page pending s =
     and_then (of_res (armed_actions Z R pending) s) (\<lambda>actions s.
       if should_render_html R page then
         and_then (render_page Z R (pg_base page) (bp_hard (sr_plan R)) actions s) (\<lambda>html s.
           settle_render Z R runtime page pending html s)
       else if bp_hard (sr_plan R)
               \<and> looks_like_challenge_interstitial (pg_body page) (f_status_code (pg_fetched page))
       then fail_wiping (ev_ops Z) (ChallengeBlocked (f_status_code (pg_fetched page)) NO_BROWSER_DETAIL) s
       else ret None s)"

section \<open>Formats\<close>

definition is_document :: "content_kind \<Rightarrow> bool" where
  "is_document k = (case k of DocumentContent _ \<Rightarrow> True | _ \<Rightarrow> False)"

text \<open>The value of one format, and whether a browser was launched for it.\<close>

definition produce ::
    "('u, 'w, 'r, 'e, 'd, 'c, 's, 'x) scrape_env \<Rightarrow> ('u, 'x) scrape_run \<Rightarrow> 'u robots_decision \<Rightarrow> 'u fetched_page \<Rightarrow> string list
     \<Rightarrow> string option \<Rightarrow> fmt \<Rightarrow> ('w, 'u, 'c) scrape_state \<Rightarrow> (json \<times> bool, ('w, 'u, 'c) scrape_state) step" where
  "produce Z R decision page sitemaps rendered f s =
     (let k = pg_kind page; body = pg_body page; source = or_value rendered body;
          document = JStr (or_value (pg_document page) [])
      in case f of
           RawHtml \<Rightarrow> ret (text_surface body k, False) s
         | fmt.Markdown \<Rightarrow>
             ret (if k = HtmlContent then JStr (to_markdown (ev_url Z) (ev_dom Z) source (pg_base page))
                  else if is_document k then document else text_surface body k, False) s
         | Html \<Rightarrow>
             ret (if k = HtmlContent then JStr source
                  else if is_document k then document else text_surface body k, False) s
         | Links \<Rightarrow> ret (links_surface (ev_url Z) (ev_html Z) body (pg_base page) k sitemaps, False) s
         | fmt.Metadata \<Rightarrow>
             ret (case extract_for_content (ev_html Z) body
                     \<lparr> pm_source_url = url_string (ev_url Z) (sr_url R),
                       pm_status_code = Some (f_status_code (pg_fetched page)),
                       pm_content_type = f_content_type (pg_fetched page) \<rparr> (k = HtmlContent) of
                    JObj m \<Rightarrow> JObj (bt_insert ''robotsPolicy'' (decision_to_value decision) m)
                  | v \<Rightarrow> v, False) s
         | Screenshot \<Rightarrow>
             and_then (browse Z R (ev_capture Z) (capture_error (ev_quote Z) (ev_read_json Z)) (pg_base page)
                 ((render_request_of Z R (bp_hard (sr_plan R)) [])
                   \<lparr> rr_timeout_secs := so_timeout_secs (sr_opts R), rr_wait_for := None,
                     rr_window_size := pp_viewport (sr_prep R),
                     rr_full_page := so_screenshot_full_page (sr_opts R) \<rparr>) s)
               (\<lambda>shot s. ret (JStr shot, True) s)
         | fmt.Json \<Rightarrow> ret (JNull, False) s)"

fun produce_all ::
    "(fmt \<Rightarrow> 's \<Rightarrow> (json \<times> bool, 's) step) \<Rightarrow> fmt list \<Rightarrow> (string, json) btree \<Rightarrow> bool \<Rightarrow> 's
     \<Rightarrow> ((string, json) btree \<times> bool, 's) step" where
  "produce_all mk [] produced used s = ret (produced, used) s"
| "produce_all mk (f # fs) produced used s =
     and_then (mk f s) (\<lambda>(v, shot) s.
       produce_all mk fs (bt_insert (fmt_str f) v produced) (used \<or> shot) s)"

section \<open>Pagination\<close>

definition page_hard :: "scrape_options \<Rightarrow> bool" where
  "page_hard opts =
     requires_chromium_hard_path
       \<lparr> hp_proxy_class = so_proxy_class opts, hp_difficulty = so_difficulty opts,
         hp_force_browser = so_force_browser opts, hp_render_enabled = so_render_enabled opts,
         hp_needs_browser_formats = True \<rparr>"

definition scrape_next_page ::
    "('u, 'w, 'r, 'e, 'd, 'c, 's, 'x) scrape_env \<Rightarrow> ('u, 'x) scrape_run \<Rightarrow> 'u \<Rightarrow> ('w, 'u, 'c) scrape_state
     \<Rightarrow> (string \<times> string \<times> 'u, ('w, 'u, 'c) scrape_state) step" where
  "scrape_next_page Z R url s =
     and_then (fetch_page Z R url s) (\<lambda>f s.
       let opts = sr_opts R;
           is_html = (classify (f_content_type f) = HtmlContent);
           body = redact_sensitive_request_echoes
             (decode_body (ev_charsets Z) (f_body f) (f_content_type f) is_html) (so_headers opts);
           base = page_base_of (ev_url Z) url f
       in if page_hard opts \<and> \<not> bp_inject (sr_plan R) then fails_with (HardPath STEALTH_INJECT_REQUIRED) s
          else and_then
            (if so_render_enabled opts \<and> is_html \<and> trim body \<noteq> []
             then render_page Z R base (page_hard opts) [] s else ret body s)
            (\<lambda>source s. ret (to_markdown (ev_url Z) (ev_dom Z) source base, source, base) s))"

text \<open>The loop over at most the given number of further pages.\<close>

fun follow_pages ::
    "('u, 'w, 'r, 'e, 'd, 'c, 's, 'x) scrape_env \<Rightarrow> ('u, 'x) scrape_run \<Rightarrow> nat \<Rightarrow> string \<Rightarrow> 'u \<Rightarrow> string list \<Rightarrow> string option
     \<Rightarrow> ('w, 'u, 'c) scrape_state \<Rightarrow> (string list \<times> string option, ('w, 'u, 'c) scrape_state) step" where
  "follow_pages Z R 0 html base crawled markdown s = ret (crawled, markdown) s"
| "follow_pages Z R (Suc n) html base crawled markdown s =
     (case find_next (ev_url Z) (ev_html Z) html base of
        None \<Rightarrow> ret (crawled, markdown) s
      | Some next_url \<Rightarrow>
          let key = url_string (ev_url Z) next_url
          in if key \<in> set crawled then ret (crawled, markdown) s
             else and_then (scrape_next_page Z R next_url s) (\<lambda>(page_markdown, html, base) s.
               follow_pages Z R n html base (crawled @ [key])
                 (map_option (\<lambda>agg. agg @ [LF, LF] @ page_markdown) markdown) s))"

definition pagination_stage ::
    "('u, 'w, 'r, 'e, 'd, 'c, 's, 'x) scrape_env \<Rightarrow> ('u, 'x) scrape_run \<Rightarrow> 'u fetched_page \<Rightarrow> string option
     \<Rightarrow> (string, json) btree \<Rightarrow> ('w, 'u, 'c) scrape_state
     \<Rightarrow> ((string, json) btree \<times> string list, ('w, 'u, 'c) scrape_state) step" where
  "pagination_stage Z R page rendered produced s =
     (if \<not> so_follow_pagination (sr_opts R) then ret (produced, []) s
      else let markdown = (if fmt.Markdown \<in> set (pp_formats (sr_prep R))
             then (case bt_get produced (fmt_str fmt.Markdown) of Some (JStr t) \<Rightarrow> Some t | _ \<Rightarrow> None) else None)
        in and_then (follow_pages Z R (max (so_max_pages (sr_opts R)) 1 - 1) (or_value rendered (pg_body page))
             (pg_base page) [url_string (ev_url Z) (sr_url R)] markdown s) (\<lambda>(crawled, markdown) s.
             ret (case markdown of
                    Some agg \<Rightarrow> bt_insert (fmt_str fmt.Markdown) (JStr agg) produced
                  | None \<Rightarrow> produced, crawled) s))"

section \<open>The proof\<close>

definition soft_audit_of ::
    "soft_tls_impersonate option \<Rightarrow> fingerprint_profile \<Rightarrow> fetch_path \<Rightarrow> soft_tls_audit option" where
  "soft_audit_of soft fp path =
     (case soft of
        Some profile \<Rightarrow>
          if path = PathDirect then
            let a = audit_from_applied profile fp
            in Some \<lparr> st_profile = sa_profile a, st_ja_label = sa_ja_label a, st_soft_ja3 = sa_soft_ja3 a,
                     st_soft_ja4 = sa_soft_ja4 a \<rparr>
          else None
      | None \<Rightarrow> None)"

definition assemble_proof ::
    "('u, 'w, 'r, 'e, 'd, 'c, 's, 'x) scrape_env \<Rightarrow> ('u, 'x) scrape_run \<Rightarrow> tls_block fetched \<Rightarrow> (string, json) btree
     \<Rightarrow> string list \<Rightarrow> render_usage \<Rightarrow> egress_block \<Rightarrow> scrape_proof" where
  "assemble_proof Z R f produced crawled usage egress =
     (let ops = ev_ops Z; opts = sr_opts R; url = url_string (ev_url Z) (sr_url R);
          names = map fmt_str (pp_formats (sr_prep R));
          hh = headers_hash ops (fc_headers (sr_cfg R)); bh = body_hash ops (so_body opts);
          rh = result_hash ops (ev_write Z) produced
      in \<lparr> sp_version = SCRAPE_PROOF_VERSION, sp_task_id = so_task_id opts, sp_nonce = so_nonce opts,
           sp_request = \<lparr> rq_method = pp_method (sr_prep R), rq_url = url, rq_headers_hash = Some hh,
             rq_body_hash = Some bh,
             rq_request_hash = Some (request_hash ops (pp_method (sr_prep R)) url hh bh), rq_formats = names \<rparr>,
           sp_tls = f_tls f,
           sp_response = \<lparr> rs_status_code = Some (f_status_code f), rs_headers_hash = Some (f_headers_hash f),
             rs_body_hash = Some (f_body_hash f), rs_content_length = Some (f_content_length f),
             rs_content_type = f_content_type f, rs_body_truncated = f_body_truncated f,
             rs_body_max_bytes = Some (so_max_body_bytes opts), rs_final_url = Some (f_final_url f),
             rs_redirect_chain = f_redirects f, rs_render_subresource_count = ru_count usage,
             rs_render_subresource_max_count = so_max_render_subresources opts,
             rs_render_resource_bytes = ru_bytes usage, rs_render_max_bytes = so_max_render_bytes opts,
             rs_render_resource_cap_exceeded = ru_cap_exceeded usage \<rparr>,
           sp_result = \<lparr> rb_formats_produced = produced, rb_result_hash = Some rh,
             rb_completeness_manifest = completeness_manifest_of (ev_write Z) names produced,
             rb_manifest_sha256 = Some (manifest_sha256 ops url (so_nonce opts) rh), rb_crawled_urls = crawled \<rparr>,
           sp_egress = egress, sp_attestation = no_attestation,
           sp_sdk_signature = \<lparr> ss_enclave_pubkey = None, ss_sig = None \<rparr> \<rparr>)"

definition finish_proof ::
    "('u, 'w, 'r, 'e, 'd, 'c, 's, 'x) scrape_env \<Rightarrow> ('u, 'x) scrape_run \<Rightarrow> 'u fetched_page \<Rightarrow> (string, json) btree
     \<Rightarrow> string list \<Rightarrow> bool \<Rightarrow> ('w, 'u, 'c) scrape_state \<Rightarrow> (scrape_proof, ('w, 'u, 'c) scrape_state) step" where
  "finish_proof Z R page produced crawled chromium_used s =
     (let opts = sr_opts R; hard = bp_hard (sr_plan R); f = pg_fetched page;
          produced = materialize_robots_policy_hops produced (zs_hops s)
      in and_then (clock_now Z s) (\<lambda>t s.
        if sr_deadline R \<le> t then fails_with (Timeout ''scrape deadline exceeded'') s
        else let usage = ev_usage Z (zs_world s);
                 path = truthful_fetch_path (chromium_used
                   \<or> (hard \<and> bp_browser (sr_plan R) \<and> pg_kind page = HtmlContent))
          in if hard \<and> pg_kind page = HtmlContent \<and> path \<noteq> PathChromium
             then fail_wiping (ev_ops Z) (HardPath
               ''hard/residential request completed without a Chromium identity (dual-stack mismatch)'') s
             else and_then (of_res (build_with_soft_tls_impersonate (ev_rfc3339 Z (f_fetched_at f)) (f_egress_ip f)
                 (fp_seed (pp_fingerprint (sr_prep R))) (case so_landmark_rtts opts of Some m \<Rightarrow> m | None \<Rightarrow> [])
                 (pp_class (sr_prep R)) path
                 (soft_audit_of (pp_soft_tls (sr_prep R)) (pp_fingerprint (sr_prep R)) path)) s) (\<lambda>egress s.
               let proof = assemble_proof Z R f produced crawled usage egress
               in if so_sign_proof opts \<and> \<not> so_attest opts
                  then fails_with (EnclaveSignature ''signed proofs require attestation'') s
                  else let s = wipe_profile (ev_ops Z) s
                    in if so_attest opts
                       then on_world (\<lambda>w. Some (attest_proof (ev_ops Z) (ev_agent Z) (ev_write Z) (ev_f64_json Z) proof w)) s
                       else ret proof s)))"

section \<open>The scrape\<close>

definition scrape_page ::
    "('u, 'w, 'r, 'e, 'd, 'c, 's, 'x) scrape_env \<Rightarrow> ('u, 'x) scrape_run \<Rightarrow> ('w, 'u, 'c) scrape_state
     \<Rightarrow> (scrape_proof, ('w, 'u, 'c) scrape_state) step" where
  "scrape_page Z R s =
     and_then (fetch_page Z R (sr_url R) s) (\<lambda>f s.
     case initial_decision (zs_hops s) of
       None \<Rightarrow> None
     | Some decision \<Rightarrow>
     and_then (of_res (read_page Z (sr_opts R) (sr_url R) f) s) (\<lambda>page s.
     and_then (sitemap_urls Z R decision s) (\<lambda>sitemaps s.
     and_then (of_res (resolve_runtime (ev_env Z) (so_captcha_solver (sr_opts R)) (so_captcha_api_key (sr_opts R))
         (so_captcha_solve_timeout_secs (sr_opts R))) s) (\<lambda>runtime s.
     and_then (first_solution Z R runtime page s) (\<lambda>pending s.
     and_then (render_stage Z R runtime page pending s) (\<lambda>rendered s.
     and_then (produce_all (produce Z R decision page sitemaps rendered) (pp_formats (sr_prep R)) []
         (rendered \<noteq> None) s) (\<lambda>(produced, chromium_used) s.
     and_then (pagination_stage Z R page rendered produced s) (\<lambda>(produced, crawled) s.
       finish_proof Z R page produced crawled chromium_used s))))))))"

definition start_chromium_composer ::
    "('u, 'w, 'r, 'e, 'd, 'c, 's, 'x) scrape_env \<Rightarrow> proxy_config \<Rightarrow> ('w, 'u, 'c) scrape_state
     \<Rightarrow> ('x, ('w, 'u, 'c) scrape_state) step" where
  "start_chromium_composer Z cfg s =
     (if ev_env Z ''BASECRAWL_COMPOSER_FAIL_START'' \<noteq> None
      then fails_with (core_error.DnsIsolation (''could not start DoH-preserving proxy composer for Chromium ''
             @ ''(sealed SOCKS bind failed: Address already in use)'')) s
      else on_world (\<lambda>w. let (r, w) = ev_compose Z cfg w in
             Some (map_err (\<lambda>e. core_error.DnsIsolation
               (''could not start DoH-preserving proxy composer for Chromium ('' @ e @ '')'')) r, w)) s)"

text \<open>
  The part that holds a sticky profile. However it ends, dropping the guard wipes the profile unless that
  was done before; an error of the acquisition comes before there is a guard.
\<close>

definition acquire_profile ::
    "('u, 'w, 'r, 'e, 'd, 'c, 's, 'x) scrape_env \<Rightarrow> scrape_options \<Rightarrow> browser_plan \<Rightarrow> ('w, 'u, 'c) scrape_state
     \<Rightarrow> (string option, ('w, 'u, 'c) scrape_state) step" where
  "acquire_profile Z opts plan s =
     (if \<not> bp_browser plan then ret None s
      else let (r, st) = acquire_sticky_profile (ev_ops Z) (ev_io Z) (ev_empty_dir Z)
                 (sticky_profile_root (ev_env Z) (ev_temp_dir Z)) (sticky_key opts) (zs_sticky s);
               s = s \<lparr> zs_sticky := st \<rparr>
           in case r of
                Inl e \<Rightarrow> fails_with (HardPath (stealth_policy_text e)) s
              | Inr dir \<Rightarrow> ret (Some dir) s)"

definition arm_guard :: "scrape_options \<Rightarrow> browser_plan \<Rightarrow> wipe_guard" where
  "arm_guard opts plan =
     \<lparr> wg_key = (if bp_browser plan then Some (sticky_key opts) else None),
       wg_enabled = (so_wipe_profile_on_complete opts \<and> bp_browser plan) \<rparr>"

definition drop_guard ::
    "crypto_ops \<Rightarrow> ('a, ('w, 'u, 'c) scrape_state) step \<Rightarrow> ('a, ('w, 'u, 'c) scrape_state) step" where
  "drop_guard ops m = map_option (\<lambda>(r, s). (r, wipe_profile ops s)) m"

definition guarded_scrape ::
    "('u, 'w, 'r, 'e, 'd, 'c, 's, 'x) scrape_env \<Rightarrow> scrape_options \<Rightarrow> 'u \<Rightarrow> prepared \<Rightarrow> nat \<Rightarrow> ('w, 'u, 'c) scrape_state
     \<Rightarrow> (scrape_proof, ('w, 'u, 'c) scrape_state) step" where
  "guarded_scrape Z opts url p deadline s =
     and_then (of_res (browser_plan_of (ev_env Z) opts p) s) (\<lambda>plan s.
     and_then (acquire_profile Z opts plan s) (\<lambda>profile s.
     drop_guard (ev_ops Z)
       (and_then (case pp_proxy p of
            Some cfg \<Rightarrow> if bp_browser plan
              then and_then (start_chromium_composer Z cfg (s \<lparr> zs_guard := arm_guard opts plan \<rparr>)) (\<lambda>x s. ret (Some x) s)
              else ret None (s \<lparr> zs_guard := arm_guard opts plan \<rparr>)
          | None \<Rightarrow> ret None (s \<lparr> zs_guard := arm_guard opts plan \<rparr>)) (\<lambda>composer s.
        scrape_page Z \<lparr> sr_opts = opts, sr_prep = p, sr_plan = plan, sr_url = url,
            sr_cfg = scrape_fetch_config opts url p, sr_composer = composer, sr_profile = profile,
            sr_deadline = deadline \<rparr> (s \<lparr> zs_hops := [] \<rparr>)))))"

definition RESIDENTIAL_OWNER :: string where
  "RESIDENTIAL_OWNER = ''basecrawl-scrape''"

definition with_residential_slot ::
    "bool \<Rightarrow> (('w, 'u, 'c) scrape_state \<Rightarrow> ('a, ('w, 'u, 'c) scrape_state) step) \<Rightarrow> ('w, 'u, 'c) scrape_state
     \<Rightarrow> ('a, ('w, 'u, 'c) scrape_state) step" where
  "with_residential_slot wanted body s =
     (if \<not> wanted then body s
      else case acquire_residential_dial_slot RESIDENTIAL_OWNER (zs_slot s) of
        (Inl e, slot) \<Rightarrow> fails_with e (s \<lparr> zs_slot := slot \<rparr>)
      | (Inr _, slot) \<Rightarrow>
          map_option (\<lambda>(r, s). (r, s \<lparr> zs_slot := drop_dial_guard RESIDENTIAL_OWNER (zs_slot s) \<rparr>))
            (body (s \<lparr> zs_slot := slot \<rparr>)))"

definition scrape ::
    "('u, 'w, 'r, 'e, 'd, 'c, 's, 'x) scrape_env \<Rightarrow> string \<Rightarrow> scrape_options \<Rightarrow> ('w, 'u, 'c) scrape_state
     \<Rightarrow> (scrape_proof, ('w, 'u, 'c) scrape_state) step" where
  "scrape Z raw_url opts s =
     and_then (of_res (validate_url (ev_url Z) raw_url) s) (\<lambda>url s.
     and_then (clock_now Z s) (\<lambda>t s.
     case instant_add t (so_timeout_secs opts * 1000) of
       None \<Rightarrow> None
     | Some deadline \<Rightarrow>
     and_then (of_res (prepare (ev_quote Z) (ev_parse_json Z) (ev_ops Z) (ev_login Z) (ev_env Z) opts url) s) (\<lambda>p s.
       with_residential_slot (wants_residential_slot (ev_env Z) opts p) (guarded_scrape Z opts url p deadline) s)))"

end
