(* ===== verification/Scrape_Demo.thy ===== *)
theory Scrape_Demo
  imports Scrape Fingerprint_Space
begin

text \<open>
  One concrete scrape, run inside the logic: a forced hard scrape of a page of HTML, through preparation, fetch, render
  and proof. The world is the list of bodies the origin still serves. The witnesses of the scrape's theorems use it.
\<close>

section \<open>A concrete environment\<close>

definition shop_net :: "(demo_url, proxy_config, tls_block, string list, string) net" where
  "shop_net =
     \<lparr> n_direct_connect = (\<lambda>h p w. (Inr ''10.0.0.1'', w)), n_proxy_connect = (\<lambda>q h p w. (Inr ''10.0.0.2'', w)),
       n_server_name_ok = (\<lambda>h. True), n_handshake = (\<lambda>h i w. (Inr default_tls, w)),
       n_send = (\<lambda>req w. case w of [] \<Rightarrow> (Inl (Transport ''closed''), []) | x # xs \<Rightarrow> (Inr x, xs)),
       n_codecs = demo_codecs, n_live = (\<lambda>w j k. True),
       n_httparse = (\<lambda>raw. HeadComplete 0 (Some 200) [(''content-type'', ''text/html'')]),
       n_lossy = id, n_pace = (\<lambda>u d w. (Inr (), w)), n_now = (\<lambda>w. ''now''), n_no_tls = default_tls,
       n_overflow_checks = True \<rparr>"

definition shop_env :: "(demo_url, string list, string, string, unit, unit, unit, unit) scrape_env" where
  "shop_env =
     \<lparr> ev_env = (\<lambda>_. None), ev_ops = demo_ops, ev_login = demo_login_ops, ev_net = shop_net, ev_charsets = plain_charsets,
       ev_xml = (\<lambda>_. []), ev_dom = demo_dom, ev_readers = demo_readers, ev_quote = id, ev_parse_json = Inl,
       ev_read_json = (\<lambda>_. None), ev_write = (\<lambda>_. ''{}''), ev_f64_json = (\<lambda>_. JNull), ev_script = (\<lambda>_. []),
       ev_siphash = (\<lambda>_. 0),
       ev_solver = (\<lambda>_. \<lparr> sn_post = (\<lambda>_ _ w. (Inl ''offline'', w)), sn_now = (\<lambda>w. (0, w)), sn_sleep = (\<lambda>_ w. w) \<rparr>),
       ev_compose = (\<lambda>_ w. (Inr (), w)), ev_render = (\<lambda>_ _ _ s. Some (Inr ''<p>shown</p>'', s)),
       ev_capture = (\<lambda>_ _ _ s. Some (Inr ''png'', s)),
       ev_usage = (\<lambda>_. \<lparr> ru_count = 0, ru_bytes = 0, ru_cap_exceeded = False \<rparr>), ev_clock = (\<lambda>w. (0, w)),
       ev_temp_dir = ''/tmp'', ev_io = (\<lambda>_. None), ev_empty_dir = (), ev_rfc3339 = Inr, ev_agent =
         \<lparr> ga_net = \<lparr> ux_connect = (\<lambda>_ w. (Inl ''no agent'', w)), ux_set_read_timeout = (\<lambda>_ _ w. (Inr (), w)),
            ux_set_write_timeout = (\<lambda>_ _ w. (Inr (), w)), ux_write_all = (\<lambda>_ _ w. (Inr (), w)),
            ux_shutdown_write = (\<lambda>_ w. (Inr (), w)), ux_read_to_end = (\<lambda>_ w. (Inr [], w)) \<rparr>,
          ga_keys = \<lparr> ed_key_ok = (\<lambda>_. True), ed_verify = (\<lambda>_ _ _. True) \<rparr>,
          ga_read_quote = Inl, ga_read_sign = Inl \<rparr> \<rparr>"

definition shop_options :: scrape_options where
  "shop_options = default_scrape_options \<lparr> so_formats := [Html, RawHtml], so_max_body_bytes := 64,
     so_robots_policy := Ignore, so_force_browser := True, so_task_id := Some ''t'', so_nonce := Some ''n'',
     so_timeout_secs := 1 \<rparr>"

definition shop_start :: "string list \<Rightarrow> (string list, demo_url, unit) scrape_state" where
  "shop_start bodies = \<lparr> zs_world = bodies, zs_hops = [], zs_slot = free_slot,
     zs_sticky = \<lparr> st_profiles = Map.empty, st_last = None, st_fs = (\<lambda>_. None) \<rparr>,
     zs_guard = \<lparr> wg_key = None, wg_enabled = False \<rparr> \<rparr>"



section \<open>It is prepared\<close>

lemma shop_agent: "fp_user_agent (generate ops (\<lambda>_. None) s) \<in> set USER_AGENTS"
proof -
  let ?u = "pick ops (stream_lane ops (seed_stream ops (normalize_seed ops s)) 0) USER_AGENTS"
  have u: "?u \<in> set USER_AGENTS" by (rule pick_mem) (simp add: USER_AGENTS_def)
  obtain b where b: "?u = b @ ''Chrome/145.0.0.0 Safari/537.36''" "find_sub ''Chrome/'' ?u = Some (length b)"
    using agents_decomp[OF u] by blast
  have d: "digits_prefix ''145.0.0.0 Safari/537.36'' = ''145''" by code_simp
  have o: "split_once_str ''Chrome/'' ?u = Some (b, ''145.0.0.0 Safari/537.36'')"
    using b by (simp add: split_once_str_def)
  have "coerce_user_agent_to_product_pin (\<lambda>_. None) ?u = ?u"
    by (simp add: coerce_user_agent_to_product_pin_def o d parse_145 pinned_version)
  with u show ?thesis by (simp add: generate_fields)
qed

lemma shop_agent_bytes: "list_all (list_all is_value_byte) USER_AGENTS"
  by code_simp

lemma shop_seed_header:
  assumes "seed_header (generate ops (\<lambda>_. None) s) n = Some h" and "n \<in> set (fp_header_names (generate ops (\<lambda>_. None) s))"
  shows "validate_header_pair (fst h) (snd h) = Inr ()"
proof -
  let ?fp = "generate ops (\<lambda>_. None) s"
  let ?names = "[''user-agent'', ''accept'', ''accept-language'', ''accept-encoding'']"
  let ?vals = "fp_accept ?fp # fp_accept_encoding ?fp # USER_AGENTS @ map accept_language_for LOCALES"
  have a: "fp_accept ?fp = ''text/html,application/xhtml+xml,application/xml;q=0.9,image/avif,image/webp,*/*;q=0.8''"
    "fp_accept_encoding ?fp = ''gzip, deflate, br''" "fp_accept_language ?fp = accept_language_for (fp_locale ?fp)"
    by (simp_all add: generate_def Let_def split: prod.split)
  have "fp_locale ?fp \<in> set LOCALES" unfolding generate_fields by (rule pick_mem) (simp add: LOCALES_def)
  then have v: "snd h \<in> set ?vals" using assms(1) shop_agent[of ops s] a(3) by (auto simp: seed_header_def split: if_splits)
  have "list_all (list_all (\<lambda>n. n \<in> set ?names)) HEADER_ORDERS" by code_simp
  moreover have "fp_header_names ?fp \<in> set HEADER_ORDERS" unfolding generate_fields by (rule pick_mem) (simp add: HEADER_ORDERS_def)
  ultimately have n: "fst h \<in> set ?names"
    using assms by (fastforce simp: seed_header_def list_all_iff split: if_splits)
  have "list_all (\<lambda>n. n \<noteq> [] \<and> list_all is_tchar n) ?names" by code_simp
  moreover have "list_all (list_all is_value_byte) (''text/html,application/xhtml+xml,application/xml;q=0.9,image/avif,image/webp,*/*;q=0.8''
      # ''gzip, deflate, br'' # map accept_language_for LOCALES)" by code_simp
  ultimately have c: "list_all (\<lambda>n. n \<noteq> [] \<and> list_all is_tchar n) ?names" "list_all (list_all is_value_byte) ?vals"
    using shop_agent_bytes unfolding a by simp_all
  have "fst h \<noteq> [] \<and> list_all is_tchar (fst h)" by (rule c(1)[unfolded list_all_iff[of _ ?names], THEN bspec, OF n])
  moreover have "list_all is_value_byte (snd h)" by (rule c(2)[unfolded list_all_iff[of _ ?vals], THEN bspec, OF v])
  ultimately show ?thesis by (simp add: validate_header_pair_def)
qed

lemma shop_headers:
  "\<exists>hs. scrape_headers shop_options (generate ops (\<lambda>_. None) s) = Inr hs
     \<and> list_all (\<lambda>h. validate_header_pair (fst h) (snd h) = Inr ()) hs"
proof -
  let ?fp = "generate ops (\<lambda>_. None) s"
  let ?hs = "List.map_filter (seed_header ?fp) (fp_header_names ?fp)"
  have c: "validate_caller_headers [] = Inr ()" "so_headers shop_options = []"
    by (simp_all add: validate_caller_headers_def shop_options_def default_scrape_options_def)
  have ok: "list_all (\<lambda>h. validate_header_pair (fst h) (snd h) = Inr ()) ?hs"
    using shop_seed_header by (fastforce simp: list_all_iff List.map_filter_def)
  have "validate_pairs hs = Inr ()" if "list_all (\<lambda>h. validate_header_pair (fst h) (snd h) = Inr ()) hs" for hs
    using that by (induction hs rule: validate_pairs.induct) (simp_all add: res_simps)
  with ok c show ?thesis by (simp add: scrape_headers_def effective_fingerprint_headers_def Let_def res_simps)
qed

lemma shop_prepared:
  obtains p where
    "prepare (ev_quote shop_env) (ev_parse_json shop_env) (ev_ops shop_env) (ev_login shop_env) (ev_env shop_env) shop_options
       (site ''/a'') = Inr p"
    "pp_formats p = [Html, RawHtml]" "pp_method p = ''GET''" "pp_proxy p = None" "pp_class p = ClassDirect"
    "list_all (\<lambda>h. validate_header_pair (fst h) (snd h) = Inr ()) (pp_headers p)"
    "validate_header_pair ''user-agent'' (fp_user_agent (pp_fingerprint p)) = Inr ()" "pp_soft_tls p = None"
proof -
  let ?s = "scrape_seed demo_ops shop_options"
  obtain fp where fp: "generate demo_ops (\<lambda>_. None) ?s = fp" by blast
  have e: "ev_quote shop_env = id" "ev_parse_json shop_env = Inl" "ev_ops shop_env = demo_ops"
    "ev_login shop_env = demo_login_ops" "ev_env shop_env = (\<lambda>_. None)" by (simp_all add: shop_env_def)
  obtain hs where hs: "scrape_headers shop_options fp = Inr hs"
    "list_all (\<lambda>h. validate_header_pair (fst h) (snd h) = Inr ()) hs" using shop_headers fp by blast
  have d: "so_formats shop_options = [Html, RawHtml]" "so_method shop_options = ''GET''" "so_body shop_options = []"
    "so_json_schema shop_options = None" "so_json_prompt shop_options = None" "so_proxy_class shop_options = None"
    by (simp_all add: shop_options_def default_scrape_options_def DEFAULT_METHOD_def)
  have r: "requested_formats shop_options = [Html, RawHtml]"
    unfolding requested_formats_def d by code_simp
  have m: "normalize_method (Some (so_method shop_options)) = Inr ''GET''" unfolding d by code_simp
  have b: "validate_method_body ''GET'' (so_body shop_options) = Inr ()" unfolding d by code_simp
  have q: "refuse_structured Inl (\<lambda>_. None) shop_options [Html, RawHtml] = Inr ()" by (simp add: refuse_structured_def)
  have so_tls: "so_tls_impersonate shop_options = None" by (simp add: shop_options_def default_scrape_options_def)
  have "generate_validated id demo_ops (\<lambda>_. None) ?s = Inr fp"
    unfolding fp[symmetric] by (simp add: generate_validated_def reordered_secure[OF generate_reordered])
  then have f: "scrape_fingerprint id demo_ops (\<lambda>_. None) shop_options = Inr (fp, None)"
    by (simp add: scrape_fingerprint_def res_simps soften_tls_def so_tls)
  have x: "resolve_proxy_plan demo_login_ops (\<lambda>_. None) (scrape_proxy_plan shop_options) (site ''/a'') = Inr None"
  proof -
    have "scrape_proxy_plan shop_options = \<lparr> pn_explicit_url = None,
        pn_username = \<lparr> uo_country = None, uo_session = None, uo_template = None \<rparr>, pn_required = None, pn_configured = None \<rparr>"
      by (simp add: scrape_proxy_plan_def shop_options_def default_scrape_options_def)
    moreover have "first_env (\<lambda>_. None) ks = None" for ks by (induction ks) (simp_all add: non_blank_def)
    ultimately show ?thesis
      by (simp add: resolve_proxy_plan_def resolve_proxy_def non_blank_def check_plan_def plan_class_def res_simps)
  qed
  have c: "truthful_proxy_class None (so_proxy_class shop_options) = Inr ClassDirect" unfolding d by code_simp
  have "''user-agent'' \<noteq> [] \<and> list_all is_tchar ''user-agent''" by code_simp
  then have u: "validate_header_pair ''user-agent'' (fp_user_agent fp) = Inr ()"
    using shop_agent[of demo_ops ?s] shop_agent_bytes unfolding fp by (simp add: validate_header_pair_def list_all_iff)
  show ?thesis
    by (rule that[of "\<lparr> pp_formats = [Html, RawHtml], pp_method = ''GET'', pp_fingerprint = fp, pp_soft_tls = None,
          pp_viewport = scrape_viewport shop_options fp, pp_headers = hs, pp_proxy = None, pp_class = ClassDirect \<rparr>"])
      (use hs u in \<open>simp_all add: prepare_def e r m b q f x c Let_def res_simps\<close>)
qed

section \<open>It is fetched\<close>

lemma push_headers_ok:
  "list_all (\<lambda>h. validate_header_pair (fst h) (snd h) = Inr ()) hs \<Longrightarrow> is_ok (push_headers hs st)"
proof (induction hs arbitrary: st)
  case (Cons h hs)
  then show ?case by (cases h; cases st) (simp add: res_simps)
qed simp

lemma is_ok_bind: "is_ok m \<Longrightarrow> (\<And>a. is_ok (f a)) \<Longrightarrow> is_ok (bind_res m f)"
  by (cases m) simp_all

lemma request_ok:
  assumes "is_valid_http_method (request_method cfg)" and "same_origin U url cred"
    and "list_all (\<lambda>h. validate_header_pair (fst h) (snd h) = Inr ()) (fc_headers cfg)"
    and "validate_header_pair ''user-agent'' (fc_user_agent cfg) = Inr ()"
  shows "is_ok (build_http_request U url host port cfg cred)"
proof -
  have "is_ok (finish_request cfg st)" for st
    using assms(4) by (cases st) (simp add: finish_request_def Let_def is_ok_bind)
  moreover have "is_ok (push_headers (fc_headers cfg) st)" for st by (rule push_headers_ok[OF assms(3)])
  ultimately show ?thesis
    using assms(1,2) by (simp add: build_http_request_def Let_def caller_headers_for_def is_ok_bind)
qed

lemma shop_net_fields:
  "n_pace shop_net x d w = (Inr (), w)" "n_server_name_ok shop_net h"
  "n_direct_connect shop_net h q w = (Inr ''10.0.0.1'', w)" "n_handshake shop_net h i w = (Inr default_tls, w)"
  "n_codecs shop_net = demo_codecs" "n_send shop_net req (b # ws) = (Inr b, ws)"
  "n_live shop_net w k = (\<lambda>_. True)" "n_httparse shop_net raw = HeadComplete 0 (Some 200) [(''content-type'', ''text/html'')]"
  by (simp_all add: shop_net_def fun_eq_iff)

lemma shop_lifted:
  "n_pace (lift_net shop_net) x d w = (Inr (), w)" "n_server_name_ok (lift_net shop_net) h"
  "n_direct_connect (lift_net shop_net) h q w = (Inr ''10.0.0.1'', w)" "n_handshake (lift_net shop_net) h i w = (Inr default_tls, w)"
  "n_codecs (lift_net shop_net) = demo_codecs" "n_send (lift_net shop_net) req (b # ws, hops) = (Inr b, (ws, hops))"
  "n_live (lift_net shop_net) w k = (\<lambda>_. True)" "n_no_tls (lift_net shop_net) = default_tls"
  "n_httparse (lift_net shop_net) raw = HeadComplete 0 (Some 200) [(''content-type'', ''text/html'')]"
  by (simp_all add: lift_net_def on_fst_def shop_net_fields, simp add: shop_net_def)

lemma shop_body:
  "length b \<le> 64 \<Longrightarrow>
     decode_http_body demo_codecs c [(''content-type'', ''text/html'')] b 64 live = Some (Inr (b, False))"
proof -
  have utf8: "utf8_ok ''text/html''" by code_simp
  have h: "header_value [(''content-type'', ''text/html'')] n = (if eq_ic ''content-type'' n then Some ''text/html'' else None)" for n
    by (simp add: header_value_def utf8)
  have "\<not> eq_ic ''content-type'' ''transfer-encoding''" "\<not> eq_ic ''content-type'' ''content-encoding''" by code_simp+
  then show "length b \<le> 64 \<Longrightarrow> ?thesis"
    by (simp add: decode_http_body_def header_contains_token_def content_encodings_def header_value_def
        res_simps cap_bytes_def)
qed

lemma shop_exchange:
  assumes "length b \<le> 64" and "build_http_request demo_url_ops (site ''/a'') ''a.example'' 443 cfg (site ''/a'') = Inr req"
    and "fc_proxy cfg = None" and "fc_max_body_bytes cfg = 64"
  obtains sr where
    "transmit_hop demo_ops demo_url_ops (lift_net shop_net) (site ''/a'') cfg (site ''/a'') ((b # ws), hops) = Some (Inr sr, (ws, hops))"
    "sr_status_code sr = 200" "sr_body sr = b" "sr_content_type sr = Some ''text/html''" "sr_location sr = None"
proof -
  have r: "read_capped demo_read (64 + MAX_HTTP_RESPONSE_HEADER_BYTES) (\<lambda>_. True) b = Inr (b, False)"
    using assms(1) by (intro demo_read_capped) (auto simp: MAX_HTTP_RESPONSE_HEADER_BYTES_def)
  have u: "url_scheme demo_url_ops (site p) = ''https''" "url_host_str demo_url_ops (site p) = Some ''a.example''"
    "url_known_port demo_url_ops (site p) = Some 443" for p
    by (simp_all add: demo_url_ops_def site_def demo_known_port_def)
  have c: "cd_read demo_codecs = demo_read" by (simp add: demo_codecs_def)
  have h: "header_value [(''content-type'', ''text/html'')] ''content-type'' = Some ''text/html''"
    "header_value [(''content-type'', ''text/html'')] ''location'' = None"
    "map (\<lambda>(n, v). (to_lower n, v)) [(''content-type'', ''text/html'')] = [(''content-type'', ''text/html'')]" by code_simp+
  obtain sr where e: "exchange demo_ops demo_url_ops (lift_net shop_net) (site ''/a'') ''a.example'' 443 cfg (site ''/a'')
      (Some default_tls) ''10.0.0.1'' (b # ws, hops) = Some (Inr sr, (ws, hops))"
    and sr: "sr_status_code sr = 200" "sr_body sr = b" "sr_content_type sr = Some ''text/html''" "sr_location sr = None"
    using r assms(1)
    by (simp add: exchange_def and_then_def shop_lifted c assms(2-4) parse_http_response_def shop_body
        MAX_HTTP_RESPONSE_HEADER_BYTES_def h del: list.map)
  have "transmit_hop demo_ops demo_url_ops (lift_net shop_net) (site ''/a'') cfg (site ''/a'') ((b # ws), hops)
      = Some (Inr sr, (ws, hops))"
    by (simp add: transmit_hop_def fetch_https_def and_then_def open_origin_stream_def e u assms(3) shop_lifted)
  then show ?thesis using sr that by blast
qed

section \<open>It succeeds\<close>

lemma shop_fetched:
  assumes "length b \<le> 64" and "build_http_request demo_url_ops (site ''/a'') ''a.example'' 443 cfg (site ''/a'') = Inr req"
    and "fc_proxy cfg = None" and "fc_max_body_bytes cfg = 64" and "fc_credential_origin cfg = Some (site ''/a'')"
    and "sr_cfg R = cfg" and "sr_opts R = shop_options" and "zs_world s = b # ws" and "zs_hops s = []"
  obtains f d where "fetch_page shop_env R (site ''/a'') s = Some (Inr f, s \<lparr> zs_world := ws, zs_hops := [d] \<rparr>)"
    "f_status_code f = 200" "f_body f = b" "f_content_type f = Some ''text/html''"
proof -
  have r: "so_robots_policy shop_options = Ignore" by (simp add: shop_options_def)
  have e: "ev_ops shop_env = demo_ops" "ev_url shop_env = demo_url_ops" "ev_net shop_env = shop_net"
    by (simp_all add: shop_env_def demo_login_ops_def url_ops.defs)
  obtain d where d: "policy_check shop_env R (site ''/a'') (b # ws, []) = Some (Inr (), (b # ws, [d]))"
    by (simp add: policy_check_def document_check_def consult_def denies_fetch_def r assms(7) Let_def)
  obtain sr where t: "transmit_hop demo_ops demo_url_ops (lift_net shop_net) (site ''/a'') cfg (site ''/a'') ((b # ws), [d])
      = Some (Inr sr, (ws, [d]))" and sr: "sr_status_code sr = 200" "sr_body sr = b" "sr_content_type sr = Some ''text/html''"
      "sr_location sr = None" by (rule shop_exchange[OF assms(1-4), of ws "[d]"])
  define f where "f = finish_fetch demo_ops demo_url_ops (lift_net shop_net) sr (site ''/a'') []
      (case sr_tls sr of Some t \<Rightarrow> t | None \<Rightarrow> default_tls)
      (case sr_egress_ip sr of Some ip \<Rightarrow> Some ip | None \<Rightarrow> None) (ws, [d])"
  have f: "fetch_document_until demo_ops demo_url_ops (lift_net shop_net) (policy_check shop_env R) (site ''/a'') cfg
      (b # ws, []) = Some (Inr f, (ws, [d]))"
    unfolding fetch_document_until_def fetch_with_document_policy_until_def assms(5) option.case Let_def f_def shop_lifted
    by (subst redirect_loop.simps) (simp add: d t sr Let_def shop_lifted)
  have v: "f_status_code f = 200" "f_body f = b" "f_content_type f = Some ''text/html''"
    by (simp_all add: f_def finish_fetch_def sr)
  show ?thesis
    by (rule that[OF _ v]) (simp add: fetch_page_def on_page_def e assms(6,8,9) f)
qed

definition shop_result :: "scrape_proof \<Rightarrow> bool" where
  "shop_result p \<longleftrightarrow> rs_content_type (sp_response p) = Some ''text/html'' \<and> rs_status_code (sp_response p) = Some 200
     \<and> rb_formats_produced (sp_result p) = [(''html'', JStr ''<p>shown</p>''), (''rawHtml'', JStr ''<p>raw</p>'')]"

lemma shop_page:
  assumes "sr_opts R = shop_options" and "sr_plan R = \<lparr> bp_hard = True, bp_inject = True, bp_browser = True \<rparr>"
    and "pp_formats (sr_prep R) = [Html, RawHtml]" and "pp_soft_tls (sr_prep R) = None" and "pp_class (sr_prep R) = ClassDirect"
    and "sr_deadline R = 1000" and "sr_url R = site ''/a''"
    and "fetch_page shop_env R (site ''/a'') s = Some (Inr f, s \<lparr> zs_world := ws, zs_hops := [d] \<rparr>)"
    and "f_status_code f = 200" "f_body f = ''<p>raw</p>''" "f_content_type f = Some ''text/html''"
  shows "\<exists>p t. scrape_page shop_env R s = Some (Inr p, t) \<and> shop_result p"
proof -
  let ?s = "s \<lparr> zs_world := ws, zs_hops := [d] \<rparr>"
  have o: "so_headers shop_options = []" "so_captcha_solver shop_options = None" "so_captcha_api_key shop_options = None"
    "so_captcha_solve_timeout_secs shop_options = None" "so_actions shop_options = []" "so_follow_pagination shop_options = False"
    "so_sign_proof shop_options = False" "so_attest shop_options = False"
    by (simp_all add: shop_options_def default_scrape_options_def)
  have rd: "redact_sensitive_request_echoes b [] = b" for b by (simp add: redact_sensitive_request_echoes_def)
  have k: "classify (Some ''text/html'') = HtmlContent" by code_simp
  have db: "decode_body plain_charsets ''<p>raw</p>'' (Some ''text/html'') True = ''<p>raw</p>''" by code_simp
  obtain base where pg: "read_page shop_env shop_options (site ''/a'') f
      = Inr \<lparr> pg_fetched = f, pg_kind = HtmlContent, pg_document = None, pg_body = ''<p>raw</p>'', pg_base = base \<rparr>"
    by (simp add: read_page_def assms(9-11) k o rd shop_env_def db Let_def)
  have rt: "resolve_runtime (ev_env shop_env) None None None = Inr None"
    by (simp add: resolve_runtime_def read_api_key_from_env_def shop_env_def)
  have ch: "\<not> looks_like_challenge_interstitial ''<p>raw</p>'' 200" "\<not> looks_like_challenge_interstitial ''<p>shown</p>'' 200"
    by code_simp+
  have tr: "trim ''<p>raw</p>'' \<noteq> []" by code_simp
  have rn: "ev_render shop_env h u r x = Some (Inr ''<p>shown</p>'', x)" for h u r x by (simp add: shop_env_def)
  have cl: "ev_clock shop_env w = (0, w)" for w by (simp add: shop_env_def)
  have rf: "ev_rfc3339 shop_env x = Inr x" for x by (simp add: shop_env_def)
  let ?page = "\<lparr> pg_fetched = f, pg_kind = HtmlContent, pg_document = None, pg_body = ''<p>raw</p>'', pg_base = base \<rparr>"
  have rs: "render_stage shop_env R None ?page None ?s = Some (Inr (Some ''<p>shown</p>''), ?s)"
    by (simp add: render_stage_def armed_actions_def and_then_def should_render_html_def assms(1-3,9) o tr render_page_def
        browse_def on_page_def rn rd settle_render_def ch)
  let ?m = "[(''html'', JStr ''<p>shown</p>''), (''rawHtml'', JStr ''<p>raw</p>'')]"
  have fp: "\<exists>p t. finish_proof shop_env R ?page ?m [] True ?s = Some (Inr p, t) \<and> shop_result p"
    by (simp add: finish_proof_def Let_def and_then_def clock_now_def on_world_def cl assms(1-6) o truthful_fetch_path_def
        build_with_soft_tls_impersonate_def rf res_simps materialize_robots_policy_hops_def bt_get_def shop_result_def
        assemble_proof_def assms(9,11))
  have ins: "bt_insert ''rawHtml'' (JStr ''<p>raw</p>'') (bt_insert ''html'' (JStr ''<p>shown</p>'') []) = ?m" by code_simp
  have "scrape_page shop_env R s = finish_proof shop_env R ?page ?m [] True ?s"
    by (simp add: scrape_page_def assms(1,7,8) and_then_def initial_decision_def pg sitemap_urls_def assms(3) o rt first_solution_def
        assms(2,9) ch rs produce_def Let_def pagination_stage_def or_value_def ins del: bt_insert.simps)
  with fp show ?thesis by simp
qed

lemma shop_scrape:
  obtains p t where "scrape shop_env ''https://a.example/a'' shop_options (shop_start [''<p>raw</p>'']) = Some (Inr p, t)"
    "shop_result p"
proof -
  have U: "ev_url shop_env = demo_url_ops" by (simp add: shop_env_def demo_login_ops_def url_ops.defs)
  have v: "validate_url demo_url_ops ''https://a.example/a'' = Inr (site ''/a'')" by code_simp
  obtain p where p: "prepare (ev_quote shop_env) (ev_parse_json shop_env) (ev_ops shop_env) (ev_login shop_env) (ev_env shop_env)
       shop_options (site ''/a'') = Inr p"
    "pp_formats p = [Html, RawHtml]" "pp_method p = ''GET''" "pp_proxy p = None" "pp_class p = ClassDirect"
    "list_all (\<lambda>h. validate_header_pair (fst h) (snd h) = Inr ()) (pp_headers p)"
    "validate_header_pair ''user-agent'' (fp_user_agent (pp_fingerprint p)) = Inr ()" "pp_soft_tls p = None"
    by (rule shop_prepared)
  have c: "ev_clock shop_env w = (0, w)" "ev_env shop_env = (\<lambda>_. None)" "ev_ops shop_env = demo_ops" "ev_io shop_env = (\<lambda>_. None)"
    "ev_empty_dir shop_env = ()" "ev_temp_dir shop_env = ''/tmp''" for w by (simp_all add: shop_env_def)
  have o: "so_force_browser shop_options = True" "so_stealth_inject shop_options = True" "so_render_enabled shop_options = True"
    "so_timeout_secs shop_options = 1" "so_max_body_bytes shop_options = 64" "so_body shop_options = []"
    by (simp_all add: shop_options_def default_scrape_options_def)
  have np: "\<not> eq_ic ''GET'' ''POST''" by code_simp
  have bp: "browser_plan_of (ev_env shop_env) shop_options p = Inr \<lparr> bp_hard = True, bp_inject = True, bp_browser = True \<rparr>"
    by (simp add: browser_plan_of_def Let_def p np requires_chromium_hard_path_def hard_decision_def o stealth_inject_enabled_def c
        env_truthy_def will_launch_chromium_def res_simps)
  let ?s = "shop_start [''<p>raw</p>'']"
  obtain dir st where acq: "acquire_sticky_profile demo_ops (\<lambda>_. None) () (sticky_profile_root (\<lambda>_. None) ''/tmp'') (sticky_key shop_options)
      (zs_sticky ?s) = (Inr dir, st)"
    by atomize_elim (simp add: acquire_sticky_profile_def create_profile_def make_dir_def shop_start_def Let_def split: if_splits)
  let ?cfg = "scrape_fetch_config shop_options (site ''/a'') p"
  have cfg: "fc_headers ?cfg = pp_headers p" "fc_user_agent ?cfg = fp_user_agent (pp_fingerprint p)" "fc_method ?cfg = ''GET''"
    "fc_body ?cfg = []" "fc_proxy ?cfg = None" "fc_max_body_bytes ?cfg = 64" "fc_credential_origin ?cfg = Some (site ''/a'')"
    by (simp_all add: scrape_fetch_config_def p o)
  have so: "same_origin demo_url_ops (site ''/a'') (site ''/a'')" by code_simp
  have "trim ''GET'' = ''GET''" "is_valid_http_method ''GET''" by code_simp+
  then have "is_ok (build_http_request demo_url_ops (site ''/a'') ''a.example'' 443 ?cfg (site ''/a''))"
    by (intro request_ok so) (simp_all add: request_method_def cfg p)
  then obtain req where req: "build_http_request demo_url_ops (site ''/a'') ''a.example'' 443 ?cfg (site ''/a'') = Inr req"
    by (auto simp: is_ok_iff)
  define plan where "plan = \<lparr> bp_hard = True, bp_inject = True, bp_browser = True \<rparr>"
  define R :: "(demo_url, unit) scrape_run" where
    "R = \<lparr> sr_opts = shop_options, sr_prep = p, sr_plan = plan, sr_url = site ''/a'', sr_cfg = ?cfg, sr_composer = None,
       sr_profile = Some dir, sr_deadline = 1000 \<rparr>"
  define t where "t = ?s \<lparr> zs_sticky := st, zs_guard := arm_guard shop_options plan, zs_hops := [] \<rparr>"
  have R: "sr_opts R = shop_options" "sr_prep R = p" "sr_plan R = plan" "sr_url R = site ''/a''" "sr_cfg R = ?cfg" "sr_deadline R = 1000"
    by (simp_all add: R_def)
  have t: "zs_world t = [''<p>raw</p>'']" "zs_hops t = []" by (simp_all add: t_def shop_start_def)
  obtain f d where f: "fetch_page shop_env R (site ''/a'') t = Some (Inr f, t \<lparr> zs_world := [], zs_hops := [d] \<rparr>)"
    "f_status_code f = 200" "f_body f = ''<p>raw</p>''" "f_content_type f = Some ''text/html''"
    by (rule shop_fetched[OF _ req cfg(5-7) R(5,1) t]) simp
  have "\<exists>q u. scrape_page shop_env R t = Some (Inr q, u) \<and> shop_result q"
    by (rule shop_page[OF R(1) _ _ _ _ R(6,4) f]) (simp_all add: R p plan_def)
  then obtain q u where q: "scrape_page shop_env R t = Some (Inr q, u)" and res: "shop_result q" by blast
  have rs: "\<not> wants_residential_slot (ev_env shop_env) shop_options p" by (simp add: wants_residential_slot_def p)
  have "scrape shop_env ''https://a.example/a'' shop_options ?s = Some (Inr q, wipe_profile demo_ops u)"
    using q by (simp add: scrape_def U v and_then_def clock_now_def on_world_def c instant_add_def o p(1)[unfolded c] with_residential_slot_def
        rs[unfolded c] guarded_scrape_def bp[unfolded c] acquire_profile_def acq drop_guard_def p(4) R_def t_def plan_def)
  then show ?thesis using res by (rule that)
qed

end
