(* ===== verification/Scrape_Laws.thy ===== *)
theory Scrape_Laws
  imports Scrape_Demo
begin

text \<open>
  What a scrape guarantees however it ends, and what its proof says. Steps that only act on the world
  leave the slot, the profiles and the guard alone; the interface \<open>step_relation\<close> carries such facts through sequences.
\<close>

section \<open>Relations kept by steps\<close>

definition steps_in :: "('s \<Rightarrow> 's \<Rightarrow> bool) \<Rightarrow> 's \<Rightarrow> ('a, 's) step \<Rightarrow> bool" where
  "steps_in R s m \<longleftrightarrow> (\<forall>r t. m = Some (r, t) \<longrightarrow> R s t)"

locale step_relation =
  fixes R :: "'s \<Rightarrow> 's \<Rightarrow> bool"
  assumes R_refl: "R s s"
    and R_trans: "R s t \<Longrightarrow> R t u \<Longrightarrow> R s u"
begin

lemma steps_None: "steps_in R s None"
  by (simp add: steps_in_def)

lemma steps_same: "steps_in R s (Some (r, s))"
  by (simp add: steps_in_def R_refl)

lemma steps_then:
  assumes "steps_in R s m" and "\<And>a t. steps_in R t (f a t)"
  shows "steps_in R s (and_then m f)"
  using assms by (auto simp: steps_in_def and_then_def split: option.splits sum.splits prod.splits intro: R_trans)

lemma steps_trans: "R s t \<Longrightarrow> steps_in R t m \<Longrightarrow> steps_in R s m"
  by (auto simp: steps_in_def intro: R_trans)

end

text \<open>The same slot, and the profile of the guard left alone or wiped.\<close>

definition settled :: "crypto_ops \<Rightarrow> ('w, 'u, 'c) scrape_state \<Rightarrow> ('w, 'u, 'c) scrape_state \<Rightarrow> bool" where
  "settled ops s t \<longleftrightarrow>
     zs_slot t = zs_slot s
     \<and> ((zs_guard t, zs_sticky t) = (zs_guard s, zs_sticky s)
        \<or> (zs_guard t, zs_sticky t) = wipe_now ops (zs_guard s) (zs_sticky s))"

lemma wipe_now_twice: "wipe_now ops g st = (g', st') \<Longrightarrow> wipe_now ops g' st' = (g', st')"
  by (auto simp: wipe_now_def split: if_splits)

interpretation settling: step_relation "settled ops" for ops
proof
  show "settled ops s s" for s by (simp add: settled_def)
  show "settled ops s u" if "settled ops s t" "settled ops t u" for s t u
  proof -
    obtain g st where w: "wipe_now ops (zs_guard s) (zs_sticky s) = (g, st)" by fastforce
    have "wipe_now ops (zs_guard t) (zs_sticky t) = (g, st)" if "zs_guard t = g" "zs_sticky t = st"
      using wipe_now_twice[OF w] that by simp
    with that w show ?thesis unfolding settled_def by (elim conjE disjE) simp_all
  qed
qed

named_theorems settle \<open>steps that settle\<close>

declare settling.steps_None [settle] settling.steps_same [settle] settling.steps_then [settle]

lemma on_page_settled [settle]: "steps_in (settled ops) s (on_page f s)"
  by (auto simp: steps_in_def on_page_def settled_def)

lemma on_world_settled [settle]: "steps_in (settled ops) s (on_world f s)"
  by (auto simp: steps_in_def on_world_def settled_def)

lemma wipe_profile_settled: "settled ops s (wipe_profile ops s)"
  by (simp add: settled_def wipe_profile_def split: prod.split)

lemma fail_wiping_settled [settle]: "steps_in (settled ops) s (fail_wiping ops e s)"
  by (simp add: steps_in_def fail_wiping_def wipe_profile_settled)

lemma clock_now_settled [settle]: "steps_in (settled ops) s (clock_now Z s)"
  unfolding clock_now_def by (rule settle)

lemma fetch_page_settled [settle]: "steps_in (settled ops) s (fetch_page Z R url s)"
  unfolding fetch_page_def by (rule settle)

lemma sitemap_urls_settled [settle]: "steps_in (settled ops) s (sitemap_urls Z R d s)"
  unfolding sitemap_urls_def by (auto intro: settle)

lemma try_solve_settled [settle]: "steps_in (settled ops) s (try_optional_challenge_solve Z rt url html st d s)"
  unfolding try_optional_challenge_solve_def by (auto intro: settle split: option.split)

lemma solve_or_block_settled [settle]:
  "steps_in (settled (ev_ops Z)) s (solve_or_block Z rt base html st d d' s)"
  using try_solve_settled[of "ev_ops Z" s Z rt "url_string (ev_url Z) base" html st d]
  unfolding solve_or_block_def fail_wiping_def
  by (auto simp: steps_in_def split: option.splits sum.splits prod.splits
      intro: settling.R_trans wipe_profile_settled)

lemma first_solution_settled [settle]: "steps_in (settled (ev_ops Z)) s (first_solution Z R rt page s)"
  unfolding first_solution_def Let_def by (auto intro: settle)

lemma browse_settled [settle]: "steps_in (settled ops) s (browse Z R launch err base req s)"
  unfolding browse_def by (rule settle)

lemma render_page_settled [settle]: "steps_in (settled ops) s (render_page Z R base hard acts s)"
  unfolding render_page_def by (intro settle)

lemma check_applied_settled [settle]: "steps_in (settled ops) s (check_applied ops sol html st s)"
  unfolding check_applied_def by (auto intro: settle split: option.split)

lemma settle_render_settled [settle]: "steps_in (settled (ev_ops Z)) s (settle_render Z R rt page pending html s)"
  unfolding settle_render_def Let_def by (auto intro!: settle split: option.split)

lemma render_stage_settled [settle]: "steps_in (settled (ev_ops Z)) s (render_stage Z R rt page pending s)"
  unfolding render_stage_def by (auto intro!: settle)

lemma produce_settled [settle]: "steps_in (settled ops) s (produce Z R d page sm rendered f s)"
  unfolding produce_def Let_def by (cases f) (auto intro!: settle)

lemma produce_all_settled [settle]:
  "(\<And>f s. steps_in (settled ops) s (mk f s)) \<Longrightarrow> steps_in (settled ops) s (produce_all mk fs m u s)"
proof (induction fs arbitrary: m u s)
  case (Cons f fs)
  then show ?case by (auto intro!: settle split: prod.split)
qed (simp add: settle)

lemma scrape_next_page_settled [settle]: "steps_in (settled ops) s (scrape_next_page Z R url s)"
  unfolding scrape_next_page_def Let_def by (auto intro!: settle)

lemma follow_pages_settled [settle]: "steps_in (settled ops) s (follow_pages Z R n html base crawled md s)"
  by (induction n arbitrary: html base crawled md s) (auto intro!: settle simp: Let_def split: option.split prod.split)

lemma pagination_stage_settled [settle]: "steps_in (settled ops) s (pagination_stage Z R page rendered m s)"
  unfolding pagination_stage_def Let_def by (auto intro!: settle split: prod.split)

lemma finish_proof_settled [settle]: "steps_in (settled (ev_ops Z)) s (finish_proof Z R page m crawled used s)"
  unfolding finish_proof_def Let_def
  by (auto intro!: settle settling.steps_trans[OF wipe_profile_settled on_world_settled]
      settling.steps_trans[OF wipe_profile_settled settling.steps_same])

lemma scrape_page_settled [settle]: "steps_in (settled (ev_ops Z)) s (scrape_page Z R s)"
  unfolding scrape_page_def by (auto intro!: settle split: option.split prod.split)

lemma start_composer_settled [settle]: "steps_in (settled ops) s (start_chromium_composer Z cfg s)"
  unfolding start_chromium_composer_def by (auto intro!: settle)

lemma hops_settled: "settled ops s (s \<lparr> zs_hops := hops \<rparr>)"
  by (simp add: settled_def)

section \<open>However it ends\<close>

lemma acquire_registers:
  assumes "acquire_sticky_profile ops io e root t st = (r, st')" and "st_profiles st' k = Some d"
    and "k \<noteq> normalize_task_key ops t"
  shows "st_profiles st k = Some d"
  using assms
  by (auto simp: acquire_sticky_profile_def create_profile_def make_dir_def attach_def Let_def
      split: option.splits if_splits)

lemma acquire_failed_registers:
  assumes "acquire_sticky_profile ops io e root t st = (Inl err, st')" and "st_profiles st' k = Some d"
  shows "st_profiles st k = Some d"
  using assms
  by (auto simp: acquire_sticky_profile_def create_profile_def make_dir_def attach_def Let_def
      split: option.splits if_splits)

lemma wipe_unregisters:
  "st_profiles (wipe_sticky_profile ops t st) k = Some d \<Longrightarrow>
   st_profiles st k = Some d \<and> k \<noteq> normalize_task_key ops t"
  by (auto simp: wipe_sticky_profile_def Let_def split: if_splits)

text \<open>Dropping the guard leaves the state as the first wipe left it, however often it was called.\<close>

lemma drop_guard_settled:
  assumes "steps_in (settled ops) s m" and "drop_guard ops m = Some (r, s')"
  shows "zs_slot s' = zs_slot s \<and> zs_sticky s' = snd (wipe_now ops (zs_guard s) (zs_sticky s))"
proof -
  from assms(2) obtain t where t: "m = Some (r, t)" "s' = wipe_profile ops t" by (auto simp: drop_guard_def)
  then have st: "settled ops s t" using assms(1) by (simp add: steps_in_def)
  obtain g st' where w: "wipe_now ops (zs_guard s) (zs_sticky s) = (g, st')" by fastforce
  have "wipe_now ops (zs_guard t) (zs_sticky t) = (g, st')"
    using st w wipe_now_twice[OF w] by (auto simp: settled_def)
  with st t w show ?thesis by (auto simp: settled_def wipe_profile_def)
qed

lemma guarded_scrape_ends:
  assumes "guarded_scrape Z opts url p deadline s = Some (r, s')" and "so_wipe_profile_on_complete opts"
  shows "zs_slot s' = zs_slot s
     \<and> (\<forall>k d. st_profiles (zs_sticky s') k = Some d \<longrightarrow> st_profiles (zs_sticky s) k = Some d)"
proof (cases "browser_plan_of (ev_env Z) opts p")
  case (Inl e)
  with assms show ?thesis by (simp add: guarded_scrape_def and_then_def)
next
  case (Inr plan)
  let ?g = "arm_guard opts plan"
  let ?inner = "\<lambda>profile s. and_then (case pp_proxy p of
            Some cfg \<Rightarrow> if bp_browser plan
              then and_then (start_chromium_composer Z cfg (s \<lparr> zs_guard := ?g \<rparr>)) (\<lambda>x s. ret (Some x) s)
              else ret None (s \<lparr> zs_guard := ?g \<rparr>)
          | None \<Rightarrow> ret None (s \<lparr> zs_guard := ?g \<rparr>)) (\<lambda>composer s.
        scrape_page Z \<lparr> sr_opts = opts, sr_prep = p, sr_plan = plan, sr_url = url,
            sr_cfg = scrape_fetch_config opts url p, sr_composer = composer, sr_profile = profile,
            sr_deadline = deadline \<rparr> (s \<lparr> zs_hops := [] \<rparr>))"
  have inner: "steps_in (settled (ev_ops Z)) (s \<lparr> zs_guard := ?g \<rparr>) (?inner profile s)" for profile s
    by (intro settling.steps_then settling.steps_trans[OF hops_settled scrape_page_settled])
      (auto intro!: settle split: option.split)
  from assms Inr have run: "and_then (acquire_profile Z opts plan s) (\<lambda>profile s. drop_guard (ev_ops Z) (?inner profile s))
      = Some (r, s')" by (simp add: guarded_scrape_def and_then_def)
  show ?thesis
  proof (cases "bp_browser plan")
    case False
    then have "drop_guard (ev_ops Z) (?inner None s) = Some (r, s')"
      using run by (simp add: acquire_profile_def and_then_def)
    from drop_guard_settled[OF inner this] False show ?thesis by (simp add: arm_guard_def wipe_now_def)
  next
    case True
    obtain a st where a: "acquire_sticky_profile (ev_ops Z) (ev_io Z) (ev_empty_dir Z)
        (sticky_profile_root (ev_env Z) (ev_temp_dir Z)) (sticky_key opts) (zs_sticky s) = (a, st)" by fastforce
    show ?thesis
    proof (cases a)
      case (Inl e)
      with run True a have "s' = s \<lparr> zs_sticky := st \<rparr>" by (simp add: acquire_profile_def and_then_def)
      with acquire_failed_registers[OF a[unfolded Inl]] show ?thesis by auto
    next
      case (Inr dir)
      with run True a have "drop_guard (ev_ops Z) (?inner (Some dir) (s \<lparr> zs_sticky := st \<rparr>)) = Some (r, s')"
        by (simp add: acquire_profile_def and_then_def)
      from drop_guard_settled[OF inner this] True assms(2)
      have "zs_slot s' = zs_slot s \<and> zs_sticky s' = wipe_sticky_profile (ev_ops Z) (sticky_key opts) st"
        by (simp add: arm_guard_def wipe_now_def)
      with wipe_unregisters acquire_registers[OF a] show ?thesis by metis
    qed
  qed
qed

text \<open>
  C15: A scrape cleans up however it ends. Whether it returns a proof or any error, the slot of residential dials is as
  it was before, so a refused or failed scrape never keeps later ones out; and, when profiles are wiped on completion,
  no browser profile is registered that was not registered before.
\<close>

theorem scrape_cleans_up:
  assumes "scrape Z raw_url opts s = Some (r, s')" and "so_wipe_profile_on_complete opts"
    and "ds_guards (zs_slot s) = (case ds_holder (zs_slot s) of None \<Rightarrow> [] | Some o' \<Rightarrow> [o'])"
  shows "zs_slot s' = zs_slot s
     \<and> (\<forall>k d. st_profiles (zs_sticky s') k = Some d \<longrightarrow> st_profiles (zs_sticky s) k = Some d)"
proof -
  have same: "zs_slot t = zs_slot s \<and> zs_sticky t = zs_sticky s" if "clock_now Z s = Some (x, t)" for x t
    using that by (auto simp: clock_now_def on_world_def)
  consider (early) "zs_slot s' = zs_slot s" "zs_sticky s' = zs_sticky s"
    | (body) t url p deadline where "zs_slot t = zs_slot s" "zs_sticky t = zs_sticky s"
      "with_residential_slot (wants_residential_slot (ev_env Z) opts p) (guarded_scrape Z opts url p deadline) t = Some (r, s')"
    using assms(1) same
    by (fastforce simp: scrape_def and_then_def split: option.splits sum.splits prod.splits)
  then show ?thesis
  proof cases
    case early
    then show ?thesis by simp
  next
    case body
    show ?thesis
    proof (cases "wants_residential_slot (ev_env Z) opts p")
      case False
      with body have "guarded_scrape Z opts url p deadline t = Some (r, s')" by (simp add: with_residential_slot_def)
      from guarded_scrape_ends[OF this assms(2)] body show ?thesis by simp
    next
      case True
      show ?thesis
      proof (cases "ds_holder (zs_slot t)")
        case (Some held)
        with True body have "s' = t \<lparr> zs_slot := zs_slot t \<rparr>"
          by (simp add: with_residential_slot_def acquire_residential_dial_slot_def)
        with body show ?thesis by simp
      next
        case None
        let ?slot = "\<lparr> ds_holder = Some RESIDENTIAL_OWNER, ds_guards = RESIDENTIAL_OWNER # ds_guards (zs_slot t) \<rparr>"
        from None True body obtain u where u: "guarded_scrape Z opts url p deadline (t \<lparr> zs_slot := ?slot \<rparr>) = Some (r, u)"
          "s' = u \<lparr> zs_slot := drop_dial_guard RESIDENTIAL_OWNER (zs_slot u) \<rparr>"
          by (auto simp: with_residential_slot_def acquire_residential_dial_slot_def)
        from guarded_scrape_ends[OF u(1) assms(2)] have "zs_slot u = ?slot"
          "\<forall>k d. st_profiles (zs_sticky u) k = Some d \<longrightarrow> st_profiles (zs_sticky t) k = Some d" by simp_all
        moreover have "zs_slot s = \<lparr> ds_holder = None, ds_guards = [] \<rparr>"
          using assms(3) None body(1) by (cases "zs_slot s") simp
        ultimately show ?thesis using u(2) body by (simp add: drop_dial_guard_def)
      qed
    qed
  qed
qed

theorem scrape_cleans_up_witness:
  "\<exists>p t. scrape shop_env ''https://a.example/a'' shop_options (shop_start [''<p>raw</p>'']) = Some (Inr p, t)
     \<and> zs_slot t = free_slot \<and> st_profiles (zs_sticky t) = Map.empty"
proof -
  obtain p t where r: "scrape shop_env ''https://a.example/a'' shop_options (shop_start [''<p>raw</p>'']) = Some (Inr p, t)"
    by (rule shop_scrape)
  have w: "so_wipe_profile_on_complete shop_options" by (simp add: shop_options_def default_scrape_options_def)
  have f: "ds_guards (zs_slot (shop_start b)) = (case ds_holder (zs_slot (shop_start b)) of None \<Rightarrow> [] | Some o' \<Rightarrow> [o'])"
    "zs_slot (shop_start b) = free_slot" "st_profiles (zs_sticky (shop_start b)) = Map.empty" for b
    by (simp_all add: shop_start_def free_slot_def)
  from scrape_cleans_up[OF r w f(1)] f(2,3) have "zs_slot t = free_slot" "st_profiles (zs_sticky t) k = None" for k
    by (simp, cases "st_profiles (zs_sticky t) k", auto)
  then have "st_profiles (zs_sticky t) = Map.empty" by (intro ext) simp
  with r \<open>zs_slot t = free_slot\<close> show ?thesis by blast
qed

end
