(* ===== verification/Scrape_Outcome.thy ===== *)
theory Scrape_Outcome
  imports Scrape_Laws
begin

text \<open>
  What a scrape that returns a proof has done, and what the proof says of it: the path it took to the fetch, which
  formats it carries, that its digests are those of its own content, and what a hard scrape may not surface.
\<close>

section \<open>Inverting a success\<close>

lemma and_then_Inr_iff:
  "and_then m f = Some (Inr b, t) \<longleftrightarrow> (\<exists>a u. m = Some (Inr a, u) \<and> f a u = Some (Inr b, t))"
  by (auto simp: and_then_def split: option.splits sum.splits prod.splits)

lemma acquire_profile_browser:
  "bp_browser plan \<Longrightarrow> acquire_profile Z opts plan s = Some (Inr profile, t) \<Longrightarrow> profile \<noteq> None"
  by (auto simp: acquire_profile_def Let_def split: prod.splits sum.splits)

lemma composer_started:
  assumes "(case proxy of
      Some cfg \<Rightarrow> if browser then and_then (start_chromium_composer Z cfg s) (\<lambda>x t. ret (Some x) t) else ret None s
    | None \<Rightarrow> ret None s) = Some (Inr composer, t)"
  shows "proxy \<noteq> None \<and> browser \<longrightarrow> composer \<noteq> None"
  using assms by (auto simp: and_then_Inr_iff split: option.splits if_splits)

lemma drop_guard_Inr_iff:
  "drop_guard ops m = Some (Inr a, t) \<longleftrightarrow> (\<exists>u. m = Some (Inr a, u) \<and> t = wipe_profile ops u)"
  by (auto simp: drop_guard_def)

lemma scrape_InrE:
  assumes "scrape Z raw_url opts s = Some (Inr p, s')"
  obtains url prep plan R t u where
    "validate_url (ev_url Z) raw_url = Inr url"
    "prepare (ev_quote Z) (ev_parse_json Z) (ev_ops Z) (ev_login Z) (ev_env Z) opts url = Inr prep"
    "browser_plan_of (ev_env Z) opts prep = Inr plan"
    "sr_opts R = opts" "sr_prep R = prep" "sr_plan R = plan" "sr_url R = url" "sr_cfg R = scrape_fetch_config opts url prep"
    "scrape_page Z R t = Some (Inr p, u)" "bp_browser plan \<longrightarrow> sr_profile R \<noteq> None"
    "pp_proxy prep \<noteq> None \<and> bp_browser plan \<longrightarrow> sr_composer R \<noteq> None"
proof -
  from assms obtain url prep deadline t where v: "validate_url (ev_url Z) raw_url = Inr url"
    "prepare (ev_quote Z) (ev_parse_json Z) (ev_ops Z) (ev_login Z) (ev_env Z) opts url = Inr prep"
    and w: "with_residential_slot (wants_residential_slot (ev_env Z) opts prep) (guarded_scrape Z opts url prep deadline) t
      = Some (Inr p, s')"
    by (auto simp: scrape_def and_then_Inr_iff split: option.splits)
  from w obtain t' u' where "guarded_scrape Z opts url prep deadline t' = Some (Inr p, u')"
    by (auto simp: with_residential_slot_def split: if_splits prod.splits sum.splits)
  then obtain plan profile composer v1 v2 t u where b: "browser_plan_of (ev_env Z) opts prep = Inr plan"
    and c: "acquire_profile Z opts plan t' = Some (Inr profile, v1)"
      "(case pp_proxy prep of
          Some cfg \<Rightarrow> if bp_browser plan
            then and_then (start_chromium_composer Z cfg (v1 \<lparr> zs_guard := arm_guard opts plan \<rparr>)) (\<lambda>x s. ret (Some x) s)
            else ret None (v1 \<lparr> zs_guard := arm_guard opts plan \<rparr>)
        | None \<Rightarrow> ret None (v1 \<lparr> zs_guard := arm_guard opts plan \<rparr>)) = Some (Inr composer, v2)"
    and p: "scrape_page Z \<lparr> sr_opts = opts, sr_prep = prep, sr_plan = plan, sr_url = url,
        sr_cfg = scrape_fetch_config opts url prep, sr_composer = composer, sr_profile = profile, sr_deadline = deadline \<rparr> t
      = Some (Inr p, u)"
    unfolding guarded_scrape_def drop_guard_Inr_iff and_then_Inr_iff by (elim exE conjE) simp
  note c = acquire_profile_browser[OF _ c(1)] composer_started[OF c(2)]
  show ?thesis by (rule that[OF v b _ _ _ _ _ p]) (use c in simp_all)
qed

lemma scrape_page_InrE:
  assumes "scrape_page Z R s = Some (Inr p, s')"
  obtains f t0 d page sm runtime t1 pending t2 t3 rendered t4 m used t5 m' crawled t6 where
    "fetch_page Z R (sr_url R) s = Some (Inr f, t0)"
    "read_page Z (sr_opts R) (sr_url R) f = Inr page"
    "resolve_runtime (ev_env Z) (so_captcha_solver (sr_opts R)) (so_captcha_api_key (sr_opts R))
       (so_captcha_solve_timeout_secs (sr_opts R)) = Inr runtime"
    "first_solution Z R runtime page t1 = Some (Inr pending, t2)"
    "render_stage Z R runtime page pending t2 = Some (Inr rendered, t3)"
    "produce_all (produce Z R d page sm rendered) (pp_formats (sr_prep R)) [] (rendered \<noteq> None) t3 = Some (Inr (m, used), t4)"
    "pagination_stage Z R page rendered m t4 = Some (Inr (m', crawled), t5)"
    "finish_proof Z R page m' crawled used t5 = Some (Inr p, s')"
  using assms unfolding scrape_page_def and_then_Inr_iff
  by (auto split: option.splits simp: and_then_Inr_iff)

lemma attest_proof_keeps:
  assumes "attest_proof ops A write f64_json q w = (Inr p, w')"
  shows "p = q \<lparr> sp_attestation := sp_attestation p, sp_sdk_signature := sp_sdk_signature p \<rparr>"
proof -
  from assms obtain probe :: sign_response and qr m sign where
    "seal_signature (ga_keys A) write f64_json sign (with_quote qr m (with_pubkey (sg_public_key probe) q)) = Inr p"
    by (rule attest_proof_steps)
  then show ?thesis
    by (auto simp: seal_signature_def Let_def with_signature_def with_quote_def with_pubkey_def split: option.splits if_splits sum.splits)
qed

text \<open>The proof less its attestation and signature.\<close>

definition bare_proof :: "scrape_proof \<Rightarrow> scrape_proof" where
  "bare_proof p =
     p \<lparr> sp_attestation := no_attestation, sp_sdk_signature := \<lparr> ss_enclave_pubkey = None, ss_sig = None \<rparr> \<rparr>"

lemma finish_proof_InrE:
  fixes s :: "('w, 'u, 'c) scrape_state"
  assumes "finish_proof Z R page m crawled used s = Some (Inr p, s')"
  obtains hops :: "'u document_hop list" and usage egress path where
    "bare_proof p = assemble_proof Z R (pg_fetched page) (materialize_robots_policy_hops m hops) crawled usage egress"
    "eg_proxy_class egress = Some (pp_class (sr_prep R))" "eg_fetch_path egress = Some path"
    "path = truthful_fetch_path (used \<or> (bp_hard (sr_plan R) \<and> bp_browser (sr_plan R) \<and> pg_kind page = HtmlContent))"
    "path = PathChromium \<longrightarrow> eg_soft_tls_impersonate egress = None"
    "eg_egress_ip egress = Some (f_egress_ip (pg_fetched page))"
    "eg_fingerprint_seed egress = Some (fp_seed (pp_fingerprint (sr_prep R)))"
    "bp_hard (sr_plan R) \<and> pg_kind page = HtmlContent \<longrightarrow> path = PathChromium"
    "so_sign_proof (sr_opts R) \<longrightarrow> so_attest (sr_opts R)"
    "\<not> so_attest (sr_opts R) \<longrightarrow> p = bare_proof p"
proof -
  define path where "path = truthful_fetch_path (used \<or> (bp_hard (sr_plan R) \<and> bp_browser (sr_plan R) \<and> pg_kind page = HtmlContent))"
  let ?hard = "bp_hard (sr_plan R) \<and> pg_kind page = HtmlContent"
  let ?m = "materialize_robots_policy_hops m (zs_hops s)"
  let ?egress = "build_with_soft_tls_impersonate (ev_rfc3339 Z (f_fetched_at (pg_fetched page))) (f_egress_ip (pg_fetched page))
        (fp_seed (pp_fingerprint (sr_prep R))) (case so_landmark_rtts (sr_opts R) of Some m \<Rightarrow> m | None \<Rightarrow> [])
        (pp_class (sr_prep R)) path (soft_audit_of (pp_soft_tls (sr_prep R)) (pp_fingerprint (sr_prep R)) path)"
  let ?close = "\<lambda>v egress u. if so_sign_proof (sr_opts R) \<and> \<not> so_attest (sr_opts R)
       then fails_with (EnclaveSignature ''signed proofs require attestation'') u
       else if so_attest (sr_opts R)
         then on_world (\<lambda>w. Some (attest_proof (ev_ops Z) (ev_agent Z) (ev_write Z) (ev_f64_json Z)
                (assemble_proof Z R (pg_fetched page) ?m crawled (ev_usage Z (zs_world v)) egress) w)) (wipe_profile (ev_ops Z) u)
         else ret (assemble_proof Z R (pg_fetched page) ?m crawled (ev_usage Z (zs_world v)) egress) (wipe_profile (ev_ops Z) u)"
  from assms obtain now v where
    after: "(if sr_deadline R \<le> now then fails_with (Timeout ''scrape deadline exceeded'') v
      else if bp_hard (sr_plan R) \<and> pg_kind page = HtmlContent \<and> path \<noteq> PathChromium
        then fail_wiping (ev_ops Z) (HardPath ''hard/residential request completed without a Chromium identity (dual-stack mismatch)'') v
        else and_then (of_res ?egress v) (?close v)) = Some (Inr p, s')"
    unfolding finish_proof_def Let_def path_def[symmetric] and_then_Inr_iff by (elim exE conjE)
  have h: "\<not> (?hard \<and> path \<noteq> PathChromium)"
    using after by (cases "?hard \<and> path \<noteq> PathChromium") (simp_all add: fail_wiping_def split: if_splits)
  with after have "and_then (of_res ?egress v) (?close v) = Some (Inr p, s')"
    by (cases "sr_deadline R \<le> now") (simp_all only: conj_assoc if_True if_False if_not_P not_True_eq_False simp_thms, simp)
  then obtain egress u where b: "?egress = Inr egress" and fin: "?close v egress u = Some (Inr p, s')"
    unfolding and_then_Inr_iff by (elim exE conjE) simp
  from fin have sg: "\<not> (so_sign_proof (sr_opts R) \<and> \<not> so_attest (sr_opts R))"
    by (cases "so_sign_proof (sr_opts R)"; cases "so_attest (sr_opts R)") simp_all
  define usage where "usage = ev_usage Z (zs_world v)"
  let ?q = "assemble_proof Z R (pg_fetched page) ?m crawled usage egress"
  have q: "bare_proof ?q = ?q" by (simp add: bare_proof_def assemble_proof_def Let_def)
  have bare: "bare_proof p = ?q \<and> (\<not> so_attest (sr_opts R) \<longrightarrow> p = ?q)"
  proof (cases "so_attest (sr_opts R)")
    case True
    with fin obtain w w' where "attest_proof (ev_ops Z) (ev_agent Z) (ev_write Z) (ev_f64_json Z) ?q w = (Inr p, w')"
      by (auto simp: on_world_def usage_def split: prod.splits)
    from arg_cong[OF attest_proof_keeps[OF this], of bare_proof] q True show ?thesis by (simp add: bare_proof_def)
  next
    case False
    with fin q sg show ?thesis by (simp add: usage_def)
  qed
  have e: "eg_proxy_class egress = Some (pp_class (sr_prep R))" "eg_fetch_path egress = Some path"
    "path = PathChromium \<Longrightarrow> eg_soft_tls_impersonate egress = None"
    "eg_egress_ip egress = Some (f_egress_ip (pg_fetched page))"
    "eg_fingerprint_seed egress = Some (fp_seed (pp_fingerprint (sr_prep R)))"
    using b by (auto simp: build_with_soft_tls_impersonate_def res_simps split: sum.splits)
  show ?thesis
    by (rule that[of "zs_hops s" usage egress path]) (use bare e h sg q path_def in auto)
qed

section \<open>The formats and the pages\<close>

lemma produce_all_map:
  assumes "produce_all mk fs m used s = Some (Inr (m', used'), t)" and "bt_inv m"
  shows "bt_inv m' \<and> set (map fst m') = set (map fmt_str fs) \<union> set (map fst m)"
  using assms
proof (induction fs arbitrary: m used s)
  case (Cons f fs)
  from Cons.prems(1) obtain v shot u where
    "produce_all mk fs (bt_insert (fmt_str f) v m) (used \<or> shot) u = Some (Inr (m', used'), t)"
    by (auto simp: and_then_Inr_iff)
  from Cons.IH[OF this bt_inv_insert[OF Cons.prems(2)]] bt_insert_keys[of "fmt_str f" v m] show ?case by auto
qed simp

lemma fmt_str_inject: "fmt_str f = fmt_str g \<longleftrightarrow> f = g"
  by (cases f; cases g) simp_all

text \<open>The value of a requested format is one that was produced for it.\<close>

lemma produce_all_value:
  assumes "produce_all mk fs m used s = Some (Inr (m', used'), t)" and "f \<in> set fs \<or> (\<exists>a b c. mk f a = Some (Inr (v0, b), c) \<and> bt_get m (fmt_str f) = Some v0)"
  shows "\<exists>v a b c. mk f a = Some (Inr (v, b), c) \<and> bt_get m' (fmt_str f) = Some v"
  using assms
proof (induction fs arbitrary: m used s v0)
  case (Cons g fs)
  from Cons.prems(1) obtain v shot u where g: "mk g s = Some (Inr (v, shot), u)"
    and r: "produce_all mk fs (bt_insert (fmt_str g) v m) (used \<or> shot) u = Some (Inr (m', used'), t)"
    by (auto simp: and_then_Inr_iff)
  show ?case
  proof (cases "g = f")
    case True
    with g Cons.IH[OF r, of v] show ?thesis by (fastforce simp: bt_get_insert)
  next
    case False
    with Cons.prems(2) Cons.IH[OF r, of v0] show ?thesis by (auto simp: bt_get_insert fmt_str_inject)
  qed
qed auto

lemma follow_pages_crawled:
  assumes "follow_pages Z R n html base crawled md s = Some (Inr (crawled', md'), t)" and "distinct crawled"
  shows "\<exists>more. crawled' = crawled @ more \<and> length more \<le> n \<and> distinct crawled' \<and> (md' = None \<longleftrightarrow> md = None)"
  using assms
proof (induction n arbitrary: html base crawled md s)
  case (Suc n)
  show ?case
  proof (cases "find_next (ev_url Z) (ev_html Z) html base")
    case None
    with Suc.prems show ?thesis by auto
  next
    case (Some next_url)
    let ?k = "url_string (ev_url Z) next_url"
    show ?thesis
    proof (cases "?k \<in> set crawled")
      case True
      with Some Suc.prems show ?thesis by auto
    next
      case False
      with Some Suc.prems(1) obtain pm h b u where
        "follow_pages Z R n h b (crawled @ [?k]) (map_option (\<lambda>agg. agg @ [LF, LF] @ pm) md) u = Some (Inr (crawled', md'), t)"
        by (auto simp: Let_def and_then_Inr_iff)
      from Suc.IH[OF this] False Suc.prems(2) show ?thesis by fastforce
    qed
  qed
qed auto

lemma pagination_result:
  assumes "pagination_stage Z R page rendered m s = Some (Inr (m', crawled), t)" and "bt_inv m"
  shows "bt_inv m' \<and> set (map fst m') = set (map fst m) \<and> (k \<noteq> ''markdown'' \<longrightarrow> bt_get m' k = bt_get m k)
     \<and> distinct crawled \<and> length crawled \<le> max (so_max_pages (sr_opts R)) 1
     \<and> (if so_follow_pagination (sr_opts R) then \<exists>more. crawled = url_string (ev_url Z) (sr_url R) # more else crawled = [])"
proof (cases "so_follow_pagination (sr_opts R)")
  case True
  let ?md = "if fmt.Markdown \<in> set (pp_formats (sr_prep R))
      then (case bt_get m (fmt_str fmt.Markdown) of Some (JStr t) \<Rightarrow> Some t | _ \<Rightarrow> None) else None"
  from assms(1) True obtain md u where
    f: "follow_pages Z R (max (so_max_pages (sr_opts R)) 1 - 1) (or_value rendered (pg_body page)) (pg_base page)
          [url_string (ev_url Z) (sr_url R)] ?md s = Some (Inr (crawled, md), u)"
    and m': "m' = (case md of Some agg \<Rightarrow> bt_insert (fmt_str fmt.Markdown) (JStr agg) m | None \<Rightarrow> m)"
    unfolding pagination_stage_def Let_def by (auto simp: and_then_Inr_iff)
  from follow_pages_crawled[OF f] obtain more where c: "crawled = url_string (ev_url Z) (sr_url R) # more"
    "length more \<le> max (so_max_pages (sr_opts R)) 1 - 1" "distinct crawled" "md = None \<longleftrightarrow> ?md = None" by auto
  have "bt_get m ''markdown'' \<noteq> None" if "md \<noteq> None" using that c(4) by (auto split: if_splits option.splits)
  then have "''markdown'' \<in> set (map fst m)" if "md \<noteq> None"
    using that by (force simp: bt_get_def dest: map_of_SomeD)
  with True c assms(2) bt_insert_keys[of "''markdown''" _ m] show ?thesis
    unfolding m' by (cases md) (auto simp: bt_get_insert intro: bt_inv_insert)
next
  case False
  with assms show ?thesis by (simp add: pagination_stage_def)
qed

lemma materialize_map:
  assumes "bt_inv m"
  shows "bt_inv (materialize_robots_policy_hops m hops)
     \<and> set (map fst (materialize_robots_policy_hops m hops)) = set (map fst m)"
proof (cases "\<exists>x. bt_get m ''metadata'' = Some (JObj x)")
  case True
  then obtain x where x: "bt_get m ''metadata'' = Some (JObj x)" by blast
  then have "''metadata'' \<in> set (map fst m)" by (force simp: bt_get_def dest: map_of_SomeD)
  with x assms bt_insert_keys[of "''metadata''" _ m] show ?thesis
    by (auto simp: materialize_robots_policy_hops_def intro: bt_inv_insert)
next
  case False
  with assms show ?thesis by (auto simp: materialize_robots_policy_hops_def split: option.splits json.splits)
qed

section \<open>What a proof says\<close>

lemma prepare_fields:
  assumes "prepare quote parse_json ops L env opts url = Inr prep"
  shows "pp_formats prep = requested_formats opts"
  using assms by (auto simp: prepare_def Let_def res_simps split: prod.splits)

text \<open>
  C12: A proof tells of the scrape that was asked for. It echoes the task, the nonce, the URL and the formats; its
  request digest is that of the prepared method, URL, headers and body; it carries a value under exactly the names of
  the requested formats; its result hash, manifest and completeness evidence are those of these values; its proxy class is
  that of the upstream it was prepared with; the pages it lists are distinct, begin with the URL and are no more than was allowed; and a scrape asked to
  sign was asked to attest.
\<close>

theorem scrape_proof_consistent:
  fixes s :: "('w, 'u, 'c) scrape_state"
  assumes "scrape Z raw_url opts s = Some (Inr p, s')"
  shows "\<exists>url prep. validate_url (ev_url Z) raw_url = Inr url
     \<and> prepare (ev_quote Z) (ev_parse_json Z) (ev_ops Z) (ev_login Z) (ev_env Z) opts url = Inr prep
     \<and> (let u = url_string (ev_url Z) url; names = map fmt_str (requested_formats opts);
           m = rb_formats_produced (sp_result p); rh = result_hash (ev_ops Z) (ev_write Z) m;
           crawled = rb_crawled_urls (sp_result p)
        in sp_task_id p = so_task_id opts \<and> sp_nonce p = so_nonce opts
         \<and> rq_url (sp_request p) = u \<and> rq_formats (sp_request p) = names \<and> rq_method (sp_request p) = pp_method prep
         \<and> rq_request_hash (sp_request p) = Some (request_digest (ev_ops Z) (pp_method prep) u (pp_headers prep) (so_body opts))
         \<and> bt_inv m \<and> set (map fst m) = set names
         \<and> rb_result_hash (sp_result p) = Some rh
         \<and> rb_manifest_sha256 (sp_result p) = Some (manifest_sha256 (ev_ops Z) u (so_nonce opts) rh)
         \<and> rb_completeness_manifest (sp_result p) = completeness_manifest_of (ev_write Z) names m
         \<and> eg_proxy_class (sp_egress p) = Some (pp_class prep)
         \<and> distinct crawled \<and> length crawled \<le> max (so_max_pages opts) 1
         \<and> (if so_follow_pagination opts then \<exists>more. crawled = u # more else crawled = [])
         \<and> (if so_sign_proof opts then so_attest opts else True))"
proof -
  from assms obtain url prep plan R t u where v: "validate_url (ev_url Z) raw_url = Inr url"
    and p: "prepare (ev_quote Z) (ev_parse_json Z) (ev_ops Z) (ev_login Z) (ev_env Z) opts url = Inr prep"
    and R: "sr_opts R = opts" "sr_prep R = prep" "sr_url R = url" "sr_cfg R = scrape_fetch_config opts url prep"
    and sp: "scrape_page Z R t = Some (Inr p, u)" by (rule scrape_InrE) (rule that; assumption)
  from sp obtain f t0 d page sm runtime t1 pending t2 t3 rendered t4 m used t5 m' crawled where
    a: "produce_all (produce Z R d page sm rendered) (pp_formats (sr_prep R)) [] (rendered \<noteq> None) t3 = Some (Inr (m, used), t4)"
    and b: "pagination_stage Z R page rendered m t4 = Some (Inr (m', crawled), t5)"
    and c: "finish_proof Z R page m' crawled used t5 = Some (Inr p, u)" by (rule scrape_page_InrE) (rule that; assumption)
  from c obtain hops :: "'u document_hop list" and usage egress where
    q: "bare_proof p = assemble_proof Z R (pg_fetched page) (materialize_robots_policy_hops m' hops) crawled usage egress"
    and e: "eg_proxy_class egress = Some (pp_class (sr_prep R))"
    and sg: "so_sign_proof (sr_opts R) \<longrightarrow> so_attest (sr_opts R)" by (rule finish_proof_InrE) (rule that; assumption)
  let ?m = "materialize_robots_policy_hops m' hops"
  have i0: "bt_inv ([] :: (string, json) btree)" by (simp add: bt_inv_def)
  have fm: "pp_formats prep = requested_formats opts" by (rule prepare_fields[OF p])
  note pr = produce_all_map[OF a i0]
  note pg = pagination_result[OF b conjunct1[OF pr], of "[]", unfolded R]
  have m: "bt_inv ?m" "set (map fst ?m) = set (map fmt_str (requested_formats opts))"
    using pr pg materialize_map[of m' hops] R fm by simp_all
  have eq: "sp_task_id p = sp_task_id (bare_proof p)" "sp_nonce p = sp_nonce (bare_proof p)" "sp_request p = sp_request (bare_proof p)"
    "sp_result p = sp_result (bare_proof p)" "sp_egress p = sp_egress (bare_proof p)" by (simp_all add: bare_proof_def)
  show ?thesis
    by (intro exI[of _ url] exI[of _ prep] conjI v p)
      (use m pr pg e sg in \<open>simp add: eq q assemble_proof_def Let_def R fm request_digest_def scrape_fetch_config_def\<close>)
qed

theorem scrape_proof_consistent_witness:
  "\<exists>p s'. scrape shop_env ''https://a.example/a'' shop_options (shop_start [''<p>raw</p>'']) = Some (Inr p, s')
     \<and> sp_task_id p = Some ''t'' \<and> set (map fst (rb_formats_produced (sp_result p))) = {''html'', ''rawHtml''}"
proof -
  obtain p s' where r: "scrape shop_env ''https://a.example/a'' shop_options (shop_start [''<p>raw</p>'']) = Some (Inr p, s')"
    by (rule shop_scrape)
  have f: "set (map fmt_str (requested_formats shop_options)) = {''html'', ''rawHtml''}" "so_task_id shop_options = Some ''t''"
  proof -
    have "so_formats shop_options = [Html, RawHtml]" by (simp add: shop_options_def)
    then have "requested_formats shop_options = normalize [Html, RawHtml]" by (simp add: requested_formats_def)
    also have "normalize [Html, RawHtml] = [Html, RawHtml]" by code_simp
    finally show "set (map fmt_str (requested_formats shop_options)) = {''html'', ''rawHtml''}" by simp
    show "so_task_id shop_options = Some ''t''" by (simp add: shop_options_def)
  qed
  from scrape_proof_consistent[OF r] have "sp_task_id p = Some ''t''
      \<and> set (map fst (rb_formats_produced (sp_result p))) = {''html'', ''rawHtml''}"
    unfolding Let_def f by (elim exE conjE) (intro conjI; assumption)
  with r show ?thesis by (intro exI[of _ p] exI[of _ s'] conjI; elim conjE)
qed

section \<open>The hard path\<close>

lemma map_err_Inr_iff [res_simps]: "map_err f x = Inr y \<longleftrightarrow> x = Inr y"
  by (cases x) auto

lemma read_page_fields:
  assumes "read_page Z opts url f = Inr page"
  shows "pg_fetched page = f" and "pg_kind page = classify (f_content_type f)"
  using assms by (auto simp: read_page_def Let_def res_simps split: content_kind.splits)

lemma browser_plan_hard:
  assumes "browser_plan_of env opts prep = Inr plan" and "requires_chromium_hard_path (hard_decision opts prep)"
  shows "bp_hard plan" "bp_inject plan" "bp_browser plan" "\<not> eq_ic (pp_method prep) ''POST''"
    "stealth_inject_enabled env opts" "so_render_enabled opts"
  using assms
  by (auto simp: browser_plan_of_def Let_def res_simps will_launch_chromium_def hard_decision_def split: if_splits)

lemma unsolved_first:
  assumes "first_solution Z R None page s = Some (Inr pending, t)" and "bp_hard (sr_plan R)"
  shows "pending = None \<and> \<not> looks_like_challenge_interstitial (pg_body page) (f_status_code (pg_fetched page))"
  using assms
  by (auto simp: first_solution_def Let_def solve_or_block_def try_optional_challenge_solve_def fail_wiping_def and_then_def
      split: if_splits)

lemma unsolved_render:
  assumes "render_stage Z R None page None s = Some (Inr (Some html), t)" and "bp_hard (sr_plan R)"
  shows "\<not> looks_like_challenge_interstitial html (f_status_code (pg_fetched page))"
  using assms
  by (auto simp: render_stage_def settle_render_def Let_def solve_or_block_def try_optional_challenge_solve_def fail_wiping_def
      and_then_Inr_iff split: if_splits)

text \<open>The run of a hard scrape that succeeded, as far as its proof shows it.\<close>

lemma hard_runE:
  fixes s :: "('w, 'u, 'c) scrape_state"
  assumes "scrape Z raw_url opts s = Some (Inr p, s')" and "validate_url (ev_url Z) raw_url = Inr url"
    and "prepare (ev_quote Z) (ev_parse_json Z) (ev_ops Z) (ev_login Z) (ev_env Z) opts url = Inr prep"
    and "requires_chromium_hard_path (hard_decision opts prep)"
  obtains R :: "('u, 'x) scrape_run" and page sm d runtime t1 pending t2 t3 rendered t4 m used t5 m' crawled hops egress where
    "browser_plan_of (ev_env Z) opts prep = Inr (sr_plan R)" "sr_opts R = opts" "sr_prep R = prep"
    "resolve_runtime (ev_env Z) (so_captcha_solver opts) (so_captcha_api_key opts) (so_captcha_solve_timeout_secs opts) = Inr runtime"
    "first_solution Z R runtime page t1 = Some (Inr pending, t2)"
    "render_stage Z R runtime page pending t2 = Some (Inr rendered, t3)"
    "produce_all (produce Z R d page sm rendered) (pp_formats prep) [] (rendered \<noteq> None) t3 = Some (Inr (m, used), t4)"
    "pagination_stage Z R page rendered m t4 = Some (Inr (m', crawled), t5)"
    "rb_formats_produced (sp_result p) = materialize_robots_policy_hops m' (hops :: 'u document_hop list)"
    "pg_kind page = classify (rs_content_type (sp_response p))"
    "rs_status_code (sp_response p) = Some (f_status_code (pg_fetched page))"
    "rq_method (sp_request p) = pp_method prep" "sp_egress p = egress"
    "pg_kind page = HtmlContent \<longrightarrow> eg_fetch_path egress = Some PathChromium \<and> eg_soft_tls_impersonate egress = None"
    "sr_profile R \<noteq> None" "pp_proxy prep \<noteq> None \<longrightarrow> sr_composer R \<noteq> None"
proof -
  from assms(1) obtain url' prep' plan and R :: "('u, 'x) scrape_run" and t u where
    v: "validate_url (ev_url Z) raw_url = Inr url'"
    and p: "prepare (ev_quote Z) (ev_parse_json Z) (ev_ops Z) (ev_login Z) (ev_env Z) opts url' = Inr prep'"
    and plan: "browser_plan_of (ev_env Z) opts prep' = Inr plan"
    and R: "sr_opts R = opts" "sr_prep R = prep'" "sr_plan R = plan" "sr_url R = url'"
    and sp: "scrape_page Z R t = Some (Inr p, u)" and dir: "bp_browser plan \<longrightarrow> sr_profile R \<noteq> None"
      "pp_proxy prep' \<noteq> None \<and> bp_browser plan \<longrightarrow> sr_composer R \<noteq> None"
    by (rule scrape_InrE) (rule that; assumption)
  have eq: "url' = url" "prep' = prep" using v p assms(2,3) by simp_all
  from sp obtain f t0 d page sm runtime t1 pending t2 t3 rendered t4 m used t5 m' crawled where
    rp: "read_page Z (sr_opts R) (sr_url R) f = Inr page"
    and rt: "resolve_runtime (ev_env Z) (so_captcha_solver (sr_opts R)) (so_captcha_api_key (sr_opts R))
       (so_captcha_solve_timeout_secs (sr_opts R)) = Inr runtime"
    and fs: "first_solution Z R runtime page t1 = Some (Inr pending, t2)"
    and rs: "render_stage Z R runtime page pending t2 = Some (Inr rendered, t3)"
    and a: "produce_all (produce Z R d page sm rendered) (pp_formats (sr_prep R)) [] (rendered \<noteq> None) t3 = Some (Inr (m, used), t4)"
    and b: "pagination_stage Z R page rendered m t4 = Some (Inr (m', crawled), t5)"
    and c: "finish_proof Z R page m' crawled used t5 = Some (Inr p, u)" by (rule scrape_page_InrE) (rule that; assumption)
  from c obtain hops :: "'u document_hop list" and usage egress path where
    q: "bare_proof p = assemble_proof Z R (pg_fetched page) (materialize_robots_policy_hops m' hops) crawled usage egress"
    and e: "eg_fetch_path egress = Some path" "path = PathChromium \<longrightarrow> eg_soft_tls_impersonate egress = None"
      "bp_hard (sr_plan R) \<and> pg_kind page = HtmlContent \<longrightarrow> path = PathChromium"
    by (rule finish_proof_InrE) (rule that; assumption)
  have f: "sp_request p = sp_request (bare_proof p)" "sp_response p = sp_response (bare_proof p)"
    "sp_result p = sp_result (bare_proof p)" "sp_egress p = sp_egress (bare_proof p)" by (simp_all add: bare_proof_def)
  have h: "bp_hard (sr_plan R)" "bp_browser (sr_plan R)" using browser_plan_hard(1,3)[OF plan] assms(4) eq R by simp_all
  show ?thesis
    by (rule that[of R runtime page t1 pending t2 rendered t3 d sm m used t4 m' crawled t5 hops egress])
      (use plan rt fs rs a b e h dir in \<open>simp_all add: R eq f q assemble_proof_def Let_def read_page_fields[OF rp]\<close>)
qed

text \<open>What is surfaced in a format was produced for it, save the Markdown to which further pages were appended.\<close>

lemma surfaced_produced:
  assumes "produce_all (produce Z R d page sm rendered) fs [] used0 t3 = Some (Inr (m, used), t4)"
    and "pagination_stage Z R page rendered m t4 = Some (Inr (m', crawled), t5)" and "sr_opts R = opts"
    and "f \<noteq> fmt.Metadata" and "f \<noteq> fmt.Markdown \<or> \<not> so_follow_pagination opts"
    and "bt_get (materialize_robots_policy_hops m' hops) (fmt_str f) = Some v"
  shows "\<exists>a b c. produce Z R d page sm rendered f a = Some (Inr (v, b), c)"
proof -
  have i0: "bt_inv ([] :: (string, json) btree)" by (simp add: bt_inv_def)
  note pr = produce_all_map[OF assms(1) i0]
  have "bt_get m' (fmt_str f) = bt_get m (fmt_str f)"
  proof (cases "f = fmt.Markdown")
    case True
    with assms(5) have "m' = m" using assms(2) by (auto simp: pagination_stage_def assms(3))
    then show ?thesis by simp
  next
    case False
    then have "fmt_str f \<noteq> ''markdown''" by (cases f) simp_all
    then show ?thesis using pagination_result[OF assms(2) conjunct1[OF pr]] by blast
  qed
  moreover have "fmt_str f \<noteq> ''metadata''" using assms(4) by (cases f) simp_all
  ultimately have g: "bt_get m (fmt_str f) = Some v" using assms(6) by (simp add: materialize_get)
  then have "fmt_str f \<in> set (map fst m)" by (force simp: bt_get_def dest: map_of_SomeD)
  then have "f \<in> set fs" using pr by (auto simp: fmt_str_inject)
  then show ?thesis using produce_all_value[OF assms(1), of f] g by fastforce
qed

text \<open>
  The surfaces of a page: its HTML and raw HTML as they are, and its Markdown, which for an HTML page is the Markdown of
  some source. A surface is free of challenges when that text, or that source, does not look like one.
\<close>

definition challenge_free :: "('u, 'w, 'r, 'e, 'd, 'c, 's, 'x) scrape_env \<Rightarrow> content_kind \<Rightarrow> nat \<Rightarrow> fmt \<Rightarrow> string \<Rightarrow> bool" where
  "challenge_free Z ck st f body \<longleftrightarrow>
     (if f = fmt.Markdown \<and> ck = HtmlContent
      then \<exists>source base. body = to_markdown (ev_url Z) (ev_dom Z) source base \<and> \<not> looks_like_challenge_interstitial source st
      else \<not> looks_like_challenge_interstitial body st)"

text \<open>
  C13: A hard scrape with no solver never passes a challenge off as the HTML, the raw HTML or the Markdown of the
  page it was asked for. If it returns a proof and the page is HTML or text, neither its raw HTML nor its HTML looks
  like a challenge under the status of the response, and its Markdown, unless further pages were appended to it, was made
  from a page that does not. This is claimed of the page the scrape was asked for, in these three formats; the
  code does not look for challenges in the further pages of a pagination, in documents and in screenshots.
\<close>

theorem hard_path_refuses_challenges:
  fixes Z :: "('u, 'w, 'r, 'e, 'd, 'c, 's, 'x) scrape_env"
  assumes "scrape Z raw_url opts s = Some (Inr p, s')" and "validate_url (ev_url Z) raw_url = Inr url"
    and "prepare (ev_quote Z) (ev_parse_json Z) (ev_ops Z) (ev_login Z) (ev_env Z) opts url = Inr prep"
    and "requires_chromium_hard_path (hard_decision opts prep)"
    and "resolve_runtime (ev_env Z) (so_captcha_solver opts) (so_captcha_api_key opts) (so_captcha_solve_timeout_secs opts) = Inr None"
    and "classify (rs_content_type (sp_response p)) \<in> {HtmlContent, TextContent}"
    and "rs_status_code (sp_response p) = Some st"
    and "f \<in> {Html, RawHtml} \<or> f = fmt.Markdown \<and> \<not> so_follow_pagination opts"
    and "bt_get (rb_formats_produced (sp_result p)) (fmt_str f) = Some (JStr body)"
  shows "challenge_free Z (classify (rs_content_type (sp_response p))) st f body"
proof -
  let ?kind = "classify (rs_content_type (sp_response p))"
  from assms(1-4) obtain R :: "('u, 'x) scrape_run" and page sm d runtime t1 pending t2 t3 rendered t4 m used t5 m' crawled
      and hops :: "'u document_hop list" where
    plan: "browser_plan_of (ev_env Z) opts prep = Inr (sr_plan R)" and o: "sr_opts R = opts"
    and rt: "resolve_runtime (ev_env Z) (so_captcha_solver opts) (so_captcha_api_key opts) (so_captcha_solve_timeout_secs opts)
      = Inr runtime"
    and fs: "first_solution Z R runtime page t1 = Some (Inr pending, t2)"
    and rs: "render_stage Z R runtime page pending t2 = Some (Inr rendered, t3)"
    and pr: "produce_all (produce Z R d page sm rendered) (pp_formats prep) [] (rendered \<noteq> None) t3 = Some (Inr (m, used), t4)"
    and pg: "pagination_stage Z R page rendered m t4 = Some (Inr (m', crawled), t5)"
    and m: "rb_formats_produced (sp_result p) = materialize_robots_policy_hops m' hops"
    and k: "pg_kind page = classify (rs_content_type (sp_response p))"
    and c: "rs_status_code (sp_response p) = Some (f_status_code (pg_fetched page))"
    by (rule hard_runE) (rule that; assumption)
  have h: "bp_hard (sr_plan R)" by (rule browser_plan_hard(1)[OF plan assms(4)])
  have n: "runtime = None" and st: "st = f_status_code (pg_fetched page)" using rt assms(5,7) c by simp_all
  have un: "pending = None \<and> \<not> looks_like_challenge_interstitial (pg_body page) st"
    using unsolved_first[OF fs[unfolded n] h] st by simp
  have re: "\<not> looks_like_challenge_interstitial (or_value rendered (pg_body page)) st"
  proof (cases rendered)
    case (Some html)
    from rs un n Some have "render_stage Z R None page None t2 = Some (Inr (Some html), t3)" by simp
    from unsolved_render[OF this h] Some st show ?thesis by (simp add: or_value_def)
  qed (use un in \<open>simp add: or_value_def\<close>)
  have fm: "f \<noteq> fmt.Metadata" "f \<noteq> fmt.Markdown \<or> \<not> so_follow_pagination opts" using assms(8) by auto
  from surfaced_produced[OF pr pg o fm assms(9)[unfolded m]] obtain a b c where
    "produce Z R d page sm rendered f a = Some (Inr (JStr body, b), c)" by blast
  with assms(6,8) k have "body = pg_body page \<or> body = or_value rendered (pg_body page)
      \<or> f = fmt.Markdown \<and> ?kind = HtmlContent
        \<and> body = to_markdown (ev_url Z) (ev_dom Z) (or_value rendered (pg_body page)) (pg_base page)"
    and "body \<in> {pg_body page, or_value rendered (pg_body page)} \<longrightarrow> \<not> (f = fmt.Markdown \<and> ?kind = HtmlContent)
      \<or> body = to_markdown (ev_url Z) (ev_dom Z) (or_value rendered (pg_body page)) (pg_base page)"
    by (auto simp: produce_def Let_def is_document_def)
  with un re show ?thesis unfolding challenge_free_def by (cases "f = fmt.Markdown \<and> ?kind = HtmlContent") auto
qed

text \<open>The concrete scrape is hard, and what it surfaces is the page.\<close>

lemma shop_is_hard:
  obtains p s' prep where
    "scrape shop_env ''https://a.example/a'' shop_options (shop_start [''<p>raw</p>'']) = Some (Inr p, s')"
    "validate_url (ev_url shop_env) ''https://a.example/a'' = Inr (site ''/a'')"
    "prepare (ev_quote shop_env) (ev_parse_json shop_env) (ev_ops shop_env) (ev_login shop_env) (ev_env shop_env) shop_options
       (site ''/a'') = Inr prep"
    "requires_chromium_hard_path (hard_decision shop_options prep)" "shop_result p"
proof -
  have U: "ev_url shop_env = demo_url_ops" by (simp add: shop_env_def demo_login_ops_def url_ops.defs)
  have v: "validate_url (ev_url shop_env) ''https://a.example/a'' = Inr (site ''/a'')" unfolding U by code_simp
  obtain p s' where r: "scrape shop_env ''https://a.example/a'' shop_options (shop_start [''<p>raw</p>'']) = Some (Inr p, s')"
    and res: "shop_result p" by (rule shop_scrape)
  obtain prep where p: "prepare (ev_quote shop_env) (ev_parse_json shop_env) (ev_ops shop_env) (ev_login shop_env) (ev_env shop_env)
      shop_options (site ''/a'') = Inr prep" by (rule shop_prepared)
  have "requires_chromium_hard_path (hard_decision shop_options prep)"
    by (simp add: requires_chromium_hard_path_def hard_decision_def shop_options_def)
  with r v p show ?thesis using res by (rule that)
qed

theorem hard_path_refuses_challenges_witness:
  "\<exists>p s'. scrape shop_env ''https://a.example/a'' shop_options (shop_start [''<p>raw</p>'']) = Some (Inr p, s')
     \<and> bt_get (rb_formats_produced (sp_result p)) ''html'' = Some (JStr ''<p>shown</p>'')
     \<and> challenge_free shop_env HtmlContent 200 Html ''<p>shown</p>''"
proof -
  obtain p s' prep where r: "scrape shop_env ''https://a.example/a'' shop_options (shop_start [''<p>raw</p>'']) = Some (Inr p, s')"
    "validate_url (ev_url shop_env) ''https://a.example/a'' = Inr (site ''/a'')"
    "prepare (ev_quote shop_env) (ev_parse_json shop_env) (ev_ops shop_env) (ev_login shop_env) (ev_env shop_env) shop_options
       (site ''/a'') = Inr prep"
    "requires_chromium_hard_path (hard_decision shop_options prep)" and p: "shop_result p" by (rule shop_is_hard)
  have k: "classify (Some ''text/html'') = HtmlContent" by code_simp
  have rt: "resolve_runtime (ev_env shop_env) (so_captcha_solver shop_options) (so_captcha_api_key shop_options)
      (so_captcha_solve_timeout_secs shop_options) = Inr None"
    by (simp add: resolve_runtime_def read_api_key_from_env_def shop_env_def shop_options_def default_scrape_options_def)
  have c: "classify (rs_content_type (sp_response p)) = HtmlContent" "rs_status_code (sp_response p) = Some 200"
    and g: "bt_get (rb_formats_produced (sp_result p)) (fmt_str Html) = Some (JStr ''<p>shown</p>'')"
    using p k by (simp_all add: shop_result_def bt_get_def)
  from hard_path_refuses_challenges[OF r rt _ c(2) _ g] c(1) g r(1) show ?thesis
    by (intro exI[of _ p] exI[of _ s'] conjI) simp_all
qed

section \<open>Where the guarantees end\<close>

text \<open>
  A POST scrape off the hard path plans no browser, so neither the composer of the proxy nor a profile is set up for it;
  yet its HTML is rendered, and the browser connects without the proxy that the proof names.
\<close>

lemma post_renders_without_composer:
  assumes "eq_ic (pp_method (sr_prep R)) ''POST''" and "browser_plan_of env (sr_opts R) (sr_prep R) = Inr (sr_plan R)"
    and "so_render_enabled (sr_opts R)" and "Html \<in> set (pp_formats (sr_prep R))"
    and "pg_kind page = HtmlContent" and "trim (pg_body page) \<noteq> []"
  shows "\<not> bp_browser (sr_plan R) \<and> should_render_html R page"
  using assms
  by (cases "sr_plan R") (auto simp: browser_plan_of_def Let_def res_simps should_render_html_def list_ex_iff split: if_splits)

text \<open>
  A further page of a pagination is appended whatever it is: neither its status nor what it shows is looked at.
\<close>

lemma next_page_unchecked:
  assumes "fetch_page Z R url s = Some (Inr f, t)" and "classify (f_content_type f) = HtmlContent"
    and "body = redact_sensitive_request_echoes (decode_body (ev_charsets Z) (f_body f) (f_content_type f) True) (so_headers (sr_opts R))"
    and "trim body \<noteq> []" and "so_render_enabled (sr_opts R)" and "bp_inject (sr_plan R)"
    and "render_page Z R (page_base_of (ev_url Z) url f) (page_hard (sr_opts R)) [] t = Some (Inr shown, u)"
  shows "\<exists>base. scrape_next_page Z R url s = Some (Inr (to_markdown (ev_url Z) (ev_dom Z) shown base, shown, base), u)"
  using assms by (simp add: scrape_next_page_def and_then_def Let_def)

text \<open>An empty HTML page on the hard path is not rendered, and the path claimed for it is Chromium all the same.\<close>

lemma empty_page_claims_chromium:
  assumes "trim (pg_body page) = []" and "bp_hard plan" and "bp_browser plan" and "pg_kind page = HtmlContent"
  shows "\<not> should_render_html R page
     \<and> truthful_fetch_path (used \<or> (bp_hard plan \<and> bp_browser plan \<and> pg_kind page = HtmlContent)) = PathChromium"
  using assms by (simp add: should_render_html_def truthful_fetch_path_def)

end
