(* ===== verification/Scrape_Network.thy ===== *)
theory Scrape_Network
  imports Scrape_Outcome
begin

text \<open>
  What a scrape dials. A network is dialled again by replacing what a direct connection and what each upstream would do;
  a fetch, a consultation of robots.txt, the discovery of sitemaps and the whole scrape depend only on the one of these that
  the configuration names. So the class in a proof is the class of the only upstream that the scrape's own
  connections used.
\<close>

section \<open>A fetch\<close>

definition redial ::
    "(string \<Rightarrow> nat \<Rightarrow> 'w \<Rightarrow> (core_error, string) result \<times> 'w)
     \<Rightarrow> ('p \<Rightarrow> string \<Rightarrow> nat \<Rightarrow> 'w \<Rightarrow> (core_error, string) result \<times> 'w)
     \<Rightarrow> ('u, 'p, 't, 'w, 'r) net \<Rightarrow> ('u, 'p, 't, 'w, 'r) net" where
  "redial D P N = N \<lparr> n_direct_connect := D, n_proxy_connect := P \<rparr>"

text \<open>The replacements leave what the configuration names: the direct connection, or the one upstream.\<close>

definition same_dials ::
    "'p option \<Rightarrow> (string \<Rightarrow> nat \<Rightarrow> 'w \<Rightarrow> (core_error, string) result \<times> 'w)
     \<Rightarrow> ('p \<Rightarrow> string \<Rightarrow> nat \<Rightarrow> 'w \<Rightarrow> (core_error, string) result \<times> 'w) \<Rightarrow> ('u, 'p, 't, 'w, 'r) net \<Rightarrow> bool" where
  "same_dials proxy D P N \<longleftrightarrow>
     (case proxy of None \<Rightarrow> D = n_direct_connect N | Some cfg \<Rightarrow> P cfg = n_proxy_connect N cfg)"

lemma redial_fields [simp]:
  "n_direct_connect (redial D P N) = D" "n_proxy_connect (redial D P N) = P"
  "n_server_name_ok (redial D P N) = n_server_name_ok N" "n_handshake (redial D P N) = n_handshake N"
  "n_send (redial D P N) = n_send N" "n_codecs (redial D P N) = n_codecs N" "n_live (redial D P N) = n_live N"
  "n_httparse (redial D P N) = n_httparse N" "n_lossy (redial D P N) = n_lossy N" "n_pace (redial D P N) = n_pace N"
  "n_now (redial D P N) = n_now N" "n_no_tls (redial D P N) = n_no_tls N"
  "n_overflow_checks (redial D P N) = n_overflow_checks N"
  by (simp_all add: redial_def)

lemma open_origin_redial:
  "same_dials (fc_proxy cfg) D P N \<Longrightarrow> open_origin_stream (redial D P N) host port cfg w = open_origin_stream N host port cfg w"
  by (auto simp: open_origin_stream_def same_dials_def split: option.split)

lemma exchange_redial: "exchange ops U (redial D P N) = exchange ops U N"
  by (simp add: fun_eq_iff exchange_def)

lemma finish_redial: "finish_fetch ops U (redial D P N) = finish_fetch ops U N"
  by (simp add: fun_eq_iff finish_fetch_def)

lemma transmit_redial:
  assumes "same_dials (fc_proxy cfg) D P N"
  shows "transmit_hop ops U (redial D P N) url cfg cred w = transmit_hop ops U N url cfg cred w"
proof -
  have "fetch_http ops U (redial D P N) url cfg cred = fetch_http ops U N url cfg cred"
    "fetch_https ops U (redial D P N) url cfg cred = fetch_https ops U N url cfg cred"
    by (simp_all add: fun_eq_iff fetch_http_def fetch_https_def exchange_redial open_origin_redial[OF assms])
  then show ?thesis by (simp add: transmit_hop_def)
qed

lemma redirect_loop_cong:
  assumes "\<And>u c w. fc_proxy c = proxy \<Longrightarrow> tr u c w = tr' u c w" and "fc_proxy cfg = proxy"
  shows "redirect_loop tr finish U check url current cfg redirects tls egress w
       = redirect_loop tr' finish U check url current cfg redirects tls egress w"
  using assms(2)
proof (induction "Suc MAX_REDIRECTS - length redirects" arbitrary: current cfg redirects tls egress w rule: less_induct)
  case less
  have t: "tr current cfg v = tr' current cfg v" for v by (rule assms(1)[OF less.prems])
  have n: "fc_proxy (next_hop_config status cfg) = proxy" for status using less.prems by (simp add: next_hop_config_def)
  have step: "\<not> MAX_REDIRECTS \<le> length redirects \<Longrightarrow>
      redirect_loop tr finish U check url target (next_hop_config status cfg) (redirects @ [h]) tl eg v
      = redirect_loop tr' finish U check url target (next_hop_config status cfg) (redirects @ [h]) tl eg v"
    for target status h tl eg v by (rule less.hyps) (simp_all add: n)
  show ?case
    by (subst (1 2) redirect_loop.simps) (auto simp: t Let_def step split: option.split sum.split prod.split)
qed

lemma fetch_redial:
  assumes "same_dials (fc_proxy cfg) D P N"
  shows "fetch_with_document_policy_until ops U (redial D P N) check url cfg w = fetch_with_document_policy_until ops U N check url cfg w"
proof -
  have "redirect_loop (\<lambda>u c v. transmit_hop ops U (redial D P N) u c cred v) finish U check url url cfg [] tls None w
      = redirect_loop (\<lambda>u c v. transmit_hop ops U N u c cred v) finish U check url url cfg [] tls None w" for cred finish tls
    by (rule redirect_loop_cong[where proxy = "fc_proxy cfg"]) (use assms in \<open>simp_all add: transmit_redial\<close>)
  then show ?thesis by (simp add: fetch_with_document_policy_until_def Let_def finish_redial)
qed

lemma fetch_until_redial:
  assumes "same_dials (fc_proxy cfg) D P N"
  shows "fetch_until ops U (redial D P N) url cfg = fetch_until ops U N url cfg"
  by (simp add: fun_eq_iff fetch_until_def fetch_redial[OF assms])

lemma consult_redial:
  assumes "same_dials (fc_proxy cfg) D P N"
  shows "consult ops U (redial D P N) E url cfg policy w = consult ops U N E url cfg policy w"
  unfolding consult_def fetch_until_redial[OF assms] by (rule refl)

lemma document_check_redial:
  assumes "same_dials (fc_proxy cfg) D P N"
  shows "document_check ops U (redial D P N) E cfg policy target s = document_check ops U N E cfg policy target s"
  by (simp add: document_check_def consult_redial[OF assms])

lemma discover_redial:
  assumes "same_dials (fc_proxy cfg) D P N"
  shows "discover_sitemap_urls ops U (redial D P N) E xml target cfg robots_sitemaps w
       = discover_sitemap_urls ops U N E xml target cfg robots_sitemaps w"
proof -
  have "fetch_sitemap ops U (redial D P N) E xml cfg = fetch_sitemap ops U N E xml cfg"
    unfolding fetch_sitemap_def fetch_until_redial[OF assms] by (rule refl)
  then show ?thesis by (simp add: discover_sitemap_urls_def)
qed

lemma lift_redial:
  "lift_net (redial D P N) = redial (\<lambda>host port. on_fst (D host port)) (\<lambda>q host port. on_fst (P q host port)) (lift_net N)"
  by (simp add: lift_net_def redial_def)

lemma lift_same_dials:
  "same_dials proxy D P N \<Longrightarrow> same_dials proxy (\<lambda>host port. on_fst (D host port)) (\<lambda>q host port. on_fst (P q host port)) (lift_net N)"
  by (auto simp: same_dials_def lift_net_def split: option.splits)

section \<open>A scrape\<close>

definition redialled ::
    "(string \<Rightarrow> nat \<Rightarrow> 'w \<Rightarrow> (core_error, string) result \<times> 'w)
     \<Rightarrow> (proxy_config \<Rightarrow> string \<Rightarrow> nat \<Rightarrow> 'w \<Rightarrow> (core_error, string) result \<times> 'w)
     \<Rightarrow> ('u, 'w, 'r, 'e, 'd, 'c, 's, 'x) scrape_env \<Rightarrow> ('u, 'w, 'r, 'e, 'd, 'c, 's, 'x) scrape_env" where
  "redialled D P Z = Z \<lparr> ev_net := redial D P (ev_net Z) \<rparr>"

abbreviation own_dials where
  "own_dials R D P Z \<equiv> same_dials (fc_proxy (sr_cfg R)) D P (ev_net Z)"

lemma redialled_fields [simp]:
  "ev_env (redialled D P Z) = ev_env Z" "ev_ops (redialled D P Z) = ev_ops Z" "ev_login (redialled D P Z) = ev_login Z"
  "ev_net (redialled D P Z) = redial D P (ev_net Z)" "ev_charsets (redialled D P Z) = ev_charsets Z"
  "ev_xml (redialled D P Z) = ev_xml Z" "ev_dom (redialled D P Z) = ev_dom Z" "ev_readers (redialled D P Z) = ev_readers Z"
  "ev_quote (redialled D P Z) = ev_quote Z" "ev_parse_json (redialled D P Z) = ev_parse_json Z"
  "ev_read_json (redialled D P Z) = ev_read_json Z" "ev_write (redialled D P Z) = ev_write Z"
  "ev_f64_json (redialled D P Z) = ev_f64_json Z" "ev_script (redialled D P Z) = ev_script Z"
  "ev_siphash (redialled D P Z) = ev_siphash Z" "ev_solver (redialled D P Z) = ev_solver Z"
  "ev_compose (redialled D P Z) = ev_compose Z" "ev_render (redialled D P Z) = ev_render Z"
  "ev_capture (redialled D P Z) = ev_capture Z" "ev_usage (redialled D P Z) = ev_usage Z" "ev_clock (redialled D P Z) = ev_clock Z"
  "ev_temp_dir (redialled D P Z) = ev_temp_dir Z" "ev_io (redialled D P Z) = ev_io Z"
  "ev_empty_dir (redialled D P Z) = ev_empty_dir Z" "ev_rfc3339 (redialled D P Z) = ev_rfc3339 Z"
  "ev_agent (redialled D P Z) = ev_agent Z"
  by (simp_all add: redialled_def)

text \<open>What does not touch the network at all.\<close>

lemma redialled_offline:
  "clock_now (redialled D P Z) s = clock_now Z s"
  "read_page (redialled D P Z) opts url f = read_page Z opts url f"
  "try_optional_challenge_solve (redialled D P Z) rt u html status detail s = try_optional_challenge_solve Z rt u html status detail s"
  "fingerprint_seed_for_pacing (redialled D P Z) seed u = fingerprint_seed_for_pacing Z seed u"
  "render_request_of (redialled D P Z) R hard actions = render_request_of Z R hard actions"
  "assemble_proof (redialled D P Z) R f' m crawled usage egress = assemble_proof Z R f' m crawled usage egress"
  "start_chromium_composer (redialled D P Z) cfg s' = start_chromium_composer Z cfg s'"
  "acquire_profile (redialled D P Z) opts plan s'' = acquire_profile Z opts plan s''"
  unfolding clock_now_def read_page_def try_optional_challenge_solve_def fingerprint_seed_for_pacing_def
    render_request_of_def assemble_proof_def start_chromium_composer_def acquire_profile_def redialled_fields
  by (rule refl)+

lemma solve_or_block_redialled: "solve_or_block (redialled D P Z) rt base html status d u s = solve_or_block Z rt base html status d u s"
  unfolding solve_or_block_def redialled_offline redialled_fields by (rule refl)

lemma armed_actions_redialled: "armed_actions (redialled D P Z) R pending = armed_actions Z R pending"
  unfolding armed_actions_def redialled_offline redialled_fields by (rule refl)

lemma finish_proof_redialled: "finish_proof (redialled D P Z) R page m crawled used s = finish_proof Z R page m crawled used s"
  unfolding finish_proof_def redialled_offline redialled_fields by (rule refl)

lemma first_solution_redialled: "first_solution (redialled D P Z) R rt page s = first_solution Z R rt page s"
  unfolding first_solution_def solve_or_block_redialled by (rule refl)

lemmas offline_redialled =
  redialled_offline redialled_fields solve_or_block_redialled armed_actions_redialled finish_proof_redialled first_solution_redialled

text \<open>What does, under the configuration of the run.\<close>

lemma policy_redialled:
  assumes "own_dials R D P Z"
  shows "policy_check (redialled D P Z) R = policy_check Z R"
    and "render_document_policy (redialled D P Z) R = render_document_policy Z R"
proof -
  show p: "policy_check (redialled D P Z) R = policy_check Z R"
    by (intro ext) (simp only: policy_check_def redialled_fields document_check_redial[OF assms])
  show "render_document_policy (redialled D P Z) R = render_document_policy Z R"
    by (intro ext, unfold render_document_policy_def redialled_fields p) (rule refl)
qed

lemma fetch_page_redialled:
  assumes "own_dials R D P Z"
  shows "fetch_page (redialled D P Z) R url s = fetch_page Z R url s"
proof -
  note f = fetch_redial[OF lift_same_dials[OF assms]]
  have "fetch_document_until (ev_ops Z) (ev_url Z) (lift_net (redial D P (ev_net Z))) (policy_check Z R) url (sr_cfg R)
      = fetch_document_until (ev_ops Z) (ev_url Z) (lift_net (ev_net Z)) (policy_check Z R) url (sr_cfg R)"
    by (intro ext, unfold fetch_document_until_def lift_redial) (rule f)
  then show ?thesis unfolding fetch_page_def redialled_fields policy_redialled[OF assms] by (rule arg_cong[where f = "\<lambda>f. on_page f s"])
qed

lemma sitemap_urls_redialled:
  assumes "own_dials R D P Z"
  shows "sitemap_urls (redialled D P Z) R decision s = sitemap_urls Z R decision s"
proof -
  have d: "discover_sitemap_urls (ev_ops Z) (ev_url Z) (redial D P (ev_net Z)) (ev_charsets Z) (ev_xml Z) (sr_url R) (sr_cfg R)
        (rd_sitemap_urls decision)
      = discover_sitemap_urls (ev_ops Z) (ev_url Z) (ev_net Z) (ev_charsets Z) (ev_xml Z) (sr_url R) (sr_cfg R)
        (rd_sitemap_urls decision)"
    by (rule ext) (rule discover_redial[OF assms])
  show ?thesis unfolding sitemap_urls_def redialled_fields d by (rule refl)
qed

lemma render_redialled:
  assumes "own_dials R D P Z"
  shows "browse (redialled D P Z) R launch err base req s = browse Z R launch err base req s"
    and "render_page (redialled D P Z) R base hard actions s = render_page Z R base hard actions s"
    and "settle_render (redialled D P Z) R rt page pending html s = settle_render Z R rt page pending html s"
    and "render_stage (redialled D P Z) R rt page pending s = render_stage Z R rt page pending s"
proof -
  have b: "browse (redialled D P Z) R launch err base req s = browse Z R launch err base req s" for launch err base req s
    unfolding browse_def policy_redialled[OF assms] by (rule refl)
  have p: "render_page (redialled D P Z) R base hard actions s = render_page Z R base hard actions s" for base hard actions s
    unfolding render_page_def offline_redialled b by (rule refl)
  have t: "settle_render (redialled D P Z) R rt page pending html s = settle_render Z R rt page pending html s" for html s
    unfolding settle_render_def offline_redialled p by (rule refl)
  show "browse (redialled D P Z) R launch err base req s = browse Z R launch err base req s" by (rule b)
  show "render_page (redialled D P Z) R base hard actions s = render_page Z R base hard actions s" by (rule p)
  show "settle_render (redialled D P Z) R rt page pending html s = settle_render Z R rt page pending html s" by (rule t)
  show "render_stage (redialled D P Z) R rt page pending s = render_stage Z R rt page pending s"
    unfolding render_stage_def offline_redialled p t by (rule refl)
qed

lemma produce_redialled:
  assumes "own_dials R D P Z"
  shows "produce (redialled D P Z) R decision page maps rendered = produce Z R decision page maps rendered"
  by (intro ext, unfold produce_def offline_redialled render_redialled[OF assms]) (rule refl)

lemma next_page_redialled:
  assumes "own_dials R D P Z"
  shows "scrape_next_page (redialled D P Z) R url s = scrape_next_page Z R url s"
  unfolding scrape_next_page_def offline_redialled fetch_page_redialled[OF assms] render_redialled[OF assms] by (rule refl)

lemma pages_redialled:
  assumes "own_dials R D P Z"
  shows "follow_pages (redialled D P Z) R n html base crawled md s = follow_pages Z R n html base crawled md s"
proof (induction n arbitrary: html base crawled md s)
  case (Suc n)
  show ?case unfolding follow_pages.simps offline_redialled next_page_redialled[OF assms] Suc by (rule refl)
qed simp

lemma scrape_page_redialled:
  assumes "own_dials R D P Z"
  shows "scrape_page (redialled D P Z) R s = scrape_page Z R s"
  unfolding scrape_page_def pagination_stage_def offline_redialled fetch_page_redialled[OF assms] sitemap_urls_redialled[OF assms]
    render_redialled[OF assms] produce_redialled[OF assms] pages_redialled[OF assms] by (rule refl)

lemma guarded_redialled:
  assumes "same_dials (pp_proxy p) D P (ev_net Z)"
  shows "guarded_scrape (redialled D P Z) opts url p deadline s = guarded_scrape Z opts url p deadline s"
proof -
  have "scrape_page (redialled D P Z) \<lparr> sr_opts = opts, sr_prep = p, sr_plan = plan, sr_url = url,
        sr_cfg = scrape_fetch_config opts url p, sr_composer = x, sr_profile = dir, sr_deadline = deadline \<rparr> t
      = scrape_page Z \<lparr> sr_opts = opts, sr_prep = p, sr_plan = plan, sr_url = url,
        sr_cfg = scrape_fetch_config opts url p, sr_composer = x, sr_profile = dir, sr_deadline = deadline \<rparr> t" for plan x dir t
    by (rule scrape_page_redialled) (use assms in \<open>simp add: scrape_fetch_config_def\<close>)
  then show ?thesis unfolding guarded_scrape_def offline_redialled by (simp only:)
qed

lemma scrape_redialled:
  assumes "validate_url (ev_url Z) raw_url = Inr url"
    and "prepare (ev_quote Z) (ev_parse_json Z) (ev_ops Z) (ev_login Z) (ev_env Z) opts url = Inr prep"
    and "same_dials (pp_proxy prep) D P (ev_net Z)"
  shows "scrape (redialled D P Z) raw_url opts s = scrape Z raw_url opts s"
proof -
  have "guarded_scrape (redialled D P Z) opts url prep deadline = guarded_scrape Z opts url prep deadline" for deadline
    by (rule ext) (rule guarded_redialled[OF assms(3)])
  then show ?thesis
    unfolding scrape_def offline_redialled assms(1) by (simp add: and_then_def assms(2) split: option.split prod.split sum.split)
qed

section \<open>The class of a proof\<close>

lemma prepare_proxy:
  assumes "prepare quote parse_json ops L env opts url = Inr prep"
  shows "resolve_proxy_plan L env (scrape_proxy_plan opts) url = Inr (pp_proxy prep)"
    and "truthful_proxy_class (pp_proxy prep) (so_proxy_class opts) = Inr (pp_class prep)"
  using assms by (auto simp: prepare_def Let_def res_simps split: prod.splits)

lemma scrape_claims_class:
  fixes s :: "('w, 'u, 'c) scrape_state"
  assumes "scrape Z raw_url opts s = Some (Inr p, s')" and "validate_url (ev_url Z) raw_url = Inr url"
    and "prepare (ev_quote Z) (ev_parse_json Z) (ev_ops Z) (ev_login Z) (ev_env Z) opts url = Inr prep"
  shows "eg_proxy_class (sp_egress p) = Some (pp_class prep)"
proof -
  from assms(1) obtain url' prep' plan R t u where v: "validate_url (ev_url Z) raw_url = Inr url'"
    and q: "prepare (ev_quote Z) (ev_parse_json Z) (ev_ops Z) (ev_login Z) (ev_env Z) opts url' = Inr prep'"
    and R: "sr_prep R = prep'" and sp: "scrape_page Z R t = Some (Inr p, u)" by (rule scrape_InrE) (rule that; assumption)
  from sp obtain page m' crawled used t5 where
    c: "finish_proof Z R page m' crawled used t5 = Some (Inr p, u)" by (rule scrape_page_InrE) (rule that; assumption)
  from c obtain hops :: "'u document_hop list" and usage egress where
    b: "bare_proof p = assemble_proof Z R (pg_fetched page) (materialize_robots_policy_hops m' hops) crawled usage egress"
    and e: "eg_proxy_class egress = Some (pp_class (sr_prep R))" by (rule finish_proof_InrE) (rule that; assumption)
  have "sp_egress p = sp_egress (bare_proof p)" by (simp add: bare_proof_def)
  with b have "sp_egress p = egress" by (simp add: assemble_proof_def Let_def)
  moreover have "prep' = prep" using v q assms(2,3) by simp
  ultimately show ?thesis using e R by simp
qed

lemma scrape_plan_proxy: "scrape_plan (scrape_proxy_plan opts)" "pn_required (scrape_proxy_plan opts) = so_proxy_class opts"
  by (simp_all add: scrape_plan_def scrape_proxy_plan_def)

text \<open>
  C30: The proxy class of a proof is the class of what the scrape's own connections were dialled through. It is direct
  exactly when the scrape has no upstream, it is the class that the upstream was configured with otherwise, and it is the
  required class if one was required. With an upstream, the page, its redirects, robots.txt, the sitemaps and the pages that
  follow are all fetched through that upstream and nothing else: whatever a direct connection or any other upstream would
  have done, the scrape returns the same proof. Without one, the same holds of every upstream. The connections
  that the browser opens are not the scrape's own.
\<close>

theorem proxy_class_truthful:
  assumes "scrape Z raw_url opts s = Some (Inr p, s')" and "validate_url (ev_url Z) raw_url = Inr url"
    and "prepare (ev_quote Z) (ev_parse_json Z) (ev_ops Z) (ev_login Z) (ev_env Z) opts url = Inr prep"
  shows "eg_proxy_class (sp_egress p) = Some (pp_class prep)
     \<and> (pp_class prep = ClassDirect \<longleftrightarrow> pp_proxy prep = None)
     \<and> (\<forall>cfg. pp_proxy prep = Some cfg \<longrightarrow> px_class cfg = Some (pp_class prep))
     \<and> (\<forall>r. so_proxy_class opts = Some r \<longrightarrow> pp_class prep = r)
     \<and> (\<forall>D P. same_dials (pp_proxy prep) D P (ev_net Z) \<longrightarrow> scrape (redialled D P Z) raw_url opts s = Some (Inr p, s'))"
proof -
  have "eg_proxy_class (sp_egress p) = Some (pp_class prep)"
    using scrape_claims_class[OF assms] .
  moreover from plan_class_truthful[OF scrape_plan_proxy(1) prepare_proxy(1)[OF assms(3)]] prepare_proxy(2)[OF assms(3)]
  have "(pp_class prep = ClassDirect \<longleftrightarrow> pp_proxy prep = None)
     \<and> (\<forall>cfg. pp_proxy prep = Some cfg \<longrightarrow> px_class cfg = Some (pp_class prep))
     \<and> (\<forall>r. so_proxy_class opts = Some r \<longrightarrow> pp_class prep = r)" by (auto simp: scrape_plan_proxy)
  moreover have "\<forall>D P. same_dials (pp_proxy prep) D P (ev_net Z) \<longrightarrow> scrape (redialled D P Z) raw_url opts s = Some (Inr p, s')"
    using scrape_redialled[OF assms(2,3)] assms(1) by metis
  ultimately show ?thesis by blast
qed

text \<open>The concrete scrape is direct; upstreams that refuse every connection change nothing.\<close>

theorem proxy_class_truthful_witness:
  "\<exists>p s'. scrape (redialled (n_direct_connect shop_net) (\<lambda>_ _ _ w. (Inl (Transport ''refused''), w)) shop_env)
         ''https://a.example/a'' shop_options (shop_start [''<p>raw</p>'']) = Some (Inr p, s')
     \<and> eg_proxy_class (sp_egress p) = Some ClassDirect"
proof -
  obtain q where q: "prepare (ev_quote shop_env) (ev_parse_json shop_env) (ev_ops shop_env) (ev_login shop_env) (ev_env shop_env)
      shop_options (site ''/a'') = Inr q" "pp_proxy q = None" "pp_class q = ClassDirect" by (rule shop_prepared)
  obtain p s' prep where r: "scrape shop_env ''https://a.example/a'' shop_options (shop_start [''<p>raw</p>'']) = Some (Inr p, s')"
    "validate_url (ev_url shop_env) ''https://a.example/a'' = Inr (site ''/a'')" by (rule shop_is_hard)
  have d: "same_dials (pp_proxy q) (n_direct_connect shop_net) (\<lambda>_ _ _ w. (Inl (Transport ''refused''), w)) (ev_net shop_env)"
    by (simp add: same_dials_def q shop_env_def)
  note t = proxy_class_truthful[OF r q(1)]
  have "scrape (redialled (n_direct_connect shop_net) (\<lambda>_ _ _ w. (Inl (Transport ''refused''), w)) shop_env)
      ''https://a.example/a'' shop_options (shop_start [''<p>raw</p>'']) = Some (Inr p, s')"
    using t[THEN conjunct2, THEN conjunct2, THEN conjunct2, THEN conjunct2] d by blast
  with t[THEN conjunct1] q(3) show ?thesis by (intro exI conjI) simp_all
qed

end
