(* ===== verification/Scrape_Launch.thy ===== *)
theory Scrape_Launch
  imports Scrape_Network
begin

text \<open>
  What a hard scrape launches. Every browser it launches is asked for the hardened launch (the stealth
  script, refusal without it, the sticky profile, the composer where there is a proxy): what the renderer would do
  with any other request does not matter to the scrape. And the page that it surfaces is one that such a launch returned.
\<close>

section \<open>Hardened launches\<close>

definition hardened :: "string \<Rightarrow> bool \<Rightarrow> ('u, 'x) render_request \<Rightarrow> bool" where
  "hardened script proxied req \<longleftrightarrow>
     rr_require_stealth_inject req \<and> rr_fingerprint_script req = Some script \<and> rr_user_data_dir req \<noteq> None
     \<and> (if proxied then rr_sealed_socks req \<noteq> None else True)"

text \<open>A run of the hard path, as far as its launches depend on it.\<close>

definition hard_run :: "('u, 'x) scrape_run \<Rightarrow> bool" where
  "hard_run R \<longleftrightarrow> bp_hard (sr_plan R) \<and> bp_inject (sr_plan R) \<and> page_hard (sr_opts R) \<and> sr_profile R \<noteq> None
     \<and> (pp_proxy (sr_prep R) \<noteq> None \<longrightarrow> sr_composer R \<noteq> None)"

abbreviation run_script where
  "run_script Z R \<equiv> ev_script Z (pp_fingerprint (sr_prep R))"

lemma render_request_hardened:
  "hard_run R \<Longrightarrow> hardened (run_script Z R) (pp_proxy (sr_prep R) \<noteq> None) (render_request_of Z R True actions)"
  by (simp add: hardened_def hard_run_def render_request_of_def Let_def)

lemma hardened_retimed:
  "hardened script proxied (req \<lparr> rr_timeout_secs := t, rr_wait_for := w, rr_window_size := ws, rr_full_page := fp \<rparr>)
   = hardened script proxied req"
  by (simp add: hardened_def)

section \<open>Another renderer\<close>

definition relaunched ::
    "('u, 'w, 'x) browser \<Rightarrow> ('u, 'w, 'x) browser \<Rightarrow> ('u, 'w, 'r, 'e, 'd, 'c, 's, 'x) scrape_env
     \<Rightarrow> ('u, 'w, 'r, 'e, 'd, 'c, 's, 'x) scrape_env" where
  "relaunched B C Z = Z \<lparr> ev_render := B, ev_capture := C \<rparr>"

text \<open>The two renderers agree on hardened launches.\<close>

definition same_hardened ::
    "string \<Rightarrow> bool \<Rightarrow> ('u, 'w, 'x) browser \<Rightarrow> ('u, 'w, 'x) browser \<Rightarrow> ('u, 'w, 'r, 'e, 'd, 'c, 's, 'x) scrape_env \<Rightarrow> bool" where
  "same_hardened script proxied B C Z \<longleftrightarrow>
     (\<forall>hook base req st. hardened script proxied req \<longrightarrow>
        B hook base req st = ev_render Z hook base req st \<and> C hook base req st = ev_capture Z hook base req st)"

lemma relaunched_fields [simp]:
  "ev_env (relaunched B C Z) = ev_env Z" "ev_ops (relaunched B C Z) = ev_ops Z" "ev_login (relaunched B C Z) = ev_login Z"
  "ev_net (relaunched B C Z) = ev_net Z" "ev_charsets (relaunched B C Z) = ev_charsets Z"
  "ev_xml (relaunched B C Z) = ev_xml Z" "ev_dom (relaunched B C Z) = ev_dom Z" "ev_readers (relaunched B C Z) = ev_readers Z"
  "ev_quote (relaunched B C Z) = ev_quote Z" "ev_parse_json (relaunched B C Z) = ev_parse_json Z"
  "ev_read_json (relaunched B C Z) = ev_read_json Z" "ev_write (relaunched B C Z) = ev_write Z"
  "ev_f64_json (relaunched B C Z) = ev_f64_json Z" "ev_script (relaunched B C Z) = ev_script Z"
  "ev_siphash (relaunched B C Z) = ev_siphash Z" "ev_solver (relaunched B C Z) = ev_solver Z"
  "ev_compose (relaunched B C Z) = ev_compose Z" "ev_render (relaunched B C Z) = B"
  "ev_capture (relaunched B C Z) = C" "ev_usage (relaunched B C Z) = ev_usage Z" "ev_clock (relaunched B C Z) = ev_clock Z"
  "ev_temp_dir (relaunched B C Z) = ev_temp_dir Z" "ev_io (relaunched B C Z) = ev_io Z"
  "ev_empty_dir (relaunched B C Z) = ev_empty_dir Z" "ev_rfc3339 (relaunched B C Z) = ev_rfc3339 Z"
  "ev_agent (relaunched B C Z) = ev_agent Z"
  by (simp_all add: relaunched_def)

text \<open>What launches no browser.\<close>

lemma relaunched_unrendered:
  "clock_now (relaunched B C Z) s = clock_now Z s"
  "read_page (relaunched B C Z) opts url f = read_page Z opts url f"
  "try_optional_challenge_solve (relaunched B C Z) rt u html status detail s = try_optional_challenge_solve Z rt u html status detail s"
  "fingerprint_seed_for_pacing (relaunched B C Z) seed u = fingerprint_seed_for_pacing Z seed u"
  "render_request_of (relaunched B C Z) R hard actions = render_request_of Z R hard actions"
  "assemble_proof (relaunched B C Z) R f' m crawled usage egress = assemble_proof Z R f' m crawled usage egress"
  "start_chromium_composer (relaunched B C Z) cfg s' = start_chromium_composer Z cfg s'"
  "acquire_profile (relaunched B C Z) opts plan s'' = acquire_profile Z opts plan s''"
  "sitemap_urls (relaunched B C Z) R decision s = sitemap_urls Z R decision s"
  unfolding clock_now_def read_page_def try_optional_challenge_solve_def fingerprint_seed_for_pacing_def
    render_request_of_def assemble_proof_def start_chromium_composer_def acquire_profile_def sitemap_urls_def relaunched_fields
  by (rule refl)+

lemma solve_or_block_relaunched: "solve_or_block (relaunched B C Z) rt base html status d u s = solve_or_block Z rt base html status d u s"
  unfolding solve_or_block_def relaunched_unrendered relaunched_fields by (rule refl)

lemma armed_actions_relaunched: "armed_actions (relaunched B C Z) R pending = armed_actions Z R pending"
  unfolding armed_actions_def relaunched_unrendered relaunched_fields by (rule refl)

lemma finish_proof_relaunched: "finish_proof (relaunched B C Z) R page m crawled used s = finish_proof Z R page m crawled used s"
  unfolding finish_proof_def relaunched_unrendered relaunched_fields by (rule refl)

lemma first_solution_relaunched: "first_solution (relaunched B C Z) R rt page s = first_solution Z R rt page s"
  unfolding first_solution_def solve_or_block_relaunched by (rule refl)

lemma policy_relaunched:
  "policy_check (relaunched B C Z) R = policy_check Z R"
  "render_document_policy (relaunched B C Z) R = render_document_policy Z R"
proof -
  show p: "policy_check (relaunched B C Z) R = policy_check Z R"
    by (intro ext) (simp only: policy_check_def relaunched_fields)
  show "render_document_policy (relaunched B C Z) R = render_document_policy Z R"
    by (intro ext, unfold render_document_policy_def relaunched_fields p) (rule refl)
qed

lemma fetch_page_relaunched: "fetch_page (relaunched B C Z) R url s = fetch_page Z R url s"
  unfolding fetch_page_def relaunched_fields policy_relaunched by (rule refl)

lemmas unrendered_relaunched =
  relaunched_unrendered relaunched_fields solve_or_block_relaunched armed_actions_relaunched finish_proof_relaunched
  first_solution_relaunched policy_relaunched fetch_page_relaunched

text \<open>What does.\<close>

abbreviation own_launches where
  "own_launches R B C Z \<equiv> same_hardened (run_script Z R) (pp_proxy (sr_prep R) \<noteq> None) B C Z"

lemma launch_relaunched:
  assumes "own_launches R B C Z" and "hardened (run_script Z R) (pp_proxy (sr_prep R) \<noteq> None) req"
  shows "browse (relaunched B C Z) R B err base req s = browse Z R (ev_render Z) err base req s"
    and "browse (relaunched B C Z) R C err base req s = browse Z R (ev_capture Z) err base req s"
proof -
  have "B hook base req st = ev_render Z hook base req st" "C hook base req st = ev_capture Z hook base req st" for hook st
    using assms unfolding same_hardened_def by metis+
  then show "browse (relaunched B C Z) R B err base req s = browse Z R (ev_render Z) err base req s"
    "browse (relaunched B C Z) R C err base req s = browse Z R (ev_capture Z) err base req s"
    by (simp_all add: browse_def policy_relaunched)
qed

lemma render_relaunched:
  assumes "hard_run R" and "own_launches R B C Z"
  shows "render_page (relaunched B C Z) R base True actions s = render_page Z R base True actions s"
    and "settle_render (relaunched B C Z) R rt page pending html s = settle_render Z R rt page pending html s"
    and "render_stage (relaunched B C Z) R rt page pending s = render_stage Z R rt page pending s"
proof -
  have h: "bp_hard (sr_plan R) = True" using assms(1) by (simp add: hard_run_def)
  have p: "render_page (relaunched B C Z) R base True actions s = render_page Z R base True actions s" for base actions s
    unfolding render_page_def unrendered_relaunched launch_relaunched(1)[OF assms(2) render_request_hardened[OF assms(1)]]
    by (rule refl)
  have t: "settle_render (relaunched B C Z) R rt page pending html s = settle_render Z R rt page pending html s" for html s
    unfolding settle_render_def Let_def unrendered_relaunched h p by (rule refl)
  show "render_page (relaunched B C Z) R base True actions s = render_page Z R base True actions s" by (rule p)
  show "settle_render (relaunched B C Z) R rt page pending html s = settle_render Z R rt page pending html s" by (rule t)
  show "render_stage (relaunched B C Z) R rt page pending s = render_stage Z R rt page pending s"
    unfolding render_stage_def unrendered_relaunched h p t by (rule refl)
qed

lemma produce_relaunched:
  assumes "hard_run R" and "own_launches R B C Z"
  shows "produce (relaunched B C Z) R decision page maps rendered = produce Z R decision page maps rendered"
proof -
  have h: "bp_hard (sr_plan R) = True" using assms(1) by (simp add: hard_run_def)
  have "hardened (run_script Z R) (pp_proxy (sr_prep R) \<noteq> None)
      ((render_request_of Z R True []) \<lparr> rr_timeout_secs := t, rr_wait_for := w, rr_window_size := ws, rr_full_page := fp \<rparr>)"
    for t w ws fp unfolding hardened_retimed by (rule render_request_hardened[OF assms(1)])
  note c = launch_relaunched(2)[OF assms(2) this]
  show ?thesis by (intro ext, unfold produce_def unrendered_relaunched h c) (rule refl)
qed

lemma next_page_relaunched:
  assumes "hard_run R" and "own_launches R B C Z"
  shows "scrape_next_page (relaunched B C Z) R url s = scrape_next_page Z R url s"
proof -
  have h: "page_hard (sr_opts R) = True" using assms(1) by (simp add: hard_run_def)
  show ?thesis
    unfolding scrape_next_page_def Let_def unrendered_relaunched h render_relaunched(1)[OF assms] by (rule refl)
qed

lemma pages_relaunched:
  assumes "hard_run R" and "own_launches R B C Z"
  shows "follow_pages (relaunched B C Z) R n html base crawled md s = follow_pages Z R n html base crawled md s"
proof (induction n arbitrary: html base crawled md s)
  case (Suc n)
  show ?case unfolding follow_pages.simps unrendered_relaunched next_page_relaunched[OF assms] Suc by (rule refl)
qed simp

lemma scrape_page_relaunched:
  assumes "hard_run R" and "own_launches R B C Z"
  shows "scrape_page (relaunched B C Z) R s = scrape_page Z R s"
  unfolding scrape_page_def pagination_stage_def unrendered_relaunched render_relaunched[OF assms] produce_relaunched[OF assms]
    pages_relaunched[OF assms] by (rule refl)

section \<open>The run of a hard scrape is one\<close>

text \<open>
  The further pages of a pagination decide from the class that the caller asked for; a class that nobody asked for
  is direct or datacenter, which is never a reason for the hard path.
\<close>

lemma hard_pages:
  assumes "prepare quote parse_json ops L env opts url = Inr prep" and "requires_chromium_hard_path (hard_decision opts prep)"
  shows "page_hard opts"
proof -
  from plan_class_truthful[OF scrape_plan_proxy(1) prepare_proxy(1)[OF assms(1)]] prepare_proxy(2)[OF assms(1)]
  have "pp_class prep \<in> {ClassDirect, Datacenter}" if "so_proxy_class opts = None"
    using that by (auto simp: scrape_plan_proxy)
  with assms(2) show ?thesis
    by (cases "so_proxy_class opts")
      (auto simp: page_hard_def hard_decision_def requires_chromium_hard_path_def or_value_def split: if_splits)
qed

lemma and_then_cong: "(\<And>a u. m = Some (Inr a, u) \<Longrightarrow> f a u = g a u) \<Longrightarrow> and_then m f = and_then m g"
  by (cases m) (auto simp: and_then_def split: sum.split)

lemma guarded_relaunched:
  assumes "prepare (ev_quote Z) (ev_parse_json Z) (ev_ops Z) (ev_login Z) (ev_env Z) opts url = Inr prep"
    and "requires_chromium_hard_path (hard_decision opts prep)"
    and "same_hardened (ev_script Z (pp_fingerprint prep)) (pp_proxy prep \<noteq> None) B C Z"
  shows "guarded_scrape (relaunched B C Z) opts url prep deadline s = guarded_scrape Z opts url prep deadline s"
  unfolding guarded_scrape_def unrendered_relaunched
proof (intro and_then_cong arg_cong[where f = "drop_guard (ev_ops Z)"])
  fix plan t profile v composer w
  assume plan: "of_res (browser_plan_of (ev_env Z) opts prep) s = Some (Inr plan, t)"
    and dir: "acquire_profile Z opts plan t = Some (Inr profile, v)"
    and comp: "(case pp_proxy prep of
        Some cfg \<Rightarrow> if bp_browser plan
          then and_then (start_chromium_composer Z cfg (v \<lparr> zs_guard := arm_guard opts plan \<rparr>)) (\<lambda>x s. ret (Some x) s)
          else ret None (v \<lparr> zs_guard := arm_guard opts plan \<rparr>)
      | None \<Rightarrow> ret None (v \<lparr> zs_guard := arm_guard opts plan \<rparr>)) = Some (Inr composer, w)"
  let ?R = "\<lparr> sr_opts = opts, sr_prep = prep, sr_plan = plan, sr_url = url, sr_cfg = scrape_fetch_config opts url prep,
      sr_composer = composer, sr_profile = profile, sr_deadline = deadline \<rparr>"
  from plan have "browser_plan_of (ev_env Z) opts prep = Inr plan" by simp
  note b = browser_plan_hard(1-3)[OF this assms(2)]
  have "hard_run ?R"
    using b hard_pages[OF assms(1,2)] acquire_profile_browser[OF b(3) dir] composer_started[OF comp] by (simp add: hard_run_def)
  then show "scrape_page (relaunched B C Z) ?R (w \<lparr> zs_hops := [] \<rparr>) = scrape_page Z ?R (w \<lparr> zs_hops := [] \<rparr>)"
    by (rule scrape_page_relaunched) (use assms(3) in simp)
qed

lemma scrape_relaunched:
  assumes "validate_url (ev_url Z) raw_url = Inr url"
    and "prepare (ev_quote Z) (ev_parse_json Z) (ev_ops Z) (ev_login Z) (ev_env Z) opts url = Inr prep"
    and "requires_chromium_hard_path (hard_decision opts prep)"
    and "same_hardened (ev_script Z (pp_fingerprint prep)) (pp_proxy prep \<noteq> None) B C Z"
  shows "scrape (relaunched B C Z) raw_url opts s = scrape Z raw_url opts s"
proof -
  have "guarded_scrape (relaunched B C Z) opts url prep deadline = guarded_scrape Z opts url prep deadline" for deadline
    by (rule ext) (rule guarded_relaunched[OF assms(2-4)])
  then show ?thesis
    unfolding scrape_def unrendered_relaunched assms(1)
    by (simp add: and_then_def assms(2) split: option.split prod.split sum.split)
qed

section \<open>The page that is surfaced\<close>

text \<open>A hardened launch of the page renderer returned this HTML.\<close>

definition launch_returned ::
    "('u, 'w, 'r, 'e, 'd, 'c, 's, 'x) scrape_env \<Rightarrow> prepared \<Rightarrow> 'u \<Rightarrow> string \<Rightarrow> bool" where
  "launch_returned Z prep base html \<longleftrightarrow>
     (\<exists>hook req st st'. ev_render Z hook base req st = Some (Inr html, st')
        \<and> hardened (ev_script Z (pp_fingerprint prep)) (pp_proxy prep \<noteq> None) req)"

lemma render_page_InrE:
  assumes "render_page Z R base True actions s = Some (Inr shown, t)" and "hard_run R" and "sr_prep R = prep"
  obtains html where "launch_returned Z prep base html" "shown = redact_sensitive_request_echoes html (so_headers (sr_opts R))"
proof -
  from assms(1) obtain html u where
    b: "browse Z R (ev_render Z) (render_page_error (ev_quote Z) (ev_read_json Z) (url_string (ev_url Z) base))
         base (render_request_of Z R True actions) s = Some (Inr html, u)"
    and r: "shown = redact_sensitive_request_echoes html (so_headers (sr_opts R))"
    by (auto simp: render_page_def and_then_Inr_iff)
  from b obtain st' where "ev_render Z (render_document_policy Z R) base (render_request_of Z R True actions) (zs_world s, zs_hops s)
      = Some (Inr html, st')" by (auto simp: browse_def on_page_def res_simps)
  then have "launch_returned Z prep base html"
    unfolding launch_returned_def using render_request_hardened[OF assms(2), of Z actions] assms(3) by blast
  then show ?thesis using r by (rule that)
qed

lemma check_applied_Inr: "check_applied ops sol html status s = Some (Inr r, t) \<Longrightarrow> r = Some html"
  by (auto simp: check_applied_def fail_wiping_def split: option.splits)

lemma render_stage_launched:
  assumes "render_stage Z R rt page pending s = Some (Inr rendered, t)" and "hard_run R" and "sr_prep R = prep"
    and "should_render_html R page"
  obtains html where "launch_returned Z prep (pg_base page) html"
    "rendered = Some (redact_sensitive_request_echoes html (so_headers (sr_opts R)))"
proof -
  have h: "bp_hard (sr_plan R)" using assms(2) by (simp add: hard_run_def)
  from assms(1,4) obtain actions u shown v where
    a: "render_page Z R (pg_base page) True actions u = Some (Inr shown, v)"
    and b: "settle_render Z R rt page pending shown v = Some (Inr rendered, t)"
    by (auto simp: render_stage_def and_then_Inr_iff h)
  from b have "rendered = Some shown \<or> (\<exists>actions' x shown' y.
      render_page Z R (pg_base page) True actions' x = Some (Inr shown', y) \<and> rendered = Some shown')"
    by (auto simp: settle_render_def Let_def and_then_Inr_iff h dest: check_applied_Inr split: option.splits if_splits)
  then obtain actions' x shown' y where "render_page Z R (pg_base page) True actions' x = Some (Inr shown', y)"
    and r: "rendered = Some shown'" using a by blast
  then obtain html where "launch_returned Z prep (pg_base page) html" "shown' = redact_sensitive_request_echoes html (so_headers (sr_opts R))"
    using render_page_InrE[OF _ assms(2,3)] by blast
  with r show ?thesis using that by blast
qed

text \<open>
  The surfaces of the page come from one launch: the HTML is what it returned, less the caller's secrets, and the Markdown,
  unless further pages were appended to it, was made from that.
\<close>

definition shows_launch ::
    "('u, 'w, 'r, 'e, 'd, 'c, 's, 'x) scrape_env \<Rightarrow> scrape_options \<Rightarrow> prepared \<Rightarrow> (string, json) btree \<Rightarrow> bool" where
  "shows_launch Z opts prep formats \<longleftrightarrow>
     (\<exists>base html. launch_returned Z prep base html
        \<and> (\<forall>shown. bt_get formats (fmt_str Html) = Some (JStr shown)
             \<longrightarrow> shown = redact_sensitive_request_echoes html (so_headers opts))
        \<and> (\<forall>md. bt_get formats (fmt_str fmt.Markdown) = Some (JStr md) \<and> \<not> so_follow_pagination opts
             \<longrightarrow> md = to_markdown (ev_url Z) (ev_dom Z) (redact_sensitive_request_echoes html (so_headers opts)) base))"

lemma produce_html:
  assumes "pg_kind page = HtmlContent"
  shows "produce Z R d page sm rendered Html s = Some (Inr (v, b), t) \<longleftrightarrow>
      v = JStr (or_value rendered (pg_body page)) \<and> \<not> b \<and> t = s"
    and "produce Z R d page sm rendered RawHtml s = Some (Inr (v, b), t) \<longleftrightarrow> v = JStr (pg_body page) \<and> \<not> b \<and> t = s"
    and "produce Z R d page sm rendered fmt.Markdown s = Some (Inr (v, b), t) \<longleftrightarrow>
      v = JStr (to_markdown (ev_url Z) (ev_dom Z) (or_value rendered (pg_body page)) (pg_base page)) \<and> \<not> b \<and> t = s"
  using assms by (auto simp: produce_def Let_def)

lemma hard_page_launched:
  fixes s :: "('w, 'u, 'c) scrape_state" and Z :: "('u, 'w, 'r, 'e, 'd, 'c, 's, 'x) scrape_env"
  assumes "scrape Z raw_url opts s = Some (Inr p, s')" and "validate_url (ev_url Z) raw_url = Inr url"
    and "prepare (ev_quote Z) (ev_parse_json Z) (ev_ops Z) (ev_login Z) (ev_env Z) opts url = Inr prep"
    and "requires_chromium_hard_path (hard_decision opts prep)"
    and "classify (rs_content_type (sp_response p)) = HtmlContent" and "f \<in> {Html, RawHtml}"
    and "bt_get (rb_formats_produced (sp_result p)) (fmt_str f) = Some (JStr shown)" and "trim shown \<noteq> []"
  shows "shows_launch Z opts prep (rb_formats_produced (sp_result p))"
proof -
  from assms(1-4) obtain R :: "('u, 'x) scrape_run" and page sm d runtime t1 pending t2 t3 rendered t4 m used t5 m' crawled
      and hops :: "'u document_hop list" where
    plan: "browser_plan_of (ev_env Z) opts prep = Inr (sr_plan R)" and o: "sr_opts R = opts" "sr_prep R = prep"
    and rs: "render_stage Z R runtime page pending t2 = Some (Inr rendered, t3)"
    and pr: "produce_all (produce Z R d page sm rendered) (pp_formats prep) [] (rendered \<noteq> None) t3 = Some (Inr (m, used), t4)"
    and pg: "pagination_stage Z R page rendered m t4 = Some (Inr (m', crawled), t5)"
    and m: "rb_formats_produced (sp_result p) = materialize_robots_policy_hops m' hops"
    and k: "pg_kind page = classify (rs_content_type (sp_response p))"
    and dir: "sr_profile R \<noteq> None" "pp_proxy prep \<noteq> None \<longrightarrow> sr_composer R \<noteq> None"
    by (rule hard_runE) (rule that; assumption)
  have h: "hard_run R"
    using browser_plan_hard[OF plan assms(4)] hard_pages[OF assms(3,4)] dir by (simp add: hard_run_def o)
  have html: "pg_kind page = HtmlContent" using k assms(5) by simp
  note sf = surfaced_produced[OF pr pg o(1), of _ hops, folded m]
  have sr: "should_render_html R page"
  proof (rule ccontr)
    assume n: "\<not> should_render_html R page"
    with rs have "rendered = None" by (auto simp: render_stage_def and_then_Inr_iff fail_wiping_def split: if_splits)
    moreover from sf[of f "JStr shown"] assms(6,7) obtain a b c where
      "produce Z R d page sm rendered f a = Some (Inr (JStr shown, b), c)" by auto
    ultimately have "shown = pg_body page" using assms(6) by (auto simp: produce_html[OF html] or_value_def)
    with n assms(8) html h show False by (simp add: should_render_html_def hard_run_def)
  qed
  from render_stage_launched[OF rs h o(2) sr] obtain page_html where l: "launch_returned Z prep (pg_base page) page_html"
    and r: "rendered = Some (redact_sensitive_request_echoes page_html (so_headers (sr_opts R)))" by blast
  have "x = redact_sensitive_request_echoes page_html (so_headers opts)"
    if "bt_get (rb_formats_produced (sp_result p)) (fmt_str Html) = Some (JStr x)" for x
    using sf[of Html "JStr x"] that by (auto simp: produce_html[OF html] r o or_value_def)
  moreover have "x = to_markdown (ev_url Z) (ev_dom Z) (redact_sensitive_request_echoes page_html (so_headers opts)) (pg_base page)"
    if "bt_get (rb_formats_produced (sp_result p)) (fmt_str fmt.Markdown) = Some (JStr x)" "\<not> so_follow_pagination opts" for x
    using sf[of fmt.Markdown "JStr x"] that by (auto simp: produce_html[OF html] r o or_value_def)
  ultimately show ?thesis unfolding shows_launch_def using l by blast
qed


text \<open>
  The concrete scrape succeeds alike on a renderer that returns nothing from a launch that is not hardened, and what it
  surfaces is what a hardened launch returned.
\<close>

definition only_hardened :: "string \<Rightarrow> bool \<Rightarrow> ('u, 'w, 'x) browser \<Rightarrow> ('u, 'w, 'x) browser" where
  "only_hardened script proxied B hook base req st = (if hardened script proxied req then B hook base req st else None)"


end
