(* ===== verification/Scrape_Headers.thy ===== *)
theory Scrape_Headers
  imports Scrape_Outcome
begin

text \<open>
  The seed's headers on the wire: what the header lines of a scrape's own requests say, on the origin that the scrape
  was asked for and on any other, as \<^verbatim>\<open>build_http_request\<close> serialises the headers that \<^verbatim>\<open>scrape\<close> prepared.
\<close>

section \<open>Field lines\<close>

definition field_name :: "string \<Rightarrow> string" where
  "field_name l = to_lower (takeWhile (\<lambda>c. c \<noteq> CHR '':'') l)"

definition fields_named :: "string \<Rightarrow> string list \<Rightarrow> string list" where
  "fields_named n ls = filter (\<lambda>l. field_name l = n) ls"

lemma fields_named_simps [simp]:
  "fields_named n [] = []" "fields_named n (l # ls) = (if field_name l = n then l # fields_named n ls else fields_named n ls)"
  "fields_named n (a @ b) = fields_named n a @ fields_named n b"
  by (simp_all add: fields_named_def)

lemma field_name_line:
  assumes "list_all is_tchar n"
  shows "field_name (header_line (n, v)) = to_lower n"
proof -
  have "\<forall>c \<in> set n. c \<noteq> CHR '':''"
    using assms by (auto simp: list_all_iff is_tchar_def is_alnum_def is_alpha_def is_upper_def is_lower_def is_digit_def)
  then have "takeWhile (\<lambda>c. c \<noteq> CHR '':'') (n @ '': '' @ v) = n" by (simp add: takeWhile_append2)
  then show ?thesis by (simp add: field_name_def header_line_def)
qed

lemma fields_named_headers:
  assumes "\<forall>h \<in> set hs. list_all is_tchar (fst h)"
  shows "fields_named n (map header_line hs) = map header_line (filter (\<lambda>h. to_lower (fst h) = n) hs)"
  using assms by (induction hs) (auto simp: field_name_line)

lemma fixed_fields:
  "field_name (''Host: '' @ x) = ''host''" "field_name ''Accept-Encoding: gzip, deflate, br'' = ''accept-encoding''"
  "field_name ''Connection: close'' = ''connection''" "field_name (''user-agent: '' @ x) = ''user-agent''"
  "field_name ''content-type: application/octet-stream'' = ''content-type''" "field_name (''content-length: '' @ x) = ''content-length''"
  by (simp_all add: field_name_def, code_simp+)

section \<open>The prepared headers\<close>

lemma filter_distinct: "distinct xs \<Longrightarrow> x \<in> set xs \<Longrightarrow> filter (\<lambda>y. y = x) xs = [x]"
  by (induction xs) (auto simp: filter_empty_conv)

lemma four_lower: "n \<in> four_names \<Longrightarrow> to_lower n = n"
proof -
  have "to_lower ''user-agent'' = ''user-agent''" "to_lower ''accept'' = ''accept''"
    "to_lower ''accept-language'' = ''accept-language''" "to_lower ''accept-encoding'' = ''accept-encoding''" by code_simp+
  then show "n \<in> four_names \<Longrightarrow> ?thesis" by (auto simp: four_names_def)
qed

text \<open>What the soft TLS profile leaves of a generated fingerprint.\<close>

lemma scrape_fingerprint_headers:
  assumes "scrape_fingerprint quote ops env opts = Inr (fp, soft)"
  obtains s where "fp_header_names fp = fp_header_names (generate ops env s)" "seed_value fp = seed_value (generate ops env s)"
proof -
  from assms obtain g where g: "generate_validated quote ops env (scrape_seed ops opts) = Inr g"
    and f: "soften_tls quote ops opts g = Inr (fp, soft)" by (auto simp: scrape_fingerprint_def res_simps)
  have gen: "g = generate ops env (scrape_seed ops opts)" using g by (auto simp: generate_validated_def Let_def res_simps)
  have "fp = g \<or> (\<exists>i. fp = apply_impersonate ops i g)"
    using f by (auto simp: soften_tls_def res_simps Let_def split: option.splits)
  then have "fp_header_names fp = fp_header_names g \<and> seed_value fp = seed_value g"
  proof (elim disjE exE)
    fix i assume "fp = apply_impersonate ops i g"
    then show ?thesis by (cases i) (simp add: fun_eq_iff seed_value_def apply_chrome_soft_profile_def)
  qed simp
  with gen show ?thesis by (intro that[of "scrape_seed ops opts"]) simp_all
qed

text \<open>The prepared list: the seed's four headers, each once, and the caller's others.\<close>

lemma prepared_headers:
  assumes "prepare quote parse_json ops L env opts url = Inr prep"
  obtains order where "distinct order" "set order = four_names"
    "pp_headers prep = map (\<lambda>n. (n, seed_value (pp_fingerprint prep) n)) order @ caller_part (so_headers opts)"
    "\<forall>h \<in> set (pp_headers prep). list_all is_tchar (fst h)"
    "fp_accept_encoding (pp_fingerprint prep) = ''gzip, deflate, br''"
proof -
  let ?fp = "pp_fingerprint prep"
  from assms obtain soft where f: "scrape_fingerprint quote ops env opts = Inr (?fp, soft)"
    and h: "scrape_headers opts ?fp = Inr (pp_headers prep)"
    by (auto simp: prepare_def Let_def res_simps split: prod.splits)
  from f obtain s where s: "fp_header_names ?fp = fp_header_names (generate ops env s)" "seed_value ?fp = seed_value (generate ops env s)"
    by (rule scrape_fingerprint_headers)
  have e: "pp_headers prep = effective_fingerprint_headers ?fp (so_headers opts)"
    and v: "validate_pairs (effective_fingerprint_headers ?fp (so_headers opts)) = Inr ()"
    using h by (auto simp: scrape_headers_def Let_def res_simps)
  have o: "distinct (fp_header_names ?fp)" "set (fp_header_names ?fp) = four_names"
    using generated_header_names[of ops env s] s by simp_all
  have l: "pp_headers prep = map (\<lambda>n. (n, seed_value ?fp n)) (fp_header_names ?fp) @ caller_part (so_headers opts)"
    unfolding e effective_fingerprint_headers_def caller_part_def using map_filter_seed[of "fp_header_names ?fp" ?fp] o by simp
  have "validate_pairs hs = Inr () \<Longrightarrow> \<forall>h \<in> set hs. list_all is_tchar (fst h)" for hs
    by (induction hs rule: validate_pairs.induct) (auto simp: res_simps validate_header_pair_def split: if_splits)
  with v e have t: "\<forall>h \<in> set (pp_headers prep). list_all is_tchar (fst h)" by simp
  have "seed_value ?fp ''accept-encoding'' = seed_value (generate ops env s) ''accept-encoding''" using s(2) by simp
  then have "fp_accept_encoding ?fp = ''gzip, deflate, br''"
    by (simp add: seed_value_def generate_def Let_def split: prod.splits)
  with o l t show ?thesis by (rule that)
qed

lemma caller_part_other:
  assumes "n \<in> four_names"
  shows "filter (\<lambda>h. to_lower (fst h) = n) (caller_part hs) = []"
  using assms by (auto simp: caller_part_def filter_empty_conv seed_owned_iff)

lemma prepared_fields:
  assumes "prepare quote parse_json ops L env opts url = Inr prep" and "n \<in> four_names"
  shows "fields_named n (map header_line (pp_headers prep)) = [header_line (n, seed_value (pp_fingerprint prep) n)]"
proof -
  from assms(1) obtain order where o: "distinct order" "set order = four_names"
    "pp_headers prep = map (\<lambda>n. (n, seed_value (pp_fingerprint prep) n)) order @ caller_part (so_headers opts)"
    "\<forall>h \<in> set (pp_headers prep). list_all is_tchar (fst h)" by (rule prepared_headers)
  have "filter (\<lambda>m. to_lower m = n) order = filter (\<lambda>m. m = n) order"
    using o(2) by (intro filter_cong) (auto simp: four_lower)
  then have "filter (\<lambda>m. to_lower m = n) order = [n]" using filter_distinct[OF o(1)] o(2) assms(2) by simp
  then have "filter (\<lambda>h. to_lower (fst h) = n) (pp_headers prep) = [(n, seed_value (pp_fingerprint prep) n)]"
    unfolding o(3) filter_append caller_part_other[OF assms(2)] by (simp add: filter_map comp_def)
  then show ?thesis unfolding fields_named_headers[OF o(4)] by simp
qed

lemma prepared_other_line:
  assumes "prepare quote parse_json ops L env opts url = Inr prep" and "(n, v) \<in> set (so_headers opts)" "\<not> seed_owned n"
  shows "header_line (to_lower n, v) \<in> set (map header_line (pp_headers prep))"
proof -
  from assms(1) obtain order where
    "pp_headers prep = map (\<lambda>n. (n, seed_value (pp_fingerprint prep) n)) order @ caller_part (so_headers opts)" by (rule prepared_headers)
  moreover have "(to_lower n, v) \<in> set (caller_part (so_headers opts))" using assms(2,3) by (force simp: caller_part_def)
  ultimately show ?thesis by auto
qed

section \<open>The requests of a scrape\<close>

text \<open>The configuration of a hop of the scrape: redirects change the method and the body only.\<close>

definition hop_config :: "scrape_options \<Rightarrow> 'u \<Rightarrow> prepared \<Rightarrow> string \<Rightarrow> string \<Rightarrow> ('u, proxy_config) fetch_config" where
  "hop_config opts url prep m body = (scrape_fetch_config opts url prep) \<lparr> fc_method := m, fc_body := body \<rparr>"

lemma hop_config_next: "next_hop_config status (hop_config opts url prep m body)
    = hop_config opts url prep (if 301 \<le> status \<and> status \<le> 303 then ''GET'' else m) []"
  by (simp add: next_hop_config_def hop_config_def)

lemma hop_config_first: "hop_config opts url prep (pp_method prep) (so_body opts) = scrape_fetch_config opts url prep"
  by (simp add: hop_config_def scrape_fetch_config_def)

lemma has_user_agent:
  assumes "prepare quote parse_json ops L env opts url = Inr prep"
  shows "list_ex (\<lambda>h. eq_ic (fst h) ''user-agent'') (pp_headers prep)"
proof -
  from assms obtain order where "set order = four_names"
    "pp_headers prep = map (\<lambda>n. (n, seed_value (pp_fingerprint prep) n)) order @ caller_part (so_headers opts)" by (rule prepared_headers)
  then show ?thesis by (auto simp: list_ex_iff four_names_def)
qed

text \<open>
  C40: The seed's headers on the wire. On every hop of a scrape, whatever its method and body, the header lines of a request to
  the origin that was asked for carry the seed's user agent, accept and accept-language once each and nothing else under these
  names, whatever the caller's headers were; accept-encoding is there twice, once from the serialiser and once from the
  seed, with the same value; and the caller's other headers are there under their lowercase names. On another origin the
  only one of the seed's lines is the user agent: no accept and no accept-language is sent, and accept-encoding is
  the serialiser's.
\<close>

theorem seed_headers_on_wire:
  assumes "prepare quote parse_json ops L env opts url = Inr prep"
    and "build_http_request U target host port (hop_config opts url prep m body) url = Inr bytes"
    and "one_line host" and "one_line (url_path U target)" and "\<forall>q. url_query U target = Some q \<longrightarrow> one_line q"
  shows "\<exists>first lines rest. bytes = with_crlf (first # lines) @ CRLF @ rest \<and> (\<forall>l \<in> set (first # lines). l \<noteq> [] \<and> one_line l)
     \<and> fields_named ''user-agent'' lines = [''user-agent: '' @ fp_user_agent (pp_fingerprint prep)]
     \<and> (if same_origin U target url
        then fields_named ''accept'' lines = [''accept: '' @ fp_accept (pp_fingerprint prep)]
          \<and> fields_named ''accept-language'' lines = [''accept-language: '' @ fp_accept_language (pp_fingerprint prep)]
          \<and> fields_named ''accept-encoding'' lines = [''Accept-Encoding: gzip, deflate, br'', ''accept-encoding: gzip, deflate, br'']
          \<and> (\<forall>(n, v) \<in> set (so_headers opts). \<not> seed_owned n \<longrightarrow> to_lower n @ '': '' @ v \<in> set lines)
        else fields_named ''accept'' lines = [] \<and> fields_named ''accept-language'' lines = []
          \<and> fields_named ''accept-encoding'' lines = [''Accept-Encoding: gzip, deflate, br''])"
proof -
  let ?cfg = "hop_config opts url prep m body"
  let ?hs = "caller_headers_for U ?cfg target url"
  let ?P = "pp_fingerprint prep"
  have c: "fc_headers ?cfg = pp_headers prep" "fc_user_agent ?cfg = fp_user_agent ?P"
    by (simp_all add: hop_config_def scrape_fetch_config_def)
  from build_http_request_Inr(1)[OF assms(2)]
  have b: "bytes = with_crlf (request_lines U target host port ?cfg ?hs) @ CRLF @ (if sends_body ?cfg then fc_body ?cfg else [])" .
  have one: "\<forall>l \<in> set (request_lines U target host port ?cfg ?hs). l \<noteq> [] \<and> one_line l"
    by (rule request_lines_single[OF assms(2-5)])
  obtain first lines where l: "request_lines U target host port ?cfg ?hs = first # lines"
    and first: "first = request_method ?cfg @ '' '' @ request_target U target @ '' HTTP/1.1''"
    by (simp add: request_lines_def)
  let ?tail = "(if list_ex (\<lambda>h. eq_ic (fst h) ''user-agent'') ?hs then [] else [''user-agent: '' @ fc_user_agent ?cfg])
     @ (if sends_body ?cfg
        then (if \<not> list_ex (\<lambda>h. eq_ic (fst h) ''content-type'') ?hs \<and> fc_body ?cfg \<noteq> []
              then [''content-type: application/octet-stream''] else [])
             @ [''content-length: '' @ show_nat (length (fc_body ?cfg))]
        else [])"
  have lines: "lines = [''Host: '' @ host_header U target host port, ''Accept-Encoding: gzip, deflate, br'', ''Connection: close'']
      @ map header_line ?hs @ ?tail"
    using l unfolding request_lines_def by simp
  have F: "fields_named n lines = (if n = ''accept-encoding'' then [''Accept-Encoding: gzip, deflate, br''] else [])
      @ fields_named n (map header_line ?hs)
      @ (if n = ''user-agent'' \<and> \<not> list_ex (\<lambda>h. eq_ic (fst h) ''user-agent'') ?hs then [''user-agent: '' @ fp_user_agent ?P] else [])"
    if "n \<in> four_names" for n
  proof -
    have fi: "fields_named n (if b then x else y) = (if b then fields_named n x else fields_named n y)" for b x y by simp
    have "n \<noteq> ''host''" "n \<noteq> ''connection''" "n \<noteq> ''content-type''" "n \<noteq> ''content-length''"
      using that by (auto simp: four_names_def)
    then show ?thesis
      unfolding lines by (simp only: fields_named_simps fi fixed_fields c if_cancel append_Nil append_Nil2 simp_thms if_False) simp
  qed
  have four: "''user-agent'' \<in> four_names" "''accept'' \<in> four_names" "''accept-language'' \<in> four_names" "''accept-encoding'' \<in> four_names"
    by (simp_all add: four_names_def)
  have concl: "fields_named ''user-agent'' lines = [''user-agent: '' @ fp_user_agent (pp_fingerprint prep)]
     \<and> (if same_origin U target url
        then fields_named ''accept'' lines = [''accept: '' @ fp_accept (pp_fingerprint prep)]
          \<and> fields_named ''accept-language'' lines = [''accept-language: '' @ fp_accept_language (pp_fingerprint prep)]
          \<and> fields_named ''accept-encoding'' lines = [''Accept-Encoding: gzip, deflate, br'', ''accept-encoding: gzip, deflate, br'']
          \<and> (\<forall>(n, v) \<in> set (so_headers opts). \<not> seed_owned n \<longrightarrow> to_lower n @ '': '' @ v \<in> set lines)
        else fields_named ''accept'' lines = [] \<and> fields_named ''accept-language'' lines = []
          \<and> fields_named ''accept-encoding'' lines = [''Accept-Encoding: gzip, deflate, br''])"
  proof (cases "same_origin U target url")
    case True
    then have hs: "?hs = pp_headers prep" by (simp add: caller_headers_for_def c)
    from assms(1) obtain order where "fp_accept_encoding ?P = ''gzip, deflate, br''" by (rule prepared_headers)
    then have v: "seed_value ?P ''user-agent'' = fp_user_agent ?P" "seed_value ?P ''accept'' = fp_accept ?P"
      "seed_value ?P ''accept-language'' = fp_accept_language ?P" "seed_value ?P ''accept-encoding'' = ''gzip, deflate, br''"
      by (simp_all add: seed_value_def)
    have o: "to_lower n @ '': '' @ x \<in> set lines" if "(n, x) \<in> set (so_headers opts)" "\<not> seed_owned n" for n x
      using prepared_other_line[OF assms(1) that] unfolding lines hs by (simp add: header_line_def)
    note P = prepared_fields[OF assms(1)]
    show ?thesis
      using True o by (auto simp: F four P hs has_user_agent[OF assms(1)] header_line_def v)
  next
    case False
    then have "?hs = []" by (simp add: caller_headers_for_def)
    with False show ?thesis by (simp add: F four)
  qed
  have bb: "bytes = with_crlf (first # lines) @ CRLF @ (if sends_body ?cfg then fc_body ?cfg else [])" using b unfolding l .
  have oo: "\<forall>l \<in> set (first # lines). l \<noteq> [] \<and> one_line l" using one unfolding l .
  show ?thesis
    by (rule exI, rule exI, rule exI, rule conjI, rule bb, rule conjI, rule oo, rule concl)
qed

text \<open>The concrete scrape's request, to the origin it was asked for.\<close>

theorem seed_headers_on_wire_witness:
  "\<exists>prep bytes first lines rest.
     prepare (ev_quote shop_env) (ev_parse_json shop_env) (ev_ops shop_env) (ev_login shop_env) (ev_env shop_env) shop_options
       (site ''/a'') = Inr prep
     \<and> build_http_request demo_url_ops (site ''/a'') ''a.example'' 443 (hop_config shop_options (site ''/a'') prep ''GET'' [])
         (site ''/a'') = Inr bytes
     \<and> bytes = with_crlf (first # lines) @ CRLF @ rest
     \<and> fields_named ''accept'' lines = [''accept: '' @ fp_accept (pp_fingerprint prep)]"
proof -
  obtain p where p: "prepare (ev_quote shop_env) (ev_parse_json shop_env) (ev_ops shop_env) (ev_login shop_env) (ev_env shop_env)
       shop_options (site ''/a'') = Inr p"
    and h: "list_all (\<lambda>h. validate_header_pair (fst h) (snd h) = Inr ()) (pp_headers p)"
      "validate_header_pair ''user-agent'' (fp_user_agent (pp_fingerprint p)) = Inr ()" by (rule shop_prepared)
  let ?cfg = "hop_config shop_options (site ''/a'') p ''GET'' []"
  have so: "same_origin demo_url_ops (site ''/a'') (site ''/a'')" and t: "trim ''GET'' = ''GET''" "is_valid_http_method ''GET''"
    by code_simp+
  have "is_ok (build_http_request demo_url_ops (site ''/a'') ''a.example'' 443 ?cfg (site ''/a''))"
    by (intro request_ok so) (simp_all add: request_method_def hop_config_def scrape_fetch_config_def t h)
  then obtain bytes where b: "build_http_request demo_url_ops (site ''/a'') ''a.example'' 443 ?cfg (site ''/a'') = Inr bytes"
    by (auto simp: is_ok_iff)
  have o: "one_line ''a.example''" "one_line (url_path demo_url_ops (site ''/a''))"
    "\<forall>q. url_query demo_url_ops (site ''/a'') = Some q \<longrightarrow> one_line q" by (simp_all add: demo_url_ops_def site_def)
  from seed_headers_on_wire[OF p b o] obtain first lines rest where
    "bytes = with_crlf (first # lines) @ CRLF @ rest" "fields_named ''accept'' lines = [''accept: '' @ fp_accept (pp_fingerprint p)]"
    unfolding if_P[OF so] by (elim exE conjE)
  with p b show ?thesis by (intro exI conjI)
qed

end
