(* ===== verification/Spec2Isabelle.thy ===== *)
theory Spec2Isabelle
  imports Seal_Task Redact Robots Page_Links Canonical Scrape_Surface Stealth Crawl Map_Lite Batch
    Antibot_Feedback Key_Release Dns_Resolver Render_Guard Proxy_Dial Captcha_Solver Fingerprint_Space
    Scrape_Attest Page_Render Egress Metadata Scrape_Setup
    Markdown Document Scrape Scrape_Outcome Scrape_Network Scrape_Launch Scrape_Headers
begin

text \<open>
  A model of basecrawl, an attested web crawler in Rust, with the theorems that make it correct.

  \<^bold>\<open>The program.\<close> One scrape (\<^verbatim>\<open>scrape\<close> in \<^verbatim>\<open>crates/basecrawl-core/src/lib.rs\<close>) takes a URL and options,
  consults robots.txt, fetches the page over HTTP or a TLS stack of its own, follows redirects, renders it
  with Chromium if the page or the policy asks for it, extracts the requested formats, and assembles a
  \<^verbatim>\<open>ScrapeProof\<close>: a record of the request, the TLS session, the response, the result and the egress, which an
  enclave may quote and sign. \<^verbatim>\<open>crawl.rs\<close>, \<^verbatim>\<open>map_lite.rs\<close> and \<^verbatim>\<open>batch.rs\<close> repeat scrapes. \<^verbatim>\<open>basecrawl-seal\<close>
  carries tasks into the enclave and results out of it, obtains the task's key, and resolves names
  over a pinned encrypted resolver, also for the browser. \<^verbatim>\<open>basecrawl-fp\<close> derives the client's fingerprint
  from a seed, \<^verbatim>\<open>basecrawl-render\<close> bounds and guards the browser, \<^verbatim>\<open>basecrawl-proof\<close> declares the proof.

  \<^bold>\<open>Conventions.\<close> A Rust text or byte vector is a \<^typ>\<open>string\<close>, a list of bytes; where the code works on
  characters, the model works on their UTF-8 encodings. A \<^verbatim>\<open>struct\<close> is a record with a short prefix on
  its fields, an \<^verbatim>\<open>enum\<close> a datatype. Errors are the left side of a sum. A panic, and a loop that does not return, is
  the value \<^term>\<open>None\<close> of an outer option. Integers are naturals or integers with their bounds written out,
  or words where the code wraps (\<open>Fingerprint\<close>, \<open>Captcha_Solver\<close>). The world, which sockets, clocks and
  browsers act on, is a type variable: an operation that acts on it takes it and gives it back, and the
  type \<open>step\<close> of theory \<open>Fetch\<close> is the result of one that may also fail. Third-party code (the url
  crate, hashes, Ed25519, sealed boxes, base64, rustls, sockets, the HTML, XML, PDF and JSON
  readers, the browser) is a parameter, gathered in records such as \<open>url_ops\<close>, \<open>crypto_ops\<close>, \<open>net\<close> and
  \<open>html_ops\<close>; what a theorem needs of it is among its hypotheses, and its witness shows concrete functions with which they hold.

  \<^bold>\<open>Shared theories.\<close> \<open>Prelude\<close> has results, characters and whitespace; \<open>Rust_Str\<close> the string functions of the
  standard library; \<open>Ordered_Map\<close> the ordered maps behind JSON objects, as an interface with its
  interpretation; \<open>Ip_Addr\<close> the parser and printer of IP addresses; \<open>Seal_Base\<close> identities and the
  cryptographic parameters; \<open>Core_Error\<close> the error type of the core with its texts and the
  scrubber that keeps paths out of them; \<open>Url_Ops\<close> the url crate's interface and \<^verbatim>\<open>url_validation.rs\<close>.

  \<^bold>\<open>Sealing.\<close> \<open>Seal_Task\<close>, \<open>Seal_Result\<close>, \<open>Antibot_Feedback\<close>, \<open>Key_Release\<close> and \<open>Redact\<close> model the files of the same
  names in \<^verbatim>\<open>basecrawl-seal\<close>. Their theorems: what an envelope must be for its opening to succeed, and that sealing
  and opening are inverse; that a key is held only after a grant over the session's own quote; that no secret marker
  survives in a scrubbed payload. \<open>Dns_Wire\<close> and \<open>Dns_Resolver\<close> model \<^verbatim>\<open>dns.rs\<close> (message codec, pinned DoH
  and DoT exchange: only the pin is contacted, every lookup ends); \<open>Browser_Dns\<close> models the SOCKS server and the
  tunnel of \<^verbatim>\<open>browser_dns.rs\<close> (under every schedule of its two threads it forwards exact prefixes and ends).

  \<^bold>\<open>Fetching.\<close> \<open>Http_Request\<close>, \<open>Http_Response\<close> and \<open>Fetch\<close> model \<^verbatim>\<open>fetch.rs\<close>: header validation and request text (no
  field can add a line, no caller header crosses origins), framing and decoding of responses (chunked
  decoding inverts encoding), the redirect loop (at most twenty hops, and the record of them
  is the path taken). \<open>Proxy_Config\<close> and \<open>Proxy_Dial\<close> model \<^verbatim>\<open>proxy.rs\<close>: the upstream and its
  class, CONNECT and SOCKS5 clients that read exactly their replies and agree with the server of the seal, and the composer's
  dial, whose connects and writes, recorded over any network, name the pinned address to the upstream and nobody else.
  \<open>Robots_Rules\<close> and \<open>Robots\<close> model \<^verbatim>\<open>robots.rs\<close>: the meaning of a rule, the decision, the policy of every document hop, sitemaps within their caps.
  \<open>Charset\<close> models \<^verbatim>\<open>charset.rs\<close>.

  \<^bold>\<open>Pages.\<close> \<open>Page_Links\<close> (\<^verbatim>\<open>links.rs\<close>, \<^verbatim>\<open>pagination.rs\<close>), \<open>Metadata\<close> (\<^verbatim>\<open>metadata.rs\<close>), \<open>Product_Options\<close>
  (\<^verbatim>\<open>format.rs\<close>, \<^verbatim>\<open>product_request.rs\<close>, \<^verbatim>\<open>extract.rs\<close>, \<^verbatim>\<open>content.rs\<close>) and \<open>Scrape_Surface\<close> (redaction of the caller's
  headers) say what a result holds; \<open>Markdown\<close> (\<^verbatim>\<open>markdown.rs\<close>) renders a page, whose code blocks survive verbatim unless they are quoted, listed or inline, and \<open>Document\<close>
  (\<^verbatim>\<open>document.rs\<close>) reads PDF and office bodies within its bounds.

  \<^bold>\<open>The browser.\<close> \<open>Stealth\<close> models \<^verbatim>\<open>stealth.rs\<close>: when the browser is required, the profile of a task and its wiping, what is taken for a challenge.
  \<open>Captcha_Solver\<close> models \<^verbatim>\<open>captcha_solver.rs\<close>: a solve ends, its token is the service's, its key
  stays out of the errors. \<open>Fingerprint\<close> and \<open>Fingerprint_Space\<close> model \<^verbatim>\<open>basecrawl-fp\<close>. \<open>Render_Budget\<close> and
  \<open>Render_Guard\<close> model the budget, the pacer and the interception guard of \<^verbatim>\<open>basecrawl-render\<close> as a step
  relation over the browser's events: transmissions are spaced for every origin, every byte delivered is charged and the charges stay
  within the budget. To say so the guard's state records as effects the bodies it delivers and the bytes it sees received. \<open>Page_Render\<close> models what the core makes of the renderer's errors.

  \<^bold>\<open>The proof.\<close> \<open>Scrape_Proof\<close> has the blocks and their JSON, \<open>Canonical\<close> the digests of \<^verbatim>\<open>canonical.rs\<close> and what they
  commit to, \<open>Egress\<close> the egress block, \<open>Attestation\<close> the quote parser and the guest agent of \<^verbatim>\<open>attestation.rs\<close>,
  \<open>Scrape_Attest\<close> the end of \<^verbatim>\<open>scrape\<close> that quotes and signs.

  \<^bold>\<open>A scrape.\<close> \<open>Scrape_Options\<close> and \<open>Scrape_Setup\<close> model the options and everything before the first network call.
  \<open>Scrape\<close> is \<^verbatim>\<open>scrape\<close> itself over all the components: its state holds the world, the document hops, the slot of
  residential dials, the sticky profiles and the guard that wipes this scrape's; the browser is a function of the
  environment that may call the document policy for every navigation. \<open>Scrape_Laws\<close> shows that however it ends it leaves
  no slot and no profile behind: the locale \<open>step_relation\<close> carries what every step keeps through sequences of steps.
  \<open>Scrape_Outcome\<close> inverts a success: what a proof says of its scrape, and what a hard scrape may not surface as its own page.
  Three theories tie a proof to what the scrape did by replacing part of the environment: in \<open>Scrape_Network\<close> every dial but
  the one that the proof's class names, in \<open>Scrape_Launch\<close> the renderer on every launch that is not hardened; the scrape
  is the same. \<open>Scrape_Launch\<close> also shows that what a hard scrape surfaces came from such a launch. \<open>Scrape_Headers\<close> follows the seed's
  headers to the lines of each request.
  \<open>Scrape_Demo\<close> runs one scrape inside the logic, for the witnesses.

  \<^bold>\<open>Many scrapes.\<close> \<open>Crawl\<close>, \<open>Map_Lite\<close> and \<open>Batch\<close>; the batch is a step relation over every schedule of its workers, which refines the sequential map.

  \<^bold>\<open>Loops.\<close> Recursion is structural, or has a measure on what is left to read, on the hops, pages or milliseconds left; the loops
  that a peer could keep alive read from a source whose contract is the locale \<open>live_stream\<close>, and their ends are theorems.

  \<^bold>\<open>Not modelled.\<close> Launching and driving Chromium (the rest of \<^verbatim>\<open>basecrawl-render\<close> and the vendored driver), rustls and the capture of
  its handshakes, the command line, the FFI, the HTTP service, threads and sockets themselves. They are effects
  outside the code, or declarations for a library. The theorems on a scrape's dials are about its own connections, not the
  browser's; those on challenges are about the page it was asked for, since the code checks no further page.
\<close>

end
